(* ===== verification/Prelude.thy ===== *)
theory Prelude
  imports Main "HOL-Library.Char_ord" "HOL-Library.List_Lexorder"
begin

text \<open>
  The prelude of the development: the result type of fallible Go functions, the loop
  combinators the components share, and the generic facts about lists, sorting and
  association lists their proofs rest on. A Go function that returns \<open>(T, error)\<close> returns a
  value of a sum type, \<open>Inl\<close> for the error; a Go function that returns only an \<open>error\<close>
  returns an option, \<open>None\<close> for \<open>nil\<close>. A Go map is an association list, and a Go
  \<open>map[K]struct{}\<close> is the list of its keys: the order of the list stands for the
  unspecified order in which Go iterates over the map.
\<close>

named_theorems result_simps \<open>facts about the loop combinators of fallible code\<close>
named_theorems clone_id \<open>deep copies are the identity in a model without aliasing\<close>

named_theorems inr_simps \<open>when a chain of early returns succeeds\<close>

section \<open>Early returns\<close>

text \<open>
  A function body with early returns is a nest of \<open>if\<close> and \<open>case\<close>; it succeeds exactly when
  every guard passes. These rules rewrite \<open>body = Inr r\<close> into the conjunction of its guards.
\<close>

lemma if_Inl_eq_Inr [inr_simps]: "(if b then Inl e else r) = Inr z \<longleftrightarrow> \<not> b \<and> r = Inr z"
  by simp

lemma case_sum_eq_Inr [inr_simps]:
  "(case x of Inl e \<Rightarrow> Inl (g e) | Inr y \<Rightarrow> f y) = Inr z \<longleftrightarrow> (\<exists>y. x = Inr y \<and> f y = Inr z)"
  by (cases x) auto

lemma case_option_eq_Inr [inr_simps]:
  "(case x of None \<Rightarrow> r | Some e \<Rightarrow> Inl (g e)) = Inr z \<longleftrightarrow> x = None \<and> r = Inr z"
  by (cases x) auto

lemma case_option_Inl_eq_Inr [inr_simps]:
  "(case x of None \<Rightarrow> Inl e | Some y \<Rightarrow> f y) = Inr z \<longleftrightarrow> (\<exists>y. x = Some y \<and> f y = Inr z)"
  by (cases x) auto

lemma if_Some_eq_None [inr_simps]: "(if b then Some e else r) = None \<longleftrightarrow> \<not> b \<and> r = None"
  by simp

lemma case_option_eq_None [inr_simps]:
  "(case x of None \<Rightarrow> r | Some e \<Rightarrow> Some (g e)) = None \<longleftrightarrow> x = None \<and> r = None"
  by (cases x) auto

lemmas sum_simps [inr_simps] = sum.inject sum.distinct

section \<open>Loops over fallible steps\<close>

text \<open>\<open>check_all f xs\<close> is a validation loop: the first error of \<open>f\<close> over \<open>xs\<close>.\<close>

fun check_all :: "('a \<Rightarrow> 'e option) \<Rightarrow> 'a list \<Rightarrow> 'e option" where
  "check_all f [] = None"
| "check_all f (x # xs) = (case f x of Some e \<Rightarrow> Some e | None \<Rightarrow> check_all f xs)"

lemma check_all_None [result_simps]:
  "check_all f xs = None \<longleftrightarrow> (\<forall>x \<in> set xs. f x = None)"
  by (induction xs) (auto split: option.splits)

lemma check_all_Some:
  "check_all f xs = Some e \<Longrightarrow>
     \<exists>ys x zs. xs = ys @ x # zs \<and> (\<forall>y \<in> set ys. f y = None) \<and> f x = Some e"
proof (induction xs)
  case Nil
  then show ?case by simp
next
  case (Cons x xs)
  show ?case
  proof (cases "f x")
    case None
    with Cons obtain ys z zs where
      "xs = ys @ z # zs" "\<forall>y \<in> set ys. f y = None" "f z = Some e" by auto
    with None show ?thesis
      by (intro exI[of _ "x # ys"] exI[of _ z] exI[of _ zs]) simp
  next
    case (Some d)
    with Cons.prems show ?thesis
      by (intro exI[of _ "[]"] exI[of _ x] exI[of _ xs]) simp
  qed
qed

lemma check_all_SomeD: "check_all f xs = Some e \<Longrightarrow> \<exists>x \<in> set xs. f x = Some e"
  by (induction xs) (auto split: option.splits)

lemma check_all_append:
  "check_all f (xs @ ys) = (case check_all f xs of Some e \<Rightarrow> Some e | None \<Rightarrow> check_all f ys)"
  by (induction xs) (auto split: option.splits)

lemma check_all_cong [fundef_cong]:
  "xs = ys \<Longrightarrow> (\<And>x. x \<in> set ys \<Longrightarrow> f x = g x) \<Longrightarrow> check_all f xs = check_all g ys"
  by (induction xs arbitrary: ys) (auto split: option.splits)

text \<open>\<open>map_result f xs\<close> builds a slice with a fallible constructor.\<close>

fun map_result :: "('a \<Rightarrow> 'e + 'b) \<Rightarrow> 'a list \<Rightarrow> 'e + 'b list" where
  "map_result f [] = Inr []"
| "map_result f (x # xs) =
     (case f x of Inl e \<Rightarrow> Inl e
      | Inr y \<Rightarrow> (case map_result f xs of Inl e \<Rightarrow> Inl e | Inr ys \<Rightarrow> Inr (y # ys)))"

lemma map_result_Inr [result_simps]:
  "map_result f xs = Inr ys \<longleftrightarrow> list_all2 (\<lambda>x y. f x = Inr y) xs ys"
proof (induction xs arbitrary: ys)
  case Nil
  then show ?case by auto
next
  case (Cons x xs)
  show ?case
    by (auto simp: list_all2_Cons1 simp flip: Cons.IH split: sum.splits)
qed

lemma map_result_Inl: "map_result f xs = Inl e \<Longrightarrow> \<exists>x \<in> set xs. f x = Inl e"
  by (induction xs) (auto split: sum.splits)

text \<open>\<open>fold_result f s xs\<close> threads a state through a loop that may return early.\<close>

fun fold_result :: "('s \<Rightarrow> 'a \<Rightarrow> 'e + 's) \<Rightarrow> 's \<Rightarrow> 'a list \<Rightarrow> 'e + 's" where
  "fold_result f s [] = Inr s"
| "fold_result f s (x # xs) =
     (case f s x of Inl e \<Rightarrow> Inl e | Inr s' \<Rightarrow> fold_result f s' xs)"

lemma fold_result_append [result_simps]:
  "fold_result f s (xs @ ys) =
     (case fold_result f s xs of Inl e \<Rightarrow> Inl e | Inr s' \<Rightarrow> fold_result f s' ys)"
  by (induction xs arbitrary: s) (auto split: sum.splits)

lemma fold_result_invariant:
  assumes "fold_result f s xs = Inr s'" and "P s"
    and "\<And>s x t. x \<in> set xs \<Longrightarrow> P s \<Longrightarrow> f s x = Inr t \<Longrightarrow> P t"
  shows "P s'"
  using assms
proof (induction xs arbitrary: s)
  case Nil
  then show ?case by simp
next
  case (Cons x xs)
  from Cons.prems(1) obtain t where t: "f s x = Inr t" and rest: "fold_result f t xs = Inr s'"
    by (auto split: sum.splits)
  have "P t" using Cons.prems(2,3) t by auto
  with Cons.IH[OF rest] Cons.prems(3) show ?case by auto
qed

section \<open>Association lists standing for Go maps\<close>

text \<open>
  \<open>map_set k v m\<close> is the assignment \<open>m[k] = v\<close>, \<open>map_delete k m\<close> is \<open>delete(m, k)\<close>,
  and \<open>map_of m k\<close> is the lookup \<open>v, ok := m[k]\<close>.
\<close>

fun map_set :: "'k \<Rightarrow> 'v \<Rightarrow> ('k \<times> 'v) list \<Rightarrow> ('k \<times> 'v) list" where
  "map_set k v [] = [(k, v)]"
| "map_set k v ((k', v') # m) =
     (if k' = k then (k, v) # m else (k', v') # map_set k v m)"

definition map_delete :: "'k \<Rightarrow> ('k \<times> 'v) list \<Rightarrow> ('k \<times> 'v) list" where
  "map_delete k m = filter (\<lambda>(k', v). k' \<noteq> k) m"

lemma map_of_map_set [simp]: "map_of (map_set k v m) = (map_of m)(k \<mapsto> v)"
  by (induction m) (auto simp: fun_eq_iff)

lemma fst_map_set:
  "map fst (map_set k v m) = (if k \<in> fst ` set m then map fst m else map fst m @ [k])"
  by (induction m) force+

lemma distinct_map_set [simp]:
  "distinct (map fst (map_set k v m)) \<longleftrightarrow> distinct (map fst m)"
  by (cases "k \<in> fst ` set m") (simp_all add: fst_map_set)

lemma set_map_set_subset: "x \<in> set (map_set k v m) \<Longrightarrow> x = (k, v) \<or> x \<in> set m"
  by (induction m) (auto split: if_splits)

lemma map_of_map_delete [simp]: "map_of (map_delete k m) = (map_of m)(k := None)"
  by (induction m) (auto simp: map_delete_def fun_eq_iff)

lemma distinct_map_delete: "distinct (map fst m) \<Longrightarrow> distinct (map fst (map_delete k m))"
  by (induction m) (auto simp: map_delete_def)

lemma map_delete_id: "k \<notin> fst ` set m \<Longrightarrow> map_delete k m = m"
  by (induction m) (auto simp: map_delete_def)

lemma map_delete_map_set:
  "k \<notin> fst ` set m \<Longrightarrow> map_delete k (map_set k v m) = m"
  by (induction m) (auto simp: map_delete_def)

lemma map_set_map_set:
  "map_of m k = Some u \<Longrightarrow> map_set k u (map_set k v m) = m"
  by (induction m) (auto split: if_splits)

lemma map_set_same: "map_of m k = Some v \<Longrightarrow> map_set k v m = m"
  by (induction m) (auto split: if_splits)

section \<open>Lists of fields and models looked up by a key\<close>

lemma find_Some_key:
  "find P xs = Some x \<Longrightarrow> x \<in> set xs \<and> P x"
  by (induction xs) (auto split: if_splits)

lemma find_None_key: "find P xs = None \<longleftrightarrow> (\<forall>x \<in> set xs. \<not> P x)"
  by (induction xs) auto

lemma find_append:
  "find P (xs @ ys) = (case find P xs of None \<Rightarrow> find P ys | Some x \<Rightarrow> Some x)"
  by (induction xs) auto

lemma find_distinct_key:
  "distinct (map key xs) \<Longrightarrow> x \<in> set xs \<Longrightarrow> find (\<lambda>y. key y = key x) xs = Some x"
  by (induction xs) (auto simp: image_iff)

lemma filter_neq_notin: "k \<notin> key ` set xs \<Longrightarrow> filter (\<lambda>y. key y \<noteq> k) xs = xs"
  by (induction xs) auto

lemma length_filter_one_append:
  "length (filter P (xs @ ys)) = length (filter P xs) + length (filter P ys)"
  by simp

section \<open>Sorting\<close>

text \<open>
  Go's \<open>sort.Slice\<close> with a strict linear order returns the sorted permutation, which
  is unique where equal elements are indistinguishable: \<open>sort\<close> of the library.
\<close>

lemma sorted_hd_least: "xs \<noteq> [] \<Longrightarrow> x \<in> set xs \<Longrightarrow> hd (sort xs) \<le> (x :: 'a :: linorder)"
proof -
  assume "xs \<noteq> []" "x \<in> set xs"
  moreover obtain y ys where "sort xs = y # ys"
    using \<open>xs \<noteq> []\<close> by (cases "sort xs") (auto dest: arg_cong[of _ _ length])
  moreover have "sorted (sort xs)" by simp
  moreover have "x \<in> set (sort xs)" using \<open>x \<in> set xs\<close> by simp
  ultimately show ?thesis by auto
qed

lemma hd_sort_mem: "xs \<noteq> [] \<Longrightarrow> hd (sort xs) \<in> set xs"
  by (metis hd_in_set length_0_conv length_sort set_sort)

lemma sort_distinct_unique:
  "set xs = set ys \<Longrightarrow> distinct xs \<Longrightarrow> distinct ys \<Longrightarrow> sort xs = sort (ys :: 'a :: linorder list)"
  by (metis sorted_list_of_set_sort_remdups distinct_remdups_id)

text \<open>
  The duplicate scan \<open>for i := 1; i < len; i++ { if xs[i] == xs[i-1] ... }\<close>: the element
  at the first position that repeats its predecessor.
\<close>

fun first_adjacent :: "'a list \<Rightarrow> 'a option" where
  "first_adjacent (x # y # xs) = (if y = x then Some y else first_adjacent (y # xs))"
| "first_adjacent xs = None"

lemma first_adjacent_None:
  "sorted xs \<Longrightarrow> first_adjacent xs = None \<longleftrightarrow> distinct (xs :: 'a :: linorder list)"
  by (induction xs rule: first_adjacent.induct) (auto simp: order_class.le_less)

lemma first_adjacent_Some:
  "first_adjacent xs = Some x \<Longrightarrow> \<exists>ys zs. xs = ys @ x # x # zs"
proof (induction xs rule: first_adjacent.induct)
  case (1 a b xs)
  show ?case
  proof (cases "b = a")
    case True
    with 1 show ?thesis by (auto intro: exI[of _ "[]"])
  next
    case False
    with 1 obtain ys zs where "b # xs = ys @ x # x # zs" by auto
    then show ?thesis by (metis append_Cons)
  qed
qed auto

text \<open>All adjacent repetitions, in order: what a scan that collects them appends.\<close>

fun adjacent_repeats :: "'a list \<Rightarrow> 'a list" where
  "adjacent_repeats (x # y # xs) =
     (if y = x then y # adjacent_repeats (y # xs) else adjacent_repeats (y # xs))"
| "adjacent_repeats xs = []"

lemma adjacent_repeats_Nil:
  "sorted xs \<Longrightarrow> adjacent_repeats xs = [] \<longleftrightarrow> distinct (xs :: 'a :: linorder list)"
  by (induction xs rule: adjacent_repeats.induct) (auto simp: order_class.le_less)

lemma adjacent_repeats_subset: "set (adjacent_repeats xs) \<subseteq> set xs"
  by (induction xs rule: adjacent_repeats.induct) auto

lemma adjacent_repeats_count:
  "x \<in> set (adjacent_repeats xs) \<Longrightarrow> 2 \<le> count_list xs x"
proof (induction xs rule: adjacent_repeats.induct)
  case (1 a b xs)
  show ?case
  proof (cases "b = a")
    case True
    with 1 have "x = b \<or> x \<in> set (adjacent_repeats (b # xs))" by auto
    with 1 True show ?thesis by (auto simp: Suc_le_eq)
  next
    case False
    with 1 show ?thesis by auto
  qed
qed auto

end
