(* ===== verification/Go_Std.thy ===== *)
theory Go_Std
  imports Prelude
begin

text \<open>
  What the program uses of Go's standard library: byte strings, UTF-8 decoding
  (\<open>unicode/utf8\<close>), decimal printing (\<open>fmt\<close>'s \<open>%d\<close>), and the functions of \<open>strings\<close> it
  calls. A Go string is a list of bytes, Isabelle's \<open>char list\<close>, and Go's \<open><\<close> on strings is
  the bytewise lexicographic order of \<open>List_Lexorder\<close> over \<open>Char_ord\<close>. The Unicode
  classification tables of package \<open>unicode\<close> are data of the Go distribution: they are the
  parameter \<open>unicode_tables\<close> of the definitions that consult them.
\<close>

section \<open>Bytes and decimal printing\<close>

definition byte :: "char \<Rightarrow> nat" where
  "byte c = of_char c"

lemma byte_less [simp]: "byte c < 256"
  by (simp add: byte_def)

fun sprint_nat :: "nat \<Rightarrow> string" where
  "sprint_nat n =
     (if n < 10 then [char_of (48 + n)] else sprint_nat (n div 10) @ [char_of (48 + n mod 10)])"

declare sprint_nat.simps [simp del]

definition sprint_int :: "int \<Rightarrow> string" where
  "sprint_int i = (if i < 0 then ''-'' @ sprint_nat (nat (- i)) else sprint_nat (nat i))"

section \<open>UTF-8\<close>

definition RuneError :: nat where
  "RuneError = 65533"

definition in_bytes :: "nat \<Rightarrow> nat \<Rightarrow> char \<Rightarrow> bool" where
  "in_bytes lo hi c \<longleftrightarrow> lo \<le> byte c \<and> byte c \<le> hi"

text \<open>
  \<open>utf8.DecodeRuneInString\<close>: the first code point and its width in bytes; an invalid
  encoding is \<open>(RuneError, 1)\<close>, the empty string \<open>(RuneError, 0)\<close>. The second byte's
  range is narrowed for the lead bytes E0, ED, F0 and F4 (overlong forms, surrogates and
  values above 10FFFF).
\<close>

fun decode_rune :: "string \<Rightarrow> nat \<times> nat" where
  "decode_rune [] = (RuneError, 0)"
| "decode_rune (c0 # cs) =
    (let b0 = byte c0 in
     if b0 < 128 then (b0, 1)
     else if 194 \<le> b0 \<and> b0 \<le> 223 then
       (case cs of
          c1 # _ \<Rightarrow>
            if in_bytes 128 191 c1 then ((b0 - 192) * 64 + (byte c1 - 128), 2) else (RuneError, 1)
        | _ \<Rightarrow> (RuneError, 1))
     else if 224 \<le> b0 \<and> b0 \<le> 239 then
       (case cs of
          c1 # c2 # _ \<Rightarrow>
            if in_bytes (if b0 = 224 then 160 else 128) (if b0 = 237 then 159 else 191) c1
               \<and> in_bytes 128 191 c2
            then ((b0 - 224) * 4096 + (byte c1 - 128) * 64 + (byte c2 - 128), 3)
            else (RuneError, 1)
        | _ \<Rightarrow> (RuneError, 1))
     else if 240 \<le> b0 \<and> b0 \<le> 244 then
       (case cs of
          c1 # c2 # c3 # _ \<Rightarrow>
            if in_bytes (if b0 = 240 then 144 else 128) (if b0 = 244 then 143 else 191) c1
               \<and> in_bytes 128 191 c2 \<and> in_bytes 128 191 c3
            then ((b0 - 240) * 262144 + (byte c1 - 128) * 4096 + (byte c2 - 128) * 64
                  + (byte c3 - 128), 4)
            else (RuneError, 1)
        | _ \<Rightarrow> (RuneError, 1))
     else (RuneError, 1))"

lemma decode_rune_width:
  "s \<noteq> [] \<Longrightarrow> 0 < snd (decode_rune s)"
  by (cases s) (auto simp: Let_def split: list.splits)

lemma drop_rune_shorter:
  assumes "s \<noteq> []"
  shows "length (drop (snd (decode_rune s)) s) < length s"
  using decode_rune_width[OF assms] assms by (cases s) auto

text \<open>\<open>runes s\<close> is the sequence a \<open>for _, r := range s\<close> loop visits.\<close>

function runes :: "string \<Rightarrow> nat list" where
  "runes s = (if s = [] then [] else fst (decode_rune s) # runes (drop (snd (decode_rune s)) s))"
  by pat_completeness auto
termination
  by (relation "measure length") (auto simp del: length_drop intro: drop_rune_shorter)

declare runes.simps [simp del]

lemma runes_Nil [simp]: "runes [] = []"
  by (subst runes.simps) simp

text \<open>\<open>utf8.ValidString\<close>: no step of the decoding meets an invalid encoding.\<close>

function valid_utf8 :: "string \<Rightarrow> bool" where
  "valid_utf8 s =
     (if s = [] then True
      else decode_rune s \<noteq> (RuneError, 1) \<and> valid_utf8 (drop (snd (decode_rune s)) s))"
  by pat_completeness auto
termination
  by (relation "measure length") (auto simp del: length_drop intro: drop_rune_shorter)

declare valid_utf8.simps [simp del]

lemma valid_utf8_Nil [simp]: "valid_utf8 []"
  by (subst valid_utf8.simps) simp

definition rune_count :: "string \<Rightarrow> nat" where
  "rune_count s = length (runes s)"

lemma runes_ascii: "\<forall>c \<in> set s. byte c < 128 \<Longrightarrow> runes s = map byte s"
proof (induction s)
  case (Cons c s)
  then show ?case by (subst runes.simps) (simp add: Let_def)
qed simp

lemma valid_utf8_ascii: "\<forall>c \<in> set s. byte c < 128 \<Longrightarrow> valid_utf8 s"
proof (induction s)
  case (Cons c s)
  then show ?case by (subst valid_utf8.simps) (simp add: Let_def RuneError_def)
qed simp

lemma rune_count_le: "rune_count s \<le> length s"
proof (induction s rule: runes.induct)
  case (1 s)
  show ?case
  proof (cases "s = []")
    case False
    then have "rune_count s = Suc (rune_count (drop (snd (decode_rune s)) s))"
      unfolding rune_count_def by (subst runes.simps) simp
    also have "\<dots> \<le> Suc (length (drop (snd (decode_rune s)) s))"
      using 1 False by simp
    also have "\<dots> \<le> length s"
      using drop_rune_shorter[OF False] by simp
    finally show ?thesis .
  qed (simp add: rune_count_def)
qed

section \<open>The Unicode classification tables\<close>

record unicode_tables =
  isUpper :: "nat \<Rightarrow> bool"
  isLetter :: "nat \<Rightarrow> bool"
  isDigit :: "nat \<Rightarrow> bool"
  toLower :: "nat \<Rightarrow> nat"
  isPrint :: "nat \<Rightarrow> bool"

text \<open>The tables restricted to ASCII, where they are the familiar ranges.\<close>

definition ascii_tables :: unicode_tables where
  "ascii_tables = \<lparr>
     isUpper = (\<lambda>r. 65 \<le> r \<and> r \<le> 90),
     isLetter = (\<lambda>r. 65 \<le> r \<and> r \<le> 90 \<or> 97 \<le> r \<and> r \<le> 122),
     isDigit = (\<lambda>r. 48 \<le> r \<and> r \<le> 57),
     toLower = (\<lambda>r. if 65 \<le> r \<and> r \<le> 90 then r + 32 else r),
     isPrint = (\<lambda>r. 32 \<le> r \<and> r \<le> 126)\<rparr>"

section \<open>Package strings\<close>

text \<open>\<open>strings.ReplaceAll(s, old, new)\<close> for a one-byte \<open>old\<close>.\<close>

definition replace_byte :: "char \<Rightarrow> string \<Rightarrow> string \<Rightarrow> string" where
  "replace_byte old new s = concat (map (\<lambda>c. if c = old then new else [c]) s)"

lemma replace_byte_Nil [simp]: "replace_byte c new [] = []"
  by (simp add: replace_byte_def)

lemma replace_byte_Cons:
  "replace_byte old new (c # s) = (if c = old then new else [c]) @ replace_byte old new s"
  by (simp add: replace_byte_def)

lemma replace_byte_append:
  "replace_byte old new (s @ t) = replace_byte old new s @ replace_byte old new t"
  by (simp add: replace_byte_def)

text \<open>\<open>strings.Join(parts, sep)\<close>.\<close>

fun join_strings :: "string \<Rightarrow> string list \<Rightarrow> string" where
  "join_strings sep [] = []"
| "join_strings sep [p] = p"
| "join_strings sep (p # q # ps) = p @ sep @ join_strings sep (q # ps)"

text \<open>
  \<open>strings.ToLower\<close>: byte by byte on ASCII, otherwise through the case table rune by rune,
  each result encoded again (an invalid byte becomes the encoding of the error rune).
\<close>

definition encode_rune :: "nat \<Rightarrow> string" where
  "encode_rune r =
     (if r < 128 then [char_of r]
      else if r < 2048 then [char_of (192 + r div 64), char_of (128 + r mod 64)]
      else if 1114111 < r \<or> (55296 \<le> r \<and> r \<le> 57343) then [char_of (239::nat), char_of (191::nat), char_of (189::nat)]
      else if r < 65536 then
        [char_of (224 + r div 4096), char_of (128 + r div 64 mod 64), char_of (128 + r mod 64)]
      else
        [char_of (240 + r div 262144), char_of (128 + r div 4096 mod 64), char_of (128 + r div 64 mod 64),
         char_of (128 + r mod 64)])"

definition ascii_lower :: "char \<Rightarrow> char" where
  "ascii_lower c = (if 65 \<le> byte c \<and> byte c \<le> 90 then char_of (byte c + 32) else c)"

definition is_ascii :: "string \<Rightarrow> bool" where
  "is_ascii s \<longleftrightarrow> list_all (\<lambda>c. byte c < 128) s"

definition to_lower :: "unicode_tables \<Rightarrow> string \<Rightarrow> string" where
  "to_lower uc s =
     (if is_ascii s then map ascii_lower s else concat (map (\<lambda>r. encode_rune (toLower uc r)) (runes s)))"

lemma to_lower_ascii: "is_ascii s \<Longrightarrow> to_lower uc s = map ascii_lower s"
  by (simp add: to_lower_def)

text \<open>\<open>strings.HasPrefix\<close>, \<open>strings.Index\<close>, \<open>strings.LastIndex\<close> and \<open>strings.Contains\<close>.\<close>

definition has_prefix :: "string \<Rightarrow> string \<Rightarrow> bool" where
  "has_prefix s p \<longleftrightarrow> take (length p) s = p"

fun index_of :: "string \<Rightarrow> string \<Rightarrow> nat option" where
  "index_of [] p = (if p = [] then Some 0 else None)"
| "index_of (c # s) p = (if has_prefix (c # s) p then Some 0 else map_option Suc (index_of s p))"

fun last_index :: "string \<Rightarrow> string \<Rightarrow> nat option" where
  "last_index [] p = (if p = [] then Some 0 else None)"
| "last_index (c # s) p =
     (case last_index s p of
        Some i \<Rightarrow> Some (Suc i)
      | None \<Rightarrow> if has_prefix (c # s) p then Some 0 else None)"

definition contains_string :: "string \<Rightarrow> string \<Rightarrow> bool" where
  "contains_string s p \<longleftrightarrow> index_of s p \<noteq> None"

lemma has_prefix_iff: "has_prefix s p \<longleftrightarrow> (\<exists>t. s = p @ t)"
  by (metis has_prefix_def append_eq_conv_conj append_take_drop_id)

lemma index_of_Some:
  "index_of s p = Some i \<Longrightarrow> i \<le> length s \<and> has_prefix (drop i s) p \<and> (\<forall>j < i. \<not> has_prefix (drop j s) p)"
proof (induction s p arbitrary: i rule: index_of.induct)
  case (2 c s p)
  then show ?case
    by (fastforce split: if_splits simp: less_Suc_eq_0_disj)
qed (auto simp: has_prefix_def split: if_splits)

lemma index_of_None:
  "index_of s p = None \<Longrightarrow> j \<le> length s \<Longrightarrow> \<not> has_prefix (drop j s) p"
proof (induction s p arbitrary: j rule: index_of.induct)
  case (2 c s p)
  then show ?case by (cases j) (auto split: if_splits)
qed (auto simp: has_prefix_def split: if_splits)

lemma contains_string_iff: "contains_string s p \<longleftrightarrow> (\<exists>u v. s = u @ p @ v)"
proof
  assume "contains_string s p"
  then obtain i where "index_of s p = Some i" by (auto simp: contains_string_def)
  from index_of_Some[OF this] obtain v where "drop i s = p @ v" by (auto simp: has_prefix_iff)
  then show "\<exists>u v. s = u @ p @ v" by (metis append_take_drop_id)
next
  assume "\<exists>u v. s = u @ p @ v"
  then obtain u v where "s = u @ p @ v" by blast
  then have "has_prefix (drop (length u) s) p" "length u \<le> length s" by (auto simp: has_prefix_iff)
  then show "contains_string s p" using index_of_None by (auto simp: contains_string_def)
qed

end
