(* ===== verification/Migration_Key.thy ===== *)
theory Migration_Key
  imports Prelude
begin

text \<open>
  The identity of a migration (\<open>migrations/planner.go\<close>, \<open>MigrationKey\<close>) with the order the
  planner sorts by (\<open>migrations/planner_graph.go\<close>, \<open>migrationKeyLess\<close>). The type is an
  instance of \<open>linorder\<close>, so that \<open>sort\<close> and the facts about sorted lists apply to keys.
\<close>

datatype migration_key = MigrationKey (kApp: string) (kName: string)

definition migrationKeyLess :: "migration_key \<Rightarrow> migration_key \<Rightarrow> bool" where
  "migrationKeyLess left right =
     (if kApp left \<noteq> kApp right then kApp left < kApp right else kName left < kName right)"

instantiation migration_key :: linorder
begin

definition less_migration_key :: "migration_key \<Rightarrow> migration_key \<Rightarrow> bool" where
  "less_migration_key = migrationKeyLess"

definition less_eq_migration_key :: "migration_key \<Rightarrow> migration_key \<Rightarrow> bool" where
  "less_eq_migration_key left right \<longleftrightarrow> migrationKeyLess left right \<or> left = right"

instance
proof
  fix x y z :: migration_key
  show "(x < y) = (x \<le> y \<and> \<not> y \<le> x)"
    by (auto simp: less_migration_key_def less_eq_migration_key_def migrationKeyLess_def
        split: if_splits)
  show "x \<le> x"
    by (simp add: less_eq_migration_key_def)
  show "x \<le> y \<Longrightarrow> y \<le> z \<Longrightarrow> x \<le> z"
    by (auto simp: less_eq_migration_key_def migrationKeyLess_def split: if_splits)
  show "x \<le> y \<Longrightarrow> y \<le> x \<Longrightarrow> x = y"
    by (auto simp: less_eq_migration_key_def migrationKeyLess_def split: if_splits)
  show "x \<le> y \<or> y \<le> x"
    by (cases x; cases y) (auto simp: less_eq_migration_key_def migrationKeyLess_def)
qed

end

lemma migration_key_less_simps [simp]:
  "MigrationKey a n < MigrationKey b m \<longleftrightarrow> (if a \<noteq> b then a < b else n < m)"
  "MigrationKey a n \<le> MigrationKey b m \<longleftrightarrow> (if a \<noteq> b then a < b else n \<le> m)"
  by (auto simp: less_migration_key_def less_eq_migration_key_def migrationKeyLess_def
      order.order_iff_strict)

text \<open>The zero value \<open>MigrationKey{}\<close>, and the validity test of \<open>planner_graph.go\<close>.\<close>

definition zeroKey :: migration_key where
  "zeroKey = MigrationKey '''' ''''"

definition validMigrationKey :: "migration_key \<Rightarrow> bool" where
  "validMigrationKey key \<longleftrightarrow> kApp key \<noteq> '''' \<and> kName key \<noteq> ''''"

definition sortMigrationKeys :: "migration_key list \<Rightarrow> migration_key list" where
  "sortMigrationKeys keys = sort keys"

lemma sortMigrationKeys_facts [simp]:
  "set (sortMigrationKeys keys) = set keys"
  "length (sortMigrationKeys keys) = length keys"
  "sorted (sortMigrationKeys keys)"
  "distinct (sortMigrationKeys keys) \<longleftrightarrow> distinct keys"
  by (simp_all add: sortMigrationKeys_def)

text \<open>
  An edge of the dependency graph and the order \<open>sortDependencyEdges\<close> gives edges: by child,
  then by parent.
\<close>

datatype dependency_edge = DependencyEdge (eChild: migration_key) (eParent: migration_key)

definition dependencyEdgeLess :: "dependency_edge \<Rightarrow> dependency_edge \<Rightarrow> bool" where
  "dependencyEdgeLess left right =
     (if eChild left \<noteq> eChild right then migrationKeyLess (eChild left) (eChild right)
      else migrationKeyLess (eParent left) (eParent right))"

instantiation dependency_edge :: linorder
begin

definition less_dependency_edge :: "dependency_edge \<Rightarrow> dependency_edge \<Rightarrow> bool" where
  "less_dependency_edge = dependencyEdgeLess"

definition less_eq_dependency_edge :: "dependency_edge \<Rightarrow> dependency_edge \<Rightarrow> bool" where
  "less_eq_dependency_edge left right \<longleftrightarrow> dependencyEdgeLess left right \<or> left = right"

instance
proof
  fix x y z :: dependency_edge
  note defs = less_dependency_edge_def less_eq_dependency_edge_def dependencyEdgeLess_def
    less_migration_key_def [symmetric]
  show "(x < y) = (x \<le> y \<and> \<not> y \<le> x)"
    by (auto simp: defs split: if_splits)
  show "x \<le> x"
    by (simp add: defs)
  show "x \<le> y \<Longrightarrow> y \<le> z \<Longrightarrow> x \<le> z"
    by (auto simp: defs split: if_splits)
  show "x \<le> y \<Longrightarrow> y \<le> x \<Longrightarrow> x = y"
    by (auto simp: defs split: if_splits)
  show "x \<le> y \<or> y \<le> x"
    by (cases x; cases y) (auto simp: defs)
qed

end

definition sortDependencyEdges :: "dependency_edge list \<Rightarrow> dependency_edge list" where
  "sortDependencyEdges edges = sort edges"

lemma hd_sortDependencyEdges:
  assumes "edges \<noteq> []"
  shows "hd (sortDependencyEdges edges) \<in> set edges"
    and "e \<in> set edges \<Longrightarrow> hd (sortDependencyEdges edges) \<le> e"
  using assms by (simp_all add: sortDependencyEdges_def hd_sort_mem sorted_hd_least)

end
