(* ===== verification/Go_Errors.thy ===== *)
theory Go_Errors
  imports Migration_Key
begin

text \<open>
  The error values of the program. Go's \<open>error\<close> interface is open; the datatype \<open>go_error\<close>
  closes it over the error types the repository declares (\<open>schema/ir/normalize.go\<close>,
  \<open>query/error.go\<close>, \<open>migrations/executor.go\<close>, \<open>migrations/planner.go\<close>,
  \<open>migrations/history.go\<close>, \<open>migrations/backend/backend.go\<close>), what \<open>errors.New\<close>,
  \<open>fmt.Errorf\<close> and \<open>errors.Join\<close> build, the sentinels of \<open>context\<close> and \<open>database/sql\<close>, and
  the SQLite driver's error, of which the program reads only the code and the message. A
  formatted message is kept as its format string with its arguments, unrendered.
\<close>

section \<open>The error taxonomies\<close>

datatype query_category =
    CategoryField | CategoryQuery | CategoryBackend | CategoryArgument | CategoryModelState
  | CategoryNotUpdated | CategoryIntegrity | QueryCategoryOther string

datatype query_code =
    CodeUnknownField | CodeUnsupportedLookup | CodeDisallowedLookup | CodeInvalidValue
  | CodeInvalidLimit | CodeInvalidIndex | CodeUnorderedQuery | CodeInvalidPlan
  | CodeMissingTable | CodeRequiredField | CodeEmptyPatch | CodeMissingPrimaryKey
  | CodeUnexpectedRows | CodeUnsupported | CodePrimaryKeyUpdateField
  | CodeForceUpdateWithoutPrimaryKey | CodeForceUpdateMissingRow | CodeUpdateFieldsMissingRow
  | CodeMutuallyExclusiveForceFlags | CodeUniquePrimaryKey | QueryCodeOther string

datatype error_category =
    CategoryState | CategoryCapability | CategoryExecution | CategoryRecorder
  | CategoryTransaction | CategoryPlan | CategoryHistory | CategoryGraph

datatype error_code =
    CodeInvalidState | CodeUnsupportedOperation | CodeOperationFailed | CodeRecordFailed
  | CodeBeginFailed | CodeCommitFailed | CodeInvalidNode | CodeDuplicateNode
  | CodeInvalidDependency | CodeDuplicateDependency | CodeDependencyNotFound
  | CodeDependencyCycle | CodeInvalidAppliedState | CodeDuplicateApplied
  | CodeInconsistentAppliedHistory | CodeInvalidTarget | CodeTargetNotFound
  | CodeInvalidExecutionPlan | CodeMixedDirections | CodeReadFailed

text \<open>\<open>type Direction string\<close>: the two constants, and any other string a caller may supply.\<close>

datatype direction = DirectionForward | DirectionBackward | DirectionOther string

definition NoOperation :: int where
  "NoOperation = -1"

section \<open>Error values\<close>

datatype fmt_arg = FStr string | FInt int | FKey migration_key | FDir direction

text \<open>Diagnostic text: a format string and its arguments, or a plain string.\<close>

datatype fmt_text = Text (ftFormat: string) (ftArgs: "fmt_arg list")

abbreviation plain :: "string \<Rightarrow> fmt_text" where
  "plain s \<equiv> Text s []"

datatype go_error =
    ErrNew string
  | ErrFmt string "fmt_arg list"
  | ErrWrap string "fmt_arg list" go_error
  | ErrJoin "go_error list"
  | ContextCanceled
  | ContextDeadlineExceeded
  | SqlErrTxDone
  | DriverError int string
  | ValidationError (vePath: string) (veCode: string) (veInfo: string)
  | QueryError (qeCategory: query_category) (qeCode: query_code) (qeField: string)
      (qeLookup: string) (qeDetail: fmt_text) (qeCause: "go_error option")
  | CapabilityError (ceFeature: string) (ceDetail: fmt_text) (ceCause: "go_error option")
  | MigrationError (meCategory: error_category) (meCode: error_code) (meDirection: direction)
      (meApp: string) (meMigration: string) (meOperationIndex: int) (meOperation: string)
      (meCause: "go_error option") (meRollbackCause: "go_error option")
  | PlanningError (peCategory: error_category) (peCode: error_code) (peNode: migration_key)
      (peRelated: migration_key) (peMembers: "migration_key list")
  | RecorderError (reCategory: error_category) (reCode: error_code) (reCause: "go_error option")

text \<open>
  \<open>errors.Join\<close> drops nil errors and is nil when nothing is left.
\<close>

definition errors_join :: "go_error option list \<Rightarrow> go_error option" where
  "errors_join es = (case List.map_filter id es of [] \<Rightarrow> None | xs \<Rightarrow> Some (ErrJoin xs))"

lemma errors_join_None_iff: "errors_join es = None \<longleftrightarrow> (\<forall>e \<in> set es. e = None)"
  by (induction es) (auto simp: errors_join_def map_filter_simps split: list.splits option.splits)

text \<open>
  \<open>Unwrap\<close> of each error type. \<open>(*migrations.Error).Unwrap\<close> joins the primary and the
  rollback cause, so both can be found by \<open>errors.Is\<close> and \<open>errors.As\<close>.
\<close>

fun error_unwrap :: "go_error \<Rightarrow> go_error list" where
  "error_unwrap (ErrWrap _ _ e) = [e]"
| "error_unwrap (ErrJoin es) = es"
| "error_unwrap (QueryError _ _ _ _ _ c) = (case c of None \<Rightarrow> [] | Some e \<Rightarrow> [e])"
| "error_unwrap (CapabilityError _ _ c) = (case c of None \<Rightarrow> [] | Some e \<Rightarrow> [e])"
| "error_unwrap (MigrationError _ _ _ _ _ _ _ c r) = List.map_filter id [c, r]"
| "error_unwrap (RecorderError _ _ c) = (case c of None \<Rightarrow> [] | Some e \<Rightarrow> [e])"
| "error_unwrap _ = []"

lemma error_unwrap_size: "x \<in> set (error_unwrap e) \<Longrightarrow> size x < size e"
  by (cases e)
    (auto simp: map_filter_simps split: option.splits dest!: size_list_estimation'[where f = size, OF _ order_refl])

text \<open>The tree \<open>errors.Is\<close> and \<open>errors.As\<close> walk, in the order they walk it.\<close>

function error_tree :: "go_error \<Rightarrow> go_error list" where
  "error_tree e = e # concat (map error_tree (error_unwrap e))"
  by pat_completeness auto
termination
  by (relation "measure size") (auto dest: error_unwrap_size)

declare error_tree.simps [simp del]

definition errors_as :: "(go_error \<Rightarrow> bool) \<Rightarrow> go_error \<Rightarrow> bool" where
  "errors_as P e \<longleftrightarrow> list_ex P (error_tree e)"

definition errors_is :: "go_error \<Rightarrow> go_error \<Rightarrow> bool" where
  "errors_is e sentinel \<longleftrightarrow> list_ex (\<lambda>x. x = sentinel) (error_tree e)"

lemma errors_as_self: "P e \<Longrightarrow> errors_as P e"
  unfolding errors_as_def by (subst error_tree.simps) simp

lemma errors_as_unwrap: "x \<in> set (error_unwrap e) \<Longrightarrow> errors_as P x \<Longrightarrow> errors_as P e"
  unfolding errors_as_def by (subst error_tree.simps) (auto simp: list_ex_iff)

lemma errors_is_as: "errors_is e s = errors_as (\<lambda>x. x = s) e"
  by (simp add: errors_is_def errors_as_def)

text \<open>\<open>backend.IsCapabilityError\<close>: some error of the tree is a \<open>*CapabilityError\<close>.\<close>

definition IsCapabilityError :: "go_error \<Rightarrow> bool" where
  "IsCapabilityError e \<longleftrightarrow> errors_as is_CapabilityError e"

definition NewCapabilityError :: "string \<Rightarrow> fmt_text \<Rightarrow> go_error option \<Rightarrow> go_error" where
  "NewCapabilityError feature detail cause =
     CapabilityError (if feature = '''' then ''unknown_operation'' else feature) detail cause"

text \<open>
  \<open>(*query.Error).Is\<close>: the empty string in the target's category, code, field or lookup is
  a wildcard.
\<close>

definition query_error_is :: "go_error \<Rightarrow> go_error \<Rightarrow> bool" where
  "query_error_is e target =
     (case (e, target) of
        (QueryError c k f l _ _, QueryError c' k' f' l' _ _) \<Rightarrow>
          (c' = QueryCategoryOther '''' \<or> c = c') \<and> (k' = QueryCodeOther '''' \<or> k = k')
          \<and> (f' = '''' \<or> f = f') \<and> (l' = '''' \<or> l = l')
      | _ \<Rightarrow> False)"

definition newPlanningError ::
  "error_category \<Rightarrow> error_code \<Rightarrow> migration_key \<Rightarrow> migration_key \<Rightarrow> migration_key list
   \<Rightarrow> go_error" where
  "newPlanningError category code node related members =
     PlanningError category code node related members"

end
