(* ===== verification/Schema_IR.thy ===== *)
theory Schema_IR
  imports Go_Std Go_Errors
begin

text \<open>
  Package \<open>schema/ir\<close>: the normalized schema representation (\<open>types.go\<close>) and its
  normalization and validation (\<open>normalize.go\<close>). The lemmas show what \<open>Normalize\<close> computes
  (the normal form of its input, or an error), for which inputs (exactly those whose normal
  form is well formed, by a declarative predicate), and that it is idempotent.
\<close>

section \<open>Data\<close>

datatype field_kind = FieldAuto | FieldChar | FieldBoolean | FieldKindOther string

datatype scalar_kind = ScalarString | ScalarBoolean | ScalarInteger | ScalarKindOther string

text \<open>The string behind a kind, as \<open>string(field.Kind)\<close> renders it.\<close>

fun field_kind_string :: "field_kind \<Rightarrow> string" where
  "field_kind_string FieldAuto = ''auto''"
| "field_kind_string FieldChar = ''char''"
| "field_kind_string FieldBoolean = ''boolean''"
| "field_kind_string (FieldKindOther s) = s"

fun scalar_kind_string :: "scalar_kind \<Rightarrow> string" where
  "scalar_kind_string ScalarString = ''string''"
| "scalar_kind_string ScalarBoolean = ''boolean''"
| "scalar_kind_string ScalarInteger = ''integer''"
| "scalar_kind_string (ScalarKindOther s) = s"

record scalar_default =
  sdKind :: scalar_kind
  sdString :: string
  sdBoolean :: bool
  sdInteger :: int

record ir_field =
  fName :: string
  fGoName :: string
  fColumn :: string
  fKind :: field_kind
  fPrimaryKey :: bool
  fNullable :: bool
  fMaxLength :: int
  fDefault :: "scalar_default option"

record ir_model =
  mName :: string
  mGoName :: string
  mDBTable :: string
  mFields :: "ir_field list"

record ir_schema =
  sFormatVersion :: int
  sAppLabel :: string
  sModels :: "ir_model list"

definition FormatVersion :: int where
  "FormatVersion = 2"

text \<open>The zero value \<open>ir.Field{}\<close>.\<close>

definition zeroField :: ir_field where
  "zeroField = \<lparr>fName = '''', fGoName = '''', fColumn = '''', fKind = FieldKindOther '''',
     fPrimaryKey = False, fNullable = False, fMaxLength = 0, fDefault = None\<rparr>"

text \<open>
  \<open>Clone\<close> copies the slices and the pointees of the defaults. Values of the model are not
  shared, so the copies are equal to the originals.
\<close>

definition Model_Clone :: "ir_model \<Rightarrow> ir_model" where
  "Model_Clone m =
     m\<lparr>mFields := map (\<lambda>f. case fDefault f of None \<Rightarrow> f | Some value \<Rightarrow> f\<lparr>fDefault := Some value\<rparr>)
         (mFields m)\<rparr>"

definition Schema_Clone :: "ir_schema \<Rightarrow> ir_schema" where
  "Schema_Clone s = s\<lparr>sModels := map Model_Clone (sModels s)\<rparr>"

lemma Model_Clone_id [simp, clone_id]: "Model_Clone m = m"
proof -
  have "map (\<lambda>f. case fDefault f of None \<Rightarrow> f | Some value \<Rightarrow> f\<lparr>fDefault := Some value\<rparr>)
          (mFields m) = mFields m"
    by (rule map_idI) (auto split: option.splits)
  then show ?thesis by (simp add: Model_Clone_def)
qed

lemma Schema_Clone_id [simp, clone_id]: "Schema_Clone s = s"
proof -
  have "map Model_Clone (sModels s) = sModels s" by (rule map_idI) simp
  then show ?thesis by (simp add: Schema_Clone_def)
qed

section \<open>Identifiers\<close>

text \<open>The regular expression \<open>^[a-z_][a-z0-9_]*$\<close>.\<close>

definition identifier_start :: "char \<Rightarrow> bool" where
  "identifier_start c \<longleftrightarrow> 97 \<le> byte c \<and> byte c \<le> 122 \<or> c = CHR ''_''"

definition identifier_rest :: "char \<Rightarrow> bool" where
  "identifier_rest c \<longleftrightarrow> identifier_start c \<or> 48 \<le> byte c \<and> byte c \<le> 57"

definition databaseIdentifier :: "string \<Rightarrow> bool" where
  "databaseIdentifier s =
     (case s of [] \<Rightarrow> False | c # cs \<Rightarrow> identifier_start c \<and> list_all identifier_rest cs)"

lemma databaseIdentifier_nonempty: "databaseIdentifier s \<Longrightarrow> s \<noteq> ''''"
  by (auto simp: databaseIdentifier_def)

lemma databaseIdentifier_chars: "databaseIdentifier s \<Longrightarrow> c \<in> set s \<Longrightarrow> identifier_rest c"
  by (auto simp: databaseIdentifier_def identifier_rest_def list_all_iff split: list.splits)

lemma databaseIdentifier_join:
  assumes "databaseIdentifier a" and "databaseIdentifier b"
  shows "databaseIdentifier (a @ ''_'' @ b)"
  using assms
  by (auto simp: databaseIdentifier_def identifier_rest_def identifier_start_def list_all_iff
      split: list.splits)

definition exportedIdentifier :: "unicode_tables \<Rightarrow> string \<Rightarrow> bool" where
  "exportedIdentifier uc value =
     (if value = '''' \<or> \<not> valid_utf8 value then False
      else let (first, size) = decode_rune value in
        if first = RuneError \<or> \<not> isUpper uc first then False
        else list_all (\<lambda>current. current = 95 \<or> isLetter uc current \<or> isDigit uc current)
               (runes (drop size value)))"

lemma exportedIdentifier_ascii:
  "\<forall>c \<in> set s. byte c < 128 \<Longrightarrow> exportedIdentifier uc s \<longleftrightarrow>
     (case s of [] \<Rightarrow> False
      | c # cs \<Rightarrow> isUpper uc (byte c)
          \<and> list_all (\<lambda>c. byte c = 95 \<or> isLetter uc (byte c) \<or> isDigit uc (byte c)) cs)"
  by (cases s) (auto simp: exportedIdentifier_def valid_utf8_ascii runes_ascii list_all_iff RuneError_def)

section \<open>Validation\<close>

definition validation :: "string \<Rightarrow> string \<Rightarrow> string \<Rightarrow> go_error" where
  "validation path code info = ValidationError path code info"

definition validateScalarDefault :: "scalar_default \<Rightarrow> string \<Rightarrow> go_error option" where
  "validateScalarDefault value path =
     (case sdKind value of
        ScalarString \<Rightarrow>
          if \<not> valid_utf8 (sdString value)
          then Some (validation path ''invalid_utf8'' ''string default must contain valid UTF-8'')
          else if sdBoolean value \<or> sdInteger value \<noteq> 0
          then Some (validation path ''invalid_scalar''
                 ''string default carries another scalar payload'')
          else None
      | ScalarBoolean \<Rightarrow>
          if sdString value \<noteq> '''' \<or> sdInteger value \<noteq> 0
          then Some (validation path ''invalid_scalar''
                 ''boolean default carries another scalar payload'')
          else None
      | ScalarInteger \<Rightarrow>
          if sdString value \<noteq> '''' \<or> sdBoolean value
          then Some (validation path ''invalid_scalar''
                 ''integer default carries another scalar payload'')
          else None
      | ScalarKindOther _ \<Rightarrow>
          Some (validation (path @ ''.kind'') ''unsupported_scalar_kind''
                 (scalar_kind_string (sdKind value))))"

definition validateFieldKind :: "ir_field \<Rightarrow> string \<Rightarrow> go_error option" where
  "validateFieldKind field path =
     (case fKind field of
        FieldAuto \<Rightarrow>
          if \<not> fPrimaryKey field
          then Some (validation (path @ ''.primary_key'') ''required''
                 ''AutoField must be the primary key'')
          else if fNullable field
          then Some (validation (path @ ''.nullable'') ''unsupported''
                 ''AutoField cannot be nullable'')
          else if fMaxLength field \<noteq> 0
          then Some (validation (path @ ''.max_length'') ''unsupported''
                 ''AutoField has no max length'')
          else if fDefault field \<noteq> None
          then Some (validation (path @ ''.default'') ''unsupported''
                 ''AutoField default is database generated'')
          else None
      | FieldChar \<Rightarrow>
          if fPrimaryKey field
          then Some (validation (path @ ''.primary_key'') ''unsupported''
                 ''M1 supports only AutoField primary keys'')
          else if fMaxLength field \<le> 0
          then Some (validation (path @ ''.max_length'') ''invalid''
                 ''CharField max length must be positive'')
          else (case fDefault field of
                  None \<Rightarrow> None
                | Some value \<Rightarrow>
                    if sdKind value \<noteq> ScalarString
                    then Some (validation (path @ ''.default'') ''type_mismatch''
                           ''CharField default must be a string'')
                    else if int (rune_count (sdString value)) > fMaxLength field
                    then Some (validation (path @ ''.default'') ''max_length''
                           ''CharField default exceeds max length'')
                    else None)
      | FieldBoolean \<Rightarrow>
          if fPrimaryKey field
          then Some (validation (path @ ''.primary_key'') ''unsupported''
                 ''M1 supports only AutoField primary keys'')
          else if fNullable field
          then Some (validation (path @ ''.nullable'') ''unsupported''
                 ''nullable BooleanField is outside M1'')
          else if fMaxLength field \<noteq> 0
          then Some (validation (path @ ''.max_length'') ''unsupported''
                 ''BooleanField has no max length'')
          else (case fDefault field of
                  None \<Rightarrow> None
                | Some value \<Rightarrow>
                    if sdKind value \<noteq> ScalarBoolean
                    then Some (validation (path @ ''.default'') ''type_mismatch''
                           ''BooleanField default must be a boolean'')
                    else None)
      | FieldKindOther _ \<Rightarrow>
          Some (validation (path @ ''.kind'') ''unsupported_field_kind''
                 (field_kind_string (fKind field))))"

definition validateField :: "ir_field \<Rightarrow> string \<Rightarrow> go_error option" where
  "validateField field path =
     (case fDefault field of
        None \<Rightarrow> validateFieldKind field path
      | Some value \<Rightarrow>
          (case validateScalarDefault value (path @ ''.default'') of
             Some e \<Rightarrow> Some e
           | None \<Rightarrow> validateFieldKind field path))"

section \<open>Normalization\<close>

text \<open>
  The field loop of \<open>normalizeModel\<close>. The lists \<open>names\<close>, \<open>goNames\<close> and \<open>columns\<close> are the
  three \<open>seen\<close> maps, \<open>primaryKeys\<close> the running count; the result carries the fields with
  their columns filled in and the final count.
\<close>

fun normalizeFields ::
  "unicode_tables \<Rightarrow> string \<Rightarrow> nat \<Rightarrow> string list \<Rightarrow> string list \<Rightarrow> string list \<Rightarrow> nat
   \<Rightarrow> ir_field list \<Rightarrow> go_error + ir_field list \<times> nat" where
  "normalizeFields uc path index names goNames columns primaryKeys [] = Inr ([], primaryKeys)"
| "normalizeFields uc path index names goNames columns primaryKeys (field0 # flds) =
     (let fieldPath = path @ ''.fields['' @ sprint_nat index @ '']'';
          field = (if fColumn field0 = '''' then field0\<lparr>fColumn := fName field0\<rparr> else field0) in
      if \<not> databaseIdentifier (fName field)
      then Inl (validation (fieldPath @ ''.name'') ''invalid_identifier'' (fName field))
      else if \<not> exportedIdentifier uc (fGoName field)
      then Inl (validation (fieldPath @ ''.go_name'') ''invalid_go_identifier'' (fGoName field))
      else if \<not> databaseIdentifier (fColumn field)
      then Inl (validation (fieldPath @ ''.column'') ''invalid_identifier'' (fColumn field))
      else if fName field \<in> set names
      then Inl (validation (fieldPath @ ''.name'') ''duplicate'' (fName field))
      else if fGoName field \<in> set goNames
      then Inl (validation (fieldPath @ ''.go_name'') ''duplicate'' (fGoName field))
      else if fColumn field \<in> set columns
      then Inl (validation (fieldPath @ ''.column'') ''duplicate'' (fColumn field))
      else (case validateField field fieldPath of
              Some e \<Rightarrow> Inl e
            | None \<Rightarrow>
                (case normalizeFields uc path (Suc index) (fName field # names)
                        (fGoName field # goNames) (fColumn field # columns)
                        (if fPrimaryKey field then Suc primaryKeys else primaryKeys) flds of
                   Inl e \<Rightarrow> Inl e
                 | Inr (flds', n) \<Rightarrow> Inr (field # flds', n))))"

definition implicitPrimaryKey :: ir_field where
  "implicitPrimaryKey = zeroField\<lparr>fName := ''id'', fGoName := ''ID'', fColumn := ''id'',
     fKind := FieldAuto, fPrimaryKey := True\<rparr>"

definition normalizeModel :: "unicode_tables \<Rightarrow> ir_model \<Rightarrow> string \<Rightarrow> go_error + ir_model" where
  "normalizeModel uc model path =
     (let hasAuto = list_ex (\<lambda>field. fKind field = FieldAuto) (mFields model);
          flds = (if hasAuto then mFields model else implicitPrimaryKey # mFields model) in
      if flds = []
      then Inl (validation (path @ ''.fields'') ''empty''
             ''at least the implicit primary key is required'')
      else (case normalizeFields uc path 0 [] [] [] 0 flds of
              Inl e \<Rightarrow> Inl e
            | Inr (flds', primaryKeys) \<Rightarrow>
                if primaryKeys \<noteq> 1
                then Inl (validation (path @ ''.fields'') ''primary_key_count''
                       (''got '' @ sprint_nat primaryKeys @ '', want 1''))
                else Inr (model\<lparr>mFields := flds'\<rparr>)))"

text \<open>The model loop of \<open>Normalize\<close>.\<close>

fun normalizeModels ::
  "unicode_tables \<Rightarrow> string \<Rightarrow> nat \<Rightarrow> string list \<Rightarrow> string list \<Rightarrow> string list \<Rightarrow> ir_model list
   \<Rightarrow> go_error + ir_model list" where
  "normalizeModels uc appLabel index modelNames goNames tables [] = Inr []"
| "normalizeModels uc appLabel index modelNames goNames tables (model0 # models) =
     (let modelPath = ''models['' @ sprint_nat index @ '']'' in
      if \<not> databaseIdentifier (mName model0)
      then Inl (validation (modelPath @ ''.name'') ''invalid_identifier'' (mName model0))
      else if \<not> exportedIdentifier uc (mGoName model0)
      then Inl (validation (modelPath @ ''.go_name'') ''invalid_go_identifier'' (mGoName model0))
      else
        (let model = (if mDBTable model0 = ''''
                      then model0\<lparr>mDBTable := appLabel @ ''_'' @ mName model0\<rparr> else model0) in
         if \<not> databaseIdentifier (mDBTable model)
         then Inl (validation (modelPath @ ''.db_table'') ''invalid_identifier'' (mDBTable model))
         else if mName model \<in> set modelNames
         then Inl (validation (modelPath @ ''.name'') ''duplicate'' (mName model))
         else if mGoName model \<in> set goNames
         then Inl (validation (modelPath @ ''.go_name'') ''duplicate'' (mGoName model))
         else if mDBTable model \<in> set tables
         then Inl (validation (modelPath @ ''.db_table'') ''duplicate'' (mDBTable model))
         else (case normalizeModel uc model modelPath of
                 Inl e \<Rightarrow> Inl e
               | Inr model' \<Rightarrow>
                   (case normalizeModels uc appLabel (Suc index) (mName model # modelNames)
                           (mGoName model # goNames) (mDBTable model # tables) models of
                      Inl e \<Rightarrow> Inl e
                    | Inr models' \<Rightarrow> Inr (model' # models')))))"

definition Normalize :: "unicode_tables \<Rightarrow> ir_schema \<Rightarrow> go_error + ir_schema" where
  "Normalize uc input =
     (let cloned = Schema_Clone input;
          schema = (if sFormatVersion cloned = 0 then cloned\<lparr>sFormatVersion := FormatVersion\<rparr>
                    else cloned) in
      if sFormatVersion schema \<noteq> FormatVersion
      then Inl (validation ''format_version'' ''unsupported_version''
             (''got '' @ sprint_int (sFormatVersion schema) @ '', want '' @ sprint_int FormatVersion))
      else if \<not> databaseIdentifier (sAppLabel schema)
      then Inl (validation ''app_label'' ''invalid_identifier'' (sAppLabel schema))
      else if sModels schema = []
      then Inl (validation ''models'' ''empty'' ''at least one model is required'')
      else (case normalizeModels uc (sAppLabel schema) 0 [] [] [] (sModels schema) of
              Inl e \<Rightarrow> Inl e
            | Inr models \<Rightarrow> Inr (schema\<lparr>sModels := models\<rparr>)))"

section \<open>The declarative specification\<close>

text \<open>A scalar default that carries only the payload of its kind.\<close>

definition wf_scalar :: "scalar_default \<Rightarrow> bool" where
  "wf_scalar d \<longleftrightarrow>
     (case sdKind d of
        ScalarString \<Rightarrow> valid_utf8 (sdString d) \<and> \<not> sdBoolean d \<and> sdInteger d = 0
      | ScalarBoolean \<Rightarrow> sdString d = '''' \<and> sdInteger d = 0
      | ScalarInteger \<Rightarrow> sdString d = '''' \<and> \<not> sdBoolean d
      | ScalarKindOther _ \<Rightarrow> False)"

definition wf_kind :: "ir_field \<Rightarrow> bool" where
  "wf_kind f \<longleftrightarrow>
     (case fKind f of
        FieldAuto \<Rightarrow> fPrimaryKey f \<and> \<not> fNullable f \<and> fMaxLength f = 0 \<and> fDefault f = None
      | FieldChar \<Rightarrow> \<not> fPrimaryKey f \<and> 0 < fMaxLength f \<and>
          (\<forall>d. fDefault f = Some d \<longrightarrow> wf_scalar d \<and> sdKind d = ScalarString
                 \<and> int (rune_count (sdString d)) \<le> fMaxLength f)
      | FieldBoolean \<Rightarrow> \<not> fPrimaryKey f \<and> \<not> fNullable f \<and> fMaxLength f = 0 \<and>
          (\<forall>d. fDefault f = Some d \<longrightarrow> wf_scalar d \<and> sdKind d = ScalarBoolean)
      | FieldKindOther _ \<Rightarrow> False)"

definition wf_field :: "unicode_tables \<Rightarrow> ir_field \<Rightarrow> bool" where
  "wf_field uc f \<longleftrightarrow> databaseIdentifier (fName f) \<and> exportedIdentifier uc (fGoName f)
     \<and> databaseIdentifier (fColumn f) \<and> wf_kind f"

definition wf_model :: "unicode_tables \<Rightarrow> ir_model \<Rightarrow> bool" where
  "wf_model uc m \<longleftrightarrow> databaseIdentifier (mName m) \<and> exportedIdentifier uc (mGoName m)
     \<and> databaseIdentifier (mDBTable m) \<and> list_all (wf_field uc) (mFields m)
     \<and> distinct (map fName (mFields m)) \<and> distinct (map fGoName (mFields m))
     \<and> distinct (map fColumn (mFields m)) \<and> length (filter fPrimaryKey (mFields m)) = 1"

definition wf_schema :: "unicode_tables \<Rightarrow> ir_schema \<Rightarrow> bool" where
  "wf_schema uc s \<longleftrightarrow> sFormatVersion s = FormatVersion \<and> databaseIdentifier (sAppLabel s)
     \<and> sModels s \<noteq> [] \<and> list_all (wf_model uc) (sModels s)
     \<and> distinct (map mName (sModels s)) \<and> distinct (map mGoName (sModels s))
     \<and> distinct (map mDBTable (sModels s))"

text \<open>The normal form: what the defaulting steps of \<open>Normalize\<close> make of its input.\<close>

definition field_nf :: "ir_field \<Rightarrow> ir_field" where
  "field_nf f = (if fColumn f = '''' then f\<lparr>fColumn := fName f\<rparr> else f)"

definition model_nf :: "string \<Rightarrow> ir_model \<Rightarrow> ir_model" where
  "model_nf appLabel m =
     m\<lparr>mDBTable := (if mDBTable m = '''' then appLabel @ ''_'' @ mName m else mDBTable m),
       mFields := map field_nf
         (if list_ex (\<lambda>f. fKind f = FieldAuto) (mFields m) then mFields m
          else implicitPrimaryKey # mFields m)\<rparr>"

definition schema_nf :: "ir_schema \<Rightarrow> ir_schema" where
  "schema_nf s =
     s\<lparr>sFormatVersion := (if sFormatVersion s = 0 then FormatVersion else sFormatVersion s),
       sModels := map (model_nf (sAppLabel s)) (sModels s)\<rparr>"

section \<open>Validation decides the specification\<close>

lemma validateScalarDefault_None [result_simps]:
  "validateScalarDefault d path = None \<longleftrightarrow> wf_scalar d"
  by (auto simp: validateScalarDefault_def wf_scalar_def split: scalar_kind.splits)

lemma validateFieldKind_None:
  "fDefault f = None \<Longrightarrow> validateFieldKind f path = None \<longleftrightarrow> wf_kind f"
  by (auto simp: validateFieldKind_def wf_kind_def split: field_kind.splits)

lemma validateField_None [result_simps]: "validateField f path = None \<longleftrightarrow> wf_kind f"
proof (cases "fDefault f")
  case None
  then show ?thesis by (simp add: validateField_def validateFieldKind_None)
next
  case (Some d)
  then show ?thesis
    by (cases "fKind f")
      (auto simp: validateField_def validateFieldKind_def wf_kind_def result_simps inr_simps)
qed

lemma field_nf_simps [simp]:
  "fName (field_nf f) = fName f" "fGoName (field_nf f) = fGoName f"
  "fKind (field_nf f) = fKind f" "fPrimaryKey (field_nf f) = fPrimaryKey f"
  "fDefault (field_nf f) = fDefault f" "fNullable (field_nf f) = fNullable f"
  by (simp_all add: field_nf_def)

lemma field_nf_wf [simp]: "wf_field uc f \<Longrightarrow> field_nf f = f"
  by (auto simp: field_nf_def wf_field_def dest: databaseIdentifier_nonempty)

lemma normalizeFields_Inr:
  "normalizeFields uc path i names goNames columns n fs = Inr (gs, k) \<longleftrightarrow>
     gs = map field_nf fs \<and> list_all (wf_field uc) gs
     \<and> distinct (map fName gs) \<and> fName ` set gs \<inter> set names = {}
     \<and> distinct (map fGoName gs) \<and> fGoName ` set gs \<inter> set goNames = {}
     \<and> distinct (map fColumn gs) \<and> fColumn ` set gs \<inter> set columns = {}
     \<and> k = n + length (filter fPrimaryKey gs)"
proof (induction fs arbitrary: i names goNames columns n gs k)
  case Nil
  then show ?case by auto
next
  case (Cons f fs)
  have fold: "(if fColumn f = '''' then f\<lparr>fColumn := fName f\<rparr> else f) = field_nf f"
    by (simp add: field_nf_def)
  let ?g = "field_nf f"
  have "normalizeFields uc path i names goNames columns n (f # fs) = Inr (gs, k) \<longleftrightarrow>
      wf_field uc ?g \<and> fName f \<notin> set names \<and> fGoName f \<notin> set goNames
      \<and> fColumn ?g \<notin> set columns
      \<and> (\<exists>gs'. gs = ?g # gs' \<and>
           normalizeFields uc path (Suc i) (fName f # names) (fGoName f # goNames)
             (fColumn ?g # columns) (if fPrimaryKey f then Suc n else n) fs = Inr (gs', k))"
    unfolding normalizeFields.simps Let_def fold inr_simps validateField_None
      split_paired_Ex wf_field_def
    by (simp only: field_nf_simps prod.case prod.inject inr_simps simp_thms) blast
  note step = this[unfolded Cons.IH]
  show ?case
  proof (cases gs)
    case Nil
    then show ?thesis unfolding step by simp
  next
    case (Cons a as)
    show ?thesis
      unfolding Cons step[unfolded Cons]
      by (cases "fPrimaryKey f"; simp; intro iffI conjI; (elim conjE)?; force)
  qed
qed

lemma normalizeModel_Inr:
  "normalizeModel uc m path = Inr m' \<longleftrightarrow>
     m' = m\<lparr>mFields := map field_nf (if list_ex (\<lambda>f. fKind f = FieldAuto) (mFields m)
            then mFields m else implicitPrimaryKey # mFields m)\<rparr>
     \<and> list_all (wf_field uc) (mFields m') \<and> distinct (map fName (mFields m'))
     \<and> distinct (map fGoName (mFields m')) \<and> distinct (map fColumn (mFields m'))
     \<and> length (filter fPrimaryKey (mFields m')) = 1"
  (is "?L \<longleftrightarrow> ?R")
proof -
  let ?fs = "if list_ex (\<lambda>f. fKind f = FieldAuto) (mFields m)
             then mFields m else implicitPrimaryKey # mFields m"
  have "?L \<longleftrightarrow> ?fs \<noteq> [] \<and> (\<exists>gs. normalizeFields uc path 0 [] [] [] 0 ?fs = Inr (gs, 1)
          \<and> m' = m\<lparr>mFields := gs\<rparr>)"
    unfolding normalizeModel_def Let_def inr_simps
    by (auto simp: split_paired_Ex inr_simps)
  also have "\<dots> \<longleftrightarrow> ?R"
    unfolding normalizeFields_Inr by auto
  finally show ?thesis .
qed

lemma model_nf_simps [simp]:
  "mName (model_nf l m) = mName m" "mGoName (model_nf l m) = mGoName m"
  by (simp_all add: model_nf_def)

lemma wf_model_has_auto:
  assumes "wf_model uc m"
  shows "list_ex (\<lambda>f. fKind f = FieldAuto) (mFields m)"
proof -
  have "filter fPrimaryKey (mFields m) \<noteq> []"
    using assms by (auto simp: wf_model_def)
  then obtain f where "f \<in> set (mFields m)" "fPrimaryKey f"
    by (auto simp: filter_empty_conv)
  moreover from this assms have "wf_kind f"
    by (auto simp: wf_model_def wf_field_def list_all_iff)
  ultimately show ?thesis
    by (auto simp: wf_kind_def list_ex_iff split: field_kind.splits)
qed

lemma model_nf_wf [simp]:
  assumes "wf_model uc m"
  shows "model_nf l m = m"
proof -
  have "map field_nf (mFields m) = mFields m"
    using assms by (intro map_idI) (auto simp: wf_model_def list_all_iff)
  with wf_model_has_auto[OF assms] show ?thesis
    using assms by (auto simp: model_nf_def wf_model_def dest: databaseIdentifier_nonempty)
qed

lemma normalizeModels_Inr:
  "normalizeModels uc l i names goNames tables ms = Inr ms' \<longleftrightarrow>
     ms' = map (model_nf l) ms \<and> list_all (wf_model uc) ms'
     \<and> distinct (map mName ms') \<and> mName ` set ms' \<inter> set names = {}
     \<and> distinct (map mGoName ms') \<and> mGoName ` set ms' \<inter> set goNames = {}
     \<and> distinct (map mDBTable ms') \<and> mDBTable ` set ms' \<inter> set tables = {}"
proof (induction ms arbitrary: i names goNames tables ms')
  case Nil
  then show ?case by auto
next
  case (Cons m ms)
  let ?m = "if mDBTable m = '''' then m\<lparr>mDBTable := l @ ''_'' @ mName m\<rparr> else m"
  let ?g = "model_nf l m"
  have tab: "mDBTable ?m = mDBTable ?g" "mName ?m = mName m" "mGoName ?m = mGoName m"
    by (simp_all add: model_nf_def)
  have nf: "normalizeModel uc ?m p = Inr m' \<and> databaseIdentifier (mName m)
      \<and> exportedIdentifier uc (mGoName m) \<and> databaseIdentifier (mDBTable ?g)
      \<longleftrightarrow> m' = ?g \<and> wf_model uc ?g" for p m'
    unfolding normalizeModel_Inr by (auto simp: model_nf_def wf_model_def)
  have "normalizeModels uc l i names goNames tables (m # ms) = Inr ms' \<longleftrightarrow>
      wf_model uc ?g \<and> mName m \<notin> set names \<and> mGoName m \<notin> set goNames
      \<and> mDBTable ?g \<notin> set tables
      \<and> (\<exists>gs. ms' = ?g # gs \<and>
           normalizeModels uc l (Suc i) (mName m # names) (mGoName m # goNames)
             (mDBTable ?g # tables) ms = Inr gs)"
    unfolding normalizeModels.simps Let_def tab inr_simps
    using nf by blast
  note step = this[unfolded Cons.IH]
  show ?case
  proof (cases ms')
    case Nil
    then show ?thesis unfolding step by simp
  next
    case (Cons a as)
    show ?thesis
      unfolding Cons step[unfolded Cons] by (simp; intro iffI conjI; elim conjE; simp)
  qed
qed

lemma schema_nf_simps [simp]:
  "sAppLabel (schema_nf s) = sAppLabel s"
  "sModels (schema_nf s) = map (model_nf (sAppLabel s)) (sModels s)"
  by (simp_all add: schema_nf_def)

lemma schema_nf_wf [simp]:
  assumes "wf_schema uc s"
  shows "schema_nf s = s"
proof -
  have "map (model_nf (sAppLabel s)) (sModels s) = sModels s"
    using assms by (intro map_idI) (auto simp: wf_schema_def list_all_iff)
  then show ?thesis
    using assms by (simp add: schema_nf_def wf_schema_def FormatVersion_def)
qed

lemma Normalize_Inr_iff:
  "Normalize uc s = Inr t \<longleftrightarrow> t = schema_nf s \<and> wf_schema uc t"
proof -
  have nf: "schema_nf s
      = (if sFormatVersion s = 0 then s\<lparr>sFormatVersion := FormatVersion\<rparr> else s)
          \<lparr>sModels := map (model_nf (sAppLabel s)) (sModels s)\<rparr>"
    by (simp add: schema_nf_def)
  show ?thesis
    unfolding Normalize_def Let_def clone_id nf inr_simps normalizeModels_Inr wf_schema_def
    by auto
qed

lemma Normalize_wfD: "Normalize uc s = Inr t \<Longrightarrow> wf_schema uc t"
  using Normalize_Inr_iff by blast

lemma Normalize_wf_id [simp]: "wf_schema uc s \<Longrightarrow> Normalize uc s = Inr s"
  by (simp add: Normalize_Inr_iff)

lemma Normalize_eq_self: "Normalize uc s = Inr s \<longleftrightarrow> wf_schema uc s"
  by (auto dest: Normalize_wfD)

section \<open>Properties of normalization\<close>

text \<open>
  C1: \<open>Normalize\<close> succeeds exactly when the input with its defaults filled in (version,
  table names, column names, an implicit primary key) meets the declarative specification of
  Schema IR, and then it returns that schema; every other input is an error.
\<close>

theorem Normalize_decides:
  "Normalize uc s = Inr t \<longleftrightarrow> t = schema_nf s \<and> wf_schema uc t"
  by (rule Normalize_Inr_iff)

text \<open>
  C2: normalization is idempotent: a schema \<open>Normalize\<close> returned is returned unchanged when it
  is normalized again, and every model of it has exactly one primary key, an auto field.
\<close>

theorem Normalize_idempotent:
  assumes "Normalize uc s = Inr t"
  shows "Normalize uc t = Inr t
    \<and> (\<forall>m \<in> set (sModels t). \<exists>f \<in> set (mFields m). filter fPrimaryKey (mFields m) = [f]
         \<and> fKind f = FieldAuto)"
proof -
  have wf: "wf_schema uc t" by (rule Normalize_wfD[OF assms])
  have "\<exists>f \<in> set (mFields m). filter fPrimaryKey (mFields m) = [f] \<and> fKind f = FieldAuto"
    if m: "m \<in> set (sModels t)" for m
  proof -
    from wf m have wm: "wf_model uc m" by (simp add: wf_schema_def list_all_iff)
    then obtain f where f: "filter fPrimaryKey (mFields m) = [f]"
      by (auto simp: wf_model_def length_Suc_conv)
    then have "f \<in> set (filter fPrimaryKey (mFields m))" by simp
    then have fm: "f \<in> set (mFields m)" "fPrimaryKey f" by simp_all
    with wm have "wf_kind f" by (auto simp: wf_model_def list_all_iff wf_field_def)
    with fm have "fKind f = FieldAuto" by (auto simp: wf_kind_def split: field_kind.splits)
    with f fm show ?thesis by blast
  qed
  with wf show ?thesis by simp
qed

definition sample_schema :: ir_schema where
  "sample_schema = \<lparr>sFormatVersion = 0, sAppLabel = ''blog'', sModels =
     [\<lparr>mName = ''post'', mGoName = ''Post'', mDBTable = '''', mFields =
        [zeroField\<lparr>fName := ''title'', fGoName := ''Title'', fKind := FieldChar, fMaxLength := 80\<rparr>]\<rparr>]\<rparr>"

lemma sample_Normalize: "Normalize ascii_tables sample_schema = Inr (schema_nf sample_schema)"
  unfolding Normalize_Inr_iff
  by (simp add: sample_schema_def schema_nf_def model_nf_def field_nf_def implicitPrimaryKey_def
      wf_schema_def wf_model_def wf_field_def wf_kind_def zeroField_def FormatVersion_def
      databaseIdentifier_def identifier_start_def identifier_rest_def
      exportedIdentifier_ascii ascii_tables_def byte_def)

theorem Normalize_idempotent_witness:
  "Normalize ascii_tables (schema_nf sample_schema) = Inr (schema_nf sample_schema)"
  using Normalize_idempotent[OF sample_Normalize] by blast

end
