(* ===== verification/Migration_Types.thy ===== *)
theory Migration_Types
  imports Schema_IR
begin

text \<open>
  The data of package \<open>migrations\<close> shared by the planner, the executor and the
  reconstructor: operations (\<open>operation.go\<close>), migrations (\<open>executor.go\<close>), applied-history
  snapshots, targets and plan steps (\<open>planner.go\<close>).
\<close>

section \<open>Operations and migrations\<close>

datatype builtin_operation =
    CreateModel (cmAppLabel: string) (cmModel: ir_model)
  | AddField (afAppLabel: string) (afModelName: string) (afField: ir_field)

text \<open>
  A value of the sealed interface \<open>Operation\<close>: nil (a nil interface or a typed nil pointer), a
  built-in held by value or through a pointer, or a struct of another package that satisfies
  the interface by embedding a built-in, whose methods are promoted.
\<close>

datatype operation =
    NilOperation
  | ValueOperation builtin_operation
  | PointerOperation builtin_operation
  | EmbeddingOperation builtin_operation

fun operation_builtin :: "operation \<Rightarrow> builtin_operation option" where
  "operation_builtin NilOperation = None"
| "operation_builtin (ValueOperation b) = Some b"
| "operation_builtin (PointerOperation b) = Some b"
| "operation_builtin (EmbeddingOperation b) = Some b"

fun Kind :: "builtin_operation \<Rightarrow> string" where
  "Kind (CreateModel _ _) = ''CreateModel''"
| "Kind (AddField _ _ _) = ''AddField''"

fun App :: "builtin_operation \<Rightarrow> string" where
  "App (CreateModel appLabel _) = appLabel"
| "App (AddField appLabel _ _) = appLabel"

record migration =
  migApp :: string
  migName :: string
  migDependencies :: "migration_key list"
  migOperations :: "operation list"

definition migration_Key :: "migration \<Rightarrow> migration_key" where
  "migration_Key m = MigrationKey (migApp m) (migName m)"

section \<open>Applied history, targets and steps\<close>

text \<open>
  \<open>AppliedState\<close> holds a map, which is nil in the zero value: \<open>None\<close>.
\<close>

record applied_state =
  asKeys :: "migration_key list option"

definition zeroAppliedState :: applied_state where
  "zeroAppliedState = \<lparr>asKeys = None\<rparr>"

definition cloneAppliedKeys :: "migration_key list option \<Rightarrow> migration_key list" where
  "cloneAppliedKeys keys = (case keys of None \<Rightarrow> [] | Some ks \<Rightarrow> ks)"

definition NewAppliedState :: "migration_key list \<Rightarrow> go_error + applied_state" where
  "NewAppliedState keys =
     (let ordered = sortMigrationKeys keys in
      case find (\<lambda>key. \<not> validMigrationKey key) ordered of
        Some key \<Rightarrow>
          Inl (newPlanningError CategoryHistory CodeInvalidAppliedState key zeroKey [])
      | None \<Rightarrow>
          (case first_adjacent ordered of
             Some key \<Rightarrow>
               Inl (newPlanningError CategoryHistory CodeDuplicateApplied key zeroKey [])
           | None \<Rightarrow> Inr \<lparr>asKeys = Some ordered\<rparr>))"

lemma NewAppliedState_Inr_iff:
  "NewAppliedState keys = Inr a \<longleftrightarrow>
     a = \<lparr>asKeys = Some (sort keys)\<rparr> \<and> distinct keys \<and> (\<forall>k \<in> set keys. validMigrationKey k)"
  unfolding NewAppliedState_def Let_def inr_simps
  by (auto simp: sortMigrationKeys_def find_None_key first_adjacent_None)

text \<open>
  \<open>Target\<close> is a tagged struct: a tag of 1 (\<open>targetNamed\<close>) or 2 (\<open>targetZero\<close>), with both
  payload fields present whatever the tag.
\<close>

datatype target_kind = targetNone | targetNamed | targetZero

record target =
  tKind :: target_kind
  tKey :: migration_key
  tApp :: string

definition NamedTarget :: "migration_key \<Rightarrow> target" where
  "NamedTarget key = \<lparr>tKind = targetNamed, tKey = key, tApp = ''''\<rparr>"

definition ZeroTarget :: "string \<Rightarrow> target" where
  "ZeroTarget app = \<lparr>tKind = targetZero, tKey = zeroKey, tApp = app\<rparr>"

definition validateTarget :: "target \<Rightarrow> go_error option" where
  "validateTarget target =
     (case tKind target of
        targetNamed \<Rightarrow>
          if validMigrationKey (tKey target) \<and> tApp target = '''' then None
          else Some (newPlanningError CategoryPlan CodeInvalidTarget (tKey target) zeroKey [])
      | targetZero \<Rightarrow>
          if tApp target \<noteq> '''' \<and> tKey target = zeroKey then None
          else Some (newPlanningError CategoryPlan CodeInvalidTarget zeroKey zeroKey [])
      | targetNone \<Rightarrow>
          Some (newPlanningError CategoryPlan CodeInvalidTarget zeroKey zeroKey []))"

lemma validateTarget_None:
  "validateTarget t = None \<longleftrightarrow>
     (\<exists>key. t = NamedTarget key \<and> validMigrationKey key) \<or> (\<exists>app. t = ZeroTarget app \<and> app \<noteq> '''')"
  by (cases t) (auto simp: validateTarget_def NamedTarget_def ZeroTarget_def split: target_kind.splits)

record plan_step =
  psKey :: migration_key
  psDirection :: direction

definition zeroStep :: plan_step where
  "zeroStep = \<lparr>psKey = zeroKey, psDirection = DirectionOther ''''\<rparr>"

end
