(* ===== verification/Project_State.thy ===== *)
theory Project_State
  imports Migration_Types
begin

text \<open>
  The historical project state (\<open>migrations/state.go\<close>) and the state transitions of the two
  built-in operations (\<open>migrations/operation.go\<close>). The map from app labels to schemas is an
  association list. Deep copies (\<open>Clone\<close>) are the identity on values; copying a state also
  writes out the format version that its zero value stands for.
\<close>

section \<open>Project states\<close>

record project_state =
  stFormatVersion :: int
  stApps :: "(string \<times> ir_schema) list"

definition StateFormatVersion :: int where
  "StateFormatVersion = 1"

definition EmptyProjectState :: project_state where
  "EmptyProjectState = \<lparr>stFormatVersion = StateFormatVersion, stApps = []\<rparr>"

definition zeroProjectState :: project_state where
  "zeroProjectState = \<lparr>stFormatVersion = 0, stApps = []\<rparr>"

definition State_FormatVersion :: "project_state \<Rightarrow> int" where
  "State_FormatVersion s =
     (if stFormatVersion s = 0 then StateFormatVersion else stFormatVersion s)"

definition State_Clone :: "project_state \<Rightarrow> project_state" where
  "State_Clone s =
     \<lparr>stFormatVersion = State_FormatVersion s,
      stApps = foldl (\<lambda>apps (app, schema). map_set app (Schema_Clone schema) apps) [] (stApps s)\<rparr>"

fun newProjectState_loop :: "unicode_tables \<Rightarrow> nat \<Rightarrow> project_state \<Rightarrow> ir_schema list
    \<Rightarrow> go_error + project_state" where
  "newProjectState_loop uc index state [] = Inr state"
| "newProjectState_loop uc index state (schema # schemas) =
     (case Normalize uc schema of
        Inl err \<Rightarrow> Inl (ErrWrap ''normalize project schema %d: %w'' [FInt (int index)] err)
      | Inr normalized \<Rightarrow>
          if map_of (stApps state) (sAppLabel normalized) \<noteq> None
          then Inl (ErrFmt ''duplicate project app %q'' [FStr (sAppLabel normalized)])
          else newProjectState_loop uc (Suc index)
                 (state\<lparr>stApps := map_set (sAppLabel normalized) (Schema_Clone normalized) (stApps state)\<rparr>)
                 schemas)"

definition NewProjectState :: "unicode_tables \<Rightarrow> ir_schema list \<Rightarrow> go_error + project_state" where
  "NewProjectState uc schemas = newProjectState_loop uc 0 EmptyProjectState schemas"

definition Apps :: "project_state \<Rightarrow> string list" where
  "Apps s = sort (map fst (stApps s))"

definition State_Schema :: "project_state \<Rightarrow> string \<Rightarrow> ir_schema option" where
  "State_Schema s app =
     (case map_of (stApps s) app of None \<Rightarrow> None | Some schema \<Rightarrow> Some (Schema_Clone schema))"

definition State_Model :: "project_state \<Rightarrow> string \<Rightarrow> string \<Rightarrow> ir_model option" where
  "State_Model s app name =
     (case map_of (stApps s) app of
        None \<Rightarrow> None
      | Some schema \<Rightarrow>
          map_option Model_Clone (find (\<lambda>model. mName model = name) (sModels schema)))"

text \<open>\<open>reflect.DeepEqual\<close> of the copies: maps are equal when they agree on every key.\<close>

definition State_Equal :: "project_state \<Rightarrow> project_state \<Rightarrow> bool" where
  "State_Equal s t \<longleftrightarrow> State_FormatVersion s = State_FormatVersion t
     \<and> (\<forall>app \<in> set (map fst (stApps s)) \<union> set (map fst (stApps t)).
          map_of (stApps s) app = map_of (stApps t) app)"

definition State_validate :: "unicode_tables \<Rightarrow> project_state \<Rightarrow> go_error option" where
  "State_validate uc s =
     (if State_FormatVersion s \<noteq> StateFormatVersion
      then Some (ErrFmt ''unsupported project state version %d'' [FInt (State_FormatVersion s)])
      else check_all (\<lambda>(app, schema).
        if sAppLabel schema \<noteq> app
        then Some (ErrFmt ''project app key %q does not match schema app label %q''
                     [FStr app, FStr (sAppLabel schema)])
        else (case Normalize uc schema of
                Inl err \<Rightarrow> Some (ErrWrap ''normalize project app %s: %w'' [FStr app] err)
              | Inr normalized \<Rightarrow>
                  if normalized \<noteq> schema
                  then Some (ErrFmt ''project app %s is not normalized'' [FStr app])
                  else None)) (stApps s))"

definition withSchema :: "project_state \<Rightarrow> ir_schema \<Rightarrow> project_state" where
  "withSchema s schema =
     (let copy = State_Clone s in
      copy\<lparr>stApps := map_set (sAppLabel schema) (Schema_Clone schema) (stApps copy)\<rparr>)"

definition withoutApp :: "project_state \<Rightarrow> string \<Rightarrow> project_state" where
  "withoutApp s app =
     (let copy = State_Clone s in copy\<lparr>stApps := map_delete app (stApps copy)\<rparr>)"

definition normalizedSingleModel :: "unicode_tables \<Rightarrow> string \<Rightarrow> ir_model \<Rightarrow> go_error + ir_model" where
  "normalizedSingleModel uc app model =
     (case Normalize uc \<lparr>sFormatVersion = FormatVersion, sAppLabel = app, sModels = [Model_Clone model]\<rparr> of
        Inl err \<Rightarrow> Inl err
      | Inr schema \<Rightarrow> Inr (Model_Clone (sModels schema ! 0)))"

section \<open>State transitions of the operations\<close>

definition zeroSchema_for :: "string \<Rightarrow> ir_schema" where
  "zeroSchema_for app = \<lparr>sFormatVersion = FormatVersion, sAppLabel = app, sModels = []\<rparr>"

definition createModel_forward :: "unicode_tables \<Rightarrow> string \<Rightarrow> ir_model \<Rightarrow> project_state
    \<Rightarrow> go_error + project_state" where
  "createModel_forward uc app opModel state =
     (case normalizedSingleModel uc app opModel of
        Inl err \<Rightarrow> Inl (ErrWrap ''normalize model: %w'' [] err)
      | Inr model \<Rightarrow>
          if State_Model state app (mName model) \<noteq> None
          then Inl (ErrFmt ''model %s.%s already exists'' [FStr app, FStr (mName model)])
          else
            (let schema = (case State_Schema state app of None \<Rightarrow> zeroSchema_for app | Some s \<Rightarrow> s);
                 schema = schema\<lparr>sModels := sModels schema @ [model]\<rparr> in
             case Normalize uc schema of
               Inl err \<Rightarrow> Inl (ErrWrap ''normalize project app %s: %w'' [FStr app] err)
             | Inr normalized \<Rightarrow> Inr (withSchema state normalized)))"

definition createModel_backward :: "unicode_tables \<Rightarrow> string \<Rightarrow> ir_model \<Rightarrow> project_state
    \<Rightarrow> go_error + project_state" where
  "createModel_backward uc app opModel state =
     (case normalizedSingleModel uc app opModel of
        Inl err \<Rightarrow> Inl (ErrWrap ''normalize model: %w'' [] err)
      | Inr want \<Rightarrow>
        (case State_Model state app (mName want) of
           None \<Rightarrow> Inl (ErrFmt ''model %s.%s does not exist'' [FStr app, FStr (mName want)])
         | Some actual \<Rightarrow>
             if actual \<noteq> want
             then Inl (ErrFmt ''model %s.%s does not match CreateModel state''
                         [FStr app, FStr (mName want)])
             else
               (let schema = (case State_Schema state app of
                                None \<Rightarrow> \<lparr>sFormatVersion = 0, sAppLabel = '''', sModels = []\<rparr>
                              | Some s \<Rightarrow> s);
                    models = map Model_Clone (filter (\<lambda>model. mName model \<noteq> mName want) (sModels schema)) in
                if models = [] then Inr (withoutApp state app)
                else
                  (case Normalize uc (schema\<lparr>sModels := models\<rparr>) of
                     Inl err \<Rightarrow> Inl (ErrWrap ''normalize project app %s: %w'' [FStr app] err)
                   | Inr normalized \<Rightarrow> Inr (withSchema state normalized)))))"

text \<open>The index of the first model of a name, and the same with the models before and after.\<close>

fun index_where :: "('a \<Rightarrow> bool) \<Rightarrow> 'a list \<Rightarrow> nat option" where
  "index_where P [] = None"
| "index_where P (x # xs) = (if P x then Some 0 else map_option Suc (index_where P xs))"

definition addField_forward :: "unicode_tables \<Rightarrow> string \<Rightarrow> string \<Rightarrow> ir_field \<Rightarrow> project_state
    \<Rightarrow> go_error + project_state" where
  "addField_forward uc app modelName opField state =
     (case State_Schema state app of
        None \<Rightarrow> Inl (ErrFmt ''app %s does not exist'' [FStr app])
      | Some schema \<Rightarrow>
        (case index_where (\<lambda>model. mName model = modelName) (sModels schema) of
           None \<Rightarrow> Inl (ErrFmt ''model %s.%s does not exist'' [FStr app, FStr modelName])
         | Some modelIndex \<Rightarrow>
           (let model = sModels schema ! modelIndex in
            if list_ex (\<lambda>field. fName field = fName opField
                 \<or> (fColumn opField \<noteq> '''' \<and> fColumn field = fColumn opField)) (mFields model)
            then Inl (ErrFmt ''field %s.%s.%s already exists''
                        [FStr app, FStr modelName, FStr (fName opField)])
            else
              (let models = (sModels schema)[modelIndex := model\<lparr>mFields := mFields model @ [opField]\<rparr>] in
               case Normalize uc (schema\<lparr>sModels := models\<rparr>) of
                 Inl err \<Rightarrow> Inl (ErrWrap ''normalize added field: %w'' [] err)
               | Inr normalized \<Rightarrow> Inr (withSchema state normalized)))))"

definition addField_backward :: "unicode_tables \<Rightarrow> string \<Rightarrow> string \<Rightarrow> ir_field \<Rightarrow> project_state
    \<Rightarrow> go_error + project_state" where
  "addField_backward uc app modelName opField state =
     (case State_Schema state app of
        None \<Rightarrow> Inl (ErrFmt ''app %s does not exist'' [FStr app])
      | Some schema \<Rightarrow>
        (case index_where (\<lambda>model. mName model = modelName) (sModels schema) of
           None \<Rightarrow> Inl (ErrFmt ''model %s.%s does not exist'' [FStr app, FStr modelName])
         | Some modelIndex \<Rightarrow>
           (let model = sModels schema ! modelIndex in
            case index_where (\<lambda>field. fName field = fName opField) (mFields model) of
              None \<Rightarrow> Inl (ErrFmt ''field %s.%s.%s does not exist''
                            [FStr app, FStr modelName, FStr (fName opField)])
            | Some fieldIndex \<Rightarrow>
              (let field = mFields model ! fieldIndex;
                   normalizedField = (if fColumn opField = '''' then opField\<lparr>fColumn := fName opField\<rparr>
                                      else opField) in
               if field \<noteq> normalizedField
               then Inl (ErrFmt ''field %s.%s.%s does not match AddField state''
                           [FStr app, FStr modelName, FStr (fName opField)])
               else
                 (let kept = take fieldIndex (mFields model) @ drop (Suc fieldIndex) (mFields model);
                      models = (sModels schema)[modelIndex := model\<lparr>mFields := kept\<rparr>] in
                  case Normalize uc (schema\<lparr>sModels := models\<rparr>) of
                    Inl err \<Rightarrow> Inl (ErrWrap ''normalize removed field: %w'' [] err)
                  | Inr normalized \<Rightarrow> Inr (withSchema state normalized))))))"

fun stateForward :: "unicode_tables \<Rightarrow> builtin_operation \<Rightarrow> project_state \<Rightarrow> go_error + project_state" where
  "stateForward uc (CreateModel app model) = createModel_forward uc app model"
| "stateForward uc (AddField app modelName f) = addField_forward uc app modelName f"

fun stateBackward :: "unicode_tables \<Rightarrow> builtin_operation \<Rightarrow> project_state \<Rightarrow> go_error + project_state" where
  "stateBackward uc (CreateModel app model) = createModel_backward uc app model"
| "stateBackward uc (AddField app modelName f) = addField_backward uc app modelName f"

section \<open>Database edits\<close>

text \<open>A call of one of the four methods of \<open>backend.SchemaEditor\<close>.\<close>

datatype schema_edit =
    EditCreateModel ir_model
  | EditDeleteModel ir_model
  | EditAddField ir_model ir_field
  | EditRemoveField ir_model ir_field

definition findField :: "project_state \<Rightarrow> string \<Rightarrow> string \<Rightarrow> string \<Rightarrow> ir_field option" where
  "findField state app modelName fieldName =
     (case State_Model state app modelName of
        None \<Rightarrow> None
      | Some model \<Rightarrow> find (\<lambda>field. fName field = fieldName) (mFields model))"

text \<open>
  \<open>databaseForward\<close> and \<open>databaseBackward\<close> look their arguments up in the two states and end in
  one call of the editor: the call, or the error of a failed lookup.
\<close>

fun databaseForward :: "builtin_operation \<Rightarrow> project_state \<Rightarrow> project_state \<Rightarrow> go_error + schema_edit" where
  "databaseForward (CreateModel app opModel) from to =
     (case State_Model to app (mName opModel) of
        None \<Rightarrow> Inl (ErrFmt ''preflight target model %s.%s is missing'' [FStr app, FStr (mName opModel)])
      | Some model \<Rightarrow> Inr (EditCreateModel model))"
| "databaseForward (AddField app modelName opField) from to =
     (case State_Model from app modelName of
        None \<Rightarrow> Inl (ErrFmt ''preflight source model %s.%s is missing'' [FStr app, FStr modelName])
      | Some model \<Rightarrow>
        (case findField to app modelName (fName opField) of
           None \<Rightarrow> Inl (ErrFmt ''preflight target field %s.%s.%s is missing''
                         [FStr app, FStr modelName, FStr (fName opField)])
         | Some field \<Rightarrow> Inr (EditAddField model field)))"

fun databaseBackward :: "builtin_operation \<Rightarrow> project_state \<Rightarrow> project_state \<Rightarrow> go_error + schema_edit" where
  "databaseBackward (CreateModel app opModel) from to =
     (case State_Model from app (mName opModel) of
        None \<Rightarrow> Inl (ErrFmt ''preflight source model %s.%s is missing'' [FStr app, FStr (mName opModel)])
      | Some model \<Rightarrow> Inr (EditDeleteModel model))"
| "databaseBackward (AddField app modelName opField) from to =
     (case State_Model from app modelName of
        None \<Rightarrow> Inl (ErrFmt ''preflight source model %s.%s is missing'' [FStr app, FStr modelName])
      | Some model \<Rightarrow>
        (case findField from app modelName (fName opField) of
           None \<Rightarrow> Inl (ErrFmt ''preflight source field %s.%s.%s is missing''
                         [FStr app, FStr modelName, FStr (fName opField)])
         | Some field \<Rightarrow> Inr (EditRemoveField model field)))"

section \<open>The state invariant\<close>

text \<open>A Go map has one value per key; a valid state holds normalized schemas under their labels.\<close>

definition state_map :: "project_state \<Rightarrow> bool" where
  "state_map s \<longleftrightarrow> distinct (map fst (stApps s))"

definition state_wf :: "unicode_tables \<Rightarrow> project_state \<Rightarrow> bool" where
  "state_wf uc s \<longleftrightarrow> State_FormatVersion s = StateFormatVersion \<and> state_map s
     \<and> (\<forall>(app, schema) \<in> set (stApps s). sAppLabel schema = app \<and> wf_schema uc schema)"

lemma State_validate_None_iff:
  assumes "state_map s"
  shows "State_validate uc s = None \<longleftrightarrow> state_wf uc s"
proof -
  have "State_validate uc s = None \<longleftrightarrow> State_FormatVersion s = StateFormatVersion
      \<and> (\<forall>(app, schema) \<in> set (stApps s). sAppLabel schema = app \<and> Normalize uc schema = Inr schema)"
    by (auto simp: State_validate_def check_all_None split: sum.splits if_splits)
  then show ?thesis using assms by (auto simp: state_wf_def Normalize_eq_self)
qed

lemma foldl_map_set:
  "distinct (map fst (acc @ m)) \<Longrightarrow> foldl (\<lambda>apps (app, v). map_set app v apps) acc m = acc @ m"
proof (induction m arbitrary: acc)
  case (Cons x m)
  obtain k v where x: "x = (k, v)" by (cases x)
  have "k \<notin> fst ` set acc" using Cons.prems by (auto simp: x)
  then have "map_set k v acc = acc @ [(k, v)]"
    by (induction acc) auto
  with Cons show ?case by (simp add: x)
qed simp

lemma State_Clone_eq:
  "state_map s \<Longrightarrow> State_Clone s = s\<lparr>stFormatVersion := State_FormatVersion s\<rparr>"
  using foldl_map_set[of "[]" "stApps s"]
  by (cases s) (simp add: State_Clone_def state_map_def)

lemma State_FormatVersion_Clone [simp]: "State_FormatVersion (State_Clone s) = State_FormatVersion s"
  by (simp add: State_FormatVersion_def State_Clone_def StateFormatVersion_def)

lemma stApps_Clone [simp]: "state_map s \<Longrightarrow> stApps (State_Clone s) = stApps s"
  by (simp add: State_Clone_eq)

lemma state_map_Clone [simp]: "state_map s \<Longrightarrow> state_map (State_Clone s)"
  by (simp add: state_map_def)

lemma State_Clone_idem: "state_map s \<Longrightarrow> State_Clone (State_Clone s) = State_Clone s"
  by (simp add: State_Clone_eq state_map_def State_FormatVersion_def StateFormatVersion_def)

lemma state_wf_map: "state_wf uc s \<Longrightarrow> state_map s"
  by (simp add: state_wf_def)

lemma state_wf_Clone [simp]: "state_wf uc s \<Longrightarrow> state_wf uc (State_Clone s)"
  by (simp add: state_wf_def)

lemma State_Clone_wf:
  "state_wf uc s \<Longrightarrow> State_Clone s = s\<lparr>stFormatVersion := StateFormatVersion\<rparr>"
  by (simp add: State_Clone_eq state_wf_def)

lemma state_wf_lookup:
  "state_wf uc s \<Longrightarrow> map_of (stApps s) app = Some schema \<Longrightarrow>
     sAppLabel schema = app \<and> wf_schema uc schema"
  by (auto simp: state_wf_def dest!: map_of_SomeD)

lemma State_Schema_eq [simp]: "State_Schema s app = map_of (stApps s) app"
  by (auto simp: State_Schema_def split: option.splits)

lemma State_Model_eq:
  "State_Model s app name =
     (case map_of (stApps s) app of None \<Rightarrow> None | Some schema \<Rightarrow> find (\<lambda>m. mName m = name) (sModels schema))"
  by (auto simp: State_Model_def option.map_ident_strong split: option.splits)

lemma State_Model_Clone [simp]: "state_map s \<Longrightarrow> State_Model (State_Clone s) app name = State_Model s app name"
  by (simp add: State_Model_eq)

lemma state_wf_set:
  assumes "state_wf uc s" "wf_schema uc schema"
  shows "state_wf uc (withSchema s schema)"
  using assms
  by (auto simp: state_wf_def withSchema_def Let_def state_map_def State_FormatVersion_def
      State_Clone_eq StateFormatVersion_def split: if_splits dest!: set_map_set_subset)

lemma state_wf_without:
  assumes "state_wf uc s"
  shows "state_wf uc (withoutApp s app)"
  using assms distinct_map_delete[of "stApps s" app]
  by (auto simp: state_wf_def withoutApp_def Let_def state_map_def State_FormatVersion_def
      State_Clone_eq StateFormatVersion_def map_delete_def split: if_splits)

lemma normalizedSingleModel_Inr_iff:
  "normalizedSingleModel uc app m = Inr x \<longleftrightarrow>
     x = model_nf app m \<and> databaseIdentifier app \<and> wf_model uc x"
  unfolding normalizedSingleModel_def inr_simps Normalize_Inr_iff
  by (auto simp: schema_nf_def wf_schema_def FormatVersion_def)

section \<open>The transitions, inverted\<close>

definition app_schema :: "project_state \<Rightarrow> string \<Rightarrow> ir_schema" where
  "app_schema s app = (case map_of (stApps s) app of None \<Rightarrow> zeroSchema_for app | Some x \<Rightarrow> x)"

text \<open>The state with one app's schema replaced.\<close>

definition put_schema :: "project_state \<Rightarrow> string \<Rightarrow> ir_schema \<Rightarrow> project_state" where
  "put_schema s app schema =
     \<lparr>stFormatVersion = StateFormatVersion, stApps = map_set app schema (stApps s)\<rparr>"

lemma withSchema_eq:
  "state_wf uc s \<Longrightarrow> withSchema s schema = put_schema s (sAppLabel schema) schema"
  by (cases s) (simp add: withSchema_def Let_def State_Clone_eq put_schema_def state_wf_def)

lemma app_schema_label:
  "state_wf uc s \<Longrightarrow> sAppLabel (app_schema s app) = app \<and> sFormatVersion (app_schema s app) = FormatVersion"
  using state_wf_lookup[of uc s app]
  by (auto simp: app_schema_def zeroSchema_for_def wf_schema_def split: option.splits)

lemma schema_nf_models:
  assumes "sFormatVersion sch = FormatVersion" "\<forall>m \<in> set (sModels sch). model_nf (sAppLabel sch) m = m"
  shows "schema_nf sch = sch"
proof -
  have "map (model_nf (sAppLabel sch)) (sModels sch) = sModels sch"
    using assms(2) by (intro map_idI) simp
  then show ?thesis using assms(1) by (simp add: schema_nf_def FormatVersion_def)
qed

lemma app_schema_models_nf:
  assumes "state_wf uc s" "m \<in> set (sModels (app_schema s app))"
  shows "wf_model uc m"
  using assms state_wf_lookup[OF assms(1), of app]
  by (auto simp: app_schema_def zeroSchema_for_def wf_schema_def list_all_iff split: option.splits)

lemma createModel_forward_Inr:
  assumes wf: "state_wf uc s" and fwd: "createModel_forward uc app m s = Inr t"
  defines "nm \<equiv> model_nf app m"
  defines "sch \<equiv> (app_schema s app)\<lparr>sModels := sModels (app_schema s app) @ [nm]\<rparr>"
  shows "databaseIdentifier app" "wf_model uc nm" "State_Model s app (mName m) = None"
    and "wf_schema uc sch" "t = put_schema s app sch"
proof -
  note lab = app_schema_label[OF wf, of app]
  have base: "(case State_Schema s app of None \<Rightarrow> zeroSchema_for app | Some x \<Rightarrow> x) = app_schema s app"
    by (simp add: app_schema_def)
  from fwd show single: "databaseIdentifier app" "wf_model uc nm"
    and new: "State_Model s app (mName m) = None"
    unfolding createModel_forward_def Let_def inr_simps normalizedSingleModel_Inr_iff
    by (auto simp: nm_def)
  from fwd obtain x where x: "Normalize uc sch = Inr x" "t = withSchema s x"
    unfolding createModel_forward_def Let_def inr_simps normalizedSingleModel_Inr_iff base
    by (auto simp: nm_def sch_def)
  have "model_nf app x = x" if "x \<in> set (sModels sch)" for x
    using that model_nf_wf[OF single(2)] model_nf_wf[OF app_schema_models_nf[OF wf]]
    by (auto simp: sch_def)
  then have "schema_nf sch = sch"
    by (intro schema_nf_models) (use lab in \<open>simp_all add: sch_def\<close>)
  with x(1) have "x = sch" "wf_schema uc sch" by (auto simp: Normalize_Inr_iff)
  then show "wf_schema uc sch" "t = put_schema s app sch"
    using x(2) withSchema_eq[OF wf] lab by (simp_all add: sch_def)
qed

lemma put_schema_lookup:
  "map_of (stApps (put_schema s app sch)) a = (if a = app then Some sch else map_of (stApps s) a)"
  by (simp add: put_schema_def)

lemma put_schema_wf:
  assumes "state_wf uc s" "wf_schema uc sch" "sAppLabel sch = app"
  shows "state_wf uc (put_schema s app sch)"
  using state_wf_set[OF assms(1,2)] withSchema_eq[OF assms(1)] assms(3) by simp

lemma put_schema_restore:
  assumes "state_wf uc s" "map_of (stApps s) app = Some old"
  shows "put_schema (put_schema s app sch) app old = State_Clone s"
  using assms by (cases s) (simp add: put_schema_def map_set_map_set State_Clone_wf)

lemma put_schema_remove:
  assumes "state_wf uc s" "map_of (stApps s) app = None" "state_wf uc (put_schema s app sch)"
  shows "withoutApp (put_schema s app sch) app = State_Clone s"
proof -
  have "map_delete app (map_set app sch (stApps s)) = stApps s"
    using assms(2) by (intro map_delete_map_set) (simp add: map_of_eq_None_iff)
  then show ?thesis
    using assms by (cases s) (simp add: withoutApp_def Let_def State_Clone_wf put_schema_def)
qed

lemma map_Model_Clone [simp]: "map Model_Clone ms = ms"
  by (rule map_idI) simp

lemma createModel_roundtrip:
  assumes wf: "state_wf uc s" and fwd: "createModel_forward uc app m s = Inr t"
  shows "createModel_backward uc app m t = Inr (State_Clone s)"
proof -
  let ?nm = "model_nf app m"
  let ?base = "app_schema s app"
  let ?sch = "?base\<lparr>sModels := sModels ?base @ [?nm]\<rparr>"
  note f = createModel_forward_Inr[OF wf fwd]
  have single: "normalizedSingleModel uc app m = Inr ?nm"
    using f by (simp add: normalizedSingleModel_Inr_iff)
  have names: "mName ?nm = mName m" by simp
  have fresh: "x \<in> set (sModels ?base) \<Longrightarrow> mName x \<noteq> mName m" for x
    using f(3) by (auto simp: State_Model_eq app_schema_def zeroSchema_for_def find_None_key
        split: option.splits)
  have look: "map_of (stApps t) app = Some ?sch" unfolding f(5) put_schema_lookup by simp
  have "find (\<lambda>x. mName x = mName m) (sModels ?base) = None"
    using fresh by (simp add: find_None_key)
  then have "State_Model t app (mName m) = Some ?nm"
    by (simp add: State_Model_eq look find_append)
  moreover have "filter (\<lambda>model. mName model \<noteq> mName m) (sModels ?sch) = sModels ?base"
    using fresh by (simp add: filter_id_conv)
  ultimately have eq: "createModel_backward uc app m t =
      (if sModels ?base = [] then Inr (withoutApp t app)
       else case Normalize uc (?sch\<lparr>sModels := sModels ?base\<rparr>) of
              Inl err \<Rightarrow> Inl (ErrWrap ''normalize project app %s: %w'' [FStr app] err)
            | Inr normalized \<Rightarrow> Inr (withSchema t normalized))"
    by (simp add: createModel_backward_def single names look Let_def clone_id)
  have restore: "?sch\<lparr>sModels := sModels ?base\<rparr> = ?base" by (cases ?base) simp
  have lab: "sAppLabel ?sch = app" using app_schema_label[OF wf] by simp
  have wft: "state_wf uc t" unfolding f(5) by (rule put_schema_wf[OF wf f(4) lab])
  show ?thesis
  proof (cases "map_of (stApps s) app")
    case None
    then have "sModels ?base = []" by (simp add: app_schema_def zeroSchema_for_def)
    moreover have "withoutApp t app = State_Clone s"
      using put_schema_remove[OF wf None] wft unfolding f(5) by blast
    ultimately show ?thesis unfolding eq by simp
  next
    case (Some old)
    then have "?base = old" "wf_schema uc old" using state_wf_lookup[OF wf Some] by (simp_all add: app_schema_def)
    moreover from this have "sModels old \<noteq> []" by (simp add: wf_schema_def)
    moreover have "put_schema t app old = State_Clone s"
      unfolding f(5) by (rule put_schema_restore[OF wf Some])
    ultimately show ?thesis
      using app_schema_label[OF wf, of app] withSchema_eq[OF wft, of old]
      unfolding eq restore by simp
  qed
qed

lemma index_where_Some:
  "index_where P xs = Some i \<Longrightarrow> i < length xs \<and> P (xs ! i) \<and> (\<forall>j < i. \<not> P (xs ! j))"
proof (induction xs arbitrary: i)
  case (Cons x xs)
  then show ?case by (auto split: if_splits simp: less_Suc_eq_0_disj)
qed simp

lemma index_where_None: "index_where P xs = None \<longleftrightarrow> (\<forall>x \<in> set xs. \<not> P x)"
  by (induction xs) auto

lemma index_where_append:
  "index_where P (xs @ ys) = (case index_where P xs of None \<Rightarrow> map_option ((+) (length xs)) (index_where P ys)
     | Some i \<Rightarrow> Some i)"
  by (induction xs; cases "index_where P ys") (auto split: option.splits)

lemma index_where_find: "index_where P xs = Some i \<Longrightarrow> find P xs = Some (xs ! i)"
  by (induction xs arbitrary: i) (auto split: if_splits)

lemma index_where_update:
  assumes "index_where P xs = Some i" "P y"
  shows "index_where P (xs[i := y]) = Some i"
  using assms by (induction xs arbitrary: i) (auto split: if_splits nat.splits)

text \<open>Adding a field: the model it is added to, and the schema it gives.\<close>

lemma addField_forward_Inr:
  assumes wf: "state_wf uc s" and fwd: "addField_forward uc app mn f s = Inr t"
  obtains sch i where "map_of (stApps s) app = Some sch"
    and "index_where (\<lambda>m. mName m = mn) (sModels sch) = Some i"
    and "\<forall>x \<in> set (mFields (sModels sch ! i)). fName x \<noteq> fName f"
    and "wf_schema uc (sch\<lparr>sModels := (sModels sch)[i := (sModels sch ! i)
           \<lparr>mFields := mFields (sModels sch ! i) @ [field_nf f]\<rparr>]\<rparr>)"
    and "t = put_schema s app (sch\<lparr>sModels := (sModels sch)[i := (sModels sch ! i)
           \<lparr>mFields := mFields (sModels sch ! i) @ [field_nf f]\<rparr>]\<rparr>)"
proof -
  from fwd obtain sch i where sch: "map_of (stApps s) app = Some sch"
    and i: "index_where (\<lambda>m. mName m = mn) (sModels sch) = Some i"
    unfolding addField_forward_def Let_def inr_simps State_Schema_eq by blast
  let ?m = "sModels sch ! i"
  let ?raw = "sch\<lparr>sModels := (sModels sch)[i := ?m\<lparr>mFields := mFields ?m @ [f]\<rparr>]\<rparr>"
  let ?sch = "sch\<lparr>sModels := (sModels sch)[i := ?m\<lparr>mFields := mFields ?m @ [field_nf f]\<rparr>]\<rparr>"
  from fwd sch i obtain x where fresh: "\<forall>x \<in> set (mFields ?m). fName x \<noteq> fName f"
    and x: "Normalize uc ?raw = Inr x" "t = withSchema s x"
    unfolding addField_forward_def Let_def inr_simps State_Schema_eq
    by (auto simp: list_ex_iff)
  have wfs: "wf_schema uc sch" and lab: "sAppLabel sch = app"
    using state_wf_lookup[OF wf sch] by simp_all
  have il: "i < length (sModels sch)" using index_where_Some[OF i] by simp
  have mods: "wf_model uc m" if "m \<in> set (sModels sch)" for m
    using that wfs by (simp add: wf_schema_def list_all_iff)
  then have wfm: "wf_model uc ?m" using il by simp
  have "model_nf app (?m\<lparr>mFields := mFields ?m @ [f]\<rparr>) = ?m\<lparr>mFields := mFields ?m @ [field_nf f]\<rparr>"
  proof -
    have "map field_nf (mFields ?m) = mFields ?m"
      using wfm by (intro map_idI) (auto simp: wf_model_def list_all_iff)
    moreover have "list_ex (\<lambda>f. fKind f = FieldAuto) (mFields ?m)" by (rule wf_model_has_auto[OF wfm])
    moreover have "mDBTable ?m \<noteq> ''''" using wfm by (auto simp: wf_model_def dest: databaseIdentifier_nonempty)
    ultimately show ?thesis by (simp add: model_nf_def)
  qed
  moreover have "map (model_nf app) (sModels sch) = sModels sch"
    by (rule map_idI) (rule model_nf_wf[OF mods])
  ultimately have "schema_nf ?raw = ?sch"
    using wfs lab by (simp add: schema_nf_def map_update wf_schema_def FormatVersion_def)
  with x(1) have "x = ?sch" "wf_schema uc ?sch" by (auto simp: Normalize_Inr_iff)
  with x(2) lab withSchema_eq[OF wf] show ?thesis by (intro that[OF sch i fresh]) simp_all
qed

lemma addField_roundtrip:
  assumes wf: "state_wf uc s" and fwd: "addField_forward uc app mn f s = Inr t"
  shows "addField_backward uc app mn f t = Inr (State_Clone s)"
proof -
  from addField_forward_Inr[OF assms] obtain sch i where
    sch: "map_of (stApps s) app = Some sch"
    and i: "index_where (\<lambda>m. mName m = mn) (sModels sch) = Some i"
    and fresh: "\<forall>x \<in> set (mFields (sModels sch ! i)). fName x \<noteq> fName f"
    and wfn: "wf_schema uc (sch\<lparr>sModels := (sModels sch)[i := (sModels sch ! i)
           \<lparr>mFields := mFields (sModels sch ! i) @ [field_nf f]\<rparr>]\<rparr>)"
    and t: "t = put_schema s app (sch\<lparr>sModels := (sModels sch)[i := (sModels sch ! i)
           \<lparr>mFields := mFields (sModels sch ! i) @ [field_nf f]\<rparr>]\<rparr>)" .
  let ?m = "sModels sch ! i"
  let ?m' = "?m\<lparr>mFields := mFields ?m @ [field_nf f]\<rparr>"
  let ?sch = "sch\<lparr>sModels := (sModels sch)[i := ?m']\<rparr>"
  have wfs: "wf_schema uc sch" and lab: "sAppLabel sch = app"
    using state_wf_lookup[OF wf sch] by simp_all
  have il: "i < length (sModels sch)" "mName ?m = mn" using index_where_Some[OF i] by simp_all
  have look: "map_of (stApps t) app = Some ?sch" unfolding t put_schema_lookup by simp
  have i': "index_where (\<lambda>m. mName m = mn) (sModels ?sch) = Some i"
    using index_where_update[OF i, of ?m'] il by simp
  have "index_where (\<lambda>x. fName x = fName f) (mFields ?m) = None"
    using fresh by (simp add: index_where_None)
  then have fi: "index_where (\<lambda>x. fName x = fName f) (mFields ?m') = Some (length (mFields ?m))"
    by (simp add: index_where_append field_nf_def)
  have nth: "sModels ?sch ! i = ?m'" using il by simp
  have restore: "?sch\<lparr>sModels := (sModels ?sch)[i := ?m'\<lparr>mFields := mFields ?m\<rparr>]\<rparr> = sch"
    using il by (cases sch) simp
  have lab': "sAppLabel ?sch = app" using lab by simp
  have wft: "state_wf uc t" unfolding t by (rule put_schema_wf[OF wf wfn lab'])
  have "field_nf f = (if fColumn f = '''' then f\<lparr>fColumn := fName f\<rparr> else f)" by (simp add: field_nf_def)
  then have "addField_backward uc app mn f t =
      (case Normalize uc (?sch\<lparr>sModels := (sModels ?sch)[i := ?m'\<lparr>mFields := mFields ?m\<rparr>]\<rparr>) of
         Inl err \<Rightarrow> Inl (ErrWrap ''normalize removed field: %w'' [] err)
       | Inr normalized \<Rightarrow> Inr (withSchema t normalized))"
    unfolding addField_backward_def State_Schema_eq look option.case Let_def i' nth fi
    by (simp add: nth_append)
  then show ?thesis
    using put_schema_restore[OF wf sch] withSchema_eq[OF wft] wfs lab unfolding restore by (simp add: t)
qed

lemma createModel_backward_Inr:
  assumes wf: "state_wf uc s" and bwd: "createModel_backward uc app m s = Inr t"
  obtains sch where "map_of (stApps s) app = Some sch"
    and "find (\<lambda>x. mName x = mName m) (sModels sch) = Some (model_nf app m)"
    and "(filter (\<lambda>x. mName x \<noteq> mName m) (sModels sch) = [] \<and> t = withoutApp s app)
      \<or> (wf_schema uc (sch\<lparr>sModels := filter (\<lambda>x. mName x \<noteq> mName m) (sModels sch)\<rparr>)
          \<and> t = put_schema s app (sch\<lparr>sModels := filter (\<lambda>x. mName x \<noteq> mName m) (sModels sch)\<rparr>))"
proof -
  let ?kept = "\<lambda>sch. filter (\<lambda>x. mName x \<noteq> mName m) (sModels sch)"
  from bwd have actual: "State_Model s app (mName m) = Some (model_nf app m)"
    unfolding createModel_backward_def Let_def inr_simps normalizedSingleModel_Inr_iff
    by (auto simp: inr_simps split: option.splits)
  then obtain sch where sch: "map_of (stApps s) app = Some sch"
    and f: "find (\<lambda>x. mName x = mName m) (sModels sch) = Some (model_nf app m)"
    by (auto simp: State_Model_eq split: option.splits)
  from bwd sch have "(?kept sch = [] \<and> t = withoutApp s app)
      \<or> (\<exists>x. Normalize uc (sch\<lparr>sModels := ?kept sch\<rparr>) = Inr x \<and> t = withSchema s x)"
    unfolding createModel_backward_def Let_def
    by (auto simp: normalizedSingleModel_Inr_iff actual split: sum.splits if_splits)
  moreover have "schema_nf (sch\<lparr>sModels := ?kept sch\<rparr>) = sch\<lparr>sModels := ?kept sch\<rparr>"
  proof (rule schema_nf_models)
    show "sFormatVersion (sch\<lparr>sModels := ?kept sch\<rparr>) = FormatVersion"
      using state_wf_lookup[OF wf sch] by (simp add: wf_schema_def)
    have "wf_model uc x" if "x \<in> set (sModels sch)" for x
      using that state_wf_lookup[OF wf sch] by (auto simp: wf_schema_def list_all_iff)
    then show "\<forall>x \<in> set (sModels (sch\<lparr>sModels := ?kept sch\<rparr>)).
        model_nf (sAppLabel (sch\<lparr>sModels := ?kept sch\<rparr>)) x = x"
      by (auto intro: model_nf_wf)
  qed
  ultimately show ?thesis
    using that[OF sch f] withSchema_eq[OF wf] state_wf_lookup[OF wf sch]
    by (auto simp: Normalize_Inr_iff)
qed

lemma addField_backward_Inr:
  assumes wf: "state_wf uc s" and bwd: "addField_backward uc app mn f s = Inr t"
  obtains sch i j where "map_of (stApps s) app = Some sch"
    and "index_where (\<lambda>m. mName m = mn) (sModels sch) = Some i"
    and "index_where (\<lambda>x. fName x = fName f) (mFields (sModels sch ! i)) = Some j"
    and "mFields (sModels sch ! i) ! j = field_nf f"
    and "\<exists>x. Normalize uc (sch\<lparr>sModels := (sModels sch)[i := (sModels sch ! i)
           \<lparr>mFields := take j (mFields (sModels sch ! i)) @ drop (Suc j) (mFields (sModels sch ! i))\<rparr>]\<rparr>) = Inr x
         \<and> t = withSchema s x"
proof -
  from bwd obtain sch i j where sch: "map_of (stApps s) app = Some sch"
    and i: "index_where (\<lambda>m. mName m = mn) (sModels sch) = Some i"
    and j: "index_where (\<lambda>x. fName x = fName f) (mFields (sModels sch ! i)) = Some j"
    unfolding addField_backward_def Let_def inr_simps State_Schema_eq by blast
  with bwd show ?thesis
    by (intro that[OF sch i j]) (auto simp: addField_backward_def Let_def field_nf_def inr_simps
        split: if_splits sum.splits)
qed

section \<open>The transitions keep the invariant and undo each other\<close>

lemma withSchema_wf:
  "state_wf uc s \<Longrightarrow> Normalize uc schema = Inr x \<Longrightarrow> state_wf uc (withSchema s x)"
  using Normalize_wfD state_wf_set by blast

lemma stateForward_wf:
  assumes wf: "state_wf uc s" and fwd: "stateForward uc op s = Inr t"
  shows "state_wf uc t"
proof (cases op)
  case (CreateModel app m)
  note f = createModel_forward_Inr[OF wf fwd[unfolded CreateModel stateForward.simps]]
  show ?thesis
    unfolding f(5) by (rule put_schema_wf[OF wf f(4)]) (simp add: app_schema_label[OF wf])
next
  case (AddField app mn f)
  from addField_forward_Inr[OF wf fwd[unfolded AddField stateForward.simps]] obtain sch y where
    sch: "map_of (stApps s) app = Some sch" and y: "wf_schema uc y" "t = put_schema s app y"
    "sAppLabel y = sAppLabel sch"
    by (metis (no_types, lifting) ir_schema.select_convs(2) ir_schema.surjective ir_schema.update_convs(3))
  then show ?thesis using put_schema_wf[OF wf y(1)] state_wf_lookup[OF wf sch] by simp
qed

lemma stateBackward_wf:
  assumes wf: "state_wf uc s" and bwd: "stateBackward uc op s = Inr t"
  shows "state_wf uc t"
proof (cases op)
  case (CreateModel app m)
  from createModel_backward_Inr[OF wf bwd[unfolded CreateModel stateBackward.simps]] obtain sch where
    sch: "map_of (stApps s) app = Some sch"
    and t: "t = withoutApp s app
      \<or> (wf_schema uc (sch\<lparr>sModels := filter (\<lambda>x. mName x \<noteq> mName m) (sModels sch)\<rparr>)
          \<and> t = put_schema s app (sch\<lparr>sModels := filter (\<lambda>x. mName x \<noteq> mName m) (sModels sch)\<rparr>))"
    by blast
  have "sAppLabel (sch\<lparr>sModels := filter (\<lambda>x. mName x \<noteq> mName m) (sModels sch)\<rparr>) = app"
    using state_wf_lookup[OF wf sch] by simp
  with t put_schema_wf[OF wf] state_wf_without[OF wf] show ?thesis by metis
next
  case (AddField app mn f)
  from addField_backward_Inr[OF wf bwd[unfolded AddField stateBackward.simps]] show ?thesis
    using withSchema_wf[OF wf] by metis
qed

lemma state_roundtrip:
  assumes "state_wf uc s" and "stateForward uc op s = Inr t"
  shows "stateBackward uc op t = Inr (State_Clone s)"
  using assms by (cases op) (auto simp: createModel_roundtrip addField_roundtrip)

section \<open>Database edits mirror the transitions\<close>

text \<open>
  The models of a state by app and name, and what a schema edit does to them: the abstract
  database schema that the edits of a migration are meant to maintain.
\<close>

type_synonym schema_view = "string \<times> string \<Rightarrow> ir_model option"

definition models_of :: "project_state \<Rightarrow> schema_view" where
  "models_of s = (\<lambda>(app, name). State_Model s app name)"

fun apply_edit :: "string \<Rightarrow> schema_edit \<Rightarrow> schema_view \<Rightarrow> schema_view" where
  "apply_edit app (EditCreateModel m) v = v((app, mName m) \<mapsto> m)"
| "apply_edit app (EditDeleteModel m) v = v((app, mName m) := None)"
| "apply_edit app (EditAddField m f) v =
     v((app, mName m) \<mapsto> m\<lparr>mFields := mFields m @ [f]\<rparr>)"
| "apply_edit app (EditRemoveField m f) v =
     v((app, mName m) \<mapsto> m\<lparr>mFields := filter (\<lambda>x. fName x \<noteq> fName f) (mFields m)\<rparr>)"

text \<open>An edit is applicable where the database has what it changes and lacks what it adds.\<close>

fun edit_applies :: "string \<Rightarrow> schema_edit \<Rightarrow> schema_view \<Rightarrow> bool" where
  "edit_applies app (EditCreateModel m) v \<longleftrightarrow> v (app, mName m) = None"
| "edit_applies app (EditDeleteModel m) v \<longleftrightarrow> v (app, mName m) = Some m"
| "edit_applies app (EditAddField m f) v \<longleftrightarrow>
     v (app, mName m) = Some m \<and> fName f \<notin> fName ` set (mFields m)"
| "edit_applies app (EditRemoveField m f) v \<longleftrightarrow> v (app, mName m) = Some m \<and> f \<in> set (mFields m)"

lemma models_of_put_schema:
  "models_of (put_schema s app sch) =
     (\<lambda>(a, n). if a = app then find (\<lambda>m. mName m = n) (sModels sch) else models_of s (a, n))"
  by (auto simp: fun_eq_iff models_of_def State_Model_eq put_schema_lookup)

lemma models_of_app:
  "map_of (stApps s) app = Some sch \<Longrightarrow> models_of s (app, n) = find (\<lambda>m. mName m = n) (sModels sch)"
  by (simp add: models_of_def State_Model_eq)

lemma models_of_app_schema:
  "models_of s (app, n) = find (\<lambda>m. mName m = n) (sModels (app_schema s app))"
  by (auto simp: models_of_def State_Model_eq app_schema_def zeroSchema_for_def split: option.splits)

lemma find_filter_name:
  "find (\<lambda>x. mName x = n) (filter (\<lambda>x. mName x \<noteq> k) xs) = (if n = k then None else find (\<lambda>x. mName x = n) xs)"
  by (induction xs) auto

lemma find_update_name:
  assumes "index_where (\<lambda>m. mName m = k) xs = Some i" "mName y = k"
  shows "find (\<lambda>x. mName x = n) (xs[i := y]) = (if n = k then Some y else find (\<lambda>x. mName x = n) xs)"
  using assms by (induction xs arbitrary: i) (auto split: if_splits nat.splits)

lemma forward_edit:
  assumes wf: "state_wf uc s" and fwd: "stateForward uc op s = Inr t"
  shows "\<exists>e. databaseForward op s t = Inr e \<and> edit_applies (App op) e (models_of s)
    \<and> models_of t = apply_edit (App op) e (models_of s)"
proof (cases op)
  case (CreateModel app m)
  let ?nm = "model_nf app m"
  note f = createModel_forward_Inr[OF wf fwd[unfolded CreateModel stateForward.simps]]
  have none: "find (\<lambda>x. mName x = mName m) (sModels (app_schema s app)) = None"
    using f(3) models_of_app_schema[of s app "mName m"] by (simp add: models_of_def)
  have mt: "models_of t = (models_of s)((app, mName m) \<mapsto> ?nm)"
    unfolding f(5) models_of_put_schema
    using none by (auto simp: fun_eq_iff models_of_app_schema find_append split: option.splits)
  then have "State_Model t app (mName m) = Some ?nm" by (auto simp: models_of_def fun_eq_iff)
  then show ?thesis using CreateModel mt f(3) by (simp add: models_of_def)
next
  case (AddField app mn f)
  from addField_forward_Inr[OF wf fwd[unfolded AddField stateForward.simps]] obtain sch i where
    sch: "map_of (stApps s) app = Some sch"
    and i: "index_where (\<lambda>m. mName m = mn) (sModels sch) = Some i"
    and fresh: "\<forall>x \<in> set (mFields (sModels sch ! i)). fName x \<noteq> fName f"
    and t: "t = put_schema s app (sch\<lparr>sModels := (sModels sch)[i := (sModels sch ! i)
           \<lparr>mFields := mFields (sModels sch ! i) @ [field_nf f]\<rparr>]\<rparr>)" .
  let ?m = "sModels sch ! i"
  let ?m' = "?m\<lparr>mFields := mFields ?m @ [field_nf f]\<rparr>"
  have name: "mName ?m = mn" using index_where_Some[OF i] by simp
  have ms: "models_of s (app, mn) = Some ?m"
    using models_of_app[OF sch] index_where_find[OF i] by simp
  have mt: "models_of t = (models_of s)((app, mn) \<mapsto> ?m')"
    unfolding t models_of_put_schema using name
    by (auto simp: fun_eq_iff find_update_name[OF i] models_of_app[OF sch])
  have "find (\<lambda>x. fName x = fName f) (mFields ?m) = None" using fresh by (simp add: find_None_key)
  then have "find (\<lambda>x. fName x = fName f) (mFields ?m') = Some (field_nf f)"
    by (simp add: find_append field_nf_def)
  moreover have "State_Model t app mn = Some ?m'" using fun_cong[OF mt, of "(app, mn)"] by (simp add: models_of_def)
  moreover have "State_Model s app mn = Some ?m" using ms by (simp add: models_of_def)
  moreover have "fName (field_nf f) \<notin> fName ` set (mFields ?m)" using fresh by (auto simp: field_nf_def)
  ultimately show ?thesis using AddField mt ms name by (simp add: findField_def)
qed

lemma remove_nth_filter:
  assumes "index_where (\<lambda>x. key x = k) xs = Some j" "distinct (map key xs)"
  shows "take j xs @ drop (Suc j) xs = filter (\<lambda>x. key x \<noteq> k) xs"
  using assms
proof (induction xs arbitrary: j)
  case (Cons x xs)
  show ?case
  proof (cases "key x = k")
    case True
    then have "\<forall>y \<in> set xs. key y \<noteq> k" using Cons.prems(2) by (auto simp: image_iff)
    then have "filter (\<lambda>y. key y \<noteq> k) xs = xs" by (simp add: filter_id_conv)
    with True Cons.prems(1) show ?thesis by simp
  next
    case False
    with Cons obtain j' where "j = Suc j'" "index_where (\<lambda>x. key x = k) xs = Some j'" by auto
    with Cons False show ?thesis by simp
  qed
qed simp

text \<open>
  Removing a field of the state. The auto field is the exception: normalization puts the
  implicit primary key back, so the state keeps a field the database edit removes.
\<close>

definition removes_auto :: "builtin_operation \<Rightarrow> bool" where
  "removes_auto op \<longleftrightarrow> (case op of AddField _ _ f \<Rightarrow> fKind f = FieldAuto | CreateModel _ _ \<Rightarrow> False)"

lemma stateForward_not_auto:
  assumes wf: "state_wf uc s" and fwd: "stateForward uc op s = Inr t"
  shows "\<not> removes_auto op"
proof (cases op)
  case (AddField app mn f)
  from addField_forward_Inr[OF wf fwd[unfolded AddField stateForward.simps]] obtain sch i where
    sch: "map_of (stApps s) app = Some sch"
    and i: "index_where (\<lambda>m. mName m = mn) (sModels sch) = Some i"
    and wfn: "wf_schema uc (sch\<lparr>sModels := (sModels sch)[i := (sModels sch ! i)
           \<lparr>mFields := mFields (sModels sch ! i) @ [field_nf f]\<rparr>]\<rparr>)" .
  let ?m = "sModels sch ! i"
  let ?m' = "?m\<lparr>mFields := mFields ?m @ [field_nf f]\<rparr>"
  have il: "i < length (sModels sch)" using index_where_Some[OF i] by simp
  have "wf_model uc ?m" using state_wf_lookup[OF wf sch] il by (simp add: wf_schema_def list_all_iff)
  then have one: "length (filter fPrimaryKey (mFields ?m)) = 1" by (simp add: wf_model_def)
  have "?m' \<in> set ((sModels sch)[i := ?m'])" using il by (simp add: set_update_memI)
  then have wm: "wf_model uc ?m'" using wfn by (simp add: wf_schema_def list_all_iff)
  then have "length (filter fPrimaryKey (mFields ?m')) = 1" by (simp only: wf_model_def)
  with one have npk: "\<not> fPrimaryKey (field_nf f)" by (auto split: if_splits)
  have "wf_field uc (field_nf f)" using wm by (simp add: wf_model_def)
  with npk have "fKind (field_nf f) \<noteq> FieldAuto" by (auto simp: wf_field_def wf_kind_def)
  then show ?thesis using AddField by (simp add: removes_auto_def field_nf_def split: if_splits)
qed (simp add: removes_auto_def)

lemma backward_edit:
  assumes wf: "state_wf uc s" and bwd: "stateBackward uc op s = Inr t" and na: "\<not> removes_auto op"
  shows "\<exists>e. databaseBackward op s t = Inr e \<and> edit_applies (App op) e (models_of s)
    \<and> models_of t = apply_edit (App op) e (models_of s)"
proof (cases op)
  case (CreateModel app m)
  let ?nm = "model_nf app m"
  let ?kept = "\<lambda>sch. filter (\<lambda>x. mName x \<noteq> mName m) (sModels sch)"
  from createModel_backward_Inr[OF wf bwd[unfolded CreateModel stateBackward.simps]] obtain sch where
    sch: "map_of (stApps s) app = Some sch"
    and f: "find (\<lambda>x. mName x = mName m) (sModels sch) = Some ?nm"
    and t: "(?kept sch = [] \<and> t = withoutApp s app) \<or> t = put_schema s app (sch\<lparr>sModels := ?kept sch\<rparr>)"
    by blast
  have gone: "models_of t (app, n) = find (\<lambda>x. mName x = n) (?kept sch)" for n
    using t state_wf_map[OF wf]
    by (auto simp: put_schema_lookup models_of_def State_Model_eq withoutApp_def Let_def)
  have other: "a \<noteq> app \<Longrightarrow> models_of t (a, n) = models_of s (a, n)" for a n
    using t state_wf_map[OF wf]
    by (auto simp: put_schema_lookup models_of_def State_Model_eq withoutApp_def Let_def)
  have mt: "models_of t = (models_of s)((app, mName m) := None)"
  proof (rule ext, clarify)
    fix a n
    show "models_of t (a, n) = ((models_of s)((app, mName m) := None)) (a, n)"
      by (cases "a = app") (simp_all add: gone other find_filter_name models_of_app[OF sch])
  qed
  have "State_Model s app (mName m) = Some ?nm" using f sch by (simp add: State_Model_eq)
  with CreateModel mt show ?thesis by (simp add: models_of_def)
next
  case (AddField app mn f)
  from addField_backward_Inr[OF wf bwd[unfolded AddField stateBackward.simps]] obtain sch i j where
    sch: "map_of (stApps s) app = Some sch"
    and i: "index_where (\<lambda>m. mName m = mn) (sModels sch) = Some i"
    and j: "index_where (\<lambda>x. fName x = fName f) (mFields (sModels sch ! i)) = Some j"
    and fj: "mFields (sModels sch ! i) ! j = field_nf f"
    and ex: "\<exists>x. Normalize uc (sch\<lparr>sModels := (sModels sch)[i := (sModels sch ! i)
           \<lparr>mFields := take j (mFields (sModels sch ! i)) @ drop (Suc j) (mFields (sModels sch ! i))\<rparr>]\<rparr>) = Inr x
         \<and> t = withSchema s x" .
  from ex obtain x where x: "Normalize uc (sch\<lparr>sModels := (sModels sch)[i := (sModels sch ! i)
           \<lparr>mFields := take j (mFields (sModels sch ! i)) @ drop (Suc j) (mFields (sModels sch ! i))\<rparr>]\<rparr>) = Inr x"
    and t: "t = withSchema s x" by (elim exE conjE)
  let ?m = "sModels sch ! i"
  let ?kept = "filter (\<lambda>x. fName x \<noteq> fName f) (mFields ?m)"
  let ?m' = "?m\<lparr>mFields := ?kept\<rparr>"
  let ?sch = "sch\<lparr>sModels := (sModels sch)[i := ?m']\<rparr>"
  have name: "mName ?m = mn" "i < length (sModels sch)" using index_where_Some[OF i] by simp_all
  have wfs: "wf_schema uc sch" "sAppLabel sch = app" using state_wf_lookup[OF wf sch] by simp_all
  then have wfm: "wf_model uc m" if "m \<in> set (sModels sch)" for m
    using that by (simp add: wf_schema_def list_all_iff)
  then have wf_m: "wf_model uc ?m" using name(2) by simp
  then have dist: "distinct (map fName (mFields ?m))" by (simp add: wf_model_def)
  have kept: "take j (mFields ?m) @ drop (Suc j) (mFields ?m) = ?kept"
    by (rule remove_nth_filter[OF j dist])
  have jl: "j < length (mFields ?m)" using index_where_Some[OF j] by simp
  then have fin: "field_nf f \<in> set (mFields ?m)" using fj by (metis nth_mem)
  have fnf: "fName (field_nf f) = fName f" "fKind (field_nf f) = fKind f" by (simp_all add: field_nf_def)
  have keep_auto: "list_ex (\<lambda>f. fKind f = FieldAuto) ?kept"
  proof -
    from wf_model_has_auto[OF wf_m] obtain a where a: "a \<in> set (mFields ?m)" "fKind a = FieldAuto"
      by (auto simp: list_ex_iff)
    have "fName a \<noteq> fName f"
    proof
      assume "fName a = fName f"
      then have "fName a = fName (field_nf f)" using fnf(1) by simp
      with a(1) fin dist have "a = field_nf f" by (simp add: distinct_map inj_on_def)
      then show False using a(2) na fnf(2) AddField by (simp add: removes_auto_def)
    qed
    with a show ?thesis by (auto simp: list_ex_iff)
  qed
  have "model_nf app ?m' = ?m'"
  proof -
    have "map field_nf ?kept = ?kept"
      using wf_m by (intro map_idI) (auto simp: wf_model_def list_all_iff)
    moreover have "mDBTable ?m \<noteq> ''''" using wf_m by (auto simp: wf_model_def dest: databaseIdentifier_nonempty)
    ultimately show ?thesis using keep_auto by (simp add: model_nf_def)
  qed
  then have "model_nf app m = m" if "m \<in> set (sModels ?sch)" for m
    using that set_update_subset_insert[of "sModels sch" i ?m'] model_nf_wf[OF wfm, of m app] by auto
  then have "schema_nf ?sch = ?sch"
    by (intro schema_nf_models) (use wfs in \<open>auto simp: wf_schema_def\<close>)
  with x have "x = ?sch" by (simp add: kept Normalize_Inr_iff)
  then have t': "t = put_schema s app ?sch" using t withSchema_eq[OF wf] wfs by simp
  have ms: "models_of s (app, mn) = Some ?m"
    using models_of_app[OF sch] index_where_find[OF i] by simp
  have mt: "models_of t = (models_of s)((app, mn) \<mapsto> ?m')"
    unfolding t' models_of_put_schema using name
    by (auto simp: fun_eq_iff find_update_name[OF i] models_of_app[OF sch])
  have "State_Model s app mn = Some ?m" using ms by (simp add: models_of_def)
  moreover have "find (\<lambda>x. fName x = fName f) (mFields ?m) = Some (field_nf f)"
    using index_where_find[OF j] fj by simp
  ultimately have "databaseBackward op s t = Inr (EditRemoveField ?m (field_nf f))"
    unfolding AddField by (simp add: findField_def)
  moreover have "models_of t = apply_edit app (EditRemoveField ?m (field_nf f)) (models_of s)"
    unfolding mt by (simp add: name fnf)
  moreover have "edit_applies app (EditRemoveField ?m (field_nf f)) (models_of s)"
    using ms fin by (simp add: name)
  ultimately show ?thesis unfolding AddField App.simps by blast
qed

end
