(* ===== verification/Executor.thy ===== *)
theory Executor
  imports Project_State
begin

text \<open>
  The executor of one migration (\<open>migrations/executor.go\<close>) over the database boundary of
  \<open>migrations/backend/backend.go\<close>. What lies behind the boundary is a state \<open>'w\<close> that every
  call takes and returns, and a transaction handle of type \<open>'t\<close>. The interface
  \<open>AtomicBackend\<close> with its \<open>Transaction\<close> is a record of functions; the promises its
  documentation makes are the assumptions of the locale \<open>atomic_backend_laws\<close>, under which the
  executor is proved to be atomic.
\<close>

section \<open>Preflight\<close>

definition migrationError ::
  "error_category \<Rightarrow> error_code \<Rightarrow> direction \<Rightarrow> migration \<Rightarrow> int \<Rightarrow> string \<Rightarrow> go_error \<Rightarrow> go_error" where
  "migrationError category code dir m operationIndex operation cause =
     MigrationError category code dir (migApp m) (migName m) operationIndex operation (Some cause) None"

record prepared_operation =
  poIndex :: nat
  poOp :: builtin_operation
  poFrom :: project_state
  poTo :: project_state

definition operationIndices :: "nat \<Rightarrow> direction \<Rightarrow> nat list" where
  "operationIndices n dir =
     (if dir = DirectionForward then [0..<n] else map (\<lambda>index. n - index - 1) [0..<n])"

lemma operationIndices_backward:
  "dir \<noteq> DirectionForward \<Longrightarrow> operationIndices n dir = rev [0..<n]"
  unfolding operationIndices_def
  by (rule nth_equalityI) (simp_all add: rev_nth)

definition state_transition :: "unicode_tables \<Rightarrow> direction \<Rightarrow> builtin_operation \<Rightarrow> project_state
    \<Rightarrow> go_error + project_state" where
  "state_transition uc dir op from =
     (if dir = DirectionForward then stateForward uc op from else stateBackward uc op from)"

text \<open>The loop over the operations: the prepared operations and the state it ends in.\<close>

fun preflight_loop :: "unicode_tables \<Rightarrow> migration \<Rightarrow> direction \<Rightarrow> nat list \<Rightarrow> project_state
    \<Rightarrow> go_error + prepared_operation list \<times> project_state" where
  "preflight_loop uc m dir [] state = Inr ([], state)"
| "preflight_loop uc m dir (index # indices) state =
     (case operation_builtin (migOperations m ! index) of
        None \<Rightarrow> Inl (migrationError CategoryState CodeInvalidState dir m (int index) ''''
                  (ErrNew ''operation is nil''))
      | Some op \<Rightarrow>
        (if App op \<noteq> migApp m
         then Inl (migrationError CategoryState CodeInvalidState dir m (int index) (Kind op)
                (ErrFmt ''operation app %q does not match migration app %q'' [FStr (App op), FStr (migApp m)]))
         else
           (let from = State_Clone state in
            case state_transition uc dir op from of
              Inl err \<Rightarrow> Inl (migrationError CategoryState CodeInvalidState dir m (int index) (Kind op) err)
            | Inr next \<Rightarrow>
              (case preflight_loop uc m dir indices next of
                 Inl err \<Rightarrow> Inl err
               | Inr (prepared, after) \<Rightarrow>
                   Inr (\<lparr>poIndex = index, poOp = op, poFrom = from, poTo = State_Clone next\<rparr> # prepared,
                        after)))))"

definition preflight :: "unicode_tables \<Rightarrow> project_state \<Rightarrow> migration \<Rightarrow> direction
    \<Rightarrow> go_error + prepared_operation list \<times> project_state" where
  "preflight uc before m dir =
     (case State_validate uc before of
        Some err \<Rightarrow> Inl (migrationError CategoryState CodeInvalidState dir m NoOperation '''' err)
      | None \<Rightarrow>
        if migApp m = ''''
        then Inl (migrationError CategoryState CodeInvalidState dir m NoOperation ''''
               (ErrNew ''migration app is empty''))
        else if migName m = ''''
        then Inl (migrationError CategoryState CodeInvalidState dir m NoOperation ''''
               (ErrNew ''migration name is empty''))
        else (case preflight_loop uc m dir (operationIndices (length (migOperations m)) dir)
                     (State_Clone before) of
                Inl err \<Rightarrow> Inl err
              | Inr (prepared, state) \<Rightarrow> Inr (prepared, State_Clone state)))"

section \<open>The database boundary\<close>

text \<open>
  The context a call gets: the caller's, whose cancellation the callee may see, or the one
  \<open>context.WithoutCancel\<close> derives from it, or nil.
\<close>

datatype call_context = CallerContext | WithoutCancel | NilContext

record ('w, 't) atomic_backend =
  abBegin :: "call_context \<Rightarrow> 'w \<Rightarrow> (go_error + 't option) \<times> 'w"
  abEdit :: "'t \<Rightarrow> call_context \<Rightarrow> schema_edit \<Rightarrow> 'w \<Rightarrow> go_error option \<times> 'w"
  abRecordApplied :: "'t \<Rightarrow> call_context \<Rightarrow> string \<Rightarrow> string \<Rightarrow> 'w \<Rightarrow> go_error option \<times> 'w"
  abRecordUnapplied :: "'t \<Rightarrow> call_context \<Rightarrow> string \<Rightarrow> string \<Rightarrow> 'w \<Rightarrow> go_error option \<times> 'w"
  abCommit :: "'t \<Rightarrow> call_context \<Rightarrow> 'w \<Rightarrow> go_error option \<times> 'w"
  abRollback :: "'t \<Rightarrow> call_context \<Rightarrow> 'w \<Rightarrow> go_error option \<times> 'w"

text \<open>
  A context is nil or has an \<open>Err\<close> method, whose result may change between calls: reading it is
  a step of the outside state.
\<close>

type_synonym 'w go_context = "('w \<Rightarrow> go_error option \<times> 'w) option"

definition operationErrorClass :: "go_error \<Rightarrow> error_category \<times> error_code" where
  "operationErrorClass err =
     (if IsCapabilityError err then (CategoryCapability, CodeUnsupportedOperation)
      else (CategoryExecution, CodeOperationFailed))"

definition rollback :: "('w, 't) atomic_backend \<Rightarrow> 't \<Rightarrow> go_error \<Rightarrow> 'w \<Rightarrow> go_error \<times> 'w" where
  "rollback be tx primary w =
     (case abRollback be tx WithoutCancel w of
        (None, w') \<Rightarrow> (primary, w')
      | (Some err, w') \<Rightarrow>
          (case primary of
             MigrationError category code dir app name index operation cause _ \<Rightarrow>
               (MigrationError category code dir app name index operation cause (Some err), w')
           | _ \<Rightarrow> (primary, w')))"

definition database_edit :: "direction \<Rightarrow> prepared_operation \<Rightarrow> go_error + schema_edit" where
  "database_edit dir p =
     (if dir = DirectionForward then databaseForward (poOp p) (poFrom p) (poTo p)
      else databaseBackward (poOp p) (poFrom p) (poTo p))"

text \<open>The loop over the prepared operations: the primary error of the first that fails.\<close>

fun run_prepared :: "('w, 't) atomic_backend \<Rightarrow> 't \<Rightarrow> migration \<Rightarrow> direction \<Rightarrow> prepared_operation list
    \<Rightarrow> 'w \<Rightarrow> go_error option \<times> 'w" where
  "run_prepared be tx m dir [] w = (None, w)"
| "run_prepared be tx m dir (p # ps) w =
     (case (case database_edit dir p of
              Inl err \<Rightarrow> (Some err, w)
            | Inr edit \<Rightarrow> abEdit be tx CallerContext edit w) of
        (Some err, w') \<Rightarrow>
          (case operationErrorClass err of
             (category, code) \<Rightarrow>
               (Some (migrationError category code dir m (int (poIndex p)) (Kind (poOp p)) err), w'))
      | (None, w') \<Rightarrow> run_prepared be tx m dir ps w')"

definition record_step :: "('w, 't) atomic_backend \<Rightarrow> 't \<Rightarrow> migration \<Rightarrow> direction \<Rightarrow> 'w
    \<Rightarrow> go_error option \<times> 'w" where
  "record_step be tx m dir w =
     (if dir = DirectionForward then abRecordApplied be tx CallerContext (migApp m) (migName m) w
      else abRecordUnapplied be tx CallerContext (migApp m) (migName m) w)"

text \<open>What follows a successful \<open>BeginMigration\<close>.\<close>

definition run_transaction :: "('w, 't) atomic_backend \<Rightarrow> 't \<Rightarrow> project_state \<Rightarrow> project_state \<Rightarrow> migration
    \<Rightarrow> direction \<Rightarrow> prepared_operation list \<Rightarrow> 'w \<Rightarrow> (project_state \<times> go_error option) \<times> 'w" where
  "run_transaction be tx before after m dir prepared w =
     (case run_prepared be tx m dir prepared w of
        (Some primary, w1) \<Rightarrow>
          (case rollback be tx primary w1 of (err, w2) \<Rightarrow> ((State_Clone before, Some err), w2))
      | (None, w1) \<Rightarrow>
        (case record_step be tx m dir w1 of
           (Some err, w2) \<Rightarrow>
             (case rollback be tx (migrationError CategoryRecorder CodeRecordFailed dir m NoOperation '''' err) w2 of
                (err', w3) \<Rightarrow> ((State_Clone before, Some err'), w3))
         | (None, w2) \<Rightarrow>
           (case abCommit be tx CallerContext w2 of
              (Some err, w3) \<Rightarrow>
                (case rollback be tx (migrationError CategoryTransaction CodeCommitFailed dir m NoOperation '''' err) w3 of
                   (err', w4) \<Rightarrow> ((State_Clone before, Some err'), w4))
            | (None, w3) \<Rightarrow> ((State_Clone after, None), w3))))"

definition execute :: "unicode_tables \<Rightarrow> 'w go_context \<Rightarrow> ('w, 't) atomic_backend option \<Rightarrow> project_state
    \<Rightarrow> migration \<Rightarrow> direction \<Rightarrow> 'w \<Rightarrow> (project_state \<times> go_error option) \<times> 'w" where
  "execute uc ctx backend before m dir w =
     (let failed = (\<lambda>category code cause w'.
            ((State_Clone before, Some (migrationError category code dir m NoOperation '''' cause)), w')) in
      case ctx of
        None \<Rightarrow> failed CategoryExecution CodeOperationFailed (ErrNew ''context is nil'') w
      | Some ctxErr \<Rightarrow>
      (case ctxErr w of
         (Some err, w1) \<Rightarrow> failed CategoryExecution CodeOperationFailed err w1
       | (None, w1) \<Rightarrow>
       (case preflight uc before m dir of
          Inl err \<Rightarrow> ((State_Clone before, Some err), w1)
        | Inr (prepared, after) \<Rightarrow>
        (case ctxErr w1 of
           (Some err, w2) \<Rightarrow> failed CategoryExecution CodeOperationFailed err w2
         | (None, w2) \<Rightarrow>
         (case backend of
            None \<Rightarrow> failed CategoryTransaction CodeBeginFailed (ErrNew ''backend is nil'') w2
          | Some be \<Rightarrow>
          (case abBegin be CallerContext w2 of
             (Inl err, w3) \<Rightarrow> failed CategoryTransaction CodeBeginFailed err w3
           | (Inr None, w3) \<Rightarrow>
               failed CategoryTransaction CodeBeginFailed (ErrNew ''backend returned a nil transaction'') w3
           | (Inr (Some tx), w3) \<Rightarrow> run_transaction be tx before after m dir prepared w3))))))"

definition Apply :: "unicode_tables \<Rightarrow> 'w go_context \<Rightarrow> ('w, 't) atomic_backend option \<Rightarrow> project_state
    \<Rightarrow> migration \<Rightarrow> 'w \<Rightarrow> (project_state \<times> go_error option) \<times> 'w" where
  "Apply uc ctx backend before m = execute uc ctx backend before m DirectionForward"

definition Unapply :: "unicode_tables \<Rightarrow> 'w go_context \<Rightarrow> ('w, 't) atomic_backend option \<Rightarrow> project_state
    \<Rightarrow> migration \<Rightarrow> 'w \<Rightarrow> (project_state \<times> go_error option) \<times> 'w" where
  "Unapply uc ctx backend before m = execute uc ctx backend before m DirectionBackward"

section \<open>What preflight establishes\<close>

text \<open>
  The prepared operations form a chain of transitions from the state before to the state
  after, each one the transition of its operation.
\<close>

fun prepared_chain :: "unicode_tables \<Rightarrow> direction \<Rightarrow> project_state \<Rightarrow> prepared_operation list
    \<Rightarrow> project_state \<Rightarrow> bool" where
  "prepared_chain uc dir s [] t \<longleftrightarrow> t = s"
| "prepared_chain uc dir s (p # ps) t \<longleftrightarrow> poFrom p = State_Clone s
     \<and> (\<exists>u. state_transition uc dir (poOp p) (State_Clone s) = Inr u \<and> poTo p = State_Clone u
          \<and> prepared_chain uc dir u ps t)"

lemma preflight_loop_Cons:
  assumes "preflight_loop uc m dir (i # is) s = Inr (ps, t)"
  obtains op u qs where "operation_builtin (migOperations m ! i) = Some op" "App op = migApp m"
    and "state_transition uc dir op (State_Clone s) = Inr u"
    and "preflight_loop uc m dir is u = Inr (qs, t)"
    and "ps = \<lparr>poIndex = i, poOp = op, poFrom = State_Clone s, poTo = State_Clone u\<rparr> # qs"
proof -
  from assms obtain op u where op: "operation_builtin (migOperations m ! i) = Some op" "App op = migApp m"
    and u: "state_transition uc dir op (State_Clone s) = Inr u"
    by (fastforce simp: Let_def split: option.splits if_splits sum.splits)
  with assms show ?thesis
    by (cases "preflight_loop uc m dir is u") (auto simp: Let_def intro: that[OF op u])
qed

lemma preflight_loop_Inr:
  "preflight_loop uc m dir is s = Inr (ps, t) \<Longrightarrow>
     prepared_chain uc dir s ps t
     \<and> map (\<lambda>p. Some (poOp p)) ps = map (\<lambda>i. operation_builtin (migOperations m ! i)) is
     \<and> (\<forall>p \<in> set ps. App (poOp p) = migApp m)"
proof (induction "is" arbitrary: s ps)
  case (Cons i "is")
  from preflight_loop_Cons[OF Cons.prems] obtain op u qs where
    op: "operation_builtin (migOperations m ! i) = Some op" "App op = migApp m"
    and u: "state_transition uc dir op (State_Clone s) = Inr u"
    and qs: "preflight_loop uc m dir is u = Inr (qs, t)"
    and ps: "ps = \<lparr>poIndex = i, poOp = op, poFrom = State_Clone s, poTo = State_Clone u\<rparr> # qs" .
  from Cons.IH[OF qs] op u show ?case by (auto simp: ps)
qed simp

lemma state_transition_wf:
  "state_wf uc s \<Longrightarrow> state_transition uc dir op s = Inr t \<Longrightarrow> state_wf uc t"
  by (auto simp: state_transition_def intro: stateForward_wf stateBackward_wf split: if_splits)

lemma prepared_chain_wf:
  "prepared_chain uc dir s ps t \<Longrightarrow> state_wf uc s \<Longrightarrow> state_wf uc t"
  by (induction ps arbitrary: s) (auto dest: state_transition_wf[OF state_wf_Clone])

lemma models_of_Clone [simp]: "state_map s \<Longrightarrow> models_of (State_Clone s) = models_of s"
  by (simp add: models_of_def)

text \<open>The edits of the prepared operations, and what they do to the schema.\<close>

definition planned_edits :: "direction \<Rightarrow> prepared_operation list \<Rightarrow> schema_edit list" where
  "planned_edits dir ps = List.map_filter (\<lambda>p. case database_edit dir p of Inl _ \<Rightarrow> None | Inr e \<Rightarrow> Some e) ps"

fun edits_apply :: "string \<Rightarrow> schema_edit list \<Rightarrow> schema_view \<Rightarrow> schema_view option" where
  "edits_apply app [] v = Some v"
| "edits_apply app (e # es) v = (if edit_applies app e v then edits_apply app es (apply_edit app e v) else None)"

lemma chain_edits:
  assumes "prepared_chain uc dir s ps t" "state_wf uc s" "\<forall>p \<in> set ps. App (poOp p) = app"
    and "dir \<noteq> DirectionForward \<Longrightarrow> \<forall>p \<in> set ps. \<not> removes_auto (poOp p)"
  shows "(\<forall>p \<in> set ps. \<exists>e. database_edit dir p = Inr e)
    \<and> edits_apply app (planned_edits dir ps) (models_of s) = Some (models_of t)"
  using assms
proof (induction ps arbitrary: s)
  case (Cons p ps)
  then obtain u where pf: "poFrom p = State_Clone s" and pt: "poTo p = State_Clone u"
    and u: "state_transition uc dir (poOp p) (State_Clone s) = Inr u"
    and chain: "prepared_chain uc dir u ps t" by auto
  have wfs: "state_wf uc (State_Clone s)" using Cons.prems(2) by simp
  have wfu: "state_wf uc u" by (rule state_transition_wf[OF wfs u])
  have lookup_u: "State_Model (State_Clone u) a n = State_Model u a n" for a n
    using state_wf_map[OF wfu] by simp
  then have field_u: "findField (State_Clone u) a n k = findField u a n k" for a n k
    by (simp add: findField_def)
  have "\<exists>e. database_edit dir p = Inr e \<and> edit_applies app e (models_of s)
      \<and> models_of u = apply_edit app e (models_of s)"
  proof (cases "dir = DirectionForward")
    case True
    have same: "databaseForward (poOp p) (State_Clone s) (State_Clone u)
        = databaseForward (poOp p) (State_Clone s) u"
      by (cases "poOp p") (simp_all add: lookup_u field_u cong: option.case_cong)
    from True u have "stateForward uc (poOp p) (State_Clone s) = Inr u" by (simp add: state_transition_def)
    from forward_edit[OF wfs this] same Cons.prems(2,3) True pf pt show ?thesis
      by (auto simp: database_edit_def state_wf_map)
  next
    case False
    have same: "databaseBackward (poOp p) (State_Clone s) (State_Clone u)
        = databaseBackward (poOp p) (State_Clone s) u"
      by (cases "poOp p") (simp_all add: lookup_u field_u cong: option.case_cong)
    have na: "\<not> removes_auto (poOp p)" using Cons.prems(4)[OF False] by simp
    from False u have "stateBackward uc (poOp p) (State_Clone s) = Inr u" by (simp add: state_transition_def)
    from backward_edit[OF wfs this na] same Cons.prems(2,3) False pf pt show ?thesis
      by (auto simp: database_edit_def state_wf_map)
  qed
  then obtain e where e: "database_edit dir p = Inr e" "edit_applies app e (models_of s)"
    "models_of u = apply_edit app e (models_of s)" by blast
  have "planned_edits dir (p # ps) = e # planned_edits dir ps"
    by (simp add: planned_edits_def map_filter_simps e)
  moreover have "(\<forall>q \<in> set ps. \<exists>e. database_edit dir q = Inr e)
      \<and> edits_apply app (planned_edits dir ps) (models_of u) = Some (models_of t)"
    by (rule Cons.IH[OF chain wfu]) (use Cons.prems in auto)
  ultimately show ?case using e by simp
qed (simp add: planned_edits_def map_filter_simps)

lemma preflight_Inr:
  assumes map: "state_map before" and pre: "preflight uc before m dir = Inr (ps, after)"
  obtains t where "state_wf uc before" "after = State_Clone t" "migApp m \<noteq> ''''" "migName m \<noteq> ''''"
    and "preflight_loop uc m dir (operationIndices (length (migOperations m)) dir) (State_Clone before)
           = Inr (ps, t)"
    and "prepared_chain uc dir (State_Clone before) ps t"
proof -
  from pre obtain t where t: "State_validate uc before = None" "migApp m \<noteq> ''''" "migName m \<noteq> ''''"
    "preflight_loop uc m dir (operationIndices (length (migOperations m)) dir) (State_Clone before)
           = Inr (ps, t)" "after = State_Clone t"
    unfolding preflight_def by (auto split: option.splits if_splits sum.splits)
  have "state_wf uc before" using t(1) State_validate_None_iff[OF map] by blast
  with t preflight_loop_Inr[OF t(4)] that show ?thesis by blast
qed

section \<open>Unapplying undoes applying\<close>

lemma stateForward_version:
  assumes "state_wf uc s" "stateForward uc op s = Inr t"
  shows "State_Clone t = t"
proof -
  have "stFormatVersion t = StateFormatVersion"
  proof (cases op)
    case (CreateModel app m)
    have "t = put_schema s app ((app_schema s app)\<lparr>sModels := sModels (app_schema s app) @ [model_nf app m]\<rparr>)"
      by (rule createModel_forward_Inr(5)[OF assms(1) assms(2)[unfolded CreateModel stateForward.simps]])
    then show ?thesis by (simp add: put_schema_def)
  next
    case (AddField app mn f)
    from addField_forward_Inr[OF assms(1) assms(2)[unfolded AddField stateForward.simps]]
    show ?thesis by (metis put_schema_def project_state.select_convs(1))
  qed
  then show ?thesis using State_Clone_wf[OF stateForward_wf[OF assms]] by (cases t) simp
qed

lemma preflight_loop_append:
  "preflight_loop uc m dir (is @ js) s =
     (case preflight_loop uc m dir is s of
        Inl err \<Rightarrow> Inl err
      | Inr (ps, t) \<Rightarrow>
          (case preflight_loop uc m dir js t of
             Inl err \<Rightarrow> Inl err
           | Inr (qs, u) \<Rightarrow> Inr (ps @ qs, u)))"
proof (induction "is" arbitrary: s)
  case Nil
  show ?case by (auto split: sum.splits)
next
  case (Cons i "is")
  show ?case
    by (auto simp: Cons.IH Let_def split: option.splits sum.splits)
qed

lemma preflight_loop_reverse:
  assumes "preflight_loop uc m DirectionForward is s = Inr (ps, t)" and "state_wf uc s"
    and "State_Clone t' = State_Clone t"
  shows "\<exists>qs s'. preflight_loop uc m DirectionBackward (rev is) t' = Inr (qs, s')
    \<and> State_Clone s' = State_Clone s"
  using assms
proof (induction "is" arbitrary: s ps)
  case Nil
  then show ?case by simp
next
  case (Cons i "is")
  from preflight_loop_Cons[OF Cons.prems(1)] obtain op u qs where
    op: "operation_builtin (migOperations m ! i) = Some op" "App op = migApp m"
    and tr: "state_transition uc DirectionForward op (State_Clone s) = Inr u"
    and qs: "preflight_loop uc m DirectionForward is u = Inr (qs, t)" .
  from tr have u: "stateForward uc op (State_Clone s) = Inr u" by (simp add: state_transition_def)
  have wfs: "state_wf uc (State_Clone s)" using Cons.prems(2) by simp
  have "state_wf uc u" by (rule stateForward_wf[OF wfs u])
  from Cons.IH[OF qs this Cons.prems(3)] obtain rs u' where
    rs: "preflight_loop uc m DirectionBackward (rev is) t' = Inr (rs, u')" "State_Clone u' = State_Clone u"
    by blast
  have "State_Clone u' = u" using rs(2) stateForward_version[OF wfs u] by simp
  moreover have "stateBackward uc op u = Inr (State_Clone (State_Clone s))"
    by (rule state_roundtrip[OF wfs u])
  ultimately show ?case
    using rs op State_Clone_idem[OF state_wf_map[OF Cons.prems(2)]]
    by (simp add: preflight_loop_append Let_def state_transition_def)
qed

lemma preflight_reverse:
  assumes map: "state_map before" and pre: "preflight uc before m DirectionForward = Inr (ps, after)"
  shows "\<exists>qs. preflight uc after m DirectionBackward = Inr (qs, State_Clone before)"
proof -
  from preflight_Inr[OF map pre] obtain t where wf: "state_wf uc before" and after: "after = State_Clone t"
    and names: "migApp m \<noteq> ''''" "migName m \<noteq> ''''"
    and loop: "preflight_loop uc m DirectionForward [0..<length (migOperations m)] (State_Clone before) = Inr (ps, t)"
    and chain: "prepared_chain uc DirectionForward (State_Clone before) ps t"
    by (auto simp: operationIndices_def)
  have wft: "state_wf uc t" by (rule prepared_chain_wf[OF chain]) (simp add: wf)
  then have tm: "state_map t" by (rule state_wf_map)
  have "State_Clone (State_Clone after) = State_Clone t"
    by (simp add: after State_Clone_idem[OF tm] state_map_Clone[OF tm])
  from preflight_loop_reverse[OF loop _ this] wf obtain qs s' where
    qs: "preflight_loop uc m DirectionBackward (rev [0..<length (migOperations m)]) (State_Clone after) = Inr (qs, s')"
    "State_Clone s' = State_Clone (State_Clone before)" by auto
  have "State_validate uc after = None"
    using wft tm by (simp add: after State_validate_None_iff)
  with qs names show ?thesis
    by (simp add: preflight_def operationIndices_backward State_Clone_idem[OF map])
qed

section \<open>Atomicity\<close>

text \<open>
  The promises of \<open>AtomicBackend\<close> and \<open>Transaction\<close>: a durable database, the view a
  transaction has of it, and what the calls do to the two. Only a commit changes the durable
  database; a commit that reports an error has either taken effect or not. \<open>edit_effect\<close> and
  \<open>record_effect\<close> are what a successful edit and a successful recorder call do to a database.
\<close>

locale atomic_backend_laws =
  fixes be :: "('w, 't) atomic_backend"
    and durable :: "'w \<Rightarrow> 'd"
    and pending :: "'t \<Rightarrow> 'w \<Rightarrow> 'd option"
    and edit_effect :: "schema_edit \<Rightarrow> 'd \<Rightarrow> 'd \<Rightarrow> bool"
    and record_effect :: "bool \<Rightarrow> string \<Rightarrow> string \<Rightarrow> 'd \<Rightarrow> 'd \<Rightarrow> bool"
    and ctxErr :: "'w \<Rightarrow> go_error option \<times> 'w"
  assumes ctx_durable: "durable (snd (ctxErr w)) = durable w"
    and begin_durable: "durable (snd (abBegin be c w)) = durable w"
    and begin_pending: "abBegin be c w = (Inr (Some tx), w') \<Longrightarrow> pending tx w' = Some (durable w)"
    and edit_durable: "durable (snd (abEdit be tx c e w)) = durable w"
    and edit_pending: "pending tx w = Some d \<Longrightarrow> abEdit be tx c e w = (None, w') \<Longrightarrow>
          \<exists>d'. pending tx w' = Some d' \<and> edit_effect e d d'"
    and applied_durable: "durable (snd (abRecordApplied be tx c a n w)) = durable w"
    and applied_pending: "pending tx w = Some d \<Longrightarrow> abRecordApplied be tx c a n w = (None, w') \<Longrightarrow>
          \<exists>d'. pending tx w' = Some d' \<and> record_effect True a n d d'"
    and unapplied_durable: "durable (snd (abRecordUnapplied be tx c a n w)) = durable w"
    and unapplied_pending: "pending tx w = Some d \<Longrightarrow> abRecordUnapplied be tx c a n w = (None, w') \<Longrightarrow>
          \<exists>d'. pending tx w' = Some d' \<and> record_effect False a n d d'"
    and commit_ok: "pending tx w = Some d \<Longrightarrow> abCommit be tx c w = (None, w') \<Longrightarrow> durable w' = d"
    and commit_failed: "pending tx w = Some d \<Longrightarrow> abCommit be tx c w = (Some err, w') \<Longrightarrow>
          durable w' = durable w \<or> durable w' = d"
    and rollback_durable: "durable (snd (abRollback be tx c w)) = durable w"
begin

inductive edits_effect :: "schema_edit list \<Rightarrow> 'd \<Rightarrow> 'd \<Rightarrow> bool" where
  edits_Nil: "edits_effect [] d d"
| edits_Cons: "edit_effect e d d' \<Longrightarrow> edits_effect es d' d'' \<Longrightarrow> edits_effect (e # es) d d''"

lemma rollback_keeps: "durable (snd (rollback be tx primary w)) = durable w"
  using rollback_durable[of tx WithoutCancel w]
  by (auto simp: rollback_def split: prod.splits option.splits go_error.splits)

lemma run_prepared_durable: "durable (snd (run_prepared be tx m dir ps w)) = durable w"
proof (induction ps arbitrary: w)
  case (Cons p ps)
  show ?case
  proof (cases "database_edit dir p")
    case (Inr e)
    with Cons.IH edit_durable[of tx CallerContext e w] show ?thesis
      by (auto split: prod.splits option.splits)
  qed (auto split: prod.splits)
qed simp

lemma run_prepared_pending:
  assumes "run_prepared be tx m dir ps w = (None, w')" and "pending tx w = Some d"
  shows "\<exists>d'. pending tx w' = Some d' \<and> edits_effect (planned_edits dir ps) d d'"
  using assms
proof (induction ps arbitrary: w d)
  case Nil
  then show ?case by (auto simp: planned_edits_def map_filter_simps intro: edits_Nil)
next
  case (Cons p ps)
  from Cons.prems(1) obtain e where e: "database_edit dir p = Inr e"
    by (auto split: sum.splits prod.splits option.splits)
  with Cons.prems(1) obtain w1 where w1: "abEdit be tx CallerContext e w = (None, w1)"
    "run_prepared be tx m dir ps w1 = (None, w')"
    by (auto split: prod.splits option.splits)
  from edit_pending[OF Cons.prems(2) w1(1)] obtain d1 where
    d1: "pending tx w1 = Some d1" "edit_effect e d d1" by blast
  from Cons.IH[OF w1(2) d1(1)] obtain d' where
    d': "pending tx w' = Some d'" "edits_effect (planned_edits dir ps) d1 d'" by blast
  have "planned_edits dir (p # ps) = e # planned_edits dir ps"
    by (simp add: planned_edits_def map_filter_simps e)
  with d1(2) d' show ?case by (auto intro: edits_Cons)
qed

text \<open>The database the whole migration describes: its edits, then its record.\<close>

definition migrated :: "direction \<Rightarrow> migration \<Rightarrow> prepared_operation list \<Rightarrow> 'd \<Rightarrow> 'd \<Rightarrow> bool" where
  "migrated dir m ps d d'' \<longleftrightarrow> (\<exists>d'. edits_effect (planned_edits dir ps) d d'
     \<and> record_effect (dir = DirectionForward) (migApp m) (migName m) d' d'')"

lemma record_step_durable: "durable (snd (record_step be tx m dir w)) = durable w"
  by (simp add: record_step_def applied_durable unapplied_durable)

lemma record_step_pending:
  "pending tx w = Some d \<Longrightarrow> record_step be tx m dir w = (None, w') \<Longrightarrow>
     \<exists>d'. pending tx w' = Some d' \<and> record_effect (dir = DirectionForward) (migApp m) (migName m) d d'"
  by (auto simp: record_step_def split: if_splits dest: applied_pending unapplied_pending)

lemma run_transaction_atomic:
  assumes run: "run_transaction be tx before after m dir ps w = ((s, r), w')"
    and open_tx: "pending tx w = Some (durable w)"
  shows "case r of
      None \<Rightarrow> s = State_Clone after \<and> migrated dir m ps (durable w) (durable w')
    | Some err \<Rightarrow> s = State_Clone before \<and>
        (durable w' = durable w \<or>
         (migrated dir m ps (durable w) (durable w') \<and> is_MigrationError err \<and> meCode err = CodeCommitFailed))"
proof -
  obtain r1 w1 where r1: "run_prepared be tx m dir ps w = (r1, w1)" by fastforce
  have dw1: "durable w1 = durable w" using run_prepared_durable[of tx m dir ps w] r1 by simp
  show ?thesis
  proof (cases r1)
    case (Some primary)
    with run r1 dw1 rollback_keeps[of tx primary w1] show ?thesis
      by (auto simp: run_transaction_def split: prod.splits)
  next
    case None
    from run_prepared_pending[OF r1[unfolded None] open_tx] obtain d1 where
      d1: "pending tx w1 = Some d1" "edits_effect (planned_edits dir ps) (durable w) d1" by blast
    obtain r2 w2 where r2: "record_step be tx m dir w1 = (r2, w2)" by fastforce
    have dw2: "durable w2 = durable w" using record_step_durable[of tx m dir w1] r2 dw1 by simp
    show ?thesis
    proof (cases r2)
      case (Some err)
      let ?primary = "migrationError CategoryRecorder CodeRecordFailed dir m NoOperation '''' err"
      have "durable (snd (rollback be tx ?primary w2)) = durable w2" by (rule rollback_keeps)
      with run r1 r2 dw2 None Some show ?thesis
        by (auto simp: run_transaction_def split: prod.splits)
    next
      case None2: None
      from record_step_pending[OF d1(1) r2[unfolded None2]] obtain d2 where
        d2: "pending tx w2 = Some d2"
        "record_effect (dir = DirectionForward) (migApp m) (migName m) d1 d2" by blast
      have mig: "migrated dir m ps (durable w) d2" using d1(2) d2(2) by (auto simp: migrated_def)
      obtain r3 w3 where r3: "abCommit be tx CallerContext w2 = (r3, w3)" by fastforce
      show ?thesis
      proof (cases r3)
        case None3: None
        have "durable w3 = d2" by (rule commit_ok[OF d2(1) r3[unfolded None3]])
        with run r1 r2 r3 None None2 None3 mig show ?thesis
          by (simp add: run_transaction_def)
      next
        case (Some err)
        let ?primary = "migrationError CategoryTransaction CodeCommitFailed dir m NoOperation '''' err"
        obtain e4 w4 where r4: "rollback be tx ?primary w3 = (e4, w4)" by fastforce
        have "is_MigrationError e4 \<and> meCode e4 = CodeCommitFailed"
          using r4 by (auto simp: rollback_def migrationError_def split: prod.splits option.splits)
        moreover have "durable w4 = durable w3" using rollback_keeps[of tx ?primary w3] r4 by simp
        moreover have "durable w3 = durable w2 \<or> durable w3 = d2"
          by (rule commit_failed[OF d2(1) r3[unfolded Some]])
        ultimately show ?thesis
          using run r1 r2 r3 r4 None None2 Some mig dw2 by (auto simp: run_transaction_def)
      qed
    qed
  qed
qed

text \<open>The executor as a whole.\<close>

lemma execute_atomic:
  assumes run: "execute uc (Some ctxErr) (Some be) before m dir w = ((s, r), w')"
  shows "case r of
      None \<Rightarrow> \<exists>ps after. preflight uc before m dir = Inr (ps, after) \<and> s = State_Clone after
        \<and> migrated dir m ps (durable w) (durable w')
    | Some err \<Rightarrow> s = State_Clone before \<and>
        (durable w' = durable w \<or>
         (\<exists>ps after. preflight uc before m dir = Inr (ps, after)
            \<and> migrated dir m ps (durable w) (durable w') \<and> is_MigrationError err \<and> meCode err = CodeCommitFailed))"
proof -
  obtain c1 w1 where c1: "ctxErr w = (c1, w1)" by fastforce
  have d1: "durable w1 = durable w" using ctx_durable[of w] c1 by simp
  obtain c2 w2 where c2: "ctxErr w1 = (c2, w2)" by fastforce
  have d2: "durable w2 = durable w" using ctx_durable[of w1] c2 d1 by simp
  obtain c3 w3 where c3: "abBegin be CallerContext w2 = (c3, w3)" by fastforce
  have d3: "durable w3 = durable w" using begin_durable[of CallerContext w2] c3 d2 by simp
  show ?thesis
  proof (cases "\<exists>tx ps after. c1 = None \<and> preflight uc before m dir = Inr (ps, after) \<and> c2 = None
      \<and> c3 = Inr (Some tx)")
    case True
    then obtain tx ps after where ok: "c1 = None" "preflight uc before m dir = Inr (ps, after)"
      "c2 = None" "c3 = Inr (Some tx)" by blast
    have "pending tx w3 = Some (durable w3)" using begin_pending[of CallerContext w2] c3 ok d2 d3 by simp
    moreover have "run_transaction be tx before after m dir ps w3 = ((s, r), w')"
      using run ok c1 c2 c3 by (simp add: execute_def)
    ultimately have "case r of
      None \<Rightarrow> s = State_Clone after \<and> migrated dir m ps (durable w3) (durable w')
    | Some err \<Rightarrow> s = State_Clone before \<and>
        (durable w' = durable w3 \<or>
         (migrated dir m ps (durable w3) (durable w') \<and> is_MigrationError err \<and> meCode err = CodeCommitFailed))"
      by (intro run_transaction_atomic)
    then show ?thesis unfolding d3 ok(2) by (cases r) auto
  next
    case False
    with run c1 c2 c3 d1 d2 d3 show ?thesis
      by (auto simp: execute_def Let_def split: option.splits sum.splits prod.splits)
  qed
qed

end

end
