(* ===== verification/Query_AST.thy ===== *)
theory Query_AST
  imports Go_Errors
begin

text \<open>
  The database-independent query language of package \<open>query\<close>: scalar values
  (\<open>query/value.go\<close>), select plans (\<open>query/plan.go\<close>) and mutation plans
  (\<open>query/mutation.go\<close>). The copies that make plans immutable in Go are the identity here:
  deriving a plan gives a new value and leaves the old one alone.
\<close>

section \<open>Values\<close>

datatype value_kind = ValueNull | ValueInteger | ValueString | ValueBoolean | ValueKindOther string

fun value_kind_string :: "value_kind \<Rightarrow> string" where
  "value_kind_string ValueNull = ''null''"
| "value_kind_string ValueInteger = ''integer''"
| "value_kind_string ValueString = ''string''"
| "value_kind_string ValueBoolean = ''boolean''"
| "value_kind_string (ValueKindOther s) = s"

record qvalue =
  vKind :: value_kind
  vInteger :: int
  vText :: string
  vBoolean :: bool

definition zeroValue :: qvalue where
  "zeroValue = \<lparr>vKind = ValueKindOther '''', vInteger = 0, vText = '''', vBoolean = False\<rparr>"

definition Null :: qvalue where
  "Null = zeroValue\<lparr>vKind := ValueNull\<rparr>"

definition Integer :: "int \<Rightarrow> qvalue" where
  "Integer i = zeroValue\<lparr>vKind := ValueInteger, vInteger := i\<rparr>"

definition String :: "string \<Rightarrow> qvalue" where
  "String s = zeroValue\<lparr>vKind := ValueString, vText := s\<rparr>"

definition Boolean :: "bool \<Rightarrow> qvalue" where
  "Boolean b = zeroValue\<lparr>vKind := ValueBoolean, vBoolean := b\<rparr>"

definition value_integer :: "qvalue \<Rightarrow> int \<times> bool" where
  "value_integer v = (vInteger v, vKind v = ValueInteger)"

definition value_string :: "qvalue \<Rightarrow> string \<times> bool" where
  "value_string v = (vText v, vKind v = ValueString)"

definition value_boolean :: "qvalue \<Rightarrow> bool \<times> bool" where
  "value_boolean v = (vBoolean v, vKind v = ValueBoolean)"

definition IsNull :: "qvalue \<Rightarrow> bool" where
  "IsNull v \<longleftrightarrow> vKind v = ValueNull"

text \<open>What \<open>database/sql\<close> is handed for a value: the dynamic types of Go's \<open>any\<close> that occur.\<close>

datatype sql_value = SqlNull | SqlInt int | SqlText string | SqlBool bool

definition query_error :: "query_category \<Rightarrow> query_code \<Rightarrow> fmt_text \<Rightarrow> go_error" where
  "query_error category code detail = QueryError category code '''' '''' detail None"

definition invalidPlan :: "fmt_text \<Rightarrow> go_error" where
  "invalidPlan detail = query_error CategoryQuery CodeInvalidPlan detail"

definition DatabaseValue :: "qvalue \<Rightarrow> go_error + sql_value" where
  "DatabaseValue v =
     (case vKind v of
        ValueNull \<Rightarrow> Inr SqlNull
      | ValueInteger \<Rightarrow> Inr (SqlInt (vInteger v))
      | ValueString \<Rightarrow> Inr (SqlText (vText v))
      | ValueBoolean \<Rightarrow> Inr (SqlBool (vBoolean v))
      | ValueKindOther _ \<Rightarrow> Inl (query_error CategoryQuery CodeInvalidPlan (plain ''unknown scalar value kind'')))"

definition Value_Equal :: "qvalue \<Rightarrow> qvalue \<Rightarrow> bool" where
  "Value_Equal v other \<longleftrightarrow> v = other"

lemma DatabaseValue_simps [simp]:
  "DatabaseValue Null = Inr SqlNull" "DatabaseValue (Integer i) = Inr (SqlInt i)"
  "DatabaseValue (String s) = Inr (SqlText s)" "DatabaseValue (Boolean b) = Inr (SqlBool b)"
  by (simp_all add: DatabaseValue_def Null_def Integer_def String_def Boolean_def zeroValue_def)

text \<open>Values built by the constructors, whose unused payload fields are zero.\<close>

definition proper_value :: "qvalue \<Rightarrow> bool" where
  "proper_value v \<longleftrightarrow> v = Null \<or> (\<exists>i. v = Integer i) \<or> (\<exists>s. v = String s) \<or> (\<exists>b. v = Boolean b)"

lemma DatabaseValue_inj:
  assumes "proper_value u" "proper_value v" "DatabaseValue u = DatabaseValue v"
  shows "u = v"
  using assms by (auto simp: proper_value_def)

section \<open>Fields, conditions, orderings\<close>

datatype query_field_kind = FieldInteger | FieldString | FieldBool | QueryFieldKindOther string

record field_ref =
  frName :: string
  frColumn :: string
  frKind :: query_field_kind
  frNullable :: bool

definition NewFieldRef :: "string \<Rightarrow> string \<Rightarrow> query_field_kind \<Rightarrow> bool \<Rightarrow> field_ref" where
  "NewFieldRef name column kind nullable =
     \<lparr>frName = name, frColumn = column, frKind = kind, frNullable = nullable\<rparr>"

datatype lookup = LookupExact | LookupIContains | LookupIsNull | LookupOther string

fun lookup_string :: "lookup \<Rightarrow> string" where
  "lookup_string LookupExact = ''exact''"
| "lookup_string LookupIContains = ''icontains''"
| "lookup_string LookupIsNull = ''isnull''"
| "lookup_string (LookupOther s) = s"

record query_condition =
  coField :: field_ref
  coLookup :: lookup
  coValue :: qvalue

definition NewCondition :: "field_ref \<Rightarrow> lookup \<Rightarrow> qvalue \<Rightarrow> query_condition" where
  "NewCondition field lookup v = \<lparr>coField = field, coLookup = lookup, coValue = v\<rparr>"

datatype order_direction = Ascending | Descending | OrderOther string

record query_ordering =
  orField :: field_ref
  orDirection :: order_direction

definition NewOrdering :: "field_ref \<Rightarrow> order_direction \<Rightarrow> query_ordering" where
  "NewOrdering field direction = \<lparr>orField = field, orDirection = direction\<rparr>"

section \<open>Select plans\<close>

record select_plan =
  plTable :: string
  plColumns :: "field_ref list"
  plConditions :: "query_condition list"
  plOrderings :: "query_ordering list"
  plLimit :: "int option"

definition NewPlan :: "string \<Rightarrow> field_ref list \<Rightarrow> select_plan" where
  "NewPlan table columns =
     \<lparr>plTable = table, plColumns = columns, plConditions = [], plOrderings = [], plLimit = None\<rparr>"

definition WithConditions :: "select_plan \<Rightarrow> query_condition list \<Rightarrow> select_plan" where
  "WithConditions p conditions = p\<lparr>plConditions := plConditions p @ conditions\<rparr>"

definition WithOrderings :: "select_plan \<Rightarrow> query_ordering list \<Rightarrow> select_plan" where
  "WithOrderings p orderings = p\<lparr>plOrderings := orderings\<rparr>"

definition WithLimit :: "select_plan \<Rightarrow> int \<Rightarrow> go_error + select_plan" where
  "WithLimit p limit =
     (if limit < 0
      then Inl (query_error CategoryQuery CodeInvalidLimit (plain ''limit cannot be negative''))
      else Inr (p\<lparr>plLimit := Some limit\<rparr>))"

definition Plan_Equal :: "select_plan \<Rightarrow> select_plan \<Rightarrow> bool" where
  "Plan_Equal p q =
     (if plTable p \<noteq> plTable q \<or> plColumns p \<noteq> plColumns q then False
      else if \<not> list_all2 (\<lambda>l r. coField l = coField r \<and> coLookup l = coLookup r \<and> coValue l = coValue r)
                (plConditions p) (plConditions q) then False
      else if \<not> list_all2 (\<lambda>l r. l = r) (plOrderings p) (plOrderings q) then False
      else (plLimit p \<noteq> None) = (plLimit q \<noteq> None) \<and> (plLimit p = None \<or> plLimit p = plLimit q))"

section \<open>Mutation plans\<close>

record assignment =
  asgField :: field_ref
  asgValue :: qvalue

definition NewAssignment :: "field_ref \<Rightarrow> qvalue \<Rightarrow> assignment" where
  "NewAssignment field v = \<lparr>asgField = field, asgValue = v\<rparr>"

record insert_plan =
  ipTable :: string
  ipAssignments :: "assignment list"

record update_plan =
  upTable :: string
  upAssignments :: "assignment list"
  upKeyField :: field_ref
  upKeyValue :: qvalue

record delete_plan =
  dpTable :: string
  dpKeyField :: field_ref
  dpKeyValue :: qvalue

definition NewInsertPlan :: "string \<Rightarrow> assignment list \<Rightarrow> insert_plan" where
  "NewInsertPlan table assignments = \<lparr>ipTable = table, ipAssignments = assignments\<rparr>"

definition NewUpdatePlan :: "string \<Rightarrow> assignment list \<Rightarrow> field_ref \<Rightarrow> qvalue \<Rightarrow> update_plan" where
  "NewUpdatePlan table assignments keyField keyValue =
     \<lparr>upTable = table, upAssignments = assignments, upKeyField = keyField, upKeyValue = keyValue\<rparr>"

definition NewDeletePlan :: "string \<Rightarrow> field_ref \<Rightarrow> qvalue \<Rightarrow> delete_plan" where
  "NewDeletePlan table keyField keyValue =
     \<lparr>dpTable = table, dpKeyField = keyField, dpKeyValue = keyValue\<rparr>"

text \<open>\<open>Equal\<close> of plans decides equality: plans carry no identity beyond their parts.\<close>

lemma Plan_Equal_iff: "Plan_Equal p q \<longleftrightarrow> p = q"
proof -
  have c: "list_all2 (\<lambda>l r. coField l = coField r \<and> coLookup l = coLookup r \<and> coValue l = coValue r) xs ys
      \<longleftrightarrow> xs = ys" for xs ys :: "query_condition list"
  proof -
    have "(\<lambda>(l :: query_condition) r. coField l = coField r \<and> coLookup l = coLookup r \<and> coValue l = coValue r)
        = (=)" by (auto simp: fun_eq_iff)
    then show ?thesis by (simp add: list.rel_eq)
  qed
  show ?thesis by (cases p; cases q) (auto simp: Plan_Equal_def c list.rel_eq)
qed

end
