(* ===== verification/Sqlite_Compiler.thy ===== *)
theory Sqlite_Compiler
  imports Query_AST Schema_IR
begin

text \<open>
  SQL generation for SQLite: select plans (\<open>db/sqlite/compiler.go\<close>), mutation plans
  (\<open>db/sqlite/write.go\<close>) and schema edits (\<open>db/sqlite/migration_sql.go\<close>). The string builder
  is concatenation. The SQL text is then read back with the lexical rules of SQLite that
  matter for safety: quoted identifiers, string literals and placeholders.
\<close>

section \<open>Identifiers and literals\<close>

definition quote_char :: char where
  "quote_char = CHR 0x22"

definition quoteIdentifier :: "string \<Rightarrow> go_error + string" where
  "quoteIdentifier identifier =
     (if identifier = '''' \<or> CHR 0x00 \<in> set identifier
      then Inl (invalidPlan (plain ''identifier is empty or contains NUL''))
      else Inr ([quote_char] @ replace_byte quote_char [quote_char, quote_char] identifier @ [quote_char]))"

definition backslash :: char where
  "backslash = CHR 0x5C"

definition escapeLike :: "string \<Rightarrow> string" where
  "escapeLike s =
     (let s = replace_byte backslash [backslash, backslash] s;
          s = replace_byte (CHR ''%'') [backslash, CHR ''%''] s in
      replace_byte (CHR ''_'') [backslash, CHR ''_''] s)"

definition containsField :: "field_ref list \<Rightarrow> field_ref \<Rightarrow> bool" where
  "containsField columns candidate \<longleftrightarrow> list_ex (\<lambda>column. column = candidate) columns"

definition valueMatchesField :: "value_kind \<Rightarrow> query_field_kind \<Rightarrow> bool" where
  "valueMatchesField v f \<longleftrightarrow>
     (v = ValueInteger \<and> f = FieldInteger) \<or> (v = ValueString \<and> f = FieldString)
     \<or> (v = ValueBoolean \<and> f = FieldBool)"

definition unsupportedLookup :: "field_ref \<Rightarrow> lookup \<Rightarrow> go_error" where
  "unsupportedLookup field lookup =
     QueryError CategoryBackend CodeUnsupported (frName field) (lookup_string lookup)
       (plain ''SQLite compiler cannot compile this condition'') None"

section \<open>Select\<close>

text \<open>The condition's SQL after its column, and its argument if it binds one.\<close>

definition compileCondition :: "query_condition \<Rightarrow> go_error + string \<times> sql_value list" where
  "compileCondition condition =
     (let field = coField condition; v = coValue condition in
      case coLookup condition of
        LookupExact \<Rightarrow>
          if \<not> valueMatchesField (vKind v) (frKind field)
          then Inl (invalidPlan (Text ''exact value kind %q does not match field %q''
                 [FStr (value_kind_string (vKind v)), FStr (frName field)]))
          else (case DatabaseValue v of
                  Inl err \<Rightarrow> Inl err
                | Inr argument \<Rightarrow> Inr ('' = ?'', [argument]))
      | LookupIContains \<Rightarrow>
          (case value_string v of (txt, ok) \<Rightarrow>
             if frKind field \<noteq> FieldString \<or> \<not> ok
             then Inl (unsupportedLookup field (coLookup condition))
             else Inr ('' LIKE ? ESCAPE '' @ [CHR 0x27, backslash, CHR 0x27],
                       [SqlText (''%'' @ escapeLike txt @ ''%'')]))
      | LookupIsNull \<Rightarrow>
          (case value_boolean v of (isNull, ok) \<Rightarrow>
             if \<not> ok then Inl (unsupportedLookup field (coLookup condition))
             else Inr (if isNull then '' IS NULL'' else '' IS NOT NULL'', []))
      | LookupOther _ \<Rightarrow> Inl (unsupportedLookup field (coLookup condition)))"

text \<open>The three loops of \<open>Compile\<close>; \<open>first\<close> is \<open>index = 0\<close>.\<close>

fun compile_columns :: "bool \<Rightarrow> field_ref list \<Rightarrow> go_error + string" where
  "compile_columns first [] = Inr ''''"
| "compile_columns first (column # columns) =
     (case quoteIdentifier (frColumn column) of
        Inl err \<Rightarrow> Inl err
      | Inr quoted \<Rightarrow>
        (case compile_columns False columns of
           Inl err \<Rightarrow> Inl err
         | Inr rest \<Rightarrow> Inr ((if first then '''' else '', '') @ quoted @ rest)))"

fun compile_conditions :: "field_ref list \<Rightarrow> bool \<Rightarrow> query_condition list \<Rightarrow> go_error + string \<times> sql_value list" where
  "compile_conditions columns first [] = Inr ('''', [])"
| "compile_conditions columns first (condition # conditions) =
     (if \<not> containsField columns (coField condition)
      then Inl (invalidPlan (Text ''condition field %q is not selected model metadata''
             [FStr (frName (coField condition))]))
      else (case quoteIdentifier (frColumn (coField condition)) of
              Inl err \<Rightarrow> Inl err
            | Inr field \<Rightarrow>
              (case compileCondition condition of
                 Inl err \<Rightarrow> Inl err
               | Inr (sql, arguments) \<Rightarrow>
                 (case compile_conditions columns False conditions of
                    Inl err \<Rightarrow> Inl err
                  | Inr (rest, more_arguments) \<Rightarrow>
                      Inr ((if first then '''' else '' AND '') @ field @ sql @ rest,
                           arguments @ more_arguments)))))"

fun compile_orderings :: "field_ref list \<Rightarrow> bool \<Rightarrow> query_ordering list \<Rightarrow> go_error + string" where
  "compile_orderings columns first [] = Inr ''''"
| "compile_orderings columns first (item # orderings) =
     (if \<not> containsField columns (orField item)
      then Inl (invalidPlan (Text ''ordering field %q is not selected model metadata''
             [FStr (frName (orField item))]))
      else (case quoteIdentifier (frColumn (orField item)) of
              Inl err \<Rightarrow> Inl err
            | Inr field \<Rightarrow>
              (case (case orDirection item of
                       Ascending \<Rightarrow> Inr '' ASC''
                     | Descending \<Rightarrow> Inr '' DESC''
                     | OrderOther _ \<Rightarrow> Inl (invalidPlan (plain ''unknown ordering direction''))) of
                 Inl err \<Rightarrow> Inl err
               | Inr direction \<Rightarrow>
                 (case compile_orderings columns False orderings of
                    Inl err \<Rightarrow> Inl err
                  | Inr rest \<Rightarrow> Inr ((if first then '''' else '', '') @ field @ direction @ rest)))))"

definition Compile :: "select_plan \<Rightarrow> go_error + string \<times> sql_value list" where
  "Compile plan =
     (if plTable plan = '''' then Inl (invalidPlan (plain ''table is empty''))
      else if plColumns plan = [] then Inl (invalidPlan (plain ''select columns are empty''))
      else
      (case compile_columns True (plColumns plan) of
         Inl err \<Rightarrow> Inl err
       | Inr columns \<Rightarrow>
      (case quoteIdentifier (plTable plan) of
         Inl err \<Rightarrow> Inl err
       | Inr table \<Rightarrow>
      (case compile_conditions (plColumns plan) True (plConditions plan) of
         Inl err \<Rightarrow> Inl err
       | Inr (conditions, arguments) \<Rightarrow>
      (case compile_orderings (plColumns plan) True (plOrderings plan) of
         Inl err \<Rightarrow> Inl err
       | Inr orderings \<Rightarrow>
           Inr (''SELECT '' @ columns @ '' FROM '' @ table
                @ (if plConditions plan = [] then '''' else '' WHERE '') @ conditions
                @ (if plOrderings plan = [] then '''' else '' ORDER BY '') @ orderings
                @ (if plLimit plan = None then '''' else '' LIMIT ?''),
                arguments @ (case plLimit plan of None \<Rightarrow> [] | Some limit \<Rightarrow> [SqlInt limit])))))))"

section \<open>Mutations\<close>

text \<open>SQLite folds only ASCII case in identifiers.\<close>

definition sqliteIdentifierKey :: "string \<Rightarrow> string" where
  "sqliteIdentifierKey identifier = map ascii_lower identifier"

definition validateWriteValue :: "field_ref \<Rightarrow> qvalue \<Rightarrow> go_error option" where
  "validateWriteValue field v =
     (if IsNull v then
        (if \<not> frNullable field
         then Some (invalidPlan (Text ''non-null field %q cannot be assigned NULL'' [FStr (frName field)]))
         else None)
      else if \<not> valueMatchesField (vKind v) (frKind field)
      then Some (invalidPlan (Text ''value kind %q does not match field %q''
                 [FStr (value_kind_string (vKind v)), FStr (frName field)]))
      else None)"

fun compileAssignments_loop :: "string list \<Rightarrow> assignment list \<Rightarrow> go_error + string list \<times> sql_value list" where
  "compileAssignments_loop seen [] = Inr ([], [])"
| "compileAssignments_loop seen (a # as) =
     (let field = asgField a in
      case quoteIdentifier (frColumn field) of
        Inl err \<Rightarrow> Inl err
      | Inr column \<Rightarrow>
        (let identifierKey = sqliteIdentifierKey (frColumn field) in
         if identifierKey \<in> set seen
         then Inl (invalidPlan (Text ''field column %q is assigned more than once'' [FStr (frColumn field)]))
         else (case validateWriteValue field (asgValue a) of
                 Some err \<Rightarrow> Inl err
               | None \<Rightarrow>
                 (case DatabaseValue (asgValue a) of
                    Inl err \<Rightarrow> Inl err
                  | Inr argument \<Rightarrow>
                    (case compileAssignments_loop (identifierKey # seen) as of
                       Inl err \<Rightarrow> Inl err
                     | Inr (columns, arguments) \<Rightarrow> Inr (column # columns, argument # arguments))))))"

definition compileAssignments :: "assignment list \<Rightarrow> go_error + string list \<times> sql_value list" where
  "compileAssignments assignments = compileAssignments_loop [] assignments"

definition compileKey :: "field_ref \<Rightarrow> qvalue \<Rightarrow> go_error + string \<times> sql_value" where
  "compileKey field v =
     (if frNullable field \<or> IsNull v
      then Inl (invalidPlan (plain ''mutation key cannot be nullable or NULL''))
      else (case validateWriteValue field v of
              Some err \<Rightarrow> Inl err
            | None \<Rightarrow>
              (case quoteIdentifier (frColumn field) of
                 Inl err \<Rightarrow> Inl err
               | Inr column \<Rightarrow>
                 (case DatabaseValue v of
                    Inl err \<Rightarrow> Inl err
                  | Inr argument \<Rightarrow> Inr (column, argument)))))"

definition CompileInsert :: "insert_plan \<Rightarrow> go_error + string \<times> sql_value list" where
  "CompileInsert plan =
     (case quoteIdentifier (ipTable plan) of
        Inl err \<Rightarrow> Inl err
      | Inr table \<Rightarrow>
        (if ipAssignments plan = [] then Inr (''INSERT INTO '' @ table @ '' DEFAULT VALUES'', [])
         else (case compileAssignments (ipAssignments plan) of
                 Inl err \<Rightarrow> Inl err
               | Inr (columns, arguments) \<Rightarrow>
                   Inr (''INSERT INTO '' @ table @ '' ('' @ join_strings '', '' columns @ '') VALUES (''
                        @ join_strings '', '' (map (\<lambda>_. ''?'') columns) @ '')'', arguments))))"

definition CompileUpdate :: "update_plan \<Rightarrow> go_error + string \<times> sql_value list" where
  "CompileUpdate plan =
     (case quoteIdentifier (upTable plan) of
        Inl err \<Rightarrow> Inl err
      | Inr table \<Rightarrow>
        (if upAssignments plan = [] then Inl (invalidPlan (plain ''update assignments are empty''))
         else if list_ex (\<lambda>a. asgField a = upKeyField plan
                \<or> sqliteIdentifierKey (frColumn (asgField a)) = sqliteIdentifierKey (frColumn (upKeyField plan)))
                (upAssignments plan)
         then Inl (invalidPlan (plain ''update cannot assign its key field''))
         else (case compileAssignments (upAssignments plan) of
                 Inl err \<Rightarrow> Inl err
               | Inr (columns, arguments) \<Rightarrow>
                 (case compileKey (upKeyField plan) (upKeyValue plan) of
                    Inl err \<Rightarrow> Inl err
                  | Inr (keyColumn, keyArgument) \<Rightarrow>
                      Inr (''UPDATE '' @ table @ '' SET ''
                           @ join_strings '', '' (map (\<lambda>column. column @ '' = ?'') columns)
                           @ '' WHERE '' @ keyColumn @ '' = ?'',
                           arguments @ [keyArgument])))))"

definition CompileDelete :: "delete_plan \<Rightarrow> go_error + string \<times> sql_value list" where
  "CompileDelete plan =
     (case quoteIdentifier (dpTable plan) of
        Inl err \<Rightarrow> Inl err
      | Inr table \<Rightarrow>
        (case compileKey (dpKeyField plan) (dpKeyValue plan) of
           Inl err \<Rightarrow> Inl err
         | Inr (keyColumn, keyArgument) \<Rightarrow>
             Inr (''DELETE FROM '' @ table @ '' WHERE '' @ keyColumn @ '' = ?'', [keyArgument])))"

section \<open>Schema edits\<close>

definition compileMigrationColumn :: "ir_field \<Rightarrow> go_error + string" where
  "compileMigrationColumn field =
     (case quoteIdentifier (fColumn field) of
        Inl err \<Rightarrow> Inl (ErrWrap ''column identifier: %w'' [] err)
      | Inr column \<Rightarrow>
        (case (case fKind field of
                 FieldAuto \<Rightarrow>
                   if \<not> fPrimaryKey field \<or> fNullable field
                   then Inl (ErrNew ''AutoField must be a non-null primary key'')
                   else Inr ''INTEGER NOT NULL PRIMARY KEY AUTOINCREMENT''
               | FieldChar \<Rightarrow>
                   if fMaxLength field \<le> 0 then Inl (ErrNew ''CharField max length must be positive'')
                   else Inr (''VARCHAR('' @ sprint_int (fMaxLength field) @ '')''
                             @ (if fNullable field then '' NULL'' else '' NOT NULL''))
               | FieldBoolean \<Rightarrow>
                   if fNullable field then Inl (ErrNew ''nullable BooleanField is unsupported'')
                   else Inr ''BOOLEAN NOT NULL''
               | FieldKindOther kind \<Rightarrow> Inl (ErrFmt ''unsupported field kind %q'' [FStr kind])) of
           Inl err \<Rightarrow> Inl err
         | Inr declaration \<Rightarrow> Inr (column @ '' '' @ declaration)))"

fun compile_create_columns :: "string \<Rightarrow> nat \<Rightarrow> ir_field list \<Rightarrow> go_error + string list" where
  "compile_create_columns table index [] = Inr []"
| "compile_create_columns table index (field # rest) =
     (case compileMigrationColumn field of
        Inl err \<Rightarrow> Inl (ErrWrap ''compile SQLite CreateModel %q field %d: %w'' [FStr table, FInt (int index)] err)
      | Inr column \<Rightarrow>
        (case compile_create_columns table (Suc index) rest of
           Inl err \<Rightarrow> Inl err
         | Inr columns \<Rightarrow> Inr (column # columns)))"

definition compileMigrationCreateModel :: "ir_model \<Rightarrow> go_error + string" where
  "compileMigrationCreateModel m =
     (if mDBTable m = '''' then Inl (ErrNew ''compile SQLite CreateModel: table is empty'')
      else if mFields m = []
      then Inl (ErrFmt ''compile SQLite CreateModel %q: fields are empty'' [FStr (mDBTable m)])
      else (case quoteIdentifier (mDBTable m) of
              Inl err \<Rightarrow> Inl (ErrWrap ''compile SQLite CreateModel table: %w'' [] err)
            | Inr table \<Rightarrow>
              (case compile_create_columns (mDBTable m) 0 (mFields m) of
                 Inl err \<Rightarrow> Inl err
               | Inr columns \<Rightarrow>
                   Inr (''CREATE TABLE '' @ table @ '' ('' @ join_strings '', '' columns @ '')''))))"

definition compileMigrationDeleteModel :: "ir_model \<Rightarrow> go_error + string" where
  "compileMigrationDeleteModel m =
     (case quoteIdentifier (mDBTable m) of
        Inl err \<Rightarrow> Inl (ErrWrap ''compile SQLite DeleteModel table: %w'' [] err)
      | Inr table \<Rightarrow> Inr (''DROP TABLE '' @ table))"

definition compileMigrationAddField :: "ir_model \<Rightarrow> ir_field \<Rightarrow> go_error + string" where
  "compileMigrationAddField m field =
     (case quoteIdentifier (mDBTable m) of
        Inl err \<Rightarrow> Inl (ErrWrap ''compile SQLite AddField table: %w'' [] err)
      | Inr table \<Rightarrow>
        (case compileMigrationColumn field of
           Inl err \<Rightarrow> Inl (ErrWrap ''compile SQLite AddField %q: %w'' [FStr (mDBTable m)] err)
         | Inr column \<Rightarrow> Inr (''ALTER TABLE '' @ table @ '' ADD COLUMN '' @ column)))"

definition compileMigrationRemoveField :: "ir_model \<Rightarrow> ir_field \<Rightarrow> go_error + string" where
  "compileMigrationRemoveField m field =
     (case quoteIdentifier (mDBTable m) of
        Inl err \<Rightarrow> Inl (ErrWrap ''compile SQLite RemoveField table: %w'' [] err)
      | Inr table \<Rightarrow>
        (case quoteIdentifier (fColumn field) of
           Inl err \<Rightarrow> Inl (ErrWrap ''compile SQLite RemoveField column: %w'' [] err)
         | Inr column \<Rightarrow> Inr (''ALTER TABLE '' @ table @ '' DROP COLUMN '' @ column)))"

end
