(* ===== verification/Sqlite_Driver.thy ===== *)
theory Sqlite_Driver
  imports Executor Sqlite_Compiler "HOL-Library.Word"
begin

text \<open>
  The database as the program sees it through \<open>database/sql\<close>. The SQL engine is third-party code
  and is a parameter: a record \<open>sqlite_driver\<close> that says, for every call, what the engine
  returns and what it does to a database of an arbitrary type \<open>'d\<close>. Each call is numbered by a
  clock, so two runs of one statement may have different outcomes. The transaction objects of
  \<open>database/sql\<close> are modelled: a transaction has a view until it is committed, rolled back, or
  its context expires, and every later call on it fails with \<open>sql.ErrTxDone\<close>. There is one
  writer: between the calls of the program nobody else changes the database.
\<close>

section \<open>Outcomes\<close>

text \<open>A scanned column, converted to its destination type.\<close>

datatype cell = CellInt int | CellString string | CellBool bool | CellNullString "string option"

text \<open>
  The rows of a query: what each \<open>Next\<close>/\<open>Scan\<close> gives, what \<open>Err\<close> says when it is asked (no caller
  asks twice), and what the first \<open>Close\<close> returns (a second \<open>Close\<close> returns nil).
\<close>

record sql_rows =
  rwRows :: "(go_error + cell list) list"
  rwErr :: "go_error option"
  rwClose :: "go_error option"

record exec_result =
  erRowsAffected :: "go_error + int"
  erLastInsertId :: "go_error + int"

record 'd sqlite_driver =
  drNil :: bool
  drConn :: "nat \<Rightarrow> go_error option"
  drBeginTx :: "nat \<Rightarrow> go_error option"
  drExec :: "nat \<Rightarrow> string \<Rightarrow> sql_value list \<Rightarrow> 'd \<Rightarrow> (go_error + exec_result) \<times> 'd"
  drQuery :: "nat \<Rightarrow> string \<Rightarrow> sql_value list \<Rightarrow> 'd \<Rightarrow> go_error + sql_rows"
  drExpired :: "nat \<Rightarrow> bool"
  drCommit :: "nat \<Rightarrow> go_error option"
  drCommitted :: "nat \<Rightarrow> bool"
  drRollback :: "nat \<Rightarrow> go_error option"
  drClose :: "nat \<Rightarrow> go_error option"
  drCtxErr :: "nat \<Rightarrow> go_error option"
  drErrorText :: "go_error \<Rightarrow> string"

text \<open>\<open>err.Error()\<close> for the errors an engine call returns.\<close>

definition error_text :: "'d sqlite_driver \<Rightarrow> go_error \<Rightarrow> string" where
  "error_text drv err =
     (case err of
        DriverError _ message \<Rightarrow> message
      | ErrNew message \<Rightarrow> message
      | ContextCanceled \<Rightarrow> ''context canceled''
      | ContextDeadlineExceeded \<Rightarrow> ''context deadline exceeded''
      | SqlErrTxDone \<Rightarrow> ''sql: transaction has already been committed or rolled back''
      | _ \<Rightarrow> drErrorText drv err)"

section \<open>The world\<close>

text \<open>
  \<open>mtView\<close> is the state of the \<open>sql.Tx\<close>: the database the transaction sees, until it is
  resolved. \<open>mtDone\<close> is the flag of the object that owns it: \<open>done\<close> of a
  \<open>migrationTransaction\<close>, the negation of \<open>active\<close> of a \<open>transactionSession\<close>. \<open>swClosed\<close> and
  \<open>swQueryCount\<close> are the fields \<open>closed\<close> and \<open>queryCount\<close> of the backend; \<open>drNil\<close> says that the
  backend or its database handle is nil.
\<close>

record 'd migration_tx =
  mtView :: "'d option"
  mtDone :: bool

record 'd sqlite_world =
  swDurable :: 'd
  swTxs :: "nat \<Rightarrow> 'd migration_tx option"
  swNext :: nat
  swClock :: nat
  swClosed :: bool
  swQueryCount :: "64 word"

type_synonym ('d, 'a) sqlite_step = "'d sqlite_world \<Rightarrow> (go_error + 'a) \<times> 'd sqlite_world"

definition tick :: "'d sqlite_world \<Rightarrow> 'd sqlite_world" where
  "tick w = w\<lparr>swClock := Suc (swClock w)\<rparr>"

definition unusable :: "'d sqlite_driver \<Rightarrow> 'd sqlite_world \<Rightarrow> bool" where
  "unusable drv w \<longleftrightarrow> drNil drv \<or> swClosed w"

definition tx_view :: "nat \<Rightarrow> 'd sqlite_world \<Rightarrow> 'd option" where
  "tx_view tx w = (case swTxs w tx of None \<Rightarrow> None | Some t \<Rightarrow> mtView t)"

definition tx_done :: "nat \<Rightarrow> 'd sqlite_world \<Rightarrow> bool" where
  "tx_done tx w = (case swTxs w tx of None \<Rightarrow> True | Some t \<Rightarrow> mtDone t)"

definition set_view :: "nat \<Rightarrow> 'd option \<Rightarrow> 'd sqlite_world \<Rightarrow> 'd sqlite_world" where
  "set_view tx v w = w\<lparr>swTxs := (swTxs w)(tx := map_option (\<lambda>t. t\<lparr>mtView := v\<rparr>) (swTxs w tx))\<rparr>"

definition set_done :: "nat \<Rightarrow> 'd sqlite_world \<Rightarrow> 'd sqlite_world" where
  "set_done tx w = w\<lparr>swTxs := (swTxs w)(tx := map_option (\<lambda>t. t\<lparr>mtDone := True\<rparr>) (swTxs w tx))\<rparr>"

text \<open>Sequencing of steps that may fail, and the wrapping of their errors.\<close>

definition bind_step :: "('d, 'a) sqlite_step \<Rightarrow> ('a \<Rightarrow> ('d, 'b) sqlite_step) \<Rightarrow> ('d, 'b) sqlite_step" where
  "bind_step m f = (\<lambda>w. case m w of (Inl err, w') \<Rightarrow> (Inl err, w') | (Inr x, w') \<Rightarrow> f x w')"

definition return_step :: "'a \<Rightarrow> ('d, 'a) sqlite_step" where
  "return_step x = (\<lambda>w. (Inr x, w))"

definition fail_step :: "go_error \<Rightarrow> ('d, 'a) sqlite_step" where
  "fail_step err = (\<lambda>w. (Inl err, w))"

definition wrap_step :: "(go_error \<Rightarrow> go_error) \<Rightarrow> ('d, 'a) sqlite_step \<Rightarrow> ('d, 'a) sqlite_step" where
  "wrap_step f m = (\<lambda>w. case m w of (Inl err, w') \<Rightarrow> (Inl (f err), w') | r \<Rightarrow> r)"

definition lift_result :: "go_error + 'a \<Rightarrow> ('d, 'a) sqlite_step" where
  "lift_result r = (\<lambda>w. (r, w))"

text \<open>A step that returns only an error, as the executor's interface has it.\<close>

definition error_of :: "(go_error + unit) \<times> 'w \<Rightarrow> go_error option \<times> 'w" where
  "error_of r = (case r of (Inl err, w) \<Rightarrow> (Some err, w) | (Inr _, w) \<Rightarrow> (None, w))"

section \<open>Calls on a transaction\<close>

text \<open>
  Every call first lets time pass: a transaction whose context has expired is resolved by
  \<open>database/sql\<close> before the call, which then fails.
\<close>

definition expire :: "'d sqlite_driver \<Rightarrow> nat \<Rightarrow> 'd sqlite_world \<Rightarrow> 'd sqlite_world" where
  "expire drv tx w = (if drExpired drv (swClock w) then set_view tx None (tick w) else tick w)"

definition tx_exec :: "'d sqlite_driver \<Rightarrow> nat \<Rightarrow> string \<Rightarrow> sql_value list \<Rightarrow> ('d, exec_result) sqlite_step" where
  "tx_exec drv tx statement arguments w =
     (let w' = expire drv tx w in
      case tx_view tx w' of
        None \<Rightarrow> (Inl SqlErrTxDone, w')
      | Some d \<Rightarrow>
          (case drExec drv (swClock w) statement arguments d of
             (r, d') \<Rightarrow> (r, set_view tx (Some d') w')))"

definition tx_query :: "'d sqlite_driver \<Rightarrow> nat \<Rightarrow> string \<Rightarrow> sql_value list \<Rightarrow> ('d, sql_rows) sqlite_step" where
  "tx_query drv tx statement arguments w =
     (let w' = expire drv tx w in
      case tx_view tx w' of
        None \<Rightarrow> (Inl SqlErrTxDone, w')
      | Some d \<Rightarrow> (drQuery drv (swClock w) statement arguments d, w'))"

text \<open>\<open>QueryRowContext(...).Scan(...)\<close>: the first row, or the reason there is none.\<close>

definition first_row :: "sql_rows \<Rightarrow> go_error + cell list" where
  "first_row rows =
     (case rwRows rows of
        [] \<Rightarrow> (case rwErr rows of Some err \<Rightarrow> Inl err
               | None \<Rightarrow> Inl (ErrNew ''sql: no rows in result set''))
      | Inl err # _ \<Rightarrow> Inl err
      | Inr cells # _ \<Rightarrow> (case rwClose rows of Some err \<Rightarrow> Inl err | None \<Rightarrow> Inr cells))"

definition tx_query_row :: "'d sqlite_driver \<Rightarrow> nat \<Rightarrow> string \<Rightarrow> sql_value list \<Rightarrow> ('d, cell list) sqlite_step" where
  "tx_query_row drv tx statement arguments =
     bind_step (tx_query drv tx statement arguments) (\<lambda>rows. lift_result (first_row rows))"

text \<open>
  \<open>Tx.Commit\<close>: nothing is committed through a resolved transaction; otherwise the engine's commit
  reports an error or not, and without an error it has taken effect.
\<close>

definition tx_commit :: "'d sqlite_driver \<Rightarrow> nat \<Rightarrow> 'd sqlite_world \<Rightarrow> go_error option \<times> 'd sqlite_world" where
  "tx_commit drv tx w =
     (let w' = expire drv tx w in
      case tx_view tx w' of
        None \<Rightarrow> (Some SqlErrTxDone, w')
      | Some d \<Rightarrow>
          (case drCommit drv (swClock w) of
             None \<Rightarrow> (None, (set_view tx None w')\<lparr>swDurable := d\<rparr>)
           | Some err \<Rightarrow>
               (Some err, (set_view tx None w')
                  \<lparr>swDurable := if drCommitted drv (swClock w) then d else swDurable w\<rparr>)))"

definition tx_rollback :: "'d sqlite_driver \<Rightarrow> nat \<Rightarrow> 'd sqlite_world \<Rightarrow> go_error option \<times> 'd sqlite_world" where
  "tx_rollback drv tx w =
     (let w' = expire drv tx w in
      case tx_view tx w' of
        None \<Rightarrow> (Some SqlErrTxDone, w')
      | Some d \<Rightarrow> (drRollback drv (swClock w), set_view tx None w'))"

definition connection_close :: "'d sqlite_driver \<Rightarrow> 'd sqlite_world \<Rightarrow> go_error option \<times> 'd sqlite_world" where
  "connection_close drv w = (drClose drv (swClock w), tick w)"

text \<open>\<open>ctx.Err()\<close> of the context a call was given; nil contexts are caught before.\<close>

definition ctx_err :: "'d sqlite_driver \<Rightarrow> call_context \<Rightarrow> 'd sqlite_world \<Rightarrow> go_error option \<times> 'd sqlite_world" where
  "ctx_err drv c w =
     (if c = CallerContext then (drCtxErr drv (swClock w), tick w) else (None, w))"

section \<open>Facts about the calls\<close>

lemma world_simps [simp]:
  "swDurable (tick w) = swDurable w" "swTxs (tick w) = swTxs w" "swNext (tick w) = swNext w"
  "swDurable (set_view tx v w) = swDurable w" "swDurable (set_done tx w) = swDurable w"
  "tx_view tx (tick w) = tx_view tx w" "tx_done tx (tick w) = tx_done tx w"
  "tx_view tx (set_done t w) = tx_view tx w" "tx_done tx (set_view t v w) = tx_done tx w"
  "tx_view tx (w\<lparr>swDurable := d\<rparr>) = tx_view tx w"
  by (auto simp: tick_def set_view_def set_done_def tx_view_def tx_done_def split: option.splits)

lemma tx_view_set_view: "tx_view tx w = Some d \<Longrightarrow> tx_view tx (set_view tx v w) = v"
  by (auto simp: tx_view_def set_view_def split: option.splits)

lemma expire_durable [simp]: "swDurable (expire drv tx w) = swDurable w"
  by (simp add: expire_def)

lemma expire_view: "tx_view tx (expire drv tx w) = Some d \<Longrightarrow> tx_view tx w = Some d"
  by (auto simp: expire_def tx_view_def set_view_def split: if_splits option.splits)

lemma tx_exec_durable: "swDurable (snd (tx_exec drv tx statement arguments w)) = swDurable w"
  by (auto simp: tx_exec_def Let_def split: option.splits prod.splits)

lemma tx_query_durable: "swDurable (snd (tx_query drv tx statement arguments w)) = swDurable w"
  by (auto simp: tx_query_def Let_def split: option.splits)

lemma tx_exec_Inr:
  assumes "tx_exec drv tx statement arguments w = (Inr r, w')" and "tx_view tx w = Some d"
  obtains n d' where "drExec drv n statement arguments d = (Inr r, d')" and "tx_view tx w' = Some d'"
proof -
  from assms(1) obtain d0 d' where
    v: "tx_view tx (expire drv tx w) = Some d0"
    and e: "drExec drv (swClock w) statement arguments d0 = (Inr r, d')"
    and w': "w' = set_view tx (Some d') (expire drv tx w)"
    by (auto simp: tx_exec_def Let_def split: option.splits prod.splits)
  from expire_view[OF v] assms(2) have "d0 = d" by simp
  with e tx_view_set_view[OF v] show ?thesis by (intro that[of "swClock w" d']) (simp_all add: w')
qed

lemma tx_query_view:
  assumes "tx_query drv tx statement arguments w = (Inr rows, w')" and "tx_view tx w = Some d"
  shows "tx_view tx w' = Some d"
proof -
  from assms(1) obtain d0 where "tx_view tx (expire drv tx w) = Some d0" "w' = expire drv tx w"
    by (auto simp: tx_query_def Let_def split: option.splits)
  with expire_view[of tx drv w d0] assms(2) show ?thesis by simp
qed

text \<open>Steps that leave the durable database alone, closed under sequencing.\<close>

definition keeps_durable :: "('d, 'a) sqlite_step \<Rightarrow> bool" where
  "keeps_durable m \<longleftrightarrow> (\<forall>w. swDurable (snd (m w)) = swDurable w)"

text \<open>Steps that, when they succeed, leave the transaction's view as it was.\<close>

definition keeps_view :: "nat \<Rightarrow> ('d, 'a) sqlite_step \<Rightarrow> bool" where
  "keeps_view tx m \<longleftrightarrow>
     (\<forall>w x w' d. m w = (Inr x, w') \<longrightarrow> tx_view tx w = Some d \<longrightarrow> tx_view tx w' = Some d)"

named_theorems keeps_intros

lemma keeps_durable_basic [keeps_intros]:
  "keeps_durable (return_step x)" "keeps_durable (fail_step err)" "keeps_durable (lift_result r)"
  "keeps_durable (tx_exec drv tx statement arguments)" "keeps_durable (tx_query drv tx statement arguments)"
  by (simp_all add: keeps_durable_def return_step_def fail_step_def lift_result_def
      tx_exec_durable tx_query_durable)

lemma keeps_durable_bind [keeps_intros]:
  assumes "keeps_durable m" and "\<And>x. keeps_durable (f x)"
  shows "keeps_durable (bind_step m f)"
  unfolding keeps_durable_def
proof
  fix w
  obtain r w' where mw: "m w = (r, w')" by fastforce
  with assms(1) have "swDurable w' = swDurable w" by (metis keeps_durable_def snd_conv)
  then show "swDurable (snd (bind_step m f w)) = swDurable w"
    using assms(2) by (cases r) (simp_all add: bind_step_def mw keeps_durable_def)
qed

lemma keeps_durable_wrap [keeps_intros]: "keeps_durable m \<Longrightarrow> keeps_durable (wrap_step f m)"
  by (auto simp: keeps_durable_def wrap_step_def split: prod.splits sum.splits) (metis snd_conv)+

lemma keeps_durable_if [keeps_intros]:
  "(b \<Longrightarrow> keeps_durable m) \<Longrightarrow> (\<not> b \<Longrightarrow> keeps_durable n) \<Longrightarrow> keeps_durable (if b then m else n)"
  by simp

lemma keeps_durable_sum [keeps_intros]:
  "(\<And>e. r = Inl e \<Longrightarrow> keeps_durable (f e)) \<Longrightarrow> (\<And>x. r = Inr x \<Longrightarrow> keeps_durable (g x)) \<Longrightarrow>
     keeps_durable (case r of Inl e \<Rightarrow> f e | Inr x \<Rightarrow> g x)"
  by (cases r) simp_all

lemma keeps_durable_query_row [keeps_intros]: "keeps_durable (tx_query_row drv tx statement arguments)"
  unfolding tx_query_row_def by (intro keeps_intros)

lemma keeps_view_basic [keeps_intros]:
  "keeps_view tx (return_step x)" "keeps_view tx (fail_step err)" "keeps_view tx (lift_result r)"
  "keeps_view tx (tx_query drv tx statement arguments)"
  by (auto simp: keeps_view_def return_step_def fail_step_def lift_result_def dest: tx_query_view)

lemma keeps_view_bind [keeps_intros]:
  assumes "keeps_view tx m" and "\<And>x. keeps_view tx (f x)"
  shows "keeps_view tx (bind_step m f)"
  unfolding keeps_view_def
proof (intro allI impI)
  fix w x w' d
  assume b: "bind_step m f w = (Inr x, w')" and d: "tx_view tx w = Some d"
  from b obtain y w1 where "m w = (Inr y, w1)" "f y w1 = (Inr x, w')"
    by (auto simp: bind_step_def split: prod.splits sum.splits)
  with assms d show "tx_view tx w' = Some d" by (metis keeps_view_def)
qed

lemma keeps_view_wrap [keeps_intros]: "keeps_view tx m \<Longrightarrow> keeps_view tx (wrap_step f m)"
  by (auto simp: keeps_view_def wrap_step_def split: prod.splits sum.splits)

lemma keeps_view_if [keeps_intros]:
  "(b \<Longrightarrow> keeps_view tx m) \<Longrightarrow> (\<not> b \<Longrightarrow> keeps_view tx n) \<Longrightarrow> keeps_view tx (if b then m else n)"
  by simp

lemma keeps_view_sum [keeps_intros]:
  "(\<And>e. r = Inl e \<Longrightarrow> keeps_view tx (f e)) \<Longrightarrow> (\<And>x. r = Inr x \<Longrightarrow> keeps_view tx (g x)) \<Longrightarrow>
     keeps_view tx (case r of Inl e \<Rightarrow> f e | Inr x \<Rightarrow> g x)"
  by (cases r) simp_all

lemma keeps_view_query_row [keeps_intros]: "keeps_view tx (tx_query_row drv tx statement arguments)"
  unfolding tx_query_row_def by (intro keeps_intros)

end
