(* ===== verification/Sqlite_Inspect.thy ===== *)
theory Sqlite_Inspect
  imports Sqlite_Driver
begin

text \<open>
  The inspection that guards a native \<open>DROP COLUMN\<close> (\<open>db/sqlite/migration_backend.go\<close>): the
  column's shape, and the refusal of columns that indexes, triggers, views or foreign keys may
  depend on. \<open>identifierAppears\<close> is a search loop that can diverge (on an empty identifier), so
  it is a partial function; its callers pass names that \<open>quoteIdentifier\<close> has accepted.
\<close>

section \<open>Searching a statement for an identifier\<close>

definition sqliteIdentifierByte :: "char \<Rightarrow> bool" where
  "sqliteIdentifierByte c \<longleftrightarrow> c = CHR ''_'' \<or> in_bytes 97 122 c \<or> in_bytes 48 57 c"

definition at_boundary :: "string \<Rightarrow> nat \<Rightarrow> nat \<Rightarrow> bool" where
  "at_boundary statement index after \<longleftrightarrow>
     (index = 0 \<or> \<not> sqliteIdentifierByte (statement ! (index - 1)))
     \<and> (after = length statement \<or> \<not> sqliteIdentifierByte (statement ! after))"

partial_function (option) appears_from :: "string \<Rightarrow> string \<Rightarrow> nat \<Rightarrow> bool option" where
  "appears_from statement ident offset =
     (case index_of (drop offset statement) ident of
        None \<Rightarrow> Some False
      | Some i \<Rightarrow>
          (let index = i + offset; after = index + length ident in
           if at_boundary statement index after then Some True
           else appears_from statement ident after))"

declare appears_from.simps [code]

definition identifierAppears :: "unicode_tables \<Rightarrow> string \<Rightarrow> string \<Rightarrow> bool option" where
  "identifierAppears uc statement ident =
     appears_from (to_lower uc statement) (to_lower uc ident) 0"

definition identifier_found :: "unicode_tables \<Rightarrow> string \<Rightarrow> string \<Rightarrow> bool" where
  "identifier_found uc statement ident \<longleftrightarrow> identifierAppears uc statement ident = Some True"

text \<open>A whole-word occurrence: bounded on both sides by the end or a non-identifier byte.\<close>

definition whole_word_at :: "string \<Rightarrow> string \<Rightarrow> nat \<Rightarrow> bool" where
  "whole_word_at statement ident i \<longleftrightarrow> i + length ident \<le> length statement
     \<and> has_prefix (drop i statement) ident \<and> at_boundary statement i (i + length ident)"

lemma has_prefix_length: "has_prefix (drop i s) p \<Longrightarrow> i \<le> length s \<Longrightarrow> i + length p \<le> length s"
  by (auto simp: has_prefix_iff) (metis diff_add_inverse2 le_add1 le_add_diff_inverse length_append length_drop
      nat_add_left_cancel_le)

lemma appears_from_correct:
  assumes "ident \<noteq> []" and "\<forall>c \<in> set ident. sqliteIdentifierByte c"
    and "offset \<le> length statement"
    and "\<And>i. i < offset \<Longrightarrow> \<not> whole_word_at statement ident i"
  shows "appears_from statement ident offset = Some (\<exists>i. whole_word_at statement ident i)"
  using assms(3,4)
proof (induction "length statement - offset" arbitrary: offset rule: less_induct)
  case less
  show ?case
  proof (cases "index_of (drop offset statement) ident")
    case None
    have "\<not> whole_word_at statement ident i" for i
    proof (cases "i < offset")
      case True
      then show ?thesis by (rule less.prems(2))
    next
      case False
      then show ?thesis
        using index_of_None[OF None, of "i - offset"]
        by (cases "i \<le> length statement") (auto simp: whole_word_at_def diff_le_mono)
    qed
    then show ?thesis using None by (subst appears_from.simps) simp
  next
    case (Some k)
    let ?index = "k + offset" and ?after = "k + offset + length ident"
    have pre: "has_prefix (drop ?index statement) ident"
      and first: "\<And>j. j < k \<Longrightarrow> \<not> has_prefix (drop (j + offset) statement) ident"
      and le: "?index \<le> length statement"
      using index_of_Some[OF Some] less.prems(1) by (auto simp: add.commute)
    have after_le: "?after \<le> length statement" using has_prefix_length[OF pre le] .
    show ?thesis
    proof (cases "at_boundary statement ?index ?after")
      case True
      then have "whole_word_at statement ident ?index"
        using pre after_le by (simp add: whole_word_at_def)
      then show ?thesis using Some True by (subst appears_from.simps) (auto simp: Let_def)
    next
      case False
      have none: "\<not> whole_word_at statement ident i" if i: "i < ?after" for i
      proof (cases "i < offset \<or> i = ?index")
        case True
        then show ?thesis using less.prems(2) False by (auto simp: whole_word_at_def)
      next
        case other: False
        show ?thesis
        proof (cases "i < ?index")
          case True
          then show ?thesis using first[of "i - offset"] other by (auto simp: whole_word_at_def)
        next
          case False
          with other have gt: "?index < i" by simp
          have "drop ?index statement ! (i - 1 - ?index) = statement ! (i - 1)"
            using gt le by (subst nth_drop) auto
          moreover have "drop ?index statement ! (i - 1 - ?index) = ident ! (i - 1 - ?index)"
            using pre i gt by (auto simp: has_prefix_iff nth_append)
          ultimately have "statement ! (i - 1) = ident ! (i - 1 - ?index)" by simp
          moreover have "i - 1 - ?index < length ident" using i gt by arith
          ultimately have "sqliteIdentifierByte (statement ! (i - 1))" using assms(2) by (metis nth_mem)
          then show ?thesis using gt by (simp add: whole_word_at_def at_boundary_def)
        qed
      qed
      have "length statement - ?after < length statement - offset"
        using after_le less.prems(1) length_greater_0_conv[of ident] assms(1) by linarith
      from less.hyps[OF this after_le none] show ?thesis
        using Some False by (subst appears_from.simps) (simp add: Let_def add.assoc)
    qed
  qed
qed

lemma identifierAppears_nonempty_returns:
  assumes "ident \<noteq> []" and "offset \<le> length statement"
  shows "\<exists>b. appears_from statement ident offset = Some b"
  using assms(2)
proof (induction "length statement - offset" arbitrary: offset rule: less_induct)
  case less
  show ?case
  proof (cases "index_of (drop offset statement) ident")
    case None
    then show ?thesis by (intro exI[of _ False], subst appears_from.simps) simp
  next
    case (Some k)
    let ?after = "k + offset + length ident"
    have "has_prefix (drop (k + offset) statement) ident" "k + offset \<le> length statement"
      using index_of_Some[OF Some] less.prems by (auto simp: add.commute)
    then have le: "?after \<le> length statement" by (rule has_prefix_length)
    moreover have "length statement - ?after < length statement - offset"
      using le less.prems length_greater_0_conv[of ident] assms(1) by linarith
    ultimately show ?thesis
      using less.hyps[of ?after] Some by (subst appears_from.simps) (auto simp: Let_def add.assoc intro: exI[of _ True])
  qed
qed

lemma to_lower_identifier:
  assumes "s \<noteq> []" and "is_ascii s"
  shows "to_lower uc s \<noteq> []"
  using assms by (simp add: to_lower_ascii)

definition identifier_name :: "string \<Rightarrow> bool" where
  "identifier_name s \<longleftrightarrow> s \<noteq> [] \<and>
     (\<forall>c \<in> set s. c = CHR ''_'' \<or> in_bytes 65 90 c \<or> in_bytes 97 122 c \<or> in_bytes 48 57 c)"

lemma byte_eq_iff: "byte c = byte d \<longleftrightarrow> c = d"
  by (simp add: byte_def)

lemma byte_ascii_lower:
  "byte (ascii_lower c) = (if 65 \<le> byte c \<and> byte c \<le> 90 then byte c + 32 else byte c)"
  by (simp add: ascii_lower_def byte_def)

lemma sqliteIdentifierByte_byte:
  "sqliteIdentifierByte c \<longleftrightarrow> byte c = 95 \<or> (97 \<le> byte c \<and> byte c \<le> 122) \<or> (48 \<le> byte c \<and> byte c \<le> 57)"
proof -
  have "byte (CHR ''_'') = 95" by (simp add: byte_def)
  then have "c = CHR ''_'' \<longleftrightarrow> byte c = 95" using byte_eq_iff[of c "CHR ''_''"] by simp
  then show ?thesis by (simp add: sqliteIdentifierByte_def in_bytes_def)
qed

lemma identifier_name_byte:
  "identifier_name s \<Longrightarrow> c \<in> set s \<Longrightarrow> sqliteIdentifierByte c \<or> in_bytes 65 90 c"
  by (auto simp: identifier_name_def sqliteIdentifierByte_def)

lemma identifier_name_ascii: "identifier_name s \<Longrightarrow> is_ascii s"
  by (auto simp: is_ascii_def list_all_iff sqliteIdentifierByte_byte in_bytes_def dest!: identifier_name_byte)

lemma identifier_name_lower:
  assumes "identifier_name s" and "c \<in> set (map ascii_lower s)"
  shows "sqliteIdentifierByte c"
proof -
  from assms(2) obtain d where d: "d \<in> set s" "c = ascii_lower d" by auto
  with assms(1) have "sqliteIdentifierByte d \<or> in_bytes 65 90 d" by (auto dest: identifier_name_byte)
  then show ?thesis
    unfolding d(2) sqliteIdentifierByte_byte byte_ascii_lower by (auto simp: in_bytes_def)
qed

text \<open>The name stands in the statement as a whole word, in any case of its letters.\<close>

definition spells :: "string \<Rightarrow> string \<Rightarrow> bool" where
  "spells statement name \<longleftrightarrow> (\<exists>i. whole_word_at (map ascii_lower statement) (map ascii_lower name) i)"

lemma identifierAppears_spells:
  assumes "is_ascii statement" and "identifier_name name"
  shows "identifierAppears uc statement name = Some (spells statement name)"
  unfolding identifierAppears_def spells_def to_lower_ascii[OF assms(1)] to_lower_ascii[OF identifier_name_ascii[OF assms(2)]]
  by (rule appears_from_correct)
    (use assms(2) identifier_name_lower in \<open>auto simp: identifier_name_def\<close>)

lemma not_found_not_spelled:
  "\<not> identifier_found uc statement name \<Longrightarrow> is_ascii statement \<Longrightarrow> identifier_name name \<Longrightarrow> \<not> spells statement name"
  by (simp add: identifier_found_def identifierAppears_spells)

text \<open>
  C20: on a statement and a name of ASCII identifier characters, \<open>identifierAppears\<close> returns, and
  it returns true exactly when the name stands in the statement as a whole word, letter case
  aside: skipping past a partial match never hides a later whole word.
\<close>
theorem identifierAppears_whole_word:
  assumes "is_ascii statement" and "identifier_name name"
  shows "identifierAppears uc statement name =
    Some (\<exists>i. whole_word_at (map ascii_lower statement) (map ascii_lower name) i)"
  using identifierAppears_spells[OF assms] by (simp add: spells_def)

theorem identifierAppears_whole_word_witness:
  "identifierAppears ascii_tables ''CREATE VIEW v AS SELECT Title FROM t'' ''title'' =
    Some (\<exists>i. whole_word_at (map ascii_lower ''CREATE VIEW v AS SELECT Title FROM t'')
      (map ascii_lower ''title'') i)"
  by (rule identifierAppears_whole_word)
    (simp_all add: is_ascii_def byte_def identifier_name_def in_bytes_def)

section \<open>Scanning rows\<close>

text \<open>
  \<open>Scan\<close> into typed destinations, here a partial function of the cells; cells of other types
  are a scan error.
\<close>

definition scan_row :: "(cell list \<Rightarrow> 'a option) \<Rightarrow> go_error + cell list \<Rightarrow> go_error + 'a" where
  "scan_row shape r =
     (case r of
        Inl err \<Rightarrow> Inl err
      | Inr cells \<Rightarrow>
          (case shape cells of
             Some x \<Rightarrow> Inr x
           | None \<Rightarrow> Inl (ErrNew ''sql: Scan error: unsupported destination'')))"

definition wrapCloseRows :: "go_error option \<Rightarrow> go_error option" where
  "wrapCloseRows err = map_option (ErrWrap ''close SQLite inspection rows: %w'' []) err"

definition wrapSQLiteIteration :: "string \<Rightarrow> go_error option \<Rightarrow> go_error option" where
  "wrapSQLiteIteration subject err = map_option (ErrWrap ''iterate SQLite %s: %w'' [FStr subject]) err"

text \<open>The deferred \<open>resultErr = errors.Join(resultErr, wrapCloseRows(rows.Close()))\<close>.\<close>

definition join_close :: "go_error option \<Rightarrow> go_error + 'a \<Rightarrow> go_error + 'a" where
  "join_close close r =
     (case errors_join [(case r of Inl err \<Rightarrow> Some err | Inr _ \<Rightarrow> None), wrapCloseRows close] of
        Some err \<Rightarrow> Inl err
      | None \<Rightarrow> r)"

text \<open>Collecting one value per row: the loop \<open>for rows.Next() { Scan; append }\<close>.\<close>

fun collect_rows :: "(cell list \<Rightarrow> 'a option) \<Rightarrow> (go_error \<Rightarrow> go_error) \<Rightarrow> (go_error + cell list) list
    \<Rightarrow> go_error + 'a list" where
  "collect_rows shape wrap [] = Inr []"
| "collect_rows shape wrap (r # rs) =
     (case scan_row shape r of
        Inl err \<Rightarrow> Inl (wrap err)
      | Inr x \<Rightarrow> (case collect_rows shape wrap rs of Inl err \<Rightarrow> Inl err | Inr xs \<Rightarrow> Inr (x # xs)))"

section \<open>Emptiness and column shape\<close>

definition sqliteTableEmpty :: "'d sqlite_driver \<Rightarrow> nat \<Rightarrow> string \<Rightarrow> ('d, bool) sqlite_step" where
  "sqliteTableEmpty drv tx table =
     (case quoteIdentifier table of
        Inl err \<Rightarrow> fail_step (ErrWrap ''inspect SQLite table %q: %w'' [FStr table] err)
      | Inr quotedTable \<Rightarrow>
          bind_step
            (wrap_step (ErrWrap ''inspect whether SQLite table %q is empty: %w'' [FStr table])
               (bind_step
                  (tx_query_row drv tx (''SELECT EXISTS (SELECT 1 FROM '' @ quotedTable @ '' LIMIT 1)'') [])
                  (\<lambda>cells. lift_result
                     (scan_row (\<lambda>cs. case cs of [CellInt hasRows] \<Rightarrow> Some hasRows | _ \<Rightarrow> None) (Inr cells)))))
            (\<lambda>hasRows. return_step (hasRows = 0)))"

record column_shape =
  csName :: string
  csExists :: bool
  csNullable :: bool
  csPrimaryKey :: bool

definition column_row :: "cell list \<Rightarrow> (string \<times> int \<times> int) option" where
  "column_row cells =
     (case cells of
        [CellInt _, CellString name, CellString _, CellInt notNull, CellNullString _, CellInt primary] \<Rightarrow>
          Some (name, notNull, primary)
      | _ \<Rightarrow> None)"

fun find_column :: "string \<Rightarrow> go_error option \<Rightarrow> (go_error + cell list) list \<Rightarrow> go_error + column_shape" where
  "find_column wanted rowsErr [] =
     (case rowsErr of
        Some err \<Rightarrow> Inl (ErrWrap ''iterate SQLite table columns: %w'' [] err)
      | None \<Rightarrow> Inr \<lparr>csName = '''', csExists = False, csNullable = False, csPrimaryKey = False\<rparr>)"
| "find_column wanted rowsErr (r # rs) =
     (case scan_row column_row r of
        Inl err \<Rightarrow> Inl (ErrWrap ''scan SQLite table column: %w'' [] err)
      | Inr (name, notNull, primary) \<Rightarrow>
          if name = wanted
          then (case rowsErr of
                  Some err \<Rightarrow> Inl err
                | None \<Rightarrow> Inr \<lparr>csName = name, csExists = True, csNullable = (notNull = 0),
                              csPrimaryKey = (primary \<noteq> 0)\<rparr>)
          else find_column wanted rowsErr rs)"

definition sqliteColumnShape :: "'d sqlite_driver \<Rightarrow> nat \<Rightarrow> string \<Rightarrow> string \<Rightarrow> ('d, column_shape) sqlite_step" where
  "sqliteColumnShape drv tx quotedTable wanted =
     bind_step
       (wrap_step (ErrWrap ''inspect SQLite table columns: %w'' [])
          (tx_query drv tx (''PRAGMA table_info('' @ quotedTable @ '')'') []))
       (\<lambda>rows. lift_result (join_close (rwClose rows) (find_column wanted (rwErr rows) (rwRows rows))))"

section \<open>Dependencies\<close>

definition drop_column_refusal :: "string \<Rightarrow> fmt_arg list \<Rightarrow> go_error" where
  "drop_column_refusal format arguments =
     NewCapabilityError ''sqlite_drop_column'' (Text format arguments) None"

text \<open>An error through a deferred \<open>errors.Join(resultErr, nil)\<close>.\<close>

definition rejoined_error :: "('d, 'a) sqlite_step \<Rightarrow> ('d, 'a) sqlite_step" where
  "rejoined_error m = (\<lambda>w. case m w of (r, w') \<Rightarrow> (join_close None r, w'))"

definition index_name_row :: "cell list \<Rightarrow> string option" where
  "index_name_row cells =
     (case cells of
        [CellInt _, CellString name, CellInt _, CellString _, CellInt _] \<Rightarrow> Some name
      | _ \<Rightarrow> None)"

definition index_column_row :: "cell list \<Rightarrow> string option option" where
  "index_column_row cells =
     (case cells of [CellInt _, CellInt _, CellNullString name] \<Rightarrow> Some name | _ \<Rightarrow> None)"

definition index_columns :: "string \<Rightarrow> sql_rows \<Rightarrow> go_error + string option list" where
  "index_columns index rows =
     (case collect_rows index_column_row (ErrWrap ''scan SQLite index %q column: %w'' [FStr index]) (rwRows rows) of
        Inl err \<Rightarrow> Inl err
      | Inr columns \<Rightarrow>
          (if rwErr rows \<noteq> None \<or> rwClose rows \<noteq> None
           then (case errors_join [wrapSQLiteIteration (''index '' @ index) (rwErr rows), wrapCloseRows (rwClose rows)] of
                   Some err \<Rightarrow> Inl err
                 | None \<Rightarrow> Inr columns)
           else Inr columns))"

definition indexSQL :: string where
  "indexSQL =
     ''SELECT \"sql\" FROM \"sqlite_schema\" WHERE \"type\" = 'index' AND \"name\" = ?''"

definition index_definition :: "'d sqlite_driver \<Rightarrow> nat \<Rightarrow> string \<Rightarrow> ('d, string option) sqlite_step" where
  "index_definition drv tx index =
     wrap_step (ErrWrap ''read SQLite index %q definition: %w'' [FStr index])
       (bind_step
          (tx_query_row drv tx
             indexSQL [SqlText index])
          (\<lambda>cells. lift_result
             (scan_row (\<lambda>cs. case cs of [CellNullString s] \<Rightarrow> Some s | _ \<Rightarrow> None) (Inr cells))))"

fun check_indexes :: "unicode_tables \<Rightarrow> 'd sqlite_driver \<Rightarrow> nat \<Rightarrow> string \<Rightarrow> string \<Rightarrow> string list
    \<Rightarrow> ('d, unit) sqlite_step" where
  "check_indexes uc drv tx table column [] = return_step ()"
| "check_indexes uc drv tx table column (index # indexes) =
     (case quoteIdentifier index of
        Inl err \<Rightarrow> fail_step (ErrWrap ''inspect SQLite index %q: %w'' [FStr index] err)
      | Inr quotedIndex \<Rightarrow>
          bind_step
            (wrap_step (ErrWrap ''inspect SQLite index %q columns: %w'' [FStr index])
               (tx_query drv tx (''PRAGMA index_info('' @ quotedIndex @ '')'') []))
            (\<lambda>indexRows. bind_step (lift_result (index_columns index indexRows))
            (\<lambda>columns. bind_step (index_definition drv tx index)
            (\<lambda>def. if Some column \<in> set columns
                      \<or> (case def of None \<Rightarrow> False | Some sql \<Rightarrow> identifier_found uc sql column)
                   then fail_step (drop_column_refusal ''column %s.%s is referenced by index %s''
                          [FStr table, FStr column, FStr index])
                   else check_indexes uc drv tx table column indexes))))"

definition index_list :: "string \<Rightarrow> sql_rows \<Rightarrow> go_error + string list" where
  "index_list table rows =
     (case collect_rows index_name_row (ErrWrap ''scan SQLite index for %q: %w'' [FStr table]) (rwRows rows) of
        Inl err \<Rightarrow> join_close (rwClose rows) (Inl err)
      | Inr indexes \<Rightarrow>
          (case rwErr rows of
             Some err \<Rightarrow> join_close (rwClose rows) (Inl (ErrWrap ''iterate SQLite indexes for %q: %w'' [FStr table] err))
           | None \<Rightarrow>
               (case rwClose rows of
                  Some err \<Rightarrow> join_close None (Inl (ErrWrap ''close SQLite index list for %q: %w'' [FStr table] err))
                | None \<Rightarrow> Inr indexes)))"

definition rejectSQLiteIndexDependency :: "unicode_tables \<Rightarrow> 'd sqlite_driver \<Rightarrow> nat \<Rightarrow> string \<Rightarrow> string
    \<Rightarrow> ('d, unit) sqlite_step" where
  "rejectSQLiteIndexDependency uc drv tx table column =
     (case quoteIdentifier table of
        Inl err \<Rightarrow> fail_step err
      | Inr quotedTable \<Rightarrow>
          bind_step
            (wrap_step (ErrWrap ''inspect SQLite indexes for %q: %w'' [FStr table])
               (tx_query drv tx (''PRAGMA index_list('' @ quotedTable @ '')'') []))
            (\<lambda>rows. bind_step (lift_result (index_list table rows))
            (\<lambda>indexes. rejoined_error (check_indexes uc drv tx table column indexes))))"

text \<open>The loops over triggers and views stop at the first that may depend on the table.\<close>

fun scan_triggers :: "unicode_tables \<Rightarrow> string \<Rightarrow> string \<Rightarrow> go_error option \<Rightarrow> (go_error + cell list) list
    \<Rightarrow> go_error + unit" where
  "scan_triggers uc table column rowsErr [] =
     (case rowsErr of Some err \<Rightarrow> Inl (ErrWrap ''iterate SQLite triggers: %w'' [] err) | None \<Rightarrow> Inr ())"
| "scan_triggers uc table column rowsErr (r # rs) =
     (case scan_row (\<lambda>cells. case cells of
                [CellString name, CellString owner, CellString definition] \<Rightarrow> Some (name, owner, definition)
              | _ \<Rightarrow> None) r of
        Inl err \<Rightarrow> Inl (ErrWrap ''scan SQLite trigger: %w'' [] err)
      | Inr (name, owner, definition) \<Rightarrow>
          if owner = table \<or> identifier_found uc definition table
          then Inl (drop_column_refusal ''column %s.%s may be referenced by trigger %s''
                 [FStr table, FStr column, FStr name])
          else scan_triggers uc table column rowsErr rs)"

definition triggersSQL :: string where
  "triggersSQL =
     ''SELECT \"name\", \"tbl_name\", \"sql\" FROM \"sqlite_schema\" WHERE \"type\" = 'trigger' AND \"sql\" IS NOT NULL ORDER BY \"name\"''"

definition rejectSQLiteTriggerDependency :: "unicode_tables \<Rightarrow> 'd sqlite_driver \<Rightarrow> nat \<Rightarrow> string \<Rightarrow> string
    \<Rightarrow> ('d, unit) sqlite_step" where
  "rejectSQLiteTriggerDependency uc drv tx table column =
     bind_step
       (wrap_step (ErrWrap ''inspect SQLite triggers: %w'' [])
          (tx_query drv tx triggersSQL []))
       (\<lambda>rows. lift_result
          (join_close (rwClose rows) (scan_triggers uc table column (rwErr rows) (rwRows rows))))"

fun scan_views :: "unicode_tables \<Rightarrow> string \<Rightarrow> string \<Rightarrow> go_error option \<Rightarrow> (go_error + cell list) list
    \<Rightarrow> go_error + unit" where
  "scan_views uc table column rowsErr [] =
     (case rowsErr of Some err \<Rightarrow> Inl (ErrWrap ''iterate SQLite views: %w'' [] err) | None \<Rightarrow> Inr ())"
| "scan_views uc table column rowsErr (r # rs) =
     (case scan_row (\<lambda>cells. case cells of
                [CellString name, CellString definition] \<Rightarrow> Some (name, definition) | _ \<Rightarrow> None) r of
        Inl err \<Rightarrow> Inl (ErrWrap ''scan SQLite view: %w'' [] err)
      | Inr (name, definition) \<Rightarrow>
          if identifier_found uc definition table
          then Inl (drop_column_refusal ''column %s.%s may be referenced by view %s''
                 [FStr table, FStr column, FStr name])
          else scan_views uc table column rowsErr rs)"

definition viewsSQL :: string where
  "viewsSQL =
     ''SELECT \"name\", \"sql\" FROM \"sqlite_schema\" WHERE \"type\" = 'view' AND \"sql\" IS NOT NULL ORDER BY \"name\"''"

definition rejectSQLiteViewDependency :: "unicode_tables \<Rightarrow> 'd sqlite_driver \<Rightarrow> nat \<Rightarrow> string \<Rightarrow> string
    \<Rightarrow> ('d, unit) sqlite_step" where
  "rejectSQLiteViewDependency uc drv tx table column =
     bind_step
       (wrap_step (ErrWrap ''inspect SQLite views: %w'' [])
          (tx_query drv tx viewsSQL []))
       (\<lambda>rows. lift_result
          (join_close (rwClose rows) (scan_views uc table column (rwErr rows) (rwRows rows))))"

definition foreign_key_row :: "cell list \<Rightarrow> (string \<times> string \<times> string option) option" where
  "foreign_key_row cells =
     (case cells of
        [CellInt _, CellInt _, CellString referencedTable, CellString source, CellNullString target,
         CellString _, CellString _, CellString _] \<Rightarrow> Some (referencedTable, source, target)
      | _ \<Rightarrow> None)"

fun scan_foreign_keys :: "string \<Rightarrow> string \<Rightarrow> string \<Rightarrow> sql_rows \<Rightarrow> (go_error + cell list) list
    \<Rightarrow> go_error + unit" where
  "scan_foreign_keys table column currentTable rows [] =
     (if rwErr rows \<noteq> None \<or> rwClose rows \<noteq> None
      then (case errors_join [wrapSQLiteIteration (''foreign keys for '' @ currentTable) (rwErr rows),
                              wrapCloseRows (rwClose rows)] of
              Some err \<Rightarrow> Inl err
            | None \<Rightarrow> Inr ())
      else Inr ())"
| "scan_foreign_keys table column currentTable rows (r # rs) =
     (case scan_row foreign_key_row r of
        Inl err \<Rightarrow> Inl (ErrWrap ''scan SQLite foreign key for %q: %w'' [FStr currentTable] err)
      | Inr (referencedTable, source, target) \<Rightarrow>
          (let outbound = (currentTable = table \<and> source = column);
               inbound = (referencedTable = table \<and> target = Some column) in
           if outbound \<or> inbound
           then Inl (drop_column_refusal ''column %s.%s is referenced by foreign key on table %s''
                  [FStr table, FStr column, FStr currentTable])
           else scan_foreign_keys table column currentTable rows rs))"

fun check_foreign_keys :: "'d sqlite_driver \<Rightarrow> nat \<Rightarrow> string \<Rightarrow> string \<Rightarrow> string list
    \<Rightarrow> ('d, unit) sqlite_step" where
  "check_foreign_keys drv tx table column [] = return_step ()"
| "check_foreign_keys drv tx table column (currentTable # tables) =
     (case quoteIdentifier currentTable of
        Inl err \<Rightarrow> fail_step (ErrWrap ''inspect SQLite foreign keys for %q: %w'' [FStr currentTable] err)
      | Inr quotedTable \<Rightarrow>
          bind_step
            (wrap_step (ErrWrap ''inspect SQLite foreign keys for %q: %w'' [FStr currentTable])
               (tx_query drv tx (''PRAGMA foreign_key_list('' @ quotedTable @ '')'') []))
            (\<lambda>rows. bind_step (lift_result (scan_foreign_keys table column currentTable rows (rwRows rows)))
            (\<lambda>_. check_foreign_keys drv tx table column tables)))"

definition table_list :: "sql_rows \<Rightarrow> go_error + string list" where
  "table_list rows =
     (case collect_rows (\<lambda>cells. case cells of [CellString name] \<Rightarrow> Some name | _ \<Rightarrow> None)
             (ErrWrap ''scan SQLite table for foreign-key inspection: %w'' []) (rwRows rows) of
        Inl err \<Rightarrow> join_close (rwClose rows) (Inl err)
      | Inr tables \<Rightarrow>
          (case rwErr rows of
             Some err \<Rightarrow> join_close (rwClose rows)
               (Inl (ErrWrap ''iterate SQLite tables for foreign-key inspection: %w'' [] err))
           | None \<Rightarrow>
               (case rwClose rows of
                  Some err \<Rightarrow> join_close None (Inl (ErrWrap ''close SQLite table list: %w'' [] err))
                | None \<Rightarrow> Inr tables)))"

definition tablesSQL :: string where
  "tablesSQL =
     ''SELECT \"name\" FROM \"sqlite_schema\" WHERE \"type\" = 'table' AND \"name\" NOT LIKE 'sqlite_%' ORDER BY \"name\"''"

definition rejectSQLiteForeignKeyDependency :: "'d sqlite_driver \<Rightarrow> nat \<Rightarrow> string \<Rightarrow> string
    \<Rightarrow> ('d, unit) sqlite_step" where
  "rejectSQLiteForeignKeyDependency drv tx table column =
     bind_step
       (wrap_step (ErrWrap ''list SQLite tables for foreign-key inspection: %w'' [])
          (tx_query drv tx tablesSQL []))
       (\<lambda>rows. bind_step (lift_result (table_list rows))
       (\<lambda>tables. rejoined_error (check_foreign_keys drv tx table column tables)))"

section \<open>The guard\<close>

definition preflightSQLiteDropColumn :: "unicode_tables \<Rightarrow> 'd sqlite_driver \<Rightarrow> nat \<Rightarrow> ir_model \<Rightarrow> ir_field
    \<Rightarrow> ('d, unit) sqlite_step" where
  "preflightSQLiteDropColumn uc drv tx m field =
     (case quoteIdentifier (mDBTable m) of
        Inl err \<Rightarrow> fail_step (ErrWrap ''inspect SQLite table %q: %w'' [FStr (mDBTable m)] err)
      | Inr table \<Rightarrow>
          bind_step (sqliteColumnShape drv tx table (fColumn field))
          (\<lambda>shape.
             if \<not> csExists shape
             then fail_step (ErrFmt ''inspect SQLite drop column: field %s.%s does not exist''
                    [FStr (mDBTable m), FStr (fColumn field)])
             else if csPrimaryKey shape
             then fail_step (drop_column_refusal ''database column %s.%s must be non-primary-key''
                    [FStr (mDBTable m), FStr (csName shape)])
             else bind_step (rejectSQLiteIndexDependency uc drv tx (mDBTable m) (fColumn field))
             (\<lambda>_. bind_step (rejectSQLiteTriggerDependency uc drv tx (mDBTable m) (fColumn field))
             (\<lambda>_. bind_step (rejectSQLiteViewDependency uc drv tx (mDBTable m) (fColumn field))
             (\<lambda>_. rejectSQLiteForeignKeyDependency drv tx (mDBTable m) (fColumn field))))))"

definition sqliteDropColumnCapabilityFailure :: "unicode_tables \<Rightarrow> 'd sqlite_driver \<Rightarrow> go_error \<Rightarrow> bool" where
  "sqliteDropColumnCapabilityFailure uc drv err =
     (let message = to_lower uc (error_text drv err) in
      contains_string message ''cannot drop''
      \<or> contains_string message ''error in index''
      \<or> contains_string message ''error in trigger''
      \<or> contains_string message ''error in view''
      \<or> (contains_string message ''error in table'' \<and> contains_string message ''after drop column'')
      \<or> contains_string message ''foreign key'')"

section \<open>Inspection changes nothing\<close>

lemma join_close_Inr: "join_close close r = Inr x \<Longrightarrow> r = Inr x"
  by (auto simp: join_close_def split: option.splits)

lemma keeps_durable_rejoined [keeps_intros]: "keeps_durable m \<Longrightarrow> keeps_durable (rejoined_error m)"
  by (auto simp: keeps_durable_def rejoined_error_def split: prod.splits) (metis snd_conv)

lemma keeps_view_rejoined [keeps_intros]: "keeps_view tx m \<Longrightarrow> keeps_view tx (rejoined_error m)"
  by (auto simp: keeps_view_def rejoined_error_def split: prod.splits dest!: join_close_Inr)

lemma keeps_option [keeps_intros]:
  "keeps_durable f \<Longrightarrow> (\<And>x. keeps_durable (g x)) \<Longrightarrow> keeps_durable (case y of None \<Rightarrow> f | Some x \<Rightarrow> g x)"
  "keeps_view tx f' \<Longrightarrow> (\<And>x. keeps_view tx (g' x)) \<Longrightarrow> keeps_view tx (case y of None \<Rightarrow> f' | Some x \<Rightarrow> g' x)"
  by (cases y; simp)+

lemma sqliteTableEmpty_keeps [keeps_intros]:
  "keeps_durable (sqliteTableEmpty drv tx table)" "keeps_view tx (sqliteTableEmpty drv tx table)"
  unfolding sqliteTableEmpty_def by (intro keeps_intros)+

lemma check_indexes_keeps [keeps_intros]:
  "keeps_durable (check_indexes uc drv tx table column indexes)"
  "keeps_view tx (check_indexes uc drv tx table column indexes)"
proof (induction indexes)
  case (Cons index indexes)
  note [keeps_intros] = Cons.IH
  show "keeps_durable (check_indexes uc drv tx table column (index # indexes))"
    "keeps_view tx (check_indexes uc drv tx table column (index # indexes))"
    unfolding check_indexes.simps index_definition_def by (intro keeps_intros)+
qed (simp_all add: keeps_intros)

lemma check_foreign_keys_keeps [keeps_intros]:
  "keeps_durable (check_foreign_keys drv tx table column tables)"
  "keeps_view tx (check_foreign_keys drv tx table column tables)"
proof (induction tables)
  case (Cons t tables)
  note [keeps_intros] = Cons.IH
  show "keeps_durable (check_foreign_keys drv tx table column (t # tables))"
    "keeps_view tx (check_foreign_keys drv tx table column (t # tables))"
    unfolding check_foreign_keys.simps by (intro keeps_intros)+
qed (simp_all add: keeps_intros)

lemmas inspection_defs =
  preflightSQLiteDropColumn_def sqliteColumnShape_def rejectSQLiteIndexDependency_def
  rejectSQLiteTriggerDependency_def rejectSQLiteViewDependency_def rejectSQLiteForeignKeyDependency_def

lemma preflightSQLiteDropColumn_keeps [keeps_intros]:
  "keeps_durable (preflightSQLiteDropColumn uc drv tx m field)"
  "keeps_view tx (preflightSQLiteDropColumn uc drv tx m field)"
  unfolding inspection_defs by (intro keeps_intros)+

section \<open>What the guard establishes\<close>

text \<open>
  The dependencies are stated over the engine's answers \<open>ans\<close> to the inspection queries on the
  database the transaction sees.
\<close>

definition free_of_triggers :: "unicode_tables \<Rightarrow> (string \<Rightarrow> sql_value list \<Rightarrow> go_error + sql_rows) \<Rightarrow> string \<Rightarrow> bool" where
  "free_of_triggers uc ans table \<longleftrightarrow> (\<exists>rows. ans triggersSQL [] = Inr rows \<and>
     (\<forall>name owner def. Inr [CellString name, CellString owner, CellString def] \<in> set (rwRows rows) \<longrightarrow>
        owner \<noteq> table \<and> \<not> identifier_found uc def table))"

definition free_of_views :: "unicode_tables \<Rightarrow> (string \<Rightarrow> sql_value list \<Rightarrow> go_error + sql_rows) \<Rightarrow> string \<Rightarrow> bool" where
  "free_of_views uc ans table \<longleftrightarrow> (\<exists>rows. ans viewsSQL [] = Inr rows \<and>
     (\<forall>name def. Inr [CellString name, CellString def] \<in> set (rwRows rows) \<longrightarrow>
        \<not> identifier_found uc def table))"

definition free_of_indexes :: "unicode_tables \<Rightarrow> (string \<Rightarrow> sql_value list \<Rightarrow> go_error + sql_rows) \<Rightarrow> string
    \<Rightarrow> string \<Rightarrow> bool" where
  "free_of_indexes uc ans table column \<longleftrightarrow> (\<exists>q rows. quoteIdentifier table = Inr q \<and>
     ans (''PRAGMA index_list('' @ q @ '')'') [] = Inr rows \<and>
     (\<forall>i index u p r. Inr [CellInt i, CellString index, CellInt u, CellString p, CellInt r] \<in> set (rwRows rows) \<longrightarrow>
        (\<exists>qi infos. quoteIdentifier index = Inr qi \<and> ans (''PRAGMA index_info('' @ qi @ '')'') [] = Inr infos \<and>
           (\<forall>j k. Inr [CellInt j, CellInt k, CellNullString (Some column)] \<notin> set (rwRows infos)) \<and>
           (\<exists>defs def. ans indexSQL [SqlText index] = Inr defs \<and> first_row defs = Inr [CellNullString def] \<and>
              (\<forall>sql. def = Some sql \<longrightarrow> \<not> identifier_found uc sql column)))))"

definition free_of_foreign_keys :: "(string \<Rightarrow> sql_value list \<Rightarrow> go_error + sql_rows) \<Rightarrow> string \<Rightarrow> string \<Rightarrow> bool" where
  "free_of_foreign_keys ans table column \<longleftrightarrow> (\<exists>rows. ans tablesSQL [] = Inr rows \<and>
     (\<forall>current. Inr [CellString current] \<in> set (rwRows rows) \<longrightarrow>
        (\<exists>q keys. quoteIdentifier current = Inr q \<and> ans (''PRAGMA foreign_key_list('' @ q @ '')'') [] = Inr keys \<and>
           (\<forall>cells referenced source target. Inr cells \<in> set (rwRows keys) \<longrightarrow>
              foreign_key_row cells = Some (referenced, source, target) \<longrightarrow>
              \<not> (current = table \<and> source = column) \<and> \<not> (referenced = table \<and> target = Some column)))))"

definition answers :: "'d sqlite_driver \<Rightarrow> (string \<Rightarrow> sql_value list \<Rightarrow> 'd \<Rightarrow> go_error + sql_rows) \<Rightarrow> bool" where
  "answers drv answer \<longleftrightarrow> (\<forall>n s a d. drQuery drv n s a d = answer s a d)"

lemma tx_query_answer:
  assumes "answers drv answer" and "tx_query drv tx s a w = (Inr rows, w')" and "tx_view tx w = Some d"
  shows "answer s a d = Inr rows"
proof -
  from assms(2) obtain d0 where "tx_view tx (expire drv tx w) = Some d0"
    "drQuery drv (swClock w) s a d0 = Inr rows"
    by (auto simp: tx_query_def Let_def split: option.splits)
  with expire_view[of tx drv w d0] assms(1,3) show ?thesis by (simp add: answers_def)
qed

lemma bind_step_Inr:
  assumes "bind_step m f w = (Inr x, w')"
  obtains y w1 where "m w = (Inr y, w1)" and "f y w1 = (Inr x, w')"
  using assms by (auto simp: bind_step_def split: prod.splits sum.splits)

lemma wrap_step_Inr: "wrap_step f m w = (Inr x, w') \<longleftrightarrow> m w = (Inr x, w')"
  by (auto simp: wrap_step_def split: prod.splits sum.splits)

lemma lift_result_Inr: "lift_result r w = (Inr x, w') \<longleftrightarrow> r = Inr x \<and> w' = w"
  by (auto simp: lift_result_def)

lemma rejoined_error_Inr: "rejoined_error m w = (Inr x, w') \<Longrightarrow> m w = (Inr x, w')"
  by (auto simp: rejoined_error_def split: prod.splits dest: join_close_Inr)

lemma scan_triggers_Inr:
  "scan_triggers uc table column e rs = Inr () \<Longrightarrow>
     Inr [CellString name, CellString owner, CellString def] \<in> set rs \<Longrightarrow>
     owner \<noteq> table \<and> \<not> identifier_found uc def table"
  by (induction rs) (auto simp: scan_row_def split: sum.splits if_splits option.splits)

lemma scan_views_Inr:
  "scan_views uc table column e rs = Inr () \<Longrightarrow>
     Inr [CellString name, CellString def] \<in> set rs \<Longrightarrow> \<not> identifier_found uc def table"
  by (induction rs) (auto simp: scan_row_def split: sum.splits if_splits option.splits)

lemma collect_rows_Inr:
  "collect_rows shape wrap rs = Inr xs \<Longrightarrow> Inr cells \<in> set rs \<Longrightarrow> \<exists>x. shape cells = Some x \<and> x \<in> set xs"
  by (induction rs arbitrary: xs) (auto simp: scan_row_def split: sum.splits option.splits)

lemma scan_foreign_keys_Inr:
  "scan_foreign_keys table column current rows rs = Inr () \<Longrightarrow> Inr cells \<in> set rs \<Longrightarrow>
     foreign_key_row cells = Some (referenced, source, target) \<Longrightarrow>
     \<not> (current = table \<and> source = column) \<and> \<not> (referenced = table \<and> target = Some column)"
  by (induction rs) (auto simp: scan_row_def Let_def split: sum.splits if_splits option.splits)

lemma rejectSQLiteTriggerDependency_Inr:
  assumes "answers drv answer" and "rejectSQLiteTriggerDependency uc drv tx table column w = (Inr (), w')"
    and "tx_view tx w = Some d"
  shows "free_of_triggers uc (\<lambda>s a. answer s a d) table"
  using assms(2) unfolding rejectSQLiteTriggerDependency_def
  by (elim bind_step_Inr)
    (auto simp: wrap_step_Inr lift_result_Inr free_of_triggers_def
      dest!: join_close_Inr tx_query_answer[OF assms(1) _ assms(3)] dest: scan_triggers_Inr)

lemma rejectSQLiteViewDependency_Inr:
  assumes "answers drv answer" and "rejectSQLiteViewDependency uc drv tx table column w = (Inr (), w')"
    and "tx_view tx w = Some d"
  shows "free_of_views uc (\<lambda>s a. answer s a d) table"
  using assms(2) unfolding rejectSQLiteViewDependency_def
  by (elim bind_step_Inr)
    (auto simp: wrap_step_Inr lift_result_Inr free_of_views_def
      dest!: join_close_Inr tx_query_answer[OF assms(1) _ assms(3)] dest: scan_views_Inr)

lemma index_columns_Inr:
  "index_columns index rows = Inr cs \<Longrightarrow> Inr [CellInt j, CellInt k, CellNullString c] \<in> set (rwRows rows) \<Longrightarrow>
     c \<in> set cs"
  by (auto simp: index_columns_def index_column_row_def split: sum.splits if_splits option.splits
      dest!: collect_rows_Inr)

lemma index_definition_Inr:
  assumes "answers drv answer" and "index_definition drv tx index w = (Inr def, w')" and "tx_view tx w = Some d"
  shows "\<exists>defs. answer indexSQL [SqlText index] d = Inr defs \<and> first_row defs = Inr [CellNullString def]"
    and "tx_view tx w' = Some d"
proof -
  from assms(2) obtain rows w1 where q: "tx_query drv tx indexSQL [SqlText index] w = (Inr rows, w1)"
    and r: "first_row rows = Inr [CellNullString def]" "w' = w1"
    unfolding index_definition_def wrap_step_Inr tx_query_row_def
    by (elim bind_step_Inr) (auto simp: lift_result_Inr scan_row_def split: list.splits cell.splits option.splits)
  show "\<exists>defs. answer indexSQL [SqlText index] d = Inr defs \<and> first_row defs = Inr [CellNullString def]"
    using tx_query_answer[OF assms(1) q assms(3)] r(1) by blast
  show "tx_view tx w' = Some d" using tx_query_view[OF q assms(3)] r(2) by simp
qed

lemma check_indexes_Inr:
  assumes "answers drv answer"
  shows "check_indexes uc drv tx table column indexes w = (Inr (), w') \<Longrightarrow> tx_view tx w = Some d \<Longrightarrow>
     index \<in> set indexes \<Longrightarrow>
     \<exists>qi infos defs def. quoteIdentifier index = Inr qi \<and> answer (''PRAGMA index_info('' @ qi @ '')'') [] d = Inr infos
       \<and> (\<forall>j k. Inr [CellInt j, CellInt k, CellNullString (Some column)] \<notin> set (rwRows infos))
       \<and> answer indexSQL [SqlText index] d = Inr defs \<and> first_row defs = Inr [CellNullString def]
       \<and> (\<forall>sql. def = Some sql \<longrightarrow> \<not> identifier_found uc sql column)"
proof (induction indexes arbitrary: w)
  case (Cons i indexes)
  from Cons.prems(1) obtain q where q: "quoteIdentifier i = Inr q" by (auto simp: fail_step_def split: sum.splits)
  with Cons.prems(1) obtain infos w1 cs def w2 where
    info: "tx_query drv tx (''PRAGMA index_info('' @ q @ '')'') [] w = (Inr infos, w1)"
    and cs: "index_columns i infos = Inr cs"
    and def: "index_definition drv tx i w1 = (Inr def, w2)"
    and ok: "Some column \<notin> set cs" "\<forall>sql. def = Some sql \<longrightarrow> \<not> identifier_found uc sql column"
    and rest: "check_indexes uc drv tx table column indexes w2 = (Inr (), w')"
    by (auto simp: wrap_step_Inr lift_result_Inr fail_step_def split: if_splits option.splits elim!: bind_step_Inr)
  have v1: "tx_view tx w1 = Some d" by (rule tx_query_view[OF info Cons.prems(2)])
  note d = index_definition_Inr[OF assms def v1]
  show ?case
  proof (cases "index = i")
    case True
    have "Inr [CellInt j, CellInt k, CellNullString (Some column)] \<notin> set (rwRows infos)" for j k
      using index_columns_Inr[OF cs] ok(1) by blast
    with True q tx_query_answer[OF assms info Cons.prems(2)] d(1) ok(2) show ?thesis by blast
  next
    case False
    with Cons.prems(3) have "index \<in> set indexes" by simp
    then show ?thesis by (rule Cons.IH[OF rest d(2)])
  qed
qed simp

lemma index_list_Inr: "index_list table rows = Inr indexes \<Longrightarrow>
    collect_rows index_name_row (ErrWrap ''scan SQLite index for %q: %w'' [FStr table]) (rwRows rows) = Inr indexes"
  by (auto simp: index_list_def split: sum.splits option.splits dest!: join_close_Inr)

lemma table_list_Inr: "table_list rows = Inr tables \<Longrightarrow> Inr [CellString t] \<in> set (rwRows rows) \<Longrightarrow> t \<in> set tables"
  by (auto simp: table_list_def split: sum.splits option.splits dest!: join_close_Inr collect_rows_Inr)

lemma rejectSQLiteIndexDependency_Inr:
  assumes "answers drv answer" and "rejectSQLiteIndexDependency uc drv tx table column w = (Inr (), w')"
    and "tx_view tx w = Some d"
  shows "free_of_indexes uc (\<lambda>s a. answer s a d) table column"
proof -
  from assms(2) obtain q where q: "quoteIdentifier table = Inr q"
    by (auto simp: rejectSQLiteIndexDependency_def fail_step_def split: sum.splits)
  with assms(2) obtain rows w1 indexes where
    rows: "tx_query drv tx (''PRAGMA index_list('' @ q @ '')'') [] w = (Inr rows, w1)"
    and indexes: "index_list table rows = Inr indexes"
    and check: "check_indexes uc drv tx table column indexes w1 = (Inr (), w')"
    unfolding rejectSQLiteIndexDependency_def
    by (auto simp: wrap_step_Inr lift_result_Inr elim!: bind_step_Inr dest!: rejoined_error_Inr)
  have v1: "tx_view tx w1 = Some d" by (rule tx_query_view[OF rows assms(3)])
  have mem: "index \<in> set indexes"
    if "Inr [CellInt i, CellString index, CellInt u, CellString p, CellInt r] \<in> set (rwRows rows)" for i index u p r
    using collect_rows_Inr[OF index_list_Inr[OF indexes] that] by (auto simp: index_name_row_def)
  show ?thesis
    unfolding free_of_indexes_def
  proof (rule exI[of _ q], rule exI[of _ rows], intro conjI allI impI)
    show "quoteIdentifier table = Inr q" by (rule q)
    show "answer (''PRAGMA index_list('' @ q @ '')'') [] d = Inr rows"
      by (rule tx_query_answer[OF assms(1) rows assms(3)])
  next
    fix i index u p r
    assume "Inr [CellInt i, CellString index, CellInt u, CellString p, CellInt r] \<in> set (rwRows rows)"
    then have "index \<in> set indexes" by (rule mem)
    from check_indexes_Inr[OF assms(1) check v1 this]
    show "\<exists>qi infos. quoteIdentifier index = Inr qi \<and> answer (''PRAGMA index_info('' @ qi @ '')'') [] d = Inr infos \<and>
           (\<forall>j k. Inr [CellInt j, CellInt k, CellNullString (Some column)] \<notin> set (rwRows infos)) \<and>
           (\<exists>defs def. answer indexSQL [SqlText index] d = Inr defs \<and> first_row defs = Inr [CellNullString def] \<and>
              (\<forall>sql. def = Some sql \<longrightarrow> \<not> identifier_found uc sql column))" by blast
  qed
qed

lemma check_foreign_keys_Inr:
  assumes "answers drv answer"
  shows "check_foreign_keys drv tx table column tables w = (Inr (), w') \<Longrightarrow> tx_view tx w = Some d \<Longrightarrow>
     current \<in> set tables \<Longrightarrow>
     \<exists>q keys. quoteIdentifier current = Inr q \<and> answer (''PRAGMA foreign_key_list('' @ q @ '')'') [] d = Inr keys
       \<and> scan_foreign_keys table column current keys (rwRows keys) = Inr ()"
proof (induction tables arbitrary: w)
  case (Cons t tables)
  from Cons.prems(1) obtain q where q: "quoteIdentifier t = Inr q" by (auto simp: fail_step_def split: sum.splits)
  with Cons.prems(1) obtain keys w1 where
    keys: "tx_query drv tx (''PRAGMA foreign_key_list('' @ q @ '')'') [] w = (Inr keys, w1)"
    and scan: "scan_foreign_keys table column t keys (rwRows keys) = Inr ()"
    and rest: "check_foreign_keys drv tx table column tables w1 = (Inr (), w')"
    by (auto simp: wrap_step_Inr lift_result_Inr elim!: bind_step_Inr)
  show ?case
    using Cons.IH[OF rest tx_query_view[OF keys Cons.prems(2)]] Cons.prems(3) q scan
      tx_query_answer[OF assms keys Cons.prems(2)] by auto
qed simp

lemma rejectSQLiteForeignKeyDependency_Inr:
  assumes "answers drv answer" and "rejectSQLiteForeignKeyDependency drv tx table column w = (Inr (), w')"
    and "tx_view tx w = Some d"
  shows "free_of_foreign_keys (\<lambda>s a. answer s a d) table column"
proof -
  from assms(2) obtain rows w1 tables where
    rows: "tx_query drv tx tablesSQL [] w = (Inr rows, w1)" and tables: "table_list rows = Inr tables"
    and check: "check_foreign_keys drv tx table column tables w1 = (Inr (), w')"
    unfolding rejectSQLiteForeignKeyDependency_def
    by (auto simp: wrap_step_Inr lift_result_Inr elim!: bind_step_Inr dest!: rejoined_error_Inr)
  note c = check_foreign_keys_Inr[OF assms(1) check tx_query_view[OF rows assms(3)]]
  show ?thesis
    unfolding free_of_foreign_keys_def
  proof (intro exI[of _ rows] conjI allI impI)
    show "answer tablesSQL [] d = Inr rows" by (rule tx_query_answer[OF assms(1) rows assms(3)])
    fix current
    assume "Inr [CellString current] \<in> set (rwRows rows)"
    from c[OF table_list_Inr[OF tables this]] obtain q keys where
      "quoteIdentifier current = Inr q" "answer (''PRAGMA foreign_key_list('' @ q @ '')'') [] d = Inr keys"
      and "scan_foreign_keys table column current keys (rwRows keys) = Inr ()" by blast
    then show "\<exists>q keys. quoteIdentifier current = Inr q \<and> answer (''PRAGMA foreign_key_list('' @ q @ '')'') [] d = Inr keys \<and>
           (\<forall>cells referenced source target. Inr cells \<in> set (rwRows keys) \<longrightarrow>
              foreign_key_row cells = Some (referenced, source, target) \<longrightarrow>
              \<not> (current = table \<and> source = column) \<and> \<not> (referenced = table \<and> target = Some column))"
      using scan_foreign_keys_Inr by blast
  qed
qed

lemma scan_row_Inr: "scan_row shape r = Inr x \<longleftrightarrow> (\<exists>cells. r = Inr cells \<and> shape cells = Some x)"
  by (auto simp: scan_row_def split: sum.splits option.splits)

lemma find_column_exists:
  assumes "find_column wanted e rs = Inr shape" and "csExists shape"
  shows "\<exists>cells notNull primary. Inr cells \<in> set rs \<and> column_row cells = Some (wanted, notNull, primary)
       \<and> csPrimaryKey shape = (primary \<noteq> 0)"
  using assms
proof (induction rs)
  case Nil
  then show ?case by (auto split: option.splits)
next
  case (Cons r rs)
  then obtain name notNull primary where s: "scan_row column_row r = Inr (name, notNull, primary)"
    by (auto split: sum.splits)
  then obtain cells where cells: "r = Inr cells" "column_row cells = Some (name, notNull, primary)"
    by (auto simp: scan_row_Inr)
  show ?case
  proof (cases "name = wanted")
    case True
    with Cons.prems s have "csPrimaryKey shape = (primary \<noteq> 0)" by (auto split: option.splits)
    with True cells show ?thesis by auto
  next
    case False
    with Cons s show ?thesis by auto
  qed
qed

definition unreferenced_column :: "unicode_tables \<Rightarrow> (string \<Rightarrow> sql_value list \<Rightarrow> go_error + sql_rows) \<Rightarrow> string
    \<Rightarrow> string \<Rightarrow> bool" where
  "unreferenced_column uc ans table column \<longleftrightarrow>
     free_of_indexes uc ans table column \<and> free_of_triggers uc ans table \<and> free_of_views uc ans table
     \<and> free_of_foreign_keys ans table column"

definition plain_column :: "(string \<Rightarrow> sql_value list \<Rightarrow> go_error + sql_rows) \<Rightarrow> string \<Rightarrow> string \<Rightarrow> bool" where
  "plain_column ans table column \<longleftrightarrow> (\<exists>q rows cells notNull. quoteIdentifier table = Inr q
     \<and> ans (''PRAGMA table_info('' @ q @ '')'') [] = Inr rows
     \<and> Inr cells \<in> set (rwRows rows) \<and> column_row cells = Some (column, notNull, 0))"

lemma sqliteColumnShape_Inr:
  assumes "answers drv answer" and "sqliteColumnShape drv tx q wanted w = (Inr shape, w')" and "tx_view tx w = Some d"
  shows "\<exists>rows. answer (''PRAGMA table_info('' @ q @ '')'') [] d = Inr rows
    \<and> find_column wanted (rwErr rows) (rwRows rows) = Inr shape" and "tx_view tx w' = Some d"
proof -
  from assms(2) obtain rows where rows: "tx_query drv tx (''PRAGMA table_info('' @ q @ '')'') [] w = (Inr rows, w')"
    and shape: "find_column wanted (rwErr rows) (rwRows rows) = Inr shape"
    unfolding sqliteColumnShape_def
    by (auto simp: wrap_step_Inr lift_result_Inr elim!: bind_step_Inr dest!: join_close_Inr)
  show "\<exists>rows. answer (''PRAGMA table_info('' @ q @ '')'') [] d = Inr rows
    \<and> find_column wanted (rwErr rows) (rwRows rows) = Inr shape"
    using tx_query_answer[OF assms(1) rows assms(3)] shape by blast
  show "tx_view tx w' = Some d" by (rule tx_query_view[OF rows assms(3)])
qed

lemma preflightSQLiteDropColumn_Inr:
  assumes "answers drv answer" and "tx_view tx w = Some d"
    and "preflightSQLiteDropColumn uc drv tx m field w = (Inr (), w')"
  shows "plain_column (\<lambda>s a. answer s a d) (mDBTable m) (fColumn field)
    \<and> unreferenced_column uc (\<lambda>s a. answer s a d) (mDBTable m) (fColumn field)
    \<and> tx_view tx w' = Some d"
proof -
  from assms(3) obtain q where q: "quoteIdentifier (mDBTable m) = Inr q"
    by (auto simp: preflightSQLiteDropColumn_def fail_step_def split: sum.splits)
  with assms(3) obtain shape w1 w2 w3 w4 where
    shape: "sqliteColumnShape drv tx q (fColumn field) w = (Inr shape, w1)"
    and ok: "csExists shape" "\<not> csPrimaryKey shape"
    and indexes: "rejectSQLiteIndexDependency uc drv tx (mDBTable m) (fColumn field) w1 = (Inr (), w2)"
    and triggers: "rejectSQLiteTriggerDependency uc drv tx (mDBTable m) (fColumn field) w2 = (Inr (), w3)"
    and views: "rejectSQLiteViewDependency uc drv tx (mDBTable m) (fColumn field) w3 = (Inr (), w4)"
    and keys: "rejectSQLiteForeignKeyDependency drv tx (mDBTable m) (fColumn field) w4 = (Inr (), w')"
    unfolding preflightSQLiteDropColumn_def
    by (auto simp: fail_step_def split: if_splits elim!: bind_step_Inr)
  note s = sqliteColumnShape_Inr[OF assms(1) shape assms(2)]
  have kv: "keeps_view tx (rejectSQLiteIndexDependency uc drv tx (mDBTable m) (fColumn field))"
    "keeps_view tx (rejectSQLiteTriggerDependency uc drv tx (mDBTable m) (fColumn field))"
    "keeps_view tx (rejectSQLiteViewDependency uc drv tx (mDBTable m) (fColumn field))"
    unfolding inspection_defs by (intro keeps_intros)+
  have v2: "tx_view tx w2 = Some d" using kv(1) indexes s(2) unfolding keeps_view_def by blast
  have v3: "tx_view tx w3 = Some d" using kv(2) triggers v2 unfolding keeps_view_def by blast
  have v4: "tx_view tx w4 = Some d" using kv(3) views v3 unfolding keeps_view_def by blast
  have "plain_column (\<lambda>s a. answer s a d) (mDBTable m) (fColumn field)"
    using q s(1) find_column_exists ok unfolding plain_column_def by metis
  moreover have "tx_view tx w' = Some d"
    using preflightSQLiteDropColumn_keeps(2)[of tx uc drv m field] assms(2,3) unfolding keeps_view_def by blast
  ultimately show ?thesis
    using rejectSQLiteIndexDependency_Inr[OF assms(1) indexes s(2)]
      rejectSQLiteTriggerDependency_Inr[OF assms(1) triggers v2]
      rejectSQLiteViewDependency_Inr[OF assms(1) views v3]
      rejectSQLiteForeignKeyDependency_Inr[OF assms(1) keys v4]
    by (simp add: unreferenced_column_def)
qed

text \<open>
  What the guard is for, stated over the engine's answers without the search: every reported trigger
  belongs to another table, and no ASCII definition of a trigger or a view names the table in any
  letter case; no index of the table has the column or names it in an ASCII definition; no listed
  table has a foreign key that leaves the column or names table and column in this spelling.
\<close>

definition unnamed_by_triggers :: "(string \<Rightarrow> sql_value list \<Rightarrow> go_error + sql_rows) \<Rightarrow> string \<Rightarrow> bool" where
  "unnamed_by_triggers ans table \<longleftrightarrow> (\<exists>rows. ans triggersSQL [] = Inr rows \<and>
     (\<forall>name owner def. Inr [CellString name, CellString owner, CellString def] \<in> set (rwRows rows) \<longrightarrow>
        owner \<noteq> table \<and> (is_ascii def \<longrightarrow> \<not> spells def table)))"

definition unnamed_by_views :: "(string \<Rightarrow> sql_value list \<Rightarrow> go_error + sql_rows) \<Rightarrow> string \<Rightarrow> bool" where
  "unnamed_by_views ans table \<longleftrightarrow> (\<exists>rows. ans viewsSQL [] = Inr rows \<and>
     (\<forall>name def. Inr [CellString name, CellString def] \<in> set (rwRows rows) \<longrightarrow> is_ascii def \<longrightarrow> \<not> spells def table))"

definition unnamed_by_indexes :: "(string \<Rightarrow> sql_value list \<Rightarrow> go_error + sql_rows) \<Rightarrow> string \<Rightarrow> string \<Rightarrow> bool" where
  "unnamed_by_indexes ans table column \<longleftrightarrow> (\<exists>q rows. quoteIdentifier table = Inr q \<and>
     ans (''PRAGMA index_list('' @ q @ '')'') [] = Inr rows \<and>
     (\<forall>i index u p r. Inr [CellInt i, CellString index, CellInt u, CellString p, CellInt r] \<in> set (rwRows rows) \<longrightarrow>
        (\<exists>qi infos. quoteIdentifier index = Inr qi \<and> ans (''PRAGMA index_info('' @ qi @ '')'') [] = Inr infos \<and>
           (\<forall>j k. Inr [CellInt j, CellInt k, CellNullString (Some column)] \<notin> set (rwRows infos))) \<and>
        (\<exists>defs def. ans indexSQL [SqlText index] = Inr defs \<and> first_row defs = Inr [CellNullString def] \<and>
           (\<forall>sql. def = Some sql \<longrightarrow> is_ascii sql \<longrightarrow> \<not> spells sql column))))"

lemma free_of_triggers_unnamed:
  "free_of_triggers uc ans table \<Longrightarrow> identifier_name table \<Longrightarrow> unnamed_by_triggers ans table"
  unfolding free_of_triggers_def unnamed_by_triggers_def using not_found_not_spelled by metis

lemma free_of_views_unnamed:
  "free_of_views uc ans table \<Longrightarrow> identifier_name table \<Longrightarrow> unnamed_by_views ans table"
  unfolding free_of_views_def unnamed_by_views_def using not_found_not_spelled by metis

lemma free_of_indexes_unnamed:
  "free_of_indexes uc ans table column \<Longrightarrow> identifier_name column \<Longrightarrow> unnamed_by_indexes ans table column"
  unfolding free_of_indexes_def unnamed_by_indexes_def using not_found_not_spelled by metis

text \<open>
  C21: a column of a table (both with ASCII identifier names) passes the guard of a native
  \<open>DROP COLUMN\<close> only if the engine reports it as an existing, non-primary-key column of the table;
  no index of the table has it or names it in its definition; no trigger belongs to the table or
  names it; and no view names the table, where a definition of ASCII characters names an identifier
  when it holds it as a whole word in any letter case. No table that is listed for inspection has a
  foreign key that leaves the column, or that is reported to refer to this table and column in this
  exact spelling; the engine would also resolve another spelling, so this does not exclude every
  reference (\<open>folded_foreign_key_passes_guard\<close>). The inspection changes nothing the transaction sees.
\<close>

theorem preflightSQLiteDropColumn_guards:
  assumes "answers drv answer" and "tx_view tx w = Some d"
    and "preflightSQLiteDropColumn uc drv tx m field w = (Inr (), w')"
    and "identifier_name (mDBTable m)" and "identifier_name (fColumn field)"
  shows "plain_column (\<lambda>s a. answer s a d) (mDBTable m) (fColumn field)
    \<and> unnamed_by_indexes (\<lambda>s a. answer s a d) (mDBTable m) (fColumn field)
    \<and> unnamed_by_triggers (\<lambda>s a. answer s a d) (mDBTable m)
    \<and> unnamed_by_views (\<lambda>s a. answer s a d) (mDBTable m)
    \<and> free_of_foreign_keys (\<lambda>s a. answer s a d) (mDBTable m) (fColumn field)
    \<and> tx_view tx w' = Some d"
  using preflightSQLiteDropColumn_Inr[OF assms(1-3)] assms(4,5)
  by (auto simp: unreferenced_column_def intro: free_of_triggers_unnamed free_of_views_unnamed free_of_indexes_unnamed)

text \<open>
  An engine whose table \<open>article\<close> has a plain column \<open>title\<close> and an index on another column; a trigger
  and a view belong to other tables, and a foreign key of \<open>comment\<close> refers to the given column.
\<close>

definition answer_rows :: "cell list list \<Rightarrow> go_error + sql_rows" where
  "answer_rows rs = Inr \<lparr>rwRows = map Inr rs, rwErr = None, rwClose = None\<rparr>"

definition title_answer :: "string \<Rightarrow> string \<Rightarrow> string \<Rightarrow> sql_value list \<Rightarrow> unit \<Rightarrow> go_error + sql_rows" where
  "title_answer referenced target statement arguments d =
     (if statement = triggersSQL
      then answer_rows [[CellString ''t'', CellString ''comment'', CellString ''CREATE TRIGGER t AFTER INSERT ON comment'']]
      else if statement = viewsSQL
      then answer_rows [[CellString ''v'', CellString ''CREATE VIEW v AS SELECT * FROM article_comments'']]
      else if statement = tablesSQL then answer_rows [[CellString ''article''], [CellString ''comment'']]
      else if statement = indexSQL
      then answer_rows [[CellNullString (Some ''CREATE UNIQUE INDEX article_slug ON article (slug)'')]]
      else if statement = ''PRAGMA table_info(\"article\")''
      then answer_rows [[CellInt 0, CellString ''title'', CellString ''VARCHAR(9)'', CellInt 1, CellNullString None, CellInt 0]]
      else if statement = ''PRAGMA index_list(\"article\")''
      then answer_rows [[CellInt 0, CellString ''article_slug'', CellInt 1, CellString ''c'', CellInt 0]]
      else if statement = ''PRAGMA index_info(\"article_slug\")'' then answer_rows [[CellInt 0, CellInt 2, CellNullString (Some ''slug'')]]
      else if statement = ''PRAGMA foreign_key_list(\"comment\")''
      then answer_rows [[CellInt 0, CellInt 0, CellString referenced, CellString ''article_id'', CellNullString (Some target),
        CellString ''NO ACTION'', CellString ''NO ACTION'', CellString ''NONE'']]
      else answer_rows [])"

definition title_driver :: "string \<Rightarrow> string \<Rightarrow> unit sqlite_driver" where
  "title_driver referenced target = \<lparr>
     drNil = False, drConn = (\<lambda>_. None), drBeginTx = (\<lambda>_. None),
     drExec = (\<lambda>_ _ _ d. (Inr \<lparr>erRowsAffected = Inr 1, erLastInsertId = Inr 1\<rparr>, d)),
     drQuery = (\<lambda>_. title_answer referenced target),
     drExpired = (\<lambda>_. False), drCommit = (\<lambda>_. None), drCommitted = (\<lambda>_. True), drRollback = (\<lambda>_. None),
     drClose = (\<lambda>_. None), drCtxErr = (\<lambda>_. None), drErrorText = (\<lambda>_. '''')\<rparr>"

definition title_world :: "nat \<Rightarrow> unit sqlite_world" where
  "title_world clock = \<lparr>swDurable = (), swTxs = (\<lambda>_. Some \<lparr>mtView = Some (), mtDone = False\<rparr>), swNext = 1, swClock = clock,
     swClosed = False, swQueryCount = 0\<rparr>"

definition title_model :: ir_model where
  "title_model = \<lparr>mName = ''Article'', mGoName = ''Article'', mDBTable = ''article'', mFields = []\<rparr>"

definition title_field :: ir_field where
  "title_field = zeroField\<lparr>fColumn := ''title''\<rparr>"

lemma title_query:
  "tx_query (title_driver referenced target) 0 s a (title_world clock) = (title_answer referenced target s a (), title_world (Suc clock))"
  by (simp add: tx_query_def expire_def tick_def tx_view_def title_driver_def title_world_def)

lemma title_answers:
  "title_answer referenced target triggersSQL a d =
     answer_rows [[CellString ''t'', CellString ''comment'', CellString ''CREATE TRIGGER t AFTER INSERT ON comment'']]"
  "title_answer referenced target viewsSQL a d =
     answer_rows [[CellString ''v'', CellString ''CREATE VIEW v AS SELECT * FROM article_comments'']]"
  "title_answer referenced target tablesSQL a d = answer_rows [[CellString ''article''], [CellString ''comment'']]"
  "title_answer referenced target indexSQL a d =
     answer_rows [[CellNullString (Some ''CREATE UNIQUE INDEX article_slug ON article (slug)'')]]"
  "title_answer referenced target ''PRAGMA table_info(\"article\")'' a d =
     answer_rows [[CellInt 0, CellString ''title'', CellString ''VARCHAR(9)'', CellInt 1, CellNullString None, CellInt 0]]"
  "title_answer referenced target ''PRAGMA index_list(\"article\")'' a d =
     answer_rows [[CellInt 0, CellString ''article_slug'', CellInt 1, CellString ''c'', CellInt 0]]"
  "title_answer referenced target ''PRAGMA index_info(\"article_slug\")'' a d =
     answer_rows [[CellInt 0, CellInt 2, CellNullString (Some ''slug'')]]"
  "title_answer referenced target ''PRAGMA foreign_key_list(\"article\")'' a d = answer_rows []"
  "title_answer referenced target ''PRAGMA foreign_key_list(\"comment\")'' a d =
     answer_rows [[CellInt 0, CellInt 0, CellString referenced, CellString ''article_id'', CellNullString (Some target),
        CellString ''NO ACTION'', CellString ''NO ACTION'', CellString ''NONE'']]"
  by (simp_all add: title_answer_def triggersSQL_def viewsSQL_def tablesSQL_def indexSQL_def)

lemma title_quoted: "quoteIdentifier ''article'' = Inr ''\"article\"''" "quoteIdentifier ''article_slug'' = Inr ''\"article_slug\"''"
  "quoteIdentifier ''comment'' = Inr ''\"comment\"''"
  by code_simp+

lemma title_names: "identifier_name ''article''" "identifier_name ''title''"
  by (simp_all add: identifier_name_def in_bytes_def byte_def)

lemma title_unnamed:
  "\<not> identifier_found ascii_tables ''CREATE TRIGGER t AFTER INSERT ON comment'' ''article''"
  "\<not> identifier_found ascii_tables ''CREATE VIEW v AS SELECT * FROM article_comments'' ''article''"
  "\<not> identifier_found ascii_tables ''CREATE UNIQUE INDEX article_slug ON article (slug)'' ''title''"
  by code_simp+

lemma title_passes:
  assumes "\<not> (referenced = ''article'' \<and> target = ''title'')"
  shows "\<exists>clock. preflightSQLiteDropColumn ascii_tables (title_driver referenced target) 0 title_model title_field (title_world 0)
    = (Inr (), title_world clock)"
  using assms
  by (intro exI[of _ 9]) (simp add: inspection_defs title_model_def title_field_def title_query title_answers title_quoted title_unnamed answer_rows_def
      index_definition_def tx_query_row_def first_row_def index_columns_def index_column_row_def index_name_row_def
      bind_step_def wrap_step_def lift_result_def return_step_def scan_row_def column_row_def join_close_def foreign_key_row_def
      errors_join_def map_filter_simps wrapCloseRows_def index_list_def rejoined_error_def table_list_def
      numeral_eq_Suc)

theorem preflightSQLiteDropColumn_guards_witness:
  "plain_column (\<lambda>s a. title_answer ''article'' ''id'' s a ()) ''article'' ''title''
    \<and> unnamed_by_indexes (\<lambda>s a. title_answer ''article'' ''id'' s a ()) ''article'' ''title''
    \<and> unnamed_by_triggers (\<lambda>s a. title_answer ''article'' ''id'' s a ()) ''article''
    \<and> unnamed_by_views (\<lambda>s a. title_answer ''article'' ''id'' s a ()) ''article''
    \<and> free_of_foreign_keys (\<lambda>s a. title_answer ''article'' ''id'' s a ()) ''article'' ''title''"
proof -
  have ans: "answers (title_driver ''article'' ''id'') (title_answer ''article'' ''id'')" by (simp add: answers_def title_driver_def)
  have view: "tx_view 0 (title_world 0) = Some ()" by (simp add: tx_view_def title_world_def)
  obtain clock where run: "preflightSQLiteDropColumn ascii_tables (title_driver ''article'' ''id'') 0 title_model title_field
      (title_world 0) = (Inr (), title_world clock)"
    using title_passes[of "''article''" "''id''"] by auto
  have names: "mDBTable title_model = ''article''" "fColumn title_field = ''title''"
    by (simp_all add: title_model_def title_field_def)
  show ?thesis
    using preflightSQLiteDropColumn_guards[OF ans view run, unfolded names, OF title_names] by blast
qed

text \<open>
  The inspection compares the names of foreign keys byte for byte, and the engine reports them as
  they were written: with \<open>REFERENCES ARTICLE(TITLE)\<close> in table \<open>comment\<close> the guard lets the column go.
\<close>

lemma folded_foreign_key_passes_guard:
  "\<exists>w. preflightSQLiteDropColumn ascii_tables (title_driver ''ARTICLE'' ''TITLE'') 0 title_model title_field (title_world 0)
     = (Inr (), w)"
  using title_passes[of "''ARTICLE''" "''TITLE''"] by auto

end
