(* ===== verification/Dependency_Cycles.thy ===== *)
theory Dependency_Cycles
  imports Migration_Types
begin

text \<open>
  The dependency graph of the planner (\<open>migrations/planner_graph.go\<close>) and its cycle search,
  \<open>firstCycleComponent\<close>: Tarjan's strongly connected components, with the recursion of the
  closure \<open>visit\<close> written as one function over the list of parents still to be looked at.
  Go's slice used as a stack is a list whose head is the top of the stack.
\<close>

section \<open>The graph\<close>

record planner_graph =
  gNodes :: "migration_key list"
  gParents :: "(migration_key \<times> migration_key list) list"
  gChildren :: "(migration_key \<times> migration_key list) list"

text \<open>A lookup in a map of slices: the nil slice where the key is absent.\<close>

definition slice_at :: "(migration_key \<times> migration_key list) list \<Rightarrow> migration_key
    \<Rightarrow> migration_key list" where
  "slice_at m key = (case map_of m key of None \<Rightarrow> [] | Some ks \<Rightarrow> ks)"

abbreviation parents :: "planner_graph \<Rightarrow> migration_key \<Rightarrow> migration_key list" where
  "parents g \<equiv> slice_at (gParents g)"

abbreviation children :: "planner_graph \<Rightarrow> migration_key \<Rightarrow> migration_key list" where
  "children g \<equiv> slice_at (gChildren g)"

definition hasSelfLoop :: "planner_graph \<Rightarrow> migration_key \<Rightarrow> bool" where
  "hasSelfLoop g node \<longleftrightarrow> list_ex (\<lambda>parent. parent = node) (parents g node)"

text \<open>The dependency relation: from a migration to the ones it depends on.\<close>

definition dep_rel :: "planner_graph \<Rightarrow> (migration_key \<times> migration_key) set" where
  "dep_rel g = {(c, p). p \<in> set (parents g c)}"

lemma dep_rel_iff: "(c, p) \<in> dep_rel g \<longleftrightarrow> p \<in> set (parents g c)"
  by (simp add: dep_rel_def)

lemma dep_rel_source: "(c, p) \<in> dep_rel g \<Longrightarrow> c \<in> fst ` set (gParents g)"
  by (cases "map_of (gParents g) c")
    (auto simp: dep_rel_iff slice_at_def dest: map_of_SomeD intro: image_eqI[of _ fst "(c, _)"])

lemma hasSelfLoop_iff: "hasSelfLoop g n \<longleftrightarrow> (n, n) \<in> dep_rel g"
  by (simp add: hasSelfLoop_def list_ex_iff dep_rel_iff)

lemma slice_at_subset: "k \<in> set (slice_at m key) \<Longrightarrow> k \<in> \<Union> ((set \<circ> snd) ` set m)"
proof (cases "map_of m key")
  case (Some ks)
  assume "k \<in> set (slice_at m key)"
  with Some map_of_SomeD[OF Some] show ?thesis by (auto simp: slice_at_def intro!: bexI)
qed (simp add: slice_at_def)

section \<open>The cycle search\<close>

text \<open>
  The variables \<open>firstCycleComponent\<close> and its closure \<open>visit\<close> share. The three maps default
  to the zero value of their element type. \<open>tjPanic\<close> is set where the Go code would index an
  empty stack; that it stays false is part of the invariant below.
\<close>

record tarjan =
  tjIndex :: nat
  tjIndices :: "migration_key \<Rightarrow> nat"
  tjLowLink :: "migration_key \<Rightarrow> nat"
  tjOnStack :: "migration_key \<Rightarrow> bool"
  tjStack :: "migration_key list"
  tjComponents :: "migration_key list list"
  tjPanic :: bool

definition tarjan_init :: tarjan where
  "tarjan_init = \<lparr>tjIndex = 0, tjIndices = (\<lambda>_. 0), tjLowLink = (\<lambda>_. 0),
     tjOnStack = (\<lambda>_. False), tjStack = [], tjComponents = [], tjPanic = False\<rparr>"

text \<open>The statements of \<open>visit\<close> before its loop.\<close>

definition tarjan_enter :: "migration_key \<Rightarrow> tarjan \<Rightarrow> tarjan" where
  "tarjan_enter node s =
     (let index = Suc (tjIndex s) in
      s\<lparr>tjIndex := index,
        tjIndices := (tjIndices s)(node := index),
        tjLowLink := (tjLowLink s)(node := index),
        tjStack := node # tjStack s,
        tjOnStack := (tjOnStack s)(node := True)\<rparr>)"

text \<open>
  The loop that pops one component off the stack, down to \<open>node\<close>: the popped members in order
  and the rest of the stack, or \<open>None\<close> where it would run off the end.
\<close>

fun pop_component :: "migration_key \<Rightarrow> migration_key list
    \<Rightarrow> (migration_key list \<times> migration_key list) option" where
  "pop_component node [] = None"
| "pop_component node (member # stack) =
     (if member = node then Some ([member], stack)
      else case pop_component node stack of
             None \<Rightarrow> None
           | Some (component, rest) \<Rightarrow> Some (member # component, rest))"

text \<open>The statements of \<open>visit\<close> after its loop.\<close>

definition tarjan_finish :: "planner_graph \<Rightarrow> migration_key \<Rightarrow> tarjan \<Rightarrow> tarjan" where
  "tarjan_finish g node s =
     (if tjLowLink s node \<noteq> tjIndices s node then s
      else case pop_component node (tjStack s) of
             None \<Rightarrow> s\<lparr>tjPanic := True\<rparr>
           | Some (popped, rest) \<Rightarrow>
               (let component = sortMigrationKeys popped;
                    s' = s\<lparr>tjStack := rest,
                           tjOnStack := foldl (\<lambda>m k. m(k := False)) (tjOnStack s) popped\<rparr> in
                if 1 < length component \<or> hasSelfLoop g (component ! 0)
                then s'\<lparr>tjComponents := tjComponents s' @ [component]\<rparr>
                else s'))"

text \<open>The loop of \<open>visit\<close> over \<open>g.parents[node]\<close>, the recursive call of \<open>visit\<close> unfolded in it.\<close>

function visitParents :: "planner_graph \<Rightarrow> migration_key \<Rightarrow> migration_key list \<Rightarrow> tarjan \<Rightarrow> tarjan" where
  "visitParents g node [] s = s"
| "visitParents g node (parent # ps) s =
     (if tjIndices s parent = 0
      then let s1 = tarjan_finish g parent
                      (visitParents g parent (parents g parent) (tarjan_enter parent s));
               s2 = (if tjLowLink s1 parent < tjLowLink s1 node
                     then s1\<lparr>tjLowLink := (tjLowLink s1)(node := tjLowLink s1 parent)\<rparr>
                     else s1) in
           visitParents g node ps s2
      else let s2 = (if tjOnStack s parent \<and> tjIndices s parent < tjLowLink s node
                     then s\<lparr>tjLowLink := (tjLowLink s)(node := tjIndices s parent)\<rparr>
                     else s) in
           visitParents g node ps s2)"
  by pat_completeness auto

lemma tjIndices_finish [simp]: "tjIndices (tarjan_finish g n s) = tjIndices s"
  by (auto simp: tarjan_finish_def Let_def split: option.splits)

lemma tjIndices_enter [simp]:
  "tjIndices (tarjan_enter n s) = (tjIndices s)(n := Suc (tjIndex s))"
  by (simp add: tarjan_enter_def)

lemma visitParents_visited:
  "visitParents_dom (g, n, ps, s) \<Longrightarrow> tjIndices s k \<noteq> 0 \<Longrightarrow>
     tjIndices (visitParents g n ps s) k \<noteq> 0"
proof (induction g n ps s rule: visitParents.pinduct)
  case (1 g node s)
  then show ?case by (simp add: visitParents.psimps)
next
  case (2 g node parent ps s)
  show ?case
    by (subst visitParents.psimps(2)[OF 2(1)])
      (use 2 in \<open>auto simp: Let_def split: if_splits\<close>)
qed

text \<open>Every call visits a node that was not visited, or has fewer parents left to look at.\<close>

definition tarjan_universe :: "planner_graph \<Rightarrow> migration_key set" where
  "tarjan_universe g = \<Union> ((set \<circ> snd) ` set (gParents g))"

lemma finite_tarjan_universe [simp]: "finite (tarjan_universe g)"
  by (simp add: tarjan_universe_def)

lemma parents_universe: "set (parents g k) \<subseteq> tarjan_universe g"
  unfolding tarjan_universe_def using slice_at_subset by blast

definition unvisited :: "planner_graph \<times> migration_key \<times> migration_key list \<times> tarjan
    \<Rightarrow> migration_key set" where
  "unvisited = (\<lambda>(g, n, ps, s). (tarjan_universe g \<union> set ps) \<inter> {k. tjIndices s k = 0})"

termination visitParents
proof (relation "measures [\<lambda>x. card (unvisited x), \<lambda>(g, n, ps, s). length ps]")
  fix g node parent and ps :: "migration_key list" and s :: tarjan
  assume "tjIndices s parent = 0"
  then have "unvisited (g, parent, parents g parent, tarjan_enter parent s)
      \<subset> unvisited (g, node, parent # ps, s)"
    using parents_universe[of g parent] by (auto simp: unvisited_def)
  then show "((g, parent, parents g parent, tarjan_enter parent s), g, node, parent # ps, s)
      \<in> measures [\<lambda>x. card (unvisited x), \<lambda>(g, n, ps, s). length ps]"
    by (simp add: psubset_card_mono unvisited_def)
next
  fix g node parent and ps :: "migration_key list" and s s1 s2
  assume s1: "s1 = tarjan_finish g parent
      (visitParents g parent (parents g parent) (tarjan_enter parent s))"
    and s2: "s2 = (if tjLowLink s1 parent < tjLowLink s1 node
                   then s1\<lparr>tjLowLink := (tjLowLink s1)(node := tjLowLink s1 parent)\<rparr> else s1)"
    and dom: "visitParents_dom (g, parent, parents g parent, tarjan_enter parent s)"
  have "tjIndices s k \<noteq> 0 \<Longrightarrow> tjIndices s2 k \<noteq> 0" for k
    using visitParents_visited[OF dom, of k] by (auto simp: s2 s1)
  then have "tjIndices s2 k = 0 \<Longrightarrow> tjIndices s k = 0" for k by blast
  then have "unvisited (g, node, ps, s2) \<subseteq> unvisited (g, node, parent # ps, s)"
    by (auto simp: unvisited_def)
  then show "((g, node, ps, s2), g, node, parent # ps, s)
      \<in> measures [\<lambda>x. card (unvisited x), \<lambda>(g, n, ps, s). length ps]"
    using card_mono[of "unvisited (g, node, parent # ps, s)"]
    by (simp add: unvisited_def le_less)
next
  fix g node parent and ps :: "migration_key list" and s s2 :: tarjan
  assume s2: "s2 = (if tjOnStack s parent \<and> tjIndices s parent < tjLowLink s node
                    then s\<lparr>tjLowLink := (tjLowLink s)(node := tjIndices s parent)\<rparr> else s)"
  have "unvisited (g, node, ps, s2) \<subseteq> unvisited (g, node, parent # ps, s)"
    by (auto simp: unvisited_def s2)
  then show "((g, node, ps, s2), g, node, parent # ps, s)
      \<in> measures [\<lambda>x. card (unvisited x), \<lambda>(g, n, ps, s). length ps]"
    using card_mono[of "unvisited (g, node, parent # ps, s)"]
    by (simp add: unvisited_def le_less)
qed simp

definition visit :: "planner_graph \<Rightarrow> migration_key \<Rightarrow> tarjan \<Rightarrow> tarjan" where
  "visit g node s =
     tarjan_finish g node (visitParents g node (parents g node) (tarjan_enter node s))"

text \<open>The outer loop of \<open>firstCycleComponent\<close>.\<close>

fun visitNodes :: "planner_graph \<Rightarrow> migration_key list \<Rightarrow> tarjan \<Rightarrow> tarjan" where
  "visitNodes g [] s = s"
| "visitNodes g (node # nodes) s =
     visitNodes g nodes (if tjIndices s node = 0 then visit g node s else s)"

definition firstCycleComponent :: "planner_graph \<Rightarrow> migration_key list" where
  "firstCycleComponent g =
     (let components = tjComponents (visitNodes g (gNodes g) tarjan_init) in
      case sort_key hd components of
        [] \<Rightarrow> []
      | first # _ \<Rightarrow> first)"

section \<open>Correctness of the cycle search\<close>

text \<open>
  The strongly connected component of a key, the keys that lie on a cycle, and the keys the
  search is done with: visited and popped off the stack.
\<close>

definition scc :: "planner_graph \<Rightarrow> migration_key \<Rightarrow> migration_key set" where
  "scc g k = {m. (k, m) \<in> (dep_rel g)\<^sup>* \<and> (m, k) \<in> (dep_rel g)\<^sup>*}"

definition cyclic_keys :: "planner_graph \<Rightarrow> migration_key set" where
  "cyclic_keys g = {k. (k, k) \<in> (dep_rel g)\<^sup>+}"

definition popped :: "tarjan \<Rightarrow> migration_key set" where
  "popped s = {k. tjIndices s k \<noteq> 0 \<and> k \<notin> set (tjStack s)}"

text \<open>The parents \<open>ps\<close> of \<open>x\<close> have been looked at.\<close>

definition handled :: "tarjan \<Rightarrow> migration_key list \<Rightarrow> migration_key \<Rightarrow> bool" where
  "handled s ps x \<longleftrightarrow> (\<forall>p \<in> set ps. p \<in> popped s
     \<or> (p \<in> set (tjStack s) \<and> tjLowLink s x \<le> tjIndices s p))"

text \<open>The invariant of the search; \<open>b\<close> is the index of the bottom of the stack.\<close>

definition tarjan_inv :: "planner_graph \<Rightarrow> nat \<Rightarrow> tarjan \<Rightarrow> bool" where
  "tarjan_inv g b s \<longleftrightarrow>
     (\<forall>k. tjIndices s k \<le> tjIndex s) \<and> 0 < b \<and> b \<le> Suc (tjIndex s)
     \<and> sorted_wrt (\<lambda>x y. tjIndices s y < tjIndices s x) (tjStack s)
     \<and> (\<forall>k. tjOnStack s k \<longleftrightarrow> k \<in> set (tjStack s))
     \<and> (\<forall>k \<in> set (tjStack s). b \<le> tjIndices s k)
     \<and> (\<forall>k. b \<le> tjIndices s k \<longrightarrow> b \<le> tjLowLink s k \<and> tjLowLink s k \<le> tjIndices s k)
     \<and> \<not> tjPanic s
     \<and> (\<forall>k \<in> popped s. set (parents g k) \<subseteq> popped s)
     \<and> (\<forall>k \<in> set (tjStack s). \<exists>y \<in> set (tjStack s).
          tjIndices s y = tjLowLink s k \<and> (k, y) \<in> (dep_rel g)\<^sup>*)
     \<and> (\<forall>c \<in> set (tjComponents s). \<exists>k \<in> cyclic_keys g. c = sorted_list_of_set (scc g k)
          \<and> finite (scc g k))
     \<and> (\<forall>k \<in> popped s \<inter> cyclic_keys g. sorted_list_of_set (scc g k) \<in> set (tjComponents s))"

lemma tarjan_invI:
  assumes "\<And>k. tjIndices s k \<le> tjIndex s" "0 < b" "b \<le> Suc (tjIndex s)"
    and "sorted_wrt (\<lambda>x y. tjIndices s y < tjIndices s x) (tjStack s)"
    and "\<And>k. tjOnStack s k \<longleftrightarrow> k \<in> set (tjStack s)"
    and "\<And>k. k \<in> set (tjStack s) \<Longrightarrow> b \<le> tjIndices s k"
    and "\<And>k. b \<le> tjIndices s k \<Longrightarrow> b \<le> tjLowLink s k \<and> tjLowLink s k \<le> tjIndices s k"
    and "\<not> tjPanic s"
    and "\<And>k p. k \<in> popped s \<Longrightarrow> p \<in> set (parents g k) \<Longrightarrow> p \<in> popped s"
    and "\<And>k. k \<in> set (tjStack s) \<Longrightarrow> \<exists>y \<in> set (tjStack s).
          tjIndices s y = tjLowLink s k \<and> (k, y) \<in> (dep_rel g)\<^sup>*"
    and "\<And>c. c \<in> set (tjComponents s) \<Longrightarrow> \<exists>k \<in> cyclic_keys g.
          c = sorted_list_of_set (scc g k) \<and> finite (scc g k)"
    and "\<And>k. k \<in> popped s \<Longrightarrow> k \<in> cyclic_keys g \<Longrightarrow>
          sorted_list_of_set (scc g k) \<in> set (tjComponents s)"
  shows "tarjan_inv g b s"
  unfolding tarjan_inv_def using assms by (intro conjI) blast+

lemma tarjan_invD:
  assumes "tarjan_inv g b s"
  shows "tjIndices s k \<le> tjIndex s" "0 < b" "b \<le> Suc (tjIndex s)"
    and "sorted_wrt (\<lambda>x y. tjIndices s y < tjIndices s x) (tjStack s)"
    and "tjOnStack s k \<longleftrightarrow> k \<in> set (tjStack s)"
    and "k \<in> set (tjStack s) \<Longrightarrow> b \<le> tjIndices s k"
    and "b \<le> tjIndices s k \<Longrightarrow> b \<le> tjLowLink s k \<and> tjLowLink s k \<le> tjIndices s k"
    and "\<not> tjPanic s"
    and "k \<in> popped s \<Longrightarrow> p \<in> set (parents g k) \<Longrightarrow> p \<in> popped s"
    and "k \<in> set (tjStack s) \<Longrightarrow> \<exists>y \<in> set (tjStack s).
          tjIndices s y = tjLowLink s k \<and> (k, y) \<in> (dep_rel g)\<^sup>*"
    and "c \<in> set (tjComponents s) \<Longrightarrow> \<exists>k \<in> cyclic_keys g.
          c = sorted_list_of_set (scc g k) \<and> finite (scc g k)"
    and "k \<in> popped s \<Longrightarrow> k \<in> cyclic_keys g \<Longrightarrow>
          sorted_list_of_set (scc g k) \<in> set (tjComponents s)"
  using assms unfolding tarjan_inv_def by blast+

lemma popped_closed:
  assumes inv: "tarjan_inv g b s" and k: "k \<in> popped s" and path: "(k, m) \<in> (dep_rel g)\<^sup>*"
  shows "m \<in> popped s"
  using path k by induction (auto simp: dep_rel_iff intro: tarjan_invD(9)[OF inv])

text \<open>
  One call of the loop for \<open>node\<close> changes the state by \<open>tarjan_step\<close>: it may lower the
  low-link of \<open>node\<close>, and it leaves on the stack, above what was there, nodes it has finished.
\<close>

definition left_on_stack :: "planner_graph \<Rightarrow> migration_key \<Rightarrow> tarjan \<Rightarrow> tarjan
    \<Rightarrow> migration_key list \<Rightarrow> bool" where
  "left_on_stack g node s s' pre \<longleftrightarrow> tjStack s' = pre @ tjStack s \<and>
     (\<forall>x \<in> set pre. tjIndices s x = 0 \<and> (node, x) \<in> (dep_rel g)\<^sup>*
        \<and> tjLowLink s' node \<le> tjLowLink s' x \<and> tjLowLink s' x < tjIndices s' x
        \<and> handled s' (parents g x) x)"

definition tarjan_step :: "planner_graph \<Rightarrow> migration_key \<Rightarrow> tarjan \<Rightarrow> tarjan \<Rightarrow> bool" where
  "tarjan_step g node s s' \<longleftrightarrow>
     tjIndex s \<le> tjIndex s'
     \<and> (\<forall>k. tjIndices s k \<noteq> 0 \<longrightarrow> tjIndices s' k = tjIndices s k)
     \<and> (\<forall>k. tjIndices s k \<noteq> 0 \<longrightarrow> k \<noteq> node \<longrightarrow> tjLowLink s' k = tjLowLink s k)
     \<and> tjLowLink s' node \<le> tjLowLink s node
     \<and> (\<exists>pre. left_on_stack g node s s' pre)"

lemma popped_step: "tarjan_step g n s s' \<Longrightarrow> k \<in> popped s \<Longrightarrow> k \<in> popped s'"
  by (auto simp: tarjan_step_def left_on_stack_def popped_def)

lemma handled_step:
  assumes step: "tarjan_step g n s s'" and h: "handled s ps x" and x: "tjIndices s x \<noteq> 0"
    and vis: "\<And>k. k \<in> set (tjStack s) \<Longrightarrow> tjIndices s k \<noteq> 0"
  shows "handled s' ps x"
  unfolding handled_def
proof
  fix p assume "p \<in> set ps"
  with h consider "p \<in> popped s" | "p \<in> set (tjStack s)" "tjLowLink s x \<le> tjIndices s p"
    by (auto simp: handled_def)
  then show "p \<in> popped s' \<or> p \<in> set (tjStack s') \<and> tjLowLink s' x \<le> tjIndices s' p"
  proof cases
    case 1
    then show ?thesis using popped_step[OF step] by blast
  next
    case 2
    have "tjLowLink s' x \<le> tjLowLink s x"
      using step x by (cases "x = n") (auto simp: tarjan_step_def)
    with 2 vis[of p] step show ?thesis by (auto simp: tarjan_step_def left_on_stack_def)
  qed
qed

lemma tarjan_step_refl: "tarjan_step g n s s"
  by (auto simp: tarjan_step_def left_on_stack_def intro: exI[of _ "[]"])

lemma tarjan_step_trans:
  assumes st: "tarjan_step g n s t" and tu: "tarjan_step g n t u"
    and vis: "\<And>k. k \<in> set (tjStack t) \<Longrightarrow> tjIndices t k \<noteq> 0" and n: "tjIndices s n \<noteq> 0"
  shows "tarjan_step g n s u"
proof -
  from st tu obtain pre pre' where
    pre: "left_on_stack g n s t pre" and pre': "left_on_stack g n t u pre'"
    by (auto simp: tarjan_step_def)
  have mono: "tjIndices s k \<noteq> 0 \<Longrightarrow> tjIndices t k \<noteq> 0" for k
    using st by (auto simp: tarjan_step_def)
  then have fresh: "tjIndices t k = 0 \<Longrightarrow> tjIndices s k = 0" for k by blast
  have "left_on_stack g n s u (pre' @ pre)"
    unfolding left_on_stack_def
  proof (intro conjI ballI)
    show "tjStack u = (pre' @ pre) @ tjStack s"
      using pre pre' by (simp add: left_on_stack_def)
    fix x assume x: "x \<in> set (pre' @ pre)"
    have new: "tjIndices t x \<noteq> 0" "x \<noteq> n" if "x \<in> set pre"
      using that pre vis[of x] n by (auto simp: left_on_stack_def)
    have old: "tjIndices t x \<noteq> 0" "x \<noteq> n" "tjIndices u x = tjIndices t x"
      "tjLowLink u x = tjLowLink t x" if "x \<in> set pre"
      using new[OF that] tu by (auto simp: tarjan_step_def)
    show "tjIndices s x = 0"
      using x pre pre' fresh[of x] by (auto simp: left_on_stack_def)
    show "(n, x) \<in> (dep_rel g)\<^sup>*"
      using x pre pre' by (auto simp: left_on_stack_def)
    show "tjLowLink u n \<le> tjLowLink u x"
      using x pre pre' old tu by (fastforce simp: left_on_stack_def tarjan_step_def)
    show "tjLowLink u x < tjIndices u x"
      using x pre pre' old by (fastforce simp: left_on_stack_def)
    show "handled u (parents g x) x"
      using x pre pre' old handled_step[OF tu _ _ vis] by (auto simp: left_on_stack_def)
  qed
  with st tu show ?thesis unfolding tarjan_step_def by (metis le_trans mono)
qed

lemma stack_visited:
  "tarjan_inv g b s \<Longrightarrow> k \<in> set (tjStack s) \<Longrightarrow> tjIndices s k \<noteq> 0"
  using tarjan_invD(2,6)[of g b s] by fastforce

lemma tarjan_inv_init: "tarjan_inv g (Suc 0) tarjan_init"
  by (rule tarjan_invI) (simp_all add: tarjan_init_def popped_def)

lemma popped_enter: "tjIndices s n = 0 \<Longrightarrow> popped (tarjan_enter n s) = popped s"
  by (auto simp: popped_def tarjan_enter_def Let_def)

lemma tarjan_inv_enter:
  assumes inv: "tarjan_inv g b s" and new: "tjIndices s n = 0"
  shows "tarjan_inv g b (tarjan_enter n s)"
proof (rule tarjan_invI)
  note d = tarjan_invD[OF inv]
  note vis = stack_visited[OF inv]
  have n: "n \<notin> set (tjStack s)" using vis new by blast
  show "tjIndices (tarjan_enter n s) k \<le> tjIndex (tarjan_enter n s)" for k
    using d(1)[of k] by (simp add: tarjan_enter_def)
  show "0 < b" "b \<le> Suc (tjIndex (tarjan_enter n s))"
    using d(2,3) by (simp_all add: tarjan_enter_def)
  have "sorted_wrt (\<lambda>x y. tjIndices (tarjan_enter n s) y < tjIndices (tarjan_enter n s) x)
      (tjStack s)"
    by (rule sorted_wrt_mono_rel[OF _ d(4)]) (use n in auto)
  then show "sorted_wrt (\<lambda>x y. tjIndices (tarjan_enter n s) y < tjIndices (tarjan_enter n s) x)
      (tjStack (tarjan_enter n s))"
    using n d(1) by (auto simp: tarjan_enter_def le_imp_less_Suc)
  show "tjOnStack (tarjan_enter n s) k \<longleftrightarrow> k \<in> set (tjStack (tarjan_enter n s))" for k
    using d(5) by (simp add: tarjan_enter_def)
  show "k \<in> set (tjStack (tarjan_enter n s)) \<Longrightarrow> b \<le> tjIndices (tarjan_enter n s) k" for k
    using d(3) d(6)[of k] by (auto simp: tarjan_enter_def)
  show "b \<le> tjIndices (tarjan_enter n s) k \<Longrightarrow> b \<le> tjLowLink (tarjan_enter n s) k
      \<and> tjLowLink (tarjan_enter n s) k \<le> tjIndices (tarjan_enter n s) k" for k
    using d(3) d(7)[of k] by (auto simp: tarjan_enter_def split: if_splits)
  show "\<not> tjPanic (tarjan_enter n s)" using d(8) by (simp add: tarjan_enter_def)
  show "k \<in> popped (tarjan_enter n s) \<Longrightarrow> p \<in> set (parents g k)
      \<Longrightarrow> p \<in> popped (tarjan_enter n s)" for k p
    using d(9)[of k p] by (simp add: popped_enter[OF new])
  show "\<exists>y \<in> set (tjStack (tarjan_enter n s)).
      tjIndices (tarjan_enter n s) y = tjLowLink (tarjan_enter n s) k \<and> (k, y) \<in> (dep_rel g)\<^sup>*"
    if k: "k \<in> set (tjStack (tarjan_enter n s))" for k
  proof (cases "k = n")
    case True
    then show ?thesis by (simp add: tarjan_enter_def)
  next
    case False
    with k have "k \<in> set (tjStack s)" by (simp add: tarjan_enter_def)
    with d(10) obtain y where "y \<in> set (tjStack s)" "tjIndices s y = tjLowLink s k"
      "(k, y) \<in> (dep_rel g)\<^sup>*" by blast
    with False n show ?thesis by (auto simp: tarjan_enter_def intro!: bexI[of _ y])
  qed
  show "c \<in> set (tjComponents (tarjan_enter n s)) \<Longrightarrow> \<exists>k \<in> cyclic_keys g.
      c = sorted_list_of_set (scc g k) \<and> finite (scc g k)" for c
    using d(11)[of c] by (simp add: tarjan_enter_def)
  show "k \<in> popped (tarjan_enter n s) \<Longrightarrow> k \<in> cyclic_keys g \<Longrightarrow>
      sorted_list_of_set (scc g k) \<in> set (tjComponents (tarjan_enter n s))" for k
    unfolding popped_enter[OF new] using d(12)[of k] by (simp add: tarjan_enter_def)
qed

text \<open>Lowering the low-link of a node to the index of a node on the stack it reaches.\<close>

lemma popped_low [simp]: "popped (s\<lparr>tjLowLink := f\<rparr>) = popped s"
  by (simp add: popped_def)

lemma tarjan_inv_low:
  assumes inv: "tarjan_inv g b s"
    and y: "y \<in> set (tjStack s)" "(n, y) \<in> (dep_rel g)\<^sup>*" "tjIndices s y \<le> tjLowLink s n"
  shows "tarjan_inv g b (s\<lparr>tjLowLink := (tjLowLink s)(n := tjIndices s y)\<rparr>)"
proof (rule tarjan_invI)
  note d = tarjan_invD[OF inv]
  fix k
  assume k: "k \<in> set (tjStack (s\<lparr>tjLowLink := (tjLowLink s)(n := tjIndices s y)\<rparr>))"
  then show "\<exists>y' \<in> set (tjStack (s\<lparr>tjLowLink := (tjLowLink s)(n := tjIndices s y)\<rparr>)).
      tjIndices (s\<lparr>tjLowLink := (tjLowLink s)(n := tjIndices s y)\<rparr>) y' =
        tjLowLink (s\<lparr>tjLowLink := (tjLowLink s)(n := tjIndices s y)\<rparr>) k
      \<and> (k, y') \<in> (dep_rel g)\<^sup>*"
    using d(10)[of k] y by auto
next
  note d = tarjan_invD[OF inv]
  fix k
  assume "b \<le> tjIndices (s\<lparr>tjLowLink := (tjLowLink s)(n := tjIndices s y)\<rparr>) k"
  then show "b \<le> tjLowLink (s\<lparr>tjLowLink := (tjLowLink s)(n := tjIndices s y)\<rparr>) k
      \<and> tjLowLink (s\<lparr>tjLowLink := (tjLowLink s)(n := tjIndices s y)\<rparr>) k
        \<le> tjIndices (s\<lparr>tjLowLink := (tjLowLink s)(n := tjIndices s y)\<rparr>) k"
    using d(6)[of y] d(7)[of k] y by auto
qed (use tarjan_invD[OF inv] in auto)

lemma tarjan_step_low:
  assumes "tarjan_step g n s t" and "v \<le> tjLowLink t n" and n: "tjIndices s n \<noteq> 0"
  shows "tarjan_step g n s (t\<lparr>tjLowLink := (tjLowLink t)(n := v)\<rparr>)"
proof -
  from assms obtain pre where pre: "left_on_stack g n s t pre" by (auto simp: tarjan_step_def)
  then have "n \<notin> set pre" using n by (auto simp: left_on_stack_def)
  then have "left_on_stack g n s (t\<lparr>tjLowLink := (tjLowLink t)(n := v)\<rparr>) pre"
    using pre assms(2) by (fastforce simp: left_on_stack_def handled_def)
  with assms show ?thesis by (auto simp: tarjan_step_def)
qed

lemma pop_component_append:
  "n \<notin> set pre \<Longrightarrow> pop_component n (pre @ n # rest) = Some (pre @ [n], rest)"
  by (induction pre) auto

lemma foldl_clear: "foldl (\<lambda>m k. m(k := False)) f ks k \<longleftrightarrow> f k \<and> k \<notin> set ks"
  by (induction ks arbitrary: f) auto

text \<open>
  When the search finishes \<open>n\<close>, the part of the stack from \<open>n\<close> up reaches \<open>n\<close> if the low-link
  of \<open>n\<close> is its index: the part is then a strongly connected component.
\<close>

lemma reaches_root:
  assumes inv: "tarjan_inv g b t" and st: "tjStack t = pre @ n # rest"
    and low: "\<And>x. x \<in> set pre \<Longrightarrow> tjIndices t n \<le> tjLowLink t x \<and> tjLowLink t x < tjIndices t x"
  shows "x \<in> set (pre @ [n]) \<Longrightarrow> (x, n) \<in> (dep_rel g)\<^sup>*"
proof (induction "tjIndices t x" arbitrary: x rule: less_induct)
  case less
  show ?case
  proof (cases "x = n")
    case False
    with less.prems have x: "x \<in> set pre" by simp
    with st tarjan_invD(10)[OF inv, of x] obtain y where y: "y \<in> set (tjStack t)"
      "tjIndices t y = tjLowLink t x" "(x, y) \<in> (dep_rel g)\<^sup>*" by auto
    have "y \<notin> set rest"
      using tarjan_invD(4)[OF inv] low[OF x] y by (auto simp: st sorted_wrt_append)
    then have "y \<in> set (pre @ [n])" using y st by auto
    from less.hyps[OF _ this] y low[OF x] show ?thesis by (auto intro: rtrancl_trans)
  qed simp
qed

lemma cyclic_component:
  assumes "distinct c" "n \<in> set c" "\<And>x. x \<in> set c \<Longrightarrow> (n, x) \<in> (dep_rel g)\<^sup>* \<and> (x, n) \<in> (dep_rel g)\<^sup>*"
    and "1 < length c \<or> hasSelfLoop g (sortMigrationKeys c ! 0)"
  shows "n \<in> cyclic_keys g"
proof (cases "1 < length c")
  case True
  have "\<exists>x \<in> set c. x \<noteq> n"
  proof (rule ccontr)
    assume "\<not> ?thesis"
    then have "set c \<subseteq> {n}" by auto
    then have "card (set c) \<le> 1" using card_mono[of "{n}" "set c"] by simp
    with True assms(1) show False by (simp add: distinct_card)
  qed
  with assms(3) show ?thesis
    by (auto simp: cyclic_keys_def intro: rtrancl_into_trancl1 dest!: rtranclD intro: trancl_trans)
next
  case False
  with assms(2) have "c = [n]" by (cases c) auto
  with assms(4) False show ?thesis
    by (auto simp: sortMigrationKeys_def cyclic_keys_def hasSelfLoop_iff)
qed

lemma sort_scc: "distinct c \<Longrightarrow> set c = scc g n \<Longrightarrow> sortMigrationKeys c = sorted_list_of_set (scc g n)"
  by (metis sortMigrationKeys_def sorted_list_of_set_sort_remdups distinct_remdups_id)

lemma scc_eq: "m \<in> scc g k \<Longrightarrow> scc g m = scc g k"
  by (auto simp: scc_def intro: rtrancl_trans)

lemma scc_self [simp]: "k \<in> scc g k"
  by (simp add: scc_def)

definition tarjan_visited :: "planner_graph \<Rightarrow> migration_key \<Rightarrow> tarjan \<Rightarrow> tarjan \<Rightarrow> bool" where
  "tarjan_visited g p s u \<longleftrightarrow>
     tjIndex s \<le> tjIndex u
     \<and> (\<forall>k. tjIndices s k \<noteq> 0 \<longrightarrow> tjIndices u k = tjIndices s k \<and> tjLowLink u k = tjLowLink s k)
     \<and> tjIndex s < tjIndices u p
     \<and> (\<exists>pre. left_on_stack g p s u pre
          \<and> (p \<in> set pre \<or> (p \<in> popped u \<and> tjLowLink u p = tjIndices u p)))"

lemma tarjan_finish_keep:
  assumes new: "tjIndices s n = 0"
    and inv: "tarjan_inv g b t" and step: "tarjan_step g n (tarjan_enter n s) t"
    and h: "handled t (parents g n) n" and low: "tjLowLink t n \<noteq> tjIndices t n"
  shows "tarjan_visited g n s t"
proof -
  from step obtain pre where pre: "left_on_stack g n (tarjan_enter n s) t pre"
    by (auto simp: tarjan_step_def)
  have stack: "tjStack t = (pre @ [n]) @ tjStack s"
    using pre by (simp add: left_on_stack_def tarjan_enter_def)
  then have "b \<le> tjIndices t n" using tarjan_invD(6)[OF inv] by simp
  then have "tjLowLink t n < tjIndices t n" using tarjan_invD(7)[OF inv] low by (simp add: le_neq_implies_less)
  then have "left_on_stack g n s t (pre @ [n])"
    using pre h new stack by (fastforce simp: left_on_stack_def split: if_splits)
  moreover have "tjIndices t n = Suc (tjIndex s)"
    using step by (simp add: tarjan_step_def)
  moreover have "tjIndices s k \<noteq> 0 \<Longrightarrow> tjIndices t k = tjIndices s k \<and> tjLowLink t k = tjLowLink s k" for k
    using step new by (cases "k = n") (auto simp: tarjan_step_def tarjan_enter_def)
  ultimately show ?thesis
    using step by (auto simp: tarjan_visited_def tarjan_step_def tarjan_enter_def)
qed

lemma sorted_wrt_less_distinct: "sorted_wrt (\<lambda>x y. f y < (f x :: nat)) xs \<Longrightarrow> distinct xs"
  by (induction xs) auto

text \<open>The component popped when \<open>n\<close> is finished with its low-link still its index.\<close>

lemma popped_component:
  assumes inv: "tarjan_inv g b t" and st: "tjStack t = pre @ n # rest"
    and pre: "\<And>x. x \<in> set pre \<Longrightarrow> (n, x) \<in> (dep_rel g)\<^sup>* \<and> tjLowLink t n \<le> tjLowLink t x
        \<and> tjLowLink t x < tjIndices t x \<and> handled t (parents g x) x"
    and h: "handled t (parents g n) n" and low: "tjLowLink t n = tjIndices t n"
  shows "set (pre @ [n]) = scc g n"
    and "x \<in> set (pre @ [n]) \<Longrightarrow> p \<in> set (parents g x) \<Longrightarrow> p \<in> popped t \<union> set (pre @ [n])"
    and "distinct (pre @ [n])"
proof -
  note d = tarjan_invD[OF inv]
  show "distinct (pre @ [n])"
    using sorted_wrt_less_distinct[OF d(4)] by (simp add: st)
  show closed: "p \<in> popped t \<union> set (pre @ [n])"
    if x: "x \<in> set (pre @ [n])" and p: "p \<in> set (parents g x)" for x p
  proof (cases "p \<in> popped t")
    case False
    have "handled t (parents g x) x" "tjLowLink t n \<le> tjLowLink t x"
      using x pre h by auto
    with False p have "p \<in> set (tjStack t)" "tjLowLink t n \<le> tjIndices t p"
      by (force simp: handled_def)+
    then have "p \<in> set (pre @ n # rest)" "tjIndices t n \<le> tjIndices t p" by (simp_all add: st low)
    moreover have "p \<notin> set rest" using d(4) calculation by (auto simp: st sorted_wrt_append)
    ultimately show ?thesis by auto
  qed simp
  have reach: "x \<in> set (pre @ [n]) \<Longrightarrow> (x, n) \<in> (dep_rel g)\<^sup>*" for x
    by (rule reaches_root[OF inv st]) (use pre low in auto)
  have path: "m \<in> popped t \<union> set (pre @ [n])" if "(n, m) \<in> (dep_rel g)\<^sup>*" for m
    using that
  proof induction
    case (step y z)
    from step.hyps(2) have "z \<in> set (parents g y)" by (simp add: dep_rel_iff)
    with step.IH closed[of y z] d(9)[of y z] show ?case by blast
  qed simp
  have "m \<in> set (pre @ [n])" if m: "m \<in> scc g n" for m
  proof -
    from m path have "m \<in> popped t \<union> set (pre @ [n])" by (simp add: scc_def)
    moreover have "m \<notin> popped t"
      using popped_closed[OF inv, of m n] m by (auto simp: scc_def popped_def st)
    ultimately show ?thesis by blast
  qed
  moreover have "x \<in> scc g n" if "x \<in> set (pre @ [n])" for x
    using that reach pre by (auto simp: scc_def)
  ultimately show "set (pre @ [n]) = scc g n" by blast
qed

lemma tarjan_finish_pop:
  assumes inv: "tarjan_inv g b t" and st: "tjStack t = pre @ n # rest"
    and pre: "\<And>x. x \<in> set pre \<Longrightarrow> (n, x) \<in> (dep_rel g)\<^sup>* \<and> tjLowLink t n \<le> tjLowLink t x
        \<and> tjLowLink t x < tjIndices t x \<and> handled t (parents g x) x"
    and h: "handled t (parents g n) n" and low: "tjLowLink t n = tjIndices t n"
  defines "u \<equiv> tarjan_finish g n t"
  shows "tarjan_inv g b u"
    and "tjStack u = rest" and "tjIndices u = tjIndices t" and "tjLowLink u = tjLowLink t"
    and "tjIndex u = tjIndex t"
proof -
  note d = tarjan_invD[OF inv]
  let ?c = "pre @ [n]"
  note comp = popped_component[OF inv st pre h low]
  have npre: "n \<notin> set pre" and drest: "set ?c \<inter> set rest = {}"
    using sorted_wrt_less_distinct[OF d(4)] by (auto simp: st)
  have u: "tjStack u = rest" "tjIndices u = tjIndices t" "tjLowLink u = tjLowLink t"
    "tjIndex u = tjIndex t" "tjPanic u = tjPanic t"
    "tjOnStack u k \<longleftrightarrow> tjOnStack t k \<and> k \<notin> set ?c"
    "tjComponents u = tjComponents t @
       (if 1 < length (sortMigrationKeys ?c) \<or> hasSelfLoop g (sortMigrationKeys ?c ! 0)
        then [sortMigrationKeys ?c] else [])" for k
    using low pop_component_append[OF npre, of rest]
    by (simp_all add: u_def tarjan_finish_def st Let_def foldl_clear)
  then show "tjStack u = rest" "tjIndices u = tjIndices t" "tjLowLink u = tjLowLink t"
    "tjIndex u = tjIndex t" by simp_all
  have pop: "popped u = popped t \<union> set ?c"
    using stack_visited[OF inv] drest by (auto simp: popped_def u st)
  have sorted: "sortMigrationKeys ?c = sorted_list_of_set (scc g n)"
    by (rule sort_scc[OF comp(3) comp(1)])
  have fin: "finite (scc g n)" using comp(1) by (metis List.finite_set)
  have mutual: "x \<in> set ?c \<Longrightarrow> (n, x) \<in> (dep_rel g)\<^sup>* \<and> (x, n) \<in> (dep_rel g)\<^sup>*" for x :: migration_key
  proof -
    assume "x \<in> set ?c"
    then have "x \<in> scc g n" by (simp only: comp(1))
    then show ?thesis by (simp add: scc_def)
  qed
  show "tarjan_inv g b u"
  proof (rule tarjan_invI)
    show "tjIndices u k \<le> tjIndex u" "0 < b" "b \<le> Suc (tjIndex u)" for k
      using d(1,2,3) by (simp_all add: u)
    show "sorted_wrt (\<lambda>x y. tjIndices u y < tjIndices u x) (tjStack u)"
      using d(4) by (simp add: u st sorted_wrt_append)
    show "tjOnStack u k \<longleftrightarrow> k \<in> set (tjStack u)" for k
      using d(5)[of k] drest by (auto simp: u st)
    show "k \<in> set (tjStack u) \<Longrightarrow> b \<le> tjIndices u k" for k
      using d(6)[of k] by (simp add: u st)
    show "b \<le> tjIndices u k \<Longrightarrow> b \<le> tjLowLink u k \<and> tjLowLink u k \<le> tjIndices u k" for k
      using d(7)[of k] by (simp add: u)
    show "\<not> tjPanic u" using d(8) by (simp add: u)
    show "k \<in> popped u \<Longrightarrow> p \<in> set (parents g k) \<Longrightarrow> p \<in> popped u" for k p
      unfolding pop using d(9)[of k p] comp(2)[of k p] by blast
    show "\<exists>y \<in> set (tjStack u). tjIndices u y = tjLowLink u k \<and> (k, y) \<in> (dep_rel g)\<^sup>*"
      if k: "k \<in> set (tjStack u)" for k
    proof -
      have kr: "k \<in> set rest" using k by (simp add: u)
      with d(10)[of k] obtain y where y: "y \<in> set (tjStack t)" "tjIndices t y = tjLowLink t k"
        "(k, y) \<in> (dep_rel g)\<^sup>*" by (auto simp: st)
      have "tjIndices t y \<le> tjIndices t k"
        using y d(6,7)[of k] kr by (simp add: st)
      moreover have "x \<in> set ?c \<Longrightarrow> tjIndices t k < tjIndices t x" for x
        using d(4) kr by (auto simp: st sorted_wrt_append)
      ultimately have "y \<in> set rest" using y(1) by (fastforce simp: st)
      with y show ?thesis by (auto simp: u)
    qed
    show "\<exists>k \<in> cyclic_keys g. c = sorted_list_of_set (scc g k) \<and> finite (scc g k)"
      if c: "c \<in> set (tjComponents u)" for c
    proof (cases "c \<in> set (tjComponents t)")
      case True
      then show ?thesis by (rule d(11))
    next
      case False
      with c have "c = sortMigrationKeys ?c"
        "1 < length ?c \<or> hasSelfLoop g (sortMigrationKeys ?c ! 0)"
        by (auto simp: u sortMigrationKeys_def split: if_splits)
      with cyclic_component[OF comp(3), of n g] mutual have "n \<in> cyclic_keys g" by simp
      with \<open>c = sortMigrationKeys ?c\<close> sorted fin show ?thesis by auto
    qed
    show "sorted_list_of_set (scc g k) \<in> set (tjComponents u)"
      if k: "k \<in> popped u" and cyc: "k \<in> cyclic_keys g" for k
    proof (cases "k \<in> popped t")
      case True
      then show ?thesis using d(12)[of k] cyc by (simp add: u)
    next
      case False
      with k pop have kc: "k \<in> set ?c" by simp
      then have "k \<in> scc g n" by (simp only: comp(1))
      then have same: "scc g k = scc g n" by (rule scc_eq)
      have "1 < length ?c \<or> hasSelfLoop g (sortMigrationKeys ?c ! 0)"
      proof (rule ccontr)
        assume neg: "\<not> ?thesis"
        then have "pre = []" by simp
        then have "k = n" using kc by simp
        then obtain y where y: "y \<in> set (parents g n)" "(y, n) \<in> (dep_rel g)\<^sup>*"
          using cyc by (auto simp: cyclic_keys_def dep_rel_iff dest: tranclD)
        have "y \<noteq> n" using neg y(1) \<open>pre = []\<close>
          by (auto simp: sortMigrationKeys_def hasSelfLoop_iff dep_rel_iff)
        with comp(2)[of n y] y(1) \<open>pre = []\<close> have "y \<in> popped t" by simp
        with popped_closed[OF inv _ y(2)] show False by (auto simp: popped_def st)
      qed
      then have "sortMigrationKeys ?c \<in> set (tjComponents u)"
        unfolding u(7) by (simp add: sortMigrationKeys_def)
      then show ?thesis unfolding sorted same .
    qed
  qed
qed

lemma tarjan_finish:
  assumes new: "tjIndices s n = 0"
    and inv: "tarjan_inv g b t" and step: "tarjan_step g n (tarjan_enter n s) t"
    and h: "handled t (parents g n) n"
  shows "tarjan_inv g b (tarjan_finish g n t)" (is ?inv)
    and "tarjan_visited g n s (tarjan_finish g n t)" (is ?vis)
proof -
  have "?inv \<and> ?vis"
  proof (cases "tjLowLink t n = tjIndices t n")
    case False
    then have "tarjan_finish g n t = t" by (simp add: tarjan_finish_def)
    with tarjan_finish_keep[OF new inv step h False] inv show ?thesis by simp
  next
    case True
    from step obtain pre where pre: "left_on_stack g n (tarjan_enter n s) t pre"
      by (auto simp: tarjan_step_def)
    then have st: "tjStack t = pre @ n # tjStack s"
      by (simp add: left_on_stack_def tarjan_enter_def)
    have px: "x \<in> set pre \<Longrightarrow> (n, x) \<in> (dep_rel g)\<^sup>* \<and> tjLowLink t n \<le> tjLowLink t x
        \<and> tjLowLink t x < tjIndices t x \<and> handled t (parents g x) x" for x
      using pre by (simp add: left_on_stack_def)
    note fin = tarjan_finish_pop[OF inv st px h True]
    have idx: "tjIndices t n = Suc (tjIndex s)" using step by (simp add: tarjan_step_def)
    have old: "tjIndices s k \<noteq> 0 \<Longrightarrow> tjIndices t k = tjIndices s k \<and> tjLowLink t k = tjLowLink s k" for k
      using step new by (cases "k = n") (auto simp: tarjan_step_def tarjan_enter_def)
    have "n \<notin> set (tjStack s)"
      using sorted_wrt_less_distinct[OF tarjan_invD(4)[OF inv]] by (auto simp: st)
    then have "n \<in> popped (tarjan_finish g n t)" by (simp add: popped_def fin idx)
    moreover have "left_on_stack g n s (tarjan_finish g n t) []"
      by (simp add: left_on_stack_def fin)
    moreover have "tjIndex s \<le> tjIndex t"
      using step by (simp add: tarjan_step_def tarjan_enter_def)
    ultimately have ?vis
      using old idx True by (auto simp: tarjan_visited_def fin)
    with fin(1) show ?thesis by blast
  qed
  then show ?inv ?vis by blast+
qed

lemma stack_above:
  assumes inv: "tarjan_inv g b u" and "tjStack u = pre @ rest" and "x \<in> set pre" "y \<in> set rest"
  shows "tjIndices u y < tjIndices u x"
  using tarjan_invD(4)[OF inv] assms(2-) by (simp add: sorted_wrt_append)

text \<open>What the loop does after \<open>visit(parent)\<close> has returned in state \<open>u\<close>.\<close>

lemma after_visit:
  assumes invs: "tarjan_inv g b s" and inv: "tarjan_inv g b u" and vis: "tarjan_visited g p s u"
    and node: "node \<in> set (tjStack s)" and edge: "(node, p) \<in> dep_rel g"
    and new: "tjIndices s p = 0"
  defines "w \<equiv> (if tjLowLink u p < tjLowLink u node
                then u\<lparr>tjLowLink := (tjLowLink u)(node := tjLowLink u p)\<rparr> else u)"
  shows "tarjan_inv g b w" and "tarjan_step g node s w" and "handled w [p] node"
proof -
  from vis obtain pre where pre: "left_on_stack g p s u pre"
    and p: "p \<in> set pre \<or> (p \<in> popped u \<and> tjLowLink u p = tjIndices u p)"
    by (auto simp: tarjan_visited_def)
  have n0: "tjIndices s node \<noteq> 0" using stack_visited[OF invs node] .
  then have nu: "tjIndices u node = tjIndices s node" "tjLowLink u node = tjLowLink s node"
    using vis by (auto simp: tarjan_visited_def)
  have st: "tjStack u = pre @ tjStack s" using pre by (simp add: left_on_stack_def)
  have npre: "node \<notin> set pre" using pre n0 by (auto simp: left_on_stack_def)
  have low_node: "tjLowLink u node \<le> tjIndices u node"
    using tarjan_invD(6,7)[OF inv, of node] node by (simp add: st)
  have p_on: "p \<in> set pre" if "tjLowLink u p < tjLowLink u node"
  proof (rule ccontr)
    assume "p \<notin> set pre"
    with p have "tjLowLink u p = tjIndices u p" by blast
    moreover have "tjIndices s node \<le> tjIndex s" by (rule tarjan_invD(1)[OF invs])
    moreover have "tjIndex s < tjIndices u p" using vis by (simp add: tarjan_visited_def)
    ultimately show False using that low_node nu by simp
  qed
  show invw: "tarjan_inv g b w"
  proof (cases "tjLowLink u p < tjLowLink u node")
    case True
    then have "p \<in> set (tjStack u)" using p_on st by simp
    with tarjan_invD(10)[OF inv] obtain y where y: "y \<in> set (tjStack u)"
      "tjIndices u y = tjLowLink u p" "(p, y) \<in> (dep_rel g)\<^sup>*" by blast
    from edge y(3) have "(node, y) \<in> (dep_rel g)\<^sup>*" by (rule converse_rtrancl_into_rtrancl)
    with tarjan_inv_low[OF inv y(1), of node] y(2) True show ?thesis by (simp add: w_def)
  qed (simp add: w_def inv)
  have w: "tjIndices w = tjIndices u" "tjStack w = tjStack u" "tjIndex w = tjIndex u"
    "tjLowLink w node \<le> tjLowLink u p" "tjLowLink w node \<le> tjLowLink u node"
    "k \<noteq> node \<Longrightarrow> tjLowLink w k = tjLowLink u k" "popped w = popped u" for k
    by (simp_all add: w_def)
  have "left_on_stack g node s w pre"
    unfolding left_on_stack_def
  proof (intro conjI ballI)
    show "tjStack w = pre @ tjStack s" by (simp add: w st)
    fix x assume x: "x \<in> set pre"
    with npre have "x \<noteq> node" by blast
    note xs = pre[unfolded left_on_stack_def, THEN conjunct2, rule_format, OF x]
    show "tjIndices s x = 0" using xs by simp
    show "(node, x) \<in> (dep_rel g)\<^sup>*"
      using edge xs by (blast intro: converse_rtrancl_into_rtrancl)
    show "tjLowLink w node \<le> tjLowLink w x"
      using xs w(4) w(6)[OF \<open>x \<noteq> node\<close>] by simp
    show "tjLowLink w x < tjIndices w x"
      using xs w(6)[OF \<open>x \<noteq> node\<close>] by (simp add: w)
    show "handled w (parents g x) x"
      using xs w(6)[OF \<open>x \<noteq> node\<close>] by (simp add: handled_def w)
  qed
  then show "tarjan_step g node s w"
    using vis nu w(5) by (auto simp: tarjan_step_def tarjan_visited_def w(1-3,6))
  have "p \<in> set pre \<Longrightarrow> tjLowLink u p \<le> tjIndices u p"
    using pre by (auto simp: left_on_stack_def less_imp_le)
  then show "handled w [p] node"
    using p le_trans[OF w(4)] by (auto simp: handled_def w(1,2,7) st)
qed

text \<open>What the loop does with a parent that was visited before.\<close>

lemma after_seen:
  assumes inv: "tarjan_inv g b s" and node: "node \<in> set (tjStack s)"
    and edge: "(node, p) \<in> dep_rel g" and seen: "tjIndices s p \<noteq> 0"
  defines "w \<equiv> (if tjOnStack s p \<and> tjIndices s p < tjLowLink s node
                then s\<lparr>tjLowLink := (tjLowLink s)(node := tjIndices s p)\<rparr> else s)"
  shows "tarjan_inv g b w" and "tarjan_step g node s w" and "handled w [p] node"
proof -
  note on = tarjan_invD(5)[OF inv, of p]
  show "tarjan_inv g b w"
    using tarjan_inv_low[OF inv, of p node] r_into_rtrancl[OF edge] on inv by (simp add: w_def)
  show "tarjan_step g node s w"
    using tarjan_step_low[OF tarjan_step_refl, of "tjIndices s p" s node g]
      tarjan_step_refl stack_visited[OF inv node] by (simp add: w_def)
  show "handled w [p] node"
    using on seen by (auto simp: w_def handled_def popped_def)
qed

lemma visitParents_correct:
  assumes "tarjan_inv g b s" and "node \<in> set (tjStack s)" and "set ps \<subseteq> set (parents g node)"
  shows "tarjan_inv g b (visitParents g node ps s)
    \<and> tarjan_step g node s (visitParents g node ps s)
    \<and> handled (visitParents g node ps s) ps node"
  using assms
proof (induction g node ps s rule: visitParents.induct)
  case (1 g node s)
  then show ?case by (simp add: tarjan_step_refl handled_def)
next
  case (2 g node p ps s)
  have edge: "(node, p) \<in> dep_rel g" and ps: "set ps \<subseteq> set (parents g node)"
    using 2(6) by (auto simp: dep_rel_iff)
  have n0: "tjIndices s node \<noteq> 0" using stack_visited[OF 2(4,5)] .
  obtain w where w: "tarjan_inv g b w" "tarjan_step g node s w" "handled w [p] node"
    and eq: "visitParents g node (p # ps) s = visitParents g node ps w"
    and IH: "tarjan_inv g b w \<Longrightarrow> node \<in> set (tjStack w) \<Longrightarrow> set ps \<subseteq> set (parents g node) \<Longrightarrow>
      tarjan_inv g b (visitParents g node ps w) \<and> tarjan_step g node w (visitParents g node ps w)
      \<and> handled (visitParents g node ps w) ps node"
  proof (cases "tjIndices s p = 0")
    case True
    let ?t = "visitParents g p (parents g p) (tarjan_enter p s)"
    let ?u = "tarjan_finish g p ?t"
    have "tarjan_inv g b (tarjan_enter p s)" by (rule tarjan_inv_enter[OF 2(4) True])
    with 2(1)[OF True] have t: "tarjan_inv g b ?t" "tarjan_step g p (tarjan_enter p s) ?t"
      "handled ?t (parents g p) p" by (simp_all add: tarjan_enter_def)
    note u = tarjan_finish[OF True t]
    show ?thesis
      by (rule that[OF after_visit[OF 2(4) u 2(5) edge True]])
        (use True 2(2)[OF True refl refl] in \<open>simp_all add: Let_def\<close>)
  next
    case False
    show ?thesis
      by (rule that[OF after_seen[OF 2(4,5) edge False]])
        (use False 2(3)[OF False refl] in \<open>simp_all add: Let_def\<close>)
  qed
  have nw: "node \<in> set (tjStack w)"
    using w(2) 2(5) by (auto simp: tarjan_step_def left_on_stack_def)
  note r = IH[OF w(1) nw ps]
  have vw: "k \<in> set (tjStack w) \<Longrightarrow> tjIndices w k \<noteq> 0" for k by (rule stack_visited[OF w(1)])
  have "tarjan_step g node s (visitParents g node ps w)"
    using tarjan_step_trans[OF w(2) _ vw n0] r by blast
  moreover have "handled (visitParents g node ps w) [p] node"
    using handled_step[OF _ w(3) vw[OF nw] vw] r by blast
  ultimately show ?case unfolding eq using r by (auto simp: handled_def)
qed

lemma visit_correct:
  assumes inv: "tarjan_inv g b s" and st: "tjStack s = []" and new: "tjIndices s n = 0"
  shows "tarjan_inv g (Suc (tjIndex s)) (visit g n s)" and "tjStack (visit g n s) = []"
    and "tjIndices s k \<noteq> 0 \<Longrightarrow> tjIndices (visit g n s) k \<noteq> 0"
    and "tjIndices (visit g n s) n \<noteq> 0"
proof -
  let ?b = "Suc (tjIndex s)"
  let ?t = "visitParents g n (parents g n) (tarjan_enter n s)"
  note d = tarjan_invD[OF inv]
  have "tarjan_inv g ?b s"
  proof (rule tarjan_invI)
    show "Suc (tjIndex s) \<le> tjIndices s k \<Longrightarrow>
        Suc (tjIndex s) \<le> tjLowLink s k \<and> tjLowLink s k \<le> tjIndices s k" for k
      using d(1)[of k] by simp
  qed (use d st in auto)
  then have "tarjan_inv g ?b (tarjan_enter n s)" by (rule tarjan_inv_enter[OF _ new])
  with visitParents_correct[of g ?b "tarjan_enter n s" n "parents g n"]
  have t: "tarjan_inv g ?b ?t" "tarjan_step g n (tarjan_enter n s) ?t" "handled ?t (parents g n) n"
    by (simp_all add: tarjan_enter_def)
  note u = tarjan_finish[OF new t, folded visit_def]
  show inv': "tarjan_inv g ?b (visit g n s)" by (rule u(1))
  from u(2) obtain pre where pre: "left_on_stack g n s (visit g n s) pre"
    and n: "n \<in> set pre \<or> n \<in> popped (visit g n s)"
    by (auto simp: tarjan_visited_def)
  have eq: "tjIndices (visit g n s) n = ?b"
    using t(2) by (simp add: visit_def tarjan_step_def)
  have "n \<notin> set pre"
  proof
    assume np: "n \<in> set pre"
    then have "tjLowLink (visit g n s) n < ?b" using pre eq by (auto simp: left_on_stack_def)
    moreover have "?b \<le> tjLowLink (visit g n s) n" using tarjan_invD(7)[OF inv', of n] eq by simp
    ultimately show False by simp
  qed
  then have low: "n \<in> popped (visit g n s)" using n by blast
  have "pre = []"
  proof (rule ccontr)
    assume "pre \<noteq> []"
    then obtain x where x: "x \<in> set pre" by (cases pre) auto
    then have "x \<in> popped (visit g n s)"
      using pre popped_closed[OF inv' low] by (auto simp: left_on_stack_def)
    then show False using x pre by (simp add: left_on_stack_def popped_def)
  qed
  then show "tjStack (visit g n s) = []" using pre st by (simp add: left_on_stack_def)
  show "tjIndices s k \<noteq> 0 \<Longrightarrow> tjIndices (visit g n s) k \<noteq> 0"
    using u(2) by (auto simp: tarjan_visited_def)
  show "tjIndices (visit g n s) n \<noteq> 0" by (simp add: eq)
qed

lemma visitNodes_correct:
  assumes "tarjan_inv g b s" and "tjStack s = []"
  shows "\<exists>b'. tarjan_inv g b' (visitNodes g ns s) \<and> tjStack (visitNodes g ns s) = []
    \<and> (\<forall>k. tjIndices s k \<noteq> 0 \<or> k \<in> set ns \<longrightarrow> tjIndices (visitNodes g ns s) k \<noteq> 0)"
  using assms
proof (induction ns arbitrary: b s)
  case Nil
  then show ?case by auto
next
  case (Cons n ns)
  show ?case
  proof (cases "tjIndices s n = 0")
    case True
    note v = visit_correct[OF Cons.prems True]
    from Cons.IH[OF v(1,2)] v(3,4) True show ?thesis by auto
  next
    case False
    with Cons.IH[OF Cons.prems] show ?thesis by auto
  qed
qed

lemma sorted_scc_head:
  assumes "finite (scc g k)"
  shows "sorted_list_of_set (scc g k) \<noteq> []" and "hd (sorted_list_of_set (scc g k)) \<in> scc g k"
    and "m \<in> scc g k \<Longrightarrow> hd (sorted_list_of_set (scc g k)) \<le> m"
proof -
  have ne: "scc g k \<noteq> {}" using scc_self by blast
  then show nil: "sorted_list_of_set (scc g k) \<noteq> []" using assms by simp
  then show "hd (sorted_list_of_set (scc g k)) \<in> scc g k"
    using hd_in_set[OF nil] assms by simp
  have "sorted (sorted_list_of_set (scc g k))" by simp
  moreover have "m \<in> set (sorted_list_of_set (scc g k))" if "m \<in> scc g k"
    using that assms by simp
  ultimately show "m \<in> scc g k \<Longrightarrow> hd (sorted_list_of_set (scc g k)) \<le> m"
    by (cases "sorted_list_of_set (scc g k)") auto
qed

lemma cyclic_scc: "m \<in> scc g k \<Longrightarrow> k \<in> cyclic_keys g \<Longrightarrow> m \<in> cyclic_keys g"
  by (auto simp: cyclic_keys_def scc_def intro: rtrancl_trancl_trancl trancl_rtrancl_trancl)

text \<open>
  The result of the search, for a graph whose edges start at its nodes: nothing where no key
  lies on a cycle, and otherwise the sorted members of the strongly connected component of the
  least key on a cycle.
\<close>

lemma firstCycleComponent_eq:
  assumes nodes: "fst ` set (gParents g) \<subseteq> set (gNodes g)"
  shows "firstCycleComponent g =
    (if cyclic_keys g = {} then [] else sorted_list_of_set (scc g (Min (cyclic_keys g))))"
proof -
  let ?s = "visitNodes g (gNodes g) tarjan_init"
  have "tjStack tarjan_init = []" by (simp add: tarjan_init_def)
  from visitNodes_correct[OF tarjan_inv_init this, of g "gNodes g"] obtain b
    where inv: "tarjan_inv g b ?s" and st: "tjStack ?s = []"
      and all: "\<And>k. k \<in> set (gNodes g) \<Longrightarrow> tjIndices ?s k \<noteq> 0" by blast
  note d = tarjan_invD[OF inv]
  have cyc_nodes: "cyclic_keys g \<subseteq> set (gNodes g)"
  proof
    fix k assume "k \<in> cyclic_keys g"
    then obtain y where "(k, y) \<in> dep_rel g" by (auto simp: cyclic_keys_def dest: tranclD)
    then show "k \<in> set (gNodes g)" using dep_rel_source nodes by blast
  qed
  then have fin: "finite (cyclic_keys g)" by (rule finite_subset) simp
  have comps: "k \<in> cyclic_keys g \<Longrightarrow> sorted_list_of_set (scc g k) \<in> set (tjComponents ?s)" for k
    using d(12)[of k] all[of k] cyc_nodes by (auto simp: popped_def st)
  show ?thesis
  proof (cases "sort_key hd (tjComponents ?s)")
    case Nil
    then have "tjComponents ?s = []" by (metis length_0_conv length_sort)
    then have "cyclic_keys g = {}" using comps by auto
    with Nil show ?thesis by (simp add: firstCycleComponent_def)
  next
    case (Cons c cs)
    have setc: "set (c # cs) = set (tjComponents ?s)" by (metis Cons set_sort)
    then have "c \<in> set (tjComponents ?s)" by auto
    with d(11) obtain k where k: "k \<in> cyclic_keys g" "c = sorted_list_of_set (scc g k)"
      "finite (scc g k)" by blast
    have "sorted (map hd (c # cs))" by (metis Cons sorted_sort_key)
    then have least: "c' \<in> set (tjComponents ?s) \<Longrightarrow> hd c \<le> hd c'" for c'
      using setc by auto
    have hc: "hd c \<in> cyclic_keys g" "scc g (hd c) = scc g k"
      using sorted_scc_head(2)[OF k(3)] cyclic_scc[OF _ k(1)] scc_eq k(2) by auto
    have "hd c \<le> m" if m: "m \<in> cyclic_keys g" for m
    proof -
      have "finite (scc g m)"
        using comps[OF m] d(11)[OF comps[OF m]]
        by (metis cyclic_scc cyc_nodes m List.finite_set finite_subset subsetI subsetD)
      then have "hd (sorted_list_of_set (scc g m)) \<le> m" by (rule sorted_scc_head(3)) simp
      with least[OF comps[OF m]] show ?thesis by (rule order_trans)
    qed
    with hc(1) fin have "Min (cyclic_keys g) = hd c" by (intro Min_eqI) auto
    with hc k Cons show ?thesis by (auto simp: firstCycleComponent_def)
  qed
qed

lemma firstCycleComponent_Nil_iff:
  assumes "fst ` set (gParents g) \<subseteq> set (gNodes g)"
  shows "firstCycleComponent g = [] \<longleftrightarrow> acyclic (dep_rel g)"
proof -
  have "cyclic_keys g \<subseteq> fst ` set (gParents g)"
    using dep_rel_source by (auto simp: cyclic_keys_def dest!: tranclD)
  then have fin: "finite (cyclic_keys g)" by (rule finite_subset) simp
  have "finite (scc g k)" if "k \<in> cyclic_keys g" for k
    by (rule finite_subset[OF _ fin]) (use cyclic_scc that in blast)
  then have "cyclic_keys g \<noteq> {} \<Longrightarrow> sorted_list_of_set (scc g (Min (cyclic_keys g))) \<noteq> []"
    using sorted_scc_head(1) Min_in[OF fin] by blast
  then show ?thesis
    unfolding firstCycleComponent_eq[OF assms] by (auto simp: acyclic_def cyclic_keys_def)
qed

end
