(* ===== verification/Planner_Graph.thy ===== *)
theory Planner_Graph
  imports Dependency_Cycles "HOL-Library.Multiset"
begin

text \<open>
  The construction and validation of the dependency graph (\<open>newPlannerGraph\<close> of
  \<open>migrations/planner_graph.go\<close>), and the graph's queries: history consistency, roots and
  leaves of an app. \<open>planner_graph_wf\<close> is the invariant of every graph the constructor
  returns; \<open>graph_definable\<close> states when it returns one.
\<close>

section \<open>The constructor\<close>

record planner_definition =
  pdKey :: migration_key
  pdDependencies :: "migration_key list"

definition emptyPlannerGraph :: planner_graph where
  "emptyPlannerGraph = \<lparr>gNodes = [], gParents = [], gChildren = []\<rparr>"

definition planner_definitions :: "migration list \<Rightarrow> planner_definition list" where
  "planner_definitions migrations =
     map (\<lambda>m. \<lparr>pdKey = migration_Key m, pdDependencies = migDependencies m\<rparr>) migrations"

text \<open>The edges of one definition that satisfy a test, and the edges it repeats.\<close>

definition edges_where :: "(migration_key \<Rightarrow> bool) \<Rightarrow> planner_definition \<Rightarrow> dependency_edge list" where
  "edges_where P d = map (DependencyEdge (pdKey d)) (filter P (pdDependencies d))"

definition edges_repeated :: "planner_definition \<Rightarrow> dependency_edge list" where
  "edges_repeated d = map (DependencyEdge (pdKey d)) (adjacent_repeats (pdDependencies d))"

definition edge_error :: "error_code \<Rightarrow> dependency_edge list \<Rightarrow> go_error" where
  "edge_error code edges =
     (let edge = hd (sortDependencyEdges edges) in
      newPlanningError CategoryGraph code (eChild edge) (eParent edge) [])"

text \<open>The loop body that adds a definition to the three collections of the graph.\<close>

definition add_child :: "migration_key \<Rightarrow> (migration_key \<times> migration_key list) list
    \<Rightarrow> migration_key \<Rightarrow> (migration_key \<times> migration_key list) list" where
  "add_child child m parent = map_set parent (slice_at m parent @ [child]) m"

definition add_definition :: "planner_graph \<Rightarrow> planner_definition \<Rightarrow> planner_graph" where
  "add_definition g d =
     \<lparr>gNodes = gNodes g @ [pdKey d],
      gParents = map_set (pdKey d) (pdDependencies d) (gParents g),
      gChildren = foldl (add_child (pdKey d)) (gChildren g) (pdDependencies d)\<rparr>"

text \<open>The loop body that sorts the parents and children of a node in place.\<close>

definition sort_slice :: "(migration_key \<times> migration_key list) list \<Rightarrow> migration_key
    \<Rightarrow> (migration_key \<times> migration_key list) list" where
  "sort_slice m key = (case map_of m key of None \<Rightarrow> m | Some ks \<Rightarrow> map_set key (sortMigrationKeys ks) m)"

definition sort_edges_of :: "planner_graph \<Rightarrow> migration_key \<Rightarrow> planner_graph" where
  "sort_edges_of g key =
     g\<lparr>gParents := sort_slice (gParents g) key, gChildren := sort_slice (gChildren g) key\<rparr>"

definition newPlannerGraph :: "migration list \<Rightarrow> go_error + planner_graph" where
  "newPlannerGraph migrations =
     (let definitions = planner_definitions migrations;
          invalidNodes = filter (\<lambda>key. \<not> validMigrationKey key) (map pdKey definitions) in
      if invalidNodes \<noteq> []
      then Inl (newPlanningError CategoryGraph CodeInvalidNode
                  (hd (sortMigrationKeys invalidNodes)) zeroKey [])
      else
      let definitions = sort_key pdKey definitions in
      case first_adjacent (map pdKey definitions) of
        Some key \<Rightarrow> Inl (newPlanningError CategoryGraph CodeDuplicateNode key zeroKey [])
      | None \<Rightarrow>
      let definitions = map (\<lambda>d. d\<lparr>pdDependencies := sortMigrationKeys (pdDependencies d)\<rparr>) definitions;
          invalidEdges = concat (map (edges_where (\<lambda>key. \<not> validMigrationKey key)) definitions);
          duplicateEdges = concat (map edges_repeated definitions) in
      if invalidEdges \<noteq> [] then Inl (edge_error CodeInvalidDependency invalidEdges)
      else if duplicateEdges \<noteq> [] then Inl (edge_error CodeDuplicateDependency duplicateEdges)
      else
      let nodeSet = map pdKey definitions;
          missingEdges = concat (map (edges_where (\<lambda>key. key \<notin> set nodeSet)) definitions) in
      if missingEdges \<noteq> [] then Inl (edge_error CodeDependencyNotFound missingEdges)
      else
      let graph = foldl add_definition emptyPlannerGraph definitions;
          graph = foldl sort_edges_of graph (gNodes graph);
          members = firstCycleComponent graph in
      if members \<noteq> []
      then Inl (newPlanningError CategoryGraph CodeDependencyCycle zeroKey zeroKey members)
      else Inr graph)"

section \<open>Queries\<close>

definition contains :: "planner_graph \<Rightarrow> migration_key \<Rightarrow> bool" where
  "contains g key \<longleftrightarrow> map_of (gParents g) key \<noteq> None"

definition validateAppliedHistory :: "planner_graph \<Rightarrow> migration_key list \<Rightarrow> go_error option" where
  "validateAppliedHistory g applied =
     check_all (\<lambda>child.
       if child \<notin> set applied then None
       else check_all (\<lambda>parent.
              if parent \<notin> set applied
              then Some (newPlanningError CategoryHistory CodeInconsistentAppliedHistory child parent [])
              else None) (parents g child))
     (gNodes g)"

definition appRoots :: "planner_graph \<Rightarrow> string \<Rightarrow> migration_key list" where
  "appRoots g app =
     filter (\<lambda>key. kApp key = app \<and> \<not> list_ex (\<lambda>parent. kApp parent = app) (parents g key))
       (gNodes g)"

definition appLeaves :: "planner_graph \<Rightarrow> migration_key list" where
  "appLeaves g =
     filter (\<lambda>key. \<not> list_ex (\<lambda>child. kApp child = kApp key) (children g key)) (gNodes g)"

definition internalCyclePlanningError :: "migration_key list \<Rightarrow> go_error" where
  "internalCyclePlanningError candidates =
     newPlanningError CategoryGraph CodeDependencyCycle zeroKey zeroKey (sortMigrationKeys candidates)"

section \<open>The invariant of a graph\<close>

definition planner_graph_wf :: "planner_graph \<Rightarrow> bool" where
  "planner_graph_wf g \<longleftrightarrow>
     sorted (gNodes g) \<and> distinct (gNodes g)
     \<and> fst ` set (gParents g) = set (gNodes g)
     \<and> (\<forall>c. set (parents g c) \<subseteq> set (gNodes g))
     \<and> (\<forall>c. sorted (parents g c) \<and> distinct (parents g c))
     \<and> (\<forall>p. sorted (children g p) \<and> distinct (children g p))
     \<and> (\<forall>c p. c \<in> set (children g p) \<longleftrightarrow> p \<in> set (parents g c))
     \<and> acyclic (dep_rel g)"

lemma slice_at_map_set [simp]:
  "slice_at (map_set k v m) k' = (if k' = k then v else slice_at m k')"
  by (simp add: slice_at_def)

lemma slice_at_Nil [simp]: "slice_at [] k = []"
  by (simp add: slice_at_def)

lemma slice_at_sort_slice:
  "slice_at (sort_slice m k) k' = (if k' = k then sort (slice_at m k') else slice_at m k')"
  by (simp add: sort_slice_def slice_at_def sortMigrationKeys_def split: option.splits)

lemma fst_sort_slice [simp]: "fst ` set (sort_slice m k) = fst ` set m"
proof (cases "map_of m k")
  case (Some ks)
  then have "k \<in> fst ` set m" by (auto dest: map_of_SomeD intro: image_eqI[of _ fst "(k, _)"])
  with Some show ?thesis
    unfolding sort_slice_def by (simp flip: set_map add: fst_map_set)
qed (simp add: sort_slice_def)

text \<open>The children slices after a definition has been added.\<close>

lemma foldl_add_child:
  "distinct ps \<Longrightarrow> slice_at (foldl (add_child c) m ps) p = slice_at m p @ (if p \<in> set ps then [c] else [])"
  by (induction ps arbitrary: m) (auto simp: add_child_def)

lemma foldl_add_definition:
  assumes "distinct (map pdKey ds)" and "\<And>d. d \<in> set ds \<Longrightarrow> distinct (pdDependencies d)"
    and "set (gNodes g) \<inter> pdKey ` set ds = {}" and "fst ` set (gParents g) = set (gNodes g)"
  defines "h \<equiv> foldl add_definition g ds"
  shows "gNodes h = gNodes g @ map pdKey ds"
    and "fst ` set (gParents h) = set (gNodes h)"
    and "d \<in> set ds \<Longrightarrow> parents h (pdKey d) = pdDependencies d"
    and "k \<notin> pdKey ` set ds \<Longrightarrow> parents h k = parents g k"
    and "children h p = children g p @ map pdKey (filter (\<lambda>d. p \<in> set (pdDependencies d)) ds)"
proof -
  have "gNodes h = gNodes g @ map pdKey ds \<and> fst ` set (gParents h) = set (gNodes h)
    \<and> (\<forall>d \<in> set ds. parents h (pdKey d) = pdDependencies d)
    \<and> (\<forall>k. k \<notin> pdKey ` set ds \<longrightarrow> parents h k = parents g k)
    \<and> (\<forall>p. children h p = children g p @ map pdKey (filter (\<lambda>d. p \<in> set (pdDependencies d)) ds))"
    unfolding h_def using assms(1-4)
  proof (induction ds arbitrary: g)
    case Nil
    then show ?case by simp
  next
    case (Cons d ds)
    let ?g = "add_definition g d"
    have nodes: "gNodes ?g = gNodes g @ [pdKey d]" by (simp add: add_definition_def)
    have "pdKey d \<notin> fst ` set (gParents g)" using Cons.prems(3,4) by auto
    then have "fst ` set (gParents ?g) = set (gNodes ?g)"
      using Cons.prems(4) by (simp flip: set_map add: add_definition_def fst_map_set)
    moreover have "set (gNodes ?g) \<inter> pdKey ` set ds = {}"
      using Cons.prems(1,3) by (auto simp: nodes)
    ultimately have IH: "gNodes (foldl add_definition ?g ds) = gNodes ?g @ map pdKey ds"
      "fst ` set (gParents (foldl add_definition ?g ds)) = set (gNodes (foldl add_definition ?g ds))"
      "\<forall>d \<in> set ds. parents (foldl add_definition ?g ds) (pdKey d) = pdDependencies d"
      "\<forall>k. k \<notin> pdKey ` set ds \<longrightarrow> parents (foldl add_definition ?g ds) k = parents ?g k"
      "\<forall>p. children (foldl add_definition ?g ds) p
         = children ?g p @ map pdKey (filter (\<lambda>d. p \<in> set (pdDependencies d)) ds)"
      using Cons.IH[of ?g] Cons.prems by auto
    have "distinct (pdDependencies d)" using Cons.prems(2) by simp
    then have ch: "children ?g p = children g p @ (if p \<in> set (pdDependencies d) then [pdKey d] else [])" for p
      by (simp add: add_definition_def foldl_add_child)
    have pa: "parents ?g k = (if k = pdKey d then pdDependencies d else parents g k)" for k
      by (simp add: add_definition_def)
    have "pdKey d \<notin> pdKey ` set ds" using Cons.prems(1) by simp
    then show ?case using IH by (auto simp: nodes ch pa)
  qed
  then show "gNodes h = gNodes g @ map pdKey ds" "fst ` set (gParents h) = set (gNodes h)"
    "d \<in> set ds \<Longrightarrow> parents h (pdKey d) = pdDependencies d"
    "k \<notin> pdKey ` set ds \<Longrightarrow> parents h k = parents g k"
    "children h p = children g p @ map pdKey (filter (\<lambda>d. p \<in> set (pdDependencies d)) ds)"
    by auto
qed

lemma foldl_sort_edges_of:
  fixes g :: planner_graph
  assumes "distinct ks"
  defines "h \<equiv> foldl sort_edges_of g ks"
  shows "gNodes h = gNodes g"
    and "fst ` set (gParents h) = fst ` set (gParents g)"
    and "parents h k = (if k \<in> set ks then sort (parents g k) else parents g k)"
    and "children h k = (if k \<in> set ks then sort (children g k) else children g k)"
proof -
  have "gNodes h = gNodes g \<and> fst ` set (gParents h) = fst ` set (gParents g)
    \<and> (\<forall>k. parents h k = (if k \<in> set ks then sort (parents g k) else parents g k))
    \<and> (\<forall>k. children h k = (if k \<in> set ks then sort (children g k) else children g k))"
    unfolding h_def using assms(1)
    by (induction ks arbitrary: g) (auto simp: sort_edges_of_def slice_at_sort_slice)
  then show "gNodes h = gNodes g" "fst ` set (gParents h) = fst ` set (gParents g)"
    "parents h k = (if k \<in> set ks then sort (parents g k) else parents g k)"
    "children h k = (if k \<in> set ks then sort (children g k) else children g k)"
    by auto
qed

section \<open>Correctness of the constructor\<close>

text \<open>
  The definitions a graph can be built of: valid and distinct identities, valid, distinct and
  known dependencies, and no cycle among them.
\<close>

definition declared_dependencies :: "migration list \<Rightarrow> (migration_key \<times> migration_key) set" where
  "declared_dependencies ms = {(migration_Key m, p) | m p. m \<in> set ms \<and> p \<in> set (migDependencies m)}"

definition edges_definable :: "migration list \<Rightarrow> bool" where
  "edges_definable ms \<longleftrightarrow>
     (\<forall>m \<in> set ms. validMigrationKey (migration_Key m))
     \<and> distinct (map migration_Key ms)
     \<and> (\<forall>m \<in> set ms. distinct (migDependencies m)
          \<and> (\<forall>p \<in> set (migDependencies m). validMigrationKey p \<and> p \<in> migration_Key ` set ms))"

definition graph_definable :: "migration list \<Rightarrow> bool" where
  "graph_definable ms \<longleftrightarrow> edges_definable ms \<and> acyclic (declared_dependencies ms)"

definition sorted_definitions :: "migration list \<Rightarrow> planner_definition list" where
  "sorted_definitions ms =
     map (\<lambda>d. d\<lparr>pdDependencies := sortMigrationKeys (pdDependencies d)\<rparr>)
       (sort_key pdKey (planner_definitions ms))"

definition built_graph :: "migration list \<Rightarrow> planner_graph" where
  "built_graph ms =
     (let g = foldl add_definition emptyPlannerGraph (sorted_definitions ms) in
      foldl sort_edges_of g (gNodes g))"

lemma map_sort_key: "map f (sort_key f xs) = sort (map f xs)"
  by (rule properties_for_sort [symmetric]) simp_all

lemma keys_sorted_definitions: "map pdKey (sorted_definitions ms) = sort (map migration_Key ms)"
proof -
  have "map pdKey (sorted_definitions ms) = map pdKey (sort_key pdKey (planner_definitions ms))"
    by (simp add: sorted_definitions_def)
  also have "\<dots> = sort (map pdKey (planner_definitions ms))" by (rule map_sort_key)
  finally show ?thesis by (simp add: planner_definitions_def comp_def)
qed

lemma set_sorted_definitions:
  "set (sorted_definitions ms) =
     (\<lambda>m. \<lparr>pdKey = migration_Key m, pdDependencies = sort (migDependencies m)\<rparr>) ` set ms"
  by (auto simp: sorted_definitions_def planner_definitions_def sortMigrationKeys_def image_iff)

lemma built_graph_facts:
  assumes def: "edges_definable ms"
  shows "gNodes (built_graph ms) = sort (map migration_Key ms)"
    and "fst ` set (gParents (built_graph ms)) = migration_Key ` set ms"
    and "m \<in> set ms \<Longrightarrow> parents (built_graph ms) (migration_Key m) = sort (migDependencies m)"
    and "k \<notin> migration_Key ` set ms \<Longrightarrow> parents (built_graph ms) k = []"
    and "p \<in> migration_Key ` set ms \<Longrightarrow> sorted (children (built_graph ms) p)"
    and "distinct (children (built_graph ms) p)"
    and "c \<in> set (children (built_graph ms) p) \<longleftrightarrow>
          (\<exists>m \<in> set ms. c = migration_Key m \<and> p \<in> set (migDependencies m))"
proof -
  let ?ds = "sorted_definitions ms"
  let ?h = "foldl add_definition emptyPlannerGraph ?ds"
  have keys: "pdKey ` set ?ds = migration_Key ` set ms"
    by (metis keys_sorted_definitions set_map set_sort)
  have d: "distinct (map pdKey ?ds)"
    using def by (simp add: keys_sorted_definitions edges_definable_def)
  have dd: "d \<in> set ?ds \<Longrightarrow> distinct (pdDependencies d)" for d
    using def by (auto simp: set_sorted_definitions edges_definable_def)
  have "set (gNodes emptyPlannerGraph) \<inter> pdKey ` set ?ds = {}"
    "fst ` set (gParents emptyPlannerGraph) = set (gNodes emptyPlannerGraph)"
    by (simp_all add: emptyPlannerGraph_def)
  note h = foldl_add_definition[OF d dd this]
  have nodes: "gNodes ?h = sort (map migration_Key ms)"
    using h(1) by (simp add: emptyPlannerGraph_def keys_sorted_definitions)
  then have nset: "set (gNodes ?h) = migration_Key ` set ms" by simp
  have dn: "distinct (gNodes ?h)" using def by (simp add: nodes edges_definable_def)
  note s = foldl_sort_edges_of[OF dn, of ?h]
  have b: "built_graph ms = foldl sort_edges_of ?h (gNodes ?h)"
    by (simp add: built_graph_def Let_def)
  show "gNodes (built_graph ms) = sort (map migration_Key ms)" using s(1) by (simp only: b nodes)
  show "fst ` set (gParents (built_graph ms)) = migration_Key ` set ms"
    using h(2) by (simp add: b s(2) nset)
  show "parents (built_graph ms) (migration_Key m) = sort (migDependencies m)"
    if m: "m \<in> set ms" for m
  proof -
    let ?d = "\<lparr>pdKey = migration_Key m, pdDependencies = sort (migDependencies m)\<rparr>"
    have "parents ?h (pdKey ?d) = pdDependencies ?d"
      by (rule h(3)) (use m in \<open>simp_all add: set_sorted_definitions\<close>)
    then show ?thesis using m by (simp add: b s(3) nset sorted_sort_id)
  qed
  show "parents (built_graph ms) k = []" if "k \<notin> migration_Key ` set ms" for k
  proof -
    have "parents emptyPlannerGraph k = []" by (simp add: emptyPlannerGraph_def)
    with h(4)[of k] that keys show ?thesis by (simp add: b s(3) nset)
  qed
  have ch: "children ?h p = map pdKey (filter (\<lambda>d. p \<in> set (pdDependencies d)) ?ds)" for p
    using h(5)[of p] by (simp add: emptyPlannerGraph_def)
  have dch: "distinct (children ?h p)" for p
    unfolding ch using d by (auto simp: distinct_map intro: inj_on_subset)
  show "sorted (children (built_graph ms) p)" if "p \<in> migration_Key ` set ms" for p
    using that by (simp add: b s(4) nset)
  show "distinct (children (built_graph ms) p)" for p
    using dch by (simp add: b s(4))
  show "c \<in> set (children (built_graph ms) p) \<longleftrightarrow>
      (\<exists>m \<in> set ms. c = migration_Key m \<and> p \<in> set (migDependencies m))" for c p
  proof -
    have "set (children (built_graph ms) p) = set (children ?h p)" by (simp add: b s(4))
    then have "c \<in> set (children (built_graph ms) p) \<longleftrightarrow>
        (\<exists>d \<in> set ?ds. c = pdKey d \<and> p \<in> set (pdDependencies d))"
      unfolding ch by auto
    then show ?thesis by (simp add: set_sorted_definitions)
  qed
qed

lemma dep_rel_built:
  assumes def: "edges_definable ms"
  shows "dep_rel (built_graph ms) = declared_dependencies ms"
proof -
  have "p \<in> set (parents (built_graph ms) c) \<longleftrightarrow> (c, p) \<in> declared_dependencies ms" for c p
  proof (cases "c \<in> migration_Key ` set ms")
    case True
    then obtain m where m: "m \<in> set ms" "c = migration_Key m" by auto
    have "m' = m" if "m' \<in> set ms" "migration_Key m' = c" for m'
      using def m that by (auto simp: edges_definable_def distinct_map dest: inj_onD)
    with m have "(c, p) \<in> declared_dependencies ms \<longleftrightarrow> p \<in> set (migDependencies m)"
      unfolding declared_dependencies_def by blast
    moreover have "parents (built_graph ms) c = sort (migDependencies m)"
      unfolding m(2) by (rule built_graph_facts(3)[OF def m(1)])
    ultimately show ?thesis by simp
  next
    case False
    then show ?thesis
      using built_graph_facts(4)[OF def False] by (auto simp: declared_dependencies_def)
  qed
  then show ?thesis by (auto simp: dep_rel_iff)
qed

lemma built_graph_wf:
  assumes "graph_definable ms"
  shows "planner_graph_wf (built_graph ms)"
proof -
  have def: "edges_definable ms" using assms by (simp add: graph_definable_def)
  note b = built_graph_facts[OF def]
  have par: "parents (built_graph ms) c = [] \<or>
      (\<exists>m \<in> set ms. c = migration_Key m \<and> parents (built_graph ms) c = sort (migDependencies m))" for c
  proof (cases "c \<in> migration_Key ` set ms")
    case True
    then obtain m where "m \<in> set ms" "c = migration_Key m" by auto
    with b(3)[of m] show ?thesis by auto
  qed (simp add: b(4))
  have sub: "set (parents (built_graph ms) c) \<subseteq> migration_Key ` set ms"
    and sor: "sorted (parents (built_graph ms) c) \<and> distinct (parents (built_graph ms) c)" for c
    using par[of c] def by (auto simp: edges_definable_def)
  have edge: "c \<in> set (children (built_graph ms) p) \<longleftrightarrow> p \<in> set (parents (built_graph ms) c)" for c p
  proof -
    have "p \<in> set (parents (built_graph ms) c) \<longleftrightarrow> (c, p) \<in> declared_dependencies ms"
      unfolding dep_rel_built[OF def, symmetric] dep_rel_iff ..
    moreover have "(c, p) \<in> declared_dependencies ms \<longleftrightarrow>
        (\<exists>m \<in> set ms. c = migration_Key m \<and> p \<in> set (migDependencies m))"
      unfolding declared_dependencies_def by blast
    ultimately show ?thesis unfolding b(7) by simp
  qed
  have "sorted (children (built_graph ms) p)" for p
  proof (cases "p \<in> migration_Key ` set ms")
    case False
    have "c \<notin> set (children (built_graph ms) p)" for c
      using edge[of c p] sub[of c] False by blast
    then have "children (built_graph ms) p = []"
      by (metis list.set_intros(1) neq_Nil_conv)
    then show ?thesis by simp
  qed (rule b(5))
  note sch = this
  show ?thesis
    unfolding planner_graph_wf_def
  proof (intro conjI allI)
    show "sorted (gNodes (built_graph ms))" by (simp add: b(1))
    show "distinct (gNodes (built_graph ms))" using def by (simp add: b(1) edges_definable_def)
    show "fst ` set (gParents (built_graph ms)) = set (gNodes (built_graph ms))"
      unfolding b(1,2) by simp
    show "set (parents (built_graph ms) c) \<subseteq> set (gNodes (built_graph ms))" for c
      using sub by (simp add: b(1))
    show "sorted (parents (built_graph ms) c)" "distinct (parents (built_graph ms) c)" for c
      using sor by blast+
    show "sorted (children (built_graph ms) p)" for p by (rule sch)
    show "distinct (children (built_graph ms) p)" for p by (rule b(6))
    show "c \<in> set (children (built_graph ms) p) \<longleftrightarrow> p \<in> set (parents (built_graph ms) c)" for c p
      by (rule edge)
    show "acyclic (dep_rel (built_graph ms))"
      unfolding dep_rel_built[OF def] using assms by (simp add: graph_definable_def)
  qed
qed

lemma concat_edges_Nil:
  "concat (map (edges_where P) ds) = [] \<longleftrightarrow> (\<forall>d \<in> set ds. \<forall>p \<in> set (pdDependencies d). \<not> P p)"
  by (auto simp: edges_where_def filter_empty_conv)

lemma concat_repeated_Nil:
  "(\<And>d. d \<in> set ds \<Longrightarrow> sorted (pdDependencies d)) \<Longrightarrow>
     concat (map edges_repeated ds) = [] \<longleftrightarrow> (\<forall>d \<in> set ds. distinct (pdDependencies d))"
  by (auto simp: edges_repeated_def adjacent_repeats_Nil)

lemma if_nonempty_Inl: "(if xs \<noteq> [] then Inl e else r) = Inr z \<longleftrightarrow> xs = [] \<and> r = Inr z"
  by simp

lemma newPlannerGraph_Inr_iff:
  "newPlannerGraph ms = Inr g \<longleftrightarrow> graph_definable ms \<and> g = built_graph ms"
proof -
  let ?ds = "sorted_definitions ms"
  have eq: "newPlannerGraph ms = Inr g \<longleftrightarrow>
     filter (\<lambda>key. \<not> validMigrationKey key) (map migration_Key ms) = []
     \<and> first_adjacent (sort (map migration_Key ms)) = None
     \<and> concat (map (edges_where (\<lambda>key. \<not> validMigrationKey key)) ?ds) = []
     \<and> concat (map edges_repeated ?ds) = []
     \<and> concat (map (edges_where (\<lambda>key. key \<notin> set (sort (map migration_Key ms)))) ?ds) = []
     \<and> firstCycleComponent (built_graph ms) = [] \<and> built_graph ms = g"
    unfolding newPlannerGraph_def Let_def inr_simps if_nonempty_Inl built_graph_def
      keys_sorted_definitions[symmetric] sorted_definitions_def[symmetric]
    by (simp add: planner_definitions_def comp_def sorted_definitions_def)
  have sd: "d \<in> set ?ds \<Longrightarrow> sorted (pdDependencies d)" for d
    by (auto simp: set_sorted_definitions)
  have rep: "concat (map edges_repeated ?ds) = [] \<longleftrightarrow> (\<forall>d \<in> set ?ds. distinct (pdDependencies d))"
    by (rule concat_repeated_Nil) (rule sd)
  have ed: "edges_definable ms \<longleftrightarrow>
     filter (\<lambda>key. \<not> validMigrationKey key) (map migration_Key ms) = []
     \<and> first_adjacent (sort (map migration_Key ms)) = None
     \<and> concat (map (edges_where (\<lambda>key. \<not> validMigrationKey key)) ?ds) = []
     \<and> concat (map edges_repeated ?ds) = []
     \<and> concat (map (edges_where (\<lambda>key. key \<notin> set (sort (map migration_Key ms)))) ?ds) = []"
    unfolding concat_edges_Nil rep edges_definable_def
    by (auto simp: first_adjacent_None set_sorted_definitions filter_empty_conv)
  have "edges_definable ms \<Longrightarrow>
      firstCycleComponent (built_graph ms) = [] \<longleftrightarrow> acyclic (declared_dependencies ms)"
    using firstCycleComponent_Nil_iff[of "built_graph ms"] built_graph_facts(1,2)
    by (simp add: dep_rel_built)
  with eq ed show ?thesis by (auto simp: graph_definable_def)
qed

text \<open>The only error left when the identities and the dependencies are in order.\<close>

lemma newPlannerGraph_cycle:
  assumes "edges_definable ms"
  shows "newPlannerGraph ms =
    (if firstCycleComponent (built_graph ms) \<noteq> []
     then Inl (newPlanningError CategoryGraph CodeDependencyCycle zeroKey zeroKey
                 (firstCycleComponent (built_graph ms)))
     else Inr (built_graph ms))"
proof -
  let ?ds = "sorted_definitions ms"
  have sd: "d \<in> set ?ds \<Longrightarrow> sorted (pdDependencies d)" for d
    by (auto simp: set_sorted_definitions)
  have "filter (\<lambda>key. \<not> validMigrationKey key) (map pdKey (planner_definitions ms)) = []"
    "first_adjacent (map pdKey (sort_key pdKey (planner_definitions ms))) = None"
    using assms by (auto simp: edges_definable_def planner_definitions_def map_sort_key comp_def
        first_adjacent_None filter_empty_conv)
  moreover have "concat (map (edges_where (\<lambda>key. \<not> validMigrationKey key)) ?ds) = []"
    "concat (map (edges_where (\<lambda>key. key \<notin> set (map pdKey ?ds))) ?ds) = []"
    unfolding concat_edges_Nil keys_sorted_definitions
    using assms by (auto simp: edges_definable_def set_sorted_definitions)
  moreover have "concat (map edges_repeated ?ds) = []"
    by (subst concat_repeated_Nil) (use assms sd in \<open>auto simp: edges_definable_def set_sorted_definitions\<close>)
  ultimately show ?thesis
    unfolding newPlannerGraph_def built_graph_def Let_def sorted_definitions_def[symmetric]
    by (simp only: if_False option.simps not_True_eq_False simp_thms if_cancel)
qed

end
