(* ===== verification/Planner.thy ===== *)
theory Planner
  imports Planner_Graph
begin

text \<open>
  The planner (\<open>migrations/planner.go\<close>, with \<open>planForward\<close> and \<open>planBackward\<close> of
  \<open>migrations/planner_graph.go\<close>), and its specification: a plan is a schedule that respects
  the dependencies at every step and takes the applied set to the one the targets describe.
  The maps \<open>applied\<close> and \<open>candidates\<close>, which the code passes by reference and updates, are
  lists of keys that the functions take and return.
\<close>

section \<open>Searching the graph with a stack\<close>

text \<open>
  Both searches below push the neighbours of a node when they first mark it. They end because
  a node is marked once, and the stack shrinks otherwise.
\<close>

lemma search_expand:
  assumes "finite U" and "set new \<subseteq> U" and "k \<notin> C"
  shows "card (U \<union> (set new \<union> set stack) - insert k C) < card (insert k (U \<union> set stack) - C)"
  by (rule psubset_card_mono) (use assms in auto)

lemma search_pop:
  assumes "finite U"
  shows "card (U \<union> set stack - C) \<le> card (insert k (U \<union> set stack) - C)"
  by (rule card_mono) (use assms in auto)

section \<open>Forward plans\<close>

function collectForward :: "planner_graph \<Rightarrow> migration_key list \<Rightarrow> migration_key list
    \<Rightarrow> migration_key list \<Rightarrow> migration_key list" where
  "collectForward g applied candidates [] = candidates"
| "collectForward g applied candidates (key # stack) =
     (if key \<in> set applied then collectForward g applied candidates stack
      else if key \<in> set candidates then collectForward g applied candidates stack
      else collectForward g applied (key # candidates) (rev (parents g key) @ stack))"
  by pat_completeness auto

termination
proof (relation "measures [\<lambda>(g, applied, candidates, stack).
        card ((tarjan_universe g \<union> set stack) - set candidates),
      \<lambda>(g, applied, candidates, stack). length stack]")
qed (use search_expand[OF finite_tarjan_universe parents_universe]
      search_pop[OF finite_tarjan_universe] in \<open>auto simp: le_less [symmetric] less_le\<close>)

definition firstForwardReady :: "planner_graph \<Rightarrow> migration_key list \<Rightarrow> migration_key list
    \<Rightarrow> migration_key option" where
  "firstForwardReady g candidates applied =
     find (\<lambda>key. key \<in> set candidates \<and> list_all (\<lambda>parent. parent \<in> set applied) (parents g key))
       (gNodes g)"

lemma firstForwardReady_mem:
  "firstForwardReady g candidates applied = Some key \<Longrightarrow> key \<in> set candidates"
  by (auto simp: firstForwardReady_def dest: find_Some_key)

text \<open>The loop that empties the candidates, and the applied set it leaves.\<close>

function drainForward :: "planner_graph \<Rightarrow> migration_key list \<Rightarrow> migration_key list
    \<Rightarrow> go_error + plan_step list \<times> migration_key list" where
  "drainForward g candidates applied =
     (if candidates = [] then Inr ([], applied)
      else case firstForwardReady g candidates applied of
             None \<Rightarrow> Inl (internalCyclePlanningError candidates)
           | Some key \<Rightarrow>
               (case drainForward g (removeAll key candidates) (List.insert key applied) of
                  Inl e \<Rightarrow> Inl e
                | Inr (steps, applied') \<Rightarrow>
                    Inr (\<lparr>psKey = key, psDirection = DirectionForward\<rparr> # steps, applied')))"
  by pat_completeness auto
termination
  by (relation "measure (\<lambda>(g, candidates, applied). length candidates)")
    (auto dest: firstForwardReady_mem intro: length_removeAll_less)

declare drainForward.simps [simp del]

definition planForward :: "planner_graph \<Rightarrow> migration_key \<Rightarrow> migration_key list
    \<Rightarrow> go_error + plan_step list \<times> migration_key list" where
  "planForward g target applied =
     drainForward g (collectForward g applied [] [target]) applied"

section \<open>Backward plans\<close>

definition children_universe :: "planner_graph \<Rightarrow> migration_key set" where
  "children_universe g = \<Union> ((set \<circ> snd) ` set (gChildren g))"

lemma finite_children_universe [simp]: "finite (children_universe g)"
  by (simp add: children_universe_def)

lemma children_universe_sub: "set (children g k) \<subseteq> children_universe g"
  unfolding children_universe_def using slice_at_subset by blast

function collectBackward :: "planner_graph \<Rightarrow> migration_key list \<Rightarrow> migration_key list
    \<Rightarrow> migration_key list \<Rightarrow> migration_key list \<Rightarrow> migration_key list" where
  "collectBackward g applied visited candidates [] = candidates"
| "collectBackward g applied visited candidates (key # stack) =
     (if key \<in> set visited then collectBackward g applied visited candidates stack
      else collectBackward g applied (key # visited)
             (if key \<in> set applied then key # candidates else candidates)
             (rev (children g key) @ stack))"
  by pat_completeness auto
termination
proof (relation "measures [\<lambda>(g, applied, visited, candidates, stack).
        card ((children_universe g \<union> set stack) - set visited),
      \<lambda>(g, applied, visited, candidates, stack). length stack]")
qed (use search_expand[OF finite_children_universe children_universe_sub]
      search_pop[OF finite_children_universe] in \<open>auto simp: le_less [symmetric] less_le\<close>)

definition firstBackwardReady :: "planner_graph \<Rightarrow> migration_key list \<Rightarrow> migration_key option" where
  "firstBackwardReady g candidates =
     find (\<lambda>key. key \<in> set candidates \<and> \<not> list_ex (\<lambda>child. child \<in> set candidates) (children g key))
       (gNodes g)"

lemma firstBackwardReady_mem:
  "firstBackwardReady g candidates = Some key \<Longrightarrow> key \<in> set candidates"
  by (auto simp: firstBackwardReady_def dest: find_Some_key)

function drainBackward :: "planner_graph \<Rightarrow> migration_key list \<Rightarrow> migration_key list
    \<Rightarrow> go_error + plan_step list \<times> migration_key list" where
  "drainBackward g candidates applied =
     (if candidates = [] then Inr ([], applied)
      else case firstBackwardReady g candidates of
             None \<Rightarrow> Inl (internalCyclePlanningError candidates)
           | Some key \<Rightarrow>
               (case drainBackward g (removeAll key candidates) (removeAll key applied) of
                  Inl e \<Rightarrow> Inl e
                | Inr (steps, applied') \<Rightarrow>
                    Inr (\<lparr>psKey = key, psDirection = DirectionBackward\<rparr> # steps, applied')))"
  by pat_completeness auto
termination
  by (relation "measure (\<lambda>(g, candidates, applied). length candidates)")
    (auto dest: firstBackwardReady_mem intro: length_removeAll_less)

declare drainBackward.simps [simp del]

definition planBackward :: "planner_graph \<Rightarrow> migration_key \<Rightarrow> migration_key list
    \<Rightarrow> go_error + plan_step list \<times> migration_key list" where
  "planBackward g seed applied =
     drainBackward g (collectBackward g applied [] [] [seed]) applied"

section \<open>The planner\<close>

text \<open>\<open>Planner\<close> holds a pointer to its graph, nil in the zero value.\<close>

record planner =
  plGraph :: "planner_graph option"

definition NewPlanner :: "migration list \<Rightarrow> go_error + planner" where
  "NewPlanner migrations =
     (case newPlannerGraph migrations of
        Inl e \<Rightarrow> Inl e
      | Inr graph \<Rightarrow> Inr \<lparr>plGraph = Some graph\<rparr>)"

definition planner_graph_of :: "planner \<Rightarrow> planner_graph" where
  "planner_graph_of p = (case plGraph p of None \<Rightarrow> emptyPlannerGraph | Some g \<Rightarrow> g)"

definition CheckHistory :: "planner \<Rightarrow> applied_state \<Rightarrow> go_error option" where
  "CheckHistory p applied =
     validateAppliedHistory (planner_graph_of p) (cloneAppliedKeys (asKeys applied))"

text \<open>
  The loop over the seeds of a backward target: one closure after the other, on the set the
  previous one left.
\<close>

fun planBackwardAll :: "planner_graph \<Rightarrow> migration_key list \<Rightarrow> migration_key list
    \<Rightarrow> go_error + plan_step list \<times> migration_key list" where
  "planBackwardAll g [] working = Inr ([], working)"
| "planBackwardAll g (seed # seeds) working =
     (case planBackward g seed working of
        Inl e \<Rightarrow> Inl e
      | Inr (steps, working') \<Rightarrow>
          (case planBackwardAll g seeds working' of
             Inl e \<Rightarrow> Inl e
           | Inr (rest, working'') \<Rightarrow> Inr (steps @ rest, working'')))"

definition planTarget :: "planner_graph \<Rightarrow> target \<Rightarrow> migration_key list
    \<Rightarrow> go_error + plan_step list \<times> migration_key list" where
  "planTarget g target working =
     (case tKind target of
        targetNamed \<Rightarrow>
          if \<not> contains g (tKey target)
          then Inl (newPlanningError CategoryPlan CodeTargetNotFound (tKey target) zeroKey [])
          else if tKey target \<notin> set working
          then planForward g (tKey target) working
          else planBackwardAll g
                 (filter (\<lambda>child. kApp child = kApp (tKey target)) (children g (tKey target))) working
      | targetZero \<Rightarrow> planBackwardAll g (appRoots g (tApp target)) working
      | targetNone \<Rightarrow> Inr ([], working))"

fun planTargets :: "planner_graph \<Rightarrow> target list \<Rightarrow> migration_key list
    \<Rightarrow> go_error + plan_step list \<times> migration_key list" where
  "planTargets g [] working = Inr ([], working)"
| "planTargets g (target # targets) working =
     (case planTarget g target working of
        Inl e \<Rightarrow> Inl e
      | Inr (steps, working') \<Rightarrow>
          (case planTargets g targets working' of
             Inl e \<Rightarrow> Inl e
           | Inr (rest, working'') \<Rightarrow> Inr (steps @ rest, working'')))"

definition Plan :: "planner \<Rightarrow> applied_state \<Rightarrow> target list \<Rightarrow> go_error + plan_step list" where
  "Plan p applied targets =
     (case check_all validateTarget targets of
        Some e \<Rightarrow> Inl e
      | None \<Rightarrow>
          (let graph = planner_graph_of p;
               working = cloneAppliedKeys (asKeys applied) in
           case validateAppliedHistory graph working of
             Some e \<Rightarrow> Inl e
           | None \<Rightarrow> map_sum id fst (planTargets graph targets working)))"

section \<open>What a plan must be\<close>

text \<open>
  A step of a schedule on the set of applied migrations: forward, the migration is known, not
  applied, and everything it depends on is applied; backward, it is applied and nothing applied
  depends on it.
\<close>

definition exec_step :: "planner_graph \<Rightarrow> migration_key set \<Rightarrow> plan_step \<Rightarrow> migration_key set option" where
  "exec_step g A s =
     (case psDirection s of
        DirectionForward \<Rightarrow>
          if psKey s \<in> set (gNodes g) \<and> psKey s \<notin> A \<and> set (parents g (psKey s)) \<subseteq> A
          then Some (insert (psKey s) A) else None
      | DirectionBackward \<Rightarrow>
          if psKey s \<in> A \<and> set (children g (psKey s)) \<inter> A = {}
          then Some (A - {psKey s}) else None
      | DirectionOther _ \<Rightarrow> None)"

fun exec_steps :: "planner_graph \<Rightarrow> migration_key set \<Rightarrow> plan_step list \<Rightarrow> migration_key set option" where
  "exec_steps g A [] = Some A"
| "exec_steps g A (s # ss) =
     (case exec_step g A s of None \<Rightarrow> None | Some A' \<Rightarrow> exec_steps g A' ss)"

lemma exec_steps_append:
  "exec_steps g A (ss @ ts) =
     (case exec_steps g A ss of None \<Rightarrow> None | Some A' \<Rightarrow> exec_steps g A' ts)"
  by (induction ss arbitrary: A) (auto split: option.splits)

text \<open>The applied set is closed under the dependencies the graph knows.\<close>

definition history_consistent :: "planner_graph \<Rightarrow> migration_key set \<Rightarrow> bool" where
  "history_consistent g A \<longleftrightarrow>
     (\<forall>c \<in> A \<inter> set (gNodes g). set (parents g c) \<subseteq> A)"

text \<open>
  What the targets mean: a migration that is not applied is applied with everything it depends
  on; for one that is applied, everything that depends on a child of it in its own app is
  removed; a zero target removes everything that depends on a root of the app.
\<close>

definition dependents :: "planner_graph \<Rightarrow> migration_key \<Rightarrow> migration_key set" where
  "dependents g k = {m. (m, k) \<in> (dep_rel g)\<^sup>*}"

definition requirements :: "planner_graph \<Rightarrow> migration_key \<Rightarrow> migration_key set" where
  "requirements g k = {m. (k, m) \<in> (dep_rel g)\<^sup>*}"

definition target_effect :: "planner_graph \<Rightarrow> migration_key set \<Rightarrow> target \<Rightarrow> migration_key set" where
  "target_effect g A t =
     (case tKind t of
        targetNamed \<Rightarrow>
          if tKey t \<notin> A then A \<union> requirements g (tKey t)
          else A - (\<Union>c \<in> {c \<in> set (children g (tKey t)). kApp c = kApp (tKey t)}. dependents g c)
      | targetZero \<Rightarrow> A - (\<Union>r \<in> set (appRoots g (tApp t)). dependents g r)
      | targetNone \<Rightarrow> A)"

lemma validateAppliedHistory_None_iff:
  "validateAppliedHistory g A = None \<longleftrightarrow> history_consistent g (set A)"
  by (auto simp: validateAppliedHistory_def check_all_None history_consistent_def)

lemma planner_graph_wfD:
  assumes "planner_graph_wf g"
  shows "sorted (gNodes g)" "distinct (gNodes g)" "contains g k \<longleftrightarrow> k \<in> set (gNodes g)"
    and "set (parents g c) \<subseteq> set (gNodes g)"
    and "c \<in> set (children g p) \<longleftrightarrow> p \<in> set (parents g c)"
    and "acyclic (dep_rel g)" "wf (dep_rel g)" "wf ((dep_rel g)\<inverse>)"
    and "(c, p) \<in> dep_rel g \<Longrightarrow> c \<in> set (gNodes g) \<and> p \<in> set (gNodes g)"
proof -
  have nodes: "fst ` set (gParents g) = set (gNodes g)" and ac: "acyclic (dep_rel g)"
    and sub: "set (parents g c) \<subseteq> set (gNodes g)" for c
    using assms by (simp_all add: planner_graph_wf_def)
  show edge: "c \<in> set (gNodes g) \<and> p \<in> set (gNodes g)" if "(c, p) \<in> dep_rel g" for c p
    using dep_rel_source[OF that] sub[of c] that nodes by (auto simp: dep_rel_iff)
  have "dep_rel g \<subseteq> set (gNodes g) \<times> set (gNodes g)" using edge by auto
  then have fin: "finite (dep_rel g)" by (rule finite_subset) simp
  show "wf (dep_rel g)" by (rule finite_acyclic_wf[OF fin ac])
  show "wf ((dep_rel g)\<inverse>)" by (rule finite_acyclic_wf_converse[OF fin ac])
  show "contains g k \<longleftrightarrow> k \<in> set (gNodes g)"
    using nodes by (auto simp: contains_def map_of_eq_None_iff)
qed (use assms in \<open>auto simp: planner_graph_wf_def\<close>)

section \<open>The searches\<close>

text \<open>A graph search invariant: everything the marked keys lead to is marked or on the stack.\<close>

lemma closed_reach:
  assumes "(k, m) \<in> r\<^sup>*" and "k \<in> S" and "\<And>x y. x \<in> S \<Longrightarrow> (x, y) \<in> r \<Longrightarrow> y \<in> S"
  shows "m \<in> S"
  using assms by induction blast+

lemma collectForward_set:
  assumes "\<forall>c \<in> set C. set (parents g c) \<subseteq> set A \<union> set C \<union> set stack"
    and "set C \<inter> set A = {}"
  shows "\<forall>c \<in> set (collectForward g A C stack).
      set (parents g c) \<subseteq> set A \<union> set (collectForward g A C stack)"
    and "set (collectForward g A C stack) \<inter> set A = {}"
    and "set C \<union> set stack \<subseteq> set A \<union> set (collectForward g A C stack)"
    and "set (collectForward g A C stack) \<subseteq> set C \<union> (\<Union>k \<in> set stack. requirements g k)"
proof -
  have "(\<forall>c \<in> set (collectForward g A C stack).
      set (parents g c) \<subseteq> set A \<union> set (collectForward g A C stack))
    \<and> set (collectForward g A C stack) \<inter> set A = {}
    \<and> set C \<union> set stack \<subseteq> set A \<union> set (collectForward g A C stack)
    \<and> set (collectForward g A C stack) \<subseteq> set C \<union> (\<Union>k \<in> set stack. requirements g k)"
    using assms
  proof (induction g A C stack rule: collectForward.induct)
    case (1 g A C)
    then show ?case by simp
  next
    case (2 g A C key stack)
    consider "key \<in> set A" | "key \<notin> set A" "key \<in> set C" | "key \<notin> set A" "key \<notin> set C" by blast
    then show ?case
    proof cases
      case 1
      with 2(1) 2(4,5) have "(\<forall>c \<in> set (collectForward g A C stack).
          set (parents g c) \<subseteq> set A \<union> set (collectForward g A C stack))
        \<and> set (collectForward g A C stack) \<inter> set A = {}
        \<and> set C \<union> set stack \<subseteq> set A \<union> set (collectForward g A C stack)
        \<and> set (collectForward g A C stack) \<subseteq> set C \<union> (\<Union>k \<in> set stack. requirements g k)"
        by fastforce
      with 1 show ?thesis by auto
    next
      case 2
      with "2.IH"(2) "2.prems" show ?thesis by (simp add: insert_absorb) blast
    next
      case 3
      let ?C = "collectForward g A (key # C) (rev (parents g key) @ stack)"
      have sub: "requirements g p \<subseteq> requirements g key" if "p \<in> set (parents g key)" for p
        using that by (auto simp: requirements_def dep_rel_iff intro: converse_rtrancl_into_rtrancl)
      have self: "key \<in> requirements g key" by (simp add: requirements_def)
      have "\<forall>c \<in> set (key # C). set (parents g c) \<subseteq> set A \<union> set (key # C) \<union> set (rev (parents g key) @ stack)"
        "set (key # C) \<inter> set A = {}"
        using "2.prems" 3 by auto
      note IH = "2.IH"(3)[OF 3 this]
      have eq: "collectForward g A C (key # stack) = ?C" using 3 by simp
      have "(\<Union>k \<in> set (rev (parents g key) @ stack). requirements g k)
          \<subseteq> (\<Union>k \<in> set (key # stack). requirements g k)"
        using sub by auto
      with IH self show ?thesis unfolding eq by (intro conjI) (simp, simp, simp, fastforce)
    qed
  qed
  then show "\<forall>c \<in> set (collectForward g A C stack).
      set (parents g c) \<subseteq> set A \<union> set (collectForward g A C stack)"
    "set (collectForward g A C stack) \<inter> set A = {}"
    "set C \<union> set stack \<subseteq> set A \<union> set (collectForward g A C stack)"
    "set (collectForward g A C stack) \<subseteq> set C \<union> (\<Union>k \<in> set stack. requirements g k)"
    by blast+
qed

lemma dependents_unfold:
  assumes "planner_graph_wf g"
  shows "dependents g k = insert k (\<Union>c \<in> set (children g k). dependents g c)"
proof -
  have "c \<in> set (children g k) \<longleftrightarrow> (c, k) \<in> dep_rel g" for c
    using planner_graph_wfD(5)[OF assms] by (simp add: dep_rel_iff)
  then show ?thesis
    unfolding dependents_def by (auto elim: rtranclE intro: rtrancl_into_rtrancl)
qed

lemma visited_dependents:
  assumes wf: "planner_graph_wf g" and k: "k \<in> V"
    and closed: "\<forall>v \<in> V. set (children g v) \<subseteq> V \<union> S"
  shows "dependents g k \<subseteq> V \<union> (\<Union>s \<in> S. dependents g s)"
proof
  fix m assume "m \<in> dependents g k"
  then have "(k, m) \<in> ((dep_rel g)\<inverse>)\<^sup>*" by (simp add: dependents_def rtrancl_converse)
  then show "m \<in> V \<union> (\<Union>s \<in> S. dependents g s)"
  proof (rule closed_reach)
    show "k \<in> V \<union> (\<Union>s \<in> S. dependents g s)" using k by simp
    fix x y assume x: "x \<in> V \<union> (\<Union>s \<in> S. dependents g s)" and xy: "(x, y) \<in> (dep_rel g)\<inverse>"
    from xy have y: "y \<in> set (children g x)"
      using planner_graph_wfD(5)[OF wf] by (simp add: dep_rel_iff)
    have self: "s \<in> dependents g s" for s by (simp add: dependents_def)
    from x show "y \<in> V \<union> (\<Union>s \<in> S. dependents g s)"
    proof
      assume "x \<in> V"
      with closed y self show ?thesis by blast
    next
      assume "x \<in> (\<Union>s \<in> S. dependents g s)"
      with xy show ?thesis by (auto simp: dependents_def intro: converse_rtrancl_into_rtrancl)
    qed
  qed
qed

lemma collectBackward_set:
  assumes wf: "planner_graph_wf g"
    and "set C = set A \<inter> set V" and "\<forall>v \<in> set V. set (children g v) \<subseteq> set V \<union> set stack"
  shows "set (collectBackward g A V C stack) = set A \<inter> (set V \<union> (\<Union>k \<in> set stack. dependents g k))"
  using wf assms(2,3)
proof (induction g A V C stack rule: collectBackward.induct)
  case (1 g A V C)
  then show ?case by simp
next
  case (2 g A V C key stack)
  show ?case
  proof (cases "key \<in> set V")
    case True
    have "dependents g key \<subseteq> set V \<union> (\<Union>k \<in> set stack. dependents g k)"
      by (rule visited_dependents) (use 2 True in auto)
    moreover have "set (collectBackward g A V C stack) = set A \<inter> (set V \<union> (\<Union>k \<in> set stack. dependents g k))"
      by (rule "2.IH"(1)[OF True]) (use 2 True in auto)
    ultimately show ?thesis using True by auto
  next
    case False
    let ?C = "if key \<in> set A then key # C else C"
    have "set (collectBackward g A (key # V) ?C (rev (children g key) @ stack))
        = set A \<inter> (set (key # V) \<union> (\<Union>k \<in> set (rev (children g key) @ stack). dependents g k))"
      by (rule "2.IH"(2)[OF False]) (use 2 False in auto)
    moreover have "set (key # V) \<union> (\<Union>k \<in> set (rev (children g key) @ stack). dependents g k)
        = set V \<union> (\<Union>k \<in> set (key # stack). dependents g k)"
      using dependents_unfold[OF "2.prems"(1), of key] by auto
    ultimately show ?thesis using False by simp
  qed
qed

section \<open>The schedules\<close>

lemma minimal_candidate:
  assumes "wf r" and "C \<noteq> {}"
  obtains z where "z \<in> C" "\<And>y. (y, z) \<in> r \<Longrightarrow> y \<notin> C"
  using assms wfE_min[of r _ C] by blast

text \<open>
  Emptying a set of known candidates whose dependencies are applied or candidates themselves
  applies exactly the candidates, one legal step at a time.
\<close>

lemma drainForward_correct:
  assumes "planner_graph_wf g" and "set C \<subseteq> set (gNodes g)" and "set C \<inter> set A = {}"
    and "\<forall>c \<in> set C. set (parents g c) \<subseteq> set A \<union> set C"
  shows "\<exists>steps A'. drainForward g C A = Inr (steps, A') \<and> set A' = set A \<union> set C
    \<and> exec_steps g (set A) steps = Some (set A \<union> set C)
    \<and> (\<forall>s \<in> set steps. psDirection s = DirectionForward) \<and> psKey ` set steps = set C"
  using assms
proof (induction g C A rule: drainForward.induct)
  case (1 g C A)
  note wf = "1.prems"(1)
  show ?case
  proof (cases "C = []")
    case True
    then show ?thesis by (simp add: drainForward.simps)
  next
    case False
    obtain z where z: "z \<in> set C" "\<And>y. (y, z) \<in> (dep_rel g)\<inverse> \<Longrightarrow> y \<notin> set C"
      using minimal_candidate[OF planner_graph_wfD(8)[OF wf], of "set C"] False by auto
    then have "set (parents g z) \<subseteq> set A" using "1.prems"(4) by (auto simp: dep_rel_iff)
    then have "firstForwardReady g C A \<noteq> None"
      using z(1) "1.prems"(2) by (auto simp: firstForwardReady_def find_None_key list_all_iff)
    then obtain key where key: "firstForwardReady g C A = Some key" by blast
    then have k: "key \<in> set (gNodes g)" "key \<in> set C" "set (parents g key) \<subseteq> set A"
      by (auto simp: firstForwardReady_def list_all_iff dest: find_Some_key)
    then have kA: "key \<notin> set A" using "1.prems"(3) by blast
    let ?C = "removeAll key C" and ?A = "List.insert key A"
    have eqs: "insert key (set A \<union> (set C - {key})) = set A \<union> set C" using k by auto
    have "\<exists>steps A'. drainForward g ?C ?A = Inr (steps, A') \<and> set A' = set ?A \<union> set ?C
      \<and> exec_steps g (set ?A) steps = Some (set ?A \<union> set ?C)
      \<and> (\<forall>s \<in> set steps. psDirection s = DirectionForward) \<and> psKey ` set steps = set ?C"
      by (rule "1.IH"[OF False key wf]) (use "1.prems" in auto)
    then obtain steps A' where IH: "drainForward g ?C ?A = Inr (steps, A')"
      "set A' = set A \<union> set C" "exec_steps g (insert key (set A)) steps = Some (set A \<union> set C)"
      "\<forall>s \<in> set steps. psDirection s = DirectionForward" "psKey ` set steps = set C - {key}"
      by (auto simp: eqs)
    have "exec_step g (set A) \<lparr>psKey = key, psDirection = DirectionForward\<rparr> = Some (insert key (set A))"
      using k kA by (simp add: exec_step_def)
    moreover have "drainForward g C A =
        Inr (\<lparr>psKey = key, psDirection = DirectionForward\<rparr> # steps, A')"
      by (subst drainForward.simps) (simp add: False key IH(1))
    ultimately show ?thesis using IH k(2) by auto
  qed
qed

lemma drainBackward_correct:
  assumes "planner_graph_wf g" and "set C \<subseteq> set (gNodes g)" and "set C \<subseteq> set A"
    and "\<forall>c \<in> set C. set (children g c) \<inter> set A \<subseteq> set C"
  shows "\<exists>steps A'. drainBackward g C A = Inr (steps, A') \<and> set A' = set A - set C
    \<and> exec_steps g (set A) steps = Some (set A - set C)
    \<and> (\<forall>s \<in> set steps. psDirection s = DirectionBackward) \<and> psKey ` set steps = set C"
  using assms
proof (induction g C A rule: drainBackward.induct)
  case (1 g C A)
  note wf = "1.prems"(1)
  show ?case
  proof (cases "C = []")
    case True
    then show ?thesis by (simp add: drainBackward.simps)
  next
    case False
    obtain z where z: "z \<in> set C" "\<And>y. (y, z) \<in> dep_rel g \<Longrightarrow> y \<notin> set C"
      using minimal_candidate[OF planner_graph_wfD(7)[OF wf], of "set C"] False by auto
    then have "set (children g z) \<inter> set C = {}"
      using planner_graph_wfD(5)[OF wf] by (auto simp: dep_rel_iff)
    then have "firstBackwardReady g C \<noteq> None"
      using z(1) "1.prems"(2) by (auto simp: firstBackwardReady_def find_None_key list_ex_iff)
    then obtain key where key: "firstBackwardReady g C = Some key" by blast
    then have k: "key \<in> set (gNodes g)" "key \<in> set C" "set (children g key) \<inter> set C = {}"
      by (auto simp: firstBackwardReady_def list_ex_iff dest: find_Some_key)
    let ?C = "removeAll key C" and ?A = "removeAll key A"
    have eqs: "set A - {key} - (set C - {key}) = set A - set C" using k by auto
    have "\<exists>steps A'. drainBackward g ?C ?A = Inr (steps, A') \<and> set A' = set ?A - set ?C
      \<and> exec_steps g (set ?A) steps = Some (set ?A - set ?C)
      \<and> (\<forall>s \<in> set steps. psDirection s = DirectionBackward) \<and> psKey ` set steps = set ?C"
      by (rule "1.IH"[OF False key wf]) (use "1.prems" in auto)
    then obtain steps A' where IH: "drainBackward g ?C ?A = Inr (steps, A')"
      "set A' = set A - set C" "exec_steps g (set A - {key}) steps = Some (set A - set C)"
      "\<forall>s \<in> set steps. psDirection s = DirectionBackward" "psKey ` set steps = set C - {key}"
      by (auto simp: eqs)
    have "exec_step g (set A) \<lparr>psKey = key, psDirection = DirectionBackward\<rparr> = Some (set A - {key})"
      using k "1.prems"(3,4) by (auto simp: exec_step_def)
    moreover have "drainBackward g C A =
        Inr (\<lparr>psKey = key, psDirection = DirectionBackward\<rparr> # steps, A')"
      by (subst drainBackward.simps) (simp add: False key IH(1))
    ultimately show ?thesis using IH k(2) by auto
  qed
qed

section \<open>Correctness of the plans of one target\<close>

lemma requirements_self [simp]: "k \<in> requirements g k"
  by (simp add: requirements_def)

lemma dependents_self [simp]: "k \<in> dependents g k"
  by (simp add: dependents_def)

lemma requirements_nodes:
  assumes "planner_graph_wf g" "k \<in> set (gNodes g)"
  shows "requirements g k \<subseteq> set (gNodes g)"
proof
  fix m assume "m \<in> requirements g k"
  then have "(k, m) \<in> (dep_rel g)\<^sup>*" by (simp add: requirements_def)
  then show "m \<in> set (gNodes g)"
    by (rule closed_reach) (use assms planner_graph_wfD(9)[OF assms(1)] in blast)+
qed

lemma dependents_nodes:
  assumes "planner_graph_wf g" "k \<in> set (gNodes g)"
  shows "dependents g k \<subseteq> set (gNodes g)"
  using planner_graph_wfD(9)[OF assms(1)] assms(2)
  by (auto simp: dependents_def elim: converse_rtranclE)

lemma consistent_edge:
  assumes "planner_graph_wf g" "history_consistent g A" "x \<in> A" "(x, y) \<in> dep_rel g"
  shows "y \<in> A"
  using assms planner_graph_wfD(9)[OF assms(1,4)] by (auto simp: history_consistent_def dep_rel_iff)

lemma consistent_iff:
  assumes "planner_graph_wf g"
  shows "history_consistent g A \<longleftrightarrow> (\<forall>x y. x \<in> A \<longrightarrow> (x, y) \<in> dep_rel g \<longrightarrow> y \<in> A)"
  using consistent_edge[OF assms, of A] by (auto simp: history_consistent_def dep_rel_iff)

lemma consistent_add:
  "planner_graph_wf g \<Longrightarrow> history_consistent g A \<Longrightarrow> history_consistent g (A \<union> requirements g k)"
  by (auto simp: consistent_iff requirements_def intro: rtrancl_into_rtrancl)

lemma consistent_remove:
  "planner_graph_wf g \<Longrightarrow> history_consistent g A \<Longrightarrow>
     history_consistent g (A - (\<Union>k \<in> K. dependents g k))"
  by (auto simp: consistent_iff dependents_def intro: converse_rtrancl_into_rtrancl)

lemma planForward_correct:
  assumes wf: "planner_graph_wf g" and t: "t \<in> set (gNodes g)" "t \<notin> set A"
    and hist: "history_consistent g (set A)"
  shows "\<exists>steps A'. planForward g t A = Inr (steps, A') \<and> set A' = set A \<union> requirements g t
    \<and> exec_steps g (set A) steps = Some (set A \<union> requirements g t)
    \<and> (\<forall>s \<in> set steps. psDirection s = DirectionForward)
    \<and> psKey ` set steps = requirements g t - set A"
proof -
  let ?C = "collectForward g A [] [t]"
  have C: "\<forall>c \<in> set ?C. set (parents g c) \<subseteq> set A \<union> set ?C" "set ?C \<inter> set A = {}"
    "t \<in> set A \<union> set ?C" "set ?C \<subseteq> requirements g t"
    using collectForward_set[of "[]" g A "[t]"] by auto
  have "m \<in> set A \<union> set ?C" if "m \<in> requirements g t" for m
  proof -
    from that have "(t, m) \<in> (dep_rel g)\<^sup>*" by (simp add: requirements_def)
    then show ?thesis
    proof (rule closed_reach[OF _ C(3)])
      fix x y assume "x \<in> set A \<union> set ?C" "(x, y) \<in> dep_rel g"
      then show "y \<in> set A \<union> set ?C"
        using C(1) consistent_edge[OF wf hist, of x y] unfolding dep_rel_iff by blast
    qed
  qed
  then have eq: "set ?C = requirements g t - set A" using C(2,4) by blast
  have un: "set A \<union> (requirements g t - set A) = set A \<union> requirements g t" by blast
  have "set ?C \<subseteq> set (gNodes g)" using C(4) requirements_nodes[OF wf t(1)] by blast
  from drainForward_correct[OF wf this C(2,1)] show ?thesis
    unfolding planForward_def eq un .
qed

lemma planBackward_correct:
  assumes wf: "planner_graph_wf g" and seed: "seed \<in> set (gNodes g)"
  shows "\<exists>steps A'. planBackward g seed A = Inr (steps, A') \<and> set A' = set A - dependents g seed
    \<and> exec_steps g (set A) steps = Some (set A - dependents g seed)
    \<and> (\<forall>s \<in> set steps. psDirection s = DirectionBackward)
    \<and> psKey ` set steps = set A \<inter> dependents g seed"
proof -
  let ?C = "collectBackward g A [] [] [seed]"
  have C: "set ?C = set A \<inter> dependents g seed" using collectBackward_set[OF wf, of "[]" A "[]" "[seed]"] by simp
  have sub: "set ?C \<subseteq> set (gNodes g)" using dependents_nodes[OF wf seed] C by blast
  have "set (children g c) \<subseteq> dependents g seed" if "c \<in> dependents g seed" for c
    using that planner_graph_wfD(5)[OF wf]
    by (auto simp: dependents_def dep_rel_iff intro: converse_rtrancl_into_rtrancl)
  then have "\<forall>c \<in> set ?C. set (children g c) \<inter> set A \<subseteq> set ?C" unfolding C by blast
  moreover have "set ?C \<subseteq> set A" using C by blast
  moreover have "set A - (set A \<inter> dependents g seed) = set A - dependents g seed" by blast
  ultimately show ?thesis
    using drainBackward_correct[OF wf sub, of A] unfolding planBackward_def C by simp
qed

lemma planBackwardAll_correct:
  assumes wf: "planner_graph_wf g" and seeds: "set seeds \<subseteq> set (gNodes g)"
  shows "\<exists>steps A'. planBackwardAll g seeds A = Inr (steps, A')
    \<and> set A' = set A - (\<Union>k \<in> set seeds. dependents g k)
    \<and> exec_steps g (set A) steps = Some (set A')
    \<and> (\<forall>s \<in> set steps. psDirection s = DirectionBackward)"
  using seeds
proof (induction seeds arbitrary: A)
  case Nil
  then show ?case by simp
next
  case (Cons k ks)
  then obtain steps A' where p: "planBackward g k A = Inr (steps, A')"
    "set A' = set A - dependents g k" "exec_steps g (set A) steps = Some (set A')"
    "\<forall>s \<in> set steps. psDirection s = DirectionBackward"
    using planBackward_correct[OF wf, of k A] by auto
  have "set ks \<subseteq> set (gNodes g)" using Cons.prems by simp
  from Cons.IH[OF this, of A'] obtain rest A'' where r: "planBackwardAll g ks A' = Inr (rest, A'')"
    "set A'' = set A' - (\<Union>k \<in> set ks. dependents g k)"
    "exec_steps g (set A') rest = Some (set A'')"
    "\<forall>s \<in> set rest. psDirection s = DirectionBackward"
    by blast
  from p r show ?case by (auto simp: exec_steps_append)
qed

text \<open>When a target that passed validation can be planned.\<close>

definition target_known :: "planner_graph \<Rightarrow> target \<Rightarrow> bool" where
  "target_known g t \<longleftrightarrow> tKind t = targetNamed \<longrightarrow> tKey t \<in> set (gNodes g)"

lemma planTarget_correct:
  assumes wf: "planner_graph_wf g" and hist: "history_consistent g (set A)"
    and known: "target_known g t"
  shows "\<exists>steps A'. planTarget g t A = Inr (steps, A') \<and> set A' = target_effect g (set A) t
    \<and> exec_steps g (set A) steps = Some (set A') \<and> history_consistent g (set A')"
proof (cases "tKind t")
  case targetNone
  then show ?thesis using hist by (simp add: planTarget_def target_effect_def)
next
  case targetNamed
  then have node: "tKey t \<in> set (gNodes g)" using known by (simp add: target_known_def)
  then have con: "contains g (tKey t)" using planner_graph_wfD(3)[OF wf] by blast
  show ?thesis
  proof (cases "tKey t \<in> set A")
    case False
    with planForward_correct[OF wf node False hist] consistent_add[OF wf hist, of "tKey t"] con targetNamed
    show ?thesis by (auto simp: planTarget_def target_effect_def)
  next
    case True
    let ?seeds = "filter (\<lambda>child. kApp child = kApp (tKey t)) (children g (tKey t))"
    have "set ?seeds \<subseteq> set (gNodes g)"
      using planner_graph_wfD(5,9)[OF wf] by (auto simp: dep_rel_iff)
    from planBackwardAll_correct[OF wf this, of A] consistent_remove[OF wf hist, of "set ?seeds"]
      con targetNamed True
    show ?thesis by (auto simp: planTarget_def target_effect_def)
  qed
next
  case targetZero
  have "set (appRoots g (tApp t)) \<subseteq> set (gNodes g)" by (auto simp: appRoots_def)
  from planBackwardAll_correct[OF wf this, of A] targetZero
    consistent_remove[OF wf hist, of "set (appRoots g (tApp t))"]
  show ?thesis by (auto simp: planTarget_def target_effect_def)
qed

lemma planTarget_unknown:
  assumes "planner_graph_wf g" "\<not> target_known g t"
  shows "planTarget g t A = Inl (newPlanningError CategoryPlan CodeTargetNotFound (tKey t) zeroKey [])"
  using assms planner_graph_wfD(3)[OF assms(1)] by (simp add: planTarget_def target_known_def)

lemma planTargets_correct:
  assumes wf: "planner_graph_wf g" and "history_consistent g (set A)"
  shows "case planTargets g ts A of
      Inl e \<Rightarrow> (\<exists>t \<in> set ts. \<not> target_known g t
                 \<and> e = newPlanningError CategoryPlan CodeTargetNotFound (tKey t) zeroKey [])
    | Inr (steps, A') \<Rightarrow> (\<forall>t \<in> set ts. target_known g t)
        \<and> set A' = foldl (target_effect g) (set A) ts
        \<and> exec_steps g (set A) steps = Some (set A') \<and> history_consistent g (set A')"
  using assms(2)
proof (induction ts arbitrary: A)
  case Nil
  then show ?case by simp
next
  case (Cons t ts)
  show ?case
  proof (cases "target_known g t")
    case False
    then show ?thesis by (auto simp: planTarget_unknown[OF wf])
  next
    case True
    from planTarget_correct[OF wf Cons.prems True] obtain steps A' where
      t: "planTarget g t A = Inr (steps, A')" "set A' = target_effect g (set A) t"
      "exec_steps g (set A) steps = Some (set A')" "history_consistent g (set A')" by blast
    from Cons.IH[OF t(4)] t True show ?thesis
      by (auto simp: exec_steps_append split: sum.splits)
  qed
qed

section \<open>Correctness of the planner\<close>

lemma empty_graph_wf: "planner_graph_wf emptyPlannerGraph"
proof -
  have "dep_rel emptyPlannerGraph = {}"
    by (auto simp: dep_rel_def emptyPlannerGraph_def)
  then show ?thesis by (simp add: planner_graph_wf_def emptyPlannerGraph_def acyclic_def)
qed

text \<open>The planners the package can produce: the zero value, and what \<open>NewPlanner\<close> returns.\<close>

definition planner_wf :: "planner \<Rightarrow> bool" where
  "planner_wf p \<longleftrightarrow> planner_graph_wf (planner_graph_of p)"

lemma NewPlanner_wf: "NewPlanner ms = Inr p \<Longrightarrow> planner_wf p"
  using built_graph_wf
  by (auto simp: NewPlanner_def planner_wf_def planner_graph_of_def newPlannerGraph_Inr_iff
      split: sum.splits)

lemma zero_planner_wf: "planner_wf \<lparr>plGraph = None\<rparr>"
  by (simp add: planner_wf_def planner_graph_of_def empty_graph_wf)

definition applied_set :: "applied_state \<Rightarrow> migration_key set" where
  "applied_set a = set (cloneAppliedKeys (asKeys a))"

lemma Plan_cases:
  assumes wf: "planner_wf p"
  defines "g \<equiv> planner_graph_of p"
  shows "case Plan p a ts of
      Inl e \<Rightarrow> (\<exists>t \<in> set ts. validateTarget t = Some e)
        \<or> validateAppliedHistory g (cloneAppliedKeys (asKeys a)) = Some e
        \<or> (\<exists>t \<in> set ts. \<not> target_known g t
             \<and> e = newPlanningError CategoryPlan CodeTargetNotFound (tKey t) zeroKey [])
    | Inr steps \<Rightarrow> (\<forall>t \<in> set ts. validateTarget t = None \<and> target_known g t)
        \<and> history_consistent g (applied_set a)
        \<and> exec_steps g (applied_set a) steps = Some (foldl (target_effect g) (applied_set a) ts)
        \<and> history_consistent g (foldl (target_effect g) (applied_set a) ts)"
proof (cases "check_all validateTarget ts")
  case (Some e)
  then show ?thesis using check_all_SomeD[OF Some] by (auto simp: Plan_def)
next
  case None
  note valid = None
  show ?thesis
  proof (cases "validateAppliedHistory g (cloneAppliedKeys (asKeys a))")
    case (Some e)
    with valid show ?thesis by (simp add: Plan_def Let_def g_def)
  next
    case None
    then have hist: "history_consistent g (set (cloneAppliedKeys (asKeys a)))"
      by (simp add: validateAppliedHistory_None_iff)
    have wfg: "planner_graph_wf g" using wf by (simp add: planner_wf_def g_def)
    have eq: "Plan p a ts = map_sum id fst (planTargets g ts (cloneAppliedKeys (asKeys a)))"
      using valid None by (simp add: Plan_def Let_def g_def)
    have "\<forall>t \<in> set ts. validateTarget t = None" using valid by (simp add: check_all_None)
    with planTargets_correct[OF wfg hist, of ts] hist show ?thesis
      by (cases "planTargets g ts (cloneAppliedKeys (asKeys a))") (auto simp: eq applied_set_def)
  qed
qed

lemma cleared_app:
  assumes wf: "planner_graph_wf g" and node: "k \<in> set (gNodes g)" "kApp k = app"
  shows "\<exists>r \<in> set (appRoots g app). k \<in> dependents g r"
  using node
proof (induction k rule: wf_induct_rule[OF planner_graph_wfD(8)[OF wf]])
  case (1 k)
  show ?case
  proof (cases "k \<in> set (appRoots g app)")
    case True
    then show ?thesis by (auto intro: bexI[of _ k])
  next
    case False
    with 1 obtain p where p: "p \<in> set (parents g k)" "kApp p = app"
      by (auto simp: appRoots_def list_ex_iff)
    then have edge: "(k, p) \<in> dep_rel g" by (simp add: dep_rel_iff)
    with 1 p planner_graph_wfD(9)[OF wf edge] obtain r where
      r: "r \<in> set (appRoots g app)" "p \<in> dependents g r" by auto
    then have "(k, r) \<in> (dep_rel g)\<^sup>*"
      using edge by (simp add: dependents_def converse_rtrancl_into_rtrancl)
    with r(1) show ?thesis by (auto simp: dependents_def)
  qed
qed

lemma target_effect_idem:
  assumes wf: "planner_graph_wf g" and hist: "history_consistent g A" and known: "target_known g t"
  defines "A' \<equiv> target_effect g A t"
  shows "tKind t = targetNamed \<Longrightarrow> tKey t \<in> A' \<and> {c \<in> set (children g (tKey t)). kApp c = kApp (tKey t)} \<inter> A' = {}"
    and "tKind t = targetZero \<Longrightarrow> \<forall>k \<in> set (gNodes g). kApp k = tApp t \<longrightarrow> k \<notin> A'"
proof -
  assume named: "tKind t = targetNamed"
  let ?k = "tKey t"
  have edge: "c \<in> set (children g ?k) \<Longrightarrow> (c, ?k) \<in> dep_rel g" for c
    using planner_graph_wfD(5)[OF wf] by (simp add: dep_rel_iff)
  have anti: "c \<in> set (children g ?k) \<Longrightarrow> (?k, c) \<notin> (dep_rel g)\<^sup>*" for c
    using planner_graph_wfD(6)[OF wf] edge by (auto simp: acyclic_def intro: rtrancl_into_trancl1)
  show "?k \<in> A' \<and> {c \<in> set (children g ?k). kApp c = kApp ?k} \<inter> A' = {}"
  proof (cases "?k \<in> A")
    case True
    then show ?thesis using named anti
      by (auto simp: A'_def target_effect_def dependents_def)
  next
    case False
    have "c \<notin> A" if "c \<in> set (children g ?k)" for c
      using consistent_edge[OF wf hist _ edge[OF that]] False by blast
    with False named anti show ?thesis
      by (auto simp: A'_def target_effect_def requirements_def)
  qed
next
  assume "tKind t = targetZero"
  then show "\<forall>k \<in> set (gNodes g). kApp k = tApp t \<longrightarrow> k \<notin> A'"
    using cleared_app[OF wf] by (fastforce simp: A'_def target_effect_def)
qed

lemma planBackward_nothing:
  assumes wf: "planner_graph_wf g" and hist: "history_consistent g (set A)" and seed: "seed \<notin> set A"
  shows "planBackward g seed A = Inr ([], A)"
proof -
  have "k \<notin> set A" if "k \<in> dependents g seed" for k
  proof
    assume k: "k \<in> set A"
    from that have "(k, seed) \<in> (dep_rel g)\<^sup>*" by (simp add: dependents_def)
    then have "seed \<in> set A"
      by (rule closed_reach[OF _ k]) (rule consistent_edge[OF wf hist])
    with seed show False by simp
  qed
  then have "set (collectBackward g A [] [] [seed]) = {}"
    using collectBackward_set[OF wf, of "[]" A "[]" "[seed]"] by auto
  then show ?thesis by (simp add: planBackward_def drainBackward.simps)
qed

lemma planBackwardAll_nothing:
  assumes "planner_graph_wf g" "history_consistent g (set A)" "set seeds \<inter> set A = {}"
  shows "planBackwardAll g seeds A = Inr ([], A)"
  using assms(3) by (induction seeds) (simp_all add: planBackward_nothing[OF assms(1,2)])

lemma planTarget_again:
  assumes wf: "planner_graph_wf g" and hist: "history_consistent g (set A)"
    and known: "target_known g t"
    and eff: "set A' = target_effect g (set A) t" and hist': "history_consistent g (set A')"
  shows "planTarget g t A' = Inr ([], A')"
proof (cases "tKind t")
  case targetNone
  then show ?thesis by (simp add: planTarget_def)
next
  case targetNamed
  note i = target_effect_idem(1)[OF wf hist known targetNamed, folded eff]
  have "contains g (tKey t)" using targetNamed known planner_graph_wfD(3)[OF wf] by (simp add: target_known_def)
  moreover have "planBackwardAll g (filter (\<lambda>child. kApp child = kApp (tKey t)) (children g (tKey t))) A'
      = Inr ([], A')"
    by (rule planBackwardAll_nothing[OF wf hist']) (use i in auto)
  ultimately show ?thesis using i targetNamed by (simp add: planTarget_def)
next
  case targetZero
  note i = target_effect_idem(2)[OF wf hist known targetZero, folded eff]
  have "planBackwardAll g (appRoots g (tApp t)) A' = Inr ([], A')"
    by (rule planBackwardAll_nothing[OF wf hist']) (use i in \<open>auto simp: appRoots_def\<close>)
  then show ?thesis using targetZero by (simp add: planTarget_def)
qed

text \<open>The order in which the definitions are supplied is irrelevant, for errors too.\<close>

lemma sort_key_perm:
  assumes "mset xs = mset ys" and "distinct (map f xs)"
  shows "sort_key f xs = sort_key f ys"
proof (rule properties_for_sort_key)
  show "mset (sort_key f ys) = mset xs" using assms(1) by simp
  show "sorted (map f (sort_key f ys))" by simp
  have dist: "distinct (map f (sort_key f ys))"
  proof -
    have "distinct (map f ys)"
      using assms mset_eq_imp_distinct_iff[of "map f xs" "map f ys"] by simp
    then show ?thesis by (simp add: map_sort_key)
  qed
  fix k assume "k \<in> set (sort_key f ys)"
  then have kx: "k \<in> set xs" "k \<in> set (sort_key f ys)"
    using assms(1) by (simp_all flip: set_mset_mset)
  have single: "filter (\<lambda>x. f k = f x) zs = [k]" if "distinct (map f zs)" "k \<in> set zs" for zs
    using that
  proof (induction zs)
    case (Cons z zs)
    show ?case
    proof (cases "k = z")
      case True
      with Cons.prems show ?thesis by (auto simp: filter_empty_conv)
    next
      case False
      then have "k \<in> set zs" using Cons.prems by simp
      moreover from this have "f k \<noteq> f z" using Cons.prems(1) by (auto simp: image_iff)
      ultimately show ?thesis using Cons by simp
    qed
  qed simp
  show "filter (\<lambda>x. f k = f x) (sort_key f ys) = filter (\<lambda>x. f k = f x) xs"
    using single[OF dist kx(2)] single[OF assms(2) kx(1)] by simp
qed

lemma newPlannerGraph_perm:
  assumes "mset ms = mset ms'"
  shows "newPlannerGraph ms = newPlannerGraph ms'"
proof -
  let ?inv = "\<lambda>ms. filter (\<lambda>key. \<not> validMigrationKey key) (map migration_Key ms)"
  have keys: "mset (map migration_Key ms) = mset (map migration_Key ms')" using assms by simp
  have inv: "sort (?inv ms) = sort (?inv ms')"
    by (rule properties_for_sort) (simp only: mset_sort mset_filter keys, simp)
  then have nil: "?inv ms = [] \<longleftrightarrow> ?inv ms' = []" by (metis length_0_conv length_sort)
  have sk: "sort (map migration_Key ms) = sort (map migration_Key ms')"
    by (rule properties_for_sort) (use keys in simp_all)
  have pd: "map pdKey (planner_definitions xs) = map migration_Key xs" for xs
    by (simp add: planner_definitions_def)
  have ks: "map pdKey (sort_key pdKey (planner_definitions xs)) = sort (map migration_Key xs)" for xs
    by (simp add: map_sort_key pd)
  show ?thesis
  proof (cases "?inv ms = [] \<and> first_adjacent (sort (map migration_Key ms)) = None")
    case False
    then show ?thesis
      using nil inv sk unfolding newPlannerGraph_def Let_def pd ks sortMigrationKeys_def
      by (cases "?inv ms = []") (auto split: option.splits)
  next
    case True
    then have "distinct (map migration_Key ms)" by (simp add: first_adjacent_None)
    then have eq: "sort_key pdKey (planner_definitions ms) = sort_key pdKey (planner_definitions ms')"
      using assms by (intro sort_key_perm) (simp_all add: planner_definitions_def comp_def)
    have "?inv ms = []" "?inv ms' = []" using True nil by blast+
    then show ?thesis
      unfolding newPlannerGraph_def Let_def pd eq by (simp only:)
  qed
qed

section \<open>Properties of the planner\<close>

text \<open>Two migrations of one app, and the planner they give.\<close>

definition sample_migrations :: "migration list" where
  "sample_migrations =
     [\<lparr>migApp = ''blog'', migName = ''0002'',
       migDependencies = [MigrationKey ''blog'' ''0001''], migOperations = []\<rparr>,
      \<lparr>migApp = ''blog'', migName = ''0001'', migDependencies = [], migOperations = []\<rparr>]"

definition sample_planner :: planner where
  "sample_planner = \<lparr>plGraph = Some \<lparr>
     gNodes = [MigrationKey ''blog'' ''0001'', MigrationKey ''blog'' ''0002''],
     gParents = [(MigrationKey ''blog'' ''0001'', []),
                 (MigrationKey ''blog'' ''0002'', [MigrationKey ''blog'' ''0001''])],
     gChildren = [(MigrationKey ''blog'' ''0001'', [MigrationKey ''blog'' ''0002''])]\<rparr>\<rparr>"

definition sample_plan :: "plan_step list" where
  "sample_plan =
     [\<lparr>psKey = MigrationKey ''blog'' ''0001'', psDirection = DirectionForward\<rparr>,
      \<lparr>psKey = MigrationKey ''blog'' ''0002'', psDirection = DirectionForward\<rparr>]"

lemma sample_NewPlanner: "NewPlanner sample_migrations = Inr sample_planner"
  by code_simp

lemma sample_Plan:
  "Plan sample_planner zeroAppliedState [NamedTarget (MigrationKey ''blog'' ''0002'')] = Inr sample_plan"
  by code_simp

text \<open>
  C3: \<open>NewPlanner\<close> accepts a set of migrations exactly when every identity is valid and
  unique, every dependency is valid, not repeated and known, and the dependencies have no
  cycle; the graph it returns has the declared dependencies, nodes in key order, children that
  mirror the parents, and no cycle.
\<close>

theorem NewPlanner_accepts:
  "case NewPlanner ms of
     Inl e \<Rightarrow> \<not> graph_definable ms
   | Inr p \<Rightarrow> graph_definable ms \<and> planner_graph_wf (planner_graph_of p)
       \<and> gNodes (planner_graph_of p) = sort (map migration_Key ms)
       \<and> dep_rel (planner_graph_of p) = declared_dependencies ms"
proof (cases "newPlannerGraph ms")
  case (Inl e)
  then have "\<not> graph_definable ms" using newPlannerGraph_Inr_iff[of ms] by auto
  with Inl show ?thesis by (simp add: NewPlanner_def)
next
  case (Inr g)
  then have "graph_definable ms" "g = built_graph ms" by (simp_all add: newPlannerGraph_Inr_iff)
  moreover from this have "edges_definable ms" by (simp add: graph_definable_def)
  ultimately show ?thesis
    using Inr by (simp add: NewPlanner_def planner_graph_of_def built_graph_wf dep_rel_built
        built_graph_facts(1))
qed

text \<open>
  C4: when identities and dependencies are in order but the dependencies are cyclic, the error
  names the cycle: its members are, in order, the strongly connected component of the least
  migration that lies on a cycle.
\<close>

theorem NewPlanner_cycle_members:
  assumes "edges_definable ms" and "NewPlanner ms = Inl e"
  defines "D \<equiv> declared_dependencies ms"
  defines "k \<equiv> Min {k. (k, k) \<in> D\<^sup>+}"
  shows "e = newPlanningError CategoryGraph CodeDependencyCycle zeroKey zeroKey
               (sorted_list_of_set {m. (k, m) \<in> D\<^sup>* \<and> (m, k) \<in> D\<^sup>*})
    \<and> (k, k) \<in> D\<^sup>+"
proof -
  let ?g = "built_graph ms"
  have rel: "dep_rel ?g = D" unfolding D_def by (rule dep_rel_built[OF assms(1)])
  have src: "fst ` set (gParents ?g) \<subseteq> set (gNodes ?g)"
    by (simp add: built_graph_facts(1,2)[OF assms(1)])
  have err: "firstCycleComponent ?g \<noteq> []" "e = newPlanningError CategoryGraph CodeDependencyCycle
      zeroKey zeroKey (firstCycleComponent ?g)"
    using newPlannerGraph_cycle[OF assms(1)] assms(2)
    by (auto simp: NewPlanner_def split: sum.splits if_splits)
  then have ne: "cyclic_keys ?g \<noteq> {}"
    using firstCycleComponent_eq[OF src] by auto
  have "cyclic_keys ?g \<subseteq> fst ` set (gParents ?g)"
    using dep_rel_source by (auto simp: cyclic_keys_def dest!: tranclD)
  then have "finite (cyclic_keys ?g)" by (rule finite_subset) simp
  with ne have "Min (cyclic_keys ?g) \<in> cyclic_keys ?g" by (rule Min_in[rotated])
  moreover have min: "Min (cyclic_keys ?g) = k" by (simp add: k_def cyclic_keys_def rel)
  ultimately have "(k, k) \<in> D\<^sup>+" by (simp add: cyclic_keys_def rel)
  moreover have "firstCycleComponent ?g = sorted_list_of_set (scc ?g k)"
    unfolding firstCycleComponent_eq[OF src] min using ne by simp
  ultimately show ?thesis using err(2) by (simp add: scc_def rel)
qed

theorem NewPlanner_cycle_members_witness:
  "\<exists>e. NewPlanner [\<lparr>migApp = ''a'', migName = ''1'', migDependencies = [MigrationKey ''a'' ''1''],
      migOperations = []\<rparr>] = Inl e
    \<and> (\<exists>k. (k, k) \<in> (declared_dependencies [\<lparr>migApp = ''a'', migName = ''1'',
        migDependencies = [MigrationKey ''a'' ''1''], migOperations = []\<rparr>])\<^sup>+)"
proof -
  let ?ms = "[\<lparr>migApp = ''a'', migName = ''1'', migDependencies = [MigrationKey ''a'' ''1''],
      migOperations = []\<rparr>]"
  have def: "edges_definable ?ms"
    by (simp add: edges_definable_def migration_Key_def validMigrationKey_def)
  have err: "NewPlanner ?ms = Inl (newPlanningError CategoryGraph CodeDependencyCycle zeroKey zeroKey
      [MigrationKey ''a'' ''1''])"
    by code_simp
  from NewPlanner_cycle_members[OF def err] err show ?thesis by blast
qed

text \<open>
  C5: the planner, and every error of its construction, is independent of the order in which
  the migrations are supplied.
\<close>

theorem NewPlanner_order_independent:
  assumes "mset ms = mset ms'"
  shows "NewPlanner ms = NewPlanner ms'"
  using newPlannerGraph_perm[OF assms] by (simp add: NewPlanner_def)

theorem NewPlanner_order_independent_witness:
  "NewPlanner (rev sample_migrations) = Inr sample_planner"
  using NewPlanner_order_independent[of "rev sample_migrations" sample_migrations]
    sample_NewPlanner by simp

text \<open>
  C6: a plan is a legal schedule: run on the applied set, no step applies a migration whose
  dependencies are missing or removes one that another applied migration needs, and the steps
  end in the applied set that the targets, taken in order, describe.
\<close>

theorem Plan_is_schedule:
  assumes "NewPlanner ms = Inr p" and "Plan p a ts = Inr steps"
  shows "exec_steps (planner_graph_of p) (applied_set a) steps
      = Some (foldl (target_effect (planner_graph_of p)) (applied_set a) ts)
    \<and> history_consistent (planner_graph_of p)
        (foldl (target_effect (planner_graph_of p)) (applied_set a) ts)"
  using Plan_cases[OF NewPlanner_wf[OF assms(1)], where a = a and ts = ts] assms(2) by simp

theorem Plan_is_schedule_witness:
  "exec_steps (planner_graph_of sample_planner) {} sample_plan
    = Some (target_effect (planner_graph_of sample_planner) {} (NamedTarget (MigrationKey ''blog'' ''0002'')))"
  using Plan_is_schedule[OF sample_NewPlanner sample_Plan]
  by (simp add: applied_set_def zeroAppliedState_def cloneAppliedKeys_def)

text \<open>What can be wrong with a request, in terms of the definitions the planner was made from.\<close>

definition target_well_formed :: "target \<Rightarrow> bool" where
  "target_well_formed t \<longleftrightarrow> (\<exists>key. t = NamedTarget key \<and> validMigrationKey key) \<or> (\<exists>app. t = ZeroTarget app \<and> app \<noteq> '''')"

definition target_defined :: "migration list \<Rightarrow> target \<Rightarrow> bool" where
  "target_defined ms t \<longleftrightarrow> (tKind t = targetNamed \<longrightarrow> tKey t \<in> migration_Key ` set ms)"

definition first_failing :: "('a \<Rightarrow> bool) \<Rightarrow> 'a \<Rightarrow> 'a list \<Rightarrow> bool" where
  "first_failing ok x xs \<longleftrightarrow> (\<exists>ys zs. xs = ys @ x # zs \<and> list_all ok ys \<and> \<not> ok x)"

text \<open>An applied migration with a dependency that is not applied.\<close>

definition history_gap :: "migration list \<Rightarrow> migration_key set \<Rightarrow> migration_key \<Rightarrow> migration_key \<Rightarrow> bool" where
  "history_gap ms A child parent \<longleftrightarrow>
     (\<exists>m \<in> set ms. child = migration_Key m \<and> parent \<in> set (migDependencies m)) \<and> child \<in> A \<and> parent \<notin> A"

definition least_gap :: "migration list \<Rightarrow> migration_key set \<Rightarrow> migration_key \<Rightarrow> migration_key \<Rightarrow> bool" where
  "least_gap ms A child parent \<longleftrightarrow> history_gap ms A child parent
     \<and> (\<forall>c p. history_gap ms A c p \<longrightarrow> child < c \<or> child = c \<and> parent \<le> p)"

lemma first_failing_check_all:
  assumes "check_all f xs = Some e" and "\<And>x. f x = None \<longleftrightarrow> ok x"
  shows "\<exists>x. first_failing ok x xs \<and> f x = Some e"
  using check_all_Some[OF assms(1)] unfolding first_failing_def assms(2)[symmetric] list_all_iff
  by (metis option.distinct(1))

lemma planTargets_first_unknown:
  assumes wf: "planner_graph_wf g" and "history_consistent g (set A)" and "planTargets g ts A = Inl e"
  shows "\<exists>t. first_failing (target_known g) t ts
    \<and> e = newPlanningError CategoryPlan CodeTargetNotFound (tKey t) zeroKey []"
  using assms(2,3)
proof (induction ts arbitrary: A)
  case (Cons t ts)
  show ?case
  proof (cases "target_known g t")
    case False
    with Cons.prems have "e = newPlanningError CategoryPlan CodeTargetNotFound (tKey t) zeroKey []"
      by (simp add: planTarget_unknown[OF wf])
    with False show ?thesis unfolding first_failing_def by (intro exI[of _ t]) force
  next
    case True
    from planTarget_correct[OF wf Cons.prems(1) True] obtain steps A' where
      t: "planTarget g t A = Inr (steps, A')" "history_consistent g (set A')" by blast
    with Cons.prems(2) have "planTargets g ts A' = Inl e" by (auto split: sum.splits)
    from Cons.IH[OF t(2) this] obtain u ys zs where u: "ts = ys @ u # zs" "list_all (target_known g) ys"
      "\<not> target_known g u" "e = newPlanningError CategoryPlan CodeTargetNotFound (tKey u) zeroKey []"
      unfolding first_failing_def by blast
    with True have "first_failing (target_known g) u (t # ts)"
      unfolding first_failing_def by (intro exI[of _ "t # ys"] exI[of _ zs]) simp
    with u(4) show ?thesis by blast
  qed
qed simp

text \<open>The history check reports the first gap in the order of the keys.\<close>

lemma sorted_first: "sorted (ys @ x # zs) \<Longrightarrow> y \<in> set (ys @ x # zs) \<Longrightarrow> y \<notin> set ys \<Longrightarrow> x \<le> y"
  by (auto simp: sorted_append)

lemma validateAppliedHistory_gap:
  assumes "graph_definable ms"
  shows "case validateAppliedHistory (built_graph ms) A of
     None \<Rightarrow> \<not> (\<exists>c p. history_gap ms (set A) c p)
   | Some e \<Rightarrow> \<exists>child parent. least_gap ms (set A) child parent
       \<and> e = newPlanningError CategoryHistory CodeInconsistentAppliedHistory child parent []"
proof -
  let ?g = "built_graph ms"
  have def: "edges_definable ms" using assms by (simp add: graph_definable_def)
  note wf = planner_graph_wfD[OF built_graph_wf[OF assms]]
  have edge: "(\<exists>m \<in> set ms. c = migration_Key m \<and> p \<in> set (migDependencies m)) \<longleftrightarrow> p \<in> set (parents ?g c)" for c p
    using built_graph_facts(7)[OF def, of c p] wf(5)[of c p] by simp
  have gap: "history_gap ms (set A) c p \<longleftrightarrow> c \<in> set (gNodes ?g) \<and> p \<in> set (parents ?g c) \<and> c \<in> set A \<and> p \<notin> set A" for c p
    unfolding history_gap_def edge using wf(9)[of c p] by (auto simp: dep_rel_iff)
  show ?thesis
  proof (cases "validateAppliedHistory ?g A")
    case None
    then have "history_consistent ?g (set A)" by (simp add: validateAppliedHistory_None_iff)
    with None show ?thesis unfolding gap by (auto simp: history_consistent_def)
  next
    case (Some e)
    let ?check = "\<lambda>child parent. if parent \<notin> set A
      then Some (newPlanningError CategoryHistory CodeInconsistentAppliedHistory child parent []) else None"
    let ?child = "\<lambda>child. if child \<notin> set A then None else check_all (?check child) (parents ?g child)"
    from check_all_Some[OF Some[unfolded validateAppliedHistory_def]] obtain ys c zs where
      nodes: "gNodes ?g = ys @ c # zs" and before: "\<forall>y \<in> set ys. ?child y = None" and "?child c = Some e" by blast
    then have c: "c \<in> set A" "check_all (?check c) (parents ?g c) = Some e" by (auto split: if_splits)
    from check_all_Some[OF c(2)] obtain us p vs where
      ps: "parents ?g c = us @ p # vs" and inner: "\<forall>u \<in> set us. ?check c u = None" and "?check c p = Some e" by blast
    then have p: "p \<notin> set A" "e = newPlanningError CategoryHistory CodeInconsistentAppliedHistory c p []"
      by (auto split: if_splits)
    have no_gap: "\<not> history_gap ms (set A) y q" if "y \<in> set ys" for y q
      using bspec[OF before that] unfolding gap by (auto simp: check_all_None split: if_splits)
    have applied: "u \<in> set A" if "u \<in> set us" for u using bspec[OF inner that] by (auto split: if_splits)
    have "c < y \<or> c = y \<and> p \<le> q" if "history_gap ms (set A) y q" for y q
    proof -
      from that no_gap have "y \<in> set (ys @ c # zs)" "y \<notin> set ys" by (auto simp: gap nodes[symmetric])
      with sorted_first[OF wf(1)[unfolded nodes]] have "c \<le> y" by blast
      moreover have "p \<le> q" if "y = c"
      proof -
        have "q \<in> set (us @ p # vs)" "q \<notin> set us"
          using \<open>history_gap ms (set A) y q\<close> applied that by (auto simp: gap ps[symmetric])
        moreover have "sorted (us @ p # vs)"
          using built_graph_wf[OF assms] ps by (metis planner_graph_wf_def)
        ultimately show ?thesis using sorted_first by blast
      qed
      ultimately show ?thesis by auto
    qed
    moreover have "history_gap ms (set A) c p" unfolding gap using c(1) p(1) nodes ps by simp
    ultimately show ?thesis using Some p(2) by (auto simp: least_gap_def)
  qed
qed

text \<open>
  C7: the outcome of planning, whatever the request. A malformed target is reported first, then
  the least gap in the applied history, then the first named target that is not a migration
  of the planner; a plan is returned exactly when none of the three is found. So no other error is
  possible: the internal cycle error of the two searches is unreachable.
\<close>

theorem Plan_outcome:
  assumes "NewPlanner ms = Inr p"
  shows "case Plan p a ts of
     Inr steps \<Rightarrow> list_all target_well_formed ts \<and> \<not> (\<exists>c d. history_gap ms (applied_set a) c d)
       \<and> list_all (target_defined ms) ts
   | Inl e \<Rightarrow>
       (\<exists>t. first_failing target_well_formed t ts
          \<and> e = PlanningError CategoryPlan CodeInvalidTarget (if tKind t = targetNamed then tKey t else zeroKey) zeroKey [])
     \<or> list_all target_well_formed ts \<and> (\<exists>child parent. least_gap ms (applied_set a) child parent
          \<and> e = PlanningError CategoryHistory CodeInconsistentAppliedHistory child parent [])
     \<or> list_all target_well_formed ts \<and> \<not> (\<exists>c d. history_gap ms (applied_set a) c d)
          \<and> (\<exists>t. first_failing (target_defined ms) t ts
               \<and> e = PlanningError CategoryPlan CodeTargetNotFound (tKey t) zeroKey [])"
proof -
  let ?A = "cloneAppliedKeys (asKeys a)"
  from assms have def: "graph_definable ms" and g: "planner_graph_of p = built_graph ms"
    by (auto simp: NewPlanner_def planner_graph_of_def newPlannerGraph_Inr_iff split: sum.splits)
  have known: "target_known (built_graph ms) = target_defined ms"
    using def by (auto simp: fun_eq_iff target_known_def target_defined_def graph_definable_def built_graph_facts(1))
  have wfd: "validateTarget t = None \<longleftrightarrow> target_well_formed t" for t
    by (simp add: validateTarget_None target_well_formed_def)
  have invalid: "validateTarget t = Some e \<Longrightarrow>
      e = PlanningError CategoryPlan CodeInvalidTarget (if tKind t = targetNamed then tKey t else zeroKey) zeroKey []" for t e
    by (auto simp: validateTarget_def newPlanningError_def split: target_kind.splits if_splits)
  note gap = validateAppliedHistory_gap[OF def, of ?A, folded applied_set_def, unfolded newPlanningError_def]
  consider e where "check_all validateTarget ts = Some e"
    | e where "check_all validateTarget ts = None" "validateAppliedHistory (built_graph ms) ?A = Some e"
    | "check_all validateTarget ts = None" "validateAppliedHistory (built_graph ms) ?A = None" by blast
  then show ?thesis
  proof cases
    case 1
    then have "Plan p a ts = Inl e" by (simp add: Plan_def)
    moreover obtain t where "first_failing target_well_formed t ts" "validateTarget t = Some e"
      using first_failing_check_all[OF 1, of target_well_formed] wfd by blast
    ultimately show ?thesis using invalid[of t e] by auto
  next
    case 2
    then have "Plan p a ts = Inl e" by (simp add: Plan_def Let_def g)
    moreover have "list_all target_well_formed ts" using 2(1) by (simp add: check_all_None list_all_iff wfd)
    ultimately show ?thesis using gap 2(2) by auto
  next
    case 3
    then have hist: "history_consistent (built_graph ms) (set ?A)" by (simp add: validateAppliedHistory_None_iff)
    have plan: "Plan p a ts = map_sum id fst (planTargets (built_graph ms) ts ?A)"
      using 3 by (simp add: Plan_def Let_def g)
    have no_gap: "\<not> (\<exists>c d. history_gap ms (applied_set a) c d)" using gap 3(2) by simp
    have valid: "list_all target_well_formed ts" using 3(1) by (simp add: check_all_None list_all_iff wfd)
    show ?thesis
    proof (cases "planTargets (built_graph ms) ts ?A")
      case (Inl e)
      from planTargets_first_unknown[OF built_graph_wf[OF def] hist Inl] no_gap valid Inl show ?thesis
        unfolding plan known newPlanningError_def by simp
    next
      case (Inr r)
      with planTargets_correct[OF built_graph_wf[OF def] hist, of ts] no_gap valid show ?thesis
        unfolding plan known by (simp add: list_all_iff split: prod.splits)
    qed
  qed
qed

theorem Plan_outcome_witness:
  "Plan sample_planner zeroAppliedState [NamedTarget (MigrationKey ''blog'' ''0003'')]
     = Inl (PlanningError CategoryPlan CodeTargetNotFound (MigrationKey ''blog'' ''0003'') zeroKey [])"
proof -
  let ?t = "NamedTarget (MigrationKey ''blog'' ''0003'')"
  have "target_well_formed ?t" unfolding target_well_formed_def by (intro disjI1 exI conjI) (rule refl, code_simp)
  moreover have "\<not> target_defined sample_migrations ?t"
    by (simp add: target_defined_def NamedTarget_def sample_migrations_def migration_Key_def)
  moreover have "\<not> history_gap sample_migrations (applied_set zeroAppliedState) c d" for c d
    by (simp add: history_gap_def applied_set_def zeroAppliedState_def cloneAppliedKeys_def)
  ultimately show ?thesis
    using Plan_outcome[OF sample_NewPlanner, where a = zeroAppliedState and ts = "[?t]"]
    by (auto simp: first_failing_def least_gap_def NamedTarget_def Cons_eq_append_conv split: sum.splits)
qed

text \<open>
  C8: a single target is reached: after its plan a named target is applied with nothing of its
  own app on top of it, and after a zero target no known migration of the app is applied; and
  planning the same target again gives the empty plan.
\<close>

theorem Plan_reaches_target:
  assumes "NewPlanner ms = Inr p" and "Plan p a [t] = Inr steps"
    and "exec_steps (planner_graph_of p) (applied_set a) steps = Some (applied_set b)"
  shows "(tKind t = targetNamed \<longrightarrow> tKey t \<in> applied_set b
       \<and> (\<forall>c \<in> set (children (planner_graph_of p) (tKey t)).
            kApp c = kApp (tKey t) \<longrightarrow> c \<notin> applied_set b))
    \<and> (tKind t = targetZero \<longrightarrow> (\<forall>m \<in> set ms. migApp m = tApp t \<longrightarrow> migration_Key m \<notin> applied_set b))
    \<and> Plan p b [t] = Inr []"
proof -
  let ?g = "planner_graph_of p"
  have wf: "planner_graph_wf ?g" using NewPlanner_wf[OF assms(1)] by (simp add: planner_wf_def)
  have nodes: "set (gNodes ?g) = migration_Key ` set ms"
    using assms(1) by (auto simp: NewPlanner_def planner_graph_of_def newPlannerGraph_Inr_iff
        graph_definable_def built_graph_facts(1) split: sum.splits)
  note c = Plan_cases[OF NewPlanner_wf[OF assms(1)], where a = a and ts = "[t]", unfolded assms(2), simplified]
  have eff: "applied_set b = target_effect ?g (applied_set a) t" using c assms(3) by simp
  note idem = target_effect_idem[OF wf, of "applied_set a" t, folded eff]
  have "planTarget ?g t (cloneAppliedKeys (asKeys b)) = Inr ([], cloneAppliedKeys (asKeys b))"
    by (rule planTarget_again[OF wf, where A = "cloneAppliedKeys (asKeys a)"])
      (use c eff in \<open>simp_all add: applied_set_def\<close>)
  moreover have "validateAppliedHistory ?g (cloneAppliedKeys (asKeys b)) = None"
    using c eff by (simp add: validateAppliedHistory_None_iff applied_set_def)
  ultimately have "Plan p b [t] = Inr []"
    using c by (simp add: Plan_def Let_def)
  moreover have "kApp (migration_Key m) = migApp m" for m by (simp add: migration_Key_def)
  ultimately show ?thesis using idem c nodes by auto
qed

theorem Plan_reaches_target_witness:
  "Plan sample_planner \<lparr>asKeys = Some [MigrationKey ''blog'' ''0002'', MigrationKey ''blog'' ''0001'']\<rparr>
     [NamedTarget (MigrationKey ''blog'' ''0002'')] = Inr []"
proof -
  have "exec_steps (planner_graph_of sample_planner) (applied_set zeroAppliedState) sample_plan
      = Some (applied_set \<lparr>asKeys = Some [MigrationKey ''blog'' ''0002'', MigrationKey ''blog'' ''0001'']\<rparr>)"
    by (simp add: sample_plan_def sample_planner_def planner_graph_of_def applied_set_def
        zeroAppliedState_def cloneAppliedKeys_def exec_step_def slice_at_def)
  from Plan_reaches_target[OF sample_NewPlanner sample_Plan this] show ?thesis by blast
qed

end
