(* ===== verification/Execution.thy ===== *)
theory Execution
  imports Executor Planner
begin

text \<open>
  The execution of a whole plan (\<open>migrations/execution.go\<close>): \<open>ExecutePlan\<close> checks the
  definitions, the plan and every state transition before the first transaction starts, then
  runs one migration transaction per step and stops at the first that fails.
\<close>

section \<open>Snapshots of the definitions\<close>

fun cloneMigrationOperation :: "operation \<Rightarrow> operation" where
  "cloneMigrationOperation (PointerOperation b) = ValueOperation b"
| "cloneMigrationOperation op = op"

definition cloneMigrationDefinitions :: "migration list \<Rightarrow> migration list" where
  "cloneMigrationDefinitions definitions =
     map (\<lambda>d. d\<lparr>migOperations := map cloneMigrationOperation (migOperations d)\<rparr>) definitions"

lemma operation_builtin_clone [simp]: "operation_builtin (cloneMigrationOperation op) = operation_builtin op"
  by (cases op) simp_all

lemma migration_Key_clone [simp]: "migration_Key (m\<lparr>migOperations := ops\<rparr>) = migration_Key m"
  by (simp add: migration_Key_def)

section \<open>Plan preflight\<close>

definition step_migration :: "plan_step \<Rightarrow> migration" where
  "step_migration s = \<lparr>migApp = kApp (psKey s), migName = kName (psKey s),
     migDependencies = [], migOperations = []\<rparr>"

definition executionPlanError :: "error_code \<Rightarrow> plan_step \<Rightarrow> go_error \<Rightarrow> go_error" where
  "executionPlanError code step cause =
     migrationError CategoryExecution code (psDirection step) (step_migration step) NoOperation '''' cause"

definition executionContextError :: "plan_step \<Rightarrow> go_error \<Rightarrow> go_error" where
  "executionContextError step cause = executionPlanError CodeOperationFailed step cause"

text \<open>The map from keys to definitions, or the error of the first bad definition.\<close>

fun index_definitions :: "nat \<Rightarrow> (migration_key \<times> migration) list \<Rightarrow> migration list
    \<Rightarrow> go_error + (migration_key \<times> migration) list" where
  "index_definitions index byKey [] = Inr byKey"
| "index_definitions index byKey (m # ms) =
     (let key = migration_Key m;
          step = \<lparr>psKey = key, psDirection = DirectionOther ''''\<rparr> in
      if \<not> validMigrationKey key
      then Inl (executionPlanError CodeInvalidExecutionPlan step
             (ErrFmt ''definition[%d] has an invalid migration key'' [FInt (int index)]))
      else if map_of byKey key \<noteq> None
      then Inl (executionPlanError CodeInvalidExecutionPlan step
             (ErrFmt ''definition[%d] duplicates migration %s.%s''
                [FInt (int index), FStr (kApp key), FStr (kName key)]))
      else index_definitions (Suc index) (map_set key m byKey) ms)"

text \<open>The checks of the plan itself; the direction is \<open>None\<close> before the first step.\<close>

fun check_plan :: "(migration_key \<times> migration) list \<Rightarrow> nat \<Rightarrow> migration_key list \<Rightarrow> direction option
    \<Rightarrow> plan_step list \<Rightarrow> go_error option" where
  "check_plan byKey index seen dir [] = None"
| "check_plan byKey index seen dir (step # steps) =
     (if \<not> validMigrationKey (psKey step)
      then Some (executionPlanError CodeInvalidExecutionPlan step
             (ErrFmt ''plan[%d] has an invalid migration key'' [FInt (int index)]))
      else if psDirection step \<noteq> DirectionForward \<and> psDirection step \<noteq> DirectionBackward
      then Some (executionPlanError CodeInvalidExecutionPlan step
             (ErrFmt ''plan[%d] has invalid direction %q'' [FInt (int index), FDir (psDirection step)]))
      else if psKey step \<in> set seen
      then Some (executionPlanError CodeInvalidExecutionPlan step
             (ErrFmt ''plan[%d] duplicates migration %s.%s''
                [FInt (int index), FStr (kApp (psKey step)), FStr (kName (psKey step))]))
      else if map_of byKey (psKey step) = None
      then Some (executionPlanError CodeInvalidExecutionPlan step
             (ErrFmt ''plan[%d] has no definition for migration %s.%s''
                [FInt (int index), FStr (kApp (psKey step)), FStr (kName (psKey step))]))
      else (case dir of
              None \<Rightarrow> check_plan byKey (Suc index) (psKey step # seen) (Some (psDirection step)) steps
            | Some d \<Rightarrow>
                if psDirection step \<noteq> d
                then Some (executionPlanError CodeMixedDirections step
                       (ErrFmt ''plan[%d] direction %q differs from plan direction %q''
                          [FInt (int index), FDir (psDirection step), FDir d]))
                else check_plan byKey (Suc index) (psKey step # seen) dir steps))"

record prepared_plan_step =
  ppStep :: plan_step
  ppMigration :: migration
  ppAfter :: project_state

text \<open>The loop that replays the state transitions, reading the context before each step.\<close>

fun prepare_steps :: "unicode_tables \<Rightarrow> ('w \<Rightarrow> go_error option \<times> 'w) \<Rightarrow> (migration_key \<times> migration) list
    \<Rightarrow> project_state \<Rightarrow> plan_step list \<Rightarrow> 'w \<Rightarrow> (go_error + prepared_plan_step list) \<times> 'w" where
  "prepare_steps uc ctxErr byKey working [] w = (Inr [], w)"
| "prepare_steps uc ctxErr byKey working (step # steps) w =
     (case ctxErr w of
        (Some err, w1) \<Rightarrow> (Inl (executionContextError step err), w1)
      | (None, w1) \<Rightarrow>
        (let m = (case map_of byKey (psKey step) of
                    None \<Rightarrow> \<lparr>migApp = '''', migName = '''', migDependencies = [], migOperations = []\<rparr>
                  | Some m \<Rightarrow> m) in
         case preflight uc working m (psDirection step) of
           Inl err \<Rightarrow> (Inl err, w1)
         | Inr (_, after) \<Rightarrow>
             (case prepare_steps uc ctxErr byKey after steps w1 of
                (Inl err, w2) \<Rightarrow> (Inl err, w2)
              | (Inr prepared, w2) \<Rightarrow>
                  (Inr (\<lparr>ppStep = step, ppMigration = m, ppAfter = State_Clone after\<rparr> # prepared), w2))))"

definition preflightPlan :: "unicode_tables \<Rightarrow> ('w \<Rightarrow> go_error option \<times> 'w) \<Rightarrow> project_state
    \<Rightarrow> migration list \<Rightarrow> plan_step list \<Rightarrow> 'w \<Rightarrow> (go_error + prepared_plan_step list) \<times> 'w" where
  "preflightPlan uc ctxErr before definitions plan w =
     (case index_definitions 0 [] definitions of
        Inl err \<Rightarrow> (Inl err, w)
      | Inr byKey \<Rightarrow>
          (case check_plan byKey 0 [] None plan of
             Some err \<Rightarrow> (Inl err, w)
           | None \<Rightarrow> prepare_steps uc ctxErr byKey (State_Clone before) plan w))"

section \<open>Execution\<close>

fun run_plan :: "unicode_tables \<Rightarrow> ('w \<Rightarrow> go_error option \<times> 'w) \<Rightarrow> ('w, 't) atomic_backend option
    \<Rightarrow> project_state \<Rightarrow> prepared_plan_step list \<Rightarrow> 'w \<Rightarrow> (project_state \<times> go_error option) \<times> 'w" where
  "run_plan uc ctxErr be working [] w = ((State_Clone working, None), w)"
| "run_plan uc ctxErr be working (p # ps) w =
     (case ctxErr w of
        (Some err, w1) \<Rightarrow> ((State_Clone working, Some (executionContextError (ppStep p) err)), w1)
      | (None, w1) \<Rightarrow>
        (case (if psDirection (ppStep p) = DirectionForward
               then Apply uc (Some ctxErr) be working (ppMigration p) w1
               else Unapply uc (Some ctxErr) be working (ppMigration p) w1) of
           ((_, Some err), w2) \<Rightarrow> ((State_Clone working, Some err), w2)
         | ((_, None), w2) \<Rightarrow> run_plan uc ctxErr be (State_Clone (ppAfter p)) ps w2))"

definition ExecutePlan :: "unicode_tables \<Rightarrow> 'w go_context \<Rightarrow> ('w, 't) atomic_backend option
    \<Rightarrow> project_state \<Rightarrow> migration list \<Rightarrow> plan_step list \<Rightarrow> 'w
    \<Rightarrow> (project_state \<times> go_error option) \<times> 'w" where
  "ExecutePlan uc ctx be before definitions plan w =
     (case ctx of
        None \<Rightarrow> ((State_Clone before, Some (executionContextError zeroStep (ErrNew ''context is nil''))), w)
      | Some ctxErr \<Rightarrow>
        (case ctxErr w of
           (Some err, w1) \<Rightarrow> ((State_Clone before, Some (executionContextError zeroStep err)), w1)
         | (None, w1) \<Rightarrow>
           (if plan = [] then ((State_Clone before, None), w1)
            else (case preflightPlan uc ctxErr before (cloneMigrationDefinitions definitions) plan w1 of
                    (Inl err, w2) \<Rightarrow> ((State_Clone before, Some err), w2)
                  | (Inr prepared, w2) \<Rightarrow> run_plan uc ctxErr be (State_Clone before) prepared w2))))"

section \<open>What plan preflight establishes\<close>

lemma State_validate_Clone:
  "state_map s \<Longrightarrow> State_validate uc (State_Clone s) = State_validate uc s"
  by (simp add: State_validate_def)

lemma preflight_Clone:
  "state_map s \<Longrightarrow> preflight uc (State_Clone s) m dir = preflight uc s m dir"
  unfolding preflight_def by (simp only: State_validate_Clone State_Clone_idem)

lemma preflight_after_map:
  assumes "state_map s" "preflight uc s m dir = Inr (ps, after)"
  shows "state_map after"
proof -
  from preflight_Inr[OF assms] obtain t where "after = State_Clone t" "state_wf uc s"
    "prepared_chain uc dir (State_Clone s) ps t" .
  then show ?thesis using prepared_chain_wf state_wf_Clone state_wf_map by metis
qed

text \<open>The prepared steps replay the migrations of the plan from the state before.\<close>

fun plan_prepared :: "unicode_tables \<Rightarrow> project_state \<Rightarrow> prepared_plan_step list \<Rightarrow> bool" where
  "plan_prepared uc s [] \<longleftrightarrow> True"
| "plan_prepared uc s (p # ps) \<longleftrightarrow>
     (\<exists>qs after. preflight uc s (ppMigration p) (psDirection (ppStep p)) = Inr (qs, after)
        \<and> ppAfter p = State_Clone after \<and> plan_prepared uc after ps)"

lemma prepare_steps_Inr:
  "prepare_steps uc ctxErr byKey s steps w = (Inr ps, w') \<Longrightarrow>
     plan_prepared uc s ps \<and> map ppStep ps = steps"
proof (induction steps arbitrary: s ps w)
  case (Cons step steps)
  let ?m = "case map_of byKey (psKey step) of
      None \<Rightarrow> \<lparr>migApp = '''', migName = '''', migDependencies = [], migOperations = []\<rparr> | Some m \<Rightarrow> m"
  from Cons.prems obtain w1 qs after rest where
    pre: "preflight uc s ?m (psDirection step) = Inr (qs, after)"
    and rest: "prepare_steps uc ctxErr byKey after steps w1 = (Inr rest, w')"
    and ps: "ps = \<lparr>ppStep = step, ppMigration = ?m, ppAfter = State_Clone after\<rparr> # rest"
    by (auto simp: Let_def split: option.splits prod.splits sum.splits)
  from Cons.IH[OF rest] pre show ?case by (auto simp: ps)
qed simp

lemma check_plan_None:
  assumes "check_plan byKey index seen dir steps = None"
  shows "(\<forall>s \<in> set steps. validMigrationKey (psKey s) \<and> map_of byKey (psKey s) \<noteq> None
      \<and> (psDirection s = DirectionForward \<or> psDirection s = DirectionBackward))
    \<and> distinct (map psKey steps) \<and> psKey ` set steps \<inter> set seen = {}
    \<and> (\<forall>d. dir = Some d \<longrightarrow> (\<forall>s \<in> set steps. psDirection s = d))
    \<and> (\<forall>s \<in> set steps. \<forall>t \<in> set steps. psDirection s = psDirection t)"
  using assms
proof (induction steps arbitrary: index seen dir)
  case (Cons s steps)
  have next_ok: "check_plan byKey (Suc index) (psKey s # seen) (Some (psDirection s)) steps = None"
    using Cons.prems by (auto split: if_splits option.splits)
  have here: "validMigrationKey (psKey s)" "map_of byKey (psKey s) \<noteq> None" "psKey s \<notin> set seen"
    "psDirection s = DirectionForward \<or> psDirection s = DirectionBackward"
    using Cons.prems by (simp_all split: if_splits)
  have same: "dir = Some d \<Longrightarrow> psDirection s = d" for d
    using Cons.prems by (simp split: if_splits)
  note IH = Cons.IH[OF next_ok]
  have dirs: "\<forall>t \<in> set steps. psDirection t = psDirection s" using IH by blast
  show ?case
  proof (intro conjI)
    show "\<forall>t \<in> set (s # steps). validMigrationKey (psKey t) \<and> map_of byKey (psKey t) \<noteq> None
        \<and> (psDirection t = DirectionForward \<or> psDirection t = DirectionBackward)"
      using IH here by (simp only: list.set ball_simps) blast
    show "distinct (map psKey (s # steps))" using IH by auto
    show "psKey ` set (s # steps) \<inter> set seen = {}" using IH here by auto
    show "\<forall>d. dir = Some d \<longrightarrow> (\<forall>t \<in> set (s # steps). psDirection t = d)"
      using dirs same by auto
    show "\<forall>t \<in> set (s # steps). \<forall>u \<in> set (s # steps). psDirection t = psDirection u"
      using dirs by simp
  qed
qed simp

section \<open>Progress through a plan\<close>

text \<open>
  The plan stops between two migrations: the steps done took the durable database along, and
  the state returned is the state of the steps done.
\<close>

context atomic_backend_laws
begin

inductive plan_progress :: "unicode_tables \<Rightarrow> project_state \<Rightarrow> prepared_plan_step list \<Rightarrow> 'd
    \<Rightarrow> 'd \<Rightarrow> project_state \<Rightarrow> bool" where
  progress_done: "plan_progress uc s [] d d (State_Clone s)"
| progress_step: "preflight uc s (ppMigration p) (psDirection (ppStep p)) = Inr (qs, after) \<Longrightarrow>
    migrated (psDirection (ppStep p)) (ppMigration p) qs d d' \<Longrightarrow>
    plan_progress uc after ps d' d'' t \<Longrightarrow> plan_progress uc s (p # ps) d d'' t"

inductive_cases plan_progress_NilE: "plan_progress uc s [] d d' t"
inductive_cases plan_progress_ConsE: "plan_progress uc s (p # ps) d d' t"

lemma plan_progress_Clone:
  "state_map s \<Longrightarrow> plan_progress uc (State_Clone s) ps d d' t \<longleftrightarrow> plan_progress uc s ps d d' t"
proof (cases ps)
  case Nil
  assume "state_map s"
  with Nil show ?thesis
    by (auto elim!: plan_progress_NilE simp: State_Clone_idem intro: progress_done)
      (metis State_Clone_idem progress_done)
next
  case (Cons p ps')
  assume "state_map s"
  then show ?thesis
    unfolding Cons by (auto elim!: plan_progress_ConsE simp: preflight_Clone intro: progress_step)
qed

lemma run_plan_progress:
  assumes "plan_prepared uc s ps" "state_map s"
    and "\<forall>p \<in> set ps. psDirection (ppStep p) = DirectionForward \<or> psDirection (ppStep p) = DirectionBackward"
    and "run_plan uc ctxErr (Some be) (State_Clone s) ps w = ((t, r), w')"
  shows "\<exists>before_ps after_ps d. ps = before_ps @ after_ps \<and> plan_progress uc s before_ps (durable w) d t
    \<and> (r = None \<longleftrightarrow> after_ps = [])
    \<and> (durable w' = d \<or> (\<exists>err p rest qs after. r = Some err \<and> is_MigrationError err \<and> meCode err = CodeCommitFailed
          \<and> after_ps = p # rest \<and> preflight uc t (ppMigration p) (psDirection (ppStep p)) = Inr (qs, after)
          \<and> migrated (psDirection (ppStep p)) (ppMigration p) qs d (durable w')))"
  using assms
proof (induction ps arbitrary: s w)
  case Nil
  then show ?case
    by (auto simp: State_Clone_idem intro: progress_done)
next
  case (Cons p ps)
  obtain c w1 where c: "ctxErr w = (c, w1)" by fastforce
  have d1: "durable w1 = durable w" using ctx_durable[of w] c by simp
  show ?case
  proof (cases c)
    case (Some err)
    with Cons.prems c have "t = State_Clone s" "r \<noteq> None" "w' = w1" by (auto simp: State_Clone_idem)
    then show ?thesis
      using d1 progress_done[of uc s "durable w"] by (intro exI[of _ "[]"] exI[of _ "p # ps"]) auto
  next
    case None
    let ?dir = "psDirection (ppStep p)"
    obtain qs after where pre: "preflight uc s (ppMigration p) ?dir = Inr (qs, after)"
      and aft: "ppAfter p = State_Clone after" and rest: "plan_prepared uc after ps"
      using Cons.prems(1) by auto
    have am: "state_map after" by (rule preflight_after_map[OF Cons.prems(2) pre])
    obtain x r1 w2 where run: "execute uc (Some ctxErr) (Some be) (State_Clone s) (ppMigration p) ?dir w1
        = ((x, r1), w2)" by (metis prod.collapse)
    have step: "run_plan uc ctxErr (Some be) (State_Clone s) (p # ps) w =
      (case r1 of Some err \<Rightarrow> ((State_Clone (State_Clone s), Some err), w2)
        | None \<Rightarrow> run_plan uc ctxErr (Some be) (State_Clone (ppAfter p)) ps w2)"
      using c None run Cons.prems(3)
      by (auto simp: Apply_def Unapply_def split: option.splits)
    note atomic = execute_atomic[OF run, unfolded preflight_Clone[OF Cons.prems(2)] pre d1]
    show ?thesis
    proof (cases r1)
      case (Some err)
      with Cons.prems(4) step have t: "t = State_Clone s" "r = Some err" "w' = w2"
        by (simp_all add: State_Clone_idem[OF Cons.prems(2)])
      have "plan_progress uc s [] (durable w) (durable w) t" by (simp add: t progress_done)
      moreover have "preflight uc t (ppMigration p) ?dir = Inr (qs, after)"
        using pre preflight_Clone[OF Cons.prems(2)] by (simp add: t)
      ultimately show ?thesis using atomic Some t
        by (intro exI[of _ "[]"] exI[of _ "p # ps"] exI[of _ "durable w"]) auto
    next
      case None1: None
      then have mig: "migrated ?dir (ppMigration p) qs (durable w) (durable w2)" using atomic by auto
      have "run_plan uc ctxErr (Some be) (State_Clone after) ps w2 = ((t, r), w')"
        using Cons.prems(4) step None1 aft State_Clone_idem[OF am] by simp
      from Cons.IH[OF rest am _ this] Cons.prems(3) obtain b a d where
        b: "ps = b @ a" "plan_progress uc after b (durable w2) d t" "r = None \<longleftrightarrow> a = []"
        and last: "durable w' = d \<or> (\<exists>err p rest qs after. r = Some err \<and> is_MigrationError err \<and> meCode err = CodeCommitFailed
          \<and> a = p # rest \<and> preflight uc t (ppMigration p) (psDirection (ppStep p)) = Inr (qs, after)
          \<and> migrated (psDirection (ppStep p)) (ppMigration p) qs d (durable w'))"
        by auto
      have "plan_progress uc s (p # b) (durable w) d t" by (rule progress_step[OF pre mig b(2)])
      with b last show ?thesis
        by (intro exI[of _ "p # b"] exI[of _ a] exI[of _ d]) simp
    qed
  qed
qed

end

end
