(* ===== verification/Sqlite_Migrations.thy ===== *)
theory Sqlite_Migrations
  imports Sqlite_Inspect Execution
begin

text \<open>
  The SQLite migration transaction (\<open>db/sqlite/migration_backend.go\<close>): one pinned connection and
  one \<open>sql.Tx\<close> through which both the schema edits and the recorder go, with a \<open>done\<close> flag that
  makes the terminal calls single. The mutex has no counterpart: calls are sequential. The last
  section interprets the executor's locale \<open>atomic_backend_laws\<close> on this model.
\<close>

section \<open>Beginning and executing\<close>

definition wrapCommitMigration :: "go_error option \<Rightarrow> go_error option" where
  "wrapCommitMigration err = map_option (ErrWrap ''commit SQLite migration: %w'' []) err"

definition wrapRollbackMigration :: "go_error option \<Rightarrow> go_error option" where
  "wrapRollbackMigration err = map_option (ErrWrap ''rollback SQLite migration: %w'' []) err"

definition wrapCloseMigrationConnection :: "go_error option \<Rightarrow> go_error option" where
  "wrapCloseMigrationConnection err = map_option (ErrWrap ''close SQLite migration connection: %w'' []) err"

definition open_tx :: "'d sqlite_world \<Rightarrow> nat \<times> 'd sqlite_world" where
  "open_tx w = (swNext w, w\<lparr>swTxs := (swTxs w)(swNext w \<mapsto> \<lparr>mtView = Some (swDurable w), mtDone = False\<rparr>),
                            swNext := Suc (swNext w)\<rparr>)"

definition BeginMigration :: "'d sqlite_driver \<Rightarrow> call_context \<Rightarrow> 'd sqlite_world
    \<Rightarrow> (go_error + nat option) \<times> 'd sqlite_world" where
  "BeginMigration drv c w =
     (if unusable drv w then (Inl (ErrNew ''begin SQLite migration: backend is nil or closed''), w)
      else if c = NilContext then (Inl (ErrNew ''begin SQLite migration: context is nil''), w)
      else
      (case ctx_err drv c w of
         (Some err, w1) \<Rightarrow> (Inl (ErrWrap ''begin SQLite migration: %w'' [] err), w1)
       | (None, w1) \<Rightarrow>
       (case drConn drv (swClock w1) of
          Some err \<Rightarrow> (Inl (ErrWrap ''acquire SQLite migration connection: %w'' [] err), tick w1)
        | None \<Rightarrow>
        (case drBeginTx drv (swClock (tick w1)) of
           Some err \<Rightarrow>
             (case connection_close drv (tick (tick w1)) of
                (closeErr, w2) \<Rightarrow>
                  (Inl (the (errors_join [Some (ErrWrap ''begin SQLite migration transaction: %w'' [] err),
                                          wrapCloseMigrationConnection closeErr])), w2))
         | None \<Rightarrow> (case open_tx (tick (tick w1)) of (tx, w2) \<Rightarrow> (Inr (Some tx), w2))))))"

definition mt_execute :: "'d sqlite_driver \<Rightarrow> nat \<Rightarrow> call_context \<Rightarrow> ('d, 'a) sqlite_step \<Rightarrow> ('d, 'a) sqlite_step" where
  "mt_execute drv tx c operation w =
     (if swTxs w tx = None then (Inl (ErrNew ''execute SQLite migration: transaction is nil''), w)
      else if c = NilContext then (Inl (ErrNew ''execute SQLite migration: context is nil''), w)
      else
      (case ctx_err drv c w of
         (Some err, w1) \<Rightarrow> (Inl (ErrWrap ''execute SQLite migration: %w'' [] err), w1)
       | (None, w1) \<Rightarrow>
         if tx_done tx w1 then (Inl (ErrNew ''execute SQLite migration: transaction is already complete''), w1)
         else operation w1))"

section \<open>The schema editor\<close>

definition exec_statement :: "'d sqlite_driver \<Rightarrow> nat \<Rightarrow> string \<Rightarrow> sql_value list \<Rightarrow> (go_error \<Rightarrow> go_error)
    \<Rightarrow> ('d, unit) sqlite_step" where
  "exec_statement drv tx statement arguments wrap =
     bind_step (wrap_step wrap (tx_exec drv tx statement arguments)) (\<lambda>_. return_step ())"

definition mt_CreateModel :: "'d sqlite_driver \<Rightarrow> nat \<Rightarrow> call_context \<Rightarrow> ir_model \<Rightarrow> ('d, unit) sqlite_step" where
  "mt_CreateModel drv tx c m =
     (case compileMigrationCreateModel m of
        Inl err \<Rightarrow> fail_step err
      | Inr statement \<Rightarrow> mt_execute drv tx c
          (exec_statement drv tx statement [] (ErrWrap ''create SQLite model %q: %w'' [FStr (mDBTable m)])))"

definition mt_DeleteModel :: "'d sqlite_driver \<Rightarrow> nat \<Rightarrow> call_context \<Rightarrow> ir_model \<Rightarrow> ('d, unit) sqlite_step" where
  "mt_DeleteModel drv tx c m =
     (case compileMigrationDeleteModel m of
        Inl err \<Rightarrow> fail_step err
      | Inr statement \<Rightarrow> mt_execute drv tx c
          (exec_statement drv tx statement [] (ErrWrap ''delete SQLite model %q: %w'' [FStr (mDBTable m)])))"

definition TableExists :: "'d sqlite_driver \<Rightarrow> nat \<Rightarrow> call_context \<Rightarrow> string \<Rightarrow> 'd sqlite_world
    \<Rightarrow> (bool \<times> go_error option) \<times> 'd sqlite_world" where
  "TableExists drv tx c table w =
     (if table = '''' then ((False, Some (ErrNew ''inspect SQLite migration table: name is empty'')), w)
      else
      (case mt_execute drv tx c
              (wrap_step (ErrWrap ''inspect SQLite migration table %q: %w'' [FStr table])
                 (bind_step
                    (tx_query_row drv tx ''SELECT COUNT(*) FROM \"sqlite_schema\" WHERE \"type\" = 'table' AND \"name\" = ?'' [SqlText table])
                    (\<lambda>cells. lift_result
                       (scan_row (\<lambda>cs. case cs of [CellInt n] \<Rightarrow> Some n | _ \<Rightarrow> None) (Inr cells))))) w of
         (Inl err, w') \<Rightarrow> ((False, Some err), w')
       | (Inr n, w') \<Rightarrow> ((n = 1, None), w')))"

definition add_field_refusal :: "string \<Rightarrow> ir_model \<Rightarrow> ir_field \<Rightarrow> go_error" where
  "add_field_refusal format m field =
     NewCapabilityError ''sqlite_add_field'' (Text format [FStr (mDBTable m), FStr (fColumn field)]) None"

definition add_field_step :: "'d sqlite_driver \<Rightarrow> nat \<Rightarrow> ir_model \<Rightarrow> ir_field \<Rightarrow> string \<Rightarrow> ('d, unit) sqlite_step" where
  "add_field_step drv tx m field statement =
     bind_step
       (if \<not> fNullable field
        then bind_step (sqliteTableEmpty drv tx (mDBTable m))
          (\<lambda>empty. if \<not> empty
             then fail_step (add_field_refusal ''table %s contains rows; adding non-null field %s requires table rebuild'' m field)
             else return_step ())
        else return_step ())
       (\<lambda>_. exec_statement drv tx statement []
              (ErrWrap ''add SQLite field %s.%s: %w'' [FStr (mDBTable m), FStr (fColumn field)]))"

definition mt_AddField :: "'d sqlite_driver \<Rightarrow> nat \<Rightarrow> call_context \<Rightarrow> ir_model \<Rightarrow> ir_field \<Rightarrow> ('d, unit) sqlite_step" where
  "mt_AddField drv tx c m field =
     (if fPrimaryKey field then fail_step (add_field_refusal ''field %s.%s must be non-primary-key'' m field)
      else if fDefault field \<noteq> None
      then fail_step (add_field_refusal ''field %s.%s has a default; one-time backfill without a persistent database default requires table rebuild'' m field)
      else
      (case compileMigrationAddField m field of
         Inl err \<Rightarrow> fail_step err
       | Inr statement \<Rightarrow> mt_execute drv tx c (add_field_step drv tx m field statement)))"

definition remove_field_error :: "unicode_tables \<Rightarrow> 'd sqlite_driver \<Rightarrow> ir_model \<Rightarrow> ir_field \<Rightarrow> go_error \<Rightarrow> go_error" where
  "remove_field_error uc drv m field err =
     (if sqliteDropColumnCapabilityFailure uc drv err
      then NewCapabilityError ''sqlite_drop_column''
             (Text ''SQLite rejected native DROP COLUMN for %s.%s; table rebuild is disabled''
                [FStr (mDBTable m), FStr (fColumn field)]) (Some err)
      else ErrWrap ''remove SQLite field %s.%s: %w'' [FStr (mDBTable m), FStr (fColumn field)] err)"

definition mt_RemoveField :: "unicode_tables \<Rightarrow> 'd sqlite_driver \<Rightarrow> nat \<Rightarrow> call_context \<Rightarrow> ir_model \<Rightarrow> ir_field
    \<Rightarrow> ('d, unit) sqlite_step" where
  "mt_RemoveField uc drv tx c m field =
     (if fPrimaryKey field
      then fail_step (NewCapabilityError ''sqlite_drop_column''
             (Text ''field %s.%s must be non-primary-key'' [FStr (mDBTable m), FStr (fColumn field)]) None)
      else
      (case compileMigrationRemoveField m field of
         Inl err \<Rightarrow> fail_step err
       | Inr statement \<Rightarrow> mt_execute drv tx c
           (bind_step (preflightSQLiteDropColumn uc drv tx m field)
              (\<lambda>_. exec_statement drv tx statement [] (remove_field_error uc drv m field)))))"

fun mt_edit :: "unicode_tables \<Rightarrow> 'd sqlite_driver \<Rightarrow> nat \<Rightarrow> call_context \<Rightarrow> schema_edit \<Rightarrow> ('d, unit) sqlite_step" where
  "mt_edit uc drv tx c (EditCreateModel m) = mt_CreateModel drv tx c m"
| "mt_edit uc drv tx c (EditDeleteModel m) = mt_DeleteModel drv tx c m"
| "mt_edit uc drv tx c (EditAddField m f) = mt_AddField drv tx c m f"
| "mt_edit uc drv tx c (EditRemoveField m f) = mt_RemoveField uc drv tx c m f"

section \<open>The recorder\<close>

definition createMigrationRecorderTableSQL :: string where
  "createMigrationRecorderTableSQL =
     ''CREATE TABLE IF NOT EXISTS \"godj_migrations\" ('' @ ''\"app\" VARCHAR(255) NOT NULL, ''
     @ ''\"name\" VARCHAR(255) NOT NULL, '' @ ''PRIMARY KEY (\"app\", \"name\"))''"

definition insertRecordSQL :: string where
  "insertRecordSQL = ''INSERT INTO \"godj_migrations\" (\"app\", \"name\") VALUES (?, ?)''"

definition deleteRecordSQL :: string where
  "deleteRecordSQL = ''DELETE FROM \"godj_migrations\" WHERE \"app\" = ? AND \"name\" = ?''"

definition ensureMigrationRecorder :: "'d sqlite_driver \<Rightarrow> nat \<Rightarrow> ('d, unit) sqlite_step" where
  "ensureMigrationRecorder drv tx =
     exec_statement drv tx createMigrationRecorderTableSQL [] (ErrWrap ''ensure SQLite migration recorder: %w'' [])"

definition record_applied_step :: "'d sqlite_driver \<Rightarrow> nat \<Rightarrow> string \<Rightarrow> string \<Rightarrow> ('d, unit) sqlite_step" where
  "record_applied_step drv tx app name =
     bind_step (ensureMigrationRecorder drv tx)
       (\<lambda>_. exec_statement drv tx insertRecordSQL [SqlText app, SqlText name]
          (ErrWrap ''record applied SQLite migration %s.%s: %w'' [FStr app, FStr name]))"

definition mt_RecordApplied :: "'d sqlite_driver \<Rightarrow> nat \<Rightarrow> call_context \<Rightarrow> string \<Rightarrow> string \<Rightarrow> ('d, unit) sqlite_step" where
  "mt_RecordApplied drv tx c app name =
     (if app = '''' \<or> name = ''''
      then fail_step (ErrNew ''record applied SQLite migration: app and name are required'')
      else mt_execute drv tx c (record_applied_step drv tx app name))"

definition count_removed :: "string \<Rightarrow> string \<Rightarrow> exec_result \<Rightarrow> ('d, unit) sqlite_step" where
  "count_removed app name result =
     (case erRowsAffected result of
        Inl err \<Rightarrow> fail_step (ErrWrap ''count removed SQLite migration record %s.%s: %w'' [FStr app, FStr name] err)
      | Inr rowsAffected \<Rightarrow>
          if rowsAffected \<noteq> 1
          then fail_step (ErrFmt ''record unapplied SQLite migration %s.%s: removed %d records, want 1''
                 [FStr app, FStr name, FInt rowsAffected])
          else return_step ())"

definition record_unapplied_step :: "'d sqlite_driver \<Rightarrow> nat \<Rightarrow> string \<Rightarrow> string \<Rightarrow> ('d, unit) sqlite_step" where
  "record_unapplied_step drv tx app name =
     bind_step (ensureMigrationRecorder drv tx)
       (\<lambda>_. bind_step
          (wrap_step (ErrWrap ''record unapplied SQLite migration %s.%s: %w'' [FStr app, FStr name])
             (tx_exec drv tx deleteRecordSQL [SqlText app, SqlText name]))
          (count_removed app name))"

definition mt_RecordUnapplied :: "'d sqlite_driver \<Rightarrow> nat \<Rightarrow> call_context \<Rightarrow> string \<Rightarrow> string \<Rightarrow> ('d, unit) sqlite_step" where
  "mt_RecordUnapplied drv tx c app name =
     (if app = '''' \<or> name = ''''
      then fail_step (ErrNew ''record unapplied SQLite migration: app and name are required'')
      else mt_execute drv tx c (record_unapplied_step drv tx app name))"

section \<open>Ending\<close>

definition mt_Commit :: "'d sqlite_driver \<Rightarrow> nat \<Rightarrow> call_context \<Rightarrow> 'd sqlite_world
    \<Rightarrow> go_error option \<times> 'd sqlite_world" where
  "mt_Commit drv tx c w =
     (if swTxs w tx = None then (Some (ErrNew ''commit SQLite migration: transaction is nil''), w)
      else if c = NilContext then (Some (ErrNew ''commit SQLite migration: context is nil''), w)
      else if tx_done tx w then (Some (ErrNew ''commit SQLite migration: transaction is already complete''), w)
      else
      (case ctx_err drv c w of
         (Some err, w1) \<Rightarrow> (Some (ErrWrap ''commit SQLite migration: %w'' [] err), w1)
       | (None, w1) \<Rightarrow>
         (case tx_commit drv tx (set_done tx w1) of
            (commitErr, w2) \<Rightarrow>
            (case connection_close drv w2 of
               (closeErr, w3) \<Rightarrow>
                 (errors_join [wrapCommitMigration commitErr, wrapCloseMigrationConnection closeErr], w3)))))"

definition mt_Rollback :: "'d sqlite_driver \<Rightarrow> nat \<Rightarrow> call_context \<Rightarrow> 'd sqlite_world
    \<Rightarrow> go_error option \<times> 'd sqlite_world" where
  "mt_Rollback drv tx c w =
     (if swTxs w tx = None then (Some (ErrNew ''rollback SQLite migration: transaction is nil''), w)
      else if c = NilContext then (Some (ErrNew ''rollback SQLite migration: context is nil''), w)
      else if tx_done tx w then (None, w)
      else
      (case tx_rollback drv tx (set_done tx w) of
         (rollbackErr, w1) \<Rightarrow>
         (let rollbackErr = (case rollbackErr of
                None \<Rightarrow> None
              | Some err \<Rightarrow> if errors_is err SqlErrTxDone then None else Some err) in
          case connection_close drv w1 of
            (closeErr, w2) \<Rightarrow>
              (errors_join [wrapRollbackMigration rollbackErr, wrapCloseMigrationConnection closeErr], w2))))"

text \<open>The backend handed to the executor.\<close>

definition sqlite_backend :: "unicode_tables \<Rightarrow> 'd sqlite_driver \<Rightarrow> ('d sqlite_world, nat) atomic_backend" where
  "sqlite_backend uc drv =
     \<lparr>abBegin = BeginMigration drv,
      abEdit = (\<lambda>tx c e w. error_of (mt_edit uc drv tx c e w)),
      abRecordApplied = (\<lambda>tx c app name w. error_of (mt_RecordApplied drv tx c app name w)),
      abRecordUnapplied = (\<lambda>tx c app name w. error_of (mt_RecordUnapplied drv tx c app name w)),
      abCommit = mt_Commit drv,
      abRollback = mt_Rollback drv\<rparr>"

section \<open>The executor's laws hold of this backend\<close>

definition statement_effect :: "'d sqlite_driver \<Rightarrow> string \<Rightarrow> sql_value list \<Rightarrow> 'd \<Rightarrow> 'd \<Rightarrow> bool" where
  "statement_effect drv statement arguments d d' \<longleftrightarrow>
     (\<exists>n r. drExec drv n statement arguments d = (Inr r, d'))"

text \<open>The statement a schema edit executes when it succeeds.\<close>

fun edit_statement :: "schema_edit \<Rightarrow> go_error + string" where
  "edit_statement (EditCreateModel m) = compileMigrationCreateModel m"
| "edit_statement (EditDeleteModel m) = compileMigrationDeleteModel m"
| "edit_statement (EditAddField m f) =
     (if fPrimaryKey f \<or> fDefault f \<noteq> None then Inl (ErrNew ''refused'') else compileMigrationAddField m f)"
| "edit_statement (EditRemoveField m f) =
     (if fPrimaryKey f then Inl (ErrNew ''refused'') else compileMigrationRemoveField m f)"

definition sqlite_edit_effect :: "'d sqlite_driver \<Rightarrow> schema_edit \<Rightarrow> 'd \<Rightarrow> 'd \<Rightarrow> bool" where
  "sqlite_edit_effect drv e d d' \<longleftrightarrow>
     (\<exists>statement. edit_statement e = Inr statement \<and> statement_effect drv statement [] d d')"

definition sqlite_record_effect :: "'d sqlite_driver \<Rightarrow> bool \<Rightarrow> string \<Rightarrow> string \<Rightarrow> 'd \<Rightarrow> 'd \<Rightarrow> bool" where
  "sqlite_record_effect drv applied app name d d'' \<longleftrightarrow>
     app \<noteq> '''' \<and> name \<noteq> '''' \<and>
     (\<exists>d'. statement_effect drv createMigrationRecorderTableSQL [] d d' \<and>
        (if applied then statement_effect drv insertRecordSQL [SqlText app, SqlText name] d' d''
         else \<exists>n r. drExec drv n deleteRecordSQL [SqlText app, SqlText name] d' = (Inr r, d'')
                \<and> erRowsAffected r = Inr 1))"

text \<open>What the transaction would commit: its view, until it is done.\<close>

definition sqlite_pending :: "nat \<Rightarrow> 'd sqlite_world \<Rightarrow> 'd option" where
  "sqlite_pending tx w = (if tx_done tx w then None else tx_view tx w)"

text \<open>
  \<open>transforms tx E m\<close>: where \<open>m\<close> succeeds it takes the view of a transaction that is not done
  to one related by \<open>E\<close>, and leaves it not done.
\<close>

definition transforms :: "nat \<Rightarrow> ('d \<Rightarrow> 'd \<Rightarrow> bool) \<Rightarrow> ('d, 'a) sqlite_step \<Rightarrow> bool" where
  "transforms tx E m \<longleftrightarrow> (\<forall>w x w' d. m w = (Inr x, w') \<longrightarrow> tx_view tx w = Some d \<longrightarrow>
     (\<exists>d'. tx_view tx w' = Some d' \<and> E d d'))"

definition keeps_done :: "nat \<Rightarrow> ('d, 'a) sqlite_step \<Rightarrow> bool" where
  "keeps_done tx m \<longleftrightarrow> (\<forall>w. tx_done tx (snd (m w)) = tx_done tx w)"

lemma expire_done [simp]: "tx_done t (expire drv tx w) = tx_done t w"
  by (simp add: expire_def)

lemma keeps_done_basic [keeps_intros]:
  "keeps_done t (return_step x)" "keeps_done t (fail_step err)" "keeps_done t (lift_result r)"
  "keeps_done t (tx_exec drv tx statement arguments)" "keeps_done t (tx_query drv tx statement arguments)"
  by (auto simp: keeps_done_def return_step_def fail_step_def lift_result_def tx_exec_def tx_query_def
      Let_def split: option.splits prod.splits)

lemma keeps_done_bind [keeps_intros]:
  assumes "keeps_done t m" and "\<And>x. keeps_done t (f x)"
  shows "keeps_done t (bind_step m f)"
  unfolding keeps_done_def
proof
  fix w
  obtain r w' where mw: "m w = (r, w')" by fastforce
  with assms(1) have "tx_done t w' = tx_done t w" by (metis keeps_done_def snd_conv)
  then show "tx_done t (snd (bind_step m f w)) = tx_done t w"
    using assms(2) by (cases r) (simp_all add: bind_step_def mw keeps_done_def)
qed

lemma snd_wrap_step [simp]: "snd (wrap_step f m w) = snd (m w)"
  by (auto simp: wrap_step_def split: prod.splits sum.splits)

lemma snd_rejoined_error [simp]: "snd (rejoined_error m w) = snd (m w)"
  by (auto simp: rejoined_error_def split: prod.splits)

lemma keeps_done_wrap [keeps_intros]: "keeps_done t m \<Longrightarrow> keeps_done t (wrap_step f m)"
  by (simp add: keeps_done_def)

lemma keeps_done_rejoined [keeps_intros]: "keeps_done t m \<Longrightarrow> keeps_done t (rejoined_error m)"
  by (simp add: keeps_done_def)

lemma keeps_done_if [keeps_intros]:
  "(b \<Longrightarrow> keeps_done t m) \<Longrightarrow> (\<not> b \<Longrightarrow> keeps_done t n) \<Longrightarrow> keeps_done t (if b then m else n)"
  by simp

lemma keeps_done_sum [keeps_intros]:
  "(\<And>e. r = Inl e \<Longrightarrow> keeps_done t (f e)) \<Longrightarrow> (\<And>x. r = Inr x \<Longrightarrow> keeps_done t (g x)) \<Longrightarrow>
     keeps_done t (case r of Inl e \<Rightarrow> f e | Inr x \<Rightarrow> g x)"
  by (cases r) simp_all

lemma keeps_done_option [keeps_intros]:
  "keeps_done t f \<Longrightarrow> (\<And>x. keeps_done t (g x)) \<Longrightarrow> keeps_done t (case y of None \<Rightarrow> f | Some x \<Rightarrow> g x)"
  by (cases y) simp_all

lemma keeps_done_query_row [keeps_intros]: "keeps_done t (tx_query_row drv tx statement arguments)"
  unfolding tx_query_row_def by (intro keeps_intros)

lemma check_indexes_done [keeps_intros]: "keeps_done t (check_indexes uc drv tx table column indexes)"
proof (induction indexes)
  case (Cons index indexes)
  note [keeps_intros] = Cons.IH
  show ?case unfolding check_indexes.simps index_definition_def by (intro keeps_intros)
qed (simp add: keeps_intros)

lemma check_foreign_keys_done [keeps_intros]: "keeps_done t (check_foreign_keys drv tx table column tables)"
proof (induction tables)
  case (Cons c tables)
  note [keeps_intros] = Cons.IH
  show ?case unfolding check_foreign_keys.simps by (intro keeps_intros)
qed (simp add: keeps_intros)

lemma inspection_done [keeps_intros]:
  "keeps_done t (preflightSQLiteDropColumn uc drv tx m field)"
  "keeps_done t (sqliteTableEmpty drv tx table)"
  unfolding inspection_defs sqliteTableEmpty_def by (intro keeps_intros)+

lemma exec_statement_keeps [keeps_intros]:
  "keeps_done t (exec_statement drv tx statement arguments wrap)"
  "keeps_durable (exec_statement drv tx statement arguments wrap)"
  unfolding exec_statement_def by (intro keeps_intros)+

lemma transforms_exec: "transforms tx (statement_effect drv statement arguments) (tx_exec drv tx statement arguments)"
  by (auto simp: transforms_def statement_effect_def elim!: tx_exec_Inr)

lemma transforms_wrap: "transforms tx E m \<Longrightarrow> transforms tx E (wrap_step f m)"
  by (auto simp: transforms_def wrap_step_def split: prod.splits sum.splits)

lemma transforms_bind:
  assumes "transforms tx E m" and "\<And>x. transforms tx F (f x)"
  shows "transforms tx (\<lambda>d d''. \<exists>d'. E d d' \<and> F d' d'') (bind_step m f)"
  unfolding transforms_def
proof (intro allI impI)
  fix w x w' d
  assume "bind_step m f w = (Inr x, w')" and d: "tx_view tx w = Some d"
  then obtain y w1 where m: "m w = (Inr y, w1)" and f: "f y w1 = (Inr x, w')"
    by (auto simp: bind_step_def split: prod.splits sum.splits)
  from m assms(1) d obtain d1 where "tx_view tx w1 = Some d1" "E d d1" by (metis transforms_def)
  with f assms(2)[of y] show "\<exists>d''. tx_view tx w' = Some d'' \<and> (\<exists>d'. E d d' \<and> F d' d'')"
    by (metis transforms_def)
qed

lemma transforms_view: "keeps_view tx m \<Longrightarrow> transforms tx (=) m"
  by (auto simp: transforms_def keeps_view_def)

lemma transforms_after_view:
  assumes "keeps_view tx m" and "\<And>x. transforms tx F (f x)"
  shows "transforms tx F (bind_step m f)"
  using transforms_bind[OF transforms_view[OF assms(1)] assms(2)] by simp

lemma transforms_return: "transforms tx (=) (return_step x)"
  by (rule transforms_view) (rule keeps_intros)

lemma transforms_exec_statement:
  "transforms tx (statement_effect drv statement arguments) (exec_statement drv tx statement arguments wrap)"
proof -
  have "transforms tx (\<lambda>d d''. \<exists>d'. statement_effect drv statement arguments d d' \<and> d' = d'')
      (exec_statement drv tx statement arguments wrap)"
    unfolding exec_statement_def
    by (intro transforms_bind transforms_wrap transforms_exec transforms_return)
  then show ?thesis by simp
qed

lemma ctx_err_simps [simp]:
  "swDurable (snd (ctx_err drv c w)) = swDurable w" "tx_view tx (snd (ctx_err drv c w)) = tx_view tx w"
  "tx_done tx (snd (ctx_err drv c w)) = tx_done tx w"
  by (auto simp: ctx_err_def)

lemma mt_execute_keeps_durable:
  "keeps_durable m \<Longrightarrow> swDurable (snd (mt_execute drv tx c m w)) = swDurable w"
  using ctx_err_simps(1)[of drv c w]
  by (cases "ctx_err drv c w"; cases "fst (ctx_err drv c w)") (auto simp: mt_execute_def keeps_durable_def)

lemma mt_execute_pending:
  assumes run: "mt_execute drv tx c m w = (Inr x, w')" and d: "sqlite_pending tx w = Some d"
    and m: "transforms tx E m" "keeps_done tx m"
  shows "\<exists>d'. sqlite_pending tx w' = Some d' \<and> E d d'"
proof -
  obtain r w1 where c: "ctx_err drv c w = (r, w1)" by fastforce
  have w1: "tx_view tx w1 = tx_view tx w" "tx_done tx w1 = tx_done tx w"
    using ctx_err_simps(2,3)[of tx drv c w] c by simp_all
  from d have "tx_view tx w1 = Some d" "\<not> tx_done tx w1"
    by (auto simp: sqlite_pending_def w1 split: if_splits)
  moreover from run c have "m w1 = (Inr x, w')"
    by (auto simp: mt_execute_def split: if_splits option.splits)
  ultimately show ?thesis
    using m unfolding transforms_def keeps_done_def sqlite_pending_def by (metis snd_conv)
qed

lemma error_of_None: "error_of r = (None, w) \<longleftrightarrow> (\<exists>x. r = (Inr x, w))"
  by (cases r; cases "fst r") (auto simp: error_of_def)

lemma snd_error_of [simp]: "snd (error_of r) = snd r"
  by (auto simp: error_of_def split: prod.splits sum.splits)

lemma fail_step_simps [simp]: "snd (fail_step err w) = w" "fail_step err w = (Inr x, w') \<longleftrightarrow> False"
  by (auto simp: fail_step_def)

lemma add_field_step_keeps [keeps_intros]:
  "keeps_durable (add_field_step drv tx m field statement)" "keeps_done t (add_field_step drv tx m field statement)"
  unfolding add_field_step_def by (intro keeps_intros)+

lemma add_field_step_transforms:
  "transforms tx (statement_effect drv statement []) (add_field_step drv tx m field statement)"
  unfolding add_field_step_def by (intro transforms_after_view transforms_exec_statement keeps_intros)

lemma mt_edit_durable: "swDurable (snd (mt_edit uc drv tx c e w)) = swDurable w"
proof (cases e)
  case (EditCreateModel m)
  then show ?thesis
    by (auto simp: mt_CreateModel_def intro: mt_execute_keeps_durable keeps_intros split: sum.splits)
next
  case (EditDeleteModel m)
  then show ?thesis
    by (auto simp: mt_DeleteModel_def intro: mt_execute_keeps_durable keeps_intros split: sum.splits)
next
  case (EditAddField m f)
  then show ?thesis
    by (auto simp: mt_AddField_def intro!: mt_execute_keeps_durable keeps_intros split: sum.splits)
next
  case (EditRemoveField m f)
  then show ?thesis
    by (auto simp: mt_RemoveField_def intro!: mt_execute_keeps_durable keeps_intros split: sum.splits)
qed

lemma mt_edit_pending:
  assumes d: "sqlite_pending tx w = Some d" and run: "mt_edit uc drv tx c e w = (Inr x, w')"
  shows "\<exists>d'. sqlite_pending tx w' = Some d' \<and> sqlite_edit_effect drv e d d'"
proof -
  obtain statement m where st: "edit_statement e = Inr statement"
    and exec: "mt_execute drv tx c m w = (Inr x, w')"
    and m: "transforms tx (statement_effect drv statement []) m" "keeps_done tx m"
  proof (cases e)
    case (EditCreateModel mo)
    with run show ?thesis
      by (auto simp: mt_CreateModel_def split: sum.splits
          intro!: that transforms_exec_statement keeps_intros)
  next
    case (EditDeleteModel mo)
    with run show ?thesis
      by (auto simp: mt_DeleteModel_def split: sum.splits
          intro!: that transforms_exec_statement keeps_intros)
  next
    case (EditAddField mo f)
    with run have f: "\<not> fPrimaryKey f" "fDefault f = None"
      by (auto simp: mt_AddField_def split: if_splits)
    with EditAddField run obtain s where s: "compileMigrationAddField mo f = Inr s"
      by (auto simp: mt_AddField_def split: sum.splits)
    then show ?thesis
      using run EditAddField f
      by (auto simp: mt_AddField_def intro!: that add_field_step_transforms keeps_intros)
  next
    case (EditRemoveField mo f)
    with run have f: "\<not> fPrimaryKey f" by (auto simp: mt_RemoveField_def split: if_splits)
    with EditRemoveField run obtain s where s: "compileMigrationRemoveField mo f = Inr s"
      by (auto simp: mt_RemoveField_def split: sum.splits)
    show ?thesis
    proof (rule that[of s])
      show "mt_execute drv tx c (bind_step (preflightSQLiteDropColumn uc drv tx mo f)
          (\<lambda>_. exec_statement drv tx s [] (remove_field_error uc drv mo f))) w = (Inr x, w')"
        using run EditRemoveField f s by (simp add: mt_RemoveField_def)
    qed (use EditRemoveField f s in \<open>simp_all\<close>,
        intro transforms_after_view transforms_exec_statement keeps_intros, intro keeps_intros)
  qed
  from mt_execute_pending[OF exec d m] st show ?thesis by (auto simp: sqlite_edit_effect_def)
qed

lemma record_step_keeps [keeps_intros]:
  "keeps_durable (record_applied_step drv tx app name)" "keeps_done t (record_applied_step drv tx app name)"
  "keeps_durable (record_unapplied_step drv tx app name)" "keeps_done t (record_unapplied_step drv tx app name)"
  unfolding record_applied_step_def record_unapplied_step_def ensureMigrationRecorder_def count_removed_def
  by (intro keeps_intros)+

lemma record_applied_transforms:
  "transforms tx (\<lambda>d d''. \<exists>d'. statement_effect drv createMigrationRecorderTableSQL [] d d' \<and>
      statement_effect drv insertRecordSQL [SqlText app, SqlText name] d' d'') (record_applied_step drv tx app name)"
  unfolding record_applied_step_def ensureMigrationRecorder_def
  by (intro transforms_bind transforms_exec_statement)

lemma delete_record_transforms:
  "transforms tx (\<lambda>d d'. \<exists>n r. drExec drv n statement arguments d = (Inr r, d') \<and> erRowsAffected r = Inr 1)
     (bind_step (wrap_step wrap (tx_exec drv tx statement arguments)) (count_removed app name))"
  unfolding transforms_def
proof (intro allI impI)
  fix w x w' d
  assume run: "bind_step (wrap_step wrap (tx_exec drv tx statement arguments)) (count_removed app name) w = (Inr x, w')"
    and d: "tx_view tx w = Some d"
  obtain r w1 where e: "tx_exec drv tx statement arguments w = (Inr r, w1)"
    using run by (auto simp: bind_step_def wrap_step_def split: prod.splits sum.splits)
  with run have c: "count_removed app name r w1 = (Inr x, w')"
    by (simp add: bind_step_def wrap_step_def)
  then have "erRowsAffected r = Inr 1" "w1 = w'"
    by (auto simp: count_removed_def return_step_def fail_step_def split: sum.splits if_splits)
  with tx_exec_Inr[OF e d] show "\<exists>d'. tx_view tx w' = Some d' \<and>
      (\<exists>n r. drExec drv n statement arguments d = (Inr r, d') \<and> erRowsAffected r = Inr 1)"
    by metis
qed

lemma record_unapplied_transforms:
  "transforms tx (\<lambda>d d''. \<exists>d'. statement_effect drv createMigrationRecorderTableSQL [] d d' \<and>
      (\<exists>n r. drExec drv n deleteRecordSQL [SqlText app, SqlText name] d' = (Inr r, d'') \<and> erRowsAffected r = Inr 1))
     (record_unapplied_step drv tx app name)"
  unfolding record_unapplied_step_def ensureMigrationRecorder_def
  by (intro transforms_bind transforms_exec_statement delete_record_transforms)

lemma record_keeps:
  "swDurable (snd (mt_RecordApplied drv tx c app name w)) = swDurable w"
  "swDurable (snd (mt_RecordUnapplied drv tx c app name w)) = swDurable w"
  by (auto simp: mt_RecordApplied_def mt_RecordUnapplied_def intro!: mt_execute_keeps_durable keeps_intros)

lemma mt_RecordApplied_pending:
  assumes d: "sqlite_pending tx w = Some d" and run: "mt_RecordApplied drv tx c app name w = (Inr x, w')"
  shows "\<exists>d'. sqlite_pending tx w' = Some d' \<and> sqlite_record_effect drv True app name d d'"
proof -
  from run have ne: "app \<noteq> ''''" "name \<noteq> ''''"
    and exec: "mt_execute drv tx c (record_applied_step drv tx app name) w = (Inr x, w')"
    by (auto simp: mt_RecordApplied_def split: if_splits)
  show ?thesis
    using mt_execute_pending[OF exec d record_applied_transforms record_step_keeps(2)] ne
    by (simp add: sqlite_record_effect_def)
qed

lemma mt_RecordUnapplied_pending:
  assumes d: "sqlite_pending tx w = Some d" and run: "mt_RecordUnapplied drv tx c app name w = (Inr x, w')"
  shows "\<exists>d'. sqlite_pending tx w' = Some d' \<and> sqlite_record_effect drv False app name d d'"
proof -
  from run have ne: "app \<noteq> ''''" "name \<noteq> ''''"
    and exec: "mt_execute drv tx c (record_unapplied_step drv tx app name) w = (Inr x, w')"
    by (auto simp: mt_RecordUnapplied_def split: if_splits)
  show ?thesis
    using mt_execute_pending[OF exec d record_unapplied_transforms record_step_keeps(4)] ne
    by (simp add: sqlite_record_effect_def)
qed

lemma set_done_simps [simp]: "swTxs w tx \<noteq> None \<Longrightarrow> tx_done tx (set_done tx w)"
  by (auto simp: set_done_def tx_done_def)

lemma connection_close_durable [simp]: "swDurable (snd (connection_close drv w)) = swDurable w"
  by (simp add: connection_close_def)

lemma tx_commit_durable:
  assumes "tx_commit drv tx w = (r, w')" and "tx_view tx w = Some d"
  shows "swDurable w' = swDurable w \<or> swDurable w' = d" and "r = None \<Longrightarrow> swDurable w' = d"
  using assms expire_view[of tx drv w]
  by (auto simp: tx_commit_def Let_def split: option.splits if_splits)

lemma mt_Commit_outcome:
  assumes run: "mt_Commit drv tx c w = (r, w')" and d: "sqlite_pending tx w = Some d"
  shows "swDurable w' = swDurable w \<or> swDurable w' = d" and "r = None \<Longrightarrow> swDurable w' = d"
proof -
  from d have nd: "\<not> tx_done tx w" and v: "tx_view tx w = Some d" by (auto simp: sqlite_pending_def split: if_splits)
  obtain ce w1 where ce: "ctx_err drv c w = (ce, w1)" by fastforce
  have w1: "swDurable w1 = swDurable w" "tx_view tx (set_done tx w1) = Some d"
    using ctx_err_simps(1)[of drv c w] ctx_err_simps(2)[of tx drv c w] ce v by simp_all
  obtain cm w2 where cm: "tx_commit drv tx (set_done tx w1) = (cm, w2)" by fastforce
  note t = tx_commit_durable[OF cm w1(2)]
  obtain cl w3 where cl: "connection_close drv w2 = (cl, w3)" by fastforce
  have w3: "swDurable w3 = swDurable w2" using connection_close_durable[of drv w2] cl by simp
  show "swDurable w' = swDurable w \<or> swDurable w' = d"
    using run ce cm cl t(1) w1 w3 by (auto simp: mt_Commit_def split: if_splits option.splits)
  assume "r = None"
  with run ce cm cl nd have "cm = None" "w' = w3"
    by (auto simp: mt_Commit_def errors_join_None_iff wrapCommitMigration_def split: if_splits option.splits)
  with t(2) w3 show "swDurable w' = d" by simp
qed

lemma mt_Rollback_durable: "swDurable (snd (mt_Rollback drv tx c w)) = swDurable w"
proof -
  obtain r w1 where r: "tx_rollback drv tx (set_done tx w) = (r, w1)" by fastforce
  then have "swDurable w1 = swDurable w" by (auto simp: tx_rollback_def Let_def split: option.splits)
  moreover obtain cl w2 where "connection_close drv w1 = (cl, w2)" by fastforce
  moreover have "swDurable w2 = swDurable w1"
    using connection_close_durable[of drv w1] calculation(2) by simp
  ultimately show ?thesis using r by (auto simp: mt_Rollback_def Let_def)
qed

lemma BeginMigration_durable: "swDurable (snd (BeginMigration drv c w)) = swDurable w"
proof -
  obtain ce w1 where ce: "ctx_err drv c w = (ce, w1)" by fastforce
  then have "swDurable w1 = swDurable w" using ctx_err_simps(1)[of drv c w] by simp
  then show ?thesis
    using ce by (auto simp: BeginMigration_def open_tx_def connection_close_def split: option.splits)
qed

lemma BeginMigration_pending:
  assumes "BeginMigration drv c w = (Inr (Some tx), w')"
  shows "sqlite_pending tx w' = Some (swDurable w)"
proof -
  obtain ce w1 where ce: "ctx_err drv c w = (ce, w1)" by fastforce
  then have "swDurable w1 = swDurable w" using ctx_err_simps(1)[of drv c w] by simp
  then show ?thesis
    using assms ce
    by (auto simp: BeginMigration_def open_tx_def connection_close_def sqlite_pending_def tx_done_def
        tx_view_def split: option.splits if_splits prod.splits)
qed

interpretation sqlite: atomic_backend_laws "sqlite_backend uc drv" swDurable sqlite_pending
  "sqlite_edit_effect drv" "sqlite_record_effect drv" "ctx_err drv CallerContext"
  for uc and drv :: "'d sqlite_driver"
proof unfold_locales
  show "swDurable (snd (ctx_err drv CallerContext w)) = swDurable w" for w by simp
  show "swDurable (snd (abBegin (sqlite_backend uc drv) c w)) = swDurable w" for c w
    by (simp add: sqlite_backend_def BeginMigration_durable)
  show "sqlite_pending tx w' = Some (swDurable w)"
    if "abBegin (sqlite_backend uc drv) c w = (Inr (Some tx), w')" for c w tx w'
    using that by (simp add: sqlite_backend_def BeginMigration_pending)
  show "swDurable (snd (abEdit (sqlite_backend uc drv) tx c e w)) = swDurable w" for tx c e w
    by (simp add: sqlite_backend_def mt_edit_durable)
  show "\<exists>d'. sqlite_pending tx w' = Some d' \<and> sqlite_edit_effect drv e d d'"
    if "sqlite_pending tx w = Some d" "abEdit (sqlite_backend uc drv) tx c e w = (None, w')" for tx c e w d w'
    using that mt_edit_pending by (auto simp: sqlite_backend_def error_of_None)
  show "swDurable (snd (abRecordApplied (sqlite_backend uc drv) tx c a n w)) = swDurable w" for tx c a n w
    by (simp add: sqlite_backend_def record_keeps)
  show "\<exists>d'. sqlite_pending tx w' = Some d' \<and> sqlite_record_effect drv True a n d d'"
    if "sqlite_pending tx w = Some d" "abRecordApplied (sqlite_backend uc drv) tx c a n w = (None, w')"
    for tx c a n w d w'
    using that mt_RecordApplied_pending by (auto simp: sqlite_backend_def error_of_None)
  show "swDurable (snd (abRecordUnapplied (sqlite_backend uc drv) tx c a n w)) = swDurable w" for tx c a n w
    by (simp add: sqlite_backend_def record_keeps)
  show "\<exists>d'. sqlite_pending tx w' = Some d' \<and> sqlite_record_effect drv False a n d d'"
    if "sqlite_pending tx w = Some d" "abRecordUnapplied (sqlite_backend uc drv) tx c a n w = (None, w')"
    for tx c a n w d w'
    using that mt_RecordUnapplied_pending by (auto simp: sqlite_backend_def error_of_None)
  show "swDurable w' = d" if "sqlite_pending tx w = Some d" "abCommit (sqlite_backend uc drv) tx c w = (None, w')"
    for tx w d c w'
    using mt_Commit_outcome(2)[OF _ that(1) refl] that(2) by (simp add: sqlite_backend_def)
  show "swDurable w' = swDurable w \<or> swDurable w' = d"
    if "sqlite_pending tx w = Some d" "abCommit (sqlite_backend uc drv) tx c w = (Some err, w')" for tx w d c err w'
    using mt_Commit_outcome(1)[OF _ that(1)] that(2) by (simp add: sqlite_backend_def)
  show "swDurable (snd (abRollback (sqlite_backend uc drv) tx c w)) = swDurable w" for tx c w
    by (simp add: sqlite_backend_def mt_Rollback_durable)
qed

end
