(* ===== verification/Sqlite_Execution.thy ===== *)
theory Sqlite_Execution
  imports Sqlite_Migrations Execution
begin

text \<open>
  The migration executor run on the SQLite backend. The properties of the executor, proved in
  the locale of its database boundary, are stated here over the SQLite model through its
  interpretation: a migration is all or nothing in the durable database, a plan stops between
  two migrations, and the one way in which a failure report and a durable effect can go
  together is a commit that reports an error.
\<close>

section \<open>The effect of a migration on the database\<close>

fun edits_run :: "'d sqlite_driver \<Rightarrow> schema_edit list \<Rightarrow> 'd \<Rightarrow> 'd \<Rightarrow> bool" where
  "edits_run drv [] d d'' \<longleftrightarrow> d'' = d"
| "edits_run drv (e # es) d d'' \<longleftrightarrow> (\<exists>d'. sqlite_edit_effect drv e d d' \<and> edits_run drv es d' d'')"

text \<open>Every edit of the migration ran, in order, then its record was written or removed.\<close>

definition migration_ran :: "'d sqlite_driver \<Rightarrow> direction \<Rightarrow> migration \<Rightarrow> prepared_operation list \<Rightarrow> 'd \<Rightarrow> 'd \<Rightarrow> bool" where
  "migration_ran drv dir m ps d d'' \<longleftrightarrow>
     (\<exists>d'. edits_run drv (planned_edits dir ps) d d'
        \<and> sqlite_record_effect drv (dir = DirectionForward) (migApp m) (migName m) d' d'')"

lemma edits_run_iff: "sqlite.edits_effect drv es d d' \<longleftrightarrow> edits_run drv es d d'"
proof
  show "sqlite.edits_effect drv es d d' \<Longrightarrow> edits_run drv es d d'"
    by (induction es d d' rule: sqlite.edits_effect.induct) auto
  show "edits_run drv es d d' \<Longrightarrow> sqlite.edits_effect drv es d d'"
    by (induction es arbitrary: d) (auto intro: sqlite.edits_Nil sqlite.edits_Cons)
qed

lemma migration_ran_iff: "sqlite.migrated drv dir m ps d d' \<longleftrightarrow> migration_ran drv dir m ps d d'"
  by (simp add: sqlite.migrated_def migration_ran_def edits_run_iff)

abbreviation sqlite_execute :: "unicode_tables \<Rightarrow> 'd sqlite_driver \<Rightarrow> project_state \<Rightarrow> migration \<Rightarrow> direction
    \<Rightarrow> 'd sqlite_world \<Rightarrow> (project_state \<times> go_error option) \<times> 'd sqlite_world" where
  "sqlite_execute uc drv \<equiv> execute uc (Some (ctx_err drv CallerContext)) (Some (sqlite_backend uc drv))"

definition commit_failed :: "go_error \<Rightarrow> bool" where
  "commit_failed err \<longleftrightarrow> is_MigrationError err \<and> meCode err = CodeCommitFailed"

text \<open>
  C14: applying or unapplying a migration on SQLite is atomic, whatever the engine does at each
  call. On success the state returned is the one preflight computed and the durable database
  is the one before with every edit and the record run on it; on failure the state returned is
  the one before, and the durable database is untouched unless the error is a commit failure,
  when it may also hold the whole migration, and never a part of it.
\<close>
theorem sqlite_execute_atomic:
  "case sqlite_execute uc drv before m dir w of
     ((s, None), w') \<Rightarrow>
       \<exists>ps after. preflight uc before m dir = Inr (ps, after) \<and> s = State_Clone after
         \<and> migration_ran drv dir m ps (swDurable w) (swDurable w')
   | ((s, Some err), w') \<Rightarrow> s = State_Clone before \<and>
       (swDurable w' = swDurable w \<or>
        (\<exists>ps after. preflight uc before m dir = Inr (ps, after) \<and> commit_failed err
           \<and> migration_ran drv dir m ps (swDurable w) (swDurable w')))"
proof -
  obtain s r w' where run: "sqlite_execute uc drv before m dir w = ((s, r), w')" by (metis prod.collapse)
  show ?thesis
    using sqlite.execute_atomic[OF run] unfolding run migration_ran_iff commit_failed_def
    by (cases r) auto
qed

section \<open>Plans\<close>

fun plan_ran :: "unicode_tables \<Rightarrow> 'd sqlite_driver \<Rightarrow> project_state \<Rightarrow> (migration \<times> direction) list
    \<Rightarrow> 'd \<Rightarrow> 'd \<Rightarrow> project_state \<Rightarrow> bool" where
  "plan_ran uc drv s [] d d'' t \<longleftrightarrow> d'' = d \<and> t = State_Clone s"
| "plan_ran uc drv s ((m, dir) # ms) d d'' t \<longleftrightarrow>
     (\<exists>ps after d'. preflight uc s m dir = Inr (ps, after) \<and> migration_ran drv dir m ps d d'
        \<and> plan_ran uc drv after ms d' d'' t)"

abbreviation step_of :: "prepared_plan_step \<Rightarrow> migration \<times> direction" where
  "step_of p \<equiv> (ppMigration p, psDirection (ppStep p))"

lemma plan_progress_ran: "sqlite.plan_progress drv uc s ps d d' t \<Longrightarrow> plan_ran uc drv s (map step_of ps) d d' t"
  by (induction uc s ps d d' t rule: sqlite.plan_progress.induct) (auto simp: migration_ran_iff)

lemma index_definitions_Inr:
  assumes "index_definitions index byKey definitions = Inr byKey'" and "map_of byKey' k = Some m"
  shows "map_of byKey k = Some m \<or> (m \<in> set definitions \<and> migration_Key m = k)"
  using assms
proof (induction definitions arbitrary: index byKey)
  case (Cons x xs)
  from Cons.prems(1) have "index_definitions (Suc index) (map_set (migration_Key x) x byKey) xs = Inr byKey'"
    by (auto simp: Let_def split: if_splits)
  from Cons.IH[OF this Cons.prems(2)] show ?case by (auto split: if_splits)
qed simp

lemma prepare_steps_lookup:
  assumes "prepare_steps uc ctxErr byKey s steps w = (Inr ps, w')"
    and "\<forall>step \<in> set steps. map_of byKey (psKey step) \<noteq> None" and "p \<in> set ps"
  shows "map_of byKey (psKey (ppStep p)) = Some (ppMigration p)"
  using assms
proof (induction steps arbitrary: s ps w)
  case (Cons step steps)
  from Cons.prems(2) obtain m where m: "map_of byKey (psKey step) = Some m" by auto
  with Cons.prems(1) obtain w1 qs after rest where
    rest: "prepare_steps uc ctxErr byKey after steps w1 = (Inr rest, w')"
    and ps: "ps = \<lparr>ppStep = step, ppMigration = m, ppAfter = State_Clone after\<rparr> # rest"
    by (auto simp: Let_def split: option.splits prod.splits sum.splits)
  from Cons.IH[OF rest] Cons.prems(2,3) m show ?case by (auto simp: ps)
qed simp

text \<open>The definition a step of the plan names: that of the snapshot with its key.\<close>

definition names_definition :: "migration list \<Rightarrow> plan_step \<Rightarrow> migration \<times> direction \<Rightarrow> bool" where
  "names_definition definitions step md \<longleftrightarrow>
     fst md \<in> set (cloneMigrationDefinitions definitions) \<and> migration_Key (fst md) = psKey step
     \<and> snd md = psDirection step"

abbreviation sqlite_ExecutePlan where
  "sqlite_ExecutePlan uc drv \<equiv> ExecutePlan uc (Some (ctx_err drv CallerContext)) (Some (sqlite_backend uc drv))"

lemma prepare_steps_durable:
  "prepare_steps uc (ctx_err drv c) byKey s steps w = (r, w') \<Longrightarrow> swDurable w' = swDurable w"
proof (induction steps arbitrary: s r w w')
  case (Cons step steps)
  obtain e w1 where e: "ctx_err drv c w = (e, w1)" by fastforce
  then have "swDurable w1 = swDurable w" using ctx_err_simps(1)[of drv c w] by simp
  with Cons e show ?case
    by (fastforce simp: Let_def split: option.splits sum.splits prod.splits)
qed simp

text \<open>
  C15: executing a plan on SQLite stops between two migrations. The steps done ran one after the
  other, each atomically; the state returned is the state those steps lead to; success means
  all steps are done; and the durable database is the one after the steps done, unless the
  last error is a commit failure, when it may also hold the whole of the next migration.
\<close>
theorem ExecutePlan_progress:
  assumes "state_map before"
  shows "case sqlite_ExecutePlan uc drv before definitions plan w of
     ((t, r), w') \<Rightarrow> \<exists>done rest ms d. plan = done @ rest
       \<and> list_all2 (names_definition definitions) done ms
       \<and> plan_ran uc drv before ms (swDurable w) d t \<and> (r = None \<longrightarrow> rest = [])
       \<and> (swDurable w' = d \<or> (\<exists>err step rest' m dir ps after.
             r = Some err \<and> commit_failed err \<and> rest = step # rest' \<and> names_definition definitions step (m, dir)
             \<and> preflight uc t m dir = Inr (ps, after) \<and> migration_ran drv dir m ps d (swDurable w')))"
proof -
  let ?defs = "cloneMigrationDefinitions definitions"
  let ?ctx = "ctx_err drv CallerContext"
  obtain t r w' where run: "sqlite_ExecutePlan uc drv before definitions plan w = ((t, r), w')"
    by (metis prod.collapse)
  obtain c w1 where c: "?ctx w = (c, w1)" by fastforce
  have d1: "swDurable w1 = swDurable w" using ctx_err_simps(1)[of drv CallerContext w] c by simp
  have early: ?thesis if "t = State_Clone before" "r \<noteq> None \<or> plan = []" "swDurable w' = swDurable w"
    unfolding run prod.case
    by (insert that, rule exI[of _ "[]"], rule exI[of _ plan], rule exI[of _ "[]"], rule exI[of _ "swDurable w"], simp, blast?)
  show ?thesis
  proof (cases "c = None \<and> plan \<noteq> []")
    case False
    with run c d1 show ?thesis by (intro early) (auto simp: ExecutePlan_def split: option.splits)
  next
    case ok: True
    obtain pr w2 where pr: "preflightPlan uc ?ctx before ?defs plan w1 = (pr, w2)" by fastforce
    have d2: "swDurable w2 = swDurable w1"
      using pr prepare_steps_durable by (auto simp: preflightPlan_def split: sum.splits option.splits)
    show ?thesis
    proof (cases pr)
      case (Inl err)
      with run c ok pr d1 d2 show ?thesis by (intro early) (auto simp: ExecutePlan_def)
    next
      case (Inr ps)
      with pr obtain byKey where bk: "index_definitions 0 [] ?defs = Inr byKey"
        and cp: "check_plan byKey 0 [] None plan = None"
        and prep: "prepare_steps uc ?ctx byKey (State_Clone before) plan w1 = (Inr ps, w2)"
        by (auto simp: preflightPlan_def split: sum.splits option.splits)
      have cp': "\<forall>s \<in> set plan. map_of byKey (psKey s) \<noteq> None
          \<and> (psDirection s = DirectionForward \<or> psDirection s = DirectionBackward)"
        using check_plan_None[OF cp] by blast
      from prepare_steps_Inr[OF prep] have prepared: "plan_prepared uc (State_Clone before) ps"
        and steps: "map ppStep ps = plan" by simp_all
      have dirs: "\<forall>p \<in> set ps. psDirection (ppStep p) = DirectionForward \<or> psDirection (ppStep p) = DirectionBackward"
        using cp' unfolding steps[symmetric] by simp
      have names: "names_definition definitions (ppStep p) (step_of p)" if "p \<in> set ps" for p
        using index_definitions_Inr[OF bk prepare_steps_lookup[OF prep _ that]] cp'
        by (auto simp: names_definition_def)
      have run2: "run_plan uc ?ctx (Some (sqlite_backend uc drv)) (State_Clone (State_Clone before)) ps w2 = ((t, r), w')"
        using run c ok pr Inr by (simp add: ExecutePlan_def State_Clone_idem[OF assms])
      from sqlite.run_plan_progress[OF prepared state_map_Clone[OF assms] dirs run2] obtain b a d where
        b: "ps = b @ a" "sqlite.plan_progress drv uc (State_Clone before) b (swDurable w2) d t"
        "r = None \<longleftrightarrow> a = []"
        and last: "swDurable w' = d \<or> (\<exists>err p rest qs after. r = Some err \<and> commit_failed err
          \<and> a = p # rest \<and> preflight uc t (ppMigration p) (psDirection (ppStep p)) = Inr (qs, after)
          \<and> migration_ran drv (psDirection (ppStep p)) (ppMigration p) qs d (swDurable w'))"
        unfolding migration_ran_iff commit_failed_def by auto
      have "plan_ran uc drv before (map step_of b) (swDurable w) d t"
        using plan_progress_ran[OF sqlite.plan_progress_Clone[OF assms, THEN iffD1, OF b(2)]] d1 d2 by simp
      moreover have "list_all2 (names_definition definitions) (map ppStep b) (map step_of b)"
        using names b(1) by (auto simp: list_all2_map1 list_all2_map2 intro: list_all2_same[THEN iffD2])
      moreover have "plan = map ppStep b @ map ppStep a" using steps b(1) by simp
      moreover have "swDurable w' = d \<or> (\<exists>err step rest' m dir qs after.
             r = Some err \<and> commit_failed err \<and> map ppStep a = step # rest' \<and> names_definition definitions step (m, dir)
             \<and> preflight uc t m dir = Inr (qs, after) \<and> migration_ran drv dir m qs d (swDurable w'))"
        using last
      proof (elim disjE exE conjE)
        fix err p rest qs after
        assume *: "r = Some err" "commit_failed err" "a = p # rest"
          "preflight uc t (ppMigration p) (psDirection (ppStep p)) = Inr (qs, after)"
          "migration_ran drv (psDirection (ppStep p)) (ppMigration p) qs d (swDurable w')"
        have "names_definition definitions (ppStep p) (step_of p)" using names b(1) *(3) by simp
        with * show ?thesis by auto
      qed simp
      ultimately show ?thesis
        unfolding run prod.case using b(3) by (intro exI conjI) (assumption | simp)+
    qed
  qed
qed

section \<open>A driver that logs\<close>

text \<open>
  A concrete driver for the witnesses: the database is the list of the statements executed on it,
  every statement affects one row, and closing the connection returns \<open>closeErr\<close>.
\<close>

definition log_driver :: "go_error option \<Rightarrow> (string \<times> sql_value list) list sqlite_driver" where
  "log_driver closeErr = \<lparr>
     drNil = False, drConn = (\<lambda>_. None), drBeginTx = (\<lambda>_. None),
     drExec = (\<lambda>_ statement arguments d.
       (Inr \<lparr>erRowsAffected = Inr 1, erLastInsertId = Inr 1\<rparr>, d @ [(statement, arguments)])),
     drQuery = (\<lambda>_ _ _ _. Inr \<lparr>rwRows = [], rwErr = None, rwClose = None\<rparr>),
     drExpired = (\<lambda>_. False), drCommit = (\<lambda>_. None), drCommitted = (\<lambda>_. True), drRollback = (\<lambda>_. None),
     drClose = (\<lambda>_. closeErr), drCtxErr = (\<lambda>_. None), drErrorText = (\<lambda>_. '''')\<rparr>"

definition empty_world :: "(string \<times> sql_value list) list sqlite_world" where
  "empty_world = \<lparr>swDurable = [], swTxs = (\<lambda>_. None), swNext = 0, swClock = 0, swClosed = False,
     swQueryCount = 0\<rparr>"

definition blank_migration :: migration where
  "blank_migration = \<lparr>migApp = ''blog'', migName = ''0001'', migDependencies = [], migOperations = []\<rparr>"

lemma preflight_blank:
  "preflight uc EmptyProjectState blank_migration DirectionForward = Inr ([], State_Clone (State_Clone EmptyProjectState))"
  by (simp add: preflight_def blank_migration_def EmptyProjectState_def State_validate_def State_FormatVersion_def
      State_Clone_def operationIndices_def StateFormatVersion_def)

theorem ExecutePlan_progress_witness:
  "case sqlite_ExecutePlan ascii_tables (log_driver None) EmptyProjectState [blank_migration]
        [\<lparr>psKey = MigrationKey ''blog'' ''0001'', psDirection = DirectionForward\<rparr>] empty_world of
     ((t, r), w') \<Rightarrow> \<exists>done rest ms d. [\<lparr>psKey = MigrationKey ''blog'' ''0001'', psDirection = DirectionForward\<rparr>] = done @ rest
       \<and> list_all2 (names_definition [blank_migration]) done ms
       \<and> plan_ran ascii_tables (log_driver None) EmptyProjectState ms (swDurable empty_world) d t \<and> (r = None \<longrightarrow> rest = [])
       \<and> (swDurable w' = d \<or> (\<exists>err step rest' m dir ps after.
             r = Some err \<and> commit_failed err \<and> rest = step # rest' \<and> names_definition [blank_migration] step (m, dir)
             \<and> preflight ascii_tables t m dir = Inr (ps, after)
             \<and> migration_ran (log_driver None) dir m ps d (swDurable w')))"
  by (rule ExecutePlan_progress) (simp add: state_map_def EmptyProjectState_def)

lemmas run_simps = execute_def unusable_def run_transaction_def record_step_def sqlite_backend_def BeginMigration_def
  ctx_err_def open_tx_def tick_def mt_RecordApplied_def record_applied_step_def ensureMigrationRecorder_def
  exec_statement_def bind_step_def wrap_step_def return_step_def tx_exec_def expire_def tx_view_def set_view_def
  mt_execute_def tx_done_def error_of_def mt_Commit_def tx_commit_def set_done_def connection_close_def
  errors_join_def map_filter_simps wrapCommitMigration_def wrapCloseMigrationConnection_def rollback_def
  migrationError_def mt_Rollback_def

text \<open>
  A migration whose SQL commit succeeds and whose connection then fails to close is reported
  as a failed commit, with the state before it, although the migration and its record are
  durable: a caller that trusts the returned state would apply the migration again.
\<close>
lemma close_error_after_commit:
  "\<exists>err w'. sqlite_execute ascii_tables (log_driver (Some (ErrNew ''disk I/O error''))) EmptyProjectState
       blank_migration DirectionForward empty_world = ((State_Clone EmptyProjectState, Some err), w')
     \<and> commit_failed err
     \<and> swDurable w' = [(createMigrationRecorderTableSQL, []), (insertRecordSQL, [SqlText ''blog'', SqlText ''0001''])]"
  using preflight_blank[unfolded blank_migration_def]
  by (simp add: run_simps log_driver_def empty_world_def commit_failed_def blank_migration_def)

section \<open>Terminal calls\<close>

lemma mt_Rollback_done:
  assumes "swTxs w tx \<noteq> None" and "c \<noteq> NilContext"
  shows "tx_done tx (snd (mt_Rollback drv tx c w))" and "swTxs (snd (mt_Rollback drv tx c w)) tx \<noteq> None"
proof -
  obtain r w1 where r: "tx_rollback drv tx (set_done tx w) = (r, w1)" by fastforce
  have s: "tx_done tx (set_done tx w)" "swTxs (set_done tx w) tx \<noteq> None"
    using assms(1) by (auto simp: set_done_def tx_done_def)
  have "tx_done tx w1 = tx_done tx (set_done tx w)" "swTxs w1 tx \<noteq> None"
    using r s(2) by (auto simp: tx_rollback_def expire_def set_view_def tick_def tx_done_def Let_def
        split: option.splits if_splits)
  then have w1: "tx_done tx w1" "swTxs w1 tx \<noteq> None" using s by simp_all
  obtain cl w2 where cl: "connection_close drv w1 = (cl, w2)" by fastforce
  then have "w2 = tick w1" by (simp add: connection_close_def)
  with w1 have w2: "tx_done tx w2" "swTxs w2 tx \<noteq> None" by simp_all
  show "tx_done tx (snd (mt_Rollback drv tx c w))" "swTxs (snd (mt_Rollback drv tx c w)) tx \<noteq> None"
    using assms r cl w2 by (auto simp: mt_Rollback_def Let_def)
qed

lemma mt_edit_done:
  assumes "tx_done tx w"
  shows "\<exists>err. fst (mt_edit uc drv tx c e w) = Inl err"
proof -
  have "\<exists>err. fst (mt_execute drv tx c m w) = Inl err" for m :: "('a, 'b) sqlite_step"
  proof -
    obtain r w1 where c: "ctx_err drv c w = (r, w1)" by fastforce
    then have "tx_done tx w1" using ctx_err_simps(3)[of tx drv c w] assms by simp
    with c show ?thesis by (cases r) (auto simp: mt_execute_def)
  qed
  then show ?thesis
    by (cases e)
      (auto simp: mt_CreateModel_def mt_DeleteModel_def mt_AddField_def mt_RemoveField_def fail_step_def
        split: sum.splits)
qed

text \<open>
  a migration transaction is single use. Once rolled back, a second rollback is a harmless
  success, a commit is refused and commits nothing, and every schema edit is refused.
\<close>
theorem rolled_back_transaction_is_closed:
  assumes "swTxs w tx \<noteq> None"
  shows "case mt_Rollback drv tx WithoutCancel w of (_, w1) \<Rightarrow>
     swDurable w1 = swDurable w
     \<and> mt_Rollback drv tx WithoutCancel w1 = (None, w1)
     \<and> (\<exists>err. mt_Commit drv tx CallerContext w1 = (Some err, w1))
     \<and> (\<exists>err. fst (mt_edit uc drv tx CallerContext e w1) = Inl err)"
proof -
  obtain r w1 where r: "mt_Rollback drv tx WithoutCancel w = (r, w1)" by fastforce
  have w1: "tx_done tx w1" "swTxs w1 tx \<noteq> None"
    using mt_Rollback_done[OF assms, of WithoutCancel drv] r by auto
  have "swDurable w1 = swDurable w" using mt_Rollback_durable[of drv tx WithoutCancel w] r by simp
  moreover have "mt_Rollback drv tx WithoutCancel w1 = (None, w1)" by (simp add: mt_Rollback_def w1)
  moreover have "\<exists>err. mt_Commit drv tx CallerContext w1 = (Some err, w1)" by (simp add: mt_Commit_def w1)
  ultimately show ?thesis using mt_edit_done[OF w1(1)] by (simp add: r)
qed

theorem rolled_back_transaction_is_closed_witness:
  "case mt_Rollback (log_driver None) 0 WithoutCancel (snd (BeginMigration (log_driver None) CallerContext empty_world)) of (_, w1) \<Rightarrow>
     swDurable w1 = swDurable (snd (BeginMigration (log_driver None) CallerContext empty_world))
     \<and> mt_Rollback (log_driver None) 0 WithoutCancel w1 = (None, w1)
     \<and> (\<exists>err. mt_Commit (log_driver None) 0 CallerContext w1 = (Some err, w1))
     \<and> (\<exists>err. fst (mt_edit ascii_tables (log_driver None) 0 CallerContext
           (EditDeleteModel \<lparr>mName = ''A'', mGoName = ''A'', mDBTable = ''a'', mFields = []\<rparr>) w1) = Inl err)"
  by (rule rolled_back_transaction_is_closed)
    (simp add: BeginMigration_def unusable_def log_driver_def empty_world_def ctx_err_def tick_def open_tx_def)

end
