(* ===== verification/Reconstructor.thy ===== *)
theory Reconstructor
  imports Execution
begin

text \<open>
  Historical state reconstruction (\<open>migrations/reconstructor.go\<close>) and the loading of the
  applied history (\<open>migrations/history.go\<close>).
\<close>

section \<open>Loading the applied history\<close>

definition newRecorderReadError :: "go_error \<Rightarrow> go_error" where
  "newRecorderReadError cause = RecorderError CategoryRecorder CodeReadFailed (Some cause)"

text \<open>
  The reader is an interface value: nil, or a function from the outside state to the records it
  reads, pairs of an app and a name.
\<close>

definition LoadAppliedState :: "'w go_context
    \<Rightarrow> (call_context \<Rightarrow> 'w \<Rightarrow> (go_error + (string \<times> string) list) \<times> 'w) option
    \<Rightarrow> 'w \<Rightarrow> (go_error + applied_state) \<times> 'w" where
  "LoadAppliedState ctx reader w =
     (case ctx of
        None \<Rightarrow> (Inl (newRecorderReadError (ErrNew ''context is nil'')), w)
      | Some ctxErr \<Rightarrow>
        (case ctxErr w of
           (Some err, w1) \<Rightarrow> (Inl (newRecorderReadError err), w1)
         | (None, w1) \<Rightarrow>
           (case reader of
              None \<Rightarrow> (Inl (newRecorderReadError (ErrNew ''applied migration reader is nil'')), w1)
            | Some read \<Rightarrow>
              (case read CallerContext w1 of
                 (Inl err, w2) \<Rightarrow> (Inl (newRecorderReadError err), w2)
               | (Inr records, w2) \<Rightarrow>
                   (NewAppliedState (map (\<lambda>(app, name). MigrationKey app name) records), w2)))))"

section \<open>State requests\<close>

datatype state_request_kind =
    stateRequestNone | stateRequestEmpty | stateRequestLatest | stateRequestBefore
  | stateRequestAfter | stateRequestApplied

text \<open>The nil slice of targets is \<open>None\<close>.\<close>

record state_request =
  srKind :: state_request_kind
  srTargets :: "migration_key list option"
  srApplied :: applied_state

definition EmptyStateRequest :: state_request where
  "EmptyStateRequest = \<lparr>srKind = stateRequestEmpty, srTargets = None, srApplied = zeroAppliedState\<rparr>"

definition LatestStateRequest :: state_request where
  "LatestStateRequest = \<lparr>srKind = stateRequestLatest, srTargets = None, srApplied = zeroAppliedState\<rparr>"

definition targetStateRequest :: "state_request_kind \<Rightarrow> migration_key \<Rightarrow> migration_key list \<Rightarrow> state_request" where
  "targetStateRequest kind first rest =
     \<lparr>srKind = kind, srTargets = Some (first # rest), srApplied = zeroAppliedState\<rparr>"

definition BeforeStateRequest :: "migration_key \<Rightarrow> migration_key list \<Rightarrow> state_request" where
  "BeforeStateRequest first rest = targetStateRequest stateRequestBefore first rest"

definition AfterStateRequest :: "migration_key \<Rightarrow> migration_key list \<Rightarrow> state_request" where
  "AfterStateRequest first rest = targetStateRequest stateRequestAfter first rest"

definition AppliedStateRequest :: "applied_state \<Rightarrow> state_request" where
  "AppliedStateRequest applied =
     \<lparr>srKind = stateRequestApplied, srTargets = None,
      srApplied = \<lparr>asKeys = Some (cloneAppliedKeys (asKeys applied))\<rparr>\<rparr>"

definition invalidStateRequest :: "migration_key \<Rightarrow> go_error" where
  "invalidStateRequest node = newPlanningError CategoryPlan CodeInvalidTarget node zeroKey []"

definition validateStateRequest :: "state_request \<Rightarrow> go_error + migration_key list \<times> applied_state" where
  "validateStateRequest request =
     (if srKind request = stateRequestEmpty \<or> srKind request = stateRequestLatest then
        (if srTargets request \<noteq> None \<or> asKeys (srApplied request) \<noteq> None
         then Inl (invalidStateRequest zeroKey) else Inr ([], zeroAppliedState))
      else if srKind request = stateRequestBefore \<or> srKind request = stateRequestAfter then
        (if cloneAppliedKeys (srTargets request) = [] \<or> asKeys (srApplied request) \<noteq> None
         then Inl (invalidStateRequest zeroKey)
         else (case check_all (\<lambda>key. validateTarget (NamedTarget key)) (cloneAppliedKeys (srTargets request)) of
                 Some err \<Rightarrow> Inl err
               | None \<Rightarrow> Inr (cloneAppliedKeys (srTargets request), zeroAppliedState)))
      else if srKind request = stateRequestApplied then
        (if srTargets request \<noteq> None then Inl (invalidStateRequest zeroKey)
         else (case asKeys (srApplied request) of
                 None \<Rightarrow> Inl (invalidStateRequest zeroKey)
               | Some keys \<Rightarrow>
                   (case NewAppliedState keys of
                      Inl err \<Rightarrow> Inl err
                    | Inr applied \<Rightarrow> Inr ([], applied))))
      else Inl (invalidStateRequest zeroKey))"

section \<open>The reconstructor\<close>

record state_reconstructor =
  rcPlanner :: planner
  rcDefinitions :: "(migration_key \<times> migration) list"

definition invalidReconstructorOperation :: "migration \<Rightarrow> nat \<Rightarrow> string \<Rightarrow> go_error \<Rightarrow> go_error" where
  "invalidReconstructorOperation m index kind cause =
     migrationError CategoryState CodeInvalidState DirectionForward m (int index) kind cause"

text \<open>
  The copy of an operation keeps values as values and pointers as pointers; an operation of
  another concrete type is not supported.
\<close>

fun cloneReconstructorOperation :: "operation \<Rightarrow> (operation \<times> builtin_operation) option" where
  "cloneReconstructorOperation (ValueOperation b) = Some (ValueOperation b, b)"
| "cloneReconstructorOperation (PointerOperation b) = Some (PointerOperation b, b)"
| "cloneReconstructorOperation _ = None"

fun clone_operations :: "migration \<Rightarrow> nat \<Rightarrow> operation list \<Rightarrow> go_error + operation list" where
  "clone_operations d index [] = Inr []"
| "clone_operations d index (op # ops) =
     (if op = NilOperation
      then Inl (invalidReconstructorOperation d index '''' (ErrNew ''operation is nil''))
      else (case cloneReconstructorOperation op of
              None \<Rightarrow> Inl (invalidReconstructorOperation d index ''''
                        (ErrFmt ''operation type %T is not supported by StateReconstructor'' []))
            | Some (copy, b) \<Rightarrow>
                if App b \<noteq> migApp d
                then Inl (invalidReconstructorOperation d index (Kind b)
                       (ErrFmt ''operation app %q does not match migration app %q''
                          [FStr (App b), FStr (migApp d)]))
                else (case clone_operations d (Suc index) ops of
                        Inl err \<Rightarrow> Inl err
                      | Inr copies \<Rightarrow> Inr (copy # copies))))"

fun clone_definitions :: "(migration_key \<times> migration) list \<Rightarrow> (migration_key \<times> migration) list
    \<Rightarrow> migration_key list \<Rightarrow> go_error + (migration_key \<times> migration) list" where
  "clone_definitions byKey cloned [] = Inr cloned"
| "clone_definitions byKey cloned (key # keys) =
     (let d = (case map_of byKey key of
                 None \<Rightarrow> \<lparr>migApp = '''', migName = '''', migDependencies = [], migOperations = []\<rparr>
               | Some d \<Rightarrow> d) in
      case clone_operations d 0 (migOperations d) of
        Inl err \<Rightarrow> Inl err
      | Inr copies \<Rightarrow> clone_definitions byKey (map_set key (d\<lparr>migOperations := copies\<rparr>) cloned) keys)"

definition cloneReconstructorDefinitions :: "planner_graph \<Rightarrow> migration list
    \<Rightarrow> go_error + (migration_key \<times> migration) list" where
  "cloneReconstructorDefinitions g migrations =
     clone_definitions (foldl (\<lambda>byKey m. map_set (migration_Key m) m byKey) [] migrations) [] (gNodes g)"

definition NewStateReconstructor :: "migration list \<Rightarrow> go_error + state_reconstructor" where
  "NewStateReconstructor migrations =
     (case NewPlanner migrations of
        Inl err \<Rightarrow> Inl err
      | Inr p \<Rightarrow>
        (case cloneReconstructorDefinitions (planner_graph_of p) migrations of
           Inl err \<Rightarrow> Inl err
         | Inr definitions \<Rightarrow> Inr \<lparr>rcPlanner = p, rcDefinitions = definitions\<rparr>))"

text \<open>The loop over one closure: steps not seen before are appended.\<close>

fun add_steps :: "plan_step list \<Rightarrow> plan_step list \<Rightarrow> go_error + plan_step list" where
  "add_steps steps [] = Inr steps"
| "add_steps steps (step # closure) =
     (if psDirection step \<noteq> DirectionForward
      then Inl (migrationError CategoryState CodeInvalidState (psDirection step) (step_migration step)
             NoOperation '''' (ErrNew ''historical projection contains a non-forward step''))
      else if psKey step \<in> psKey ` set steps then add_steps steps closure
      else add_steps (steps @ [step]) closure)"

fun projection_loop :: "planner \<Rightarrow> plan_step list \<Rightarrow> migration_key list \<Rightarrow> go_error + plan_step list" where
  "projection_loop p steps [] = Inr steps"
| "projection_loop p steps (key # keys) =
     (case Plan p zeroAppliedState [NamedTarget key] of
        Inl err \<Rightarrow> Inl err
      | Inr closure \<Rightarrow>
        (case add_steps steps closure of
           Inl err \<Rightarrow> Inl err
         | Inr steps' \<Rightarrow> projection_loop p steps' keys))"

definition targetProjection :: "state_reconstructor \<Rightarrow> migration_key list \<Rightarrow> go_error + plan_step list" where
  "targetProjection r targets = projection_loop (rcPlanner r) [] targets"

definition fullForwardProjection :: "state_reconstructor \<Rightarrow> go_error + plan_step list" where
  "fullForwardProjection r = targetProjection r (appLeaves (planner_graph_of (rcPlanner r)))"

definition withoutExplicitTargets :: "plan_step list \<Rightarrow> migration_key list \<Rightarrow> plan_step list" where
  "withoutExplicitTargets steps targets = filter (\<lambda>step. psKey step \<notin> set targets) steps"

definition onlyAppliedSteps :: "plan_step list \<Rightarrow> applied_state \<Rightarrow> plan_step list" where
  "onlyAppliedSteps steps applied =
     filter (\<lambda>step. psKey step \<in> set (cloneAppliedKeys (asKeys applied))) steps"

fun replay_loop :: "unicode_tables \<Rightarrow> (migration_key \<times> migration) list \<Rightarrow> project_state
    \<Rightarrow> plan_step list \<Rightarrow> go_error + project_state" where
  "replay_loop uc definitions state [] = Inr (State_Clone state)"
| "replay_loop uc definitions state (step # steps) =
     (case map_of definitions (psKey step) of
        None \<Rightarrow> Inl (migrationError CategoryState CodeInvalidState DirectionForward (step_migration step)
                  NoOperation '''' (ErrNew ''historical projection has no migration definition''))
      | Some m \<Rightarrow>
        (case preflight uc state m DirectionForward of
           Inl err \<Rightarrow> Inl err
         | Inr (_, next) \<Rightarrow> replay_loop uc definitions next steps))"

definition replay :: "unicode_tables \<Rightarrow> state_reconstructor \<Rightarrow> plan_step list \<Rightarrow> go_error + project_state" where
  "replay uc r steps = replay_loop uc (rcDefinitions r) EmptyProjectState steps"

text \<open>The steps a request replays, before the request's filter and the replay itself.\<close>

definition Reconstruct :: "unicode_tables \<Rightarrow> state_reconstructor \<Rightarrow> state_request \<Rightarrow> go_error + project_state" where
  "Reconstruct uc r request =
     (case validateStateRequest request of
        Inl err \<Rightarrow> Inl err
      | Inr (targets, applied) \<Rightarrow>
        (if srKind request = stateRequestEmpty then Inr EmptyProjectState
         else
           (let steps =
              (if srKind request = stateRequestLatest then fullForwardProjection r
               else if srKind request = stateRequestBefore \<or> srKind request = stateRequestAfter then
                 map_sum id (\<lambda>steps. if srKind request = stateRequestBefore
                                 then withoutExplicitTargets steps targets else steps)
                   (targetProjection r targets)
               else
                 (case CheckHistory (rcPlanner r) applied of
                    Some err \<Rightarrow> Inl err
                  | None \<Rightarrow> map_sum id (\<lambda>steps. onlyAppliedSteps steps applied) (fullForwardProjection r))) in
            case steps of
              Inl err \<Rightarrow> Inl err
            | Inr steps' \<Rightarrow> replay uc r steps')))"

section \<open>The projections\<close>

definition all_forward :: "plan_step list \<Rightarrow> bool" where
  "all_forward ss \<longleftrightarrow> (\<forall>s \<in> set ss. psDirection s = DirectionForward)"

lemma all_forward_simps [simp]:
  "all_forward []" "all_forward (s # ss) \<longleftrightarrow> psDirection s = DirectionForward \<and> all_forward ss"
  "all_forward (ss @ ts) \<longleftrightarrow> all_forward ss \<and> all_forward ts"
  by (auto simp: all_forward_def)

lemma forward_exec_keys:
  "exec_steps g A ss = Some B \<Longrightarrow> all_forward ss \<Longrightarrow> B = A \<union> psKey ` set ss"
  by (induction ss arbitrary: A) (auto simp: exec_step_def split: if_splits option.splits)

lemma forward_exec_distinct:
  "exec_steps g A ss = Some B \<Longrightarrow> all_forward ss \<Longrightarrow> distinct (map psKey ss) \<and> psKey ` set ss \<inter> A = {}"
proof (induction ss arbitrary: A)
  case (Cons s ss)
  then show ?case by (auto simp: exec_step_def split: if_splits option.splits)
qed simp

text \<open>A schedule restricted to a set that is closed under dependencies is a schedule.\<close>

lemma exec_steps_filter:
  assumes "exec_steps g A ss = Some B" "all_forward ss"
    and "\<And>k. k \<in> S \<Longrightarrow> k \<in> set (gNodes g) \<Longrightarrow> set (parents g k) \<subseteq> S"
  shows "exec_steps g (A \<inter> S) (filter (\<lambda>s. psKey s \<in> S) ss) = Some (B \<inter> S)"
  using assms(1,2)
proof (induction ss arbitrary: A)
  case (Cons s ss)
  then have step: "exec_step g A s = Some (insert (psKey s) A)"
    "psKey s \<in> set (gNodes g)" "psKey s \<notin> A" "set (parents g (psKey s)) \<subseteq> A"
    "exec_steps g (insert (psKey s) A) ss = Some B" "psDirection s = DirectionForward" "all_forward ss"
    by (auto simp: exec_step_def split: if_splits option.splits)
  note IH = Cons.IH[OF step(5,7)]
  show ?case
  proof (cases "psKey s \<in> S")
    case True
    then have "exec_step g (A \<inter> S) s = Some (insert (psKey s) (A \<inter> S))"
      using step assms(3)[OF True] by (auto simp: exec_step_def)
    moreover have "insert (psKey s) A \<inter> S = insert (psKey s) (A \<inter> S)" using True by blast
    ultimately show ?thesis using IH True by simp
  next
    case False
    then have "insert (psKey s) A \<inter> S = A \<inter> S" by blast
    with IH False show ?thesis by simp
  qed
qed simp

text \<open>Merging a closure into the steps collected so far.\<close>

lemma add_steps_correct:
  assumes "exec_steps g X closure = Some R" "all_forward closure" "X \<subseteq> A"
    and "exec_steps g {} steps = Some A" "all_forward steps"
  shows "\<exists>steps'. add_steps steps closure = Inr steps' \<and> all_forward steps'
    \<and> exec_steps g {} steps' = Some (A \<union> R)"
  using assms
proof (induction closure arbitrary: X A steps)
  case Nil
  then have "A \<union> R = A" by auto
  with Nil show ?case by simp
next
  case (Cons s closure)
  then have s: "psKey s \<in> set (gNodes g)" "set (parents g (psKey s)) \<subseteq> X"
    "exec_steps g (insert (psKey s) X) closure = Some R" "psDirection s = DirectionForward" "all_forward closure"
    by (auto simp: exec_step_def split: if_splits option.splits)
  have keys: "psKey ` set steps = A" using forward_exec_keys[OF Cons.prems(4,5)] by simp
  show ?case
  proof (cases "psKey s \<in> A")
    case True
    then have "insert (psKey s) X \<subseteq> A" using Cons.prems(3) by blast
    from Cons.IH[OF s(3,5) this Cons.prems(4,5)] True keys s(4) show ?thesis by simp
  next
    case False
    have "exec_steps g {} (steps @ [s]) = Some (insert (psKey s) A)"
      using Cons.prems(3,4) s False by (auto simp: exec_steps_append exec_step_def)
    moreover have "insert (psKey s) X \<subseteq> insert (psKey s) A" using Cons.prems(3) by blast
    ultimately obtain steps' where "add_steps (steps @ [s]) closure = Inr steps'" "all_forward steps'"
      "exec_steps g {} steps' = Some (insert (psKey s) A \<union> R)"
      using Cons.IH[OF s(3,5), of "insert (psKey s) A" "steps @ [s]"] Cons.prems(5) s(4) by auto
    moreover have "psKey s \<in> R" using forward_exec_keys[OF s(3,5)] by blast
    moreover from this have "insert (psKey s) A \<union> R = A \<union> R" by blast
    ultimately show ?thesis using False keys s(4) by auto
  qed
qed

lemma Plan_closure:
  assumes wf: "planner_wf p" and key: "key \<in> set (gNodes (planner_graph_of p))" "validMigrationKey key"
  shows "\<exists>closure. Plan p zeroAppliedState [NamedTarget key] = Inr closure \<and> all_forward closure
    \<and> exec_steps (planner_graph_of p) {} closure = Some (requirements (planner_graph_of p) key)"
proof -
  let ?g = "planner_graph_of p"
  have wfg: "planner_graph_wf ?g" using wf by (simp add: planner_wf_def)
  have hist: "history_consistent ?g (set [])" by (simp add: history_consistent_def)
  from planForward_correct[OF wfg key(1) _ hist] obtain steps A' where
    f: "planForward ?g key [] = Inr (steps, A')" "exec_steps ?g {} steps = Some (requirements ?g key)"
    "\<forall>s \<in> set steps. psDirection s = DirectionForward" by auto
  have "validateTarget (NamedTarget key) = None" using key(2) by (auto simp: validateTarget_None)
  moreover have "validateAppliedHistory ?g [] = None"
    by (simp add: validateAppliedHistory_None_iff history_consistent_def)
  moreover have "contains ?g key" using planner_graph_wfD(3)[OF wfg] key(1) by blast
  ultimately have "Plan p zeroAppliedState [NamedTarget key] = Inr steps"
    using f(1) by (simp add: Plan_def zeroAppliedState_def cloneAppliedKeys_def planTarget_def NamedTarget_def)
  with f show ?thesis by (auto simp: all_forward_def)
qed

lemma projection_loop_correct:
  assumes wf: "planner_wf p" and keys: "\<forall>k \<in> set ks. k \<in> set (gNodes (planner_graph_of p)) \<and> validMigrationKey k"
    and "exec_steps (planner_graph_of p) {} steps = Some A" "all_forward steps"
  shows "\<exists>steps'. projection_loop p steps ks = Inr steps' \<and> all_forward steps'
    \<and> exec_steps (planner_graph_of p) {} steps'
        = Some (A \<union> (\<Union>k \<in> set ks. requirements (planner_graph_of p) k))"
  using keys assms(3,4)
proof (induction ks arbitrary: steps A)
  case (Cons k ks)
  from Plan_closure[OF wf, of k] Cons.prems(1) obtain closure where
    c: "Plan p zeroAppliedState [NamedTarget k] = Inr closure" "all_forward closure"
    "exec_steps (planner_graph_of p) {} closure = Some (requirements (planner_graph_of p) k)" by auto
  from add_steps_correct[OF c(3,2) empty_subsetI Cons.prems(2,3)] obtain steps' where
    s: "add_steps steps closure = Inr steps'" "all_forward steps'"
    "exec_steps (planner_graph_of p) {} steps' = Some (A \<union> requirements (planner_graph_of p) k)" by blast
  from Cons.IH[OF _ s(3,2)] Cons.prems(1) c(1) s(1) show ?case by (simp add: Un_assoc)
qed simp

lemma leaves_cover:
  assumes wf: "planner_graph_wf g"
  shows "(\<Union>k \<in> set (appLeaves g). requirements g k) = set (gNodes g)"
proof
  show "(\<Union>k \<in> set (appLeaves g). requirements g k) \<subseteq> set (gNodes g)"
    using requirements_nodes[OF wf] by (auto simp: appLeaves_def)
  show "set (gNodes g) \<subseteq> (\<Union>k \<in> set (appLeaves g). requirements g k)"
  proof
    fix k assume "k \<in> set (gNodes g)"
    then show "k \<in> (\<Union>k \<in> set (appLeaves g). requirements g k)"
    proof (induction k rule: wf_induct_rule[OF planner_graph_wfD(7)[OF wf]])
      case (1 k)
      show ?case
      proof (cases "k \<in> set (appLeaves g)")
        case True
        then show ?thesis by (auto intro: bexI[of _ k])
      next
        case False
        with 1(2) obtain c where "c \<in> set (children g k)" by (auto simp: appLeaves_def list_ex_iff)
        then have edge: "(c, k) \<in> dep_rel g" using planner_graph_wfD(5)[OF wf] by (simp add: dep_rel_iff)
        with 1(1)[OF edge] planner_graph_wfD(9)[OF wf edge] obtain l where
          l: "l \<in> set (appLeaves g)" "c \<in> requirements g l" by auto
        then have "k \<in> requirements g l"
          using edge by (auto simp: requirements_def intro: rtrancl_into_rtrancl)
        with l(1) show ?thesis by blast
      qed
    qed
  qed
qed

section \<open>Properties of reconstruction\<close>

lemma NewStateReconstructor_planner:
  assumes "NewStateReconstructor ms = Inr r"
  shows "NewPlanner ms = Inr (rcPlanner r)" and "planner_wf (rcPlanner r)"
    and "set (gNodes (planner_graph_of (rcPlanner r))) = migration_Key ` set ms"
    and "\<forall>m \<in> set ms. validMigrationKey (migration_Key m)"
proof -
  show p: "NewPlanner ms = Inr (rcPlanner r)"
    using assms by (auto simp: NewStateReconstructor_def split: sum.splits)
  then show "planner_wf (rcPlanner r)" by (rule NewPlanner_wf)
  from p have "graph_definable ms" "rcPlanner r = \<lparr>plGraph = Some (built_graph ms)\<rparr>"
    by (auto simp: NewPlanner_def newPlannerGraph_Inr_iff split: sum.splits)
  then have "graph_definable ms" "planner_graph_of (rcPlanner r) = built_graph ms"
    by (simp_all add: planner_graph_of_def)
  then show "set (gNodes (planner_graph_of (rcPlanner r))) = migration_Key ` set ms"
    "\<forall>m \<in> set ms. validMigrationKey (migration_Key m)"
    by (simp_all add: graph_definable_def built_graph_facts(1) edges_definable_def)
qed

lemma fullForwardProjection_correct:
  assumes "NewStateReconstructor ms = Inr r"
  shows "\<exists>steps. fullForwardProjection r = Inr steps \<and> all_forward steps
    \<and> exec_steps (planner_graph_of (rcPlanner r)) {} steps = Some (migration_Key ` set ms)"
proof -
  let ?g = "planner_graph_of (rcPlanner r)"
  note r = NewStateReconstructor_planner[OF assms]
  have wfg: "planner_graph_wf ?g" using r(2) by (simp add: planner_wf_def)
  have "\<forall>k \<in> set (appLeaves ?g). k \<in> set (gNodes ?g) \<and> validMigrationKey k"
    using r(3,4) by (auto simp: appLeaves_def)
  from projection_loop_correct[OF r(2) this, of "[]" "{}"] leaves_cover[OF wfg] r(3)
  show ?thesis by (simp add: fullForwardProjection_def targetProjection_def)
qed

text \<open>
  C11: the full projection of a reconstructor replays every migration exactly once, each after
  everything it depends on; restricted to a consistent applied history it is still a legal
  schedule and ends in exactly the applied migrations the graph knows.
\<close>

theorem applied_projection_is_schedule:
  assumes "NewStateReconstructor ms = Inr r" and "CheckHistory (rcPlanner r) a = None"
  shows "\<exists>steps. fullForwardProjection r = Inr steps \<and> distinct (map psKey steps)
    \<and> exec_steps (planner_graph_of (rcPlanner r)) {} steps = Some (migration_Key ` set ms)
    \<and> exec_steps (planner_graph_of (rcPlanner r)) {} (onlyAppliedSteps steps a)
        = Some (applied_set a \<inter> migration_Key ` set ms)"
proof -
  let ?g = "planner_graph_of (rcPlanner r)"
  from fullForwardProjection_correct[OF assms(1)] obtain steps where
    s: "fullForwardProjection r = Inr steps" "all_forward steps"
    "exec_steps ?g {} steps = Some (migration_Key ` set ms)" by blast
  have closed: "set (parents ?g k) \<subseteq> applied_set a" if "k \<in> applied_set a" "k \<in> set (gNodes ?g)" for k
    using assms(2) that
    by (auto simp: CheckHistory_def validateAppliedHistory_None_iff history_consistent_def applied_set_def)
  have "exec_steps ?g ({} \<inter> applied_set a) (filter (\<lambda>s. psKey s \<in> applied_set a) steps)
      = Some (migration_Key ` set ms \<inter> applied_set a)"
    by (rule exec_steps_filter[OF s(3,2)]) (rule closed)
  then show ?thesis
    using s forward_exec_distinct[OF s(3,2)] by (auto simp: onlyAppliedSteps_def applied_set_def Int_commute)
qed

text \<open>
  the steps of an after-request are the union of the closures of its targets, each
  migration once and after everything it depends on, and the result is the replay of those
  steps; a before-request replays the same steps without the targets named.
\<close>

theorem target_projection_is_union:
  assumes "NewStateReconstructor ms = Inr r" and "set (k # ks) \<subseteq> migration_Key ` set ms"
  shows "\<exists>steps. distinct (map psKey steps)
    \<and> exec_steps (planner_graph_of (rcPlanner r)) {} steps
        = Some (\<Union>t \<in> set (k # ks). requirements (planner_graph_of (rcPlanner r)) t)
    \<and> Reconstruct uc r (AfterStateRequest k ks) = replay uc r steps
    \<and> Reconstruct uc r (BeforeStateRequest k ks)
        = replay uc r (filter (\<lambda>s. psKey s \<notin> set (k # ks)) steps)"
proof -
  let ?g = "planner_graph_of (rcPlanner r)"
  note r = NewStateReconstructor_planner[OF assms(1)]
  have keys: "\<forall>t \<in> set (k # ks). t \<in> set (gNodes ?g) \<and> validMigrationKey t"
    using assms(2) r(3,4) by auto
  from projection_loop_correct[OF r(2) keys, of "[]" "{}"] obtain steps where
    s: "targetProjection r (k # ks) = Inr steps" "all_forward steps"
    "exec_steps ?g {} steps = Some (\<Union>t \<in> set (k # ks). requirements ?g t)"
    by (auto simp: targetProjection_def)
  have "check_all (\<lambda>key. validateTarget (NamedTarget key)) (k # ks) = None"
    unfolding check_all_None using keys by (auto simp: validateTarget_None)
  then have v: "validateStateRequest (targetStateRequest kind k ks) = Inr (k # ks, zeroAppliedState)"
    if "kind = stateRequestBefore \<or> kind = stateRequestAfter" for kind
    using that by (auto simp: validateStateRequest_def targetStateRequest_def cloneAppliedKeys_def
        zeroAppliedState_def simp del: check_all.simps)
  have after: "Reconstruct uc r (AfterStateRequest k ks) = replay uc r steps"
    using v[of stateRequestAfter] s(1)
    by (simp add: Reconstruct_def AfterStateRequest_def targetStateRequest_def)
  have before: "Reconstruct uc r (BeforeStateRequest k ks) = replay uc r (withoutExplicitTargets steps (k # ks))"
    using v[of stateRequestBefore] s(1)
    by (simp add: Reconstruct_def BeforeStateRequest_def targetStateRequest_def)
  show ?thesis
    using forward_exec_distinct[OF s(3,2)] s(3) after before unfolding withoutExplicitTargets_def by blast
qed

definition sample_reconstructor :: state_reconstructor where
  "sample_reconstructor = \<lparr>rcPlanner = sample_planner,
     rcDefinitions = [(MigrationKey ''blog'' ''0001'', sample_migrations ! 1),
                      (MigrationKey ''blog'' ''0002'', sample_migrations ! 0)]\<rparr>"

lemma sample_NewStateReconstructor:
  "NewStateReconstructor sample_migrations = Inr sample_reconstructor"
  unfolding NewStateReconstructor_def sample_NewPlanner sum.case
  by code_simp

theorem applied_projection_is_schedule_witness:
  "\<exists>steps. fullForwardProjection sample_reconstructor = Inr steps
    \<and> exec_steps (planner_graph_of sample_planner) {}
        (onlyAppliedSteps steps \<lparr>asKeys = Some [MigrationKey ''blog'' ''0001'', MigrationKey ''x'' ''y'']\<rparr>)
      = Some {MigrationKey ''blog'' ''0001''}"
proof -
  let ?a = "\<lparr>asKeys = Some [MigrationKey ''blog'' ''0001'', MigrationKey ''x'' ''y'']\<rparr>"
  have "CheckHistory (rcPlanner sample_reconstructor) ?a = None" by code_simp
  moreover have "applied_set ?a \<inter> migration_Key ` set sample_migrations = {MigrationKey ''blog'' ''0001''}"
    by (auto simp: applied_set_def cloneAppliedKeys_def sample_migrations_def migration_Key_def)
  moreover have "rcPlanner sample_reconstructor = sample_planner" by (simp add: sample_reconstructor_def)
  ultimately show ?thesis
    using applied_projection_is_schedule[OF sample_NewStateReconstructor, of ?a] by auto
qed

theorem target_projection_is_union_witness:
  "\<exists>steps. exec_steps (planner_graph_of sample_planner) {} steps
      = Some (requirements (planner_graph_of sample_planner) (MigrationKey ''blog'' ''0002''))
    \<and> Reconstruct ascii_tables sample_reconstructor (AfterStateRequest (MigrationKey ''blog'' ''0002'') [])
      = replay ascii_tables sample_reconstructor steps"
proof -
  have "set [MigrationKey ''blog'' ''0002''] \<subseteq> migration_Key ` set sample_migrations"
    by (simp add: sample_migrations_def migration_Key_def)
  from target_projection_is_union[OF sample_NewStateReconstructor this, of ascii_tables]
  show ?thesis by (auto simp: sample_reconstructor_def)
qed

end
