(* ===== verification/Sqlite_Session.thy ===== *)
theory Sqlite_Session
  imports Sqlite_Execution Reconstructor
begin

text \<open>
  The SQLite backend outside migrations: queries and one-row writes (\<open>db/sqlite/backend.go\<close>,
  \<open>db/sqlite/write.go\<close>), the transaction session and \<open>Atomic\<close> (\<open>db/sqlite/transaction.go\<close>), and
  the reader of the migration history (\<open>db/sqlite/migration_history.go\<close>). \<open>SQLITE_ERROR\<close> and
  \<open>SQLITE_CONSTRAINT_PRIMARYKEY\<close> are SQLite's documented result codes.
\<close>

section \<open>Calls outside a transaction\<close>

definition db_exec :: "'d sqlite_driver \<Rightarrow> string \<Rightarrow> sql_value list \<Rightarrow> ('d, exec_result) sqlite_step" where
  "db_exec drv statement arguments w =
     (case drExec drv (swClock w) statement arguments (swDurable w) of
        (r, d') \<Rightarrow> (r, (tick w)\<lparr>swDurable := d'\<rparr>))"

definition db_query :: "'d sqlite_driver \<Rightarrow> string \<Rightarrow> sql_value list \<Rightarrow> ('d, sql_rows) sqlite_step" where
  "db_query drv statement arguments w =
     (drQuery drv (swClock w) statement arguments (swDurable w), tick w)"

definition count_query :: "('d, unit) sqlite_step" where
  "count_query w = (Inr (), w\<lparr>swQueryCount := swQueryCount w + 1\<rparr>)"

definition QueryCount :: "'d sqlite_driver \<Rightarrow> 'd sqlite_world \<Rightarrow> 64 word" where
  "QueryCount drv w = (if drNil drv then 0 else swQueryCount w)"

definition closed_error :: go_error where
  "closed_error = query_error CategoryBackend CodeInvalidPlan (plain ''SQLite backend is nil or closed'')"

definition nil_context_error :: go_error where
  "nil_context_error = query_error CategoryBackend CodeInvalidPlan (plain ''context is nil'')"

section \<open>Error classification\<close>

definition SQLITE_ERROR :: int where
  "SQLITE_ERROR = 1"

definition SQLITE_CONSTRAINT_PRIMARYKEY :: int where
  "SQLITE_CONSTRAINT_PRIMARYKEY = 1555"

definition missing_table_marker :: string where
  "missing_table_marker = ''no such table: ''"

definition isMissingTableMessage :: "string \<Rightarrow> string \<Rightarrow> bool" where
  "isMissingTableMessage message table =
     (case last_index message missing_table_marker of
        None \<Rightarrow> False
      | Some position \<Rightarrow>
          (let remainder = drop (position + length missing_table_marker) message in
           remainder = table \<or> has_prefix remainder (table @ '' ('')))"

text \<open>The first driver error of the tree \<open>errors.As\<close> walks.\<close>

definition find_driver_error :: "go_error \<Rightarrow> (int \<times> string) option" where
  "find_driver_error err =
     (case List.map_filter (\<lambda>e. case e of DriverError code message \<Rightarrow> Some (code, message) | _ \<Rightarrow> None) (error_tree err) of
        [] \<Rightarrow> None
      | e # _ \<Rightarrow> Some e)"

definition isSQLiteMissingTableError :: "go_error \<Rightarrow> string \<Rightarrow> bool" where
  "isSQLiteMissingTableError err table =
     (case find_driver_error err of
        None \<Rightarrow> False
      | Some (code, message) \<Rightarrow> code = SQLITE_ERROR \<and> isMissingTableMessage message table)"

definition classifyQueryError :: "go_error \<Rightarrow> string \<Rightarrow> go_error" where
  "classifyQueryError err table =
     (if isSQLiteMissingTableError err table
      then QueryError CategoryBackend CodeMissingTable '''' ''''
             (Text ''SQLite table %q does not exist'' [FStr table]) (Some err)
      else ErrWrap ''execute SQLite query: %w'' [] err)"

definition classifyInsertError :: "go_error \<Rightarrow> go_error" where
  "classifyInsertError err =
     (case find_driver_error err of
        Some (code, _) \<Rightarrow>
          if code = SQLITE_CONSTRAINT_PRIMARYKEY
          then QueryError CategoryIntegrity CodeUniquePrimaryKey '''' ''''
                 (plain ''SQLite primary-key constraint rejected the insert'') (Some err)
          else ErrWrap ''execute SQLite insert: %w'' [] err
      | None \<Rightarrow> ErrWrap ''execute SQLite insert: %w'' [] err)"

section \<open>One-row writes\<close>

text \<open>An executor runs a statement: the database itself, or a transaction.\<close>

type_synonym 'd write_executor = "string \<Rightarrow> sql_value list \<Rightarrow> ('d, exec_result) sqlite_step"

definition executeInsert :: "'d write_executor \<Rightarrow> insert_plan \<Rightarrow> ('d, int) sqlite_step" where
  "executeInsert executor plan =
     (case CompileInsert plan of
        Inl err \<Rightarrow> fail_step err
      | Inr (statement, arguments) \<Rightarrow>
          bind_step (wrap_step classifyInsertError (executor statement arguments))
          (\<lambda>result. case erRowsAffected result of
             Inl err \<Rightarrow> fail_step (ErrWrap ''read SQLite insert rows affected: %w'' [] err)
           | Inr rowsAffected \<Rightarrow>
               if rowsAffected \<noteq> 1
               then fail_step (query_error CategoryBackend CodeUnexpectedRows
                      (Text ''insert affected %d rows, want 1'' [FInt rowsAffected]))
               else (case erLastInsertId result of
                       Inl err \<Rightarrow> fail_step (ErrWrap ''read SQLite last insert id: %w'' [] err)
                     | Inr lastInsertID \<Rightarrow> return_step lastInsertID)))"

definition rows_affected :: "string \<Rightarrow> exec_result \<Rightarrow> ('d, int) sqlite_step" where
  "rows_affected format result =
     (case erRowsAffected result of
        Inl err \<Rightarrow> fail_step (ErrWrap format [] err)
      | Inr n \<Rightarrow> return_step n)"

definition executeUpdate :: "'d write_executor \<Rightarrow> update_plan \<Rightarrow> ('d, int) sqlite_step" where
  "executeUpdate executor plan =
     (case CompileUpdate plan of
        Inl err \<Rightarrow> fail_step err
      | Inr (statement, arguments) \<Rightarrow>
          bind_step (wrap_step (ErrWrap ''execute SQLite update: %w'' []) (executor statement arguments))
            (rows_affected ''read SQLite update rows affected: %w''))"

definition executeDelete :: "'d write_executor \<Rightarrow> delete_plan \<Rightarrow> ('d, int) sqlite_step" where
  "executeDelete executor plan =
     (case CompileDelete plan of
        Inl err \<Rightarrow> fail_step err
      | Inr (statement, arguments) \<Rightarrow>
          bind_step (wrap_step (ErrWrap ''execute SQLite delete: %w'' []) (executor statement arguments))
            (rows_affected ''read SQLite delete rows affected: %w''))"

definition validateWriteContext :: "'d sqlite_driver \<Rightarrow> call_context \<Rightarrow> ('d, unit) sqlite_step" where
  "validateWriteContext drv c w =
     (if unusable drv w then (Inl closed_error, w)
      else if c = NilContext then (Inl nil_context_error, w)
      else (case ctx_err drv c w of
              (Some err, w1) \<Rightarrow> (Inl err, w1)
            | (None, w1) \<Rightarrow> (Inr (), w1)))"

definition Backend_Insert :: "'d sqlite_driver \<Rightarrow> call_context \<Rightarrow> insert_plan \<Rightarrow> ('d, int) sqlite_step" where
  "Backend_Insert drv c plan =
     bind_step (validateWriteContext drv c) (\<lambda>_. executeInsert (db_exec drv) plan)"

definition Backend_Update :: "'d sqlite_driver \<Rightarrow> call_context \<Rightarrow> update_plan \<Rightarrow> ('d, int) sqlite_step" where
  "Backend_Update drv c plan =
     bind_step (validateWriteContext drv c) (\<lambda>_. executeUpdate (db_exec drv) plan)"

definition Backend_Delete :: "'d sqlite_driver \<Rightarrow> call_context \<Rightarrow> delete_plan \<Rightarrow> ('d, int) sqlite_step" where
  "Backend_Delete drv c plan =
     bind_step (validateWriteContext drv c) (\<lambda>_. executeDelete (db_exec drv) plan)"

definition Backend_Query :: "'d sqlite_driver \<Rightarrow> call_context \<Rightarrow> select_plan \<Rightarrow> ('d, sql_rows) sqlite_step" where
  "Backend_Query drv c plan w =
     (if unusable drv w then (Inl closed_error, w)
      else if c = NilContext then (Inl nil_context_error, w)
      else (case Compile plan of
              Inl err \<Rightarrow> (Inl err, w)
            | Inr (statement, arguments) \<Rightarrow>
                bind_step count_query
                  (\<lambda>_. wrap_step (\<lambda>err. classifyQueryError err (plTable plan)) (db_query drv statement arguments)) w))"

definition Backend_ExecContext :: "'d sqlite_driver \<Rightarrow> call_context \<Rightarrow> string \<Rightarrow> sql_value list
    \<Rightarrow> ('d, exec_result) sqlite_step" where
  "Backend_ExecContext drv c statement arguments w =
     (if unusable drv w then (Inl closed_error, w)
      else if c = NilContext then (Inl nil_context_error, w)
      else db_exec drv statement arguments w)"

definition SQLiteVersion :: "'d sqlite_driver \<Rightarrow> call_context \<Rightarrow> ('d, string) sqlite_step" where
  "SQLiteVersion drv c w =
     (if unusable drv w then (Inl closed_error, w)
      else if c = NilContext then (Inl nil_context_error, w)
      else wrap_step (ErrWrap ''read SQLite version: %w'' [])
             (bind_step (db_query drv ''SELECT sqlite_version()'' [])
                (\<lambda>rows. bind_step (lift_result (first_row rows))
                (\<lambda>cells. lift_result
                   (scan_row (\<lambda>cs. case cs of [CellString s] \<Rightarrow> Some s | _ \<Rightarrow> None) (Inr cells))))) w)"

text \<open>\<open>Close\<close>: the compare-and-swap on \<open>closed\<close> lets only the first call close the database.\<close>

definition Backend_Close :: "'d sqlite_driver \<Rightarrow> 'd sqlite_world \<Rightarrow> go_error option \<times> 'd sqlite_world" where
  "Backend_Close drv w =
     (if drNil drv then (None, w)
      else if swClosed w then (None, w)
      else (case connection_close drv (w\<lparr>swClosed := True\<rparr>) of
              (err, w') \<Rightarrow> (map_option (ErrWrap ''close SQLite database: %w'' []) err, w')))"

section \<open>Transaction sessions\<close>

definition session_validate :: "'d sqlite_driver \<Rightarrow> nat \<Rightarrow> call_context \<Rightarrow> ('d, unit) sqlite_step" where
  "session_validate drv tx c w =
     (if tx_done tx w
      then (Inl (query_error CategoryBackend CodeInvalidPlan
              (plain ''SQLite transaction session is nil or no longer active'')), w)
      else if c = NilContext then (Inl nil_context_error, w)
      else (case ctx_err drv c w of
              (Some err, w1) \<Rightarrow> (Inl err, w1)
            | (None, w1) \<Rightarrow> (Inr (), w1)))"

definition session_Query :: "'d sqlite_driver \<Rightarrow> nat \<Rightarrow> call_context \<Rightarrow> select_plan \<Rightarrow> ('d, sql_rows) sqlite_step" where
  "session_Query drv tx c plan =
     bind_step (session_validate drv tx c)
     (\<lambda>_. case Compile plan of
        Inl err \<Rightarrow> fail_step err
      | Inr (statement, arguments) \<Rightarrow>
          bind_step count_query
          (\<lambda>_. wrap_step (ErrWrap ''execute SQLite transaction query: %w'' []) (tx_query drv tx statement arguments)))"

definition session_Insert :: "'d sqlite_driver \<Rightarrow> nat \<Rightarrow> call_context \<Rightarrow> insert_plan \<Rightarrow> ('d, int) sqlite_step" where
  "session_Insert drv tx c plan =
     bind_step (session_validate drv tx c) (\<lambda>_. executeInsert (tx_exec drv tx) plan)"

definition session_Update :: "'d sqlite_driver \<Rightarrow> nat \<Rightarrow> call_context \<Rightarrow> update_plan \<Rightarrow> ('d, int) sqlite_step" where
  "session_Update drv tx c plan =
     bind_step (session_validate drv tx c) (\<lambda>_. executeUpdate (tx_exec drv tx) plan)"

definition session_Delete :: "'d sqlite_driver \<Rightarrow> nat \<Rightarrow> call_context \<Rightarrow> delete_plan \<Rightarrow> ('d, int) sqlite_step" where
  "session_Delete drv tx c plan =
     bind_step (session_validate drv tx c) (\<lambda>_. executeDelete (tx_exec drv tx) plan)"

section \<open>Atomic\<close>

text \<open>A callback returns nil or an error, or panics; so does \<open>Atomic\<close>.\<close>

datatype callback_outcome = Returned "go_error option" | Panicked

definition wrapTransactionRollback :: "go_error option \<Rightarrow> go_error option" where
  "wrapTransactionRollback err = map_option (ErrWrap ''rollback SQLite transaction after commit failure: %w'' []) err"

definition forget_done_error :: "go_error option \<Rightarrow> go_error option" where
  "forget_done_error err =
     (case err of None \<Rightarrow> None | Some e \<Rightarrow> if errors_is e SqlErrTxDone then None else Some e)"

text \<open>A rollback whose own error is added to the one that caused it.\<close>

definition rollback_joining :: "'d sqlite_driver \<Rightarrow> nat \<Rightarrow> string \<Rightarrow> go_error \<Rightarrow> 'd sqlite_world
    \<Rightarrow> callback_outcome \<times> 'd sqlite_world" where
  "rollback_joining drv tx format err w =
     (case tx_rollback drv tx w of
        (rollbackErr, w') \<Rightarrow>
          (case forget_done_error rollbackErr of
             Some e \<Rightarrow> (Returned (errors_join [Some err, Some (ErrWrap format [] e)]), w')
           | None \<Rightarrow> (Returned (Some err), w')))"

definition run_callback :: "'d sqlite_driver \<Rightarrow> call_context \<Rightarrow> nat
    \<Rightarrow> (nat \<Rightarrow> 'd sqlite_world \<Rightarrow> callback_outcome \<times> 'd sqlite_world) \<Rightarrow> 'd sqlite_world
    \<Rightarrow> callback_outcome \<times> 'd sqlite_world" where
  "run_callback drv c tx callback w =
     (case callback tx w of
        (Panicked, w1) \<Rightarrow> (Panicked, snd (tx_rollback drv tx (set_done tx w1)))
      | (Returned (Some callbackErr), w1) \<Rightarrow>
          rollback_joining drv tx ''rollback SQLite transaction: %w'' callbackErr (set_done tx w1)
      | (Returned None, w1) \<Rightarrow>
        (case ctx_err drv c (set_done tx w1) of
           (Some contextErr, w2) \<Rightarrow>
             rollback_joining drv tx ''rollback canceled SQLite transaction: %w'' contextErr w2
         | (None, w2) \<Rightarrow>
           (case tx_commit drv tx w2 of
              (None, w3) \<Rightarrow> (Returned None, w3)
            | (Some err, w3) \<Rightarrow>
              (case tx_rollback drv tx w3 of
                 (rollbackErr, w4) \<Rightarrow>
                   (Returned (errors_join [Some (ErrWrap ''commit SQLite transaction: %w'' [] err),
                       wrapTransactionRollback (forget_done_error rollbackErr)]), w4)))))"

definition Atomic :: "'d sqlite_driver \<Rightarrow> call_context
    \<Rightarrow> (nat \<Rightarrow> 'd sqlite_world \<Rightarrow> callback_outcome \<times> 'd sqlite_world) option \<Rightarrow> 'd sqlite_world
    \<Rightarrow> callback_outcome \<times> 'd sqlite_world" where
  "Atomic drv c callback w =
     (case validateWriteContext drv c w of
        (Inl err, w1) \<Rightarrow> (Returned (Some err), w1)
      | (Inr _, w1) \<Rightarrow>
        (case callback of
           None \<Rightarrow> (Returned (Some (query_error CategoryQuery CodeInvalidPlan (plain ''atomic callback is nil''))), w1)
         | Some f \<Rightarrow>
           (case drBeginTx drv (swClock w1) of
              Some err \<Rightarrow> (Returned (Some (ErrWrap ''begin SQLite transaction: %w'' [] err)), tick w1)
            | None \<Rightarrow> (case open_tx (tick w1) of (tx, w2) \<Rightarrow> run_callback drv c tx f w2))))"

section \<open>Reading the migration history\<close>

definition readAppliedMigrationsSQL :: string where
  "readAppliedMigrationsSQL =
     ''SELECT \"godj_migrations\".\"app\", \"godj_migrations\".\"name\" ''
     @ ''FROM \"godj_migrations\" '' @ ''ORDER BY \"godj_migrations\".\"app\", \"godj_migrations\".\"name\"''"

definition migrationRecorderTable :: string where
  "migrationRecorderTable = ''godj_migrations''"

definition record_row :: "cell list \<Rightarrow> (string \<times> string) option" where
  "record_row cells = (case cells of [CellString app, CellString name] \<Rightarrow> Some (app, name) | _ \<Rightarrow> None)"

definition history_records :: "sql_rows \<Rightarrow> go_error + (string \<times> string) list" where
  "history_records rows =
     (let r = (case collect_rows record_row (ErrWrap ''scan SQLite applied migration: %w'' []) (rwRows rows) of
                 Inl err \<Rightarrow> Inl err
               | Inr records \<Rightarrow>
                   (case rwErr rows of
                      Some err \<Rightarrow> Inl (ErrWrap ''iterate SQLite applied migrations: %w'' [] err)
                    | None \<Rightarrow> Inr records)) in
      case rwClose rows of
        None \<Rightarrow> r
      | Some err \<Rightarrow>
          Inl (the (errors_join [(case r of Inl e \<Rightarrow> Some e | Inr _ \<Rightarrow> None),
                                 Some (ErrWrap ''close SQLite applied migration rows: %w'' [] err)])))"

definition ReadAppliedMigrations :: "'d sqlite_driver \<Rightarrow> call_context \<Rightarrow> ('d, (string \<times> string) list) sqlite_step" where
  "ReadAppliedMigrations drv c w =
     (if unusable drv w then (Inl (ErrNew ''read SQLite applied migrations: backend is nil or closed''), w)
      else if c = NilContext then (Inl (ErrNew ''read SQLite applied migrations: context is nil''), w)
      else
      (case ctx_err drv c w of
         (Some err, w1) \<Rightarrow> (Inl (ErrWrap ''read SQLite applied migrations: %w'' [] err), w1)
       | (None, w1) \<Rightarrow>
         (case db_query drv readAppliedMigrationsSQL [] w1 of
            (Inl err, w2) \<Rightarrow>
              (if isSQLiteMissingTableError err migrationRecorderTable then (Inr [], w2)
               else (Inl (ErrWrap ''read SQLite applied migrations: %w'' [] err), w2))
          | (Inr rows, w2) \<Rightarrow> (history_records rows, w2))))"


section \<open>Facts\<close>

lemma count_query_keeps [keeps_intros]: "keeps_durable count_query"
  by (simp add: keeps_durable_def count_query_def)

lemma ctx_err_result:
  "ctx_err drv c w = (e, w') \<Longrightarrow> swDurable w' = swDurable w \<and> swTxs w' = swTxs w \<and> swClosed w' = swClosed w"
  by (auto simp: ctx_err_def tick_def split: if_splits)

lemma session_validate_keeps [keeps_intros]: "keeps_durable (session_validate drv tx c)"
  by (auto simp: keeps_durable_def session_validate_def split: prod.splits option.splits dest: ctx_err_result)

lemma rows_affected_keeps [keeps_intros]: "keeps_durable (rows_affected format r)"
  unfolding rows_affected_def by (intro keeps_intros)

lemma executors_keep [keeps_intros]:
  assumes "\<And>statement arguments. keeps_durable (executor statement arguments)"
  shows "keeps_durable (executeInsert executor ip)" "keeps_durable (executeUpdate executor up)"
    "keeps_durable (executeDelete executor dp)"
  unfolding executeInsert_def executeUpdate_def executeDelete_def
  using assms by (auto split: sum.splits intro!: keeps_intros)

lemma session_keeps_durable:
  "keeps_durable (session_Query drv tx c p)" "keeps_durable (session_Insert drv tx c ip)"
  "keeps_durable (session_Update drv tx c up)" "keeps_durable (session_Delete drv tx c dp)"
  unfolding session_Query_def session_Insert_def session_Update_def session_Delete_def
  by (auto split: sum.splits intro!: keeps_intros)

lemma session_refused:
  assumes "tx_done tx w"
  shows "\<exists>err. session_Query drv tx c p w = (Inl err, w)" "\<exists>err. session_Insert drv tx c ip w = (Inl err, w)"
    "\<exists>err. session_Update drv tx c up w = (Inl err, w)" "\<exists>err. session_Delete drv tx c dp w = (Inl err, w)"
  using assms
  by (simp_all add: session_Query_def session_Insert_def session_Update_def session_Delete_def
      session_validate_def bind_step_def)

lemma validateWriteContext_keeps: "keeps_durable (validateWriteContext drv c)"
  by (auto simp: keeps_durable_def validateWriteContext_def split: prod.splits option.splits dest: ctx_err_result)

lemma set_done_done [simp]: "tx_done tx (set_done tx w)"
  by (simp add: tx_done_def set_done_def split: option.splits)

lemma tx_done_expire [simp]: "tx_done tx (expire drv t w) = tx_done tx w"
  by (simp add: expire_def)

lemma tx_done_durable [simp]: "tx_done tx (w\<lparr>swDurable := d\<rparr>) = tx_done tx w"
  by (simp add: tx_done_def)

lemma tx_rollback_result:
  "tx_rollback drv tx w = (e, w') \<Longrightarrow> swDurable w' = swDurable w \<and> tx_done tx w' = tx_done tx w"
  by (auto simp: tx_rollback_def Let_def split: option.splits)

lemmas tx_rollback_sound = tx_rollback_result[OF surjective_pairing]

lemma rollback_joining_result:
  "rollback_joining drv tx format err w = (out, w') \<Longrightarrow> out \<noteq> Returned None \<and> out \<noteq> Panicked
     \<and> swDurable w' = swDurable w \<and> tx_done tx w' = tx_done tx w"
  by (auto simp: rollback_joining_def errors_join_def map_filter_simps split: prod.splits option.splits
      dest: tx_rollback_result)

lemma tx_commit_result:
  assumes "tx_commit drv tx w = (e, w')"
  shows "tx_done tx w' = tx_done tx w" and "e = None \<Longrightarrow> tx_view tx w = Some (swDurable w')"
    and "swDurable w' = swDurable w \<or> tx_view tx w = Some (swDurable w')"
  using assms
  by (auto simp: tx_commit_def Let_def split: option.splits if_splits dest: expire_view)


section \<open>Atomic is all or nothing\<close>

fun transaction_commit_failed :: "callback_outcome \<Rightarrow> bool" where
  "transaction_commit_failed (Returned (Some (ErrJoin (ErrWrap format _ _ # _)))) \<longleftrightarrow>
     format = ''commit SQLite transaction: %w''"
| "transaction_commit_failed _ \<longleftrightarrow> False"

lemma run_callback_result:
  assumes run: "run_callback drv c tx f w = (out, w')" and f: "f tx w = (r, w1)"
    and keeps: "swDurable w1 = swDurable w"
  shows "tx_done tx w'"
    and "out = Returned None \<Longrightarrow> r = Returned None \<and> tx_view tx w1 = Some (swDurable w')"
    and "swDurable w' = swDurable w \<or>
      (r = Returned None \<and> tx_view tx w1 = Some (swDurable w') \<and> (out = Returned None \<or> transaction_commit_failed out))"
    and "out = Panicked \<longleftrightarrow> r = Panicked"
proof -
  have sd: "swDurable (set_done tx w1) = swDurable w" by (simp add: keeps)
  consider (panic) "r = Panicked" | (err) e where "r = Returned (Some e)" | (nil) "r = Returned None"
    by (metis callback_outcome.exhaust option.exhaust)
  then have "tx_done tx w' \<and> (out = Returned None \<longrightarrow> r = Returned None \<and> tx_view tx w1 = Some (swDurable w')) \<and>
     (swDurable w' = swDurable w \<or>
      (r = Returned None \<and> tx_view tx w1 = Some (swDurable w') \<and> (out = Returned None \<or> transaction_commit_failed out))) \<and>
     (out = Panicked \<longleftrightarrow> r = Panicked)"
  proof cases
    case panic
    then show ?thesis
      using run f sd set_done_done[of tx w1] by (auto simp: run_callback_def tx_rollback_sound)
  next
    case err
    then show ?thesis
      using run f sd by (auto simp: run_callback_def dest!: rollback_joining_result)
  next
    case nil
    obtain ce w2 where ce: "ctx_err drv c (set_done tx w1) = (ce, w2)" by fastforce
    from ctx_err_result[OF ce] have w2: "swDurable w2 = swDurable w" "tx_done tx w2" "tx_view tx w2 = tx_view tx w1"
      using sd set_done_done[of tx w1] by (auto simp: tx_done_def tx_view_def set_done_def split: option.splits)
    show ?thesis
    proof (cases ce)
      case (Some contextErr)
      then show ?thesis
        using run f nil ce w2 by (auto simp: run_callback_def dest!: rollback_joining_result)
    next
      case None
      obtain e w3 where e: "tx_commit drv tx w2 = (e, w3)" by fastforce
      obtain e' w4 where e': "tx_rollback drv tx w3 = (e', w4)" by fastforce
      note w3 = tx_commit_result[OF e] and w4 = tx_rollback_result[OF e']
      show ?thesis
      proof (cases e)
        case None
        then have "out = Returned None" "w' = w3" using run f nil ce \<open>ce = None\<close> e by (simp_all add: run_callback_def)
        with nil w3 None w2 show ?thesis by simp
      next
        case (Some err)
        then have "transaction_commit_failed out" "\<exists>err. out = Returned (Some err)" "w' = w4"
          using run f nil ce \<open>ce = None\<close> e e'
          by (auto simp: run_callback_def errors_join_def map_filter_simps split: option.splits)
        with nil w3 w4 w2 show ?thesis by auto
      qed
    qed
  qed
  then show "tx_done tx w'" and "out = Returned None \<Longrightarrow> r = Returned None \<and> tx_view tx w1 = Some (swDurable w')"
    and "swDurable w' = swDurable w \<or>
      (r = Returned None \<and> tx_view tx w1 = Some (swDurable w') \<and> (out = Returned None \<or> transaction_commit_failed out))"
    and "out = Panicked \<longleftrightarrow> r = Panicked" by simp_all
qed

text \<open>
  C22: \<open>Atomic\<close> is all or nothing for a callback that works through its session. Either the callback never
  ran and the durable database is as before; or it ran on a fresh transaction that saw the durable
  database, and what it left in the transaction is durable if \<open>Atomic\<close> returns nil, nothing
  of it is after an error or a panic, unless the error is the engine's own commit error. A panic stays
  a panic, and afterwards the session refuses every call without touching anything.
\<close>
theorem Atomic_all_or_nothing:
  assumes "\<And>tx v. swDurable (snd (f tx v)) = swDurable v"
  shows "case Atomic drv c (Some f) w of (out, w') \<Rightarrow>
     (\<exists>err. out = Returned (Some err)) \<and> swDurable w' = swDurable w \<and> swTxs w' = swTxs w
   \<or> (\<exists>tx w0 r w1. tx_view tx w0 = Some (swDurable w) \<and> \<not> tx_done tx w0 \<and> f tx w0 = (r, w1)
       \<and> (out = Returned None \<longrightarrow> r = Returned None \<and> tx_view tx w1 = Some (swDurable w'))
       \<and> (swDurable w' = swDurable w \<or>
           (r = Returned None \<and> tx_view tx w1 = Some (swDurable w')
              \<and> (out = Returned None \<or> transaction_commit_failed out)))
       \<and> (out = Panicked \<longleftrightarrow> r = Panicked)
       \<and> (\<forall>c p. \<exists>err. session_Query drv tx c p w' = (Inl err, w'))
       \<and> (\<forall>c p. \<exists>err. session_Insert drv tx c p w' = (Inl err, w'))
       \<and> (\<forall>c p. \<exists>err. session_Update drv tx c p w' = (Inl err, w'))
       \<and> (\<forall>c p. \<exists>err. session_Delete drv tx c p w' = (Inl err, w')))"
proof -
  obtain out w' where run: "Atomic drv c (Some f) w = (out, w')" by fastforce
  obtain v w1 where v: "validateWriteContext drv c w = (v, w1)" by fastforce
  from v have w1: "swDurable w1 = swDurable w" "swTxs w1 = swTxs w"
    by (auto simp: validateWriteContext_def split: if_splits prod.splits option.splits dest: ctx_err_result)
  show ?thesis
  proof (cases "(\<exists>e. v = Inl e) \<or> drBeginTx drv (swClock w1) \<noteq> None")
    case True
    then show ?thesis using run v w1 by (auto simp: Atomic_def split: sum.splits)
  next
    case False
    then obtain tx w2 where tx: "open_tx (tick w1) = (tx, w2)" and rc: "run_callback drv c tx f w2 = (out, w')"
      using run v by (auto simp: Atomic_def open_tx_def split: sum.splits)
    from tx w1 have w2: "tx_view tx w2 = Some (swDurable w)" "\<not> tx_done tx w2" "swDurable w2 = swDurable w"
      by (auto simp: open_tx_def tx_view_def tx_done_def)
    obtain r w3 where f: "f tx w2 = (r, w3)" by fastforce
    from assms[of tx w2] f have k: "swDurable w3 = swDurable w2" by simp
    note res = run_callback_result[where f = f, OF rc f k]
    show ?thesis unfolding run prod.case
      by (intro disjI2 exI[of _ tx] exI[of _ w2] exI[of _ r] exI[of _ w3] conjI allI w2(1,2) f res(2) impI
          session_refused[OF res(1)] res(4) res(3)[unfolded w2(3)]) (use res(2) in blast)+
  qed
qed


text \<open>A callback that inserts a row with its default values and returns the outcome.\<close>

definition insert_callback :: "'d sqlite_driver \<Rightarrow> nat \<Rightarrow> 'd sqlite_world \<Rightarrow> callback_outcome \<times> 'd sqlite_world" where
  "insert_callback drv tx w =
     (case session_Insert drv tx CallerContext \<lparr>ipTable = ''article'', ipAssignments = []\<rparr> w of
        (Inl err, w') \<Rightarrow> (Returned (Some err), w')
      | (Inr _, w') \<Rightarrow> (Returned None, w'))"

lemma insert_callback_keeps: "swDurable (snd (insert_callback drv tx v)) = swDurable v"
  using session_keeps_durable(2)[of drv tx CallerContext "\<lparr>ipTable = ''article'', ipAssignments = []\<rparr>"]
  by (auto simp: insert_callback_def keeps_durable_def split: prod.splits sum.splits) (metis snd_conv)+

theorem Atomic_all_or_nothing_witness:
  "case Atomic (log_driver None) CallerContext (Some (insert_callback (log_driver None))) empty_world of (out, w') \<Rightarrow>
     (\<exists>err. out = Returned (Some err)) \<and> swDurable w' = swDurable empty_world \<and> swTxs w' = swTxs empty_world
   \<or> (\<exists>tx w0 r w1. tx_view tx w0 = Some (swDurable empty_world) \<and> \<not> tx_done tx w0
       \<and> insert_callback (log_driver None) tx w0 = (r, w1)
       \<and> (out = Returned None \<longrightarrow> r = Returned None \<and> tx_view tx w1 = Some (swDurable w'))
       \<and> (swDurable w' = swDurable empty_world \<or>
           (r = Returned None \<and> tx_view tx w1 = Some (swDurable w')
              \<and> (out = Returned None \<or> transaction_commit_failed out)))
       \<and> (out = Panicked \<longleftrightarrow> r = Panicked)
       \<and> (\<forall>c p. \<exists>err. session_Query (log_driver None) tx c p w' = (Inl err, w'))
       \<and> (\<forall>c p. \<exists>err. session_Insert (log_driver None) tx c p w' = (Inl err, w'))
       \<and> (\<forall>c p. \<exists>err. session_Update (log_driver None) tx c p w' = (Inl err, w'))
       \<and> (\<forall>c p. \<exists>err. session_Delete (log_driver None) tx c p w' = (Inl err, w')))"
  by (rule Atomic_all_or_nothing) (rule insert_callback_keeps)

section \<open>The history reader\<close>

lemma collect_rows_Inr_iff:
  "collect_rows shape wrap rs = Inr xs \<longleftrightarrow>
     list_all2 (\<lambda>r x. \<exists>cells. r = Inr cells \<and> shape cells = Some x) rs xs"
proof (induction rs arbitrary: xs)
  case (Cons r rs)
  show ?case
    by (cases r; cases xs) (auto simp: scan_row_def Cons.IH[symmetric] split: option.splits sum.splits)
qed auto

lemma record_row_Some [simp]: "record_row cells = Some (app, name) \<longleftrightarrow> cells = [CellString app, CellString name]"
  by (auto simp: record_row_def split: list.splits cell.splits)

lemma history_records_Inr:
  "history_records rows = Inr records \<longleftrightarrow>
     rwRows rows = map (\<lambda>(app, name). Inr [CellString app, CellString name]) records
     \<and> rwErr rows = None \<and> rwClose rows = None"
proof -
  have c: "collect_rows record_row wrap rs = Inr records \<longleftrightarrow>
      rs = map (\<lambda>(app, name). Inr [CellString app, CellString name]) records" for wrap rs
    unfolding collect_rows_Inr_iff
  proof (induction rs arbitrary: records)
    case (Cons r rs)
    then show ?case by (cases records) auto
  qed auto
  show ?thesis
  proof (cases "collect_rows record_row (ErrWrap ''scan SQLite applied migration: %w'' []) (rwRows rows)")
    case (Inl e)
    with c[of "ErrWrap ''scan SQLite applied migration: %w'' []" "rwRows rows"] show ?thesis
      by (simp add: history_records_def Let_def split: option.split)
  next
    case (Inr rs)
    with c[of "ErrWrap ''scan SQLite applied migration: %w'' []" "rwRows rows"] show ?thesis
      by (cases "rwErr rows"; cases "rwClose rows") (simp_all add: history_records_def Let_def)
  qed
qed

text \<open>
  reading the applied migrations never writes, opens no transaction, and never returns part
  of a history: a success is either the empty history of a database without the recorder table,
  or every row of the result, in order, with the iteration and the close both clean.
\<close>
theorem ReadAppliedMigrations_complete:
  "case ReadAppliedMigrations drv c w of (r, w') \<Rightarrow>
     swDurable w' = swDurable w \<and> swTxs w' = swTxs w
     \<and> (case r of Inl _ \<Rightarrow> True | Inr records \<Rightarrow>
          \<exists>n. case drQuery drv n readAppliedMigrationsSQL [] (swDurable w) of
            Inl err \<Rightarrow> records = [] \<and> isSQLiteMissingTableError err ''godj_migrations''
          | Inr rows \<Rightarrow> rwRows rows = map (\<lambda>(app, name). Inr [CellString app, CellString name]) records
              \<and> rwErr rows = None \<and> rwClose rows = None)"
proof -
  obtain ce w1 where ce: "ctx_err drv c w = (ce, w1)" by fastforce
  from ctx_err_result[OF ce] have w1: "swDurable w1 = swDurable w" "swTxs w1 = swTxs w" by simp_all
  show ?thesis
    using ce w1
    by (auto simp: ReadAppliedMigrations_def db_query_def history_records_Inr migrationRecorderTable_def
        split: option.splits sum.splits prod.splits if_splits intro!: exI[of _ "swClock w1"])
qed


section \<open>Writes and Close\<close>

text \<open>
  an insert outside a transaction runs at most one statement on the durable database. Success means
  that the engine ran the compiled insert, affected exactly one row and gave the returned id; an
  error after the statement ran is the classified engine error, or a result that is not one row
  with an id.
\<close>
theorem Backend_Insert_outcomes:
  "case Backend_Insert drv c plan w of
     (Inr lastInsertID, w') \<Rightarrow>
       (\<exists>n statement arguments result. CompileInsert plan = Inr (statement, arguments)
          \<and> drExec drv n statement arguments (swDurable w) = (Inr result, swDurable w')
          \<and> erRowsAffected result = Inr 1 \<and> erLastInsertId result = Inr lastInsertID)
   | (Inl err, w') \<Rightarrow>
       swDurable w' = swDurable w \<and> (unusable drv w \<or> c = NilContext \<or> (\<exists>n. drCtxErr drv n = Some err) \<or> CompileInsert plan = Inl err)
       \<or> (\<exists>n statement arguments r. CompileInsert plan = Inr (statement, arguments)
            \<and> drExec drv n statement arguments (swDurable w) = (r, swDurable w')
            \<and> (case r of Inl e \<Rightarrow> err = classifyInsertError e
                | Inr result \<Rightarrow> \<not> (erRowsAffected result = Inr 1 \<and> (\<exists>n. erLastInsertId result = Inr n))))"
proof -
  obtain v w1 where v: "validateWriteContext drv c w = (v, w1)" by fastforce
  show ?thesis
  proof (cases v)
    case (Inl err)
    with v have "swDurable w1 = swDurable w" "unusable drv w \<or> c = NilContext \<or> (\<exists>n. drCtxErr drv n = Some err)"
      by (auto simp: validateWriteContext_def ctx_err_def split: if_splits prod.splits option.splits)
    with v Inl show ?thesis by (auto simp: Backend_Insert_def bind_step_def)
  next
    case (Inr u)
    with v have w1: "swDurable w1 = swDurable w"
      by (auto simp: validateWriteContext_def split: if_splits prod.splits option.splits dest: ctx_err_result)
    have run: "Backend_Insert drv c plan w = executeInsert (db_exec drv) plan w1"
      using v Inr by (simp add: Backend_Insert_def bind_step_def)
    show ?thesis
    proof (cases "CompileInsert plan")
      case (Inl err)
      with run w1 show ?thesis by (simp add: executeInsert_def fail_step_def)
    next
      case compiled: (Inr sa)
      obtain statement arguments where sa: "sa = (statement, arguments)" by fastforce
      obtain r d' where e: "drExec drv (swClock w1) statement arguments (swDurable w) = (r, d')" by fastforce
      show ?thesis
        using compiled e
        by (cases r; cases "erRowsAffected (projr r)"; cases "erLastInsertId (projr r)")
          (auto simp: run sa w1 executeInsert_def bind_step_def wrap_step_def db_exec_def fail_step_def return_step_def
            intro!: exI[of _ "swClock w1"])
    qed
  qed
qed

text \<open>
  after \<open>Close\<close>, whatever it returned, a second \<open>Close\<close> is a success without effect and every entry
  point of the backend fails without touching the database, the clock or a transaction.
\<close>
theorem Backend_Close_refuses_everything:
  "case Backend_Close drv w of (_, w1) \<Rightarrow>
     swDurable w1 = swDurable w
     \<and> Backend_Close drv w1 = (None, w1)
     \<and> (\<exists>err. Backend_Query drv c p w1 = (Inl err, w1)) \<and> (\<exists>err. Backend_Insert drv c ip w1 = (Inl err, w1))
     \<and> (\<exists>err. Backend_Update drv c up w1 = (Inl err, w1)) \<and> (\<exists>err. Backend_Delete drv c dp w1 = (Inl err, w1))
     \<and> (\<exists>err. Backend_ExecContext drv c statement arguments w1 = (Inl err, w1))
     \<and> (\<exists>err. SQLiteVersion drv c w1 = (Inl err, w1)) \<and> (\<exists>err. Atomic drv c f w1 = (Returned (Some err), w1))
     \<and> (\<exists>err. BeginMigration drv c w1 = (Inl err, w1)) \<and> (\<exists>err. ReadAppliedMigrations drv c w1 = (Inl err, w1))"
proof -
  obtain e w1 where close: "Backend_Close drv w = (e, w1)" by fastforce
  then have u: "unusable drv w1" and d: "swDurable w1 = swDurable w"
    by (auto simp: Backend_Close_def connection_close_def unusable_def tick_def split: if_splits)
  from u have "Backend_Close drv w1 = (None, w1)" by (auto simp: Backend_Close_def unusable_def)
  with u d show ?thesis
    by (simp add: close Backend_Query_def Backend_Insert_def Backend_Update_def Backend_Delete_def bind_step_def
        validateWriteContext_def Backend_ExecContext_def SQLiteVersion_def Atomic_def BeginMigration_def
        ReadAppliedMigrations_def)
qed

end
