(* ===== verification/Plan_Execution.thy ===== *)
theory Plan_Execution
  imports Sqlite_Session
begin

text \<open>
  The components together: the plans the planner makes are plans \<open>ExecutePlan\<close> accepts, the
  schema edits of a migration keep the database schema in step with the project state, and
  unapplying a migration undoes applying it.
\<close>

section \<open>Plans of one target have one direction and no key twice\<close>

lemma drainForward_nodes:
  "drainForward g C A = Inr (steps, A') \<Longrightarrow>
     psKey ` set steps \<subseteq> set (gNodes g) \<and> (\<forall>s \<in> set steps. psDirection s = DirectionForward)"
proof (induction g C A arbitrary: steps A' rule: drainForward.induct)
  case (1 g C A)
  show ?case
  proof (cases "C = []")
    case True
    with "1.prems" show ?thesis by (simp add: drainForward.simps)
  next
    case False
    with "1.prems" obtain key rest where key: "firstForwardReady g C A = Some key"
      and rest: "drainForward g (removeAll key C) (List.insert key A) = Inr (rest, A')"
      and steps: "steps = \<lparr>psKey = key, psDirection = DirectionForward\<rparr> # rest"
      by (subst (asm) drainForward.simps) (auto split: option.splits sum.splits)
    from key have "key \<in> set (gNodes g)" by (auto simp: firstForwardReady_def dest: find_Some_key)
    with "1.IH"[OF False key rest] show ?thesis by (simp add: steps)
  qed
qed

lemma drainBackward_nodes:
  "drainBackward g C A = Inr (steps, A') \<Longrightarrow>
     psKey ` set steps \<subseteq> set (gNodes g) \<and> (\<forall>s \<in> set steps. psDirection s = DirectionBackward)"
proof (induction g C A arbitrary: steps A' rule: drainBackward.induct)
  case (1 g C A)
  show ?case
  proof (cases "C = []")
    case True
    with "1.prems" show ?thesis by (simp add: drainBackward.simps)
  next
    case False
    with "1.prems" obtain key rest where key: "firstBackwardReady g C = Some key"
      and rest: "drainBackward g (removeAll key C) (removeAll key A) = Inr (rest, A')"
      and steps: "steps = \<lparr>psKey = key, psDirection = DirectionBackward\<rparr> # rest"
      by (subst (asm) drainBackward.simps) (auto split: option.splits sum.splits)
    from key have "key \<in> set (gNodes g)" by (auto simp: firstBackwardReady_def dest: find_Some_key)
    with "1.IH"[OF False key rest] show ?thesis by (simp add: steps)
  qed
qed

lemma planBackwardAll_nodes:
  "planBackwardAll g seeds A = Inr (steps, A') \<Longrightarrow>
     psKey ` set steps \<subseteq> set (gNodes g) \<and> (\<forall>s \<in> set steps. psDirection s = DirectionBackward)"
proof (induction seeds arbitrary: A steps)
  case (Cons seed seeds)
  then obtain s1 A1 s2 where s1: "planBackward g seed A = Inr (s1, A1)"
    and s2: "planBackwardAll g seeds A1 = Inr (s2, A')" and steps: "steps = s1 @ s2"
    by (auto split: sum.splits)
  from s1 drainBackward_nodes have "psKey ` set s1 \<subseteq> set (gNodes g) \<and> (\<forall>s \<in> set s1. psDirection s = DirectionBackward)"
    unfolding planBackward_def by blast
  with Cons.IH[OF s2] show ?case by (auto simp: steps)
qed simp

lemma planTarget_nodes:
  assumes "planTarget g t A = Inr (steps, A')"
  shows "psKey ` set steps \<subseteq> set (gNodes g)
    \<and> ((\<forall>s \<in> set steps. psDirection s = DirectionForward) \<or> (\<forall>s \<in> set steps. psDirection s = DirectionBackward))"
  using assms
  by (auto simp: planTarget_def planForward_def split: target_kind.splits if_splits
      dest!: drainForward_nodes planBackwardAll_nodes)

lemma exec_steps_forward_distinct:
  "exec_steps g A steps = Some A' \<Longrightarrow> \<forall>s \<in> set steps. psDirection s = DirectionForward \<Longrightarrow>
     distinct (map psKey steps) \<and> psKey ` set steps \<inter> A = {}"
proof (induction steps arbitrary: A)
  case (Cons s steps)
  from Cons.prems have s: "psKey s \<notin> A" "exec_steps g (insert (psKey s) A) steps = Some A'"
    by (auto simp: exec_step_def split: if_splits)
  from Cons.IH[OF s(2)] Cons.prems(2) s(1) show ?case by auto
qed simp

lemma exec_steps_backward_distinct:
  "exec_steps g A steps = Some A' \<Longrightarrow> \<forall>s \<in> set steps. psDirection s = DirectionBackward \<Longrightarrow>
     distinct (map psKey steps) \<and> psKey ` set steps \<subseteq> A"
proof (induction steps arbitrary: A)
  case (Cons s steps)
  from Cons.prems have s: "psKey s \<in> A" "exec_steps g (A - {psKey s}) steps = Some A'"
    by (auto simp: exec_step_def split: if_splits)
  from Cons.IH[OF s(2)] Cons.prems(2) s(1) show ?case by auto
qed simp

section \<open>They pass the checks of plan execution\<close>

lemma index_definitions_ok:
  assumes "\<forall>m \<in> set ms. validMigrationKey (migration_Key m)" and "distinct (map migration_Key ms)"
    and "\<forall>m \<in> set ms. map_of byKey (migration_Key m) = None"
  shows "\<exists>byKey'. index_definitions index byKey ms = Inr byKey'
    \<and> (\<forall>k. map_of byKey' k = (case map_of byKey k of Some m \<Rightarrow> Some m | None \<Rightarrow> find (\<lambda>m. migration_Key m = k) ms))"
  using assms
proof (induction ms arbitrary: index byKey)
  case (Cons m ms)
  have "\<forall>x \<in> set ms. map_of (map_set (migration_Key m) m byKey) (migration_Key x) = None"
    using Cons.prems by (auto simp: image_iff)
  then obtain byKey' where i: "index_definitions (Suc index) (map_set (migration_Key m) m byKey) ms = Inr byKey'"
    and l: "map_of byKey' k = (case map_of (map_set (migration_Key m) m byKey) k of Some m \<Rightarrow> Some m
         | None \<Rightarrow> find (\<lambda>m. migration_Key m = k) ms)" for k
    using Cons.IH[of "map_set (migration_Key m) m byKey" "Suc index"] Cons.prems by auto
  have none: "map_of byKey (migration_Key m) = None" using Cons.prems by simp
  have "map_of byKey' k = (case map_of byKey k of Some m \<Rightarrow> Some m | None \<Rightarrow> find (\<lambda>m. migration_Key m = k) (m # ms))" for k
    unfolding l by (cases "k = migration_Key m") (use none in \<open>auto split: option.split\<close>)
  with i Cons.prems show ?case by (intro exI[of _ byKey']) (simp add: Let_def)
qed (simp split: option.split)

lemma check_plan_ok:
  assumes "\<forall>s \<in> set steps. validMigrationKey (psKey s) \<and> map_of byKey (psKey s) \<noteq> None \<and> psDirection s = d"
    and "d = DirectionForward \<or> d = DirectionBackward"
    and "distinct (map psKey steps)" and "psKey ` set steps \<inter> set seen = {}" and "dir = None \<or> dir = Some d"
  shows "check_plan byKey index seen dir steps = None"
  using assms
proof (induction steps arbitrary: index seen dir)
  case (Cons s steps)
  have "check_plan byKey (Suc index) (psKey s # seen) (Some d) steps = None"
    by (rule Cons.IH) (use Cons.prems in auto)
  with Cons.prems show ?case by (auto split: option.splits)
qed simp

text \<open>
  C16: the planner and the executor fit together. The plan of one target, made from any history that
  the planner accepts, never fails the shape checks of \<open>ExecutePlan\<close> against the same definitions: no
  unknown or repeated migration, no mixed directions. Plan preflight then goes straight
  to replaying the state transitions of the definitions its steps name.
\<close>
theorem Plan_passes_preflight_checks:
  assumes "NewPlanner ms = Inr p" and "Plan p a [t] = Inr steps"
  shows "\<exists>byKey. (\<forall>k. map_of byKey k = find (\<lambda>m. migration_Key m = k) (cloneMigrationDefinitions ms))
     \<and> (\<forall>s \<in> set steps. map_of byKey (psKey s) \<noteq> None)
     \<and> preflightPlan uc ctxErr before (cloneMigrationDefinitions ms) steps w
         = prepare_steps uc ctxErr byKey (State_Clone before) steps w"
proof -
  let ?g = "planner_graph_of p"
  let ?ms = "cloneMigrationDefinitions ms"
  from assms(1) have def: "graph_definable ms" and g: "?g = built_graph ms"
    by (auto simp: NewPlanner_def planner_graph_of_def newPlannerGraph_Inr_iff split: sum.splits)
  have keys: "map migration_Key ?ms = map migration_Key ms"
    by (simp add: cloneMigrationDefinitions_def)
  have valid: "\<forall>m \<in> set ?ms. validMigrationKey (migration_Key m)" and dist: "distinct (map migration_Key ?ms)"
    using def unfolding keys by (auto simp: graph_definable_def edges_definable_def cloneMigrationDefinitions_def)
  from index_definitions_ok[OF valid dist, of "[]" 0] obtain byKey where
    index: "index_definitions 0 [] ?ms = Inr byKey"
    and look: "map_of byKey k = find (\<lambda>m. migration_Key m = k) ?ms" for k by auto
  have nodes: "set (gNodes ?g) = migration_Key ` set ?ms"
    using built_graph_facts(1)[of ms] def keys by (simp add: g graph_definable_def flip: set_map)
  obtain A A' where plan: "planTarget ?g t A = Inr (steps, A')"
    and exec: "exec_steps ?g (set A) steps = Some (foldl (target_effect ?g) (applied_set a) [t])"
  proof -
    from assms(2) obtain A' where "planTarget ?g t (cloneAppliedKeys (asKeys a)) = Inr (steps, A')"
      by (auto simp: Plan_def Let_def split: option.splits sum.splits)
    then show ?thesis
      using that Plan_cases[OF NewPlanner_wf[OF assms(1)], where a = a and ts = "[t]"] assms(2) by (simp add: applied_set_def)
  qed
  from planTarget_nodes[OF plan] obtain d where in_g: "psKey ` set steps \<subseteq> set (gNodes ?g)"
    and d: "d = DirectionForward \<or> d = DirectionBackward" "\<forall>s \<in> set steps. psDirection s = d" by blast
  have "distinct (map psKey steps)"
    using d exec exec_steps_forward_distinct exec_steps_backward_distinct by blast
  moreover have ok: "\<forall>s \<in> set steps. validMigrationKey (psKey s) \<and> map_of byKey (psKey s) \<noteq> None"
  proof
    fix s assume "s \<in> set steps"
    then have "psKey s \<in> migration_Key ` set ?ms" using in_g nodes by blast
    then show "validMigrationKey (psKey s) \<and> map_of byKey (psKey s) \<noteq> None"
      using valid unfolding look find_None_iff by force
  qed
  ultimately have "check_plan byKey 0 [] None steps = None"
    by (intro check_plan_ok[OF _ d(1)]) (use d(2) in auto)
  then show ?thesis using look ok index by (intro exI[of _ byKey]) (simp add: preflightPlan_def)
qed

theorem Plan_passes_preflight_checks_witness:
  "\<exists>byKey. (\<forall>k. map_of byKey k = find (\<lambda>m. migration_Key m = k) (cloneMigrationDefinitions sample_migrations))
     \<and> (\<forall>s \<in> set sample_plan. map_of byKey (psKey s) \<noteq> None)
     \<and> preflightPlan ascii_tables (ctx_err (log_driver None) CallerContext) EmptyProjectState
          (cloneMigrationDefinitions sample_migrations) sample_plan empty_world
         = prepare_steps ascii_tables (ctx_err (log_driver None) CallerContext) byKey (State_Clone EmptyProjectState)
             sample_plan empty_world"
  by (rule Plan_passes_preflight_checks[OF sample_NewPlanner sample_Plan])


section \<open>The schema edits follow the state\<close>

lemma preflight_edits:
  assumes map: "state_map before" and pre: "preflight uc before m dir = Inr (ps, after)"
    and auto: "dir \<noteq> DirectionForward \<Longrightarrow> \<forall>p \<in> set ps. \<not> removes_auto (poOp p)"
  shows "(\<forall>p \<in> set ps. \<exists>e. database_edit dir p = Inr e)
    \<and> edits_apply (migApp m) (planned_edits dir ps) (models_of before) = Some (models_of after)"
proof -
  from preflight_Inr[OF map pre] obtain t where wf: "state_wf uc before" and after: "after = State_Clone t"
    and loop: "preflight_loop uc m dir (operationIndices (length (migOperations m)) dir) (State_Clone before) = Inr (ps, t)"
    and chain: "prepared_chain uc dir (State_Clone before) ps t" .
  from preflight_loop_Inr[OF loop] have apps: "\<forall>p \<in> set ps. App (poOp p) = migApp m" by simp
  have wfc: "state_wf uc (State_Clone before)" using wf by simp
  then have "state_map t" using prepared_chain_wf[OF chain] state_wf_map by blast
  then show ?thesis using chain_edits[OF chain wfc apps auto] map by (simp add: after)
qed

lemma chain_not_auto:
  "prepared_chain uc DirectionForward s ps t \<Longrightarrow> state_wf uc s \<Longrightarrow> \<forall>p \<in> set ps. \<not> removes_auto (poOp p)"
proof (induction ps arbitrary: s)
  case (Cons p ps)
  then obtain u where u: "stateForward uc (poOp p) (State_Clone s) = Inr u" "prepared_chain uc DirectionForward u ps t"
    by (auto simp: state_transition_def)
  have wf: "state_wf uc (State_Clone s)" using Cons.prems(2) by simp
  from Cons.IH[OF u(2) stateForward_wf[OF wf u(1)]] stateForward_not_auto[OF wf u(1)] show ?case by simp
qed simp

lemma preflight_operations:
  assumes "state_map before" "preflight uc before m dir = Inr (ps, after)"
  shows "map (\<lambda>p. Some (poOp p)) ps
    = map (\<lambda>i. operation_builtin (migOperations m ! i)) (operationIndices (length (migOperations m)) dir)"
  using preflight_Inr[OF assms] preflight_loop_Inr by metis

lemma operations_reversed:
  assumes "map (\<lambda>p. Some (poOp p)) ps = map f [0..<n]" "map (\<lambda>p. Some (poOp p)) qs = map f (rev [0..<n])"
  shows "map poOp qs = rev (map poOp ps)"
proof -
  have "map Some (map poOp qs) = map Some (rev (map poOp ps))"
    using arg_cong[OF assms(1), of rev] assms(2) by (simp add: rev_map comp_def)
  then show ?thesis by (simp only: inj_map_eq_map[OF inj_Some])
qed

text \<open>
  C17: applying a migration keeps the schema in step with the state: every prepared operation has a
  schema edit, each edit is applicable where it runs (it creates what is missing, changes what is
  there as it is there), and the edits take the models of the state before to the models of the
  state after.
\<close>
theorem preflight_edits_follow_state:
  assumes "state_map before" and "preflight uc before m DirectionForward = Inr (ps, after)"
  shows "(\<forall>p \<in> set ps. \<exists>e. database_edit DirectionForward p = Inr e)
    \<and> edits_apply (migApp m) (planned_edits DirectionForward ps) (models_of before) = Some (models_of after)"
  using preflight_edits[OF assms] by simp

text \<open>
  C18: a migration that can be applied can be unapplied: preflight of the reverse direction succeeds on the
  state after and restores the state before, its operations are those of the way there in reverse,
  and its schema edits take the models back. The state and the schema both make the round trip.
\<close>
theorem unapply_undoes_apply:
  assumes "state_map before" and "preflight uc before m DirectionForward = Inr (ps, after)"
  shows "\<exists>qs. preflight uc after m DirectionBackward = Inr (qs, State_Clone before)
    \<and> map poOp qs = rev (map poOp ps)
    \<and> edits_apply (migApp m) (planned_edits DirectionBackward qs) (models_of after) = Some (models_of before)"
proof -
  from preflight_reverse[OF assms] obtain qs where
    qs: "preflight uc after m DirectionBackward = Inr (qs, State_Clone before)" by blast
  from preflight_Inr[OF assms] obtain t where wf: "state_wf uc before"
    and chain: "prepared_chain uc DirectionForward (State_Clone before) ps t" .
  have am: "state_map after" by (rule preflight_after_map[OF assms])
  have ops: "map poOp qs = rev (map poOp ps)"
    using preflight_operations[OF assms] preflight_operations[OF am qs]
    by (intro operations_reversed[where f = "\<lambda>i. operation_builtin (migOperations m ! i)" and n = "length (migOperations m)"])
      (simp_all add: operationIndices_backward operationIndices_def[of _ DirectionForward])
  have "\<forall>p \<in> set ps. \<not> removes_auto (poOp p)" by (rule chain_not_auto[OF chain]) (simp add: wf)
  then have "\<forall>op \<in> set (map poOp ps). \<not> removes_auto op" by simp
  then have "\<forall>op \<in> set (map poOp qs). \<not> removes_auto op" unfolding ops by simp
  then have "\<forall>q \<in> set qs. \<not> removes_auto (poOp q)" by simp
  with preflight_edits[OF am qs] assms(1) ops qs show ?thesis by auto
qed

lemma execute_state:
  "execute uc ctx be before m dir w = ((s, r), w') \<Longrightarrow>
     s = State_Clone before \<or> (\<exists>ps after. preflight uc before m dir = Inr (ps, after) \<and> s = State_Clone after)"
  by (auto simp: execute_def run_transaction_def Let_def split: option.splits prod.splits sum.splits)

text \<open>
  C19: whatever the context and the backend do, the executor returns a valid project state when it was
  given one: the supported version, one schema per app under its own label, every schema
  normalized.
\<close>
theorem execute_keeps_valid_state:
  assumes "state_wf uc before" and "execute uc ctx be before m dir w = ((s, r), w')"
  shows "state_wf uc s"
proof -
  have map: "state_map before" by (rule state_wf_map[OF assms(1)])
  from execute_state[OF assms(2)] show ?thesis
  proof (elim disjE exE conjE)
    fix ps after
    assume pre: "preflight uc before m dir = Inr (ps, after)" and s: "s = State_Clone after"
    from preflight_Inr[OF map pre] obtain t where "after = State_Clone t"
      "prepared_chain uc dir (State_Clone before) ps t" .
    then show ?thesis using prepared_chain_wf assms(1) s by (metis state_wf_Clone)
  qed (use assms(1) in simp)
qed


section \<open>A migration that creates a model\<close>

definition create_post :: migration where
  "create_post = \<lparr>migApp = ''blog'', migName = ''0001'', migDependencies = [],
     migOperations = [PointerOperation (CreateModel ''blog'' (sModels sample_schema ! 0))]\<rparr>"

definition post_state :: project_state where
  "post_state = \<lparr>stFormatVersion = StateFormatVersion, stApps = [(''blog'', schema_nf sample_schema)]\<rparr>"

definition post_model :: ir_model where
  "post_model = sModels (schema_nf sample_schema) ! 0"

lemma sample_schema_model: "sample_schema = \<lparr>sFormatVersion = 0, sAppLabel = ''blog'', sModels = [sModels sample_schema ! 0]\<rparr>"
  by (simp add: sample_schema_def)

lemma sample_nf: "schema_nf sample_schema = \<lparr>sFormatVersion = FormatVersion, sAppLabel = ''blog'', sModels = [post_model]\<rparr>"
  by (subst sample_schema_model) (simp add: post_model_def schema_nf_def sample_schema_def FormatVersion_def)

lemma createModel_post:
  "createModel_forward ascii_tables ''blog'' (sModels sample_schema ! 0) EmptyProjectState = Inr post_state"
proof -
  have wf: "wf_schema ascii_tables (schema_nf sample_schema)" using sample_Normalize by (simp add: Normalize_Inr_iff)
  have pm: "post_model = model_nf ''blog'' (sModels sample_schema ! 0)"
    by (simp add: post_model_def schema_nf_def sample_schema_def)
  have single: "normalizedSingleModel ascii_tables ''blog'' (sModels sample_schema ! 0) = Inr post_model"
    using wf unfolding sample_nf by (simp add: normalizedSingleModel_Inr_iff pm wf_schema_def)
  have "Normalize ascii_tables \<lparr>sFormatVersion = FormatVersion, sAppLabel = ''blog'', sModels = [post_model]\<rparr> =
      Inr \<lparr>sFormatVersion = FormatVersion, sAppLabel = ''blog'', sModels = [post_model]\<rparr>"
    using wf unfolding sample_nf[symmetric] by (simp add: Normalize_eq_self)
  with single show ?thesis
    by (simp add: createModel_forward_def State_Model_eq EmptyProjectState_def zeroSchema_for_def withSchema_def
        State_Clone_def State_FormatVersion_def StateFormatVersion_def post_state_def sample_nf)
qed

lemma preflight_post:
  "preflight ascii_tables EmptyProjectState create_post DirectionForward =
     Inr ([\<lparr>poIndex = 0, poOp = CreateModel ''blog'' (sModels sample_schema ! 0), poFrom = EmptyProjectState,
            poTo = post_state\<rparr>], post_state)"
  using createModel_post
  by (simp add: preflight_def create_post_def operationIndices_def State_validate_def State_FormatVersion_def
      EmptyProjectState_def StateFormatVersion_def State_Clone_def post_state_def state_transition_def)

lemma empty_state_wf: "state_map EmptyProjectState" "state_wf uc EmptyProjectState"
  by (simp_all add: state_map_def state_wf_def EmptyProjectState_def State_FormatVersion_def StateFormatVersion_def)

theorem preflight_edits_follow_state_witness:
  "edits_apply ''blog'' [EditCreateModel post_model] (models_of EmptyProjectState) = Some (models_of post_state)"
proof -
  have "State_Model post_state ''blog'' ''post'' = Some post_model"
    by (simp add: State_Model_eq post_state_def sample_nf) (simp add: post_model_def schema_nf_def sample_schema_def)
  with preflight_edits_follow_state[OF empty_state_wf(1) preflight_post] show ?thesis
    by (simp add: planned_edits_def map_filter_simps database_edit_def create_post_def sample_schema_def)
qed

theorem unapply_undoes_apply_witness:
  "\<exists>qs. preflight ascii_tables post_state create_post DirectionBackward = Inr (qs, EmptyProjectState)
     \<and> map poOp qs = [CreateModel ''blog'' (sModels sample_schema ! 0)]"
  using unapply_undoes_apply[OF empty_state_wf(1) preflight_post]
  by (auto simp: State_Clone_def EmptyProjectState_def State_FormatVersion_def)

theorem execute_keeps_valid_state_witness:
  "state_wf ascii_tables
     (fst (fst (sqlite_execute ascii_tables (log_driver None) EmptyProjectState create_post DirectionForward empty_world)))"
proof -
  obtain s r w' where run: "sqlite_execute ascii_tables (log_driver None) EmptyProjectState create_post DirectionForward
      empty_world = ((s, r), w')" by (metis prod.collapse)
  from execute_keeps_valid_state[OF empty_state_wf(2) run] show ?thesis by (simp add: run)
qed

end
