(* ===== verification/Orm_Model.thy ===== *)
theory Orm_Model
  imports Schema_IR Query_AST
begin

text \<open>
  The data of package \<open>orm\<close>: typed fields with the predicates and orderings they build
  (\<open>orm/field.go\<close>), explicit changes (\<open>orm/change.go\<close>), mutations (\<open>orm/mutation.go\<close>) and model
  descriptors (\<open>orm/descriptor.go\<close>). The type parameter \<open>M\<close> of a Go type is \<open>'m\<close> where a value of
  it is stored; where it is only a compile-time marker it has no counterpart.
\<close>

section \<open>Field references\<close>

definition fieldReference :: "ir_field \<Rightarrow> field_ref" where
  "fieldReference field =
     NewFieldRef (fName field) (fColumn field)
       (case fKind field of
          FieldAuto \<Rightarrow> FieldInteger
        | FieldChar \<Rightarrow> FieldString
        | FieldBoolean \<Rightarrow> FieldBool
        | FieldKindOther _ \<Rightarrow> QueryFieldKindOther '''')
       (fNullable field)"

section \<open>Typed fields\<close>

record orm_field =
  ofReference :: field_ref
  ofErr :: "go_error option"

datatype integer_field = IntegerField (integerField: orm_field)
datatype string_field = StringField (stringField: orm_field)
datatype nullable_string_field = NullableStringField (nullableStringField: orm_field)
datatype boolean_field = BooleanField (booleanField: orm_field)

record orm_predicate =
  prCondition :: query_condition
  prErr :: "go_error option"

record orm_ordering =
  odOrdering :: query_ordering
  odErr :: "go_error option"

definition newField :: "ir_field \<Rightarrow> query_field_kind \<Rightarrow> field_kind \<Rightarrow> bool \<Rightarrow> orm_field" where
  "newField metadata kind expectedKind expectedNullable =
     \<lparr>ofReference = NewFieldRef (fName metadata) (fColumn metadata) kind (fNullable metadata),
      ofErr =
        (if fKind metadata \<noteq> expectedKind \<or> fNullable metadata \<noteq> expectedNullable
            \<or> fName metadata = '''' \<or> fColumn metadata = ''''
         then Some (QueryError CategoryQuery CodeInvalidPlan (fName metadata) ''''
                (plain ''typed field constructor does not match normalized field metadata'') None)
         else None)\<rparr>"

definition field_predicate :: "orm_field \<Rightarrow> lookup \<Rightarrow> qvalue \<Rightarrow> orm_predicate" where
  "field_predicate f lookup v =
     \<lparr>prCondition = NewCondition (ofReference f) lookup v, prErr = ofErr f\<rparr>"

definition field_ordering :: "orm_field \<Rightarrow> order_direction \<Rightarrow> orm_ordering" where
  "field_ordering f direction =
     \<lparr>odOrdering = NewOrdering (ofReference f) direction, odErr = ofErr f\<rparr>"

definition NewIntegerField :: "ir_field \<Rightarrow> integer_field" where
  "NewIntegerField metadata = IntegerField (newField metadata FieldInteger FieldAuto False)"

definition NewStringField :: "ir_field \<Rightarrow> string_field" where
  "NewStringField metadata = StringField (newField metadata FieldString FieldChar False)"

definition NewNullableStringField :: "ir_field \<Rightarrow> nullable_string_field" where
  "NewNullableStringField metadata = NullableStringField (newField metadata FieldString FieldChar True)"

definition NewBooleanField :: "ir_field \<Rightarrow> boolean_field" where
  "NewBooleanField metadata = BooleanField (newField metadata FieldBool FieldBoolean False)"

text \<open>The lookups each field type offers.\<close>

fun Integer_Exact :: "integer_field \<Rightarrow> int \<Rightarrow> orm_predicate" where
  "Integer_Exact (IntegerField f) v = field_predicate f LookupExact (Integer v)"

fun Integer_IsNull :: "integer_field \<Rightarrow> bool \<Rightarrow> orm_predicate" where
  "Integer_IsNull (IntegerField f) v = field_predicate f LookupIsNull (Boolean v)"

fun Integer_Asc :: "integer_field \<Rightarrow> orm_ordering" where
  "Integer_Asc (IntegerField f) = field_ordering f Ascending"

fun Integer_Desc :: "integer_field \<Rightarrow> orm_ordering" where
  "Integer_Desc (IntegerField f) = field_ordering f Descending"

fun String_Exact :: "string_field \<Rightarrow> string \<Rightarrow> orm_predicate" where
  "String_Exact (StringField f) v = field_predicate f LookupExact (String v)"

fun String_IContains :: "string_field \<Rightarrow> string \<Rightarrow> orm_predicate" where
  "String_IContains (StringField f) v = field_predicate f LookupIContains (String v)"

fun String_IsNull :: "string_field \<Rightarrow> bool \<Rightarrow> orm_predicate" where
  "String_IsNull (StringField f) v = field_predicate f LookupIsNull (Boolean v)"

fun String_Asc :: "string_field \<Rightarrow> orm_ordering" where
  "String_Asc (StringField f) = field_ordering f Ascending"

fun String_Desc :: "string_field \<Rightarrow> orm_ordering" where
  "String_Desc (StringField f) = field_ordering f Descending"

fun NullableString_Exact :: "nullable_string_field \<Rightarrow> string \<Rightarrow> orm_predicate" where
  "NullableString_Exact (NullableStringField f) v = field_predicate f LookupExact (String v)"

fun NullableString_IContains :: "nullable_string_field \<Rightarrow> string \<Rightarrow> orm_predicate" where
  "NullableString_IContains (NullableStringField f) v = field_predicate f LookupIContains (String v)"

fun NullableString_IsNull :: "nullable_string_field \<Rightarrow> bool \<Rightarrow> orm_predicate" where
  "NullableString_IsNull (NullableStringField f) v = field_predicate f LookupIsNull (Boolean v)"

fun NullableString_Asc :: "nullable_string_field \<Rightarrow> orm_ordering" where
  "NullableString_Asc (NullableStringField f) = field_ordering f Ascending"

fun NullableString_Desc :: "nullable_string_field \<Rightarrow> orm_ordering" where
  "NullableString_Desc (NullableStringField f) = field_ordering f Descending"

fun Boolean_Exact :: "boolean_field \<Rightarrow> bool \<Rightarrow> orm_predicate" where
  "Boolean_Exact (BooleanField f) v = field_predicate f LookupExact (Boolean v)"

fun Boolean_IsNull :: "boolean_field \<Rightarrow> bool \<Rightarrow> orm_predicate" where
  "Boolean_IsNull (BooleanField f) v = field_predicate f LookupIsNull (Boolean v)"

fun Boolean_Asc :: "boolean_field \<Rightarrow> orm_ordering" where
  "Boolean_Asc (BooleanField f) = field_ordering f Ascending"

fun Boolean_Desc :: "boolean_field \<Rightarrow> orm_ordering" where
  "Boolean_Desc (BooleanField f) = field_ordering f Descending"

text \<open>
  \<open>WritableField\<close> is sealed by its private method: the three field types that have it. An
  integer field, the only one that may be a primary key, does not.
\<close>

datatype writable_field =
    WritableString string_field
  | WritableNullableString nullable_string_field
  | WritableBoolean boolean_field

fun writableField :: "writable_field \<Rightarrow> field_ref \<times> go_error option" where
  "writableField (WritableString (StringField f)) = (ofReference f, ofErr f)"
| "writableField (WritableNullableString (NullableStringField f)) = (ofReference f, ofErr f)"
| "writableField (WritableBoolean (BooleanField f)) = (ofReference f, ofErr f)"

section \<open>Explicit changes\<close>

record 'a change =
  chSet :: bool
  chValue :: 'a

definition Set_change :: "'a \<Rightarrow> 'a change" where
  "Set_change v = \<lparr>chSet = True, chValue = v\<rparr>"

definition unset_change :: "'a \<Rightarrow> 'a change" where
  "unset_change zero = \<lparr>chSet = False, chValue = zero\<rparr>"

definition Change_Get :: "'a change \<Rightarrow> 'a \<times> bool" where
  "Change_Get c = (chValue c, chSet c)"

datatype nullable_change_state =
  NullableChangeUnset | NullableChangeValue | NullableChangeNull | NullableChangeOther nat

record 'a nullable_change =
  ncState :: nullable_change_state
  ncValue :: 'a

definition SetNullable :: "'a \<Rightarrow> 'a nullable_change" where
  "SetNullable v = \<lparr>ncState = NullableChangeValue, ncValue = v\<rparr>"

definition SetNull :: "'a \<Rightarrow> 'a nullable_change" where
  "SetNull zero = \<lparr>ncState = NullableChangeNull, ncValue = zero\<rparr>"

definition unset_nullable_change :: "'a \<Rightarrow> 'a nullable_change" where
  "unset_nullable_change zero = \<lparr>ncState = NullableChangeUnset, ncValue = zero\<rparr>"

definition NullableChange_Get :: "'a nullable_change \<Rightarrow> 'a \<times> nullable_change_state" where
  "NullableChange_Get c = (ncValue c, ncState c)"

section \<open>Mutations\<close>

datatype mutation_kind = MutationCreate | MutationPatch | MutationKindOther string

record 'm mutation =
  muKind :: mutation_kind
  muTable :: string
  muAssignments :: "assignment list"
  muValue :: 'm
  muErr :: "go_error option"

text \<open>The zero value of \<open>M\<close>, which an invalid mutation holds, is passed as \<open>zero\<close>.\<close>

definition InvalidMutation :: "'m \<Rightarrow> go_error option \<Rightarrow> 'm mutation" where
  "InvalidMutation zero err =
     \<lparr>muKind = MutationKindOther '''', muTable = '''', muAssignments = [], muValue = zero, muErr = err\<rparr>"

definition newMutation :: "'m \<Rightarrow> mutation_kind \<Rightarrow> 'm \<Rightarrow> string \<Rightarrow> assignment list \<Rightarrow> 'm mutation" where
  "newMutation zero kind v table assignments =
     (if table = ''''
      then InvalidMutation zero
             (Some (query_error CategoryQuery CodeInvalidPlan (plain ''mutation table is empty'')))
      else \<lparr>muKind = kind, muTable = table, muAssignments = assignments, muValue = v, muErr = None\<rparr>)"

definition NewCreateMutation :: "'m \<Rightarrow> 'm \<Rightarrow> string \<Rightarrow> assignment list \<Rightarrow> 'm mutation" where
  "NewCreateMutation zero v table assignments = newMutation zero MutationCreate v table assignments"

definition empty_patch_error :: go_error where
  "empty_patch_error = query_error CategoryQuery CodeEmptyPatch (plain ''patch has no explicit field changes'')"

definition NewPatchMutation :: "'m \<Rightarrow> 'm \<Rightarrow> string \<Rightarrow> assignment list \<Rightarrow> 'm mutation" where
  "NewPatchMutation zero v table assignments =
     (if assignments = [] then InvalidMutation zero (Some empty_patch_error)
      else newMutation zero MutationPatch v table assignments)"

definition orm_NewAssignment :: "ir_field \<Rightarrow> qvalue \<Rightarrow> assignment" where
  "orm_NewAssignment field v = NewAssignment (fieldReference field) v"

section \<open>Descriptors\<close>

text \<open>
  A descriptor is generated or user code: a record of the functions it provides. The write
  capability is the optional second interface. A nil interface is \<open>None\<close> where it may occur.
  \<open>'r\<close> is what \<open>Scan\<close> reads a row from.
\<close>

record 'm write_capability =
  wcPrimaryKey :: "'m \<Rightarrow> qvalue \<times> bool"
  wcSetPrimaryKey :: "int \<Rightarrow> 'm \<Rightarrow> 'm"
  wcClearPrimaryKey :: "'m \<Rightarrow> 'm"
  wcCloneWriteModel :: "'m \<Rightarrow> 'm"
  wcWriteFieldValue :: "'m \<Rightarrow> ir_field \<Rightarrow> qvalue \<times> bool"

record ('r, 'm) model_descriptor =
  mdMetadata :: ir_model
  mdScan :: "'r \<Rightarrow> go_error + 'm"
  mdCloneModel :: "'m \<Rightarrow> 'm"
  mdWrite :: "'m write_capability option"

section \<open>Facts\<close>

lemma fieldReference_simps [simp]:
  "frName (fieldReference f) = fName f" "frColumn (fieldReference f) = fColumn f"
  "frNullable (fieldReference f) = fNullable f"
  by (simp_all add: fieldReference_def NewFieldRef_def)

lemma orm_NewAssignment_simps [simp]:
  "asgField (orm_NewAssignment f v) = fieldReference f" "asgValue (orm_NewAssignment f v) = v"
  by (simp_all add: orm_NewAssignment_def NewAssignment_def)

text \<open>
  the generated constructor that matches a normalized field builds its own reference: the
  typed field of a well-formed field refers to it exactly as the metadata does, without an error,
  so a typed predicate names the selected column. A constructor of the wrong type never
  yields an error-free field.
\<close>
theorem typed_fields_match_metadata:
  assumes "wf_field uc f"
  shows "(ofErr (integerField (NewIntegerField f)) = None \<longleftrightarrow> fKind f = FieldAuto)
    \<and> (ofErr (stringField (NewStringField f)) = None \<longleftrightarrow> fKind f = FieldChar \<and> \<not> fNullable f)
    \<and> (ofErr (nullableStringField (NewNullableStringField f)) = None \<longleftrightarrow> fKind f = FieldChar \<and> fNullable f)
    \<and> (ofErr (booleanField (NewBooleanField f)) = None \<longleftrightarrow> fKind f = FieldBoolean)
    \<and> (\<forall>g \<in> {integerField (NewIntegerField f), stringField (NewStringField f),
          nullableStringField (NewNullableStringField f), booleanField (NewBooleanField f)}.
        ofErr g = None \<longrightarrow> ofReference g = fieldReference f)"
proof -
  have "fName f \<noteq> ''''" "fColumn f \<noteq> ''''" using assms databaseIdentifier_nonempty by (auto simp: wf_field_def)
  moreover have "fKind f = FieldAuto \<or> fKind f = FieldBoolean \<Longrightarrow> \<not> fNullable f"
    using assms by (auto simp: wf_field_def wf_kind_def)
  ultimately show ?thesis
    by (cases "fKind f")
      (simp_all add: NewIntegerField_def NewStringField_def NewNullableStringField_def NewBooleanField_def
        newField_def fieldReference_def)
qed

theorem typed_fields_match_metadata_witness:
  "ofErr (stringField (NewStringField (zeroField\<lparr>fName := ''title'', fColumn := ''title'', fGoName := ''Title'',
     fKind := FieldChar, fMaxLength := 80\<rparr>))) = None"
proof -
  let ?f = "zeroField\<lparr>fName := ''title'', fColumn := ''title'', fGoName := ''Title'', fKind := FieldChar, fMaxLength := 80\<rparr>"
  have "wf_field ascii_tables ?f"
    by (simp add: wf_field_def wf_kind_def zeroField_def databaseIdentifier_def identifier_start_def
        identifier_rest_def exportedIdentifier_ascii ascii_tables_def byte_def)
  from typed_fields_match_metadata[OF this] show ?thesis by (simp add: zeroField_def)
qed

end
