(* ===== verification/Orm_Write.thy ===== *)
theory Orm_Write
  imports Orm_Model Executor
begin

text \<open>
  One-row writes of package \<open>orm\<close>: \<open>Create\<close>, \<open>Update\<close> and \<open>Delete\<close> with the validation of the
  mutations generated code builds (\<open>orm/write.go\<close>). The backend is a record of the three calls of
  \<open>db.Mutator\<close> on an outside state \<open>'w\<close>; the context they are given is the caller's.
\<close>

section \<open>The write boundary\<close>

record 'w mutator =
  muInsert :: "insert_plan \<Rightarrow> 'w \<Rightarrow> (go_error + int) \<times> 'w"
  muUpdate :: "update_plan \<Rightarrow> 'w \<Rightarrow> (go_error + int) \<times> 'w"
  muDelete :: "delete_plan \<Rightarrow> 'w \<Rightarrow> (go_error + int) \<times> 'w"

definition invalidWritePlan :: "string \<Rightarrow> go_error" where
  "invalidWritePlan detail = query_error CategoryQuery CodeInvalidPlan (plain detail)"

definition unexpectedRows :: "string \<Rightarrow> int \<Rightarrow> go_error" where
  "unexpectedRows operation rows =
     query_error CategoryBackend CodeUnexpectedRows
       (Text (operation @ '' affected an unexpected number of rows: %d'') [FInt rows])"

section \<open>Metadata\<close>

definition autoPrimaryKey :: "ir_model \<Rightarrow> ir_field \<times> bool" where
  "autoPrimaryKey metadata =
     (let keys = filter fPrimaryKey (mFields metadata);
          result = (if keys = [] then zeroField else last keys) in
      (result, length keys = 1 \<and> fKind result = FieldAuto))"

definition mutationField :: "ir_model \<Rightarrow> field_ref \<Rightarrow> ir_field option" where
  "mutationField metadata reference = find (\<lambda>field. fieldReference field = reference) (mFields metadata)"

definition mutationValueMatches :: "ir_field \<Rightarrow> qvalue \<Rightarrow> bool" where
  "mutationValueMatches field v =
     (if IsNull v then fNullable field
      else (case fKind field of
              FieldAuto \<Rightarrow> vKind v = ValueInteger
            | FieldChar \<Rightarrow> vKind v = ValueString
            | FieldBoolean \<Rightarrow> vKind v = ValueBoolean
            | FieldKindOther _ \<Rightarrow> False))"

text \<open>\<open>nonPrimaryFields\<close> is declared in \<open>orm/save.go\<close>.\<close>

definition nonPrimaryFields :: "ir_model \<Rightarrow> ir_field list" where
  "nonPrimaryFields metadata = filter (\<lambda>field. \<not> fPrimaryKey field) (mFields metadata)"

definition writeConfiguration :: "'w go_context \<Rightarrow> 'w mutator option \<Rightarrow> ('r, 'm) model_descriptor option
    \<Rightarrow> 'w \<Rightarrow> (go_error + 'm write_capability \<times> ir_model \<times> ir_field) \<times> 'w" where
  "writeConfiguration ctx backend descriptor w =
     (case ctx of
        None \<Rightarrow> (Inl (invalidWritePlan ''context is nil''), w)
      | Some ctxErr \<Rightarrow>
        (case ctxErr w of
           (Some err, w1) \<Rightarrow> (Inl err, w1)
         | (None, w1) \<Rightarrow>
           (case backend of
              None \<Rightarrow> (Inl (query_error CategoryBackend CodeInvalidPlan (plain ''backend is nil'')), w1)
            | Some _ \<Rightarrow>
              (case descriptor of
                 None \<Rightarrow> (Inl (invalidWritePlan ''descriptor is nil''), w1)
               | Some d \<Rightarrow>
                 (case mdWrite d of
                    None \<Rightarrow> (Inl (invalidWritePlan ''descriptor does not implement write key state''), w1)
                  | Some wc \<Rightarrow>
                    (case autoPrimaryKey (mdMetadata d) of
                       (primaryKey, ok) \<Rightarrow>
                         if \<not> ok
                         then (Inl (invalidWritePlan ''metadata must contain exactly one AutoField primary key''), w1)
                         else (Inr (wc, mdMetadata d, primaryKey), w1)))))))"

section \<open>Validation of mutations\<close>

definition mutation_field_error :: "query_code \<Rightarrow> string \<Rightarrow> string \<Rightarrow> go_error" where
  "mutation_field_error code name detail = QueryError CategoryField code name '''' (plain detail) None"

text \<open>The loop over the assignments, with the names seen so far; on success the names assigned.\<close>

fun check_assignments :: "ir_model \<Rightarrow> 'm write_capability \<Rightarrow> 'm \<Rightarrow> string list \<Rightarrow> assignment list
    \<Rightarrow> go_error + string list" where
  "check_assignments metadata wc v seen [] = Inr seen"
| "check_assignments metadata wc v seen (a # as) =
     (case mutationField metadata (asgField a) of
        None \<Rightarrow> Inl (mutation_field_error CodeUnknownField (frName (asgField a))
                      ''mutation field is not writable descriptor metadata'')
      | Some field \<Rightarrow>
        if fPrimaryKey field
        then Inl (mutation_field_error CodeUnknownField (frName (asgField a))
               ''mutation field is not writable descriptor metadata'')
        else if fName field \<in> set seen
        then Inl (QueryError CategoryQuery CodeInvalidPlan (fName field) ''''
               (plain ''mutation field is assigned more than once'') None)
        else if \<not> mutationValueMatches field (asgValue a)
        then Inl (mutation_field_error CodeInvalidValue (fName field)
               ''mutation value does not match field type or nullability'')
        else (case wcWriteFieldValue wc v field of
                (modelValue, ok) \<Rightarrow>
                  if \<not> ok \<or> modelValue \<noteq> asgValue a
                  then Inl (mutation_field_error CodeInvalidValue (fName field)
                         ''mutation result model does not match its assignment'')
                  else check_assignments metadata wc v (fName field # seen) as))"

definition check_required :: "ir_model \<Rightarrow> string list \<Rightarrow> go_error option" where
  "check_required metadata seen = check_all (\<lambda>field.
     if fPrimaryKey field then None
     else if fName field \<notin> set seen
     then Some (mutation_field_error CodeRequiredField (fName field)
            ''create mutation omitted normalized field assignment'')
     else None) (mFields metadata)"

definition check_unassigned :: "ir_model \<Rightarrow> 'm write_capability \<Rightarrow> 'm \<Rightarrow> 'm \<Rightarrow> string list \<Rightarrow> go_error option" where
  "check_unassigned metadata wc current v seen = check_all (\<lambda>field.
     if fPrimaryKey field then None
     else if fName field \<in> set seen then None
     else (case (wcWriteFieldValue wc current field, wcWriteFieldValue wc v field) of
             ((before, beforeOK), (after, afterOK)) \<Rightarrow>
               if \<not> beforeOK \<or> \<not> afterOK \<or> before \<noteq> after
               then Some (mutation_field_error CodeInvalidValue (fName field)
                      ''patch result changed a field without an assignment'')
               else None)) (mFields metadata)"

definition validateMutation :: "'m mutation \<Rightarrow> mutation_kind \<Rightarrow> ir_model \<Rightarrow> 'm write_capability \<Rightarrow> 'm option
    \<Rightarrow> go_error option" where
  "validateMutation mutation expected metadata wc current =
     (if muErr mutation \<noteq> None then muErr mutation
      else if muKind mutation \<noteq> expected
      then Some (invalidWritePlan ''generated mutation kind does not match Manager operation'')
      else if muTable mutation \<noteq> mDBTable metadata
      then Some (invalidWritePlan ''generated mutation table does not match descriptor metadata'')
      else if expected = MutationPatch \<and> muAssignments mutation = [] then Some empty_patch_error
      else
      (case check_assignments metadata wc (muValue mutation) [] (muAssignments mutation) of
         Inl err \<Rightarrow> Some err
       | Inr seen \<Rightarrow>
         (case (if expected = MutationCreate then check_required metadata seen else None) of
            Some err \<Rightarrow> Some err
          | None \<Rightarrow>
            if expected = MutationPatch
            then (case current of
                    None \<Rightarrow> Some (invalidWritePlan ''patch validation requires the current model'')
                  | Some c \<Rightarrow> check_unassigned metadata wc c (muValue mutation) seen)
            else None)))"

section \<open>The operations\<close>

text \<open>An input is a nil interface or the function its build method is.\<close>

definition Create :: "('r, 'm) model_descriptor option \<Rightarrow> 'w go_context \<Rightarrow> 'w mutator option
    \<Rightarrow> 'm mutation option \<Rightarrow> 'w \<Rightarrow> (go_error + 'm) \<times> 'w" where
  "Create descriptor ctx backend input w =
     (case writeConfiguration ctx backend descriptor w of
        (Inl err, w1) \<Rightarrow> (Inl err, w1)
      | (Inr (wc, metadata, _), w1) \<Rightarrow>
        (case input of
           None \<Rightarrow> (Inl (invalidWritePlan ''create input is nil''), w1)
         | Some mutation \<Rightarrow>
           (case validateMutation mutation MutationCreate metadata wc None of
              Some err \<Rightarrow> (Inl err, w1)
            | None \<Rightarrow>
              (case muInsert (the backend) (NewInsertPlan (mDBTable metadata) (muAssignments mutation)) w1 of
                 (Inl err, w2) \<Rightarrow> (Inl err, w2)
               | (Inr lastInsertID, w2) \<Rightarrow> (Inr (wcSetPrimaryKey wc lastInsertID (muValue mutation)), w2)))))"

definition missing_key_error :: "ir_field \<Rightarrow> go_error" where
  "missing_key_error primaryKey =
     QueryError CategoryQuery CodeMissingPrimaryKey (fName primaryKey) ''''
       (plain ''model instance has no explicit primary key state'') None"

definition invalid_key_error :: go_error where
  "invalid_key_error = invalidWritePlan ''descriptor returned an invalid primary key value''"

definition orm_Update :: "('r, 'm) model_descriptor option \<Rightarrow> 'w go_context \<Rightarrow> 'w mutator option
    \<Rightarrow> 'm \<Rightarrow> ('m \<Rightarrow> 'm mutation) option \<Rightarrow> 'w \<Rightarrow> (go_error + 'm) \<times> 'w" where
  "orm_Update descriptor ctx backend current input w =
     (case writeConfiguration ctx backend descriptor w of
        (Inl err, w1) \<Rightarrow> (Inl err, w1)
      | (Inr (wc, metadata, primaryKey), w1) \<Rightarrow>
        (case wcPrimaryKey wc current of
           (keyValue, present) \<Rightarrow>
           if \<not> present then (Inl (missing_key_error primaryKey), w1)
           else if \<not> mutationValueMatches primaryKey keyValue \<or> IsNull keyValue
           then (Inl invalid_key_error, w1)
           else
           (case input of
              None \<Rightarrow> (Inl (invalidWritePlan ''patch input is nil''), w1)
            | Some build \<Rightarrow>
              (let baseline = wcCloneWriteModel wc current;
                   mutation = build (wcCloneWriteModel wc current) in
               case validateMutation mutation MutationPatch metadata wc (Some baseline) of
                 Some err \<Rightarrow> (Inl err, w1)
               | None \<Rightarrow>
                 (case wcPrimaryKey wc (muValue mutation) of
                    (mutationKey, mutationKeyPresent) \<Rightarrow>
                    if \<not> mutationKeyPresent \<or> mutationKey \<noteq> keyValue
                    then (Inl (invalidWritePlan ''patch result primary key does not match the current model''), w1)
                    else if muAssignments mutation = [] then (Inl empty_patch_error, w1)
                    else
                    (case muUpdate (the backend) (NewUpdatePlan (mDBTable metadata) (muAssignments mutation)
                            (fieldReference primaryKey) keyValue) w1 of
                       (Inl err, w2) \<Rightarrow> (Inl err, w2)
                     | (Inr rowsAffected, w2) \<Rightarrow>
                         if rowsAffected \<noteq> 1 then (Inl (unexpectedRows ''update'' rowsAffected), w2)
                         else (Inr (muValue mutation), w2)))))))"

text \<open>
  \<open>Delete\<close> gets a pointer, nil or to a model, and returns a row count beside its error; the model
  behind the pointer is returned as it is left.
\<close>

definition orm_Delete :: "('r, 'm) model_descriptor option \<Rightarrow> 'w go_context \<Rightarrow> 'w mutator option
    \<Rightarrow> 'm option \<Rightarrow> 'w \<Rightarrow> (int \<times> go_error option \<times> 'm option) \<times> 'w" where
  "orm_Delete descriptor ctx backend pointer w =
     (case writeConfiguration ctx backend descriptor w of
        (Inl err, w1) \<Rightarrow> ((0, Some err, pointer), w1)
      | (Inr (wc, metadata, primaryKey), w1) \<Rightarrow>
        (case pointer of
           None \<Rightarrow> ((0, Some (invalidWritePlan ''delete model pointer is nil''), pointer), w1)
         | Some v \<Rightarrow>
           (case wcPrimaryKey wc v of
              (keyValue, present) \<Rightarrow>
              if \<not> present then ((0, Some (missing_key_error primaryKey), pointer), w1)
              else if \<not> mutationValueMatches primaryKey keyValue \<or> IsNull keyValue
              then ((0, Some invalid_key_error, pointer), w1)
              else
              (case muDelete (the backend) (NewDeletePlan (mDBTable metadata) (fieldReference primaryKey) keyValue) w1 of
                 (Inl err, w2) \<Rightarrow> ((0, Some err, pointer), w2)
               | (Inr rowsAffected, w2) \<Rightarrow>
                   if rowsAffected \<noteq> 1
                   then ((rowsAffected, Some (unexpectedRows ''delete'' rowsAffected), pointer), w2)
                   else ((rowsAffected, None, Some (wcClearPrimaryKey wc v)), w2)))))"


section \<open>What validation accepts\<close>

definition assignment_accepted :: "ir_model \<Rightarrow> 'm write_capability \<Rightarrow> 'm \<Rightarrow> assignment \<Rightarrow> bool" where
  "assignment_accepted metadata wc v a \<longleftrightarrow>
     (\<exists>f \<in> set (mFields metadata). fieldReference f = asgField a \<and> mutationField metadata (asgField a) = Some f
        \<and> \<not> fPrimaryKey f \<and> mutationValueMatches f (asgValue a) \<and> wcWriteFieldValue wc v f = (asgValue a, True))"

abbreviation assigned_names :: "assignment list \<Rightarrow> string list" where
  "assigned_names as \<equiv> map (frName \<circ> asgField) as"

definition unchanged_outside :: "ir_model \<Rightarrow> 'm write_capability \<Rightarrow> 'm \<Rightarrow> 'm \<Rightarrow> string list \<Rightarrow> bool" where
  "unchanged_outside metadata wc c v names \<longleftrightarrow>
     (\<forall>f \<in> set (mFields metadata). \<not> fPrimaryKey f \<longrightarrow> fName f \<notin> set names \<longrightarrow>
        (\<exists>x. wcWriteFieldValue wc c f = (x, True) \<and> wcWriteFieldValue wc v f = (x, True)))"

text \<open>The mutations a create or a patch may carry.\<close>

definition mutation_accepted :: "'m mutation \<Rightarrow> mutation_kind \<Rightarrow> ir_model \<Rightarrow> 'm write_capability \<Rightarrow> 'm option \<Rightarrow> bool" where
  "mutation_accepted mu expected metadata wc current \<longleftrightarrow>
     muErr mu = None \<and> muKind mu = expected \<and> muTable mu = mDBTable metadata
     \<and> (\<forall>a \<in> set (muAssignments mu). assignment_accepted metadata wc (muValue mu) a)
     \<and> distinct (assigned_names (muAssignments mu))
     \<and> (expected = MutationCreate \<longrightarrow>
          (\<forall>f \<in> set (nonPrimaryFields metadata). fName f \<in> set (assigned_names (muAssignments mu))))
     \<and> (expected = MutationPatch \<longrightarrow> muAssignments mu \<noteq> [] \<and>
          (\<exists>c. current = Some c \<and> unchanged_outside metadata wc c (muValue mu) (assigned_names (muAssignments mu))))"

lemma mutationField_Some:
  "mutationField metadata r = Some f \<Longrightarrow> f \<in> set (mFields metadata) \<and> fieldReference f = r"
  by (auto simp: mutationField_def find_Some_iff)

lemma check_assignments_Inr:
  "check_assignments metadata wc v seen as = Inr out \<longleftrightarrow>
     (\<forall>a \<in> set as. assignment_accepted metadata wc v a) \<and> distinct (assigned_names as)
     \<and> set (assigned_names as) \<inter> set seen = {} \<and> out = rev (assigned_names as) @ seen"
proof (induction as arbitrary: seen)
  case (Cons a as)
  show ?case
  proof (cases "assignment_accepted metadata wc v a")
    case False
    then show ?thesis
      by (auto simp: assignment_accepted_def dest: mutationField_Some split: option.splits prod.splits if_splits)
  next
    case True
    then obtain f where f: "mutationField metadata (asgField a) = Some f" "fieldReference f = asgField a"
      "\<not> fPrimaryKey f" "mutationValueMatches f (asgValue a)" "wcWriteFieldValue wc v f = (asgValue a, True)"
      by (auto simp: assignment_accepted_def)
    then have "fName f = frName (asgField a)" using fieldReference_simps(1)[of f] by simp
    with f True show ?thesis by (auto simp: Cons.IH)
  qed
qed auto

lemma check_required_None:
  "check_required metadata seen = None \<longleftrightarrow> (\<forall>f \<in> set (nonPrimaryFields metadata). fName f \<in> set seen)"
  by (auto simp: check_required_def check_all_None nonPrimaryFields_def split: if_splits)

lemma check_unassigned_None:
  "check_unassigned metadata wc c v seen = None \<longleftrightarrow> unchanged_outside metadata wc c v seen"
proof -
  have "(case (wcWriteFieldValue wc c f, wcWriteFieldValue wc v f) of
             ((before, beforeOK), (after, afterOK)) \<Rightarrow>
               if \<not> beforeOK \<or> \<not> afterOK \<or> before \<noteq> after
               then Some (mutation_field_error CodeInvalidValue (fName f)
                      ''patch result changed a field without an assignment'')
               else None) = None \<longleftrightarrow>
      (\<exists>x. wcWriteFieldValue wc c f = (x, True) \<and> wcWriteFieldValue wc v f = (x, True))" for f
    by (cases "wcWriteFieldValue wc c f"; cases "wcWriteFieldValue wc v f") auto
  then show ?thesis
    by (auto simp add: check_unassigned_def check_all_None unchanged_outside_def)
qed

lemma validateMutation_None:
  "validateMutation mu expected metadata wc current = None \<longleftrightarrow> mutation_accepted mu expected metadata wc current"
proof (cases "muErr mu = None \<and> muKind mu = expected \<and> muTable mu = mDBTable metadata
    \<and> \<not> (expected = MutationPatch \<and> muAssignments mu = [])")
  case True
  show ?thesis
  proof (cases "check_assignments metadata wc (muValue mu) [] (muAssignments mu)")
    case (Inl err)
    then have "\<not> ((\<forall>a \<in> set (muAssignments mu). assignment_accepted metadata wc (muValue mu) a)
        \<and> distinct (assigned_names (muAssignments mu)))"
      using check_assignments_Inr[of metadata wc "muValue mu" "[]" "muAssignments mu"
          "rev (assigned_names (muAssignments mu))"] by auto
    with True Inl show ?thesis by (auto simp: validateMutation_def mutation_accepted_def)
  next
    case (Inr seen)
    then have s: "\<forall>a \<in> set (muAssignments mu). assignment_accepted metadata wc (muValue mu) a"
      "distinct (assigned_names (muAssignments mu))" "seen = rev (assigned_names (muAssignments mu))"
      unfolding check_assignments_Inr by simp_all
    have u: "unchanged_outside metadata wc c v seen \<longleftrightarrow>
        unchanged_outside metadata wc c v (assigned_names (muAssignments mu))" for c v
      by (simp add: unchanged_outside_def s(3))
    have r: "(\<forall>f \<in> set (nonPrimaryFields metadata). fName f \<in> set seen) \<longleftrightarrow>
        (\<forall>f \<in> set (nonPrimaryFields metadata). fName f \<in> set (assigned_names (muAssignments mu)))"
      by (simp add: s(3))
    show ?thesis
    proof (cases "check_required metadata seen")
      case None
      with check_required_None[of metadata seen] True s(1,2) show ?thesis
        by (cases expected; cases current)
          (simp_all add: validateMutation_def Inr mutation_accepted_def u r check_unassigned_None)
    next
      case (Some err)
      then have "\<not> (\<forall>f \<in> set (nonPrimaryFields metadata). fName f \<in> set seen)"
        using check_required_None[of metadata seen] by simp
      with Some True s(1,2) show ?thesis
        by (cases expected; cases current)
          (simp_all add: validateMutation_def Inr mutation_accepted_def u r check_unassigned_None)
    qed
  qed
qed (auto simp: validateMutation_def mutation_accepted_def empty_patch_error_def)

lemma writeConfiguration_Inr:
  "writeConfiguration ctx backend descriptor w = (Inr (wc, metadata, primaryKey), w1) \<longleftrightarrow>
     (\<exists>ctxErr be d. ctx = Some ctxErr \<and> ctxErr w = (None, w1) \<and> backend = Some be \<and> descriptor = Some d
        \<and> mdWrite d = Some wc \<and> metadata = mdMetadata d \<and> autoPrimaryKey metadata = (primaryKey, True))"
  by (auto simp: writeConfiguration_def split: option.splits prod.splits)

text \<open>A failed configuration has read the context at most once.\<close>

lemma writeConfiguration_Inl:
  "writeConfiguration ctx backend descriptor w = (Inl err, w1) \<Longrightarrow>
     w1 = w \<or> (\<exists>ctxErr. ctx = Some ctxErr \<and> w1 = snd (ctxErr w))"
  by (auto simp: writeConfiguration_def split: option.splits prod.splits if_splits)

section \<open>Descriptors that keep their promises\<close>

text \<open>
  What the generated write capability promises: setting the key sets exactly the key, clearing it
  makes it absent, and a clone reads like the original.
\<close>

locale write_descriptor_laws =
  fixes wc :: "'m write_capability" and metadata :: ir_model
  assumes set_key: "wcPrimaryKey wc (wcSetPrimaryKey wc k v) = (Integer k, True)"
    and set_field: "f \<in> set (mFields metadata) \<Longrightarrow> \<not> fPrimaryKey f \<Longrightarrow>
          wcWriteFieldValue wc (wcSetPrimaryKey wc k v) f = wcWriteFieldValue wc v f"
    and clear_key: "\<not> snd (wcPrimaryKey wc (wcClearPrimaryKey wc v))"
    and clone_key: "wcPrimaryKey wc (wcCloneWriteModel wc v) = wcPrimaryKey wc v"
    and field_names: "distinct (map fName (mFields metadata))"
    and clone_field: "wcWriteFieldValue wc (wcCloneWriteModel wc v) f = wcWriteFieldValue wc v f"
begin

lemma created:
  assumes "Create (Some d) ctx (Some be) (Some mu) w = (Inr v, w')"
    and "mdWrite d = Some wc" and "mdMetadata d = metadata"
  shows "\<exists>n w1 conf. writeConfiguration ctx (Some be) (Some d) w = (conf, w1)
    \<and> mutation_accepted mu MutationCreate metadata wc None
    \<and> muInsert be (NewInsertPlan (mDBTable metadata) (muAssignments mu)) w1 = (Inr n, w')
    \<and> wcPrimaryKey wc v = (Integer n, True)
    \<and> (\<forall>f \<in> set (nonPrimaryFields metadata). \<exists>a \<in> set (muAssignments mu).
         asgField a = fieldReference f \<and> wcWriteFieldValue wc v f = (asgValue a, True))"
proof -
  from assms obtain w1 primaryKey n where
    conf: "writeConfiguration ctx (Some be) (Some d) w = (Inr (wc, metadata, primaryKey), w1)"
    and acc: "mutation_accepted mu MutationCreate metadata wc None"
    and ins: "muInsert be (NewInsertPlan (mDBTable metadata) (muAssignments mu)) w1 = (Inr n, w')"
    and v: "v = wcSetPrimaryKey wc n (muValue mu)"
    by (auto simp: Create_def writeConfiguration_Inr validateMutation_None
        split: prod.splits sum.splits option.splits)
  have "\<exists>a \<in> set (muAssignments mu). asgField a = fieldReference f \<and> wcWriteFieldValue wc v f = (asgValue a, True)"
    if f: "f \<in> set (nonPrimaryFields metadata)" for f
  proof -
    from acc f obtain a where a: "a \<in> set (muAssignments mu)" "fName f = frName (asgField a)"
      by (auto simp: mutation_accepted_def)
    with acc obtain g where g: "g \<in> set (mFields metadata)" "fieldReference g = asgField a"
      "wcWriteFieldValue wc (muValue mu) g = (asgValue a, True)" "\<not> fPrimaryKey g"
      by (auto simp: mutation_accepted_def assignment_accepted_def)
    from g(2) a(2) have "fName g = fName f" by (metis fieldReference_simps(1))
    with f g(1) field_names have "g = f" by (auto simp: nonPrimaryFields_def distinct_map inj_on_def)
    with a g show ?thesis by (auto simp: v set_field)
  qed
  then show ?thesis using conf acc ins v set_key by blast
qed

lemma updated:
  assumes "orm_Update (Some d) ctx (Some be) current (Some build) w = (Inr v, w')"
    and "mdWrite d = Some wc" and "mdMetadata d = metadata"
  shows "\<exists>mu keyValue w1 conf. mu = build (wcCloneWriteModel wc current)
    \<and> writeConfiguration ctx (Some be) (Some d) w = (conf, w1)
    \<and> mutation_accepted mu MutationPatch metadata wc (Some (wcCloneWriteModel wc current))
    \<and> wcPrimaryKey wc current = (keyValue, True) \<and> wcPrimaryKey wc v = (keyValue, True)
    \<and> muUpdate be (NewUpdatePlan (mDBTable metadata) (muAssignments mu)
          (fieldReference (fst (autoPrimaryKey metadata))) keyValue) w1 = (Inr 1, w')
    \<and> (\<forall>f \<in> set (nonPrimaryFields metadata).
         if \<exists>a \<in> set (muAssignments mu). asgField a = fieldReference f
         then \<exists>a \<in> set (muAssignments mu). asgField a = fieldReference f \<and> wcWriteFieldValue wc v f = (asgValue a, True)
         else wcWriteFieldValue wc v f = wcWriteFieldValue wc current f)"
proof -
  from assms obtain mu w1 primaryKey keyValue where
    mu: "mu = build (wcCloneWriteModel wc current)"
    and conf: "writeConfiguration ctx (Some be) (Some d) w = (Inr (wc, metadata, primaryKey), w1)"
    and key: "wcPrimaryKey wc current = (keyValue, True)"
    and acc: "mutation_accepted mu MutationPatch metadata wc (Some (wcCloneWriteModel wc current))"
    and v: "v = muValue mu" "wcPrimaryKey wc (muValue mu) = (keyValue, True)"
    and pk: "autoPrimaryKey metadata = (primaryKey, True)"
    and upd: "muUpdate be (NewUpdatePlan (mDBTable metadata) (muAssignments mu) (fieldReference primaryKey) keyValue) w1
        = (Inr 1, w')"
    by (auto simp: orm_Update_def writeConfiguration_Inr validateMutation_None Let_def
        split: prod.splits sum.splits option.splits if_splits)
  have "if \<exists>a \<in> set (muAssignments mu). asgField a = fieldReference f
      then \<exists>a \<in> set (muAssignments mu). asgField a = fieldReference f \<and> wcWriteFieldValue wc v f = (asgValue a, True)
      else wcWriteFieldValue wc v f = wcWriteFieldValue wc current f"
    if f: "f \<in> set (nonPrimaryFields metadata)" for f
  proof (cases "\<exists>a \<in> set (muAssignments mu). asgField a = fieldReference f")
    case True
    then obtain a where a: "a \<in> set (muAssignments mu)" "asgField a = fieldReference f" by blast
    with acc obtain g where g: "g \<in> set (mFields metadata)" "fieldReference g = asgField a"
      "wcWriteFieldValue wc (muValue mu) g = (asgValue a, True)"
      by (auto simp: mutation_accepted_def assignment_accepted_def)
    from g(2) a(2) have "fName g = fName f" by (metis fieldReference_simps(1))
    with f g(1) field_names have "g = f" by (auto simp: nonPrimaryFields_def distinct_map inj_on_def)
    with True a g show ?thesis by (auto simp: v(1))
  next
    case False
    have "fName f \<notin> set (assigned_names (muAssignments mu))"
    proof
      assume "fName f \<in> set (assigned_names (muAssignments mu))"
      then obtain a where a: "a \<in> set (muAssignments mu)" "fName f = frName (asgField a)" by auto
      with acc obtain g where g: "g \<in> set (mFields metadata)" "fieldReference g = asgField a"
        by (auto simp: mutation_accepted_def assignment_accepted_def)
      from g(2) a(2) have "fName g = fName f" by (metis fieldReference_simps(1))
      with f g(1) field_names have "g = f" by (auto simp: nonPrimaryFields_def distinct_map inj_on_def)
      with a(1) g(2) False show False by auto
    qed
    with acc f False show ?thesis
      by (auto simp: mutation_accepted_def unchanged_outside_def nonPrimaryFields_def v(1) clone_field)
  qed
  then have each_field: "\<forall>f \<in> set (nonPrimaryFields metadata).
      if \<exists>a \<in> set (muAssignments mu). asgField a = fieldReference f
      then \<exists>a \<in> set (muAssignments mu). asgField a = fieldReference f \<and> wcWriteFieldValue wc v f = (asgValue a, True)
      else wcWriteFieldValue wc v f = wcWriteFieldValue wc current f" by (rule ballI)
  have "fst (autoPrimaryKey metadata) = primaryKey" "wcPrimaryKey wc v = (keyValue, True)"
    using pk v by simp_all
  with mu conf acc key upd each_field show ?thesis
    by (intro exI[of _ mu] exI[of _ keyValue] exI[of _ w1] exI[of _ "Inr (wc, metadata, primaryKey)"] conjI)
      (simp_all only:)
qed

end

end
