(* ===== verification/Orm_Save.thy ===== *)
theory Orm_Save
  imports Orm_Write "HOL-Library.Multiset"
begin

text \<open>
  \<open>Save\<close> of package \<open>orm\<close> (\<open>orm/save.go\<close>): options are folded into a state, the state and the
  model give an execution plan without any I/O, and the plan is executed as at most one update
  followed by at most one insert.
\<close>

section \<open>Options\<close>

datatype save_option_kind =
    saveOptionZero | saveOptionTypedFields | saveOptionDynamicFields | saveOptionForceInsert
  | saveOptionForceUpdate | saveOptionOther nat

text \<open>A typed field is an interface value: nil or a writable field.\<close>

record save_option =
  soKind :: save_option_kind
  soFields :: "writable_field option list"
  soNames :: "string list"

record save_option_state =
  ssFieldMaskSet :: bool
  ssTypedFields :: "writable_field option list"
  ssDynamicNames :: "string list"
  ssForceInsert :: bool
  ssForceUpdate :: bool
  ssErr :: "go_error option"

definition UpdateFields :: "writable_field option list \<Rightarrow> save_option" where
  "UpdateFields fs = \<lparr>soKind = saveOptionTypedFields, soFields = fs, soNames = []\<rparr>"

definition UpdateFieldNames :: "string list \<Rightarrow> save_option" where
  "UpdateFieldNames names = \<lparr>soKind = saveOptionDynamicFields, soFields = [], soNames = names\<rparr>"

definition ForceInsert :: save_option where
  "ForceInsert = \<lparr>soKind = saveOptionForceInsert, soFields = [], soNames = []\<rparr>"

definition ForceUpdate :: save_option where
  "ForceUpdate = \<lparr>soKind = saveOptionForceUpdate, soFields = [], soNames = []\<rparr>"

definition invalidSaveArgument :: "string \<Rightarrow> go_error" where
  "invalidSaveArgument detail = query_error CategoryArgument CodeInvalidPlan (plain detail)"

definition setError :: "go_error \<Rightarrow> save_option_state \<Rightarrow> save_option_state" where
  "setError err state = (if ssErr state = None then state\<lparr>ssErr := Some err\<rparr> else state)"

definition setFieldMask :: "writable_field option list \<Rightarrow> string list \<Rightarrow> save_option_state \<Rightarrow> save_option_state" where
  "setFieldMask fs names state =
     (if ssFieldMaskSet state
      then setError (invalidSaveArgument ''an update field mask was supplied more than once'') state
      else state\<lparr>ssFieldMaskSet := True, ssTypedFields := fs, ssDynamicNames := names\<rparr>)"

definition option_apply :: "save_option \<Rightarrow> save_option_state \<Rightarrow> save_option_state" where
  "option_apply option state =
     (case soKind option of
        saveOptionTypedFields \<Rightarrow> setFieldMask (soFields option) [] state
      | saveOptionDynamicFields \<Rightarrow> setFieldMask [] (soNames option) state
      | saveOptionForceInsert \<Rightarrow>
          (if ssForceInsert state
           then setError (invalidSaveArgument ''force_insert was supplied more than once'') state
           else state)\<lparr>ssForceInsert := True\<rparr>
      | saveOptionForceUpdate \<Rightarrow>
          (if ssForceUpdate state
           then setError (invalidSaveArgument ''force_update was supplied more than once'') state
           else state)\<lparr>ssForceUpdate := True\<rparr>
      | _ \<Rightarrow> setError (invalidWritePlan ''unknown save option'') state)"

definition zeroSaveState :: save_option_state where
  "zeroSaveState = \<lparr>ssFieldMaskSet = False, ssTypedFields = [], ssDynamicNames = [], ssForceInsert = False,
     ssForceUpdate = False, ssErr = None\<rparr>"

fun apply_options :: "save_option_state \<Rightarrow> save_option list \<Rightarrow> go_error + save_option_state" where
  "apply_options state [] = Inr state"
| "apply_options state (option # options) =
     (if soKind option = saveOptionZero then Inl (invalidWritePlan ''save option is the zero value'')
      else apply_options (option_apply option state) options)"

section \<open>The field mask\<close>

definition primaryKeyUpdateField :: "string \<Rightarrow> go_error" where
  "primaryKeyUpdateField name =
     mutation_field_error CodePrimaryKeyUpdateField name ''primary key cannot be included in an update field mask''"

definition namedMetadataField :: "ir_model \<Rightarrow> string \<Rightarrow> ir_field option" where
  "namedMetadataField metadata name = find (\<lambda>field. fName field = name) (mFields metadata)"

text \<open>The two loops that fill the set \<open>selected\<close> of names, here a list.\<close>

fun resolve_typed :: "ir_model \<Rightarrow> string list \<Rightarrow> writable_field option list \<Rightarrow> go_error + string list" where
  "resolve_typed metadata selected [] = Inr selected"
| "resolve_typed metadata selected (typedField # rest) =
     (case typedField of
        None \<Rightarrow> Inl (mutation_field_error CodeUnknownField '''' ''typed update field is nil'')
      | Some typed \<Rightarrow>
        (case writableField typed of
           (_, Some err) \<Rightarrow> Inl err
         | (reference, None) \<Rightarrow>
           (case mutationField metadata reference of
              None \<Rightarrow> Inl (mutation_field_error CodeUnknownField (frName reference)
                            ''typed update field is not bound to descriptor metadata'')
            | Some field \<Rightarrow>
                if fPrimaryKey field then Inl (primaryKeyUpdateField (fName field))
                else resolve_typed metadata (fName field # selected) rest)))"

fun resolve_dynamic :: "ir_model \<Rightarrow> string list \<Rightarrow> string list \<Rightarrow> go_error + string list" where
  "resolve_dynamic metadata selected [] = Inr selected"
| "resolve_dynamic metadata selected (name # names) =
     (case namedMetadataField metadata name of
        None \<Rightarrow> Inl (mutation_field_error CodeUnknownField name
                      ''dynamic update field is not descriptor metadata'')
      | Some field \<Rightarrow>
          if fPrimaryKey field then Inl (primaryKeyUpdateField (fName field))
          else resolve_dynamic metadata (fName field # selected) names)"

definition resolveSaveFields :: "ir_model \<Rightarrow> save_option_state \<Rightarrow> go_error + ir_field list" where
  "resolveSaveFields metadata state =
     (if \<not> ssFieldMaskSet state then Inr []
      else
      (case resolve_typed metadata [] (ssTypedFields state) of
         Inl err \<Rightarrow> Inl err
       | Inr selected \<Rightarrow>
         (case resolve_dynamic metadata selected (ssDynamicNames state) of
            Inl err \<Rightarrow> Inl err
          | Inr selected \<Rightarrow> Inr (filter (\<lambda>field. fName field \<in> set selected) (mFields metadata)))))"

fun saveAssignments :: "'m write_capability \<Rightarrow> 'm \<Rightarrow> ir_field list \<Rightarrow> go_error + assignment list" where
  "saveAssignments wc v [] = Inr []"
| "saveAssignments wc v (field # rest) =
     (if fPrimaryKey field then Inl (primaryKeyUpdateField (fName field))
      else (case wcWriteFieldValue wc v field of
              (fieldValue, ok) \<Rightarrow>
                if \<not> ok \<or> \<not> mutationValueMatches field fieldValue
                then Inl (mutation_field_error CodeInvalidValue (fName field)
                       ''descriptor returned an invalid save field value'')
                else (case saveAssignments wc v rest of
                        Inl err \<Rightarrow> Inl err
                      | Inr assignments \<Rightarrow> Inr (orm_NewAssignment field fieldValue # assignments))))"

definition assignmentForField :: "assignment list \<Rightarrow> ir_field \<Rightarrow> assignment option" where
  "assignmentForField assignments field = find (\<lambda>a. asgField a = fieldReference field) assignments"

section \<open>The execution plan\<close>

datatype save_zero_rows_action = saveZeroRowsUnexpected | saveZeroRowsInsert | saveZeroRowsNotUpdated

record save_plan =
  spNoOp :: bool
  spHasUpdate :: bool
  spUpdate :: update_plan
  spHasInsert :: bool
  spInsert :: insert_plan
  spAssignGeneratedKey :: bool
  spZeroRows :: save_zero_rows_action
  spMissingRowCode :: query_code

definition zeroSavePlan :: save_plan where
  "zeroSavePlan = \<lparr>spNoOp = False, spHasUpdate = False,
     spUpdate = \<lparr>upTable = '''', upAssignments = [],
       upKeyField = \<lparr>frName = '''', frColumn = '''', frKind = QueryFieldKindOther '''', frNullable = False\<rparr>,
       upKeyValue = zeroValue\<rparr>,
     spHasInsert = False, spInsert = \<lparr>ipTable = '''', ipAssignments = []\<rparr>,
     spAssignGeneratedKey = False, spZeroRows = saveZeroRowsUnexpected, spMissingRowCode = QueryCodeOther ''''\<rparr>"

definition force_flags_error :: "string \<Rightarrow> go_error" where
  "force_flags_error detail = query_error CategoryArgument CodeMutuallyExclusiveForceFlags (plain detail)"

definition insert_assignments :: "ir_model \<Rightarrow> assignment \<Rightarrow> assignment list \<Rightarrow> assignment list" where
  "insert_assignments metadata keyAssignment writableAssignments =
     List.map_filter (\<lambda>field. if fPrimaryKey field then Some keyAssignment
        else assignmentForField writableAssignments field) (mFields metadata)"

text \<open>The part after the options and the mask are resolved.\<close>

definition plan_save :: "'m write_capability \<Rightarrow> ir_model \<Rightarrow> ir_field \<Rightarrow> 'm \<Rightarrow> save_option_state
    \<Rightarrow> ir_field list \<Rightarrow> go_error + save_plan" where
  "plan_save wc metadata primaryKey v state selectedFields =
     (case wcPrimaryKey wc v of
        (keyValue, keyPresent) \<Rightarrow>
        if \<not> mutationValueMatches primaryKey keyValue \<or> IsNull keyValue then Inl invalid_key_error
        else if \<not> keyPresent \<and> vInteger keyValue \<noteq> 0
        then Inl (invalidWritePlan ''model has a non-zero primary key value without explicit primary-key presence'')
        else
        (case saveAssignments wc v (if ssFieldMaskSet state then selectedFields else nonPrimaryFields metadata) of
           Inl err \<Rightarrow> Inl err
         | Inr writableAssignments \<Rightarrow>
           if \<not> keyPresent
           then
             (if ssForceUpdate state \<or> ssFieldMaskSet state
              then Inl (QueryError CategoryModelState CodeForceUpdateWithoutPrimaryKey (fName primaryKey) ''''
                     (plain ''an update-only save requires explicit primary-key presence'') None)
              else Inr (zeroSavePlan\<lparr>spHasInsert := True,
                     spInsert := NewInsertPlan (mDBTable metadata) writableAssignments,
                     spAssignGeneratedKey := True\<rparr>))
           else
             (let insertAssignments =
                    insert_assignments metadata (orm_NewAssignment primaryKey keyValue) writableAssignments in
              if ssForceInsert state
              then Inr (zeroSavePlan\<lparr>spHasInsert := True,
                     spInsert := NewInsertPlan (mDBTable metadata) insertAssignments\<rparr>)
              else
                (let updateOnly = (ssForceUpdate state \<or> ssFieldMaskSet state) in
                 Inr \<lparr>spNoOp = False, spHasUpdate = True,
                    spUpdate = NewUpdatePlan (mDBTable metadata) writableAssignments
                      (fieldReference primaryKey) keyValue,
                    spHasInsert = \<not> updateOnly,
                    spInsert = NewInsertPlan (mDBTable metadata) insertAssignments,
                    spAssignGeneratedKey = False,
                    spZeroRows = (if updateOnly then saveZeroRowsNotUpdated else saveZeroRowsInsert),
                    spMissingRowCode =
                      (if updateOnly
                       then (if ssForceUpdate state then CodeForceUpdateMissingRow else CodeUpdateFieldsMissingRow)
                       else QueryCodeOther '''')\<rparr>))))"

definition buildSaveExecutionPlan :: "'m write_capability \<Rightarrow> ir_model \<Rightarrow> ir_field \<Rightarrow> 'm \<Rightarrow> save_option list
    \<Rightarrow> go_error + save_plan" where
  "buildSaveExecutionPlan wc metadata primaryKey v options =
     (case apply_options zeroSaveState options of
        Inl err \<Rightarrow> Inl err
      | Inr state \<Rightarrow>
        (case ssErr state of
           Some err \<Rightarrow> Inl err
         | None \<Rightarrow>
           if ssForceInsert state \<and> ssForceUpdate state
           then Inl (force_flags_error ''force_insert and force_update cannot both be true'')
           else
           (case resolveSaveFields metadata state of
              Inl err \<Rightarrow> Inl err
            | Inr selectedFields \<Rightarrow>
              if ssFieldMaskSet state \<and> selectedFields = [] then Inr (zeroSavePlan\<lparr>spNoOp := True\<rparr>)
              else if ssForceInsert state \<and> ssFieldMaskSet state
              then Inl (force_flags_error ''force_insert cannot be combined with a non-empty update field mask'')
              else plan_save wc metadata primaryKey v state selectedFields)))"

section \<open>Execution\<close>

text \<open>The insert at the end of \<open>executeSavePlan\<close>; the model behind the pointer is returned.\<close>

definition save_insert :: "'w mutator \<Rightarrow> 'm write_capability \<Rightarrow> 'm \<Rightarrow> save_plan \<Rightarrow> 'w
    \<Rightarrow> (go_error option \<times> 'm) \<times> 'w" where
  "save_insert be wc v plan w =
     (if \<not> spHasInsert plan then ((Some (invalidWritePlan ''save execution plan has no operation''), v), w)
      else (case muInsert be (spInsert plan) w of
              (Inl err, w') \<Rightarrow> ((Some err, v), w')
            | (Inr lastInsertID, w') \<Rightarrow>
                ((None, if spAssignGeneratedKey plan then wcSetPrimaryKey wc lastInsertID v else v), w')))"

definition executeSavePlan :: "'w mutator \<Rightarrow> 'm write_capability \<Rightarrow> 'm \<Rightarrow> save_plan \<Rightarrow> 'w
    \<Rightarrow> (go_error option \<times> 'm) \<times> 'w" where
  "executeSavePlan be wc v plan w =
     (if spNoOp plan then ((None, v), w)
      else if spHasUpdate plan
      then (case muUpdate be (spUpdate plan) w of
              (Inl err, w') \<Rightarrow> ((Some err, v), w')
            | (Inr rowsAffected, w') \<Rightarrow>
                if rowsAffected = 1 then ((None, v), w')
                else if rowsAffected = 0 \<and> spZeroRows plan = saveZeroRowsInsert then save_insert be wc v plan w'
                else if rowsAffected = 0 \<and> spZeroRows plan = saveZeroRowsNotUpdated
                then ((Some (query_error CategoryNotUpdated (spMissingRowCode plan)
                         (plain ''save update did not affect an existing row'')), v), w')
                else ((Some (unexpectedRows ''save update'' rowsAffected), v), w'))
      else save_insert be wc v plan w)"

definition Save :: "('r, 'm) model_descriptor option \<Rightarrow> 'w go_context \<Rightarrow> 'w mutator option \<Rightarrow> 'm option
    \<Rightarrow> save_option list \<Rightarrow> 'w \<Rightarrow> (go_error option \<times> 'm option) \<times> 'w" where
  "Save descriptor ctx backend pointer options w =
     (case writeConfiguration ctx backend descriptor w of
        (Inl err, w1) \<Rightarrow> ((Some err, pointer), w1)
      | (Inr (wc, metadata, primaryKey), w1) \<Rightarrow>
        (case pointer of
           None \<Rightarrow> ((Some (invalidWritePlan ''save model pointer is nil''), pointer), w1)
         | Some v \<Rightarrow>
           (case buildSaveExecutionPlan wc metadata primaryKey (wcCloneWriteModel wc v) options of
              Inl err \<Rightarrow> ((Some err, pointer), w1)
            | Inr plan \<Rightarrow>
              (case executeSavePlan (the backend) wc v plan w1 of
                 ((err, v'), w2) \<Rightarrow> ((err, Some v'), w2)))))"


section \<open>Options, whatever their order\<close>

definition mask_option :: "save_option \<Rightarrow> bool" where
  "mask_option opt \<longleftrightarrow> soKind opt = saveOptionTypedFields \<or> soKind opt = saveOptionDynamicFields"

abbreviation options_of :: "save_option_kind \<Rightarrow> save_option list \<Rightarrow> save_option list" where
  "options_of k os \<equiv> filter (\<lambda>opt. soKind opt = k) os"

text \<open>Every option is a known one, and at most one mask and one of each flag are given.\<close>

definition options_clean :: "save_option list \<Rightarrow> bool" where
  "options_clean os \<longleftrightarrow>
     (\<forall>opt \<in> set os. mask_option opt \<or> soKind opt = saveOptionForceInsert \<or> soKind opt = saveOptionForceUpdate)
     \<and> length (filter mask_option os) \<le> 1 \<and> length (options_of saveOptionForceInsert os) \<le> 1
     \<and> length (options_of saveOptionForceUpdate os) \<le> 1"

definition option_fields :: "save_option \<Rightarrow> writable_field option list" where
  "option_fields opt = (if soKind opt = saveOptionTypedFields then soFields opt else [])"

definition option_names :: "save_option \<Rightarrow> string list" where
  "option_names opt = (if soKind opt = saveOptionDynamicFields then soNames opt else [])"

text \<open>The state clean options lead to.\<close>

definition options_state :: "save_option list \<Rightarrow> save_option_state" where
  "options_state os =
     \<lparr>ssFieldMaskSet = list_ex mask_option os,
      ssTypedFields = concat (map option_fields (filter mask_option os)),
      ssDynamicNames = concat (map option_names (filter mask_option os)),
      ssForceInsert = list_ex (\<lambda>opt. soKind opt = saveOptionForceInsert) os,
      ssForceUpdate = list_ex (\<lambda>opt. soKind opt = saveOptionForceUpdate) os,
      ssErr = None\<rparr>"

lemma setError_sticky [simp]: "\<exists>e'. ssErr (setError e st) = Some e'"
  by (simp add: setError_def)

lemma option_apply_sticky: "ssErr st = Some e \<Longrightarrow> \<exists>e'. ssErr (option_apply opt st) = Some e'"
  by (auto simp: option_apply_def setFieldMask_def setError_def split: save_option_kind.splits)

lemma apply_options_sticky: "ssErr st = Some e \<Longrightarrow> apply_options st os = Inr st' \<Longrightarrow> \<exists>e'. ssErr st' = Some e'"
proof (induction os arbitrary: st e)
  case (Cons opt os)
  then show ?case using option_apply_sticky[OF Cons.prems(1), of opt] by (auto split: if_splits)
qed simp

text \<open>Adding an option at the end of the ones applied so far.\<close>

lemma options_state_snoc:
  assumes "options_clean os" and "soKind opt \<noteq> saveOptionZero"
  shows "if options_clean (os @ [opt]) then option_apply opt (options_state os) = options_state (os @ [opt])
    else ssErr (option_apply opt (options_state os)) \<noteq> None"
proof (cases "soKind opt")
  case saveOptionTypedFields
  then show ?thesis using assms
    by (cases "filter mask_option os")
      (auto simp: options_clean_def mask_option_def option_apply_def setFieldMask_def options_state_def
        option_fields_def option_names_def list_ex_iff filter_empty_conv dest!: filter_eq_ConsD)
next
  case saveOptionDynamicFields
  then show ?thesis using assms
    by (cases "filter mask_option os")
      (auto simp: options_clean_def mask_option_def option_apply_def setFieldMask_def options_state_def
        option_fields_def option_names_def list_ex_iff filter_empty_conv dest!: filter_eq_ConsD)
next
  case saveOptionForceInsert
  then show ?thesis using assms
    by (cases "options_of saveOptionForceInsert os")
      (auto simp: options_clean_def mask_option_def option_apply_def options_state_def list_ex_iff
        filter_empty_conv setError_def dest!: filter_eq_ConsD)
next
  case saveOptionForceUpdate
  then show ?thesis using assms
    by (cases "options_of saveOptionForceUpdate os")
      (auto simp: options_clean_def mask_option_def option_apply_def options_state_def list_ex_iff
        filter_empty_conv setError_def dest!: filter_eq_ConsD)
qed (use assms in \<open>auto simp: options_clean_def mask_option_def option_apply_def\<close>)

lemma options_clean_prefix: "options_clean (os @ os') \<Longrightarrow> options_clean os"
  by (auto simp: options_clean_def)

lemma apply_options_clean:
  assumes "options_clean done"
  shows "(\<exists>st. apply_options (options_state done) os = Inr st \<and> ssErr st = None) \<longleftrightarrow> options_clean (done @ os)"
    and "options_clean (done @ os) \<Longrightarrow> apply_options (options_state done) os = Inr (options_state (done @ os))"
  using assms
proof (induction os arbitrary: "done")
  case Nil
  { case 1 then show ?case by (simp add: options_state_def) }
  { case 2 then show ?case by simp }
next
  case (Cons opt os)
  show "(\<exists>st. apply_options (options_state done) (opt # os) = Inr st \<and> ssErr st = None) \<longleftrightarrow> options_clean (done @ opt # os)"
    if "options_clean done" for "done"
  proof (cases "soKind opt = saveOptionZero")
    case True
    then show ?thesis by (auto simp: options_clean_def mask_option_def)
  next
    case False
    note snoc = options_state_snoc[OF that False]
    show ?thesis
    proof (cases "options_clean (done @ [opt])")
      case True
      with snoc Cons.IH(1)[OF True] False show ?thesis by simp
    next
      case dirty: False
      then have "\<not> options_clean (done @ opt # os)" using options_clean_prefix[of "done @ [opt]" os] by auto
      with dirty snoc False show ?thesis by (auto dest: apply_options_sticky)
    qed
  qed
  show "apply_options (options_state done) (opt # os) = Inr (options_state (done @ opt # os))"
    if "options_clean done" "options_clean (done @ opt # os)" for "done"
  proof -
    have c: "options_clean (done @ [opt])" using that(2) options_clean_prefix[of "done @ [opt]" os] by simp
    have nz: "soKind opt \<noteq> saveOptionZero" using that(2) by (auto simp: options_clean_def mask_option_def)
    from options_state_snoc[OF that(1) nz] c Cons.IH(2)[of "done @ [opt]"] that(2) nz show ?thesis by simp
  qed
qed

lemma options_state_Nil: "options_state [] = zeroSaveState"
  by (simp add: options_state_def zeroSaveState_def)

text \<open>The plan as a function of the options: clean options, and their state.\<close>

definition plan_of_state :: "'m write_capability \<Rightarrow> ir_model \<Rightarrow> ir_field \<Rightarrow> 'm \<Rightarrow> save_option_state \<Rightarrow> go_error + save_plan" where
  "plan_of_state wc metadata primaryKey v state =
     (if ssForceInsert state \<and> ssForceUpdate state
      then Inl (force_flags_error ''force_insert and force_update cannot both be true'')
      else
      (case resolveSaveFields metadata state of
         Inl err \<Rightarrow> Inl err
       | Inr selectedFields \<Rightarrow>
         if ssFieldMaskSet state \<and> selectedFields = [] then Inr (zeroSavePlan\<lparr>spNoOp := True\<rparr>)
         else if ssForceInsert state \<and> ssFieldMaskSet state
         then Inl (force_flags_error ''force_insert cannot be combined with a non-empty update field mask'')
         else plan_save wc metadata primaryKey v state selectedFields))"

lemma buildSaveExecutionPlan_Inr:
  "buildSaveExecutionPlan wc metadata primaryKey v os = Inr plan \<longleftrightarrow>
     options_clean os \<and> plan_of_state wc metadata primaryKey v (options_state os) = Inr plan"
proof -
  have "options_clean []" by (simp add: options_clean_def)
  note a = apply_options_clean[OF this, of os, unfolded options_state_Nil append_Nil]
  show ?thesis
  proof (cases "options_clean os")
    case True
    with a(2) show ?thesis
      by (simp add: buildSaveExecutionPlan_def plan_of_state_def options_state_def split del: if_split)
  next
    case False
    with a(1) show ?thesis
      by (auto simp: buildSaveExecutionPlan_def split: sum.splits option.splits)
  qed
qed

lemma single_perm: "mset xs = mset ys \<Longrightarrow> length xs \<le> 1 \<Longrightarrow> xs = ys"
  by (cases xs; cases ys) (auto dest: mset_eq_length)

text \<open>
  the order in which options are passed to \<open>Save\<close> does not matter: reordered options build the same
  plan, or none.
\<close>
theorem save_options_order_independent:
  assumes "mset options = mset options'"
  shows "buildSaveExecutionPlan wc metadata primaryKey v options = Inr plan \<longleftrightarrow>
    buildSaveExecutionPlan wc metadata primaryKey v options' = Inr plan"
proof -
  have f: "mset (filter P options) = mset (filter P options')" for P using assms by (metis mset_filter)
  have len: "length (filter P options) = length (filter P options')" for P using f mset_eq_length by blast
  have st: "set options = set options'" using assms mset_eq_setD by blast
  have clean: "options_clean options \<longleftrightarrow> options_clean options'"
    by (simp add: options_clean_def len st)
  have "options_state options = options_state options'" if "options_clean options"
    using that single_perm[OF f[of mask_option]] by (simp add: options_clean_def options_state_def list_ex_iff st)
  with clean show ?thesis by (auto simp: buildSaveExecutionPlan_Inr)
qed

theorem save_options_order_independent_witness:
  "buildSaveExecutionPlan \<lparr>wcPrimaryKey = \<lambda>n. (Integer n, True), wcSetPrimaryKey = \<lambda>k n. k, wcClearPrimaryKey = \<lambda>n. 0,
     wcCloneWriteModel = \<lambda>n. n, wcWriteFieldValue = \<lambda>n f. (Integer n, True)\<rparr>
     \<lparr>mName = '''', mGoName = '''', mDBTable = '''', mFields = []\<rparr> zeroField 0 [ForceUpdate, UpdateFields []]
   = Inr (zeroSavePlan\<lparr>spNoOp := True\<rparr>)"
proof -
  have "mset [ForceUpdate, UpdateFields []] = mset [UpdateFields [], ForceUpdate]" by simp
  from save_options_order_independent[OF this] show ?thesis
    by (simp add: buildSaveExecutionPlan_def UpdateFields_def ForceUpdate_def option_apply_def setFieldMask_def
        zeroSaveState_def resolveSaveFields_def)
qed

end
