(* ===== verification/Sql_Reading.thy ===== *)
theory Sql_Reading
  imports Sqlite_Compiler "HOL-Library.Sublist"
begin

text \<open>
  What the SQL of \<open>Sqlite_Compiler\<close> means to a reader: a scanner with the lexical rules of SQL
  that matter for safety (double-quoted identifiers and single-quoted literals, in which the
  quote is written twice, and everything else a bare symbol), the token sequence each plan
  stands for, and the lemmas that the compiled text scans to exactly those tokens, binds one
  argument per placeholder, and never carries a value.
\<close>

section \<open>The scanner\<close>

datatype sql_token = Sym char | Ident string | Literal string

definition apostrophe :: char where
  "apostrophe = CHR 0x27"

text \<open>The body of a quoted token up to its closing quote, and what follows it.\<close>

fun unquote :: "char \<Rightarrow> string \<Rightarrow> (string \<times> string) option" where
  "unquote q [] = None"
| "unquote q (c # cs) =
     (if c \<noteq> q then map_option (\<lambda>(body, rest). (c # body, rest)) (unquote q cs)
      else (case cs of
              [] \<Rightarrow> Some ([], [])
            | d # ds \<Rightarrow>
                if d = q then map_option (\<lambda>(body, rest). (q # body, rest)) (unquote q ds)
                else Some ([], d # ds)))"

lemma unquote_length: "unquote q cs = Some (body, rest) \<Longrightarrow> length rest < length cs"
proof (induction q cs arbitrary: body rest rule: unquote.induct)
  case (2 q c cs)
  then show ?case by (fastforce split: if_splits list.splits)
qed simp

function lex :: "string \<Rightarrow> sql_token list option" where
  "lex [] = Some []"
| "lex (c # cs) =
     (if c = quote_char then
        (case unquote quote_char cs of
           None \<Rightarrow> None
         | Some (body, rest) \<Rightarrow> map_option ((#) (Ident body)) (lex rest))
      else if c = apostrophe then
        (case unquote apostrophe cs of
           None \<Rightarrow> None
         | Some (body, rest) \<Rightarrow> map_option ((#) (Literal body)) (lex rest))
      else map_option ((#) (Sym c)) (lex cs))"
  by pat_completeness auto
termination
  by (relation "measure length") (auto dest: unquote_length simp: less_Suc_eq)

definition syms :: "string \<Rightarrow> sql_token list" where
  "syms s = map Sym s"

lemma syms_Nil: "syms [] = []"
  by (simp add: syms_def)

text \<open>Prefixing the tokens of a scan that may fail.\<close>

definition emit :: "sql_token list \<Rightarrow> sql_token list option \<Rightarrow> sql_token list option" where
  "emit toks scan = map_option ((@) toks) scan"

lemma emit_simps [simp]:
  "emit [] scan = scan" "emit xs (emit ys scan) = emit (xs @ ys) scan"
  "emit xs (Some ys) = Some (xs @ ys)" "emit xs None = None"
  by (cases scan; simp add: emit_def)+

definition bare :: "string \<Rightarrow> bool" where
  "bare s \<longleftrightarrow> quote_char \<notin> set s \<and> apostrophe \<notin> set s"

definition continues :: "string \<Rightarrow> bool" where
  "continues s \<longleftrightarrow> (case s of [] \<Rightarrow> True | c # _ \<Rightarrow> c \<noteq> quote_char \<and> c \<noteq> apostrophe)"

lemma continues_simps [simp]:
  "continues []" "continues (c # s) \<longleftrightarrow> c \<noteq> quote_char \<and> c \<noteq> apostrophe"
  by (simp_all add: continues_def)

lemma continues_append: "s \<noteq> [] \<Longrightarrow> continues (s @ t) = continues s"
  by (cases s) auto

lemma quote_neq [simp]: "quote_char \<noteq> apostrophe" "apostrophe \<noteq> quote_char"
  by (simp_all add: quote_char_def apostrophe_def)

lemma lex_bare: "bare s \<Longrightarrow> lex (s @ t) = emit (syms s) (lex t)"
  by (cases "lex t"; induction s) (auto simp: bare_def syms_def emit_def)

lemma unquote_doubled:
  assumes "\<not> (\<exists>u. t = q # u)"
  shows "unquote q (replace_byte q [q, q] s @ q # t) = Some (s, t)"
proof (induction s)
  case Nil
  show ?case using assms by (cases t) auto
next
  case (Cons c s)
  then show ?case by (simp add: replace_byte_Cons)
qed

text \<open>A quoted identifier scans to the identifier itself, whatever bytes it contains.\<close>

lemma lex_quoted:
  assumes "quoteIdentifier name = Inr quoted" and "continues t"
  shows "lex (quoted @ t) = emit [Ident name] (lex t)"
proof -
  have q: "quoted = quote_char # replace_byte quote_char [quote_char, quote_char] name @ [quote_char]"
    using assms(1) by (simp add: quoteIdentifier_def split: if_splits)
  have "\<not> (\<exists>u. t = quote_char # u)" using assms(2) by auto
  then show ?thesis by (cases "lex t") (simp_all add: q unquote_doubled emit_def)
qed

definition quotable :: "string \<Rightarrow> bool" where
  "quotable name \<longleftrightarrow> name \<noteq> '''' \<and> CHR 0x00 \<notin> set name"

lemma quoteIdentifier_Inr_iff: "(\<exists>q. quoteIdentifier name = Inr q) \<longleftrightarrow> quotable name"
  by (auto simp: quoteIdentifier_def quotable_def)

lemma quoteIdentifier_nonempty: "quoteIdentifier name = Inr q \<Longrightarrow> q \<noteq> []"
  by (auto simp: quoteIdentifier_def split: if_splits)

lemma quoteIdentifier_inj:
  assumes "quoteIdentifier a = Inr q" and "quoteIdentifier b = Inr q"
  shows "a = b"
  using lex_quoted[OF assms(1), of "[]"] lex_quoted[OF assms(2), of "[]"] by simp

text \<open>
  an identifier is quoted exactly when it is nonempty and free of NUL, and the quoted text,
  wherever it stands between bare SQL, scans as that one identifier: no name can close the
  quotes early and continue as SQL.
\<close>
theorem quoteIdentifier_is_one_token:
  "case quoteIdentifier name of
     Inl err \<Rightarrow> name = '''' \<or> CHR 0x00 \<in> set name
   | Inr quoted \<Rightarrow> name \<noteq> '''' \<and> CHR 0x00 \<notin> set name \<and>
       lex (''SELECT '' @ quoted @ '' FROM t'')
         = Some (syms ''SELECT '' @ Ident name # syms '' FROM t'')"
proof (cases "quoteIdentifier name")
  case (Inl err)
  then show ?thesis by (auto simp: quoteIdentifier_def split: if_splits)
next
  case (Inr quoted)
  have b: "bare ''SELECT ''" "bare '' FROM t''" "continues '' FROM t''"
    by (simp_all add: bare_def quote_char_def apostrophe_def)
  have "lex '' FROM t'' = Some (syms '' FROM t'')"
    using lex_bare[OF b(2), of "[]"] by simp
  then have "lex (''SELECT '' @ quoted @ '' FROM t'')
      = Some (syms ''SELECT '' @ [Ident name] @ syms '' FROM t'')"
    by (simp only: lex_bare[OF b(1)] lex_quoted[OF Inr b(3)] emit_simps append.assoc)
  moreover have "quotable name" using Inr quoteIdentifier_Inr_iff by blast
  ultimately show ?thesis using Inr by (simp add: quotable_def)
qed

section \<open>The tokens of a select plan\<close>

text \<open>\<open>joined sep parts\<close> puts \<open>sep\<close> between the parts.\<close>

fun joined :: "'a list \<Rightarrow> 'a list list \<Rightarrow> 'a list" where
  "joined sep [] = []"
| "joined sep [p] = p"
| "joined sep (p # q # ps) = p @ sep @ joined sep (q # ps)"

definition rejoined :: "bool \<Rightarrow> 'a list \<Rightarrow> 'a list list \<Rightarrow> 'a list" where
  "rejoined first sep parts = (if first \<or> parts = [] then [] else sep) @ joined sep parts"

lemma rejoined_simps [simp]:
  "rejoined first sep [] = []"
  "rejoined first sep (p # ps) = (if first then [] else sep) @ p @ rejoined False sep ps"
  by (cases ps; auto simp: rejoined_def)+

lemma rejoined_True: "rejoined True sep parts = joined sep parts"
  by (simp add: rejoined_def)

fun condition_tokens :: "query_condition \<Rightarrow> sql_token list" where
  "condition_tokens c = [Ident (frColumn (coField c))] @
     (case coLookup c of
        LookupExact \<Rightarrow> syms '' = ?''
      | LookupIContains \<Rightarrow> syms '' LIKE ? ESCAPE '' @ [Literal [backslash]]
      | LookupIsNull \<Rightarrow> syms (if vBoolean (coValue c) then '' IS NULL'' else '' IS NOT NULL'')
      | LookupOther _ \<Rightarrow> [])"

definition condition_arguments :: "query_condition \<Rightarrow> sql_value list" where
  "condition_arguments c =
     (case coLookup c of
        LookupExact \<Rightarrow> (case DatabaseValue (coValue c) of Inl _ \<Rightarrow> [] | Inr v \<Rightarrow> [v])
      | LookupIContains \<Rightarrow> [SqlText (''%'' @ escapeLike (vText (coValue c)) @ ''%'')]
      | _ \<Rightarrow> [])"

definition ordering_tokens :: "query_ordering \<Rightarrow> sql_token list" where
  "ordering_tokens item = [Ident (frColumn (orField item))] @
     syms (if orDirection item = Descending then '' DESC'' else '' ASC'')"

definition select_tokens :: "select_plan \<Rightarrow> sql_token list" where
  "select_tokens plan =
     syms ''SELECT '' @ joined (syms '', '') (map (\<lambda>c. [Ident (frColumn c)]) (plColumns plan))
     @ syms '' FROM '' @ [Ident (plTable plan)]
     @ (if plConditions plan = [] then []
        else syms '' WHERE '' @ joined (syms '' AND '') (map condition_tokens (plConditions plan)))
     @ (if plOrderings plan = [] then []
        else syms '' ORDER BY '' @ joined (syms '', '') (map ordering_tokens (plOrderings plan)))
     @ (if plLimit plan = None then [] else syms '' LIMIT ?'')"

definition select_arguments :: "select_plan \<Rightarrow> sql_value list" where
  "select_arguments plan = concat (map condition_arguments (plConditions plan))
     @ (case plLimit plan of None \<Rightarrow> [] | Some limit \<Rightarrow> [SqlInt limit])"

definition placeholders :: "sql_token list \<Rightarrow> nat" where
  "placeholders toks = count_list toks (Sym (CHR ''?''))"

text \<open>Which plans compile.\<close>

definition condition_supported :: "query_condition \<Rightarrow> bool" where
  "condition_supported c =
     (case coLookup c of
        LookupExact \<Rightarrow> valueMatchesField (vKind (coValue c)) (frKind (coField c))
      | LookupIContains \<Rightarrow> frKind (coField c) = FieldString \<and> vKind (coValue c) = ValueString
      | LookupIsNull \<Rightarrow> vKind (coValue c) = ValueBoolean
      | LookupOther _ \<Rightarrow> False)"

definition select_supported :: "select_plan \<Rightarrow> bool" where
  "select_supported plan \<longleftrightarrow>
     quotable (plTable plan) \<and> plColumns plan \<noteq> []
     \<and> (\<forall>column \<in> set (plColumns plan). quotable (frColumn column))
     \<and> (\<forall>c \<in> set (plConditions plan). coField c \<in> set (plColumns plan) \<and> condition_supported c)
     \<and> (\<forall>item \<in> set (plOrderings plan). orField item \<in> set (plColumns plan)
          \<and> (orDirection item = Ascending \<or> orDirection item = Descending))"

lemma containsField_iff: "containsField columns candidate \<longleftrightarrow> candidate \<in> set columns"
  by (auto simp: containsField_def list_ex_iff)

lemma quotes_bare:
  "bare [] = True"
  "bare (c # s) \<longleftrightarrow> c \<noteq> quote_char \<and> c \<noteq> apostrophe \<and> bare s"
  by (auto simp: bare_def)

lemma bare_SQL:
  "bare '', ''" "bare ''SELECT ''" "bare '' FROM ''" "bare '' WHERE ''" "bare '' AND ''"
  "bare '' ORDER BY ''" "bare '' LIMIT ?''" "bare '' ASC''" "bare '' DESC''" "bare '' = ?''"
  "bare '' IS NULL''" "bare '' IS NOT NULL''" "bare '' LIKE ? ESCAPE ''"
  "bare ''INSERT INTO ''" "bare '' DEFAULT VALUES''" "bare '' (''" "bare '') VALUES (''"
  "bare '')''" "bare ''?''" "bare ''UPDATE ''" "bare '' SET ''" "bare ''DELETE FROM ''"
  by (simp_all add: quotes_bare quote_char_def apostrophe_def)

text \<open>A bare text that starts a continuation: what may follow a quoted identifier.\<close>

lemma continues_bare: "bare s \<Longrightarrow> s \<noteq> [] \<Longrightarrow> continues (s @ t)"
  by (cases s) (auto simp: quotes_bare)

lemma compileCondition_lex:
  assumes "compileCondition c = Inr (sql, arguments)" and "continues t"
  shows "emit [Ident (frColumn (coField c))] (lex (sql @ t))
           = emit (condition_tokens c) (lex t)"
    and "continues (sql @ u)" and "arguments = condition_arguments c"
    and "condition_supported c"
proof -
  have esc: "lex ([CHR 0x27, backslash, CHR 0x27] @ t) = emit [Literal [backslash]] (lex t)"
    using assms(2) by (cases t; cases "lex t") (auto simp: quote_char_def apostrophe_def backslash_def)
  note c = assms(1)[unfolded compileCondition_def Let_def]
  show "emit [Ident (frColumn (coField c))] (lex (sql @ t))
           = emit (condition_tokens c) (lex t)"
    using c by (auto simp del: append_Cons simp: lex_bare bare_SQL esc
        append.assoc value_string_def value_boolean_def
        split: lookup.splits if_splits sum.splits)
  show "continues (sql @ u)"
    using c by (auto simp: value_string_def value_boolean_def quote_char_def apostrophe_def
        split: lookup.splits if_splits sum.splits)
  show "arguments = condition_arguments c" "condition_supported c"
    using c by (auto simp: value_string_def value_boolean_def condition_arguments_def condition_supported_def
        split: lookup.splits if_splits sum.splits)
qed

lemma compile_columns_lex:
  "compile_columns first columns = Inr s \<Longrightarrow> continues t \<Longrightarrow>
     lex (s @ t) = emit (rejoined first (syms '', '') (map (\<lambda>c. [Ident (frColumn c)]) columns)) (lex t)
     \<and> (\<not> first \<longrightarrow> continues (s @ t))"
proof (induction columns arbitrary: first s)
  case Nil
  then show ?case by simp
next
  case (Cons column columns)
  from Cons.prems(1) obtain quoted rest where
    q: "quoteIdentifier (frColumn column) = Inr quoted" "compile_columns False columns = Inr rest"
    and s: "s = (if first then '''' else '', '') @ quoted @ rest"
    by (auto split: sum.splits)
  note IH = Cons.IH[OF q(2) Cons.prems(2)]
  have "lex (quoted @ rest @ t) = emit ([Ident (frColumn column)] @
      rejoined False (syms '', '') (map (\<lambda>c. [Ident (frColumn c)]) columns)) (lex t)"
    using IH by (subst lex_quoted[OF q(1)]) (simp_all del: append_Cons)
  then show ?case
    by (cases first) (simp_all del: append_Cons add: s lex_bare bare_SQL continues_bare append.assoc)
qed

lemma compile_conditions_lex:
  "compile_conditions columns first conditions = Inr (s, arguments) \<Longrightarrow> continues t \<Longrightarrow>
     lex (s @ t) = emit (rejoined first (syms '' AND '') (map condition_tokens conditions)) (lex t)
     \<and> (\<not> first \<longrightarrow> continues (s @ t)) \<and> arguments = concat (map condition_arguments conditions)"
proof (induction conditions arbitrary: first s arguments)
  case Nil
  then show ?case by simp
next
  case (Cons c conditions)
  from Cons.prems(1) obtain quoted sql as rest bs where
    q: "quoteIdentifier (frColumn (coField c)) = Inr quoted"
      "compileCondition c = Inr (sql, as)" "compile_conditions columns False conditions = Inr (rest, bs)"
    and s: "s = (if first then '''' else '' AND '') @ quoted @ sql @ rest" "arguments = as @ bs"
    by (auto split: sum.splits if_splits prod.splits)
  note IH = Cons.IH[OF q(3) Cons.prems(2)]
  have "continues (rest @ t)" using IH by simp
  note cond = compileCondition_lex[OF q(2) this]
  have "lex (quoted @ sql @ rest @ t) = emit (condition_tokens c @
      rejoined False (syms '' AND '') (map condition_tokens conditions)) (lex t)"
    using IH cond(1)
    by (subst lex_quoted[OF q(1)]) (simp_all add: cond(2) del: condition_tokens.simps)
  moreover have "arguments = concat (map condition_arguments (c # conditions))"
    using IH s(2) cond(3) by simp
  ultimately show ?case
    by (cases first)
      (simp_all del: append_Cons condition_tokens.simps
        add: s lex_bare bare_SQL continues_bare append.assoc)
qed

lemma compile_orderings_lex:
  "compile_orderings columns first orderings = Inr s \<Longrightarrow> continues t \<Longrightarrow>
     lex (s @ t) = emit (rejoined first (syms '', '') (map ordering_tokens orderings)) (lex t)
     \<and> (\<not> first \<longrightarrow> continues (s @ t))"
proof (induction orderings arbitrary: first s)
  case Nil
  then show ?case by simp
next
  case (Cons item orderings)
  from Cons.prems(1) obtain quoted rest where
    q: "quoteIdentifier (frColumn (orField item)) = Inr quoted"
      "compile_orderings columns False orderings = Inr rest"
    and s: "s = (if first then '''' else '', '') @ quoted
                 @ (if orDirection item = Descending then '' DESC'' else '' ASC'') @ rest"
    by (auto split: sum.splits if_splits order_direction.splits)
  note IH = Cons.IH[OF q(2) Cons.prems(2)]
  have "continues ((if orDirection item = Descending then '' DESC'' else '' ASC'') @ rest @ t)"
    by (auto simp: quote_char_def apostrophe_def)
  then have "lex (quoted @ (if orDirection item = Descending then '' DESC'' else '' ASC'') @ rest @ t)
      = emit (ordering_tokens item @ rejoined False (syms '', '') (map ordering_tokens orderings)) (lex t)"
    using IH by (simp del: append_Cons add: lex_quoted[OF q(1)] ordering_tokens_def[of item] lex_bare bare_SQL)
  then show ?case
    by (cases first) (simp_all del: append_Cons add: s lex_bare bare_SQL continues_bare append.assoc)
qed

lemmas statement_lex =
  compile_columns_lex compile_conditions_lex compile_orderings_lex

lemma placeholders_simps [simp]:
  "placeholders [] = 0" "placeholders (Sym c # ts) = (if c = CHR ''?'' then 1 else 0) + placeholders ts"
  "placeholders (Ident s # ts) = placeholders ts" "placeholders (Literal s # ts) = placeholders ts"
  by (simp_all add: placeholders_def)

lemma placeholders_append [simp]: "placeholders (xs @ ys) = placeholders xs + placeholders ys"
  by (simp add: placeholders_def)

lemma placeholders_joined:
  "placeholders sep = 0 \<Longrightarrow> placeholders (joined sep parts) = sum_list (map placeholders parts)"
  by (induction sep parts rule: joined.induct) auto

lemma condition_placeholders:
  "condition_supported c \<Longrightarrow> placeholders (condition_tokens c) = length (condition_arguments c)"
  by (auto simp: condition_supported_def condition_arguments_def valueMatchesField_def DatabaseValue_def
      syms_def split: lookup.splits)

lemma Compile_cases:
  assumes "Compile plan = Inr (sql, arguments)"
  obtains columns table conditions orderings as where
    "plColumns plan \<noteq> []" "compile_columns True (plColumns plan) = Inr columns"
    "quoteIdentifier (plTable plan) = Inr table"
    "compile_conditions (plColumns plan) True (plConditions plan) = Inr (conditions, as)"
    "compile_orderings (plColumns plan) True (plOrderings plan) = Inr orderings"
    "sql = ''SELECT '' @ columns @ '' FROM '' @ table
        @ (if plConditions plan = [] then '''' else '' WHERE '') @ conditions
        @ (if plOrderings plan = [] then '''' else '' ORDER BY '') @ orderings
        @ (if plLimit plan = None then '''' else '' LIMIT ?'')"
    "arguments = as @ (case plLimit plan of None \<Rightarrow> [] | Some limit \<Rightarrow> [SqlInt limit])"
  using assms unfolding Compile_def by (auto split: sum.splits if_splits prod.splits)

lemma Compile_lex:
  assumes "Compile plan = Inr (sql, arguments)"
  shows "lex sql = Some (select_tokens plan)" and "arguments = select_arguments plan"
proof -
  from assms obtain columns table conditions orderings as where
    p: "plColumns plan \<noteq> []" "compile_columns True (plColumns plan) = Inr columns"
    "quoteIdentifier (plTable plan) = Inr table"
    "compile_conditions (plColumns plan) True (plConditions plan) = Inr (conditions, as)"
    "compile_orderings (plColumns plan) True (plOrderings plan) = Inr orderings"
    and sql: "sql = ''SELECT '' @ columns @ '' FROM '' @ table
        @ (if plConditions plan = [] then '''' else '' WHERE '') @ conditions
        @ (if plOrderings plan = [] then '''' else '' ORDER BY '') @ orderings
        @ (if plLimit plan = None then '''' else '' LIMIT ?'')"
    and arguments: "arguments = as @ (case plLimit plan of None \<Rightarrow> [] | Some limit \<Rightarrow> [SqlInt limit])"
    by (rule Compile_cases)
  define limit where "limit = (if plLimit plan = None then '''' else '' LIMIT ?'')"
  define order_by where
    "order_by = (if plOrderings plan = [] then '''' else '' ORDER BY '') @ orderings @ limit"
  define filtered where
    "filtered = (if plConditions plan = [] then '''' else '' WHERE '') @ conditions @ order_by"
  have limit: "continues limit"
    "lex limit = Some (if plLimit plan = None then [] else syms '' LIMIT ?'')"
    using lex_bare[OF bare_SQL(7), of "[]"]
    by (auto simp: limit_def quote_char_def apostrophe_def)
  note o = compile_orderings_lex[OF p(5) limit(1), unfolded rejoined_True]
  have order_by: "continues order_by"
    "lex order_by = Some ((if plOrderings plan = [] then []
        else syms '' ORDER BY '' @ joined (syms '', '') (map ordering_tokens (plOrderings plan)))
      @ (if plLimit plan = None then [] else syms '' LIMIT ?''))"
    using o limit p(5)
    by (auto simp: order_by_def lex_bare bare_SQL continues_bare simp del: append_Cons)
  note c = compile_conditions_lex[OF p(4) order_by(1), unfolded rejoined_True]
  have filtered: "continues filtered"
    "lex filtered = emit (if plConditions plan = [] then []
        else syms '' WHERE '' @ joined (syms '' AND '') (map condition_tokens (plConditions plan)))
        (lex order_by)"
    using c order_by(1) p(4)
    by (auto simp: filtered_def lex_bare bare_SQL continues_bare simp del: append_Cons)
  have "lex sql = emit (syms ''SELECT '') (lex (columns @ '' FROM '' @ table @ filtered))"
    by (simp only: sql order_by_def filtered_def limit_def append.assoc lex_bare bare_SQL)
  also have "\<dots> = emit (syms ''SELECT '') (emit (joined (syms '', '') (map (\<lambda>c. [Ident (frColumn c)]) (plColumns plan)))
      (emit (syms '' FROM '') (emit [Ident (plTable plan)] (lex filtered))))"
    by (simp only: compile_columns_lex[OF p(2) continues_bare[OF bare_SQL(3)], unfolded rejoined_True]
        lex_bare bare_SQL lex_quoted[OF p(3) filtered(1)] list.distinct simp_thms)
  finally show "lex sql = Some (select_tokens plan)"
    by (simp only: filtered(2) order_by(2) emit_simps append.assoc select_tokens_def)
  show "arguments = select_arguments plan"
    using c by (simp add: arguments select_arguments_def)
qed

lemma compile_columns_Inr_iff:
  "(\<exists>s. compile_columns first columns = Inr s) \<longleftrightarrow> (\<forall>c \<in> set columns. quotable (frColumn c))"
proof (induction columns arbitrary: first)
  case (Cons c columns)
  show ?case
    using Cons.IH[of False] quoteIdentifier_Inr_iff[of "frColumn c"]
    by (auto split: sum.splits)
qed simp

lemma compileCondition_Inr_iff: "(\<exists>r. compileCondition c = Inr r) \<longleftrightarrow> condition_supported c"
  by (auto simp: compileCondition_def condition_supported_def Let_def value_string_def value_boolean_def
      DatabaseValue_def valueMatchesField_def split: lookup.splits value_kind.splits sum.splits)

lemma compile_conditions_Inr_iff:
  assumes "\<forall>c \<in> set columns. quotable (frColumn c)"
  shows "(\<exists>r. compile_conditions columns first conditions = Inr r) \<longleftrightarrow>
    (\<forall>c \<in> set conditions. coField c \<in> set columns \<and> condition_supported c)"
proof (induction conditions arbitrary: first)
  case (Cons c conditions)
  show ?case
    using Cons.IH[of False] quoteIdentifier_Inr_iff[of "frColumn (coField c)"]
      compileCondition_Inr_iff[of c] assms
    by (cases "compileCondition c"; cases "compile_conditions columns False conditions")
      (auto simp: containsField_iff split: sum.splits prod.splits)
qed simp

lemma compile_orderings_Inr_iff:
  assumes "\<forall>c \<in> set columns. quotable (frColumn c)"
  shows "(\<exists>r. compile_orderings columns first orderings = Inr r) \<longleftrightarrow>
    (\<forall>item \<in> set orderings. orField item \<in> set columns
       \<and> (orDirection item = Ascending \<or> orDirection item = Descending))"
proof (induction orderings arbitrary: first)
  case (Cons item orderings)
  show ?case
    using Cons.IH[of False] quoteIdentifier_Inr_iff[of "frColumn (orField item)"] assms
    by (auto simp: containsField_iff split: sum.splits order_direction.splits)
qed simp

lemma Compile_Inr_iff: "(\<exists>r. Compile plan = Inr r) \<longleftrightarrow> select_supported plan"
proof (cases "plColumns plan \<noteq> [] \<and> (\<forall>c \<in> set (plColumns plan). quotable (frColumn c))")
  case True
  then show ?thesis
    using compile_conditions_Inr_iff[of "plColumns plan" True "plConditions plan"]
      compile_orderings_Inr_iff[of "plColumns plan" True "plOrderings plan"]
      compile_columns_Inr_iff[of True "plColumns plan"] quoteIdentifier_Inr_iff[of "plTable plan"]
    unfolding Compile_def select_supported_def
    by (auto simp: quotable_def split: sum.splits prod.splits)
next
  case False
  then show ?thesis
    using compile_columns_Inr_iff[of True "plColumns plan"]
    unfolding Compile_def select_supported_def by (auto split: sum.splits)
qed

lemma select_placeholders:
  assumes "select_supported plan"
  shows "placeholders (select_tokens plan) = length (select_arguments plan)"
proof -
  have "sum_list (map (placeholders \<circ> condition_tokens) cs) = length (concat (map condition_arguments cs))"
    if "\<forall>c \<in> set cs. condition_supported c" for cs
    using that by (induction cs) (auto simp: condition_placeholders simp del: condition_tokens.simps)
  moreover have "placeholders (syms '', '') = 0" "placeholders (syms '' AND '') = 0"
    by (simp_all add: syms_def)
  moreover have "sum_list (map (placeholders \<circ> ordering_tokens) items) = 0" for items
    by (induction items) (auto simp: ordering_tokens_def syms_def)
  moreover have "sum_list (map (placeholders \<circ> (\<lambda>c. [Ident (frColumn c)])) columns) = 0" for columns :: "field_ref list"
    by (induction columns) auto
  ultimately show ?thesis
    using assms
    by (auto simp: select_supported_def select_tokens_def select_arguments_def placeholders_joined
        simp del: condition_tokens.simps; simp add: syms_def)
qed

text \<open>
  C9: \<open>Compile\<close> succeeds exactly on the plans whose identifiers can be quoted, whose conditions
  and orderings refer to selected columns and whose lookups fit their fields; its SQL then
  scans to exactly the tokens the plan stands for, and it binds one argument to each
  placeholder: the condition values in order, then the limit.
\<close>
theorem Compile_reads_back:
  "case Compile plan of
     Inl err \<Rightarrow> \<not> select_supported plan
   | Inr (sql, arguments) \<Rightarrow> select_supported plan \<and> lex sql = Some (select_tokens plan)
       \<and> arguments = select_arguments plan
       \<and> placeholders (select_tokens plan) = length arguments"
proof (cases "Compile plan")
  case (Inl err)
  then show ?thesis using Compile_Inr_iff[of plan] by auto
next
  case (Inr r)
  then have "select_supported plan" using Compile_Inr_iff[of plan] by blast
  then show ?thesis
    using Inr Compile_lex[of plan "fst r" "snd r"] select_placeholders[of plan]
    by (auto split: prod.splits)
qed

section \<open>Values stay out of the SQL\<close>

text \<open>Two plans of one shape: they differ at most in the payloads of their values.\<close>

definition same_condition_shape :: "query_condition \<Rightarrow> query_condition \<Rightarrow> bool" where
  "same_condition_shape c d \<longleftrightarrow> coField c = coField d \<and> coLookup c = coLookup d
     \<and> vKind (coValue c) = vKind (coValue d)
     \<and> (coLookup c = LookupIsNull \<longrightarrow> vBoolean (coValue c) = vBoolean (coValue d))"

definition same_shape :: "select_plan \<Rightarrow> select_plan \<Rightarrow> bool" where
  "same_shape p q \<longleftrightarrow> plTable p = plTable q \<and> plColumns p = plColumns q
     \<and> list_all2 same_condition_shape (plConditions p) (plConditions q)
     \<and> plOrderings p = plOrderings q \<and> (plLimit p = None) = (plLimit q = None)"

lemma compileCondition_shape:
  assumes "same_condition_shape c d"
  shows "map_sum id fst (compileCondition c) = map_sum id fst (compileCondition d)"
  using assms
  by (auto simp: same_condition_shape_def compileCondition_def Let_def value_string_def value_boolean_def
      DatabaseValue_def valueMatchesField_def split: lookup.splits value_kind.splits)

lemma compile_conditions_shape:
  "list_all2 same_condition_shape cs ds \<Longrightarrow>
     map_sum id fst (compile_conditions columns first cs) = map_sum id fst (compile_conditions columns first ds)"
proof (induction cs ds arbitrary: first rule: list_all2_induct)
  case (Cons c cs d ds)
  note h = compileCondition_shape[OF Cons.hyps(1)] Cons.IH[of False]
  have "coField c = coField d" using Cons.hyps(1) by (simp add: same_condition_shape_def)
  then show ?case
    using h
    by (cases "compileCondition c"; cases "compileCondition d";
        cases "compile_conditions columns False cs"; cases "compile_conditions columns False ds")
      (auto split: sum.splits prod.splits)
qed simp

text \<open>
  the SQL text (or the error) of a query is a function of the query's shape alone: changing
  the values compared against, or the limit, changes only the bound arguments. User data
  cannot reach the statement.
\<close>
theorem Compile_ignores_values:
  assumes "same_shape p q"
  shows "map_sum id fst (Compile p) = map_sum id fst (Compile q)"
proof -
  have s: "plTable p = plTable q" "plColumns p = plColumns q" "plOrderings p = plOrderings q"
    "(plLimit p = None) = (plLimit q = None)" "(plConditions p = []) = (plConditions q = [])"
    and c: "list_all2 same_condition_shape (plConditions p) (plConditions q)"
    using assms by (auto simp: same_shape_def)
  show ?thesis
    using compile_conditions_shape[OF c, of "plColumns q" True] s
    unfolding Compile_def
    by (cases "compile_conditions (plColumns q) True (plConditions p)";
        cases "compile_conditions (plColumns q) True (plConditions q)")
      (auto split: sum.splits prod.splits)
qed

definition sample_title :: field_ref where
  "sample_title = NewFieldRef ''title'' ''title'' FieldString False"

definition title_is :: "string \<Rightarrow> select_plan" where
  "title_is s = WithConditions (NewPlan ''blog_article'' [sample_title])
     [NewCondition sample_title LookupExact (String s)]"

theorem Compile_ignores_values_witness:
  "map_sum id fst (Compile (title_is ''a'')) = map_sum id fst (Compile (title_is ''x OR 1=1''))"
  by (rule Compile_ignores_values)
    (simp add: same_shape_def title_is_def WithConditions_def NewPlan_def same_condition_shape_def
      NewCondition_def String_def)

section \<open>Substring search\<close>

text \<open>
  SQLite's documentation of \<open>LIKE\<close> with \<open>ESCAPE '\'\<close>: a percent sign matches any sequence, a
  character after the escape matches itself, any other character but the underscore matches
  itself up to ASCII case. (The patterns the program builds contain no bare underscore, whose
  clause is left out.)
\<close>

definition documented_like :: "(string \<Rightarrow> string \<Rightarrow> bool) \<Rightarrow> bool" where
  "documented_like like \<longleftrightarrow>
     (\<forall>t. like [] t \<longleftrightarrow> t = [])
     \<and> (\<forall>p t. like (CHR ''%'' # p) t \<longleftrightarrow> (\<exists>u v. t = u @ v \<and> like p v))
     \<and> (\<forall>c p t. like (backslash # c # p) t \<longleftrightarrow>
          (\<exists>d u. t = d # u \<and> ascii_lower d = ascii_lower c \<and> like p u))
     \<and> (\<forall>c p t. c \<noteq> CHR ''%'' \<and> c \<noteq> CHR ''_'' \<and> c \<noteq> backslash \<longrightarrow>
          like (c # p) t = (\<exists>d u. t = d # u \<and> ascii_lower d = ascii_lower c \<and> like p u))"

lemma escapeLike_Cons:
  "escapeLike (c # s) = (if c = backslash \<or> c = CHR ''%'' \<or> c = CHR ''_'' then [backslash, c] else [c]) @ escapeLike s"
  by (simp add: escapeLike_def Let_def replace_byte_Cons replace_byte_append) (simp add: backslash_def)

lemma escapeLike_Nil [simp]: "escapeLike [] = []"
  by (simp add: escapeLike_def)

lemma like_escaped:
  assumes "documented_like like"
  shows "like (escapeLike s @ p) t \<longleftrightarrow>
    (\<exists>u v. t = u @ v \<and> map ascii_lower u = map ascii_lower s \<and> like p v)"
proof (induction s arbitrary: t)
  case (Cons c s)
  have "like (escapeLike (c # s) @ p) t \<longleftrightarrow>
      (\<exists>d u. t = d # u \<and> ascii_lower d = ascii_lower c \<and> like (escapeLike s @ p) u)"
    using assms by (cases "c = backslash \<or> c = CHR ''%'' \<or> c = CHR ''_''")
      (simp_all add: escapeLike_Cons documented_like_def)
  also have "\<dots> \<longleftrightarrow> (\<exists>u v. t = u @ v \<and> map ascii_lower u = map ascii_lower (c # s) \<and> like p v)"
    unfolding Cons.IH by (auto simp: map_eq_Cons_conv) (metis append_Cons)+
  finally show ?case .
qed simp

text \<open>
  C10: an \<open>icontains\<close> condition on a text field asks for a substring up to ASCII case: the pattern
  bound for it matches exactly the texts that contain the searched one, percent signs,
  underscores and backslashes taken literally.
\<close>
theorem icontains_is_containment:
  assumes "documented_like like" and "coLookup c = LookupIContains"
    and "frKind (coField c) = FieldString" and "coValue c = String s"
  shows "\<exists>pattern. compileCondition c = Inr ('' LIKE ? ESCAPE '' @ [CHR 0x27, backslash, CHR 0x27], [SqlText pattern])
    \<and> (\<forall>t. like pattern t \<longleftrightarrow>
         (\<exists>a b d. t = a @ b @ d \<and> map ascii_lower b = map ascii_lower s))"
proof (intro exI conjI allI)
  show "compileCondition c = Inr ('' LIKE ? ESCAPE '' @ [CHR 0x27, backslash, CHR 0x27],
      [SqlText (CHR ''%'' # escapeLike s @ ''%'')])"
    using assms(2-4) by (simp add: compileCondition_def value_string_def String_def)
  fix t
  have "like ''%'' v" for v using assms(1) by (simp add: documented_like_def)
  moreover have "like (CHR ''%'' # escapeLike s @ ''%'') t \<longleftrightarrow>
      (\<exists>u v. t = u @ v \<and> like (escapeLike s @ ''%'') v)"
    using assms(1) by (simp add: documented_like_def)
  ultimately show "like (CHR ''%'' # escapeLike s @ ''%'') t \<longleftrightarrow>
      (\<exists>a b d. t = a @ b @ d \<and> map ascii_lower b = map ascii_lower s)"
    by (auto simp: like_escaped[OF assms(1)])
qed

text \<open>A matcher with those laws (the underscore matches one byte).\<close>

fun like_match :: "string \<Rightarrow> string \<Rightarrow> bool" where
  "like_match [] t = (t = [])"
| "like_match (c # p) t =
     (if c = CHR ''%'' then list_ex (like_match p) (suffixes t)
      else if c = CHR ''_'' then (case t of [] \<Rightarrow> False | d # u \<Rightarrow> like_match p u)
      else if c = backslash then
        (case p of [] \<Rightarrow> False
         | e # p' \<Rightarrow> (case t of [] \<Rightarrow> False | d # u \<Rightarrow> ascii_lower d = ascii_lower e \<and> like_match p' u))
      else (case t of [] \<Rightarrow> False | d # u \<Rightarrow> ascii_lower d = ascii_lower c \<and> like_match p u))"

lemma list_ex_suffixes: "list_ex f (suffixes t) \<longleftrightarrow> (\<exists>u v. t = u @ v \<and> f v)"
  by (auto simp: list_ex_iff suffix_def) blast+

lemma documented_like_match: "documented_like like_match"
  by (auto simp: documented_like_def list_ex_suffixes backslash_def split: list.splits)

theorem icontains_is_containment_witness:
  "\<exists>pattern. compileCondition (NewCondition sample_title LookupIContains (String ''50%''))
      = Inr ('' LIKE ? ESCAPE '' @ [CHR 0x27, backslash, CHR 0x27], [SqlText pattern])
    \<and> (\<forall>t. like_match pattern t \<longleftrightarrow>
         (\<exists>a b d. t = a @ b @ d \<and> map ascii_lower b = map ascii_lower ''50%''))"
  by (rule icontains_is_containment[OF documented_like_match])
    (simp_all add: NewCondition_def sample_title_def NewFieldRef_def)

end
