(* ===== verification/Mutation_Reading.thy ===== *)
theory Mutation_Reading
  imports Sql_Reading
begin

text \<open>
  The statements of \<open>db/sqlite/write.go\<close> read back: which mutation plans compile, the tokens
  their SQL scans to, and the arguments they bind. Inserts and updates name each column once,
  up to the case folding SQLite applies to identifiers.
\<close>

section \<open>Assignments\<close>

definition assignment_supported :: "assignment \<Rightarrow> bool" where
  "assignment_supported a \<longleftrightarrow> quotable (frColumn (asgField a)) \<and>
     (if IsNull (asgValue a) then frNullable (asgField a)
      else valueMatchesField (vKind (asgValue a)) (frKind (asgField a)))"

definition column_key :: "assignment \<Rightarrow> string" where
  "column_key a = sqliteIdentifierKey (frColumn (asgField a))"

definition assignment_argument :: "qvalue \<Rightarrow> sql_value" where
  "assignment_argument v = (case DatabaseValue v of Inl _ \<Rightarrow> SqlNull | Inr argument \<Rightarrow> argument)"

lemma validateWriteValue_None_iff:
  "validateWriteValue field v = None \<longleftrightarrow>
     (if IsNull v then frNullable field else valueMatchesField (vKind v) (frKind field))"
  by (auto simp: validateWriteValue_def)

lemma DatabaseValue_of_valid:
  "validateWriteValue field v = None \<Longrightarrow> DatabaseValue v = Inr (assignment_argument v)"
  by (cases "vKind v")
    (auto simp: validateWriteValue_None_iff IsNull_def DatabaseValue_def assignment_argument_def
      valueMatchesField_def)

definition quoted_names :: "string list \<Rightarrow> string list \<Rightarrow> bool" where
  "quoted_names names quoted \<longleftrightarrow> list_all2 (\<lambda>name q. quoteIdentifier name = Inr q) names quoted"

lemma compileAssignments_loop_Inr_iff:
  "compileAssignments_loop seen as = Inr (columns, arguments) \<longleftrightarrow>
     (\<forall>a \<in> set as. assignment_supported a) \<and> distinct (map column_key as)
     \<and> set (map column_key as) \<inter> set seen = {}
     \<and> quoted_names (map (frColumn \<circ> asgField) as) columns
     \<and> arguments = map (assignment_argument \<circ> asgValue) as"
proof (induction as arbitrary: seen columns arguments)
  case Nil
  then show ?case by (auto simp: quoted_names_def)
next
  case (Cons a as)
  show ?case
  proof (cases "assignment_supported a \<and> column_key a \<notin> set seen")
    case True
    then have v: "validateWriteValue (asgField a) (asgValue a) = None"
      by (simp add: assignment_supported_def validateWriteValue_None_iff)
    obtain q where q: "quoteIdentifier (frColumn (asgField a)) = Inr q"
      using True quoteIdentifier_Inr_iff by (auto simp: assignment_supported_def)
    have "compileAssignments_loop seen (a # as) = Inr (columns, arguments) \<longleftrightarrow>
        (\<exists>cs bs. compileAssignments_loop (column_key a # seen) as = Inr (cs, bs)
          \<and> columns = q # cs \<and> arguments = assignment_argument (asgValue a) # bs)"
      using True by (auto simp: Let_def q v DatabaseValue_of_valid[OF v] column_key_def split: sum.splits)
    then show ?thesis
      using True q by (auto simp: Cons.IH quoted_names_def list_all2_Cons1)
  next
    case False
    then have "compileAssignments_loop seen (a # as) \<noteq> Inr (columns, arguments)"
      using quoteIdentifier_Inr_iff[of "frColumn (asgField a)"]
      by (auto simp: Let_def assignment_supported_def column_key_def validateWriteValue_None_iff[symmetric]
          split: sum.splits option.splits)
    then show ?thesis using False by auto
  qed
qed

lemma compileAssignments_Inr_iff:
  "compileAssignments as = Inr (columns, arguments) \<longleftrightarrow>
     (\<forall>a \<in> set as. assignment_supported a) \<and> distinct (map column_key as)
     \<and> quoted_names (map (frColumn \<circ> asgField) as) columns
     \<and> arguments = map (assignment_argument \<circ> asgValue) as"
  by (simp add: compileAssignments_def compileAssignments_loop_Inr_iff)

lemma quoted_names_exist: "(\<forall>n \<in> set names. quotable n) \<Longrightarrow> \<exists>quoted. quoted_names names quoted"
proof (induction names)
  case (Cons n names)
  then show ?case
    using quoteIdentifier_Inr_iff[of n] by (auto simp: quoted_names_def list_all2_Cons1)
qed (auto simp: quoted_names_def intro: exI[of _ "[]"])

lemma compileAssignments_succeeds_iff:
  "(\<exists>r. compileAssignments as = Inr r) \<longleftrightarrow>
     (\<forall>a \<in> set as. assignment_supported a) \<and> distinct (map column_key as)"
  using quoted_names_exist[of "map (frColumn \<circ> asgField) as"]
  by (auto simp: compileAssignments_Inr_iff assignment_supported_def)

section \<open>Lists of quoted names in a statement\<close>

lemma lex_joined_names:
  assumes "quoted_names names quoted" and "names \<noteq> []" and "bare post" and "bare sep" and "sep \<noteq> []"
    and "continues t"
  shows "lex (join_strings sep (map (\<lambda>q. q @ post) quoted) @ t) =
    emit (joined (syms sep) (map (\<lambda>n. [Ident n] @ syms post) names)) (lex t)"
  using assms(1,2)
proof (induction names arbitrary: quoted rule: induct_list012)
  case (2 n)
  from 2(1) obtain q where q: "quoted = [q]" "quoteIdentifier n = Inr q"
    by (auto simp: quoted_names_def list_all2_Cons1)
  have "continues (post @ t)" using assms(3,6) by (cases post) (auto simp: quotes_bare)
  then show ?case
    by (simp del: append_Cons add: q(1) lex_quoted[OF q(2)] lex_bare assms(3))
next
  case three: (3 n m names)
  from three(3) obtain q r qs where q: "quoted = q # r # qs" "quoteIdentifier n = Inr q"
    and rest: "quoted_names (m # names) (r # qs)"
    by (auto simp: quoted_names_def list_all2_Cons1)
  have sep: "continues (sep @ u)" for u using assms(4,5) by (rule continues_bare)
  have post: "continues (post @ sep @ u)" for u
    using assms(3) sep by (cases post) (auto simp: quotes_bare)
  show ?case
    using three(2)[OF rest]
    by (simp del: append_Cons add: q(1) lex_quoted[OF q(2) post] lex_bare assms(3,4))
qed simp

lemma map_join_strings: "map f (join_strings sep parts) = joined (map f sep) (map (map f) parts)"
  by (induction sep parts rule: join_strings.induct) auto

lemma bare_join_strings:
  "bare sep \<Longrightarrow> (\<forall>p \<in> set parts. bare p) \<Longrightarrow> bare (join_strings sep parts)"
  by (induction sep parts rule: join_strings.induct) (auto simp: bare_def)

lemma quoted_names_length: "quoted_names names quoted \<Longrightarrow> length quoted = length names"
  by (auto simp: quoted_names_def dest: list_all2_lengthD)

section \<open>Insert, update, delete\<close>

abbreviation mutation_columns :: "assignment list \<Rightarrow> string list" where
  "mutation_columns as \<equiv> map (frColumn \<circ> asgField) as"

abbreviation mutation_arguments :: "assignment list \<Rightarrow> sql_value list" where
  "mutation_arguments as \<equiv> map (assignment_argument \<circ> asgValue) as"

definition assignments_supported :: "assignment list \<Rightarrow> bool" where
  "assignments_supported as \<longleftrightarrow> (\<forall>a \<in> set as. assignment_supported a) \<and> distinct (map column_key as)"

definition key_supported :: "field_ref \<Rightarrow> qvalue \<Rightarrow> bool" where
  "key_supported field v \<longleftrightarrow> \<not> frNullable field \<and> \<not> IsNull v
     \<and> valueMatchesField (vKind v) (frKind field) \<and> quotable (frColumn field)"

definition insert_tokens :: "insert_plan \<Rightarrow> sql_token list" where
  "insert_tokens plan =
     syms ''INSERT INTO '' @ [Ident (ipTable plan)] @
     (if ipAssignments plan = [] then syms '' DEFAULT VALUES''
      else syms '' ('' @ joined (syms '', '') (map (\<lambda>n. [Ident n]) (mutation_columns (ipAssignments plan)))
         @ syms '') VALUES ('' @ joined (syms '', '') (map (\<lambda>_. syms ''?'') (ipAssignments plan)) @ syms '')'')"

definition update_tokens :: "update_plan \<Rightarrow> sql_token list" where
  "update_tokens plan =
     syms ''UPDATE '' @ [Ident (upTable plan)] @ syms '' SET ''
     @ joined (syms '', '') (map (\<lambda>n. [Ident n] @ syms '' = ?'') (mutation_columns (upAssignments plan)))
     @ syms '' WHERE '' @ [Ident (frColumn (upKeyField plan))] @ syms '' = ?''"

definition delete_tokens :: "delete_plan \<Rightarrow> sql_token list" where
  "delete_tokens plan =
     syms ''DELETE FROM '' @ [Ident (dpTable plan)] @ syms '' WHERE ''
     @ [Ident (frColumn (dpKeyField plan))] @ syms '' = ?''"

definition assigns_key :: "update_plan \<Rightarrow> bool" where
  "assigns_key plan \<longleftrightarrow> (\<exists>a \<in> set (upAssignments plan).
     column_key a = sqliteIdentifierKey (frColumn (upKeyField plan)))"

lemma compileKey_Inr_iff:
  "compileKey field v = Inr (column, argument) \<longleftrightarrow>
     key_supported field v \<and> quoteIdentifier (frColumn field) = Inr column
     \<and> argument = assignment_argument v"
proof (cases "\<not> frNullable field \<and> \<not> IsNull v \<and> validateWriteValue field v = None")
  case True
  then have "DatabaseValue v = Inr (assignment_argument v)" using DatabaseValue_of_valid by blast
  then show ?thesis
    using True quoteIdentifier_Inr_iff[of "frColumn field"] validateWriteValue_None_iff[of field v]
    by (auto simp: compileKey_def key_supported_def split: sum.splits)
next
  case False
  then show ?thesis
    by (auto simp: compileKey_def key_supported_def validateWriteValue_None_iff split: option.splits)
qed

lemma lex_bare_end: "bare s \<Longrightarrow> lex s = Some (syms s)"
  using lex_bare[of s "[]"] by simp

lemma placeholder_list:
  assumes "length columns = length xs" and "xs \<noteq> []"
  shows "bare (join_strings '', '' (map (\<lambda>_. ''?'') columns))"
    and "syms (join_strings '', '' (map (\<lambda>_. ''?'') columns)) = joined (syms '', '') (map (\<lambda>_. syms ''?'') xs)"
proof -
  show "bare (join_strings '', '' (map (\<lambda>_. ''?'') columns))"
    by (rule bare_join_strings) (use bare_SQL in auto)
  have "map (\<lambda>_. c) columns = map (\<lambda>_. c) xs" for c :: string
    using assms(1) by (simp add: map_replicate_const)
  then show "syms (join_strings '', '' (map (\<lambda>_. ''?'') columns)) = joined (syms '', '') (map (\<lambda>_. syms ''?'') xs)"
    by (simp only: syms_def map_join_strings map_map o_def)
qed

lemma CompileInsert_lex:
  assumes "CompileInsert plan = Inr (sql, arguments)"
  shows "lex sql = Some (insert_tokens plan)"
    and "quotable (ipTable plan)" and "assignments_supported (ipAssignments plan)"
    and "arguments = mutation_arguments (ipAssignments plan)"
proof -
  from assms obtain table where t: "quoteIdentifier (ipTable plan) = Inr table"
    by (auto simp: CompileInsert_def split: sum.splits)
  show "quotable (ipTable plan)" using t quoteIdentifier_Inr_iff by blast
  have *: "lex sql = Some (insert_tokens plan) \<and> assignments_supported (ipAssignments plan)
      \<and> arguments = mutation_arguments (ipAssignments plan)"
  proof (cases "ipAssignments plan = []")
    case True
    have "continues '' DEFAULT VALUES''" by (simp add: quote_char_def apostrophe_def)
    moreover have "sql = ''INSERT INTO '' @ table @ '' DEFAULT VALUES''" and args: "arguments = []"
      using assms True by (simp_all add: CompileInsert_def t)
    ultimately have "lex sql = Some (insert_tokens plan)"
      by (simp only: lex_bare bare_SQL lex_quoted[OF t] lex_bare_end emit_simps append.assoc
          insert_tokens_def True simp_thms if_True)
    then show ?thesis by (simp add: True args assignments_supported_def)
  next
    case False
    obtain columns where
      c: "compileAssignments (ipAssignments plan) = Inr (columns, arguments)"
      and sql: "sql = ''INSERT INTO '' @ table @ '' ('' @ join_strings '', '' columns @ '') VALUES (''
                        @ join_strings '', '' (map (\<lambda>_. ''?'') columns) @ '')''"
    proof (cases "compileAssignments (ipAssignments plan)")
      case (Inr r)
      show ?thesis
        by (rule that[of "fst r"], insert assms False, unfold CompileInsert_def t Inr)
          (cases r, simp del: append_Cons)+
    qed (use assms False in \<open>simp add: CompileInsert_def t\<close>)
    note ci = c[unfolded compileAssignments_Inr_iff]
    then have q: "quoted_names (mutation_columns (ipAssignments plan)) columns" by simp
    have len: "length columns = length (ipAssignments plan)"
      using quoted_names_length[OF q] by simp
    note ph = placeholder_list[OF len False]
    have cont: "continues ('') VALUES ('' @ u)" for u
      by (rule continues_bare[OF bare_SQL(17)], simp)
    have cont2: "continues ('' ('' @ u)" for u
      by (rule continues_bare[OF bare_SQL(16)], simp)
    have ne: "mutation_columns (ipAssignments plan) \<noteq> []" using False by simp
    have sepne: "'', '' \<noteq> []" by simp
    note names = lex_joined_names[OF q ne quotes_bare(1)[THEN iffD2, OF TrueI] bare_SQL(1) sepne cont,
        unfolded append_Nil2 map_ident syms_Nil]
    have "lex sql = Some (insert_tokens plan)"
      unfolding sql
      by (simp only: lex_bare bare_SQL lex_quoted[OF t cont2] names ph lex_bare_end emit_simps
          append.assoc insert_tokens_def False if_False)
    then show ?thesis using ci by (auto simp: assignments_supported_def)
  qed
  then show "lex sql = Some (insert_tokens plan)" "assignments_supported (ipAssignments plan)"
    "arguments = mutation_arguments (ipAssignments plan)" by auto
qed

lemma CompileInsert_Inr_iff:
  "(\<exists>r. CompileInsert plan = Inr r) \<longleftrightarrow>
     quotable (ipTable plan) \<and> assignments_supported (ipAssignments plan)"
proof (cases "ipAssignments plan = []")
  case True
  then show ?thesis
    using quoteIdentifier_Inr_iff[of "ipTable plan"]
    by (auto simp: CompileInsert_def assignments_supported_def split: sum.splits)
next
  case False
  then show ?thesis
    using quoteIdentifier_Inr_iff[of "ipTable plan"] compileAssignments_succeeds_iff[of "ipAssignments plan"]
    by (cases "compileAssignments (ipAssignments plan)"; cases "quoteIdentifier (ipTable plan)")
      (auto simp: CompileInsert_def assignments_supported_def)
qed

definition update_supported :: "update_plan \<Rightarrow> bool" where
  "update_supported plan \<longleftrightarrow> quotable (upTable plan) \<and> upAssignments plan \<noteq> []
     \<and> assignments_supported (upAssignments plan) \<and> \<not> assigns_key plan
     \<and> key_supported (upKeyField plan) (upKeyValue plan)"

lemma assigns_key_scan:
  "list_ex (\<lambda>a. asgField a = upKeyField plan
      \<or> sqliteIdentifierKey (frColumn (asgField a)) = sqliteIdentifierKey (frColumn (upKeyField plan)))
     (upAssignments plan) \<longleftrightarrow> assigns_key plan"
  unfolding assigns_key_def column_key_def list_ex_iff by metis

lemma CompileUpdate_Inr_iff:
  "CompileUpdate plan = Inr (sql, arguments) \<longleftrightarrow> update_supported plan \<and>
     (\<exists>table columns column.
        quoteIdentifier (upTable plan) = Inr table
        \<and> quoted_names (mutation_columns (upAssignments plan)) columns
        \<and> quoteIdentifier (frColumn (upKeyField plan)) = Inr column
        \<and> sql = ''UPDATE '' @ table @ '' SET '' @ join_strings '', '' (map (\<lambda>column. column @ '' = ?'') columns)
             @ '' WHERE '' @ column @ '' = ?''
        \<and> arguments = mutation_arguments (upAssignments plan) @ [assignment_argument (upKeyValue plan)])"
  (is "?l \<longleftrightarrow> ?r")
proof -
  have "?l \<longleftrightarrow> \<not> assigns_key plan \<and> upAssignments plan \<noteq> [] \<and>
      (\<exists>table columns as column argument. quoteIdentifier (upTable plan) = Inr table
        \<and> compileAssignments (upAssignments plan) = Inr (columns, as)
        \<and> compileKey (upKeyField plan) (upKeyValue plan) = Inr (column, argument)
        \<and> sql = ''UPDATE '' @ table @ '' SET '' @ join_strings '', '' (map (\<lambda>column. column @ '' = ?'') columns)
             @ '' WHERE '' @ column @ '' = ?''
        \<and> arguments = as @ [argument])"
    unfolding CompileUpdate_def assigns_key_scan
    by (auto simp del: append_Cons split: sum.splits prod.splits)
  then show ?thesis
    using quoteIdentifier_Inr_iff[of "upTable plan"]
    unfolding compileKey_Inr_iff compileAssignments_Inr_iff update_supported_def assignments_supported_def
    by (auto simp del: append_Cons)
qed

lemma CompileUpdate_succeeds_iff: "(\<exists>r. CompileUpdate plan = Inr r) \<longleftrightarrow> update_supported plan"
proof
  assume "\<exists>r. CompileUpdate plan = Inr r"
  then show "update_supported plan" by (metis CompileUpdate_Inr_iff surj_pair)
next
  assume u: "update_supported plan"
  then obtain table column where
    "quoteIdentifier (upTable plan) = Inr table" "quoteIdentifier (frColumn (upKeyField plan)) = Inr column"
    using quoteIdentifier_Inr_iff by (metis update_supported_def key_supported_def)
  moreover obtain columns where "quoted_names (mutation_columns (upAssignments plan)) columns"
    using quoted_names_exist[of "mutation_columns (upAssignments plan)"] u
    by (auto simp: update_supported_def assignments_supported_def assignment_supported_def)
  ultimately show "\<exists>r. CompileUpdate plan = Inr r"
    using u CompileUpdate_Inr_iff[of plan] by blast
qed

lemma CompileUpdate_lex:
  assumes "CompileUpdate plan = Inr (sql, arguments)"
  shows "lex sql = Some (update_tokens plan)"
proof -
  from assms obtain table columns column where
    t: "quoteIdentifier (upTable plan) = Inr table"
    and q: "quoted_names (mutation_columns (upAssignments plan)) columns"
    and k: "quoteIdentifier (frColumn (upKeyField plan)) = Inr column"
    and sql: "sql = ''UPDATE '' @ table @ '' SET '' @ join_strings '', '' (map (\<lambda>column. column @ '' = ?'') columns)
             @ '' WHERE '' @ column @ '' = ?''"
    and u: "update_supported plan"
    unfolding CompileUpdate_Inr_iff by blast
  have ne: "mutation_columns (upAssignments plan) \<noteq> []" using u by (simp add: update_supported_def)
  have sep: "'', '' \<noteq> []" by simp
  have c: "continues ('' SET '' @ v)" "continues ('' WHERE '' @ v)" "continues '' = ?''" for v
    using continues_bare[OF bare_SQL(21), of v] continues_bare[OF bare_SQL(4), of v]
      continues_bare[OF bare_SQL(10), of "[]"] by simp_all
  note names = lex_joined_names[OF q ne bare_SQL(10) bare_SQL(1) sep c(2)]
  show ?thesis
    unfolding sql
    by (simp only: lex_bare bare_SQL lex_quoted[OF t c(1)] names lex_quoted[OF k c(3)] lex_bare_end
        emit_simps append.assoc update_tokens_def)
qed

text \<open>
  C12: \<open>CompileInsert\<close> succeeds exactly when the table can be named, every assignment fits its
  field and no two assignments name one column up to the case folding of SQLite; the statement
  then scans to the tokens of that insert and binds the assigned values in order.
\<close>
theorem CompileInsert_reads_back:
  "case CompileInsert plan of
     Inl err \<Rightarrow> \<not> (quotable (ipTable plan) \<and> assignments_supported (ipAssignments plan))
   | Inr (sql, arguments) \<Rightarrow> quotable (ipTable plan) \<and> assignments_supported (ipAssignments plan)
       \<and> lex sql = Some (insert_tokens plan)
       \<and> arguments = mutation_arguments (ipAssignments plan)"
proof (cases "CompileInsert plan")
  case (Inl err)
  then show ?thesis using CompileInsert_Inr_iff[of plan] by simp
next
  case (Inr r)
  then show ?thesis using CompileInsert_lex[of plan "fst r" "snd r"] by (auto split: prod.splits)
qed

text \<open>
  C13: \<open>CompileUpdate\<close> succeeds exactly when there is something to assign, the assignments are
  valid and distinct, none of them touches the key column, and the key is a valid non-null
  value; the statement then scans to an update of those columns restricted to that key, and
  binds the assigned values followed by the key.
\<close>
theorem CompileUpdate_reads_back:
  "case CompileUpdate plan of
     Inl err \<Rightarrow> \<not> update_supported plan
   | Inr (sql, arguments) \<Rightarrow> update_supported plan \<and> lex sql = Some (update_tokens plan)
       \<and> arguments = mutation_arguments (upAssignments plan) @ [assignment_argument (upKeyValue plan)]"
proof (cases "CompileUpdate plan")
  case (Inl err)
  then show ?thesis using CompileUpdate_succeeds_iff[of plan] by simp
next
  case (Inr r)
  then have r: "CompileUpdate plan = Inr (fst r, snd r)" by simp
  then have "update_supported plan"
    "snd r = mutation_arguments (upAssignments plan) @ [assignment_argument (upKeyValue plan)]"
    unfolding CompileUpdate_Inr_iff by blast+
  then show ?thesis
    using CompileUpdate_lex[OF r] Inr by (simp add: case_prod_unfold)
qed

text \<open>
  \<open>CompileDelete\<close> succeeds exactly when the table can be named and the key is a valid
  non-null value; the statement scans to a deletion restricted to that key and binds only it, so
  a deletion is never unrestricted.
\<close>
theorem CompileDelete_reads_back:
  "case CompileDelete plan of
     Inl err \<Rightarrow> \<not> (quotable (dpTable plan) \<and> key_supported (dpKeyField plan) (dpKeyValue plan))
   | Inr (sql, arguments) \<Rightarrow> quotable (dpTable plan) \<and> key_supported (dpKeyField plan) (dpKeyValue plan)
       \<and> lex sql = Some (delete_tokens plan) \<and> arguments = [assignment_argument (dpKeyValue plan)]"
proof (cases "quoteIdentifier (dpTable plan)")
  case (Inl err)
  then show ?thesis
    using quoteIdentifier_Inr_iff[of "dpTable plan"] by (auto simp: CompileDelete_def)
next
  case table: (Inr table)
  then have q: "quotable (dpTable plan)" using quoteIdentifier_Inr_iff by blast
  show ?thesis
  proof (cases "compileKey (dpKeyField plan) (dpKeyValue plan)")
    case (Inl err)
    then have "\<not> key_supported (dpKeyField plan) (dpKeyValue plan)"
      using compileKey_Inr_iff[of "dpKeyField plan" "dpKeyValue plan"]
        quoteIdentifier_Inr_iff[of "frColumn (dpKeyField plan)"]
      by (auto simp: key_supported_def)
    then show ?thesis by (simp add: CompileDelete_def table Inl)
  next
    case (Inr r)
    then have k: "key_supported (dpKeyField plan) (dpKeyValue plan)"
      "quoteIdentifier (frColumn (dpKeyField plan)) = Inr (fst r)"
      "snd r = assignment_argument (dpKeyValue plan)"
      using compileKey_Inr_iff[of "dpKeyField plan" "dpKeyValue plan" "fst r" "snd r"] by simp_all
    have c: "continues ('' WHERE '' @ v)" "continues '' = ?''" for v
      using continues_bare[OF bare_SQL(4), of v] continues_bare[OF bare_SQL(10), of "[]"] by simp_all
    have "lex (''DELETE FROM '' @ table @ '' WHERE '' @ fst r @ '' = ?'') = Some (delete_tokens plan)"
      by (simp only: lex_bare bare_SQL lex_quoted[OF table c(1)] lex_quoted[OF k(2) c(2)] lex_bare_end
          emit_simps append.assoc delete_tokens_def)
    then show ?thesis
      by (simp add: CompileDelete_def table Inr case_prod_unfold k q del: append_Cons)
  qed
qed

end
