(* ===== verification/Article.thy ===== *)
theory Article
  imports Orm_Save Sqlite_Session Mutation_Reading
begin

text \<open>
  The generated model of the example application (\<open>examples/article/models/zz_godj_generated.go\<close>):
  the \<open>Article\<close> record, its descriptor, its typed fields and its create and patch builders. It is
  the instance on which the laws of write descriptors are discharged.
\<close>

section \<open>The model and its metadata\<close>

record article =
  arID :: int
  arTitle :: string
  arPublished :: bool
  arSummary :: "string option"
  arKeyPresent :: bool

definition zeroArticle :: article where
  "zeroArticle = \<lparr>arID = 0, arTitle = '''', arPublished = False, arSummary = None, arKeyPresent = False\<rparr>"

definition articleMetadata :: ir_model where
  "articleMetadata = \<lparr>mName = ''article'', mGoName = ''Article'', mDBTable = ''godj_conformance_article'',
     mFields =
       [zeroField\<lparr>fName := ''id'', fGoName := ''ID'', fColumn := ''id'', fKind := FieldAuto, fPrimaryKey := True\<rparr>,
        zeroField\<lparr>fName := ''title'', fGoName := ''Title'', fColumn := ''title'', fKind := FieldChar,
          fMaxLength := 200\<rparr>,
        zeroField\<lparr>fName := ''published'', fGoName := ''Published'', fColumn := ''published'', fKind := FieldBoolean,
          fDefault := Some \<lparr>sdKind = ScalarBoolean, sdString = '''', sdBoolean = False, sdInteger = 0\<rparr>\<rparr>,
        zeroField\<lparr>fName := ''summary'', fGoName := ''Summary'', fColumn := ''summary'', fKind := FieldChar,
          fNullable := True, fMaxLength := 200\<rparr>]\<rparr>"

section \<open>The descriptor\<close>

definition Article_Scan :: "go_error + cell list \<Rightarrow> go_error + article" where
  "Article_Scan row =
     (case scan_row (\<lambda>cells. case cells of
              [CellInt i, CellString title, CellBool published, CellNullString summary] \<Rightarrow>
                Some (i, title, published, summary)
            | _ \<Rightarrow> None) row of
        Inl err \<Rightarrow> Inl err
      | Inr (i, title, published, summary) \<Rightarrow>
          Inr \<lparr>arID = i, arTitle = title, arPublished = published, arSummary = summary, arKeyPresent = True\<rparr>)"

definition Article_PrimaryKey :: "article \<Rightarrow> qvalue \<times> bool" where
  "Article_PrimaryKey v = (Integer (arID v), arKeyPresent v)"

definition Article_SetPrimaryKey :: "int \<Rightarrow> article \<Rightarrow> article" where
  "Article_SetPrimaryKey key v = v\<lparr>arID := key, arKeyPresent := True\<rparr>"

definition Article_ClearPrimaryKey :: "article \<Rightarrow> article" where
  "Article_ClearPrimaryKey v = v\<lparr>arID := 0, arKeyPresent := False\<rparr>"

definition Article_CloneModel :: "article \<Rightarrow> article" where
  "Article_CloneModel v = (case arSummary v of None \<Rightarrow> v | Some summary \<Rightarrow> v\<lparr>arSummary := Some summary\<rparr>)"

definition Article_CloneWriteModel :: "article \<Rightarrow> article" where
  "Article_CloneWriteModel v = Article_CloneModel v"

definition Article_WriteFieldValue :: "article \<Rightarrow> ir_field \<Rightarrow> qvalue \<times> bool" where
  "Article_WriteFieldValue v field =
     (if fName field = ''id'' then (Integer (arID v), True)
      else if fName field = ''title'' then (String (arTitle v), True)
      else if fName field = ''published'' then (Boolean (arPublished v), True)
      else if fName field = ''summary''
      then (case arSummary v of None \<Rightarrow> (Null, True) | Some summary \<Rightarrow> (String summary, True))
      else (zeroValue, False))"

definition articleWrite :: "article write_capability" where
  "articleWrite = \<lparr>wcPrimaryKey = Article_PrimaryKey, wcSetPrimaryKey = Article_SetPrimaryKey,
     wcClearPrimaryKey = Article_ClearPrimaryKey, wcCloneWriteModel = Article_CloneWriteModel,
     wcWriteFieldValue = Article_WriteFieldValue\<rparr>"

definition ArticleDescriptor :: "(go_error + cell list, article) model_descriptor" where
  "ArticleDescriptor = \<lparr>mdMetadata = articleMetadata, mdScan = Article_Scan, mdCloneModel = Article_CloneModel,
     mdWrite = Some articleWrite\<rparr>"

section \<open>Typed fields and options\<close>

record article_field_set =
  afID :: integer_field
  afTitle :: string_field
  afPublished :: boolean_field
  afSummary :: nullable_string_field

definition ArticleFields :: article_field_set where
  "ArticleFields =
     \<lparr>afID = NewIntegerField (mFields articleMetadata ! 0), afTitle = NewStringField (mFields articleMetadata ! 1),
      afPublished = NewBooleanField (mFields articleMetadata ! 2),
      afSummary = NewNullableStringField (mFields articleMetadata ! 3)\<rparr>"

definition NewArticleWithID :: "int \<Rightarrow> article" where
  "NewArticleWithID key = zeroArticle\<lparr>arID := key, arKeyPresent := True\<rparr>"

section \<open>Create and patch inputs\<close>

record article_create =
  acTitle :: "string change"
  acPublished :: "bool change"
  acSummary :: "string nullable_change"

definition NewArticleCreate :: "string \<Rightarrow> article_create" where
  "NewArticleCreate title = \<lparr>acTitle = Set_change title, acPublished = unset_change False,
     acSummary = unset_nullable_change ''''\<rparr>"

definition Create_WithTitle :: "article_create \<Rightarrow> string \<Rightarrow> article_create" where
  "Create_WithTitle input v = input\<lparr>acTitle := Set_change v\<rparr>"

definition Create_WithPublished :: "article_create \<Rightarrow> bool \<Rightarrow> article_create" where
  "Create_WithPublished input v = input\<lparr>acPublished := Set_change v\<rparr>"

definition Create_WithSummary :: "article_create \<Rightarrow> string \<Rightarrow> article_create" where
  "Create_WithSummary input v = input\<lparr>acSummary := SetNullable v\<rparr>"

definition Create_WithSummaryNull :: "article_create \<Rightarrow> article_create" where
  "Create_WithSummaryNull input = input\<lparr>acSummary := SetNull ''''\<rparr>"

definition unknown_state_error :: go_error where
  "unknown_state_error = QueryError CategoryQuery CodeInvalidPlan ''summary'' ''''
     (plain ''unknown nullable change state'') None"

definition BuildCreate :: "article_create \<Rightarrow> article mutation" where
  "BuildCreate input =
     (case Change_Get (acTitle input) of
        (changedTitle, changedTitleSet) \<Rightarrow>
        if \<not> changedTitleSet
        then InvalidMutation zeroArticle (Some (QueryError CategoryField CodeRequiredField ''title'' ''''
               (plain ''required create field is omitted'') None))
        else
        (let titleAssignment = orm_NewAssignment (mFields articleMetadata ! 1) (String changedTitle);
             changedPublished = (case Change_Get (acPublished input) of (v, isSet) \<Rightarrow> if isSet then v else False);
             publishedAssignment = orm_NewAssignment (mFields articleMetadata ! 2) (Boolean changedPublished);
             v = zeroArticle\<lparr>arTitle := changedTitle, arPublished := changedPublished\<rparr>;
             built = (\<lambda>summary stored. NewCreateMutation zeroArticle (v\<lparr>arSummary := summary\<rparr>)
                        (mDBTable articleMetadata)
                        [titleAssignment, publishedAssignment, orm_NewAssignment (mFields articleMetadata ! 3) stored]) in
         case NullableChange_Get (acSummary input) of
           (changedSummary, state) \<Rightarrow>
           (case state of
              NullableChangeUnset \<Rightarrow> built None Null
            | NullableChangeValue \<Rightarrow> built (Some changedSummary) (String changedSummary)
            | NullableChangeNull \<Rightarrow> built None Null
            | NullableChangeOther _ \<Rightarrow> InvalidMutation zeroArticle (Some unknown_state_error))))"

record article_patch =
  apTitle :: "string change"
  apPublished :: "bool change"
  apSummary :: "string nullable_change"

definition zeroArticlePatch :: article_patch where
  "zeroArticlePatch = \<lparr>apTitle = unset_change '''', apPublished = unset_change False,
     apSummary = unset_nullable_change ''''\<rparr>"

definition Patch_WithTitle :: "article_patch \<Rightarrow> string \<Rightarrow> article_patch" where
  "Patch_WithTitle input v = input\<lparr>apTitle := Set_change v\<rparr>"

definition Patch_WithPublished :: "article_patch \<Rightarrow> bool \<Rightarrow> article_patch" where
  "Patch_WithPublished input v = input\<lparr>apPublished := Set_change v\<rparr>"

definition Patch_WithSummary :: "article_patch \<Rightarrow> string \<Rightarrow> article_patch" where
  "Patch_WithSummary input v = input\<lparr>apSummary := SetNullable v\<rparr>"

definition Patch_WithSummaryNull :: "article_patch \<Rightarrow> article_patch" where
  "Patch_WithSummaryNull input = input\<lparr>apSummary := SetNull ''''\<rparr>"

definition BuildPatch :: "article_patch \<Rightarrow> article \<Rightarrow> article mutation" where
  "BuildPatch input current =
     (let (title, titleSet) = Change_Get (apTitle input);
          (v1, as1) = (if titleSet
             then (current\<lparr>arTitle := title\<rparr>, [orm_NewAssignment (mFields articleMetadata ! 1) (String title)])
             else (current, []));
          (published, publishedSet) = Change_Get (apPublished input);
          (v2, as2) = (if publishedSet
             then (v1\<lparr>arPublished := published\<rparr>,
                   as1 @ [orm_NewAssignment (mFields articleMetadata ! 2) (Boolean published)])
             else (v1, as1));
          (summary, state) = NullableChange_Get (apSummary input);
          built = NewPatchMutation zeroArticle in
      case state of
        NullableChangeUnset \<Rightarrow> built v2 (mDBTable articleMetadata) as2
      | NullableChangeValue \<Rightarrow> built (v2\<lparr>arSummary := Some summary\<rparr>) (mDBTable articleMetadata)
          (as2 @ [orm_NewAssignment (mFields articleMetadata ! 3) (String summary)])
      | NullableChangeNull \<Rightarrow> built (v2\<lparr>arSummary := None\<rparr>) (mDBTable articleMetadata)
          (as2 @ [orm_NewAssignment (mFields articleMetadata ! 3) Null])
      | NullableChangeOther _ \<Rightarrow> InvalidMutation zeroArticle (Some unknown_state_error))"

section \<open>The descriptor keeps its promises\<close>

lemma articleWrite_simps [simp]:
  "wcPrimaryKey articleWrite = Article_PrimaryKey" "wcSetPrimaryKey articleWrite = Article_SetPrimaryKey"
  "wcClearPrimaryKey articleWrite = Article_ClearPrimaryKey" "wcCloneWriteModel articleWrite = Article_CloneWriteModel"
  "wcWriteFieldValue articleWrite = Article_WriteFieldValue"
  by (simp_all add: articleWrite_def)

lemma Article_Clone [simp]: "Article_CloneModel v = v" "Article_CloneWriteModel v = v"
  by (auto simp: Article_CloneModel_def Article_CloneWriteModel_def split: option.splits)

interpretation article: write_descriptor_laws articleWrite articleMetadata
proof
  show "distinct (map fName (mFields articleMetadata))" by (simp add: articleMetadata_def zeroField_def)
  show "wcWriteFieldValue articleWrite (wcSetPrimaryKey articleWrite k v) f = wcWriteFieldValue articleWrite v f"
    if "f \<in> set (mFields articleMetadata)" "\<not> fPrimaryKey f" for f k v
    using that
    by (auto simp: articleMetadata_def zeroField_def Article_WriteFieldValue_def Article_SetPrimaryKey_def
        split: option.splits)
qed (simp_all add: Article_PrimaryKey_def Article_SetPrimaryKey_def Article_ClearPrimaryKey_def)

lemma article_primaryKey: "autoPrimaryKey articleMetadata = (mFields articleMetadata ! 0, True)"
  by (simp add: autoPrimaryKey_def articleMetadata_def zeroField_def)

lemma articleMetadata_wf: "wf_model ascii_tables articleMetadata"
  by (simp add: wf_model_def wf_field_def wf_kind_def wf_scalar_def articleMetadata_def zeroField_def
      databaseIdentifier_def identifier_start_def identifier_rest_def exportedIdentifier_ascii ascii_tables_def byte_def)

section \<open>The builders\<close>

text \<open>What the inputs ask for.\<close>

definition published_of :: "article_create \<Rightarrow> bool" where
  "published_of input \<longleftrightarrow> chSet (acPublished input) \<and> chValue (acPublished input)"

definition summary_of :: "string nullable_change \<Rightarrow> string option" where
  "summary_of c = (if ncState c = NullableChangeValue then Some (ncValue c) else None)"

definition known_state :: "string nullable_change \<Rightarrow> bool" where
  "known_state c \<longleftrightarrow> (case ncState c of NullableChangeOther _ \<Rightarrow> False | _ \<Rightarrow> True)"

definition stored_summary :: "string option \<Rightarrow> qvalue" where
  "stored_summary summary = (case summary of None \<Rightarrow> Null | Some s \<Rightarrow> String s)"

lemma article_fields: "mFields articleMetadata =
    [mFields articleMetadata ! 0, mFields articleMetadata ! 1, mFields articleMetadata ! 2, mFields articleMetadata ! 3]"
  by (simp add: articleMetadata_def)

lemma BuildCreate_value:
  assumes "chSet (acTitle input)" "known_state (acSummary input)"
  shows "BuildCreate input = NewCreateMutation zeroArticle
     \<lparr>arID = 0, arTitle = chValue (acTitle input), arPublished = published_of input,
       arSummary = summary_of (acSummary input), arKeyPresent = False\<rparr> (mDBTable articleMetadata)
     [orm_NewAssignment (mFields articleMetadata ! 1) (String (chValue (acTitle input))),
      orm_NewAssignment (mFields articleMetadata ! 2) (Boolean (published_of input)),
      orm_NewAssignment (mFields articleMetadata ! 3) (stored_summary (summary_of (acSummary input)))]"
  using assms
  by (cases "ncState (acSummary input)")
    (auto simp: BuildCreate_def Change_Get_def NullableChange_Get_def published_of_def summary_of_def
      stored_summary_def known_state_def zeroArticle_def Let_def)

lemma BuildCreate_invalid:
  "\<not> (chSet (acTitle input) \<and> known_state (acSummary input)) \<Longrightarrow> \<exists>err. muErr (BuildCreate input) = Some err"
  by (cases "ncState (acSummary input)")
    (auto simp: BuildCreate_def Change_Get_def NullableChange_Get_def known_state_def InvalidMutation_def Let_def)

lemma BuildCreate_accepted:
  "validateMutation (BuildCreate input) MutationCreate articleMetadata articleWrite None = None \<longleftrightarrow>
     chSet (acTitle input) \<and> known_state (acSummary input)"
proof (cases "chSet (acTitle input) \<and> known_state (acSummary input)")
  case True
  have "validateMutation (BuildCreate input) MutationCreate articleMetadata articleWrite None = None"
    using True
    by (simp add: BuildCreate_value NewCreateMutation_def newMutation_def validateMutation_None mutation_accepted_def
        assignment_accepted_def mutationField_def)
      (simp add: articleMetadata_def zeroField_def fieldReference_def NewFieldRef_def Article_WriteFieldValue_def
        mutationValueMatches_def IsNull_def nonPrimaryFields_def stored_summary_def String_def Boolean_def Null_def
        split: option.splits)
  with True show ?thesis by simp
next
  case False
  with BuildCreate_invalid[OF False] show ?thesis by (auto simp: validateMutation_def)
qed

definition patched :: "article_patch \<Rightarrow> article \<Rightarrow> article" where
  "patched input current = current
     \<lparr>arTitle := if chSet (apTitle input) then chValue (apTitle input) else arTitle current,
      arPublished := if chSet (apPublished input) then chValue (apPublished input) else arPublished current,
      arSummary := if ncState (apSummary input) = NullableChangeUnset then arSummary current
        else summary_of (apSummary input)\<rparr>"

definition patch_assignments :: "article_patch \<Rightarrow> assignment list" where
  "patch_assignments input =
     (if chSet (apTitle input)
      then [orm_NewAssignment (mFields articleMetadata ! 1) (String (chValue (apTitle input)))] else [])
     @ (if chSet (apPublished input)
        then [orm_NewAssignment (mFields articleMetadata ! 2) (Boolean (chValue (apPublished input)))] else [])
     @ (if ncState (apSummary input) = NullableChangeUnset then []
        else [orm_NewAssignment (mFields articleMetadata ! 3) (stored_summary (summary_of (apSummary input)))])"

lemma BuildPatch_value:
  "known_state (apSummary input) \<Longrightarrow>
     BuildPatch input current = NewPatchMutation zeroArticle (patched input current) (mDBTable articleMetadata)
       (patch_assignments input)"
  by (cases "ncState (apSummary input)")
    (simp_all add: BuildPatch_def Change_Get_def NullableChange_Get_def patched_def patch_assignments_def
      stored_summary_def summary_of_def known_state_def)

lemma BuildPatch_invalid: "\<not> known_state (apSummary input) \<Longrightarrow> \<exists>err. muErr (BuildPatch input current) = Some err"
  by (cases "ncState (apSummary input)")
    (auto simp: BuildPatch_def Change_Get_def NullableChange_Get_def known_state_def InvalidMutation_def split: prod.splits)

lemma BuildPatch_accepted:
  "validateMutation (BuildPatch input current) MutationPatch articleMetadata articleWrite (Some current) = None \<longleftrightarrow>
     known_state (apSummary input) \<and> patch_assignments input \<noteq> []"
proof (cases "known_state (apSummary input) \<and> patch_assignments input \<noteq> []")
  case True
  have "\<forall>a \<in> set (patch_assignments input). assignment_accepted articleMetadata articleWrite (patched input current) a"
    by (simp add: patch_assignments_def assignment_accepted_def mutationField_def)
      (simp add: articleMetadata_def zeroField_def fieldReference_def NewFieldRef_def Article_WriteFieldValue_def
        mutationValueMatches_def IsNull_def stored_summary_def String_def Boolean_def Null_def patched_def
        split: option.splits)
  moreover have "distinct (assigned_names (patch_assignments input))"
    by (simp add: patch_assignments_def articleMetadata_def zeroField_def)
  moreover have "unchanged_outside articleMetadata articleWrite current (patched input current)
      (assigned_names (patch_assignments input))"
    by (simp add: unchanged_outside_def patch_assignments_def)
      (simp add: articleMetadata_def zeroField_def Article_WriteFieldValue_def patched_def split: option.splits)
  moreover have "mDBTable articleMetadata \<noteq> ''''" by (simp add: articleMetadata_def)
  ultimately have "validateMutation (BuildPatch input current) MutationPatch articleMetadata articleWrite (Some current)
      = None"
    using True
    by (simp add: validateMutation_None mutation_accepted_def BuildPatch_value NewPatchMutation_def newMutation_def)
  with True show ?thesis by simp
next
  case False
  then have "\<exists>err. muErr (BuildPatch input current) = Some err"
    using BuildPatch_invalid[of input current]
    by (cases "known_state (apSummary input)") (auto simp: BuildPatch_value NewPatchMutation_def InvalidMutation_def)
  with False show ?thesis by (auto simp: validateMutation_def)
qed

section \<open>Creating and updating articles\<close>

text \<open>
  a successful \<open>Create\<close> of a generated create input made one insert of exactly the title, the
  published flag or its default and the summary or null, and returns the article with those contents
  under the key the database assigned. The title was set.
\<close>
theorem article_create_stores_input:
  assumes "Create (Some ArticleDescriptor) ctx (Some be) (Some (BuildCreate input)) w = (Inr v, w')"
  shows "chSet (acTitle input)
    \<and> (\<exists>n w1. v = \<lparr>arID = n, arTitle = chValue (acTitle input), arPublished = published_of input,
           arSummary = summary_of (acSummary input), arKeyPresent = True\<rparr>
      \<and> muInsert be (NewInsertPlan (mDBTable articleMetadata)
          [orm_NewAssignment (mFields articleMetadata ! 1) (String (chValue (acTitle input))),
           orm_NewAssignment (mFields articleMetadata ! 2) (Boolean (published_of input)),
           orm_NewAssignment (mFields articleMetadata ! 3) (stored_summary (summary_of (acSummary input)))]) w1
        = (Inr n, w'))"
proof -
  from assms obtain n w1 where acc: "validateMutation (BuildCreate input) MutationCreate articleMetadata articleWrite None = None"
    and ins: "muInsert be (NewInsertPlan (mDBTable articleMetadata) (muAssignments (BuildCreate input))) w1 = (Inr n, w')"
    and v: "v = Article_SetPrimaryKey n (muValue (BuildCreate input))"
    by (auto simp: Create_def writeConfiguration_Inr ArticleDescriptor_def split: prod.splits sum.splits option.splits)
  from acc have c: "chSet (acTitle input)" "known_state (acSummary input)" by (simp_all add: BuildCreate_accepted)
  moreover have "mDBTable articleMetadata \<noteq> ''''" by (simp add: articleMetadata_def)
  ultimately show ?thesis
    using ins by (auto simp: BuildCreate_value[OF c] NewCreateMutation_def newMutation_def v Article_SetPrimaryKey_def)
qed

text \<open>
  a successful \<open>Update\<close> with a generated patch made one update, restricted to the article's key, of
  exactly the changed columns, and returns the article with exactly the changes asked for. At
  least one change was asked for, and exactly one row was affected.
\<close>
theorem article_update_patches:
  assumes "orm_Update (Some ArticleDescriptor) ctx (Some be) current (Some (BuildPatch input)) w = (Inr v, w')"
  shows "arKeyPresent current \<and> v = patched input current \<and> patch_assignments input \<noteq> []
    \<and> (\<exists>w1. muUpdate be (NewUpdatePlan (mDBTable articleMetadata) (patch_assignments input)
          (fieldReference (mFields articleMetadata ! 0)) (Integer (arID current))) w1 = (Inr 1, w'))"
proof -
  from assms obtain w1 where
    acc: "validateMutation (BuildPatch input current) MutationPatch articleMetadata articleWrite (Some current) = None"
    and key: "arKeyPresent current" and v: "v = muValue (BuildPatch input current)"
    and upd: "muUpdate be (NewUpdatePlan (mDBTable articleMetadata) (muAssignments (BuildPatch input current))
        (fieldReference (fst (autoPrimaryKey articleMetadata))) (Integer (arID current))) w1 = (Inr 1, w')"
    by (auto simp: orm_Update_def writeConfiguration_Inr ArticleDescriptor_def Article_PrimaryKey_def Let_def
        split: prod.splits sum.splits option.splits if_splits)
  from acc have c: "known_state (apSummary input)" "patch_assignments input \<noteq> []" by (simp_all add: BuildPatch_accepted)
  moreover have "mDBTable articleMetadata \<noteq> ''''" by (simp add: articleMetadata_def)
  ultimately show ?thesis
    using upd key
    by (auto simp: BuildPatch_value[OF c(1)] NewPatchMutation_def newMutation_def v article_primaryKey)
qed

definition fixed_mutator :: "unit mutator" where
  "fixed_mutator = \<lparr>muInsert = (\<lambda>_ w. (Inr 5, w)), muUpdate = (\<lambda>_ w. (Inr 1, w)), muDelete = (\<lambda>_ w. (Inr 1, w))\<rparr>"

theorem article_create_stores_input_witness:
  "Create (Some ArticleDescriptor) (Some (\<lambda>w. (None, w))) (Some fixed_mutator)
     (Some (BuildCreate (Create_WithSummary (NewArticleCreate ''first'') ''short''))) ()
   = (Inr \<lparr>arID = 5, arTitle = ''first'', arPublished = False, arSummary = Some ''short'', arKeyPresent = True\<rparr>, ())"
proof -
  let ?in = "Create_WithSummary (NewArticleCreate ''first'') ''short''"
  have "validateMutation (BuildCreate ?in) MutationCreate articleMetadata articleWrite None = None"
    by (simp add: BuildCreate_accepted Create_WithSummary_def NewArticleCreate_def Set_change_def SetNullable_def
        known_state_def)
  then have "\<exists>v. Create (Some ArticleDescriptor) (Some (\<lambda>w. (None, w))) (Some fixed_mutator) (Some (BuildCreate ?in)) ()
      = (Inr v, ())"
    by (simp add: Create_def writeConfiguration_def ArticleDescriptor_def article_primaryKey fixed_mutator_def)
  then obtain v where v: "Create (Some ArticleDescriptor) (Some (\<lambda>w. (None, w))) (Some fixed_mutator)
      (Some (BuildCreate ?in)) () = (Inr v, ())" by blast
  from article_create_stores_input[OF v] v show ?thesis
    by (auto simp: fixed_mutator_def Create_WithSummary_def NewArticleCreate_def Set_change_def SetNullable_def
        unset_change_def published_of_def summary_of_def)
qed

theorem article_update_patches_witness:
  "orm_Update (Some ArticleDescriptor) (Some (\<lambda>w. (None, w))) (Some fixed_mutator) (NewArticleWithID 7)
     (Some (BuildPatch (Patch_WithTitle zeroArticlePatch ''new''))) () = (Inr (NewArticleWithID 7\<lparr>arTitle := ''new''\<rparr>), ())"
proof -
  let ?in = "Patch_WithTitle zeroArticlePatch ''new''" and ?cur = "NewArticleWithID 7"
  have as: "patch_assignments ?in \<noteq> []" "known_state (apSummary ?in)"
    by (simp_all add: patch_assignments_def Patch_WithTitle_def zeroArticlePatch_def Set_change_def
        unset_nullable_change_def known_state_def)
  have key: "Article_PrimaryKey (patched ?in ?cur) = Article_PrimaryKey ?cur"
    by (simp add: Article_PrimaryKey_def patched_def)
  have pk: "mutationValueMatches (mFields articleMetadata ! 0) (Integer 7)" "\<not> IsNull (Integer 7)"
    by (simp_all add: mutationValueMatches_def IsNull_def Integer_def articleMetadata_def zeroField_def)
  have key7: "Article_PrimaryKey ?cur = (Integer 7, True)"
    by (simp add: Article_PrimaryKey_def NewArticleWithID_def zeroArticle_def)
  have "validateMutation (BuildPatch ?in ?cur) MutationPatch articleMetadata articleWrite (Some ?cur) = None"
    using as by (simp add: BuildPatch_accepted)
  moreover have "muValue (BuildPatch ?in ?cur) = patched ?in ?cur" "muAssignments (BuildPatch ?in ?cur) \<noteq> []"
    using as by (simp_all add: BuildPatch_value NewPatchMutation_def newMutation_def articleMetadata_def)
  ultimately have "\<exists>v. orm_Update (Some ArticleDescriptor) (Some (\<lambda>w. (None, w))) (Some fixed_mutator) ?cur
      (Some (BuildPatch ?in)) () = (Inr v, ())"
    using key key7 pk
    by (simp add: orm_Update_def writeConfiguration_def ArticleDescriptor_def article_primaryKey Let_def)
      (simp add: fixed_mutator_def)
  then obtain v where v: "orm_Update (Some ArticleDescriptor) (Some (\<lambda>w. (None, w))) (Some fixed_mutator) ?cur
      (Some (BuildPatch ?in)) () = (Inr v, ())" by blast
  from article_update_patches[OF v] v show ?thesis
    by (simp add: patched_def Patch_WithTitle_def zeroArticlePatch_def Set_change_def unset_change_def
        unset_nullable_change_def NewArticleWithID_def zeroArticle_def)
qed

end
