(* ===== verification/Orm_Compile.thy ===== *)
theory Orm_Compile
  imports Article
begin

text \<open>
  The ORM over the SQLite compiler: on well-formed metadata the plans that pass the ORM's own
  validation are plans the compiler accepts, so a write cannot fail between the two.
\<close>

section \<open>Identifiers of a schema\<close>

lemma identifier_rest_facts:
  "identifier_rest c \<Longrightarrow> c \<noteq> CHR 0x00 \<and> ascii_lower c = c"
  by (auto simp: identifier_rest_def identifier_start_def ascii_lower_def in_bytes_def byte_def)

lemma databaseIdentifier_sql:
  assumes "databaseIdentifier s"
  shows "quotable s" and "sqliteIdentifierKey s = s"
proof -
  have c: "c \<noteq> CHR 0x00 \<and> ascii_lower c = c" if "c \<in> set s" for c
    using identifier_rest_facts databaseIdentifier_chars[OF assms that] by blast
  then show "quotable s" using databaseIdentifier_nonempty[OF assms] by (auto simp: quotable_def)
  show "sqliteIdentifierKey s = s" unfolding sqliteIdentifierKey_def using c by (intro map_idI) simp
qed

section \<open>Assignments to fields of a model\<close>

definition assigns_fields :: "ir_model \<Rightarrow> assignment list \<Rightarrow> bool" where
  "assigns_fields metadata as \<longleftrightarrow>
     (\<forall>a \<in> set as. \<exists>f \<in> set (mFields metadata). fieldReference f = asgField a \<and> mutationValueMatches f (asgValue a))
     \<and> distinct (assigned_names as)"

lemma field_value_supported:
  assumes "wf_field uc f" "mutationValueMatches f v"
  shows "if IsNull v then frNullable (fieldReference f) else valueMatchesField (vKind v) (frKind (fieldReference f))"
  using assms(2)
  by (auto simp: mutationValueMatches_def valueMatchesField_def fieldReference_def NewFieldRef_def
      split: field_kind.splits if_splits)

lemma assigns_fields_supported:
  assumes wf: "wf_model uc metadata" and as: "assigns_fields metadata as"
  shows "assignments_supported as"
proof -
  have wff: "wf_field uc f" if "f \<in> set (mFields metadata)" for f
    using wf that by (simp add: wf_model_def list_all_iff)
  have col: "quotable (fColumn f) \<and> sqliteIdentifierKey (fColumn f) = fColumn f" if "f \<in> set (mFields metadata)" for f
    using wff[OF that] databaseIdentifier_sql by (simp add: wf_field_def)
  have one: "assignment_supported a" if a: "a \<in> set as" for a
  proof -
    from as a obtain f where f: "f \<in> set (mFields metadata)" "fieldReference f = asgField a"
      "mutationValueMatches f (asgValue a)" by (auto simp: assigns_fields_def)
    from field_value_supported[OF wff[OF f(1)] f(3)] col[OF f(1)] show ?thesis
      unfolding assignment_supported_def f(2)[symmetric] by simp
  qed
  have "inj_on (\<lambda>a. sqliteIdentifierKey (frColumn (asgField a))) (set as)"
  proof (rule inj_onI)
    fix a b assume a: "a \<in> set as" and b: "b \<in> set as"
      and eq: "sqliteIdentifierKey (frColumn (asgField a)) = sqliteIdentifierKey (frColumn (asgField b))"
    from as a obtain f where f: "f \<in> set (mFields metadata)" "fieldReference f = asgField a"
      by (auto simp: assigns_fields_def)
    from as b obtain g where g: "g \<in> set (mFields metadata)" "fieldReference g = asgField b"
      by (auto simp: assigns_fields_def)
    from eq col[OF f(1)] col[OF g(1)] have "fColumn f = fColumn g" by (simp flip: f(2) g(2))
    with wf f(1) g(1) have "f = g" by (auto simp: wf_model_def distinct_map inj_on_def)
    then have "frName (asgField a) = frName (asgField b)" using f(2) g(2) by simp
    with as a b show "a = b" by (auto simp: assigns_fields_def distinct_map inj_on_def)
  qed
  moreover have "distinct as" using as by (auto simp: assigns_fields_def distinct_map)
  ultimately have "distinct (map column_key as)"
    by (simp add: distinct_map column_key_def[abs_def])
  with one show ?thesis by (simp add: assignments_supported_def)
qed

lemma accepted_assigns_fields:
  "mutation_accepted mu expected metadata wc current \<Longrightarrow> assigns_fields metadata (muAssignments mu)"
  by (auto simp: mutation_accepted_def assigns_fields_def assignment_accepted_def)

lemma autoPrimaryKey_True:
  assumes "autoPrimaryKey metadata = (primaryKey, True)"
  shows "primaryKey \<in> set (mFields metadata)" "fPrimaryKey primaryKey" "fKind primaryKey = FieldAuto"
    and "f \<in> set (mFields metadata) \<Longrightarrow> fPrimaryKey f \<Longrightarrow> f = primaryKey"
proof -
  from assms obtain k where k: "filter fPrimaryKey (mFields metadata) = [k]" and pk: "primaryKey = k" "fKind k = FieldAuto"
    by (auto simp: autoPrimaryKey_def Let_def length_Suc_conv split: if_splits)
  from k have iff: "f \<in> set (mFields metadata) \<and> fPrimaryKey f \<longleftrightarrow> f = k" for f
  proof -
    have "f \<in> set (filter fPrimaryKey (mFields metadata)) \<longleftrightarrow> f \<in> set [k]" by (simp only: k)
    then show ?thesis by simp
  qed
  then show "primaryKey \<in> set (mFields metadata)" "fPrimaryKey primaryKey" "fKind primaryKey = FieldAuto"
    "f \<in> set (mFields metadata) \<Longrightarrow> fPrimaryKey f \<Longrightarrow> f = primaryKey" using pk by blast+
qed

lemma key_field_supported:
  assumes wf: "wf_model uc metadata" and pk: "autoPrimaryKey metadata = (primaryKey, True)"
    and v: "mutationValueMatches primaryKey v" "\<not> IsNull v"
  shows "key_supported (fieldReference primaryKey) v"
proof -
  have f: "wf_field uc primaryKey" using wf autoPrimaryKey_True(1)[OF pk] by (simp add: wf_model_def list_all_iff)
  then have "\<not> fNullable primaryKey" using autoPrimaryKey_True(3)[OF pk] by (auto simp: wf_field_def wf_kind_def)
  moreover have "quotable (fColumn primaryKey)" using f databaseIdentifier_sql(1) by (simp add: wf_field_def)
  ultimately show ?thesis using field_value_supported[OF f v(1)] v(2) by (simp add: key_supported_def)
qed

text \<open>An update that leaves the key field alone, in the sense of the compiler.\<close>

lemma no_key_assigned:
  assumes wf: "wf_model uc metadata" and pk: "autoPrimaryKey metadata = (primaryKey, True)"
    and as: "\<forall>a \<in> set as. \<exists>f \<in> set (mFields metadata). fieldReference f = asgField a \<and> \<not> fPrimaryKey f"
  shows "\<not> assigns_key (NewUpdatePlan table as (fieldReference primaryKey) v)"
proof -
  have False if a: "a \<in> set as" and eq: "sqliteIdentifierKey (frColumn (asgField a)) = sqliteIdentifierKey (fColumn primaryKey)" for a
  proof -
    from as a obtain f where f: "f \<in> set (mFields metadata)" "fieldReference f = asgField a" "\<not> fPrimaryKey f" by blast
    have "databaseIdentifier (fColumn f)" "databaseIdentifier (fColumn primaryKey)"
      using wf f(1) autoPrimaryKey_True(1)[OF pk] by (auto simp: wf_model_def list_all_iff wf_field_def)
    with eq have "fColumn f = fColumn primaryKey" by (simp add: databaseIdentifier_sql flip: f(2))
    with wf f(1) autoPrimaryKey_True(1)[OF pk] have "f = primaryKey" by (auto simp: wf_model_def distinct_map inj_on_def)
    with f(3) autoPrimaryKey_True(2)[OF pk] show False by simp
  qed
  then show ?thesis unfolding assigns_key_def column_key_def by (auto simp: NewUpdatePlan_def)
qed

section \<open>Validated writes compile\<close>

text \<open>
  C23: on a well-formed model, a write that passes the ORM's validation compiles. A create mutation
  that \<open>validateMutation\<close> accepts gives an insert, an accepted patch with a valid key an update, and
  a valid key a deletion the SQLite compiler translates: its own checks are never what fails.
\<close>
theorem validated_writes_compile:
  assumes "wf_model uc metadata" and "autoPrimaryKey metadata = (primaryKey, True)"
    and "mutationValueMatches primaryKey keyValue" and "\<not> IsNull keyValue"
  shows "(validateMutation mu MutationCreate metadata wc None = None \<longrightarrow>
        (\<exists>r. CompileInsert (NewInsertPlan (mDBTable metadata) (muAssignments mu)) = Inr r))
    \<and> (validateMutation mu MutationPatch metadata wc current = None \<longrightarrow>
        (\<exists>r. CompileUpdate (NewUpdatePlan (mDBTable metadata) (muAssignments mu) (fieldReference primaryKey) keyValue)
           = Inr r))
    \<and> (\<exists>r. CompileDelete (NewDeletePlan (mDBTable metadata) (fieldReference primaryKey) keyValue) = Inr r)"
proof -
  have table: "quotable (mDBTable metadata)"
    using assms(1) databaseIdentifier_sql(1) by (simp add: wf_model_def)
  note key = key_field_supported[OF assms]
  have sup: "assignments_supported (muAssignments mu)"
    if "mutation_accepted mu expected metadata wc cur" for expected cur
    by (rule assigns_fields_supported[OF assms(1) accepted_assigns_fields[OF that]])
  have free: "\<not> assigns_key (NewUpdatePlan (mDBTable metadata) (muAssignments mu) (fieldReference primaryKey) keyValue)"
    if "mutation_accepted mu MutationPatch metadata wc current"
    by (rule no_key_assigned[OF assms(1,2)])
      (use that in \<open>fastforce simp: mutation_accepted_def assignment_accepted_def\<close>)
  obtain column argument where k: "compileKey (fieldReference primaryKey) keyValue = Inr (column, argument)"
    using key quoteIdentifier_Inr_iff[of "fColumn primaryKey"] compileKey_Inr_iff
    by (force simp: key_supported_def)
  obtain t where t: "quoteIdentifier (mDBTable metadata) = Inr t" using table quoteIdentifier_Inr_iff by blast
  have "mutation_accepted mu MutationPatch metadata wc current \<Longrightarrow> muAssignments mu \<noteq> []"
    by (simp add: mutation_accepted_def)
  then show ?thesis
    unfolding validateMutation_None CompileInsert_Inr_iff CompileUpdate_succeeds_iff update_supported_def
    using table sup free key k t
    by (simp add: NewInsertPlan_def NewUpdatePlan_def NewDeletePlan_def CompileDelete_def)
qed

theorem validated_writes_compile_witness:
  "\<exists>r. CompileInsert (NewInsertPlan (mDBTable articleMetadata)
     (muAssignments (BuildCreate (NewArticleCreate ''first'')))) = Inr r"
proof -
  have "mutationValueMatches (mFields articleMetadata ! 0) (Integer 1)" "\<not> IsNull (Integer 1)"
    by (simp_all add: mutationValueMatches_def IsNull_def Integer_def articleMetadata_def zeroField_def)
  note compiles = validated_writes_compile[OF articleMetadata_wf article_primaryKey this]
  have "validateMutation (BuildCreate (NewArticleCreate ''first'')) MutationCreate articleMetadata articleWrite None = None"
    by (simp add: BuildCreate_accepted NewArticleCreate_def Set_change_def unset_nullable_change_def known_state_def)
  with compiles show ?thesis by blast
qed

section \<open>Save plans\<close>

lemma saveAssignments_Inr:
  "saveAssignments wc v fs = Inr as \<longleftrightarrow>
     (\<forall>f \<in> set fs. \<not> fPrimaryKey f \<and> snd (wcWriteFieldValue wc v f)
        \<and> mutationValueMatches f (fst (wcWriteFieldValue wc v f)))
     \<and> as = map (\<lambda>f. orm_NewAssignment f (fst (wcWriteFieldValue wc v f))) fs"
proof (induction fs arbitrary: as)
  case (Cons f fs)
  show ?case
  proof (cases "saveAssignments wc v fs")
    case (Inl err)
    with Cons.IH[of "map (\<lambda>f. orm_NewAssignment f (fst (wcWriteFieldValue wc v f))) fs"] show ?thesis
      by (auto split: prod.splits)
  next
    case (Inr rest)
    with Cons.IH[of rest] show ?thesis by (auto split: prod.splits)
  qed
qed auto

lemma saveAssignments_fields:
  assumes "distinct (map fName (mFields metadata))" and "set fs \<subseteq> set (mFields metadata)" "distinct (map fName fs)"
    and "saveAssignments wc v fs = Inr as"
  shows "assigns_fields metadata as"
    and "\<forall>a \<in> set as. \<exists>f \<in> set (mFields metadata). fieldReference f = asgField a \<and> \<not> fPrimaryKey f"
    and "as = [] \<longleftrightarrow> fs = []"
  using assms unfolding saveAssignments_Inr assigns_fields_def
  by (auto simp: distinct_map inj_on_def)

text \<open>Inserting the key assignment at the place of the key field keeps the shape.\<close>

lemma insert_assignments_fields:
  assumes names: "distinct (map fName (mFields metadata))" and as: "assigns_fields metadata as"
    and pk: "autoPrimaryKey metadata = (primaryKey, True)" and key: "mutationValueMatches primaryKey keyValue"
  shows "assigns_fields metadata (insert_assignments metadata (orm_NewAssignment primaryKey keyValue) as)"
proof -
  define g where "g = (\<lambda>field. if fPrimaryKey field then Some (orm_NewAssignment primaryKey keyValue)
        else assignmentForField as field)"
  have ins: "insert_assignments metadata (orm_NewAssignment primaryKey keyValue) as
      = map (the \<circ> g) (filter (\<lambda>f. g f \<noteq> None) (mFields metadata))"
    by (simp add: insert_assignments_def g_def List.map_filter_def)
  have found: "a \<in> set as \<and> asgField a = fieldReference f" if "assignmentForField as f = Some a" for a f
    using that by (auto simp: assignmentForField_def find_Some_iff)
  have ref: "asgField a = fieldReference f \<and> mutationValueMatches f (asgValue a)"
    if f: "f \<in> set (mFields metadata)" and a: "g f = Some a" for f a
  proof (cases "fPrimaryKey f")
    case True
    with a f autoPrimaryKey_True(4)[OF pk f] key show ?thesis by (auto simp: g_def)
  next
    case False
    with a found have a': "a \<in> set as" "asgField a = fieldReference f" by (auto simp: g_def)
    with as obtain h where h: "h \<in> set (mFields metadata)" "fieldReference h = asgField a"
      "mutationValueMatches h (asgValue a)" by (auto simp: assigns_fields_def)
    then have "fName h = fName f" using a'(2) by (metis fieldReference_simps(1))
    with names f h(1) have "h = f" by (auto simp: distinct_map inj_on_def)
    with h a' show ?thesis by simp
  qed
  have "map (frName \<circ> asgField) (map (the \<circ> g) (filter (\<lambda>f. g f \<noteq> None) (mFields metadata)))
      = map fName (filter (\<lambda>f. g f \<noteq> None) (mFields metadata))"
    using ref by auto
  with names have "distinct (map (frName \<circ> asgField) (map (the \<circ> g) (filter (\<lambda>f. g f \<noteq> None) (mFields metadata))))"
    by (simp only: distinct_map_filter)
  with ref show ?thesis unfolding assigns_fields_def ins by fastforce
qed

text \<open>What a plan is made of.\<close>

lemma plan_save_shape:
  assumes names: "distinct (map fName (mFields metadata))" and pk: "autoPrimaryKey metadata = (primaryKey, True)"
    and sel: "resolveSaveFields metadata state = Inr selected" "ssFieldMaskSet state \<Longrightarrow> selected \<noteq> []"
    and plan: "plan_save wc metadata primaryKey v state selected = Inr plan"
  obtains keyValue as where "mutationValueMatches primaryKey keyValue" "\<not> IsNull keyValue" "assigns_fields metadata as"
    "\<forall>a \<in> set as. \<exists>f \<in> set (mFields metadata). fieldReference f = asgField a \<and> \<not> fPrimaryKey f"
    "as = [] \<longleftrightarrow> nonPrimaryFields metadata = []"
    "spHasInsert plan \<Longrightarrow> spInsert plan = NewInsertPlan (mDBTable metadata) as
       \<or> spInsert plan = NewInsertPlan (mDBTable metadata)
           (insert_assignments metadata (orm_NewAssignment primaryKey keyValue) as)"
    "spHasUpdate plan \<Longrightarrow> spUpdate plan = NewUpdatePlan (mDBTable metadata) as (fieldReference primaryKey) keyValue"
proof -
  define fs where "fs = (if ssFieldMaskSet state then selected else nonPrimaryFields metadata)"
  obtain keyValue present where k: "wcPrimaryKey wc v = (keyValue, present)" by fastforce
  from plan k have m: "mutationValueMatches primaryKey keyValue" "\<not> IsNull keyValue"
    by (auto simp: plan_save_def split: if_splits)
  from plan k m obtain as where as: "saveAssignments wc v fs = Inr as"
    by (auto simp: plan_save_def fs_def split: if_splits sum.splits)
  have sel_fields: "\<exists>ns. selected = filter (\<lambda>f. fName f \<in> set ns) (mFields metadata)" if "ssFieldMaskSet state"
    using sel(1) that by (auto simp: resolveSaveFields_def split: sum.splits)
  have sub: "set fs \<subseteq> set (mFields metadata)" "distinct (map fName fs)"
    using sel_fields names by (auto simp: fs_def nonPrimaryFields_def distinct_map_filter)
  note shape = saveAssignments_fields[OF names sub as]
  have "fs \<noteq> [] \<Longrightarrow> nonPrimaryFields metadata \<noteq> []"
    using as sub(1) by (cases fs) (auto simp: saveAssignments_Inr nonPrimaryFields_def filter_empty_conv simp del: saveAssignments.simps)
  with sel(2) have "fs = [] \<longleftrightarrow> nonPrimaryFields metadata = []" by (auto simp: fs_def)
  with shape(3) have "as = [] \<longleftrightarrow> nonPrimaryFields metadata = []" by simp
  moreover have "spHasInsert plan \<Longrightarrow> spInsert plan = NewInsertPlan (mDBTable metadata) as
       \<or> spInsert plan = NewInsertPlan (mDBTable metadata)
           (insert_assignments metadata (orm_NewAssignment primaryKey keyValue) as)"
    and "spHasUpdate plan \<Longrightarrow> spUpdate plan = NewUpdatePlan (mDBTable metadata) as (fieldReference primaryKey) keyValue"
    using plan k m as by (auto simp: plan_save_def fs_def Let_def zeroSavePlan_def split: if_splits)
  ultimately show thesis using that[OF m shape(1,2)] by blast
qed

text \<open>
  the plan \<open>Save\<close> builds on a well-formed model compiles, with one exception that the theorem
  pins down: its insert always does, and its update does exactly when the model has a field
  besides its key.
\<close>
theorem save_plans_compile:
  assumes wf: "wf_model uc metadata" and pk: "autoPrimaryKey metadata = (primaryKey, True)"
    and plan: "buildSaveExecutionPlan wc metadata primaryKey v options = Inr plan"
  shows "(spHasInsert plan \<longrightarrow> (\<exists>r. CompileInsert (spInsert plan) = Inr r))
    \<and> (spHasUpdate plan \<longrightarrow> ((\<exists>r. CompileUpdate (spUpdate plan) = Inr r) \<longleftrightarrow> nonPrimaryFields metadata \<noteq> []))"
proof (cases "spNoOp plan")
  case True
  with plan have "\<not> spHasInsert plan \<and> \<not> spHasUpdate plan"
    by (auto simp: buildSaveExecutionPlan_Inr plan_of_state_def plan_save_def Let_def zeroSavePlan_def
        split: sum.splits if_splits prod.splits)
  then show ?thesis by simp
next
  case False
  from plan obtain state where st: "plan_of_state wc metadata primaryKey v state = Inr plan"
    by (auto simp: buildSaveExecutionPlan_Inr)
  with False obtain selected where sel: "resolveSaveFields metadata state = Inr selected"
    "ssFieldMaskSet state \<Longrightarrow> selected \<noteq> []" and p: "plan_save wc metadata primaryKey v state selected = Inr plan"
    by (auto simp: plan_of_state_def split: if_splits sum.splits)
  have names: "distinct (map fName (mFields metadata))" using wf by (simp add: wf_model_def)
  have table: "quotable (mDBTable metadata)"
    using wf databaseIdentifier_sql(1) by (simp add: wf_model_def)
  from names pk sel p show ?thesis
  proof (rule plan_save_shape)
    fix keyValue as
    assume key: "mutationValueMatches primaryKey keyValue" "\<not> IsNull keyValue" and as: "assigns_fields metadata as"
      and np: "\<forall>a \<in> set as. \<exists>f \<in> set (mFields metadata). fieldReference f = asgField a \<and> \<not> fPrimaryKey f"
      and empty: "as = [] \<longleftrightarrow> nonPrimaryFields metadata = []"
      and ins: "spHasInsert plan \<Longrightarrow> spInsert plan = NewInsertPlan (mDBTable metadata) as
         \<or> spInsert plan = NewInsertPlan (mDBTable metadata)
             (insert_assignments metadata (orm_NewAssignment primaryKey keyValue) as)"
      and upd: "spHasUpdate plan \<Longrightarrow>
         spUpdate plan = NewUpdatePlan (mDBTable metadata) as (fieldReference primaryKey) keyValue"
    have sup: "assignments_supported as"
      "assignments_supported (insert_assignments metadata (orm_NewAssignment primaryKey keyValue) as)"
      using assigns_fields_supported[OF wf] as insert_assignments_fields[OF names as pk key(1)] by blast+
    have "update_supported (NewUpdatePlan (mDBTable metadata) as (fieldReference primaryKey) keyValue)
        \<longleftrightarrow> as \<noteq> []"
      using table sup(1) no_key_assigned[OF wf pk np] key_field_supported[OF wf pk key]
      by (simp add: update_supported_def NewUpdatePlan_def)
    then show ?thesis
      unfolding CompileInsert_Inr_iff CompileUpdate_succeeds_iff
      using ins upd sup table empty by (auto simp: NewInsertPlan_def)
  qed
qed

theorem save_plans_compile_witness:
  "\<exists>plan r. buildSaveExecutionPlan articleWrite articleMetadata (mFields articleMetadata ! 0)
     (NewArticleWithID 7) [] = Inr plan \<and> CompileUpdate (spUpdate plan) = Inr r"
proof -
  let ?pk = "mFields articleMetadata ! 0"
  have "\<exists>plan. buildSaveExecutionPlan articleWrite articleMetadata ?pk (NewArticleWithID 7) [] = Inr plan
      \<and> spHasUpdate plan"
    by (simp add: buildSaveExecutionPlan_def zeroSaveState_def resolveSaveFields_def plan_save_def Let_def
        Article_PrimaryKey_def NewArticleWithID_def zeroArticle_def mutationValueMatches_def IsNull_def Integer_def
        nonPrimaryFields_def articleMetadata_def zeroField_def Article_WriteFieldValue_def Boolean_def String_def Null_def)
  then obtain plan where p: "buildSaveExecutionPlan articleWrite articleMetadata ?pk (NewArticleWithID 7) [] = Inr plan"
    "spHasUpdate plan" by blast
  from save_plans_compile[OF articleMetadata_wf article_primaryKey p(1)] p(2)
  have "\<exists>r. CompileUpdate (spUpdate plan) = Inr r"
    by (simp add: nonPrimaryFields_def articleMetadata_def zeroField_def)
  with p(1) show ?thesis by blast
qed

text \<open>
  The exception: a model whose only field is its key. The default \<open>Save\<close> of a keyed instance plans
  an update without assignments, which no row can satisfy, although the insert it would fall back
  to, and a forced insert, are valid statements.
\<close>

theorem keyed_save_without_fields_fails:
  assumes wf: "wf_model uc metadata" and pk: "autoPrimaryKey metadata = (primaryKey, True)"
    and none: "nonPrimaryFields metadata = []" and key: "wcPrimaryKey wc v = (Integer k, True)"
  shows "\<exists>plan err r. buildSaveExecutionPlan wc metadata primaryKey v [] = Inr plan \<and> spHasUpdate plan
    \<and> CompileUpdate (spUpdate plan) = Inl err \<and> CompileInsert (spInsert plan) = Inr r"
proof -
  have "mutationValueMatches primaryKey (Integer k)" "\<not> IsNull (Integer k)"
    using autoPrimaryKey_True(3)[OF pk] by (simp_all add: mutationValueMatches_def Integer_def IsNull_def)
  with key none obtain plan where p: "buildSaveExecutionPlan wc metadata primaryKey v [] = Inr plan"
    "spHasUpdate plan" "spHasInsert plan"
    by (auto simp: buildSaveExecutionPlan_def zeroSaveState_def resolveSaveFields_def plan_save_def Let_def)
  with save_plans_compile[OF wf pk p(1)] none show ?thesis by (cases "CompileUpdate (spUpdate plan)") auto
qed

end
