(* ===== verification/Orm_Rows.thy ===== *)
theory Orm_Rows
  imports Orm_Compile
begin

text \<open>
  What \<open>Save\<close> does to the rows of a table. The database behind \<open>db.Mutator\<close> is not code of the
  repository; \<open>row_store\<close> states what its documentation promises of the three calls, in terms of the
  rows it holds, and \<open>Save\<close> is proved to act on them as an upsert.
\<close>

section \<open>A table of rows\<close>

type_synonym row = "string \<rightharpoonup> qvalue"
type_synonym rows = "int \<rightharpoonup> row"

definition assigned_key :: "ir_field \<Rightarrow> assignment list \<Rightarrow> int option" where
  "assigned_key primaryKey as = map_option (vInteger \<circ> asgValue) (find (\<lambda>a. asgField a = fieldReference primaryKey) as)"

definition assigned_row :: "ir_field \<Rightarrow> assignment list \<Rightarrow> row" where
  "assigned_row primaryKey as =
     map_of (map (\<lambda>a. (frName (asgField a), asgValue a)) (filter (\<lambda>a. asgField a \<noteq> fieldReference primaryKey) as))"

text \<open>
  An insert adds a row under an unused key, the given one if there is one; an update overwrites the
  assigned columns of the row with the key and reports whether there is one; a failing call
  leaves the rows alone.
\<close>

definition inserts_rows :: "'w mutator \<Rightarrow> ('w \<Rightarrow> rows) \<Rightarrow> string \<Rightarrow> ir_field \<Rightarrow> bool" where
  "inserts_rows be rows table primaryKey \<longleftrightarrow> (\<forall>as w.
     (case muInsert be (NewInsertPlan table as) w of
        (Inl err, w') \<Rightarrow> rows w' = rows w
      | (Inr n, w') \<Rightarrow> (\<forall>k. assigned_key primaryKey as = Some k \<longrightarrow> n = k) \<and> rows w n = None
          \<and> rows w' = (rows w)(n \<mapsto> assigned_row primaryKey as)))"

definition updates_rows :: "'w mutator \<Rightarrow> ('w \<Rightarrow> rows) \<Rightarrow> string \<Rightarrow> ir_field \<Rightarrow> bool" where
  "updates_rows be rows table primaryKey \<longleftrightarrow> (\<forall>as k w.
     (case muUpdate be (NewUpdatePlan table as (fieldReference primaryKey) (Integer k)) w of
        (Inl err, w') \<Rightarrow> rows w' = rows w
      | (Inr n, w') \<Rightarrow>
          (case rows w k of
             None \<Rightarrow> n = 0 \<and> rows w' = rows w
           | Some r \<Rightarrow> n = 1 \<and> rows w' = (rows w)(k \<mapsto> r ++ assigned_row primaryKey as))))"

definition row_store :: "'w mutator \<Rightarrow> ('w \<Rightarrow> rows) \<Rightarrow> 'w go_context \<Rightarrow> string \<Rightarrow> ir_field \<Rightarrow> bool" where
  "row_store be rows ctx table primaryKey \<longleftrightarrow>
     inserts_rows be rows table primaryKey \<and> updates_rows be rows table primaryKey
     \<and> (\<forall>ctxErr w. ctx = Some ctxErr \<longrightarrow> rows (snd (ctxErr w)) = rows w)"

text \<open>The columns of a model that \<open>Save\<close> writes, and the row they make.\<close>

definition saved_fields :: "ir_model \<Rightarrow> save_option list \<Rightarrow> ir_field list" where
  "saved_fields metadata os =
     (if list_ex mask_option os
      then (case resolveSaveFields metadata (options_state os) of Inr selected \<Rightarrow> selected | Inl _ \<Rightarrow> [])
      else nonPrimaryFields metadata)"

definition row_of :: "'m write_capability \<Rightarrow> 'm \<Rightarrow> ir_field list \<Rightarrow> row" where
  "row_of wc v fs = map_of (map (\<lambda>f. (fName f, fst (wcWriteFieldValue wc v f))) fs)"

definition asks_for :: "save_option_kind \<Rightarrow> save_option list \<Rightarrow> bool" where
  "asks_for k os \<longleftrightarrow> list_ex (\<lambda>opt. soKind opt = k) os"

definition update_only :: "save_option list \<Rightarrow> bool" where
  "update_only os \<longleftrightarrow> asks_for saveOptionForceUpdate os \<or> list_ex mask_option os"

section \<open>Assignments as rows\<close>

lemma assigned_row_map:
  assumes "\<forall>f \<in> set fs. fieldReference f \<noteq> fieldReference primaryKey"
  shows "assigned_row primaryKey (map (\<lambda>f. orm_NewAssignment f (val f)) fs) = map_of (map (\<lambda>f. (fName f, val f)) fs)"
proof -
  have "filter (\<lambda>a. asgField a \<noteq> fieldReference primaryKey) (map (\<lambda>f. orm_NewAssignment f (val f)) fs)
      = map (\<lambda>f. orm_NewAssignment f (val f)) fs"
    using assms by (auto simp: filter_id_conv)
  then show ?thesis by (simp add: assigned_row_def comp_def)
qed

lemma reference_inj:
  "distinct (map fName (mFields metadata)) \<Longrightarrow> f \<in> set (mFields metadata) \<Longrightarrow> g \<in> set (mFields metadata)
    \<Longrightarrow> fieldReference f = fieldReference g \<Longrightarrow> f = g"
  by (metis distinct_map fieldReference_simps(1) inj_onD)

lemma assignmentForField_map:
  assumes "distinct (map fName (mFields metadata))" and "f \<in> set (mFields metadata)"
    and "set fs \<subseteq> set (mFields metadata)"
  shows "assignmentForField (map (\<lambda>f. orm_NewAssignment f (val f)) fs) f
    = (if f \<in> set fs then Some (orm_NewAssignment f (val f)) else None)"
  using assms(3)
proof (induction fs)
  case (Cons g fs)
  then have "fieldReference g = fieldReference f \<longleftrightarrow> g = f" using reference_inj[OF assms(1)] assms(2) by auto
  with Cons show ?case by (auto simp: assignmentForField_def)
qed (simp add: assignmentForField_def)

lemma not_primary_reference:
  assumes "distinct (map fName (mFields metadata))" and "autoPrimaryKey metadata = (primaryKey, True)"
    and "f \<in> set (mFields metadata)"
  shows "fieldReference f = fieldReference primaryKey \<longleftrightarrow> fPrimaryKey f"
  using reference_inj[OF assms(1,3) autoPrimaryKey_True(1)[OF assms(2)]] autoPrimaryKey_True(2)[OF assms(2)]
    autoPrimaryKey_True(4)[OF assms(2,3)] by metis

lemma keyed_insert_assignments:
  assumes names: "distinct (map fName (mFields metadata))" and pk: "autoPrimaryKey metadata = (primaryKey, True)"
  shows "insert_assignments metadata (orm_NewAssignment primaryKey keyValue)
      (map (\<lambda>f. orm_NewAssignment f (val f)) (nonPrimaryFields metadata))
    = map (\<lambda>f. orm_NewAssignment f (if fPrimaryKey f then keyValue else val f)) (mFields metadata)"
proof -
  let ?g = "\<lambda>f. if fPrimaryKey f then Some (orm_NewAssignment primaryKey keyValue)
      else assignmentForField (map (\<lambda>f. orm_NewAssignment f (val f)) (nonPrimaryFields metadata)) f"
  have sub: "set (nonPrimaryFields metadata) \<subseteq> set (mFields metadata)" by (auto simp: nonPrimaryFields_def)
  have g: "?g f = Some (orm_NewAssignment f (if fPrimaryKey f then keyValue else val f))"
    if f: "f \<in> set (mFields metadata)" for f
  proof (cases "fPrimaryKey f")
    case True
    with autoPrimaryKey_True(4)[OF pk f] show ?thesis by simp
  next
    case False
    with f have "f \<in> set (nonPrimaryFields metadata)" by (simp add: nonPrimaryFields_def)
    with False assignmentForField_map[OF names f sub, of val] show ?thesis by simp
  qed
  then have "filter (\<lambda>f. ?g f \<noteq> None) (mFields metadata) = mFields metadata"
    by (intro filter_True ballI) (simp only: option.distinct not_False_eq_True)
  with g show ?thesis unfolding insert_assignments_def List.map_filter_def by auto
qed

lemma keyed_insert_row:
  assumes names: "distinct (map fName (mFields metadata))" and pk: "autoPrimaryKey metadata = (primaryKey, True)"
  shows "assigned_key primaryKey
      (map (\<lambda>f. orm_NewAssignment f (if fPrimaryKey f then keyValue else val f)) (mFields metadata))
      = Some (vInteger keyValue)"
    and "assigned_row primaryKey
      (map (\<lambda>f. orm_NewAssignment f (if fPrimaryKey f then keyValue else val f)) (mFields metadata))
      = map_of (map (\<lambda>f. (fName f, val f)) (nonPrimaryFields metadata))"
proof -
  note ref = not_primary_reference[OF names pk]
  have find: "find (\<lambda>a. asgField a = fieldReference primaryKey)
      (map (\<lambda>f. orm_NewAssignment f (if fPrimaryKey f then keyValue else val f)) fs)
    = (if \<exists>f \<in> set fs. fPrimaryKey f then Some (orm_NewAssignment primaryKey keyValue) else None)"
    if "set fs \<subseteq> set (mFields metadata)" for fs
    using that
  proof (induction fs)
    case (Cons f fs)
    with ref[of f] autoPrimaryKey_True(4)[OF pk, of f] show ?case by auto
  qed simp
  have "\<exists>f \<in> set (mFields metadata). fPrimaryKey f" using autoPrimaryKey_True[OF pk] by blast
  with find[OF order_refl] show "assigned_key primaryKey
      (map (\<lambda>f. orm_NewAssignment f (if fPrimaryKey f then keyValue else val f)) (mFields metadata))
      = Some (vInteger keyValue)" by (simp add: assigned_key_def)
  have "filter (\<lambda>a. asgField a \<noteq> fieldReference primaryKey)
      (map (\<lambda>f. orm_NewAssignment f (if fPrimaryKey f then keyValue else val f)) fs)
    = map (\<lambda>f. orm_NewAssignment f (val f)) (filter (\<lambda>f. \<not> fPrimaryKey f) fs)"
    if "set fs \<subseteq> set (mFields metadata)" for fs
    using that by (induction fs) (simp_all add: ref)
  from this[OF order_refl] show "assigned_row primaryKey
      (map (\<lambda>f. orm_NewAssignment f (if fPrimaryKey f then keyValue else val f)) (mFields metadata))
      = map_of (map (\<lambda>f. (fName f, val f)) (nonPrimaryFields metadata))"
    by (simp add: assigned_row_def nonPrimaryFields_def comp_def)
qed

lemma plain_row:
  assumes names: "distinct (map fName (mFields metadata))" and pk: "autoPrimaryKey metadata = (primaryKey, True)"
    and "set fs \<subseteq> set (nonPrimaryFields metadata)"
  shows "assigned_row primaryKey (map (\<lambda>f. orm_NewAssignment f (val f)) fs) = map_of (map (\<lambda>f. (fName f, val f)) fs)"
  using assms(3) not_primary_reference[OF names pk]
  by (intro assigned_row_map) (auto simp: nonPrimaryFields_def)

lemma plain_key:
  assumes names: "distinct (map fName (mFields metadata))" and pk: "autoPrimaryKey metadata = (primaryKey, True)"
    and "set fs \<subseteq> set (nonPrimaryFields metadata)"
  shows "assigned_key primaryKey (map (\<lambda>f. orm_NewAssignment f (val f)) fs) = None"
  using assms(3) not_primary_reference[OF names pk]
  by (auto simp: assigned_key_def find_None_iff nonPrimaryFields_def)

section \<open>The effect of a plan\<close>

lemma save_insert_rows:
  assumes "row_store be rows ctx table primaryKey" and "save_insert be wc v plan w = ((err, v'), w')"
    and "spHasInsert plan" "spInsert plan = NewInsertPlan table as"
  shows "case err of Some e \<Rightarrow> rows w' = rows w \<and> v' = v
    | None \<Rightarrow> \<exists>n. (\<forall>k. assigned_key primaryKey as = Some k \<longrightarrow> n = k) \<and> rows w n = None
        \<and> rows w' = (rows w)(n \<mapsto> assigned_row primaryKey as)
        \<and> v' = (if spAssignGeneratedKey plan then wcSetPrimaryKey wc n v else v)"
proof -
  from assms(1) have "inserts_rows be rows table primaryKey" by (simp add: row_store_def)
  then have "case muInsert be (NewInsertPlan table as) w of
        (Inl err, w') \<Rightarrow> rows w' = rows w
      | (Inr n, w') \<Rightarrow> (\<forall>k. assigned_key primaryKey as = Some k \<longrightarrow> n = k) \<and> rows w n = None
          \<and> rows w' = (rows w)(n \<mapsto> assigned_row primaryKey as)"
    unfolding inserts_rows_def by (elim allE)
  with assms(2-4) show ?thesis by (auto simp: save_insert_def split: prod.splits sum.splits)
qed

lemma update_rows:
  assumes "row_store be rows ctx table primaryKey"
    and "muUpdate be (NewUpdatePlan table as (fieldReference primaryKey) (Integer k)) w = (res, w')"
  shows "case res of Inl err \<Rightarrow> rows w' = rows w
    | Inr n \<Rightarrow> (case rows w k of None \<Rightarrow> n = 0 \<and> rows w' = rows w
        | Some r \<Rightarrow> n = 1 \<and> rows w' = (rows w)(k \<mapsto> r ++ assigned_row primaryKey as))"
proof -
  from assms(1) have "updates_rows be rows table primaryKey" by (simp add: row_store_def)
  then have "case muUpdate be (NewUpdatePlan table as (fieldReference primaryKey) (Integer k)) w of
        (Inl err, w') \<Rightarrow> rows w' = rows w
      | (Inr n, w') \<Rightarrow>
          (case rows w k of
             None \<Rightarrow> n = 0 \<and> rows w' = rows w
           | Some r \<Rightarrow> n = 1 \<and> rows w' = (rows w)(k \<mapsto> r ++ assigned_row primaryKey as))"
    unfolding updates_rows_def by (elim allE)
  with assms(2) show ?thesis by (simp split: sum.splits)
qed

text \<open>What a save leaves behind: the row \<open>r\<close> laid over the old one under one key.\<close>

definition upserted :: "rows \<Rightarrow> rows \<Rightarrow> int \<Rightarrow> row \<Rightarrow> bool" where
  "upserted before after k r \<longleftrightarrow>
     after = before(k \<mapsto> (case before k of None \<Rightarrow> Map.empty | Some old \<Rightarrow> old) ++ r)"

definition save_effect :: "rows \<Rightarrow> rows \<Rightarrow> row \<Rightarrow> 'm write_capability \<Rightarrow> 'm \<Rightarrow> 'm \<Rightarrow> int option
    \<Rightarrow> bool \<Rightarrow> bool \<Rightarrow> bool" where
  "save_effect before after r wc v v' key onlyInsert onlyUpdate \<longleftrightarrow>
     (\<exists>k. upserted before after k r
        \<and> (case key of
             None \<Rightarrow> before k = None \<and> v' = wcSetPrimaryKey wc k v
           | Some k' \<Rightarrow> k = k' \<and> v' = v)
        \<and> (onlyInsert \<longrightarrow> before k = None) \<and> (onlyUpdate \<longrightarrow> before k \<noteq> None))"

lemma plan_save_keyless:
  assumes "plan_save wc metadata primaryKey s state selected = Inr plan"
    and "wcPrimaryKey wc s = (Integer key, False)"
  shows "\<exists>as. saveAssignments wc s (nonPrimaryFields metadata) = Inr as \<and> \<not> ssForceUpdate state \<and> \<not> ssFieldMaskSet state
    \<and> plan = zeroSavePlan\<lparr>spHasInsert := True, spInsert := NewInsertPlan (mDBTable metadata) as,
        spAssignGeneratedKey := True\<rparr>"
  using assms by (auto simp: plan_save_def split: if_splits sum.splits)

lemma keyless_save_rows:
  assumes names: "distinct (map fName (mFields metadata))" and pk: "autoPrimaryKey metadata = (primaryKey, True)"
    and store: "row_store be rows ctx (mDBTable metadata) primaryKey"
    and plan: "plan_save wc metadata primaryKey s state selected = Inr plan"
    and key: "wcPrimaryKey wc s = (Integer key, False)"
    and exec: "executeSavePlan be wc v plan w = ((err, v'), w')"
  shows "case err of Some e \<Rightarrow> rows w' = rows w \<and> v' = v
    | None \<Rightarrow> save_effect (rows w) (rows w') (row_of wc s (nonPrimaryFields metadata)) wc v v' None b False"
proof -
  from plan_save_keyless[OF plan key] obtain as where as: "saveAssignments wc s (nonPrimaryFields metadata) = Inr as"
    and p: "plan = zeroSavePlan\<lparr>spHasInsert := True, spInsert := NewInsertPlan (mDBTable metadata) as,
        spAssignGeneratedKey := True\<rparr>" by blast
  from exec have "save_insert be wc v plan w = ((err, v'), w')"
    by (simp add: p executeSavePlan_def zeroSavePlan_def)
  note ins = save_insert_rows[OF store this, of as]
  have row: "assigned_row primaryKey as = row_of wc s (nonPrimaryFields metadata)"
    using as plain_row[OF names pk order_refl] by (auto simp: saveAssignments_Inr row_of_def)
  show ?thesis using ins by (auto simp: p zeroSavePlan_def row save_effect_def upserted_def split: option.splits)
qed

lemma plan_save_keyed:
  assumes "plan_save wc metadata primaryKey s state selected = Inr plan"
    and "wcPrimaryKey wc s = (Integer key, True)"
  shows "\<exists>as. saveAssignments wc s (if ssFieldMaskSet state then selected else nonPrimaryFields metadata) = Inr as
    \<and> (let ins = NewInsertPlan (mDBTable metadata)
             (insert_assignments metadata (orm_NewAssignment primaryKey (Integer key)) as);
           updateOnly = (ssForceUpdate state \<or> ssFieldMaskSet state) in
       \<not> spNoOp plan \<and> \<not> spAssignGeneratedKey plan \<and> spInsert plan = ins
       \<and> (if ssForceInsert state then \<not> spHasUpdate plan \<and> spHasInsert plan
          else spHasUpdate plan
            \<and> spUpdate plan = NewUpdatePlan (mDBTable metadata) as (fieldReference primaryKey) (Integer key)
            \<and> spHasInsert plan = (\<not> updateOnly)
            \<and> spZeroRows plan = (if updateOnly then saveZeroRowsNotUpdated else saveZeroRowsInsert)))"
  using assms by (auto simp: plan_save_def zeroSavePlan_def Let_def split: if_splits sum.splits)

text \<open>The insert of a keyed plan without a mask.\<close>

lemma keyed_insert_rows:
  assumes names: "distinct (map fName (mFields metadata))" and pk: "autoPrimaryKey metadata = (primaryKey, True)"
    and store: "row_store be rows ctx (mDBTable metadata) primaryKey"
    and as: "saveAssignments wc s (nonPrimaryFields metadata) = Inr as"
    and p: "spInsert plan = NewInsertPlan (mDBTable metadata)
         (insert_assignments metadata (orm_NewAssignment primaryKey (Integer key)) as)"
      "spHasInsert plan" "\<not> spAssignGeneratedKey plan"
    and exec: "save_insert be wc v plan w = ((err, v'), w')"
  shows "case err of Some e \<Rightarrow> rows w' = rows w \<and> v' = v
    | None \<Rightarrow> rows w key = None \<and> rows w' = (rows w)(key \<mapsto> row_of wc s (nonPrimaryFields metadata)) \<and> v' = v"
proof -
  have shape: "as = map (\<lambda>f. orm_NewAssignment f (fst (wcWriteFieldValue wc s f))) (nonPrimaryFields metadata)"
    using as by (simp add: saveAssignments_Inr)
  from save_insert_rows[OF store exec p(2,1)] show ?thesis
    by (auto simp: p(3) shape keyed_insert_assignments[OF names pk] keyed_insert_row[OF names pk] row_of_def
        Integer_def split: option.splits)
qed

lemma keyed_save_rows:
  assumes names: "distinct (map fName (mFields metadata))" and pk: "autoPrimaryKey metadata = (primaryKey, True)"
    and store: "row_store be rows ctx (mDBTable metadata) primaryKey"
    and plan: "plan_save wc metadata primaryKey s state selected = Inr plan"
    and key: "wcPrimaryKey wc s = (Integer key, True)"
    and fs: "fs = (if ssFieldMaskSet state then selected else nonPrimaryFields metadata)"
      "set fs \<subseteq> set (nonPrimaryFields metadata)"
    and flags: "\<not> (ssForceInsert state \<and> (ssFieldMaskSet state \<or> ssForceUpdate state))"
    and exec: "executeSavePlan be wc v plan w = ((err, v'), w')"
  shows "case err of Some e \<Rightarrow> rows w' = rows w \<and> v' = v
    | None \<Rightarrow> save_effect (rows w) (rows w') (row_of wc s fs) wc v v' (Some key) (ssForceInsert state)
        (ssForceUpdate state \<or> ssFieldMaskSet state)"
proof -
  let ?updateOnly = "ssForceUpdate state \<or> ssFieldMaskSet state"
  from plan_save_keyed[OF plan key] obtain as where as: "saveAssignments wc s fs = Inr as"
    and p: "\<not> spNoOp plan" "\<not> spAssignGeneratedKey plan"
      "spInsert plan = NewInsertPlan (mDBTable metadata)
         (insert_assignments metadata (orm_NewAssignment primaryKey (Integer key)) as)"
    and kind: "if ssForceInsert state then \<not> spHasUpdate plan \<and> spHasInsert plan
       else spHasUpdate plan
         \<and> spUpdate plan = NewUpdatePlan (mDBTable metadata) as (fieldReference primaryKey) (Integer key)
         \<and> spHasInsert plan = (\<not> ?updateOnly)
         \<and> spZeroRows plan = (if ?updateOnly then saveZeroRowsNotUpdated else saveZeroRowsInsert)"
    unfolding Let_def fs(1)[symmetric] by blast
  have row: "assigned_row primaryKey as = row_of wc s fs"
    using as by (auto simp: saveAssignments_Inr row_of_def plain_row[OF names pk fs(2)])
  have all: "fs = nonPrimaryFields metadata" if "\<not> ?updateOnly" using that fs(1) by simp
  have "saveAssignments wc s (nonPrimaryFields metadata) = Inr as" if "\<not> ?updateOnly" using as all[OF that] by simp
  note insert = keyed_insert_rows[OF names pk store this p(3) _ p(2)]
  show ?thesis
  proof (cases "ssForceInsert state")
    case True
    with kind flags have i: "\<not> spHasUpdate plan" "spHasInsert plan" "\<not> ?updateOnly" by auto
    with exec p(1) have "save_insert be wc v plan w = ((err, v'), w')" by (simp add: executeSavePlan_def)
    from insert[OF i(3,2) this] all i True show ?thesis
      by (auto simp: save_effect_def upserted_def split: option.splits)
  next
    case False
    with kind have u: "spHasUpdate plan" "spHasInsert plan = (\<not> ?updateOnly)"
      "spUpdate plan = NewUpdatePlan (mDBTable metadata) as (fieldReference primaryKey) (Integer key)"
      "spZeroRows plan = (if ?updateOnly then saveZeroRowsNotUpdated else saveZeroRowsInsert)" by simp_all
    obtain res w1 where upd: "muUpdate be (spUpdate plan) w = (res, w1)" by fastforce
    note upd_rows = update_rows[OF store upd[unfolded u(3)]]
    note run = exec[unfolded executeSavePlan_def, simplified p(1) u(1) upd]
    consider (failed) e where "res = Inl e" | (present) r where "res = Inr 1" "rows w key = Some r"
        "rows w1 = (rows w)(key \<mapsto> r ++ row_of wc s fs)"
      | (absent) "res = Inr 0" "rows w key = None" "rows w1 = rows w"
      using upd_rows row by (cases res; cases "rows w key") auto
    then show ?thesis
    proof cases
      case failed
      with run upd_rows show ?thesis by auto
    next
      case present
      with run False show ?thesis by (auto simp: save_effect_def upserted_def)
    next
      case absent
      show ?thesis
      proof (cases ?updateOnly)
        case True
        with run absent u(4) show ?thesis by (auto split: if_splits)
      next
        case upsert: False
        with run absent u(4) have "save_insert be wc v plan w1 = ((err, v'), w')" by simp
        from insert[OF upsert _ this] u(2) all[OF upsert] upsert False absent show ?thesis
          by (auto simp: save_effect_def upserted_def split: option.splits)
      qed
    qed
  qed
qed

lemma saved_fields_selected:
  assumes "saveAssignments wc s selected = Inr as" and "resolveSaveFields metadata state = Inr selected"
  shows "set selected \<subseteq> set (nonPrimaryFields metadata)"
  using assms by (auto simp: saveAssignments_Inr resolveSaveFields_def nonPrimaryFields_def split: if_splits sum.splits)

lemma options_state_flags:
  "ssFieldMaskSet (options_state os) = list_ex mask_option os"
  "ssForceInsert (options_state os) = asks_for saveOptionForceInsert os"
  "ssForceUpdate (options_state os) = asks_for saveOptionForceUpdate os"
  by (simp_all add: options_state_def asks_for_def)

lemma saved_fields_eq:
  "resolveSaveFields metadata (options_state os) = Inr selected \<Longrightarrow>
     saved_fields metadata os = (if ssFieldMaskSet (options_state os) then selected else nonPrimaryFields metadata)"
  by (simp add: saved_fields_def options_state_flags)

lemma row_of_clone:
  assumes "write_descriptor_laws wc metadata"
  shows "row_of wc (wcCloneWriteModel wc v) fs = row_of wc v fs"
  by (simp add: row_of_def write_descriptor_laws.clone_field[OF assms])

lemma writeConfiguration_rows:
  assumes "row_store be rows ctx table primaryKey" and "writeConfiguration ctx backend descriptor w = (conf, w1)"
  shows "rows w1 = rows w"
proof (cases ctx)
  case None
  with assms(2) show ?thesis by (simp add: writeConfiguration_def)
next
  case (Some f)
  with assms(1) have "rows (snd (f w)) = rows w" by (simp add: row_store_def)
  moreover have "w1 = snd (f w)" using assms(2) Some
    by (auto simp: writeConfiguration_def split: prod.splits option.splits if_splits)
  ultimately show ?thesis by simp
qed

text \<open>A built plan is the empty one, or one whose effect is known.\<close>

lemma built_plan_cases:
  assumes "buildSaveExecutionPlan wc metadata primaryKey s options = Inr plan"
  obtains (Empty) "list_ex mask_option options" "saved_fields metadata options = []" "plan = zeroSavePlan\<lparr>spNoOp := True\<rparr>"
  | (Planned) selected where "\<not> (list_ex mask_option options \<and> saved_fields metadata options = [])"
    "resolveSaveFields metadata (options_state options) = Inr selected"
    "saved_fields metadata options = (if list_ex mask_option options then selected else nonPrimaryFields metadata)"
    "plan_save wc metadata primaryKey s (options_state options) selected = Inr plan"
    "\<not> (asks_for saveOptionForceInsert options \<and> update_only options)"
proof -
  from assms have st: "plan_of_state wc metadata primaryKey s (options_state options) = Inr plan"
    by (simp add: buildSaveExecutionPlan_Inr)
  then obtain selected where sel: "resolveSaveFields metadata (options_state options) = Inr selected"
    by (auto simp: plan_of_state_def split: if_splits sum.splits)
  note saved = saved_fields_eq[OF sel, unfolded options_state_flags]
  show thesis
  proof (cases "list_ex mask_option options \<and> saved_fields metadata options = []")
    case True
    with st sel saved show thesis
      by (intro Empty) (simp_all add: plan_of_state_def options_state_flags split: if_splits)
  next
    case False
    with st sel saved show thesis
      by (intro Planned[OF False sel saved])
        (simp_all add: plan_of_state_def options_state_flags update_only_def split: if_splits)
  qed
qed

lemma planned_save_rows:
  assumes names: "distinct (map fName (mFields metadata))" and pk: "autoPrimaryKey metadata = (primaryKey, True)"
    and store: "row_store be rows ctx (mDBTable metadata) primaryKey"
    and key: "wcPrimaryKey wc s = (Integer key, present)"
    and plan: "buildSaveExecutionPlan wc metadata primaryKey s options = Inr plan"
    and exec: "executeSavePlan be wc v plan w = ((err, v'), w')"
  shows "case err of
      Some e \<Rightarrow> rows w' = rows w \<and> v' = v
    | None \<Rightarrow>
        if list_ex mask_option options \<and> saved_fields metadata options = [] then rows w' = rows w \<and> v' = v
        else save_effect (rows w) (rows w') (row_of wc s (saved_fields metadata options)) wc v v'
               (if present then Some key else None) (asks_for saveOptionForceInsert options) (update_only options)"
  using plan
proof (cases rule: built_plan_cases)
  case Empty
  with exec show ?thesis by (auto simp: executeSavePlan_def)
next
  case (Planned selected)
  note flags = options_state_flags[of options] update_only_def[of options]
  show ?thesis
  proof (cases present)
    case True
    with key have k: "wcPrimaryKey wc s = (Integer key, True)" by simp
    have fs: "saved_fields metadata options
        = (if ssFieldMaskSet (options_state options) then selected else nonPrimaryFields metadata)"
      using Planned(3) by (simp only: flags)
    from plan_save_keyed[OF Planned(4) k]
    obtain as where "saveAssignments wc s (saved_fields metadata options) = Inr as" unfolding fs by blast
    then have "set (saved_fields metadata options) \<subseteq> set (nonPrimaryFields metadata)"
      using saved_fields_selected[OF _ Planned(2)] Planned(3) by (simp split: if_splits)
    from keyed_save_rows[OF names pk store Planned(4) k fs this _ exec] Planned(1,5) True
    show ?thesis by (auto simp: flags split: option.splits)
  next
    case False
    with key have k: "wcPrimaryKey wc s = (Integer key, False)" by simp
    from plan_save_keyless[OF Planned(4) k] have "\<not> update_only options" by (auto simp: flags)
    with keyless_save_rows[where b = "asks_for saveOptionForceInsert options", OF names pk store Planned(4) k exec] Planned(1,3) False show ?thesis
      by (simp add: update_only_def split: option.splits)
  qed
qed

section \<open>Save is an upsert\<close>

text \<open>
  C24: over a database that keeps its promises, \<open>Save\<close> fails without touching a row, and otherwise
  upserts exactly one. The row under the instance's key, or under a fresh key that the
  instance then carries if it had none, is overwritten in the saved columns and keeps the others; an
  empty field mask writes nothing. A forced insert succeeds only where there was no row, and a forced
  update or a field mask only where there was one.
\<close>
theorem Save_upserts_one_row:
  assumes laws: "write_descriptor_laws wc (mdMetadata d)" "mdWrite d = Some wc"
    and pk: "autoPrimaryKey (mdMetadata d) = (primaryKey, True)"
    and store: "row_store be rows ctx (mDBTable (mdMetadata d)) primaryKey"
    and key: "wcPrimaryKey wc v = (Integer key, present)"
    and run: "Save (Some d) ctx (Some be) (Some v) options w = ((err, Some v'), w')"
  shows "case err of
      Some e \<Rightarrow> rows w' = rows w \<and> v' = v
    | None \<Rightarrow>
        if list_ex mask_option options \<and> saved_fields (mdMetadata d) options = [] then rows w' = rows w \<and> v' = v
        else save_effect (rows w) (rows w') (row_of wc v (saved_fields (mdMetadata d) options)) wc v v'
               (if present then Some key else None) (asks_for saveOptionForceInsert options) (update_only options)"
proof -
  let ?s = "wcCloneWriteModel wc v"
  obtain conf w1 where conf: "writeConfiguration ctx (Some be) (Some d) w = (conf, w1)" by fastforce
  note same = writeConfiguration_rows[OF store conf]
  have names: "distinct (map fName (mFields (mdMetadata d)))"
    using laws(1) by (simp add: write_descriptor_laws_def)
  have skey: "wcPrimaryKey wc ?s = (Integer key, present)"
    using write_descriptor_laws.clone_key[OF laws(1)] key by simp
  show ?thesis
  proof (cases conf)
    case (Inl e)
    with run conf same show ?thesis by (auto simp: Save_def)
  next
    case (Inr c)
    with conf laws(2) pk have c: "c = (wc, mdMetadata d, primaryKey)" by (cases c) (auto simp: writeConfiguration_Inr)
    show ?thesis
    proof (cases "buildSaveExecutionPlan wc (mdMetadata d) primaryKey ?s options")
      case (Inl e)
      with run conf Inr c same show ?thesis by (auto simp: Save_def)
    next
      case plan: (Inr plan)
      with run conf Inr c have exec: "executeSavePlan be wc v plan w1 = ((err, v'), w')"
        by (simp add: Save_def split: prod.splits)
      from planned_save_rows[OF names pk store skey plan exec] show ?thesis
        unfolding same row_of_clone[OF laws(1)] .
    qed
  qed
qed

section \<open>A table that keeps the promises\<close>

text \<open>
  An association list of rows, the newest first. It inserts under the given key, if it is free, or
  above every key in use.
\<close>

definition next_key :: "(int \<times> row) list \<Rightarrow> int" where
  "next_key t = foldr (\<lambda>r n. max (fst r) n) t 0 + 1"

definition listTable :: "ir_field \<Rightarrow> (int \<times> row) list mutator" where
  "listTable primaryKey =
     \<lparr>muInsert = (\<lambda>plan t.
        (let k = (case assigned_key primaryKey (ipAssignments plan) of None \<Rightarrow> next_key t | Some k \<Rightarrow> k) in
         if map_of t k = None then (Inr k, (k, assigned_row primaryKey (ipAssignments plan)) # t)
         else (Inl (ErrNew ''unique constraint''), t))),
      muUpdate = (\<lambda>plan t. (case map_of t (vInteger (upKeyValue plan)) of
           None \<Rightarrow> (Inr 0, t)
         | Some r \<Rightarrow> (Inr 1, (vInteger (upKeyValue plan), r ++ assigned_row primaryKey (upAssignments plan)) # t))),
      muDelete = (\<lambda>plan t. (Inr 0, t))\<rparr>"

lemma listTable_row_store: "row_store (listTable primaryKey) map_of (Some (\<lambda>t. (None, t))) table primaryKey"
proof -
  have "(\<forall>r \<in> set t. fst r < foldr (\<lambda>r n. max (fst r) n) t 0 + (1::int))" for t :: "(int \<times> row) list"
    by (induction t) force+
  then have "map_of t (next_key t) = None" for t
    unfolding next_key_def map_of_eq_None_iff by fastforce
  then show ?thesis
    by (auto simp: row_store_def inserts_rows_def updates_rows_def listTable_def NewInsertPlan_def
        NewUpdatePlan_def Integer_def Let_def split: option.splits if_splits)
qed

theorem Save_upserts_one_row_witness:
  "\<exists>t. Save (Some ArticleDescriptor) (Some (\<lambda>t. (None, t))) (Some (listTable (mFields articleMetadata ! 0)))
       (Some (NewArticleWithID 7\<lparr>arPublished := True\<rparr>)) [UpdateFieldNames [''published'']]
       [(7, [''title'' \<mapsto> String ''kept''])]
     = ((None, Some (NewArticleWithID 7\<lparr>arPublished := True\<rparr>)), t)
   \<and> map_of t = [7 \<mapsto> [''title'' \<mapsto> String ''kept'', ''published'' \<mapsto> Boolean True]]"
proof -
  let ?pk = "mFields articleMetadata ! 0" and ?v = "NewArticleWithID 7\<lparr>arPublished := True\<rparr>"
    and ?t = "[(7, [''title'' \<mapsto> String ''kept''])]" and ?os = "[UpdateFieldNames [''published'']]"
  have d: "mdMetadata ArticleDescriptor = articleMetadata" "mdWrite ArticleDescriptor = Some articleWrite"
    by (simp_all add: ArticleDescriptor_def)
  have key: "wcPrimaryKey articleWrite ?v = (Integer 7, True)"
    by (simp add: Article_PrimaryKey_def NewArticleWithID_def zeroArticle_def)
  let ?f = "mFields articleMetadata ! 2" and ?st = "options_state ?os"
  have os: "apply_options zeroSaveState ?os = Inr ?st" and st: "ssErr ?st = None" "ssFieldMaskSet ?st"
    "\<not> ssForceInsert ?st" "\<not> ssForceUpdate ?st" "ssTypedFields ?st = []" "ssDynamicNames ?st = [''published'']"
    by (simp_all add: UpdateFieldNames_def option_apply_def setFieldMask_def zeroSaveState_def options_state_def
        mask_option_def option_fields_def option_names_def)
  have sel: "resolveSaveFields articleMetadata ?st = Inr [?f]"
    by (simp add: resolveSaveFields_def st namedMetadataField_def articleMetadata_def zeroField_def)
  have as: "saveAssignments articleWrite ?v [?f] = Inr [orm_NewAssignment ?f (Boolean True)]"
    by (simp add: articleMetadata_def zeroField_def Article_WriteFieldValue_def mutationValueMatches_def IsNull_def
        Boolean_def)
  have "mutationValueMatches ?pk (Integer 7)" "\<not> IsNull (Integer 7)"
    by (simp_all add: mutationValueMatches_def IsNull_def Integer_def articleMetadata_def zeroField_def)
  with as key have plan: "\<exists>p. plan_save articleWrite articleMetadata ?pk ?v ?st [?f] = Inr p
      \<and> \<not> spNoOp p \<and> spHasUpdate p \<and> spUpdate p = NewUpdatePlan (mDBTable articleMetadata)
          [orm_NewAssignment ?f (Boolean True)] (fieldReference ?pk) (Integer 7)"
    by (simp add: plan_save_def st Let_def del: saveAssignments.simps)
  have build: "buildSaveExecutionPlan articleWrite articleMetadata ?pk ?v ?os
      = plan_save articleWrite articleMetadata ?pk ?v ?st [?f]"
    unfolding buildSaveExecutionPlan_def os by (simp add: st sel)
  from plan obtain p where p: "buildSaveExecutionPlan articleWrite articleMetadata ?pk ?v ?os = Inr p"
    "\<not> spNoOp p" "spHasUpdate p" "spUpdate p = NewUpdatePlan (mDBTable articleMetadata)
          [orm_NewAssignment ?f (Boolean True)] (fieldReference ?pk) (Integer 7)"
    by (auto simp: build)
  have run: "\<exists>t. Save (Some ArticleDescriptor) (Some (\<lambda>t. (None, t))) (Some (listTable ?pk)) (Some ?v) ?os ?t
      = ((None, Some ?v), t)"
    by (simp add: Save_def writeConfiguration_def d article_primaryKey p executeSavePlan_def)
      (simp add: listTable_def NewUpdatePlan_def Integer_def)
  then obtain t where t: "Save (Some ArticleDescriptor) (Some (\<lambda>t. (None, t))) (Some (listTable ?pk)) (Some ?v) ?os ?t
      = ((None, Some ?v), t)" by blast
  have "write_descriptor_laws articleWrite (mdMetadata ArticleDescriptor)"
    unfolding d by (rule article.write_descriptor_laws_axioms)
  have opts: "list_ex mask_option ?os" "\<not> asks_for saveOptionForceInsert ?os" "update_only ?os"
    by (simp_all add: UpdateFieldNames_def mask_option_def asks_for_def update_only_def)
  have saved: "saved_fields articleMetadata ?os = [?f]" using sel opts(1) by (simp add: saved_fields_def)
  from Save_upserts_one_row[OF \<open>write_descriptor_laws articleWrite (mdMetadata ArticleDescriptor)\<close> d(2) _
      listTable_row_store key t] article_primaryKey
  have "save_effect (map_of ?t) (map_of t) (row_of articleWrite ?v [?f]) articleWrite ?v ?v (Some 7) False True"
    by (simp only: d saved opts if_True if_False option.case simp_thms list.distinct)
  moreover have "row_of articleWrite ?v [?f] = [''published'' \<mapsto> Boolean True]"
    by (simp add: row_of_def articleMetadata_def zeroField_def Article_WriteFieldValue_def)
  ultimately have "map_of t = [7 \<mapsto> [''title'' \<mapsto> String ''kept'', ''published'' \<mapsto> Boolean True]]"
    by (auto simp: save_effect_def upserted_def)
  with t show ?thesis by blast
qed

section \<open>What a write returns is what the table holds\<close>

text \<open>A model is stored when the row under its key holds every one of its columns.\<close>

definition stored :: "rows \<Rightarrow> 'm write_capability \<Rightarrow> ir_model \<Rightarrow> 'm \<Rightarrow> bool" where
  "stored rs wc metadata v \<longleftrightarrow>
     (\<exists>k r. wcPrimaryKey wc v = (Integer k, True) \<and> rs k = Some r
        \<and> (\<forall>f \<in> set (nonPrimaryFields metadata). r (fName f) = Some (fst (wcWriteFieldValue wc v f))))"

text \<open>
  What a created and a patched model mean for the rows. A created one is a new row with all its
  columns, under a key that was free. A patch of a model changes the row under the model's key in the
  columns the mutation assigns, to the values the returned model has; the returned model keeps the
  other columns of the model that was passed in, and the row keeps its own.
\<close>

definition row_added :: "rows \<Rightarrow> rows \<Rightarrow> 'm write_capability \<Rightarrow> ir_model \<Rightarrow> 'm \<Rightarrow> bool" where
  "row_added before after wc metadata v \<longleftrightarrow>
     (\<exists>k r. wcPrimaryKey wc v = (Integer k, True) \<and> before k = None \<and> after = before(k \<mapsto> r)
        \<and> (\<forall>f \<in> set (nonPrimaryFields metadata). r (fName f) = Some (fst (wcWriteFieldValue wc v f))))"

definition assigns :: "'m mutation \<Rightarrow> ir_field \<Rightarrow> bool" where
  "assigns mu f \<longleftrightarrow> (\<exists>a \<in> set (muAssignments mu). asgField a = fieldReference f)"

definition row_patched :: "rows \<Rightarrow> rows \<Rightarrow> 'm write_capability \<Rightarrow> ir_model \<Rightarrow> 'm mutation \<Rightarrow> 'm \<Rightarrow> 'm \<Rightarrow> bool" where
  "row_patched before after wc metadata mu current v \<longleftrightarrow>
     (\<exists>k r r'. wcPrimaryKey wc current = (Integer k, True) \<and> wcPrimaryKey wc v = (Integer k, True)
        \<and> before k = Some r \<and> after = before(k \<mapsto> r')
        \<and> (\<forall>f \<in> set (nonPrimaryFields metadata).
             if assigns mu f then r' (fName f) = Some (fst (wcWriteFieldValue wc v f))
             else r' (fName f) = r (fName f) \<and> wcWriteFieldValue wc v f = wcWriteFieldValue wc current f)
        \<and> (\<forall>c. c \<notin> fName ` set (nonPrimaryFields metadata) \<longrightarrow> r' c = r c))"

lemma Integer_inject: "Integer a = Integer b \<longleftrightarrow> a = b"
  by (auto simp: Integer_def dest: arg_cong[of _ _ vInteger])

lemma row_added_stored: "row_added before after wc metadata v \<Longrightarrow> stored after wc metadata v"
  by (auto simp: row_added_def stored_def)

lemma row_patched_stored:
  assumes "row_patched before after wc metadata mu current v" and "stored before wc metadata current"
  shows "stored after wc metadata v"
proof -
  from assms(1) obtain k r r' where p: "wcPrimaryKey wc current = (Integer k, True)" "wcPrimaryKey wc v = (Integer k, True)"
    "before k = Some r" "after = before(k \<mapsto> r')"
    "\<forall>f \<in> set (nonPrimaryFields metadata).
       if assigns mu f then r' (fName f) = Some (fst (wcWriteFieldValue wc v f))
       else r' (fName f) = r (fName f) \<and> wcWriteFieldValue wc v f = wcWriteFieldValue wc current f"
    unfolding row_patched_def by blast
  have "r (fName f) = Some (fst (wcWriteFieldValue wc current f))" if "f \<in> set (nonPrimaryFields metadata)" for f
    using assms(2) p(1,3) that by (auto simp: stored_def Integer_inject)
  then have "r' (fName f) = Some (fst (wcWriteFieldValue wc v f))" if "f \<in> set (nonPrimaryFields metadata)" for f
    using p(5) that by (cases "assigns mu f") auto
  then show ?thesis using p(2,4) by (auto simp: stored_def)
qed

lemma assigned_row_Some:
  assumes "distinct (assigned_names as)" and "a \<in> set as" and "asgField a \<noteq> fieldReference primaryKey"
  shows "assigned_row primaryKey as (frName (asgField a)) = Some (asgValue a)"
proof -
  let ?as = "filter (\<lambda>a. asgField a \<noteq> fieldReference primaryKey) as"
  have "distinct (map fst (map (\<lambda>a. (frName (asgField a), asgValue a)) ?as))"
    using assms(1) distinct_map_filter by (fastforce simp: comp_def)
  with assms(2,3) show ?thesis unfolding assigned_row_def by (intro map_of_is_SomeI) auto
qed

lemma assigned_row_None:
  "\<forall>a \<in> set as. frName (asgField a) \<noteq> n \<Longrightarrow> assigned_row primaryKey as n = None"
  by (auto simp: assigned_row_def map_of_eq_None_iff)

context write_descriptor_laws
begin

lemma created_row:
  assumes "Create (Some d) ctx (Some be) (Some mu) w = (Inr v, w')"
    and d: "mdWrite d = Some wc" "mdMetadata d = metadata"
    and pk: "autoPrimaryKey metadata = (primaryKey, True)"
    and store: "row_store be rows ctx (mDBTable metadata) primaryKey"
  shows "row_added (rows w) (rows w') wc metadata v"
proof -
  from created[OF assms(1) d] obtain n w1 conf where conf: "writeConfiguration ctx (Some be) (Some d) w = (conf, w1)"
    and acc: "mutation_accepted mu MutationCreate metadata wc None"
    and ins: "muInsert be (NewInsertPlan (mDBTable metadata) (muAssignments mu)) w1 = (Inr n, w')"
    and key: "wcPrimaryKey wc v = (Integer n, True)"
    and vals: "\<forall>f \<in> set (nonPrimaryFields metadata). \<exists>a \<in> set (muAssignments mu).
         asgField a = fieldReference f \<and> wcWriteFieldValue wc v f = (asgValue a, True)" by blast
  from store have "inserts_rows be rows (mDBTable metadata) primaryKey" by (simp add: row_store_def)
  then have "case muInsert be (NewInsertPlan (mDBTable metadata) (muAssignments mu)) w1 of
        (Inl err, w') \<Rightarrow> rows w' = rows w1
      | (Inr n, w') \<Rightarrow> (\<forall>k. assigned_key primaryKey (muAssignments mu) = Some k \<longrightarrow> n = k) \<and> rows w1 n = None
          \<and> rows w' = (rows w1)(n \<mapsto> assigned_row primaryKey (muAssignments mu))"
    unfolding inserts_rows_def by (elim allE)
  with ins writeConfiguration_rows[OF store conf] have row: "rows w n = None"
    "rows w' = (rows w)(n \<mapsto> assigned_row primaryKey (muAssignments mu))" by simp_all
  have "assigned_row primaryKey (muAssignments mu) (fName f) = Some (fst (wcWriteFieldValue wc v f))"
    if f: "f \<in> set (nonPrimaryFields metadata)" for f
  proof -
    from vals f obtain a where a: "a \<in> set (muAssignments mu)" "asgField a = fieldReference f"
      "wcWriteFieldValue wc v f = (asgValue a, True)" by blast
    from f not_primary_reference[OF field_names pk, of f] have "fieldReference f \<noteq> fieldReference primaryKey"
      by (simp add: nonPrimaryFields_def)
    with assigned_row_Some[of "muAssignments mu" a primaryKey] a acc show ?thesis by (simp add: mutation_accepted_def)
  qed
  with key row show ?thesis by (auto simp: row_added_def)
qed

lemma updated_row:
  assumes "orm_Update (Some d) ctx (Some be) current (Some build) w = (Inr v, w')"
    and d: "mdWrite d = Some wc" "mdMetadata d = metadata"
    and pk: "autoPrimaryKey metadata = (primaryKey, True)"
    and store: "row_store be rows ctx (mDBTable metadata) primaryKey"
    and int_key: "wcPrimaryKey wc current = (Integer k, present)"
  shows "row_patched (rows w) (rows w') wc metadata (build (wcCloneWriteModel wc current)) current v"
proof -
  from updated[OF assms(1) d] obtain mu keyValue w1 conf
    where mu: "build (wcCloneWriteModel wc current) = mu"
    and conf: "writeConfiguration ctx (Some be) (Some d) w = (conf, w1)"
    and acc: "mutation_accepted mu MutationPatch metadata wc (Some (wcCloneWriteModel wc current))"
    and key: "wcPrimaryKey wc current = (keyValue, True)" "wcPrimaryKey wc v = (keyValue, True)"
    and upd: "muUpdate be (NewUpdatePlan (mDBTable metadata) (muAssignments mu) (fieldReference primaryKey) keyValue) w1
        = (Inr 1, w')"
    and vals: "\<forall>f \<in> set (nonPrimaryFields metadata).
         if assigns mu f
         then \<exists>a \<in> set (muAssignments mu). asgField a = fieldReference f \<and> wcWriteFieldValue wc v f = (asgValue a, True)
         else wcWriteFieldValue wc v f = wcWriteFieldValue wc current f" unfolding pk assigns_def by auto
  have k: "keyValue = Integer k" using int_key key(1) by simp
  from update_rows[OF store upd[unfolded k]] writeConfiguration_rows[OF store conf]
  obtain r where r: "rows w k = Some r" "rows w' = (rows w)(k \<mapsto> r ++ assigned_row primaryKey (muAssignments mu))"
    by (auto split: option.splits)
  have named: "\<exists>g \<in> set (mFields metadata). fieldReference g = asgField a \<and> fName g = frName (asgField a)"
    if "a \<in> set (muAssignments mu)" for a
    using acc that by (auto simp: mutation_accepted_def assignment_accepted_def) (metis fieldReference_simps(1))
  let ?r = "r ++ assigned_row primaryKey (muAssignments mu)"
  have "if assigns mu f then ?r (fName f) = Some (fst (wcWriteFieldValue wc v f))
      else ?r (fName f) = r (fName f) \<and> wcWriteFieldValue wc v f = wcWriteFieldValue wc current f"
    if f: "f \<in> set (nonPrimaryFields metadata)" for f
  proof (cases "assigns mu f")
    case True
    with vals f obtain a where a: "a \<in> set (muAssignments mu)" "asgField a = fieldReference f"
      "wcWriteFieldValue wc v f = (asgValue a, True)" by (metis (no_types, lifting))
    from f not_primary_reference[OF field_names pk, of f] have "fieldReference f \<noteq> fieldReference primaryKey"
      by (simp add: nonPrimaryFields_def)
    with assigned_row_Some[of "muAssignments mu" a primaryKey] a acc True show ?thesis by (simp add: mutation_accepted_def)
  next
    case False
    have "frName (asgField a) \<noteq> fName f" if a: "a \<in> set (muAssignments mu)" for a
    proof
      assume eq: "frName (asgField a) = fName f"
      from named[OF a] obtain g where g: "g \<in> set (mFields metadata)" "fieldReference g = asgField a" "fName g = fName f"
        using eq by auto
      with f field_names have "g = f" by (auto simp: nonPrimaryFields_def distinct_map inj_on_def)
      with a g(2) False show False by (auto simp: assigns_def)
    qed
    with assigned_row_None have "assigned_row primaryKey (muAssignments mu) (fName f) = None" by blast
    with False vals f show ?thesis by (simp add: map_add_def)
  qed
  moreover have "?r c = r c" if c: "c \<notin> fName ` set (nonPrimaryFields metadata)" for c
  proof -
    have other: "frName (asgField a) \<noteq> c" if a: "a \<in> set (muAssignments mu)" "asgField a \<noteq> fieldReference primaryKey" for a
    proof -
      from named[OF a(1)] obtain g where g: "g \<in> set (mFields metadata)" "fieldReference g = asgField a"
        "fName g = frName (asgField a)" by blast
      then have "g \<in> set (nonPrimaryFields metadata)"
        using a(2) not_primary_reference[OF field_names pk g(1)] by (simp add: nonPrimaryFields_def)
      then show ?thesis using c g(3) by force
    qed
    have "assigned_row primaryKey (muAssignments mu) c = None"
      by (auto simp: assigned_row_def map_of_eq_None_iff dest: other)
    then show ?thesis by (simp add: map_add_def)
  qed
  ultimately show ?thesis unfolding row_patched_def mu using key k r by blast
qed

end

text \<open>
  C25: what a write returns against what the table holds, whatever the builders and the input. An
  article that \<open>Create\<close> returns is a new row under a key that was free, with every column as in the
  returned article. \<open>Update\<close> succeeds only on an article whose key has a row; of that row it changes
  exactly the columns the patch assigns, to the values the returned article has, and the returned
  article has the other columns from the article passed in, not from the row. So when the article
  passed in was stored, the returned one is stored again; when it was stale, the columns outside the
  patch may differ from the row's.
\<close>
theorem article_writes_are_stored:
  assumes "row_store be rows ctx (mDBTable articleMetadata) (mFields articleMetadata ! 0)"
  shows "(Create (Some ArticleDescriptor) ctx (Some be) (Some mu) w = (Inr v, w') \<longrightarrow>
        row_added (rows w) (rows w') articleWrite articleMetadata v \<and> stored (rows w') articleWrite articleMetadata v)
    \<and> (orm_Update (Some ArticleDescriptor) ctx (Some be) current (Some build) w = (Inr v, w') \<longrightarrow>
        row_patched (rows w) (rows w') articleWrite articleMetadata (build (Article_CloneWriteModel current)) current v
        \<and> (stored (rows w) articleWrite articleMetadata current \<longrightarrow> stored (rows w') articleWrite articleMetadata v))"
proof -
  have d: "mdWrite ArticleDescriptor = Some articleWrite" "mdMetadata ArticleDescriptor = articleMetadata"
    by (simp_all add: ArticleDescriptor_def)
  have key: "wcPrimaryKey articleWrite current = (Integer (arID current), arKeyPresent current)"
    by (simp add: Article_PrimaryKey_def)
  have created: "row_added (rows w) (rows w') articleWrite articleMetadata v"
    if "Create (Some ArticleDescriptor) ctx (Some be) (Some mu) w = (Inr v, w')"
    using article.created_row[OF that d article_primaryKey assms] .
  have patched: "row_patched (rows w) (rows w') articleWrite articleMetadata (build (Article_CloneWriteModel current)) current v"
    if "orm_Update (Some ArticleDescriptor) ctx (Some be) current (Some build) w = (Inr v, w')"
    using article.updated_row[OF that d article_primaryKey assms key] by simp
  show ?thesis
    by (intro conjI impI created patched row_added_stored[OF created] row_patched_stored[OF patched])
qed

text \<open>
  An article is created, and then a stale copy of it, whose title differs from the row's, is patched:
  the row keeps its title and takes the summary.
\<close>

theorem article_writes_are_stored_witness:
  "\<exists>v t u t'. Create (Some ArticleDescriptor) (Some (\<lambda>t. (None, t))) (Some (listTable (mFields articleMetadata ! 0)))
       (Some (BuildCreate (NewArticleCreate ''first''))) [] = (Inr v, t)
     \<and> stored (map_of t) articleWrite articleMetadata v
     \<and> orm_Update (Some ArticleDescriptor) (Some (\<lambda>t. (None, t))) (Some (listTable (mFields articleMetadata ! 0)))
       (v\<lparr>arTitle := ''stale''\<rparr>) (Some (BuildPatch (Patch_WithPublished zeroArticlePatch True))) t = (Inr u, t')
     \<and> row_patched (map_of t) (map_of t') articleWrite articleMetadata
         (BuildPatch (Patch_WithPublished zeroArticlePatch True) (Article_CloneWriteModel (v\<lparr>arTitle := ''stale''\<rparr>)))
         (v\<lparr>arTitle := ''stale''\<rparr>) u"
proof -
  let ?mu = "BuildCreate (NewArticleCreate ''first'')" and ?pk = "mFields articleMetadata ! 0"
    and ?in = "Patch_WithPublished zeroArticlePatch True"
  have ok: "validateMutation ?mu MutationCreate articleMetadata articleWrite None = None"
    by (simp add: BuildCreate_accepted NewArticleCreate_def Set_change_def unset_nullable_change_def known_state_def)
  have "\<exists>v t. Create (Some ArticleDescriptor) (Some (\<lambda>t. (None, t))) (Some (listTable ?pk)) (Some ?mu) [] = (Inr v, t)"
    by (simp add: Create_def writeConfiguration_def ArticleDescriptor_def article_primaryKey ok)
      (simp add: listTable_def NewInsertPlan_def Let_def split: option.splits)
  then obtain v t where v: "Create (Some ArticleDescriptor) (Some (\<lambda>t. (None, t))) (Some (listTable ?pk)) (Some ?mu) [] = (Inr v, t)"
    by blast
  from article_writes_are_stored[OF listTable_row_store] v
  have stored: "stored (map_of t) articleWrite articleMetadata v" by blast
  then obtain k r where k: "Article_PrimaryKey v = (Integer k, True)" "map_of t k = Some r" by (auto simp: stored_def)
  let ?cur = "v\<lparr>arTitle := ''stale''\<rparr>"
  have as: "patch_assignments ?in \<noteq> []" "known_state (apSummary ?in)"
    by (simp_all add: patch_assignments_def Patch_WithPublished_def zeroArticlePatch_def Set_change_def
        unset_nullable_change_def known_state_def)
  have key: "Article_PrimaryKey ?cur = (Integer k, True)" "Article_PrimaryKey (patched ?in ?cur) = (Integer k, True)"
    using k(1) by (simp_all add: Article_PrimaryKey_def patched_def)
  have pk: "mutationValueMatches ?pk (Integer k)" "\<not> IsNull (Integer k)"
    by (simp_all add: mutationValueMatches_def IsNull_def Integer_def articleMetadata_def zeroField_def)
  have valid: "validateMutation (BuildPatch ?in ?cur) MutationPatch articleMetadata articleWrite (Some ?cur) = None"
    using as by (simp add: BuildPatch_accepted)
  have mu: "muValue (BuildPatch ?in ?cur) = patched ?in ?cur" "muAssignments (BuildPatch ?in ?cur) \<noteq> []"
    using as by (simp_all add: BuildPatch_value NewPatchMutation_def newMutation_def articleMetadata_def)
  have "\<exists>u t'. orm_Update (Some ArticleDescriptor) (Some (\<lambda>t. (None, t))) (Some (listTable ?pk)) ?cur
      (Some (BuildPatch ?in)) t = (Inr u, t')"
    using key pk valid mu k(2)
    by (simp add: orm_Update_def writeConfiguration_def ArticleDescriptor_def article_primaryKey Let_def)
      (simp add: listTable_def NewUpdatePlan_def Integer_def)
  then obtain u t' where u: "orm_Update (Some ArticleDescriptor) (Some (\<lambda>t. (None, t))) (Some (listTable ?pk)) ?cur
      (Some (BuildPatch ?in)) t = (Inr u, t')" by blast
  with article_writes_are_stored[OF listTable_row_store] v stored show ?thesis by blast
qed

end
