(* ===== verification/Orm_Query.thy ===== *)
theory Orm_Query
  imports Orm_Model Sqlite_Driver
begin

text \<open>
  Query sets of package \<open>orm\<close> (\<open>orm/manager.go\<close>): immutable plans over a backend and a descriptor,
  with an evaluation state that copies of one query set share. The functions here are those of
  one caller at a time; \<open>Orm_All\<close> models the concurrent evaluation of \<open>All\<close>.
\<close>

section \<open>Query sets\<close>

text \<open>
  \<open>db.Queryer\<close>: a query returns rows, an error, or (from a backend that does not keep its contract) both
  or neither. A machine \<open>int\<close> is a 64-bit word.
\<close>

type_synonym 'w queryer = "'w go_context \<Rightarrow> select_plan \<Rightarrow> 'w \<Rightarrow> (sql_rows option \<times> go_error option) \<times> 'w"
type_synonym 'm row_descriptor = "(go_error + cell list, 'm) model_descriptor"
type_synonym go_int = "64 word"

text \<open>
  The evaluation states live in a store; a query set holds the address of its own, which its
  copies share. The zero query set has none. The channel and the error of a flight are kept by
  \<open>Orm_All\<close>.
\<close>

record 'm evaluation_state =
  evReady :: bool
  evValues :: "'m list"
  evFlight :: "nat option"

record 'm evaluation_store =
  esNext :: nat
  esCells :: "nat \<Rightarrow> 'm evaluation_state"

record ('w, 'm) query_set =
  qsBackend :: "'w queryer option"
  qsDescriptor :: "'m row_descriptor option"
  qsPlan :: select_plan
  qsEvaluation :: "nat option"
  qsConfigurationErr :: "go_error option"

definition emptyEvaluation :: "'m evaluation_state" where
  "emptyEvaluation = \<lparr>evReady = False, evValues = [], evFlight = None\<rparr>"

definition newEvaluationState :: "'m evaluation_store \<Rightarrow> nat \<times> 'm evaluation_store" where
  "newEvaluationState st =
     (esNext st, \<lparr>esNext = Suc (esNext st), esCells = (esCells st)(esNext st := emptyEvaluation)\<rparr>)"

definition zeroPlan :: select_plan where
  "zeroPlan = \<lparr>plTable = '''', plColumns = [], plConditions = [], plOrderings = [], plLimit = None\<rparr>"

definition zeroQuerySet :: "('w, 'm) query_set" where
  "zeroQuerySet = \<lparr>qsBackend = None, qsDescriptor = None, qsPlan = zeroPlan, qsEvaluation = None,
     qsConfigurationErr = None\<rparr>"

definition Using :: "'m row_descriptor option \<Rightarrow> 'w queryer option \<Rightarrow> 'm evaluation_store
    \<Rightarrow> ('w, 'm) query_set \<times> 'm evaluation_store" where
  "Using descriptor backend st =
     (case newEvaluationState st of
        (evaluation, st') \<Rightarrow>
        (case descriptor of
           None \<Rightarrow> (\<lparr>qsBackend = backend, qsDescriptor = None, qsPlan = zeroPlan, qsEvaluation = Some evaluation,
                     qsConfigurationErr = Some (query_error CategoryQuery CodeInvalidPlan (plain ''descriptor is nil''))\<rparr>,
                    st')
         | Some d \<Rightarrow>
             (\<lparr>qsBackend = backend, qsDescriptor = Some d,
                qsPlan = NewPlan (mDBTable (mdMetadata d)) (map fieldReference (mFields (mdMetadata d))),
                qsEvaluation = Some evaluation, qsConfigurationErr = None\<rparr>, st')))"

section \<open>Building\<close>

definition first_error :: "('a \<Rightarrow> go_error option) \<Rightarrow> 'a list \<Rightarrow> go_error option" where
  "first_error err xs = (case find (\<lambda>x. err x \<noteq> None) xs of None \<Rightarrow> None | Some x \<Rightarrow> err x)"

definition Fresh :: "('w, 'm) query_set \<Rightarrow> 'm evaluation_store \<Rightarrow> ('w, 'm) query_set \<times> 'm evaluation_store" where
  "Fresh qs st = (case newEvaluationState st of (evaluation, st') \<Rightarrow> (qs\<lparr>qsEvaluation := Some evaluation\<rparr>, st'))"

definition Filter_qs :: "orm_predicate list \<Rightarrow> ('w, 'm) query_set \<Rightarrow> 'm evaluation_store
    \<Rightarrow> ('w, 'm) query_set \<times> 'm evaluation_store" where
  "Filter_qs predicates qs st =
     (case Fresh qs st of
        (qs, st') \<Rightarrow>
        if qsConfigurationErr qs \<noteq> None then (qs, st')
        else (case first_error prErr predicates of
                Some err \<Rightarrow> (qs\<lparr>qsConfigurationErr := Some err\<rparr>, st')
              | None \<Rightarrow> (qs\<lparr>qsPlan := WithConditions (qsPlan qs) (map prCondition predicates)\<rparr>, st')))"

definition OrderBy :: "orm_ordering list \<Rightarrow> ('w, 'm) query_set \<Rightarrow> 'm evaluation_store
    \<Rightarrow> ('w, 'm) query_set \<times> 'm evaluation_store" where
  "OrderBy orderings qs st =
     (case Fresh qs st of
        (qs, st') \<Rightarrow>
        if qsConfigurationErr qs \<noteq> None then (qs, st')
        else (case first_error odErr orderings of
                Some err \<Rightarrow> (qs\<lparr>qsConfigurationErr := Some err\<rparr>, st')
              | None \<Rightarrow> (qs\<lparr>qsPlan := WithOrderings (qsPlan qs) (map odOrdering orderings)\<rparr>, st')))"

definition Limit :: "go_int \<Rightarrow> ('w, 'm) query_set \<Rightarrow> 'm evaluation_store
    \<Rightarrow> (('w, 'm) query_set \<times> go_error option) \<times> 'm evaluation_store" where
  "Limit limit qs st =
     (case qsConfigurationErr qs of
        Some err \<Rightarrow> ((qs, Some err), st)
      | None \<Rightarrow>
        (case WithLimit (qsPlan qs) (sint limit) of
           Inl err \<Rightarrow> ((zeroQuerySet, Some err), st)
         | Inr plan \<Rightarrow>
             (case Fresh (qs\<lparr>qsPlan := plan\<rparr>) st of (qs', st') \<Rightarrow> ((qs', None), st'))))"

section \<open>Reading rows\<close>

definition validateTerminal :: "('w, 'm) query_set \<Rightarrow> 'w go_context \<Rightarrow> 'w \<Rightarrow> go_error option \<times> 'w" where
  "validateTerminal qs ctx w =
     (case ctx of
        None \<Rightarrow> (Some (query_error CategoryQuery CodeInvalidPlan (plain ''context is nil'')), w)
      | Some ctxErr \<Rightarrow>
        (case ctxErr w of
           (Some err, w') \<Rightarrow> (Some err, w')
         | (None, w') \<Rightarrow>
           (if qsConfigurationErr qs \<noteq> None then (qsConfigurationErr qs, w')
            else if qsBackend qs = None
            then (Some (query_error CategoryBackend CodeInvalidPlan (plain ''backend is nil'')), w')
            else if qsDescriptor qs = None
            then (Some (query_error CategoryQuery CodeInvalidPlan (plain ''descriptor is nil'')), w')
            else if qsEvaluation qs = None
            then (Some (query_error CategoryQuery CodeInvalidPlan (plain ''evaluation state is nil'')), w')
            else (None, w'))))"

definition cachedValues :: "('w, 'm) query_set \<Rightarrow> 'm evaluation_store \<Rightarrow> 'm list option" where
  "cachedValues qs st =
     (let state = esCells st (the (qsEvaluation qs)) in if evReady state then Some (evValues state) else None)"

definition openRows :: "('w, 'm) query_set \<Rightarrow> 'w go_context \<Rightarrow> select_plan \<Rightarrow> 'w
    \<Rightarrow> (go_error + sql_rows) \<times> 'w" where
  "openRows qs ctx plan w =
     (case the (qsBackend qs) ctx plan w of
        ((rows, Some err), w') \<Rightarrow>
          (case rows of
             None \<Rightarrow> (Inl err, w')
           | Some rows \<Rightarrow>
             (case rwClose rows of
                Some closeErr \<Rightarrow>
                  (Inl (the (errors_join [Some err,
                     Some (ErrWrap ''close rows returned with backend error: %w'' [] closeErr)])), w')
              | None \<Rightarrow> (Inl err, w')))
      | ((None, None), w') \<Rightarrow>
          (Inl (query_error CategoryBackend CodeInvalidPlan (plain ''backend returned nil rows without an error'')), w')
      | ((Some rows, None), w') \<Rightarrow> (Inr rows, w'))"

definition joinRowsErr :: "go_error option \<Rightarrow> sql_rows \<Rightarrow> go_error option" where
  "joinRowsErr err rows =
     (case rwErr rows of
        None \<Rightarrow> err
      | Some rowsErr \<Rightarrow> errors_join [err, Some (ErrWrap ''iterate model rows: %w'' [] rowsErr)])"

definition closeRows :: "go_error option \<Rightarrow> sql_rows \<Rightarrow> go_error option" where
  "closeRows err rows =
     (case rwClose rows of
        None \<Rightarrow> err
      | Some closeErr \<Rightarrow> errors_join [err, Some (ErrWrap ''close model rows: %w'' [] closeErr)])"

definition scan_error :: "go_error \<Rightarrow> go_error" where
  "scan_error err = ErrWrap ''scan model row: %w'' [] err"

definition planWithMaximumRows :: "select_plan \<Rightarrow> int \<Rightarrow> select_plan" where
  "planWithMaximumRows plan maximum =
     (case plLimit plan of
        Some current \<Rightarrow> if current \<le> maximum then plan
          else (case WithLimit plan maximum of Inl _ \<Rightarrow> plan | Inr limited \<Rightarrow> limited)
      | None \<Rightarrow> (case WithLimit plan maximum of Inl _ \<Rightarrow> plan | Inr limited \<Rightarrow> limited))"

text \<open>The loop of \<open>scanAll\<close>: the models scanned before the rows end or a scan fails.\<close>

fun scan_models :: "'m row_descriptor \<Rightarrow> (go_error + cell list) list \<Rightarrow> 'm list \<times> go_error option" where
  "scan_models d [] = ([], None)"
| "scan_models d (row # rows) =
     (case mdScan d row of
        Inl err \<Rightarrow> ([], Some (scan_error err))
      | Inr v \<Rightarrow> (case scan_models d rows of (vs, err) \<Rightarrow> (mdCloneModel d v # vs, err)))"

definition scanAll :: "('w, 'm) query_set \<Rightarrow> 'w go_context \<Rightarrow> 'w \<Rightarrow> (go_error + 'm list) \<times> 'w" where
  "scanAll qs ctx w =
     (case openRows qs ctx (qsPlan qs) w of
        (Inl err, w') \<Rightarrow> (Inl err, w')
      | (Inr rows, w') \<Rightarrow>
        (case scan_models (the (qsDescriptor qs)) (rwRows rows) of
           (vs, err) \<Rightarrow>
           (case closeRows (joinRowsErr err rows) rows of
              Some err \<Rightarrow> (Inl err, w')
            | None \<Rightarrow> (Inr vs, w'))))"

definition cloneModels :: "('w, 'm) query_set \<Rightarrow> 'm list \<Rightarrow> 'm list" where
  "cloneModels qs vs = map (mdCloneModel (the (qsDescriptor qs))) vs"

section \<open>Terminal operations\<close>

text \<open>
  \<open>ctx.Err()\<close> at the end of an operation. A nil context has been refused by then.
\<close>

definition finish :: "'w go_context \<Rightarrow> 'a \<Rightarrow> 'w \<Rightarrow> (go_error + 'a) \<times> 'w" where
  "finish ctx x w = (case the ctx w of (Some err, w') \<Rightarrow> (Inl err, w') | (None, w') \<Rightarrow> (Inr x, w'))"

definition Count :: "('w, 'm) query_set \<Rightarrow> 'w go_context \<Rightarrow> 'm evaluation_store \<Rightarrow> 'w
    \<Rightarrow> (go_error + 64 word) \<times> 'w" where
  "Count qs ctx st w =
     (case validateTerminal qs ctx w of
        (Some err, w1) \<Rightarrow> (Inl err, w1)
      | (None, w1) \<Rightarrow>
        (case cachedValues qs st of
           Some vs \<Rightarrow> (Inr (of_nat (length vs)), w1)
         | None \<Rightarrow>
           (case openRows qs ctx (qsPlan qs) w1 of
              (Inl err, w2) \<Rightarrow> (Inl err, w2)
            | (Inr rows, w2) \<Rightarrow>
              (let counted = foldl (\<lambda>n _. n + 1) 0 (rwRows rows) in
               case closeRows (joinRowsErr None rows) rows of
                 Some err \<Rightarrow> (Inl err, w2)
               | None \<Rightarrow> finish ctx counted w2))))"

definition Exists :: "('w, 'm) query_set \<Rightarrow> 'w go_context \<Rightarrow> 'm evaluation_store \<Rightarrow> 'w
    \<Rightarrow> (go_error + bool) \<times> 'w" where
  "Exists qs ctx st w =
     (case validateTerminal qs ctx w of
        (Some err, w1) \<Rightarrow> (Inl err, w1)
      | (None, w1) \<Rightarrow>
        (case cachedValues qs st of
           Some vs \<Rightarrow> (Inr (length vs \<noteq> 0), w1)
         | None \<Rightarrow>
           (case openRows qs ctx (planWithMaximumRows (qsPlan qs) 1) w1 of
              (Inl err, w2) \<Rightarrow> (Inl err, w2)
            | (Inr rows, w2) \<Rightarrow>
              (case closeRows (joinRowsErr None rows) rows of
                 Some err \<Rightarrow> (Inl err, w2)
               | None \<Rightarrow> finish ctx (rwRows rows \<noteq> []) w2))))"

text \<open>The loop of \<open>At\<close>: rows are skipped until the position is the index.\<close>

fun scan_at :: "'m row_descriptor \<Rightarrow> go_int \<Rightarrow> go_int \<Rightarrow> (go_error + cell list) list \<Rightarrow> go_error option \<times> 'm option" where
  "scan_at d index position [] = (None, None)"
| "scan_at d index position (row # rows) =
     (if position \<noteq> index then scan_at d index (position + 1) rows
      else (case mdScan d row of
              Inl err \<Rightarrow> (Some (scan_error err), None)
            | Inr v \<Rightarrow> (None, Some (mdCloneModel d v))))"

definition invalid_index_error :: go_error where
  "invalid_index_error = query_error CategoryArgument CodeInvalidIndex
     (plain ''index must be non-negative and representable as a query limit'')"

definition unordered_error :: go_error where
  "unordered_error = query_error CategoryQuery CodeUnorderedQuery (plain ''At requires an explicit ordering'')"

text \<open>\<open>int(^uint(0)>>1)\<close>.\<close>

definition max_go_int :: go_int where
  "max_go_int = drop_bit 1 (not 0)"

text \<open>A result of two values, the second the presence flag, is an option.\<close>

definition At :: "('w, 'm) query_set \<Rightarrow> 'w go_context \<Rightarrow> go_int \<Rightarrow> 'm evaluation_store \<Rightarrow> 'w
    \<Rightarrow> (go_error + 'm option) \<times> 'w" where
  "At qs ctx index st w =
     (case validateTerminal qs ctx w of
        (Some err, w1) \<Rightarrow> (Inl err, w1)
      | (None, w1) \<Rightarrow>
        if sint index < 0 \<or> index = max_go_int then (Inl invalid_index_error, w1)
        else if plOrderings (qsPlan qs) = [] then (Inl unordered_error, w1)
        else
        (case cachedValues qs st of
           Some vs \<Rightarrow>
             (if sint index \<ge> int (length vs) then (Inr None, w1)
              else (Inr (Some (mdCloneModel (the (qsDescriptor qs)) (vs ! nat (sint index)))), w1))
         | None \<Rightarrow>
           (case openRows qs ctx (planWithMaximumRows (qsPlan qs) (sint (index + 1))) w1 of
              (Inl err, w2) \<Rightarrow> (Inl err, w2)
            | (Inr rows, w2) \<Rightarrow>
              (case scan_at (the (qsDescriptor qs)) index 0 (rwRows rows) of
                 (err, found) \<Rightarrow>
                 (case closeRows (joinRowsErr err rows) rows of
                    Some err \<Rightarrow> (Inl err, w2)
                  | None \<Rightarrow> finish ctx found w2)))))"

definition First :: "('w, 'm) query_set \<Rightarrow> 'w go_context \<Rightarrow> 'm evaluation_store \<Rightarrow> 'w
    \<Rightarrow> (go_error + 'm option) \<times> 'w" where
  "First qs ctx st w = At qs ctx 0 st w"

text \<open>The callback of \<open>Iterate\<close> may change the outside state; it is absent when it is nil.\<close>

fun iterate_rows :: "'m row_descriptor \<Rightarrow> ('m \<Rightarrow> 'w \<Rightarrow> go_error option \<times> 'w) \<Rightarrow> (go_error + cell list) list \<Rightarrow> 'w
    \<Rightarrow> go_error option \<times> 'w" where
  "iterate_rows d callback [] w = (None, w)"
| "iterate_rows d callback (row # rows) w =
     (case mdScan d row of
        Inl err \<Rightarrow> (Some (scan_error err), w)
      | Inr v \<Rightarrow>
        (case callback (mdCloneModel d v) w of
           (Some err, w') \<Rightarrow> (Some err, w')
         | (None, w') \<Rightarrow> iterate_rows d callback rows w'))"

definition Iterate :: "('w, 'm) query_set \<Rightarrow> 'w go_context \<Rightarrow> ('m \<Rightarrow> 'w \<Rightarrow> go_error option \<times> 'w) option \<Rightarrow> 'w
    \<Rightarrow> go_error option \<times> 'w" where
  "Iterate qs ctx callback w =
     (case validateTerminal qs ctx w of
        (Some err, w1) \<Rightarrow> (Some err, w1)
      | (None, w1) \<Rightarrow>
        (case callback of
           None \<Rightarrow> (Some (query_error CategoryArgument CodeInvalidValue (plain ''iterate callback is nil'')), w1)
         | Some callback \<Rightarrow>
           (case openRows qs ctx (qsPlan qs) w1 of
              (Inl err, w2) \<Rightarrow> (Some err, w2)
            | (Inr rows, w2) \<Rightarrow>
              (case iterate_rows (the (qsDescriptor qs)) callback (rwRows rows) w2 of
                 (err, w3) \<Rightarrow>
                 (case closeRows (joinRowsErr err rows) rows of
                    Some err \<Rightarrow> (Some err, w3)
                  | None \<Rightarrow> the ctx w3)))))"

text \<open>
  \<open>All\<close> when no other caller is evaluating the same query set; \<open>Orm_All\<close> proves that this is what
  the concurrent model does for a single caller.
\<close>

definition evaluate :: "('w, 'm) query_set \<Rightarrow> 'w go_context \<Rightarrow> 'w \<Rightarrow> (go_error + 'm list) \<times> 'w" where
  "evaluate qs ctx w =
     (case scanAll qs ctx w of
        (Inl err, w') \<Rightarrow> (Inl err, w')
      | (Inr vs, w') \<Rightarrow> finish ctx vs w')"

definition All_alone :: "('w, 'm) query_set \<Rightarrow> 'w go_context \<Rightarrow> 'm evaluation_state \<Rightarrow> 'w
    \<Rightarrow> (go_error + 'm list) \<times> 'm evaluation_state \<times> 'w" where
  "All_alone qs ctx state w =
     (case validateTerminal qs ctx w of
        (Some err, w1) \<Rightarrow> (Inl err, state, w1)
      | (None, w1) \<Rightarrow>
        (case the ctx w1 of
           (Some err, w2) \<Rightarrow> (Inl err, state, w2)
         | (None, w2) \<Rightarrow>
           if evReady state then (Inr (cloneModels qs (evValues state)), state, w2)
           else
           (case evaluate qs ctx w2 of
              (Inl err, w3) \<Rightarrow> (Inl err, state\<lparr>evFlight := None\<rparr>, w3)
            | (Inr vs, w3) \<Rightarrow>
                (Inr (cloneModels qs vs), \<lparr>evReady = True, evValues = vs, evFlight = None\<rparr>, w3))))"

section \<open>Facts\<close>

lemma errors_join_Some: "errors_join [e, Some x] \<noteq> None"
  by (simp add: errors_join_None_iff)

lemma joined_None [simp]:
  "closeRows err rows = None \<longleftrightarrow> err = None \<and> rwClose rows = None"
  "joinRowsErr err rows = None \<longleftrightarrow> err = None \<and> rwErr rows = None"
  by (auto simp: closeRows_def joinRowsErr_def errors_join_None_iff split: option.splits)

lemma max_go_int: "sint max_go_int = 2 ^ 63 - 1"
  by (simp add: max_go_int_def mask_eq_exp_minus_1)

lemma max_go_int_iff: "index = max_go_int \<longleftrightarrow> sint index = 2 ^ 63 - 1"
  unfolding max_go_int[symmetric] by (metis signed_word_eqI)

lemma next_index:
  fixes index :: go_int
  assumes "0 \<le> sint index" "index \<noteq> max_go_int"
  shows "sint (index + 1) = sint index + 1"
proof -
  have "sint index < 2 ^ 63" using sint_lt[of index] by simp
  with assms have "sint index < 2 ^ 63 - 1" by (auto simp: max_go_int_iff)
  with assms(1) show ?thesis by (simp add: sint_word_ariths signed_take_bit_int_eq_self)
qed

lemma planWithMaximumRows_limit:
  "0 \<le> k \<Longrightarrow> planWithMaximumRows plan k =
     plan\<lparr>plLimit := Some (case plLimit plan of None \<Rightarrow> k | Some l \<Rightarrow> min l k)\<rparr>"
  by (cases plan) (auto simp: planWithMaximumRows_def WithLimit_def split: option.splits)

text \<open>Scanning to a position reads exactly the row with that number.\<close>

lemma scan_at_position:
  assumes "unat position \<le> unat index"
  shows "scan_at d index position rows =
    (if unat index - unat position < length rows
     then (case mdScan d (rows ! (unat index - unat position)) of
             Inl err \<Rightarrow> (Some (scan_error err), None)
           | Inr v \<Rightarrow> (None, Some (mdCloneModel d v)))
     else (None, None))"
  using assms
proof (induction rows arbitrary: position)
  case (Cons row rows)
  show ?case
  proof (cases "position = index")
    case False
    then have "unat position \<noteq> unat index" by (simp add: word_unat_eq_iff)
    with Cons.prems have lt: "unat position < unat index" by simp
    have "unat (position + 1) = unat position + 1"
      using lt unsigned_less[of index, where 'a = nat] unat_add_lem[of position 1] by simp
    moreover obtain k where "unat index = Suc (unat position + k)" using lt less_imp_Suc_add by blast
    ultimately show ?thesis using Cons.prems Cons.IH[of "position + 1"] False by simp
  qed simp
qed simp

lemma scan_models_Inr:
  "(\<forall>r \<in> set rows. \<exists>v. mdScan d r = Inr v) \<Longrightarrow>
     scan_models d rows = (map (\<lambda>r. mdCloneModel d (projr (mdScan d r))) rows, None)"
  by (induction rows) auto

lemma count_rows: "foldl (\<lambda>n _. n + 1) (k :: 64 word) rows = k + of_nat (length rows)"
  by (induction rows arbitrary: k) simp_all

section \<open>Bounds\<close>

text \<open>The limit \<open>At\<close> puts on the query, as an integer.\<close>

definition at_limit :: "('w, 'm) query_set \<Rightarrow> go_int \<Rightarrow> int" where
  "at_limit qs index =
     (case plLimit (qsPlan qs) of None \<Rightarrow> sint index + 1 | Some l \<Rightarrow> min l (sint index + 1))"

text \<open>
  A backend that keeps a log of the plans it is asked for in this context; asking the context for
  its error is no query.
\<close>

definition records_queries :: "('w, 'm) query_set \<Rightarrow> 'w go_context \<Rightarrow> ('w \<Rightarrow> select_plan list) \<Rightarrow> bool" where
  "records_queries qs ctx asked \<longleftrightarrow>
     (\<forall>be plan w. qsBackend qs = Some be \<longrightarrow> asked (snd (be ctx plan w)) = asked w @ [plan])
     \<and> (\<forall>ctxErr w. ctx = Some ctxErr \<longrightarrow> asked (snd (ctxErr w)) = asked w)"

text \<open>The model in the row with the number of the index, if there is one.\<close>

definition model_at :: "('w, 'm) query_set \<Rightarrow> go_int \<Rightarrow> (go_error + cell list) list \<Rightarrow> go_error + 'm option" where
  "model_at qs index rows =
     (if nat (sint index) < length rows
      then map_sum scan_error (\<lambda>v. Some (mdCloneModel (the (qsDescriptor qs)) v))
             (mdScan (the (qsDescriptor qs)) (rows ! nat (sint index)))
      else Inr None)"

lemma validateTerminal_asked:
  "records_queries qs ctx asked \<Longrightarrow> asked (snd (validateTerminal qs ctx w)) = asked w"
  by (auto simp: records_queries_def validateTerminal_def split: option.splits prod.splits) (metis snd_conv)+

lemma finish_asked:
  "records_queries qs ctx asked \<Longrightarrow> ctx \<noteq> None \<Longrightarrow> asked (snd (finish ctx x w)) = asked w"
  by (auto simp: records_queries_def finish_def split: prod.splits option.splits) (metis snd_conv)+

lemma validateTerminal_Some:
  "validateTerminal qs ctx w = (None, w1) \<Longrightarrow> ctx \<noteq> None \<and> qsBackend qs \<noteq> None"
  by (auto simp: validateTerminal_def split: option.splits prod.splits if_splits)

lemma scan_at_row:
  assumes "0 \<le> sint index"
  shows "scan_at (the (qsDescriptor qs)) index 0 rows =
    (case model_at qs index rows of Inl err \<Rightarrow> (Some err, None) | Inr found \<Rightarrow> (None, found))"
proof -
  have un: "unat index = nat (sint index)"
    using assms sint_lt[of index] uint_sint[of index] by (simp add: take_bit_int_eq_self unat_eq_nat_uint)
  show ?thesis
    using scan_at_position[of 0 index "the (qsDescriptor qs)" rows] by (simp add: un model_at_def split: sum.split)
qed

text \<open>The one query of a cold \<open>At\<close>, and what it makes of the answer.\<close>

lemma At_cold:
  assumes valid: "validateTerminal qs ctx w = (None, w1)" and cold: "cachedValues qs st = None"
    and ok: "0 \<le> sint index" "index \<noteq> max_go_int" "plOrderings (qsPlan qs) \<noteq> []"
  shows "At qs ctx index st w =
    (case openRows qs ctx ((qsPlan qs)\<lparr>plLimit := Some (at_limit qs index)\<rparr>) w1 of
       (Inl err, w2) \<Rightarrow> (Inl err, w2)
     | (Inr rows, w2) \<Rightarrow>
       (case model_at qs index (rwRows rows) of
          Inl err \<Rightarrow> (Inl (the (closeRows (joinRowsErr (Some err) rows) rows)), w2)
        | Inr found \<Rightarrow>
            (case closeRows (joinRowsErr None rows) rows of Some err \<Rightarrow> (Inl err, w2) | None \<Rightarrow> finish ctx found w2)))"
proof -
  have "planWithMaximumRows (qsPlan qs) (sint (index + 1)) = (qsPlan qs)\<lparr>plLimit := Some (at_limit qs index)\<rparr>"
    using ok(1) planWithMaximumRows_limit[of "sint index + 1" "qsPlan qs"]
    by (simp add: next_index[OF ok(1,2)] at_limit_def split: option.splits)
  then show ?thesis
    using assms by (simp add: At_def scan_at_row split: prod.split sum.split option.split)
qed

text \<open>
  C27: what \<open>At\<close> asks of the backend and what it answers. An invalid query set, a negative index, the
  largest machine integer and an unordered plan are refused without a query; a filled cache answers
  without a query. Otherwise \<open>At\<close> makes exactly one query: the plan of the set with a limit of at most
  one more than the index, non-negative and representable, so the increment never wraps. It answers
  with the model in the row of that number, with nothing when there are too few rows, and with an
  error when the query, the iteration, the closing or the scan of that row fails.
\<close>

theorem At_queries_within_bounds:
  assumes "records_queries qs ctx asked" and "\<forall>l. plLimit (qsPlan qs) = Some l \<longrightarrow> 0 \<le> l"
  shows "case validateTerminal qs ctx w of
      (Some err, w1) \<Rightarrow> asked w1 = asked w \<and> At qs ctx index st w = (Inl err, w1)
    | (None, w1) \<Rightarrow> asked w1 = asked w \<and>
       (if sint index < 0 \<or> sint index = 2 ^ 63 - 1 then At qs ctx index st w = (Inl invalid_index_error, w1)
        else if plOrderings (qsPlan qs) = [] then At qs ctx index st w = (Inl unordered_error, w1)
        else (case cachedValues qs st of
          Some vs \<Rightarrow> At qs ctx index st w = (Inr (if nat (sint index) < length vs
              then Some (mdCloneModel (the (qsDescriptor qs)) (vs ! nat (sint index))) else None), w1)
        | None \<Rightarrow>
            0 \<le> at_limit qs index \<and> at_limit qs index \<le> sint index + 1 \<and> at_limit qs index < 2 ^ 63
            \<and> asked (snd (At qs ctx index st w)) = asked w @ [(qsPlan qs)\<lparr>plLimit := Some (at_limit qs index)\<rparr>]
            \<and> (case the (qsBackend qs) ctx ((qsPlan qs)\<lparr>plLimit := Some (at_limit qs index)\<rparr>) w1 of
                ((Some rows, None), w2) \<Rightarrow>
                  if rwErr rows = None \<and> rwClose rows = None
                  then At qs ctx index st w = (case model_at qs index (rwRows rows) of
                      Inl err \<Rightarrow> (Inl err, w2) | Inr found \<Rightarrow> finish ctx found w2)
                  else \<exists>err. At qs ctx index st w = (Inl err, w2)
              | (_, w2) \<Rightarrow> \<exists>err. At qs ctx index st w = (Inl err, w2))))"
proof (cases "validateTerminal qs ctx w")
  case validated: (Pair res w1)
  have asked: "asked w1 = asked w" using validateTerminal_asked[OF assms(1), of w] validated by simp
  show ?thesis
  proof (cases "res = None \<and> \<not> (sint index < 0 \<or> sint index = 2 ^ 63 - 1) \<and> plOrderings (qsPlan qs) \<noteq> []
      \<and> cachedValues qs st = None")
    case False
    then show ?thesis using validated asked
      by (auto simp: At_def max_go_int_iff nat_less_iff split: option.split)
  next
    case True
    then have valid: "validateTerminal qs ctx w = (None, w1)" and cold: "cachedValues qs st = None"
      and ok: "0 \<le> sint index" "index \<noteq> max_go_int" "plOrderings (qsPlan qs) \<noteq> []"
      using validated by (simp_all add: max_go_int_iff)
    let ?plan = "(qsPlan qs)\<lparr>plLimit := Some (at_limit qs index)\<rparr>"
    have lt: "sint index < 2 ^ 63 - 1" using ok(2) sint_lt[of index] by (simp add: max_go_int_iff)
    have bounds: "0 \<le> at_limit qs index" "at_limit qs index \<le> sint index + 1"
      using ok(1) assms(2) by (auto simp: at_limit_def split: option.splits)
    obtain rows err w2 where answer: "the (qsBackend qs) ctx ?plan w1 = ((rows, err), w2)"
      by (metis surj_pair)
    have one: "asked w2 = asked w @ [?plan]"
    proof -
      obtain be where be: "qsBackend qs = Some be" using validateTerminal_Some[OF valid] by blast
      then have "asked (snd (be ctx ?plan w1)) = asked w1 @ [?plan]" using assms(1) by (simp add: records_queries_def)
      then show ?thesis using answer asked by (simp add: be)
    qed
    note run = At_cold[OF valid cold ok]
    have "(\<exists>rs. rows = Some rs \<and> err = None \<and> openRows qs ctx ?plan w1 = (Inr rs, w2))
        \<or> (rows = None \<or> err \<noteq> None) \<and> (\<exists>e. openRows qs ctx ?plan w1 = (Inl e, w2))"
      by (cases rows; cases err) (auto simp: openRows_def answer split: option.split)
    then consider rs where "rows = Some rs" "err = None" "openRows qs ctx ?plan w1 = (Inr rs, w2)"
      | e where "rows = None \<or> err \<noteq> None" "openRows qs ctx ?plan w1 = (Inl e, w2)" by blast
    then have "\<exists>x found. (At qs ctx index st w = (Inl x, w2) \<or> At qs ctx index st w = finish ctx found w2)
      \<and> (case ((rows, err), w2) of
          ((Some rows, None), w2) \<Rightarrow>
            if rwErr rows = None \<and> rwClose rows = None
            then At qs ctx index st w = (case model_at qs index (rwRows rows) of
                Inl err \<Rightarrow> (Inl err, w2) | Inr found \<Rightarrow> finish ctx found w2)
            else \<exists>err. At qs ctx index st w = (Inl err, w2)
        | (_, w2) \<Rightarrow> \<exists>err. At qs ctx index st w = (Inl err, w2))"
    proof cases
      case (1 rs)
      then show ?thesis
        by (cases "model_at qs index (rwRows rs)")
          (auto simp: run closeRows_def joinRowsErr_def errors_join_Some split: option.split)
    next
      case (2 e)
      then show ?thesis by (auto simp: run split: option.split)
    qed
    then obtain x found where "At qs ctx index st w = (Inl x, w2) \<or> At qs ctx index st w = finish ctx found w2"
      and answered: "case ((rows, err), w2) of
          ((Some rows, None), w2) \<Rightarrow>
            if rwErr rows = None \<and> rwClose rows = None
            then At qs ctx index st w = (case model_at qs index (rwRows rows) of
                Inl err \<Rightarrow> (Inl err, w2) | Inr found \<Rightarrow> finish ctx found w2)
            else \<exists>err. At qs ctx index st w = (Inl err, w2)
        | (_, w2) \<Rightarrow> \<exists>err. At qs ctx index st w = (Inl err, w2)" by blast
    then have logged: "asked (snd (At qs ctx index st w)) = asked w @ [?plan]"
      using finish_asked[OF assms(1), of found w2] validateTerminal_Some[OF valid] one by auto
    show ?thesis
      using valid asked ok lt bounds cold logged answered by (simp add: max_go_int_iff answer)
  qed
qed

section \<open>The terminal operations agree\<close>

text \<open>
  What a database promises: it answers the plan of a query set with the same rows every time, and with
  the first of them when the plan has a limit. The rows are given without errors.
\<close>

definition limited :: "int option \<Rightarrow> 'a list \<Rightarrow> 'a list" where
  "limited l xs = (case l of None \<Rightarrow> xs | Some k \<Rightarrow> take (nat k) xs)"

definition serves :: "'w queryer \<Rightarrow> 'w go_context \<Rightarrow> select_plan \<Rightarrow> (go_error + cell list) list \<Rightarrow> bool" where
  "serves be ctx plan rows \<longleftrightarrow>
     (\<forall>l w. be ctx (plan\<lparr>plLimit := l\<rparr>) w = ((Some \<lparr>rwRows = limited l rows, rwErr = None, rwClose = None\<rparr>, None), w))"

text \<open>A valid query set over such a database, a live context, and rows that scan to models.\<close>

definition evaluable :: "('w, 'm) query_set \<Rightarrow> 'w go_context \<Rightarrow> (go_error + cell list) list \<Rightarrow> bool" where
  "evaluable qs ctx rows \<longleftrightarrow>
     (\<forall>w. validateTerminal qs ctx w = (None, w)) \<and> (\<forall>w. the ctx w = (None, w))
     \<and> serves (the (qsBackend qs)) ctx (qsPlan qs) rows
     \<and> (\<forall>r \<in> set rows. \<exists>v. mdScan (the (qsDescriptor qs)) r = Inr v)
     \<and> (\<forall>v. mdCloneModel (the (qsDescriptor qs)) v = v)
     \<and> (\<forall>l. plLimit (qsPlan qs) = Some l \<longrightarrow> 0 \<le> l) \<and> length rows < 2 ^ 63"

text \<open>The models of a query set over the rows of its database.\<close>

definition queried_models :: "('w, 'm) query_set \<Rightarrow> (go_error + cell list) list \<Rightarrow> 'm list" where
  "queried_models qs rows =
     map (\<lambda>r. projr (mdScan (the (qsDescriptor qs)) r)) (limited (plLimit (qsPlan qs)) rows)"

lemma evaluable_openRows:
  assumes "evaluable qs ctx rows"
  shows "openRows qs ctx ((qsPlan qs)\<lparr>plLimit := l\<rparr>) w
    = (Inr \<lparr>rwRows = limited l rows, rwErr = None, rwClose = None\<rparr>, w)"
  using assms by (simp add: evaluable_def serves_def openRows_def)

lemma evaluable_plan:
  assumes "evaluable qs ctx rows"
  shows "openRows qs ctx (qsPlan qs) w
    = (Inr \<lparr>rwRows = limited (plLimit (qsPlan qs)) rows, rwErr = None, rwClose = None\<rparr>, w)"
  using evaluable_openRows[OF assms, of "plLimit (qsPlan qs)" w] by simp

lemma evaluable_finish [simp]: "evaluable qs ctx rows \<Longrightarrow> finish ctx x w = (Inr x, w)"
  by (simp add: evaluable_def finish_def)

lemma limited_set: "set (limited l xs) \<subseteq> set xs"
  by (auto simp: limited_def dest: in_set_takeD split: option.splits)

lemma limited_length: "length (limited l xs) \<le> length xs"
  by (simp add: limited_def split: option.splits)

lemma limited_min:
  "0 \<le> k \<Longrightarrow> (\<forall>m. l = Some m \<longrightarrow> 0 \<le> m) \<Longrightarrow>
     limited (Some (case l of None \<Rightarrow> k | Some m \<Rightarrow> min m k)) xs = take (nat k) (limited l xs)"
  by (auto simp: limited_def min_def nat_le_iff split: option.splits dest: antisym)

lemma queried_models_length [simp]: "length (queried_models qs rows) = length (limited (plLimit (qsPlan qs)) rows)"
  by (simp add: queried_models_def)

lemma evaluable_scanAll:
  assumes "evaluable qs ctx rows"
  shows "scanAll qs ctx w = (Inr (queried_models qs rows), w)"
proof -
  let ?d = "the (qsDescriptor qs)"
  have "\<forall>r \<in> set (limited (plLimit (qsPlan qs)) rows). \<exists>v. mdScan ?d r = Inr v"
    using assms limited_set by (fastforce simp: evaluable_def)
  from scan_models_Inr[OF this] assms show ?thesis
    by (simp add: scanAll_def evaluable_plan[OF assms] queried_models_def evaluable_def closeRows_def joinRowsErr_def)
qed

lemma evaluable_At:
  assumes ev: "evaluable qs ctx rows" and "0 \<le> sint index" "index \<noteq> max_go_int" "plOrderings (qsPlan qs) \<noteq> []"
    and "cachedValues qs st = None"
  shows "At qs ctx index st w = (Inr (if nat (sint index) < length (queried_models qs rows)
      then Some (queried_models qs rows ! nat (sint index)) else None), w)"
proof -
  let ?d = "the (qsDescriptor qs)" and ?rows = "limited (plLimit (qsPlan qs)) rows" and ?n = "nat (sint index)"
  have plan: "planWithMaximumRows (qsPlan qs) (sint (index + 1)) = (qsPlan qs)\<lparr>plLimit := Some (at_limit qs index)\<rparr>"
    using assms(2) planWithMaximumRows_limit[of "sint index + 1" "qsPlan qs"]
    by (simp add: next_index[OF assms(2,3)] at_limit_def split: option.splits)
  have lim: "limited (Some (at_limit qs index)) rows = take (Suc ?n) ?rows"
    using limited_min[of "sint index + 1" "plLimit (qsPlan qs)" rows] assms(2) ev
    by (simp add: at_limit_def evaluable_def nat_add_distrib split: option.splits)
  have un: "unat index = ?n"
    using assms(2) sint_lt[of index] uint_sint[of index] by (simp add: take_bit_int_eq_self unat_eq_nat_uint)
  have len: "length ?rows < 2 ^ 63" using limited_length[of "plLimit (qsPlan qs)" rows] ev by (simp add: evaluable_def)
  have sp: "scan_at ?d index 0 (take (Suc ?n) ?rows) =
      (if ?n < length (take (Suc ?n) ?rows)
       then (case mdScan ?d (take (Suc ?n) ?rows ! ?n) of
               Inl err \<Rightarrow> (Some (scan_error err), None)
             | Inr v \<Rightarrow> (None, Some (mdCloneModel ?d v)))
       else (None, None))"
    using scan_at_position[of 0 index ?d "take (Suc ?n) ?rows"] un by simp
  have scan: "scan_at ?d index 0 (take (Suc ?n) ?rows)
      = (None, if ?n < length ?rows then Some (queried_models qs rows ! ?n) else None)"
  proof (cases "?n < length ?rows")
    case True
    have "?rows ! ?n \<in> set rows" by (rule subsetD[OF limited_set nth_mem[OF True]])
    moreover have "\<forall>r \<in> set rows. \<exists>v. mdScan ?d r = Inr v" "\<And>v. mdCloneModel ?d v = v"
      using ev by (simp_all add: evaluable_def)
    ultimately obtain v where "mdScan ?d (?rows ! ?n) = Inr v" "mdCloneModel ?d v = v" by blast
    then show ?thesis using True by (simp add: sp queried_models_def)
  next
    case False
    then show ?thesis unfolding sp by simp
  qed
  have opened: "openRows qs ctx (planWithMaximumRows (qsPlan qs) (sint (index + 1))) w
      = (Inr \<lparr>rwRows = take (Suc ?n) ?rows, rwErr = None, rwClose = None\<rparr>, w)"
    unfolding plan evaluable_openRows[OF ev] lim ..
  have "validateTerminal qs ctx w = (None, w)" using ev by (simp add: evaluable_def)
  with ev assms(2-5) show ?thesis
    by (simp add: At_def opened scan closeRows_def joinRowsErr_def)
qed

text \<open>
  C26: the terminal operations agree with each other. Over a database that answers a plan with the
  first rows of a fixed list, \<open>All\<close> returns the models of the rows and fills the cache with them;
  \<open>Count\<close>, \<open>Exists\<close>, \<open>At\<close> and \<open>First\<close> then report the length, the emptiness and the elements of
  that very list, and they report the same whether they ask the database or the filled cache.
\<close>
theorem terminals_agree:
  assumes ev: "evaluable qs ctx rows" and "\<not> evReady state"
    and cache: "cachedValues qs st = None \<or> cachedValues qs st = Some (queried_models qs rows)"
    and ordered: "plOrderings (qsPlan qs) \<noteq> []" and index: "0 \<le> sint index" "index \<noteq> max_go_int"
  shows "All_alone qs ctx state w
      = (Inr (queried_models qs rows), \<lparr>evReady = True, evValues = queried_models qs rows, evFlight = None\<rparr>, w)
    \<and> Count qs ctx st w = (Inr (of_nat (length (queried_models qs rows))), w)
    \<and> sint (of_nat (length (queried_models qs rows)) :: 64 word) = int (length (queried_models qs rows))
    \<and> Exists qs ctx st w = (Inr (queried_models qs rows \<noteq> []), w)
    \<and> At qs ctx index st w = (Inr (if nat (sint index) < length (queried_models qs rows)
          then Some (queried_models qs rows ! nat (sint index)) else None), w)
    \<and> First qs ctx st w = (Inr (case queried_models qs rows of [] \<Rightarrow> None | v # _ \<Rightarrow> Some v), w)"
proof -
  let ?vs = "queried_models qs rows"
  have valid: "validateTerminal qs ctx w = (None, w)" "the ctx w = (None, w)" "mdCloneModel (the (qsDescriptor qs)) v = v"
    for v using ev by (simp_all add: evaluable_def)
  have len: "length ?vs < 2 ^ 63" using limited_length[of "plLimit (qsPlan qs)" rows] ev by (simp add: evaluable_def)
  have at: "At qs ctx i st w = (Inr (if nat (sint i) < length ?vs then Some (?vs ! nat (sint i)) else None), w)"
    if i: "0 \<le> sint i" "i \<noteq> max_go_int" for i
    using cache
  proof
    assume "cachedValues qs st = None"
    from evaluable_At[OF ev i ordered this] show ?thesis .
  next
    assume "cachedValues qs st = Some ?vs"
    with i ordered valid show ?thesis by (auto simp: At_def nat_less_iff not_less)
  qed
  have "All_alone qs ctx state w = (Inr ?vs, \<lparr>evReady = True, evValues = ?vs, evFlight = None\<rparr>, w)"
    using assms(2) ev by (simp add: All_alone_def evaluate_def evaluable_scanAll[OF ev] cloneModels_def valid map_idI)
  moreover have "Count qs ctx st w = (Inr (of_nat (length ?vs)), w)"
    using cache ev
    by (auto simp: Count_def valid evaluable_plan[OF ev] count_rows closeRows_def joinRowsErr_def queried_models_def Let_def)
  moreover have "Exists qs ctx st w = (Inr (?vs \<noteq> []), w)"
  proof -
    have lim: "planWithMaximumRows (qsPlan qs) 1
        = (qsPlan qs)\<lparr>plLimit := Some (case plLimit (qsPlan qs) of None \<Rightarrow> 1 | Some l \<Rightarrow> min l 1)\<rparr>"
      using planWithMaximumRows_limit[of 1 "qsPlan qs"] by simp
    have "limited (Some (case plLimit (qsPlan qs) of None \<Rightarrow> 1 | Some l \<Rightarrow> min l 1)) rows
        = take 1 (limited (plLimit (qsPlan qs)) rows)"
      using limited_min[of 1 "plLimit (qsPlan qs)" rows] ev by (simp add: evaluable_def)
    with cache ev show ?thesis
      by (auto simp: Exists_def valid lim evaluable_openRows[OF ev] closeRows_def joinRowsErr_def queried_models_def)
  qed
  moreover have "First qs ctx st w = (Inr (case ?vs of [] \<Rightarrow> None | v # _ \<Rightarrow> Some v), w)"
  proof -
    have "0 \<noteq> max_go_int" using max_go_int_iff[of 0] by simp
    with at[of 0] show ?thesis by (cases ?vs) (simp_all add: First_def)
  qed
  moreover have "sint (of_nat (length ?vs) :: 64 word) = int (length ?vs)"
    using len by (simp add: signed_of_nat signed_take_bit_int_eq_self)
  ultimately show ?thesis using at[OF index] by blast
qed

section \<open>A table of two rows\<close>

definition number_descriptor :: "int row_descriptor" where
  "number_descriptor = \<lparr>mdMetadata = \<lparr>mName = ''number'', mGoName = ''Number'', mDBTable = ''number'', mFields = []\<rparr>,
     mdScan = (\<lambda>row. case row of Inl err \<Rightarrow> Inl err | Inr [CellInt n] \<Rightarrow> Inr n | Inr _ \<Rightarrow> Inl (ErrNew ''scan'')),
     mdCloneModel = (\<lambda>n. n), mdWrite = None\<rparr>"

definition number_rows :: "(go_error + cell list) list" where
  "number_rows = [Inr [CellInt 5], Inr [CellInt 7], Inr [CellInt 9]]"

definition number_query :: "(unit, int) query_set" where
  "number_query = \<lparr>qsBackend = Some (\<lambda>ctx plan w.
       ((Some \<lparr>rwRows = limited (plLimit plan) number_rows, rwErr = None, rwClose = None\<rparr>, None), w)),
     qsDescriptor = Some number_descriptor,
     qsPlan = zeroPlan\<lparr>plOrderings := [NewOrdering (NewFieldRef ''n'' ''n'' FieldInteger False) Ascending],
       plLimit := Some 2\<rparr>,
     qsEvaluation = Some 0, qsConfigurationErr = None\<rparr>"

abbreviation live :: "unit go_context" where
  "live \<equiv> Some (\<lambda>w. (None, w))"

abbreviation cold_store :: "int evaluation_store" where
  "cold_store \<equiv> \<lparr>esNext = 1, esCells = (\<lambda>_. emptyEvaluation)\<rparr>"

lemma number_query_facts:
  "validateTerminal number_query live w = (None, w)" "cachedValues number_query cold_store = None"
  "plLimit (qsPlan number_query) = Some 2" "plOrderings (qsPlan number_query) \<noteq> []"
  by (simp_all add: number_query_def validateTerminal_def cachedValues_def emptyEvaluation_def)

lemma number_query_evaluable: "evaluable number_query live number_rows"
  unfolding evaluable_def serves_def number_query_facts
  by (simp add: number_query_facts) (auto simp: number_query_def number_descriptor_def number_rows_def)

text \<open>The table behind a log of the plans it is asked for.\<close>

definition logged_query :: "(select_plan list, int) query_set" where
  "logged_query = \<lparr>qsBackend = Some (\<lambda>ctx plan w.
       ((Some \<lparr>rwRows = limited (plLimit plan) number_rows, rwErr = None, rwClose = None\<rparr>, None), w @ [plan])),
     qsDescriptor = Some number_descriptor, qsPlan = qsPlan number_query, qsEvaluation = Some 0,
     qsConfigurationErr = None\<rparr>"

theorem At_queries_within_bounds_witness:
  "at_limit logged_query 0 = 1
   \<and> At logged_query (Some (\<lambda>w. (None, w))) 0 cold_store []
     = (Inr (Some 5), [(qsPlan number_query)\<lparr>plLimit := Some 1\<rparr>])
   \<and> At logged_query (Some (\<lambda>w. (None, w))) max_go_int cold_store [] = (Inl invalid_index_error, [])"
proof -
  let ?ctx = "Some (\<lambda>w. (None, w))"
  have log: "records_queries logged_query ?ctx (\<lambda>w. w)" by (simp add: records_queries_def logged_query_def)
  have facts: "\<forall>l. plLimit (qsPlan logged_query) = Some l \<longrightarrow> 0 \<le> l" "plOrderings (qsPlan logged_query) \<noteq> []"
    "validateTerminal logged_query ?ctx [] = (None, [])" "cachedValues logged_query cold_store = None"
    "at_limit logged_query 0 = 1"
    by (simp_all add: logged_query_def number_query_facts validateTerminal_def cachedValues_def emptyEvaluation_def
        at_limit_def)
  note b = At_queries_within_bounds[OF log facts(1), of "[]" _ cold_store, unfolded facts(3)]
  have "model_at logged_query 0 (limited (Some 1) number_rows) = Inr (Some 5)"
    by (simp add: model_at_def limited_def number_rows_def logged_query_def number_descriptor_def)
  then have "At logged_query ?ctx 0 cold_store [] = (Inr (Some 5), [(qsPlan number_query)\<lparr>plLimit := Some 1\<rparr>])"
    using b[of 0] facts(2,4,5) by (simp add: finish_def) (simp add: logged_query_def finish_def)
  moreover have "At logged_query ?ctx max_go_int cold_store [] = (Inl invalid_index_error, [])"
    using b[of max_go_int] by (simp add: max_go_int)
  ultimately show ?thesis using facts(5) by blast
qed

theorem terminals_agree_witness:
  "Count number_query live cold_store () = (Inr 2, ())
   \<and> At number_query live 1 cold_store () = (Inr (Some 7), ())
   \<and> First number_query live cold_store () = (Inr (Some 5), ())"
proof -
  have vs: "queried_models number_query number_rows = [5, 7]"
    by (simp add: queried_models_def limited_def number_query_facts number_rows_def)
      (simp add: number_query_def number_descriptor_def)
  have i: "0 \<le> sint (1 :: go_int)" "1 \<noteq> max_go_int" using max_go_int_iff[of 1] by simp_all
  have c: "cachedValues number_query cold_store = None \<or>
      cachedValues number_query cold_store = Some (queried_models number_query number_rows)"
    using number_query_facts(2) by blast
  have "\<not> evReady (emptyEvaluation :: int evaluation_state)" by (simp add: emptyEvaluation_def)
  from terminals_agree[OF number_query_evaluable this c number_query_facts(4) i] show ?thesis
    by (simp add: vs)
qed

end
