(* ===== verification/Orm_All.thy ===== *)
theory Orm_All
  imports Orm_Query
begin

text \<open>
  Concurrent calls of \<open>QuerySet.All\<close> on copies of one query set, which share one evaluation state
  (\<open>orm/manager.go\<close>). A state machine with one component per caller: the code between \<open>Lock\<close> and
  \<open>Unlock\<close> is one step, a call of the backend with the context check after it is one step, and
  between steps the outside world, which owns the contexts, may change.
\<close>

section \<open>Callers and the shared state\<close>

text \<open>
  Where a caller of \<open>All\<close> is: before \<open>validateTerminal\<close>, at the top of the loop, about to lock, in the
  \<open>select\<close> on a flight, evaluating as the owner of a flight, about to publish, or returned.
\<close>

datatype 'm caller =
    Entering
  | Checking
  | Locking
  | Waiting nat
  | Evaluating nat
  | Publishing nat "go_error + 'm list"
  | Finished "go_error + 'm list"

text \<open>
  \<open>alFlights f\<close> is the flight \<open>f\<close>: \<open>None\<close> until its channel is closed, then its \<open>err\<close>. \<open>alNext\<close> is the
  next unused flight.
\<close>

record ('w, 'm) all_system =
  alWorld :: 'w
  alState :: "'m evaluation_state"
  alFlights :: "nat \<Rightarrow> go_error option option"
  alNext :: nat
  alCallers :: "'m caller list"

definition move_caller :: "nat \<Rightarrow> 'm caller \<Rightarrow> 'w \<Rightarrow> ('w, 'm) all_system \<Rightarrow> ('w, 'm) all_system" where
  "move_caller i c w s = s\<lparr>alCallers := (alCallers s)[i := c], alWorld := w\<rparr>"

text \<open>The critical section at the top of the loop.\<close>

definition enter_state :: "('w, 'm) query_set \<Rightarrow> nat \<Rightarrow> ('w, 'm) all_system \<Rightarrow> ('w, 'm) all_system" where
  "enter_state qs i s =
     (if evReady (alState s)
      then move_caller i (Finished (Inr (cloneModels qs (evValues (alState s))))) (alWorld s) s
      else (case evFlight (alState s) of
              Some flight \<Rightarrow> move_caller i (Waiting flight) (alWorld s) s
            | None \<Rightarrow>
                move_caller i (Evaluating (alNext s)) (alWorld s)
                  (s\<lparr>alState := (alState s)\<lparr>evFlight := Some (alNext s)\<rparr>,
                     alFlights := (alFlights s)(alNext s := None), alNext := Suc (alNext s)\<rparr>)))"

text \<open>The critical section at the end: the result is published and the flight's channel closed.\<close>

definition publish :: "('w, 'm) query_set \<Rightarrow> nat \<Rightarrow> nat \<Rightarrow> go_error + 'm list \<Rightarrow> ('w, 'm) all_system
    \<Rightarrow> ('w, 'm) all_system" where
  "publish qs i flight result s =
     (case result of
        Inr vs \<Rightarrow>
          move_caller i (Finished (Inr (cloneModels qs vs))) (alWorld s)
            (s\<lparr>alState := \<lparr>evReady = True, evValues = vs, evFlight = None\<rparr>,
               alFlights := (alFlights s)(flight := Some None)\<rparr>)
      | Inl err \<Rightarrow>
          move_caller i (Finished (Inl err)) (alWorld s)
            (s\<lparr>alState := (alState s)\<lparr>evFlight := None\<rparr>,
               alFlights := (alFlights s)(flight := Some (Some err))\<rparr>))"

text \<open>Whether a waiter retries after its flight ended with this error.\<close>

definition retries :: "go_error option \<Rightarrow> bool" where
  "retries ferr = (case ferr of None \<Rightarrow> True
     | Some err \<Rightarrow> errors_is err ContextCanceled \<or> errors_is err ContextDeadlineExceeded)"

definition after_flight :: "go_error option \<Rightarrow> 'm caller" where
  "after_flight ferr = (if retries ferr then Checking else Finished (Inl (the ferr)))"

section \<open>Steps\<close>

text \<open>
  A step of the caller \<open>i\<close> with the context \<open>ctx i\<close>. The \<open>select\<close> is the one choice: it may take
  either branch that is ready.
\<close>

inductive all_step :: "('w, 'm) query_set \<Rightarrow> (nat \<Rightarrow> 'w go_context) \<Rightarrow> nat \<Rightarrow> ('w, 'm) all_system
    \<Rightarrow> ('w, 'm) all_system \<Rightarrow> bool" for qs ctx i where
  refused: "i < length (alCallers s) \<Longrightarrow> alCallers s ! i = Entering
     \<Longrightarrow> validateTerminal qs (ctx i) (alWorld s) = (Some err, w)
     \<Longrightarrow> all_step qs ctx i s (move_caller i (Finished (Inl err)) w s)"
| validated: "i < length (alCallers s) \<Longrightarrow> alCallers s ! i = Entering
     \<Longrightarrow> validateTerminal qs (ctx i) (alWorld s) = (None, w)
     \<Longrightarrow> all_step qs ctx i s (move_caller i Checking w s)"
| check_canceled: "i < length (alCallers s) \<Longrightarrow> alCallers s ! i = Checking
     \<Longrightarrow> the (ctx i) (alWorld s) = (Some err, w)
     \<Longrightarrow> all_step qs ctx i s (move_caller i (Finished (Inl err)) w s)"
| check_live: "i < length (alCallers s) \<Longrightarrow> alCallers s ! i = Checking
     \<Longrightarrow> the (ctx i) (alWorld s) = (None, w)
     \<Longrightarrow> all_step qs ctx i s (move_caller i Locking w s)"
| lock: "i < length (alCallers s) \<Longrightarrow> alCallers s ! i = Locking
     \<Longrightarrow> all_step qs ctx i s (enter_state qs i s)"
| wait_canceled: "i < length (alCallers s) \<Longrightarrow> alCallers s ! i = Waiting flight
     \<Longrightarrow> the (ctx i) (alWorld s) = (Some err, w)
     \<Longrightarrow> all_step qs ctx i s (move_caller i (Finished (Inl err)) w s)"
| wait_done: "i < length (alCallers s) \<Longrightarrow> alCallers s ! i = Waiting flight
     \<Longrightarrow> alFlights s flight = Some ferr
     \<Longrightarrow> all_step qs ctx i s (move_caller i (after_flight ferr) (alWorld s) s)"
| evaluates: "i < length (alCallers s) \<Longrightarrow> alCallers s ! i = Evaluating flight
     \<Longrightarrow> evaluate qs (ctx i) (alWorld s) = (result, w)
     \<Longrightarrow> all_step qs ctx i s (move_caller i (Publishing flight result) w s)"
| publishes: "i < length (alCallers s) \<Longrightarrow> alCallers s ! i = Publishing flight result
     \<Longrightarrow> all_step qs ctx i s (publish qs i flight result s)"

inductive_cases all_stepE: "all_step qs ctx i s t"

text \<open>
  A run: steps of callers, each counted with its caller, and changes of the outside world.
\<close>

inductive all_run :: "('w, 'm) query_set \<Rightarrow> (nat \<Rightarrow> 'w go_context) \<Rightarrow> ('w, 'm) all_system \<Rightarrow> nat list
    \<Rightarrow> ('w, 'm) all_system \<Rightarrow> bool" for qs ctx where
  start: "all_run qs ctx s [] s"
| moves: "all_run qs ctx s is t \<Longrightarrow> all_step qs ctx i t u \<Longrightarrow> all_run qs ctx s (is @ [i]) u"
| outside: "all_run qs ctx s is t \<Longrightarrow> all_run qs ctx s is (t\<lparr>alWorld := w\<rparr>)"

text \<open>Callers about to call \<open>All\<close> on a query set whose evaluation state is at rest.\<close>

definition all_start :: "nat \<Rightarrow> 'm evaluation_state \<Rightarrow> 'w \<Rightarrow> ('w, 'm) all_system" where
  "all_start n state w = \<lparr>alWorld = w, alState = state, alFlights = (\<lambda>_. None), alNext = 0,
     alCallers = replicate n Entering\<rparr>"

section \<open>The invariant\<close>

definition owner :: "'m caller \<Rightarrow> nat option" where
  "owner c = (case c of Evaluating flight \<Rightarrow> Some flight | Publishing flight _ \<Rightarrow> Some flight | _ \<Rightarrow> None)"

lemma owner_simps [simp]:
  "owner Entering = None" "owner Checking = None" "owner Locking = None" "owner (Waiting f) = None"
  "owner (Finished r) = None" "owner (Evaluating f) = Some f" "owner (Publishing f r) = Some f"
  "owner (after_flight ferr) = None"
  by (simp_all add: owner_def after_flight_def)

lemma after_flight_simps [simp]:
  "after_flight ferr \<noteq> Waiting f" "after_flight ferr \<noteq> Finished (Inr vs)"
  "after_flight ferr \<noteq> Evaluating f" "after_flight ferr \<noteq> Publishing f r"
  by (simp_all add: after_flight_def)

text \<open>The shared state says who owns the flight, and a waiter's flight is the current one until it is done.\<close>

definition owners_agree :: "('w, 'm) all_system \<Rightarrow> bool" where
  "owners_agree s \<longleftrightarrow>
     (case evFlight (alState s) of
        None \<Rightarrow> \<forall>j < length (alCallers s). owner (alCallers s ! j) = None
      | Some f \<Rightarrow> \<exists>k < length (alCallers s). \<forall>j < length (alCallers s).
          owner (alCallers s ! j) = (if j = k then Some f else None))"

definition flights_agree :: "('w, 'm) all_system \<Rightarrow> bool" where
  "flights_agree s \<longleftrightarrow>
     (\<forall>f. evFlight (alState s) = Some f \<longrightarrow> alFlights s f = None \<and> f < alNext s)
     \<and> (\<forall>f. Waiting f \<in> set (alCallers s) \<longrightarrow>
          f < alNext s \<and> (alFlights s f = None \<longrightarrow> evFlight (alState s) = Some f))"

definition results_agree :: "('w, 'm) query_set \<Rightarrow> ('w, 'm) all_system \<Rightarrow> bool" where
  "results_agree qs s \<longleftrightarrow> (evReady (alState s) \<longrightarrow> evFlight (alState s) = None)
     \<and> (\<forall>vs. Finished (Inr vs) \<in> set (alCallers s) \<longrightarrow>
          evReady (alState s) \<and> vs = cloneModels qs (evValues (alState s)))"

definition all_inv :: "('w, 'm) query_set \<Rightarrow> ('w, 'm) all_system \<Rightarrow> bool" where
  "all_inv qs s \<longleftrightarrow> owners_agree s \<and> flights_agree s \<and> results_agree qs s"

lemmas all_inv_defs = all_inv_def owners_agree_def flights_agree_def results_agree_def

lemma move_caller_simps [simp]:
  "alCallers (move_caller i c w s) = (alCallers s)[i := c]" "alWorld (move_caller i c w s) = w"
  "alState (move_caller i c w s) = alState s" "alFlights (move_caller i c w s) = alFlights s"
  "alNext (move_caller i c w s) = alNext s"
  by (simp_all add: move_caller_def)

text \<open>Moves of one caller that leave the ownership alone.\<close>

lemma set_updateE: "x \<in> set (xs[i := c]) \<Longrightarrow> x = c \<or> x \<in> set xs"
  using set_update_subset_insert[of xs i c] by blast

lemma move_caller_inv:
  assumes "all_inv qs s" and "i < length (alCallers s)" and "owner c = owner (alCallers s ! i)"
    and "\<And>f. c = Waiting f \<Longrightarrow> evFlight (alState s) = Some f"
    and "\<And>vs. c = Finished (Inr vs) \<Longrightarrow> evReady (alState s) \<and> vs = cloneModels qs (evValues (alState s))"
  shows "all_inv qs (move_caller i c w s)"
proof -
  have o: "owner (((alCallers s)[i := c]) ! j) = owner (alCallers s ! j)" if "j < length (alCallers s)" for j
    using that assms(3) by (cases "j = i") simp_all
  have "owners_agree (move_caller i c w s)"
    using assms(1) o by (cases "evFlight (alState s)") (simp_all add: all_inv_def owners_agree_def)
  moreover have "flights_agree (move_caller i c w s)"
    using assms(1) assms(4)[OF sym] unfolding all_inv_def flights_agree_def by (auto dest!: set_updateE)
  moreover have "results_agree qs (move_caller i c w s)"
    using assms(1) assms(5)[OF sym] unfolding all_inv_def results_agree_def by (auto dest!: set_updateE)
  ultimately show ?thesis by (simp add: all_inv_def)
qed

lemma current_owner:
  assumes o: "owners_agree s" and i: "i < length (alCallers s)" "owner (alCallers s ! i) = Some f"
  shows "evFlight (alState s) = Some f"
    and "j < length (alCallers s) \<Longrightarrow> j \<noteq> i \<Longrightarrow> owner (alCallers s ! j) = None"
proof -
  from o i obtain g where g: "evFlight (alState s) = Some g"
    by (cases "evFlight (alState s)") (auto simp: owners_agree_def)
  with o obtain k where k: "\<And>j. j < length (alCallers s) \<Longrightarrow> owner (alCallers s ! j) = (if j = k then Some g else None)"
    by (auto simp: owners_agree_def)
  from k[OF i(1)] i(2) have ki: "k = i" "g = f" by (simp_all split: if_splits)
  with g show "evFlight (alState s) = Some f" by simp
  show "owner (alCallers s ! j) = None" if "j < length (alCallers s)" "j \<noteq> i"
    using k[OF that(1)] that(2) ki by simp
qed

lemma no_owner:
  "owners_agree s \<Longrightarrow> evFlight (alState s) = None \<Longrightarrow> j < length (alCallers s) \<Longrightarrow> owner (alCallers s ! j) = None"
  by (simp add: owners_agree_def)

lemma enter_state_inv:
  assumes inv: "all_inv qs s" and i: "i < length (alCallers s)" "alCallers s ! i = Locking"
  shows "all_inv qs (enter_state qs i s)"
proof -
  consider (ready) "evReady (alState s)" | (busy) f where "\<not> evReady (alState s)" "evFlight (alState s) = Some f"
    | (free) "\<not> evReady (alState s)" "evFlight (alState s) = None" by (cases "evFlight (alState s)") auto
  then show ?thesis
  proof cases
    case ready
    with inv i show ?thesis by (auto simp: enter_state_def intro!: move_caller_inv)
  next
    case busy
    with inv i show ?thesis by (auto simp: enter_state_def intro!: move_caller_inv)
  next
    case free
    have none: "owner (alCallers s ! j) = None" if "j < length (alCallers s)" for j
      using no_owner[OF _ free(2) that] inv by (simp add: all_inv_def)
    have w: "f < alNext s \<and> alFlights s f \<noteq> None" if "Waiting f \<in> set (alCallers s)" for f
      using inv that free(2) by (auto simp: all_inv_def flights_agree_def)
    let ?t = "enter_state qs i s"
    have t: "alCallers ?t = (alCallers s)[i := Evaluating (alNext s)]" "evFlight (alState ?t) = Some (alNext s)"
      "alFlights ?t = (alFlights s)(alNext s := None)" "alNext ?t = Suc (alNext s)" "evReady (alState ?t) = False"
      using free by (simp_all add: enter_state_def)
    have "owners_agree ?t" using none i(1) by (auto simp: owners_agree_def t nth_list_update intro!: exI[of _ i])
    moreover have "flights_agree ?t"
      using w unfolding flights_agree_def t by (auto dest!: set_updateE simp: less_SucI)
    moreover have "results_agree qs ?t"
      using inv free unfolding all_inv_def results_agree_def t by (auto dest!: set_updateE)
    ultimately show ?thesis by (simp add: all_inv_def)
  qed
qed

lemma publish_inv:
  assumes inv: "all_inv qs s" and i: "i < length (alCallers s)" "alCallers s ! i = Publishing flight result"
  shows "all_inv qs (publish qs i flight result s)"
proof -
  let ?t = "publish qs i flight result s"
  have own: "owners_agree s" "owner (alCallers s ! i) = Some flight" using inv i by (simp_all add: all_inv_def)
  have cur: "evFlight (alState s) = Some flight" by (rule current_owner(1)[OF own(1) i(1) own(2)])
  have none: "owner (alCallers s ! j) = None" if "j < length (alCallers s)" "j \<noteq> i" for j
    by (rule current_owner(2)[OF own(1) i(1) own(2) that])
  have idle: "\<not> evReady (alState s)" using inv cur by (auto simp: all_inv_def results_agree_def)
  define c where "c = Finished (case result of Inr vs \<Rightarrow> Inr (cloneModels qs vs) | Inl err \<Rightarrow> Inl err)"
  have t: "alCallers ?t = (alCallers s)[i := c]" "owner c = None" "evFlight (alState ?t) = None"
    "\<exists>e. alFlights ?t = (alFlights s)(flight := Some e)" "alNext ?t = alNext s"
    by (cases result; simp add: publish_def c_def; blast)+
  have c: "c \<noteq> Waiting f" "c = Finished (Inr vs) \<Longrightarrow> evReady (alState ?t) \<and> vs = cloneModels qs (evValues (alState ?t))"
    for f vs by (cases result; auto simp: publish_def c_def)+
  have "owners_agree ?t" using none i(1) t(2) by (simp add: owners_agree_def t(1,3) nth_list_update)
  moreover have "flights_agree ?t"
    using inv cur t(4) c(1)[symmetric] unfolding all_inv_def flights_agree_def t(1,3,5) by (auto dest!: set_updateE)
  moreover have "results_agree qs ?t"
    using inv idle c(2)[OF sym] unfolding all_inv_def results_agree_def t(1,3) by (auto dest!: set_updateE)
  ultimately show ?thesis by (simp add: all_inv_def)
qed

lemma move_caller_plain:
  assumes "all_inv qs s" and "i < length (alCallers s)" and "owner c = owner (alCallers s ! i)"
    and "\<And>f. c \<noteq> Waiting f" and "\<And>vs. c \<noteq> Finished (Inr vs)"
  shows "all_inv qs (move_caller i c w s)"
  using assms by (intro move_caller_inv) auto

text \<open>How many steps a caller can take before it returns or an evaluation ends.\<close>

definition finished :: "'m caller \<Rightarrow> bool" where
  "finished c \<longleftrightarrow> (case c of Finished _ \<Rightarrow> True | _ \<Rightarrow> False)"

definition caller_rank :: "(nat \<Rightarrow> go_error option option) \<Rightarrow> 'm caller \<Rightarrow> nat" where
  "caller_rank flights c =
     (case c of
        Entering \<Rightarrow> 5 | Checking \<Rightarrow> 4 | Locking \<Rightarrow> 3
      | Waiting f \<Rightarrow> if flights f = None then 1 else 5
      | Evaluating _ \<Rightarrow> 2 | Publishing _ _ \<Rightarrow> 1 | Finished _ \<Rightarrow> 0)"

lemma caller_simps [simp]:
  "finished (Finished r)" "\<not> finished Entering" "\<not> finished Checking" "\<not> finished Locking"
  "\<not> finished (Waiting f)" "\<not> finished (Evaluating f)" "\<not> finished (Publishing f r)"
  "caller_rank flights Entering = 5" "caller_rank flights Checking = 4" "caller_rank flights Locking = 3"
  "caller_rank flights (Waiting f) = (if flights f = None then 1 else 5)"
  "caller_rank flights (Evaluating f) = 2" "caller_rank flights (Publishing f r) = 1"
  "caller_rank flights (Finished r) = 0" "caller_rank flights (after_flight ferr) < 5"
  by (simp_all add: finished_def caller_rank_def after_flight_def)

text \<open>Every step is a plain move or one of the two critical sections.\<close>

lemma all_step_shape:
  assumes "all_step qs ctx i s t"
  obtains (plain) c w where "i < length (alCallers s)" "t = move_caller i c w s" "owner c = owner (alCallers s ! i)"
    "\<And>f. c \<noteq> Waiting f" "\<And>vs. c \<noteq> Finished (Inr vs)"
    "caller_rank (alFlights s) c < caller_rank (alFlights s) (alCallers s ! i)" "\<not> finished (alCallers s ! i)"
  | (enters) "i < length (alCallers s)" "alCallers s ! i = Locking" "t = enter_state qs i s"
  | (publishing) flight result where "i < length (alCallers s)" "alCallers s ! i = Publishing flight result"
      "t = publish qs i flight result s"
  using assms
proof cases
  case (refused err w)
  then show ?thesis by (intro plain[of "Finished (Inl err)" w]) simp_all
next
  case (validated w)
  then show ?thesis by (intro plain[of Checking w]) simp_all
next
  case (check_canceled err w)
  then show ?thesis by (intro plain[of "Finished (Inl err)" w]) simp_all
next
  case (check_live w)
  then show ?thesis by (intro plain[of Locking w]) simp_all
next
  case (wait_canceled flight err w)
  then show ?thesis by (intro plain[of "Finished (Inl err)" w]) simp_all
next
  case (wait_done flight ferr)
  then show ?thesis by (intro plain[of "after_flight ferr" "alWorld s"]) simp_all
next
  case (evaluates flight result w)
  then show ?thesis by (intro plain[of "Publishing flight result" w]) simp_all
qed (use enters publishing in blast)+

lemma all_step_inv:
  assumes "all_step qs ctx i s t" and inv: "all_inv qs s"
  shows "all_inv qs t"
  using assms(1)
proof (cases rule: all_step_shape)
  case (plain c w)
  from move_caller_plain[OF inv plain(1,3,4,5)] show ?thesis unfolding plain(2) .
next
  case enters
  from enter_state_inv[OF inv enters(1,2)] show ?thesis unfolding enters(3) .
next
  case (publishing flight result)
  from publish_inv[OF inv publishing(1,2)] show ?thesis unfolding publishing(3) .
qed

lemma outside_inv: "all_inv qs (t\<lparr>alWorld := w\<rparr>) = all_inv qs t"
  by (cases t) (simp only: all_inv_defs all_system.simps)

lemma all_run_inv: "all_run qs ctx s as t \<Longrightarrow> all_inv qs s \<Longrightarrow> all_inv qs t"
proof (induction rule: all_run.induct)
  case (moves s as t i u)
  from all_step_inv[OF moves(2) moves.IH[OF moves.prems]] show ?case .
next
  case (outside s as t w)
  from outside.IH[OF outside.prems] show ?case by (simp only: outside_inv)
qed

lemma all_start_inv: "evFlight state = None \<Longrightarrow> all_inv qs (all_start n state w)"
  by (simp add: all_inv_defs all_start_def)

section \<open>One evaluation\<close>

lemma one_owner:
  assumes "owners_agree s"
  shows "length (filter (\<lambda>c. owner c \<noteq> None) (alCallers s)) \<le> 1"
proof -
  have "\<exists>k. {j. j < length (alCallers s) \<and> owner (alCallers s ! j) \<noteq> None} \<subseteq> {k}"
  proof (cases "evFlight (alState s)")
    case None
    with assms show ?thesis by (auto simp: owners_agree_def)
  next
    case (Some f)
    with assms obtain k where "\<forall>j < length (alCallers s). owner (alCallers s ! j) = (if j = k then Some f else None)"
      by (auto simp: owners_agree_def)
    then show ?thesis by (intro exI[of _ k] subsetI) (auto split: if_splits)
  qed
  then obtain k where "{j. j < length (alCallers s) \<and> owner (alCallers s ! j) \<noteq> None} \<subseteq> {k}" by blast
  from card_mono[OF _ this] show ?thesis by (simp add: length_filter_conv_card)
qed

lemma ready_no_owner:
  assumes "all_inv qs s" and "evReady (alState s)" and "c \<in> set (alCallers s)"
  shows "owner c = None"
  using assms no_owner[of s] by (auto simp: all_inv_def results_agree_def in_set_conv_nth)

lemma ready_step:
  assumes "all_step qs ctx i s t" and "all_inv qs s" and "evReady (alState s)"
  shows "alState t = alState s"
  using assms(1)
proof (cases rule: all_step_shape)
  case (publishing flight result)
  then have "owner (alCallers s ! i) = Some flight" by simp
  moreover have "owner (alCallers s ! i) = None"
    using ready_no_owner[OF assms(2,3)] publishing(1) by simp
  ultimately show ?thesis by simp
qed (simp_all add: enter_state_def assms(3))

lemma ready_run:
  "all_run qs ctx s as t \<Longrightarrow> all_inv qs s \<Longrightarrow> evReady (alState s) \<Longrightarrow> alState t = alState s"
proof (induction rule: all_run.induct)
  case (moves s as t i u)
  from moves.IH[OF moves.prems] moves.prems(2) have "alState t = alState s" "evReady (alState t)" by simp_all
  with ready_step[OF moves(2) all_run_inv[OF moves(1) moves.prems(1)]] show ?case by simp
qed simp_all

text \<open>
  C28: concurrent callers of \<open>All\<close> on one query set share one evaluation. In every interleaving, and
  whatever the contexts and the database do, at most one caller is evaluating at any time; whoever
  succeeds returns clones of the one cached list; and once the cache is filled it never changes
  again and nobody evaluates any more.
\<close>
theorem all_evaluates_once:
  assumes "evFlight state = None" and "all_run qs ctx (all_start n state w) as s" and "all_run qs ctx s bs t"
  shows "length (filter (\<lambda>c. owner c \<noteq> None) (alCallers s)) \<le> 1
    \<and> (\<forall>vs. Finished (Inr vs) \<in> set (alCallers s) \<longrightarrow>
         evReady (alState s) \<and> vs = cloneModels qs (evValues (alState s)))
    \<and> (evReady (alState s) \<longrightarrow> alState t = alState s \<and> (\<forall>c \<in> set (alCallers t). owner c = None))"
proof -
  note inv = all_run_inv[OF assms(2) all_start_inv[OF assms(1)]]
  note later = all_run_inv[OF assms(3) inv]
  have "alState t = alState s \<and> (\<forall>c \<in> set (alCallers t). owner c = None)" if "evReady (alState s)"
    using ready_run[OF assms(3) inv that] ready_no_owner[OF later] that by simp
  with one_owner inv show ?thesis by (auto simp: all_inv_def results_agree_def)
qed

section \<open>Every caller returns\<close>

definition caller_weight :: "nat \<Rightarrow> (nat \<Rightarrow> go_error option option) \<Rightarrow> 'm caller \<Rightarrow> nat" where
  "caller_weight n flights c = (if finished c then 0 else 5 * n + 1 + caller_rank flights c)"

definition remaining :: "('w, 'm) all_system \<Rightarrow> nat" where
  "remaining s = sum_list (map (caller_weight (length (alCallers s)) (alFlights s)) (alCallers s))"

lemma sum_list_less_update:
  fixes h :: "'a \<Rightarrow> nat"
  assumes "i < length xs" and "h c < h (xs ! i)"
  shows "sum_list (map h (xs[i := c])) < sum_list (map h xs)"
proof -
  have "h (xs ! i) \<le> sum_list (map h xs)" using assms(1) by (intro member_le_sum_list) simp_all
  with assms show ?thesis by (simp add: map_update sum_list_update)
qed

lemma sum_list_le_offset:
  fixes g h :: "'a \<Rightarrow> nat"
  shows "(\<And>x. x \<in> set xs \<Longrightarrow> g x \<le> h x + k) \<Longrightarrow> sum_list (map g xs) \<le> sum_list (map h xs) + k * length xs"
  by (induction xs) (fastforce simp: add_mono)+

lemma enter_state_decreases:
  assumes inv: "all_inv qs s" and i: "i < length (alCallers s)" "alCallers s ! i = Locking"
  shows "remaining (enter_state qs i s) < remaining s"
proof -
  let ?t = "enter_state qs i s" and ?n = "length (alCallers s)"
  have "\<exists>c. alCallers ?t = (alCallers s)[i := c] \<and> caller_weight ?n (alFlights ?t) c < 5 * ?n + 4
      \<and> (alFlights ?t = alFlights s \<or> alFlights ?t = (alFlights s)(alNext s := None))"
  proof (cases "evReady (alState s)")
    case True
    then show ?thesis by (simp add: enter_state_def caller_weight_def exI[of _ "Finished r" for r])
  next
    case False
    show ?thesis
    proof (cases "evFlight (alState s)")
      case None
      with False show ?thesis
        by (simp add: enter_state_def) (rule exI[of _ "Evaluating (alNext s)"], simp add: caller_weight_def)
    next
      case (Some f)
      moreover from Some inv have "alFlights s f = None" by (simp add: all_inv_def flights_agree_def)
      ultimately show ?thesis using False
        by (simp add: enter_state_def) (rule exI[of _ "Waiting f"], simp add: caller_weight_def)
    qed
  qed
  then obtain c where c: "alCallers ?t = (alCallers s)[i := c]" "caller_weight ?n (alFlights ?t) c < 5 * ?n + 4"
    and f: "alFlights ?t = alFlights s \<or> alFlights ?t = (alFlights s)(alNext s := None)" by blast
  have fresh: "f \<noteq> alNext s" if "Waiting f \<in> set (alCallers s)" for f
    using inv that unfolding all_inv_def flights_agree_def by blast
  have same: "caller_weight ?n (alFlights ?t) d = caller_weight ?n (alFlights s) d" if "d \<in> set (alCallers s)" for d
    using f that fresh by (cases d) (auto simp: caller_weight_def)
  have "remaining ?t = sum_list (map (caller_weight ?n (alFlights ?t)) ((alCallers s)[i := c]))"
    by (simp add: remaining_def c(1))
  also have "\<dots> < sum_list (map (caller_weight ?n (alFlights ?t)) (alCallers s))"
  proof (rule sum_list_less_update[OF i(1)])
    show "caller_weight ?n (alFlights ?t) c < caller_weight ?n (alFlights ?t) (alCallers s ! i)"
      using c(2) i(2) by (simp add: caller_weight_def)
  qed
  also have "\<dots> = remaining s"
    unfolding remaining_def by (rule arg_cong[OF map_cong]) (simp_all add: same)
  finally show ?thesis .
qed

lemma publish_decreases:
  assumes i: "i < length (alCallers s)" "alCallers s ! i = Publishing flight result"
  shows "remaining (publish qs i flight result s) < remaining s"
proof -
  let ?t = "publish qs i flight result s" and ?n = "length (alCallers s)"
  obtain r where t: "alCallers ?t = (alCallers s)[i := Finished r]"
    by (cases result) (auto simp: publish_def)
  have "\<exists>e. alFlights ?t = (alFlights s)(flight := Some e)" by (cases result; simp add: publish_def; blast)
  then obtain e where f: "alFlights ?t = (alFlights s)(flight := Some e)" by blast
  let ?h = "caller_weight ?n (alFlights s)" and ?g = "caller_weight ?n (alFlights ?t)"
  have step: "?g c \<le> ?h c + 4" for c by (cases c) (auto simp: caller_weight_def f)
  have "sum_list (map ?g ((alCallers s)[i := Finished r]))
      \<le> sum_list (map ?h ((alCallers s)[i := Finished r])) + 4 * ?n"
    by (rule order_trans[OF sum_list_le_offset[OF step]]) simp
  moreover have "sum_list (map ?h ((alCallers s)[i := Finished r])) + (5 * ?n + 2) = sum_list (map ?h (alCallers s))"
  proof -
    have "?h (alCallers s ! i) \<le> sum_list (map ?h (alCallers s))" using i(1) by (intro member_le_sum_list) simp_all
    with i show ?thesis by (simp add: map_update sum_list_update caller_weight_def)
  qed
  ultimately show ?thesis by (simp add: remaining_def t)
qed

lemma all_step_decreases:
  assumes "all_step qs ctx i s t" and "all_inv qs s"
  shows "remaining t < remaining s"
  using assms(1)
proof (cases rule: all_step_shape)
  case (plain c w)
  then show ?thesis
    by (auto simp: remaining_def caller_weight_def intro!: sum_list_less_update)
qed (use enter_state_decreases[OF assms(2)] publish_decreases in auto)

lemma all_run_bound:
  "all_run qs ctx s as t \<Longrightarrow> all_inv qs s \<Longrightarrow> length as + remaining t \<le> remaining s"
proof (induction rule: all_run.induct)
  case (moves s as t i u)
  from all_step_decreases[OF moves(2) all_run_inv[OF moves(1) moves.prems]] moves.IH[OF moves.prems]
  show ?case by simp
next
  case (outside s as t w)
  then show ?case by (simp add: remaining_def)
qed simp

text \<open>Whoever has not returned can move, or waits for an owner who can.\<close>

lemma owner_can_step:
  assumes "i < length (alCallers s)" and "owner (alCallers s ! i) = Some f"
  shows "\<exists>t. all_step qs ctx i s t"
proof (cases "alCallers s ! i")
  case (Evaluating g)
  obtain result w where "evaluate qs (ctx i) (alWorld s) = (result, w)" by fastforce
  with assms(1) Evaluating show ?thesis by (blast intro: all_step.evaluates)
next
  case (Publishing g result)
  with assms(1) show ?thesis by (blast intro: all_step.publishes)
qed (use assms(2) in simp_all)

lemma unfinished_progress:
  assumes inv: "all_inv qs s" and i: "i < length (alCallers s)" "\<not> finished (alCallers s ! i)"
  shows "\<exists>j t. all_step qs ctx j s t"
proof (cases "alCallers s ! i")
  case Entering
  obtain r w where r: "validateTerminal qs (ctx i) (alWorld s) = (r, w)" by fastforce
  show ?thesis
  proof (cases r)
    case None
    with r i(1) Entering show ?thesis by (blast intro: all_step.validated)
  next
    case (Some err)
    with r i(1) Entering show ?thesis by (blast intro: all_step.refused)
  qed
next
  case Checking
  obtain r w where r: "the (ctx i) (alWorld s) = (r, w)" by fastforce
  show ?thesis
  proof (cases r)
    case None
    with r i(1) Checking show ?thesis by (blast intro: all_step.check_live)
  next
    case (Some err)
    with r i(1) Checking show ?thesis by (blast intro: all_step.check_canceled)
  qed
next
  case Locking
  with i(1) show ?thesis by (blast intro: all_step.lock)
next
  case (Waiting f)
  show ?thesis
  proof (cases "alFlights s f")
    case (Some ferr)
    with i(1) Waiting show ?thesis by (blast intro: all_step.wait_done)
  next
    case None
    have "Waiting f \<in> set (alCallers s)" using nth_mem[OF i(1)] unfolding Waiting .
    with None inv have "evFlight (alState s) = Some f" unfolding all_inv_def flights_agree_def by blast
    with inv obtain k where "k < length (alCallers s)" "owner (alCallers s ! k) = Some f"
      by (auto simp: all_inv_def owners_agree_def)
    from owner_can_step[OF this] show ?thesis by blast
  qed
next
  case (Evaluating f)
  then have "owner (alCallers s ! i) = Some f" by simp
  from owner_can_step[OF i(1) this] show ?thesis by blast
next
  case (Publishing f result)
  then have "owner (alCallers s ! i) = Some f" by simp
  from owner_can_step[OF i(1) this] show ?thesis by blast
qed (use i(2) in simp)

text \<open>
  C29: every caller of \<open>All\<close> returns. However \<open>n\<close> concurrent callers are scheduled, and whatever their
  contexts and the database do, they take at most \<open>n * (5 * n + 6)\<close> steps together, and as long as
  one has not returned a step is possible: there is no deadlock and no endless retry.
\<close>
theorem all_callers_return:
  assumes "evFlight state = None" and "all_run qs ctx (all_start n state w) as s"
  shows "length as \<le> n * (5 * n + 6)
    \<and> ((\<forall>c \<in> set (alCallers s). finished c) \<or> (\<exists>i t. all_step qs ctx i s t))"
proof -
  note inv = all_start_inv[OF assms(1)]
  have "remaining (all_start n state w) = n * (5 * n + 6)"
    by (simp add: remaining_def all_start_def caller_weight_def sum_list_replicate)
  with all_run_bound[OF assms(2) inv] have "length as \<le> n * (5 * n + 6)" by simp
  moreover have "\<exists>i t. all_step qs ctx i s t" if "\<not> (\<forall>c \<in> set (alCallers s). finished c)"
  proof -
    from that obtain i where "i < length (alCallers s)" "\<not> finished (alCallers s ! i)"
      by (auto simp: in_set_conv_nth)
    from unfinished_progress[OF all_run_inv[OF assms(2) inv] this] show ?thesis .
  qed
  ultimately show ?thesis by blast
qed

section \<open>A single caller\<close>

lemma all_run_snoc: "\<exists>as. all_run qs ctx s as t \<Longrightarrow> all_step qs ctx i t u \<Longrightarrow> \<exists>as. all_run qs ctx s as u"
  using all_run.moves by blast

text \<open>
  Alone on the query set, a caller goes through the steps to the result of the sequential
  function, and leaves its evaluation state and world.
\<close>

lemma All_alone_runs:
  assumes all: "All_alone qs (ctx 0) state w = (result, state', w')" and rest: "evFlight state = None"
  shows "\<exists>t. (\<exists>as. all_run qs ctx (all_start (Suc 0) state w) as t) \<and> alCallers t = [Finished result]
    \<and> alState t = state' \<and> alWorld t = w'"
proof -
  let ?s0 = "all_start (Suc 0) state w"
  let ?reach = "\<lambda>t. \<exists>as. all_run qs ctx ?s0 as t"
  have s0: "alCallers ?s0 = [Entering]" "alWorld ?s0 = w" "alState ?s0 = state" by (simp_all add: all_start_def)
  have r0: "?reach ?s0" using all_run.start by blast
  obtain v w1 where v: "validateTerminal qs (ctx 0) w = (v, w1)" by fastforce
  show ?thesis
  proof (cases v)
    case (Some err)
    let ?t = "move_caller 0 (Finished (Inl err)) w1 ?s0"
    have "all_step qs ctx 0 ?s0 ?t" using v Some s0 by (intro all_step.refused) simp_all
    from all_run_snoc[OF r0 this] all v Some show ?thesis
      by (intro exI[of _ ?t]) (auto simp: All_alone_def all_start_def)
  next
    case None
    let ?s1 = "move_caller 0 Checking w1 ?s0"
    have "all_step qs ctx 0 ?s0 ?s1" using v None s0 by (intro all_step.validated) simp_all
    note r1 = all_run_snoc[OF r0 this]
    have s1: "alCallers ?s1 = [Checking]" "alWorld ?s1 = w1" "alState ?s1 = state" by (simp_all add: s0)
    obtain c w2 where c: "the (ctx 0) w1 = (c, w2)" by fastforce
    show ?thesis
    proof (cases c)
      case (Some err)
      let ?t = "move_caller 0 (Finished (Inl err)) w2 ?s1"
      have "all_step qs ctx 0 ?s1 ?t" using c Some s1 by (intro all_step.check_canceled) simp_all
      from all_run_snoc[OF r1 this] all v None c Some show ?thesis
        by (intro exI[of _ ?t]) (auto simp: All_alone_def all_start_def)
    next
      case live: None
      let ?s2 = "move_caller 0 Locking w2 ?s1"
      have "all_step qs ctx 0 ?s1 ?s2" using c live s1 by (intro all_step.check_live) simp_all
      note r2 = all_run_snoc[OF r1 this]
      have s2: "alCallers ?s2 = [Locking]" "alWorld ?s2 = w2" "alState ?s2 = state" by (simp_all add: s0)
      let ?s3 = "enter_state qs 0 ?s2"
      have "all_step qs ctx 0 ?s2 ?s3" using s2 by (intro all_step.lock) simp_all
      note r3 = all_run_snoc[OF r2 this]
      show ?thesis
      proof (cases "evReady state")
        case True
        with r3 all v None c live show ?thesis
          by (intro exI[of _ ?s3]) (auto simp: All_alone_def enter_state_def all_start_def)
      next
        case False
        obtain r w3 where r: "evaluate qs (ctx 0) w2 = (r, w3)" by fastforce
        let ?s4 = "move_caller 0 (Publishing (alNext ?s2) r) w3 ?s3"
        have s3: "alCallers ?s3 = [Evaluating (alNext ?s2)]" "alWorld ?s3 = w2"
          "alState ?s3 = state\<lparr>evFlight := Some (alNext ?s2)\<rparr>"
          using False rest by (simp_all add: enter_state_def s0)
        have "all_step qs ctx 0 ?s3 ?s4" using r s3 by (intro all_step.evaluates) simp_all
        note r4 = all_run_snoc[OF r3 this]
        let ?t = "publish qs 0 (alNext ?s2) r ?s4"
        have "all_step qs ctx 0 ?s4 ?t" using s3 by (intro all_step.publishes) simp_all
        from all_run_snoc[OF r4 this] all v None c live False r s3 show ?thesis
          by (intro exI[of _ ?t]; cases r) (auto simp: All_alone_def publish_def enter_state_def all_start_def)
      qed
    qed
  qed
qed

section \<open>A caller on the table of two rows\<close>

lemma number_query_run:
  "\<exists>as t. all_run number_query (\<lambda>_. live) (all_start (Suc 0) emptyEvaluation ()) as t
     \<and> alCallers t = [Finished (Inr [5, 7])]"
proof -
  have "\<exists>state'. All_alone number_query live emptyEvaluation () = (Inr [5, 7], state', ())"
    by (simp add: All_alone_def number_query_facts evaluate_def evaluable_scanAll[OF number_query_evaluable]
        evaluable_finish[OF number_query_evaluable] emptyEvaluation_def cloneModels_def queried_models_def
        limited_def number_rows_def)
      (simp add: number_query_def number_descriptor_def)
  then obtain state' where "All_alone number_query ((\<lambda>_ :: nat. live) 0) emptyEvaluation () = (Inr [5, 7], state', ())"
    by blast
  from All_alone_runs[OF this] show ?thesis by (auto simp: emptyEvaluation_def)
qed

lemma emptyEvaluation_rest: "evFlight emptyEvaluation = None"
  by (simp add: emptyEvaluation_def)

theorem all_callers_return_witness:
  "\<exists>as t. all_run number_query (\<lambda>_. live) (all_start (Suc 0) emptyEvaluation ()) as t
     \<and> alCallers t = [Finished (Inr [5, 7])] \<and> length as \<le> 11"
proof -
  from number_query_run obtain as t where
    run: "all_run number_query (\<lambda>_. live) (all_start (Suc 0) emptyEvaluation ()) as t" "alCallers t = [Finished (Inr [5, 7])]"
    by blast
  from all_callers_return[OF emptyEvaluation_rest run(1)] run show ?thesis by auto
qed

theorem all_evaluates_once_witness:
  "\<exists>as t. all_run number_query (\<lambda>_. live) (all_start (Suc 0) emptyEvaluation ()) as t
     \<and> evReady (alState t) \<and> [5, 7] = cloneModels number_query (evValues (alState t))"
proof -
  from number_query_run obtain as t where
    run: "all_run number_query (\<lambda>_. live) (all_start (Suc 0) emptyEvaluation ()) as t" "alCallers t = [Finished (Inr [5, 7])]"
    by blast
  from all_evaluates_once[OF emptyEvaluation_rest run(1) all_run.start] run show ?thesis by auto
qed

end
