(* ===== verification/Orm_Dynamic.thy ===== *)
theory Orm_Dynamic
  imports Orm_Query Orm_Compile
begin

text \<open>
  Lookups that arrive at run time as a key and an untyped value (\<open>orm/dynamic.go\<close>): \<open>ParseDynamic\<close>
  turns them into the predicates that generated typed fields build, or rejects them.
\<close>

section \<open>Inputs\<close>

text \<open>A value of type \<open>any\<close>, as far as the type switch looks; otherwise the name \<open>%T\<close> prints.\<close>

datatype any_value = AnyInt go_int | AnyInt64 go_int | AnyString string | AnyBool bool | AnyOther string

fun any_type :: "any_value \<Rightarrow> string" where
  "any_type (AnyInt _) = ''int''"
| "any_type (AnyInt64 _) = ''int64''"
| "any_type (AnyString _) = ''string''"
| "any_type (AnyBool _) = ''bool''"
| "any_type (AnyOther t) = t"

record lookup_input =
  liKey :: string
  liValue :: any_value

type_synonym lookup_policy = "ir_field \<Rightarrow> lookup \<Rightarrow> bool"

section \<open>Keys\<close>

text \<open>\<open>strings.Split(key, "__")\<close>.\<close>

function split_underscores :: "string \<Rightarrow> string list" where
  "split_underscores s =
     (case index_of s ''__'' of None \<Rightarrow> [s] | Some i \<Rightarrow> take i s # split_underscores (drop (i + 2) s))"
  by pat_completeness auto
termination
proof (relation "measure length")
  fix s i assume "index_of s ''__'' = Some i"
  then show "(drop (i + 2) s, s) \<in> measure length"
    using index_of_Some[of s "''__''" i] by (cases s) (auto simp: has_prefix_def)
qed simp

declare split_underscores.simps [simp del]

definition splitLookup :: "string \<Rightarrow> string \<times> string" where
  "splitLookup key =
     (let parts = split_underscores key in
      if length parts = 1 then (key, lookup_string LookupExact)
      else (hd parts, join_strings ''__'' (tl parts)))"

definition orm_findField :: "ir_field list \<Rightarrow> string \<Rightarrow> ir_field option" where
  "orm_findField fs name = find (\<lambda>field. fName field = name) fs"

definition lookup_of :: "string \<Rightarrow> lookup" where
  "lookup_of name = (if name = ''exact'' then LookupExact else if name = ''icontains'' then LookupIContains
     else if name = ''isnull'' then LookupIsNull else LookupOther name)"

definition supportedLookup :: "ir_field \<Rightarrow> string \<Rightarrow> lookup \<times> bool" where
  "supportedLookup field name =
     (case lookup_of name of
        LookupExact \<Rightarrow> (LookupExact, True)
      | LookupIsNull \<Rightarrow> (LookupIsNull, True)
      | LookupIContains \<Rightarrow> (LookupIContains, fKind field = FieldChar)
      | LookupOther _ \<Rightarrow> (LookupOther '''', False))"

section \<open>Values\<close>

definition invalid_dynamic :: "ir_field \<Rightarrow> lookup \<Rightarrow> any_value \<Rightarrow> string \<Rightarrow> go_error" where
  "invalid_dynamic field lookup raw expected =
     QueryError CategoryField CodeInvalidValue (fName field) (lookup_string lookup)
       (Text ''expected %s, got %T'' [FStr expected, FStr (any_type raw)]) None"

definition dynamicValue :: "ir_field \<Rightarrow> lookup \<Rightarrow> any_value \<Rightarrow> go_error + qvalue" where
  "dynamicValue field lookup raw =
     (if lookup = LookupIsNull
      then (case raw of AnyBool b \<Rightarrow> Inr (Boolean b) | _ \<Rightarrow> Inl (invalid_dynamic field lookup raw ''bool''))
      else
      (case fKind field of
         FieldAuto \<Rightarrow>
           (case raw of
              AnyInt n \<Rightarrow> Inr (Integer (sint n))
            | AnyInt64 n \<Rightarrow> Inr (Integer (sint n))
            | _ \<Rightarrow> Inl (invalid_dynamic field lookup raw ''int or int64''))
       | FieldChar \<Rightarrow>
           (case raw of AnyString s \<Rightarrow> Inr (String s) | _ \<Rightarrow> Inl (invalid_dynamic field lookup raw ''string''))
       | FieldBoolean \<Rightarrow>
           (case raw of AnyBool b \<Rightarrow> Inr (Boolean b) | _ \<Rightarrow> Inl (invalid_dynamic field lookup raw ''bool''))
       | FieldKindOther _ \<Rightarrow> Inl (invalid_dynamic field lookup raw ''supported field value'')))"

definition dynamic_error :: "query_code \<Rightarrow> string \<Rightarrow> string \<Rightarrow> string \<Rightarrow> go_error" where
  "dynamic_error code name lookup detail = QueryError CategoryField code name lookup (plain detail) None"

text \<open>The body of the loop.\<close>

definition parse_lookup :: "ir_model \<Rightarrow> lookup_policy option \<Rightarrow> lookup_input \<Rightarrow> go_error + orm_predicate" where
  "parse_lookup metadata policy inp =
     (case splitLookup (liKey inp) of
        (fieldName, lookupName) \<Rightarrow>
        (case orm_findField (mFields metadata) fieldName of
           None \<Rightarrow> Inl (dynamic_error CodeUnknownField fieldName '''' ''field is not present in model metadata'')
         | Some field \<Rightarrow>
           (case supportedLookup field lookupName of
              (lookup, ok) \<Rightarrow>
              if \<not> ok
              then Inl (dynamic_error CodeUnsupportedLookup (fName field) lookupName
                     ''lookup is not supported for this field kind'')
              else if policy \<noteq> None \<and> \<not> the policy field lookup
              then Inl (dynamic_error CodeDisallowedLookup (fName field) (lookup_string lookup)
                     ''lookup was rejected by policy'')
              else
              (case dynamicValue field lookup (liValue inp) of
                 Inl err \<Rightarrow> Inl err
               | Inr v \<Rightarrow> Inr \<lparr>prCondition = NewCondition (fieldReference field) lookup v, prErr = None\<rparr>))))"

definition ParseDynamic :: "('r, 'm) model_descriptor option \<Rightarrow> lookup_policy option \<Rightarrow> lookup_input list
    \<Rightarrow> go_error + orm_predicate list" where
  "ParseDynamic descriptor policy inputs =
     (case descriptor of
        None \<Rightarrow> Inl (query_error CategoryQuery CodeInvalidPlan (plain ''descriptor is nil''))
      | Some d \<Rightarrow> map_result (parse_lookup (mdMetadata d) policy) inputs)"

section \<open>Splitting keys\<close>

lemma split_underscores_ne: "split_underscores s \<noteq> []"
  by (subst split_underscores.simps) (simp split: option.splits)

lemma join_Cons: "ss \<noteq> [] \<Longrightarrow> join_strings sep (s # ss) = s @ sep @ join_strings sep ss"
  by (cases ss) simp_all

lemma drop_at_index:
  assumes "index_of s ''__'' = Some i"
  shows "s = take i s @ ''__'' @ drop (i + 2) s"
proof -
  from index_of_Some[OF assms] obtain t where t: "drop i s = ''__'' @ t" by (auto simp: has_prefix_iff)
  then have "drop (i + 2) s = t" by (metis add.commute drop_drop append_eq_conv_conj list.size(3,4) One_nat_def
        Suc_1 plus_1_eq_Suc)
  with t append_take_drop_id[of i s] show ?thesis by metis
qed

lemma join_split: "join_strings ''__'' (split_underscores s) = s"
proof (induction s rule: split_underscores.induct)
  case (1 s)
  show ?case
  proof (cases "index_of s ''__''")
    case None
    then show ?thesis by (subst split_underscores.simps) simp
  next
    case (Some i)
    have "join_strings ''__'' (split_underscores s) = take i s @ ''__'' @ drop (i + 2) s"
      using 1[OF Some] Some
      by (subst split_underscores.simps) (simp add: join_Cons[OF split_underscores_ne])
    with drop_at_index[OF Some] show ?thesis by simp
  qed
qed

text \<open>The name is what comes before the first double underscore, the lookup all that comes after it.\<close>

lemma splitLookup_eq:
  "splitLookup key = (case index_of key ''__'' of
     None \<Rightarrow> (key, ''exact'') | Some i \<Rightarrow> (take i key, drop (i + 2) key))"
  unfolding splitLookup_def Let_def
  by (subst (1 2 3) split_underscores.simps)
    (simp add: join_split split_underscores_ne split: option.splits)
section \<open>Parsed lookups are queries the database understands\<close>

lemma findField_Some: "orm_findField fs name = Some f \<Longrightarrow> f \<in> set fs \<and> fName f = name"
  by (auto simp: orm_findField_def find_Some_iff)

lemma parse_lookup_Inr:
  assumes "parse_lookup metadata policy inp = Inr p"
  obtains f v lookup where "f \<in> set (mFields metadata)" "fName f = fst (splitLookup (liKey inp))"
    "supportedLookup f (snd (splitLookup (liKey inp))) = (lookup, True)"
    "policy = None \<or> the policy f lookup" "dynamicValue f lookup (liValue inp) = Inr v"
    "p = \<lparr>prCondition = NewCondition (fieldReference f) lookup v, prErr = None\<rparr>"
proof -
  obtain n l where nl: "splitLookup (liKey inp) = (n, l)" by fastforce
  from assms obtain f where f: "orm_findField (mFields metadata) n = Some f"
    by (auto simp: parse_lookup_def nl split: option.splits)
  obtain lookup ok where s: "supportedLookup f l = (lookup, ok)" by fastforce
  from assms obtain v where r: "ok" "policy = None \<or> the policy f lookup" "dynamicValue f lookup (liValue inp) = Inr v"
    "p = \<lparr>prCondition = NewCondition (fieldReference f) lookup v, prErr = None\<rparr>"
    by (auto simp: parse_lookup_def nl f s split: if_splits sum.splits)
  from that[of f lookup v] findField_Some[OF f] s r show thesis by (simp add: nl)
qed

lemma supportedLookup_True:
  "supportedLookup f name = (lookup, True) \<Longrightarrow>
     lookup = LookupExact \<or> lookup = LookupIsNull \<or> lookup = LookupIContains \<and> fKind f = FieldChar"
  by (auto simp: supportedLookup_def split: lookup.splits)

lemma dynamic_condition_supported:
  assumes "supportedLookup f name = (lookup, True)" and "dynamicValue f lookup raw = Inr v"
  shows "condition_supported (NewCondition (fieldReference f) lookup v)"
  using supportedLookup_True[OF assms(1)] assms(2)
  by (auto simp: dynamicValue_def condition_supported_def NewCondition_def fieldReference_def NewFieldRef_def
      valueMatchesField_def Boolean_def Integer_def String_def split: field_kind.splits any_value.splits)

text \<open>
  C30: what arrives from outside never becomes a query the compiler refuses. Whatever keys and values
  \<open>ParseDynamic\<close> accepts for a well-formed model, filtering the model's query set by the resulting
  predicates is error-free and its plan compiles.
\<close>
theorem parsed_lookups_compile:
  assumes wf: "wf_model uc (mdMetadata d)" and ps: "ParseDynamic (Some d) policy inputs = Inr ps"
    and qs: "Using (Some d) be st = (qs, st1)" "Filter_qs ps qs st1 = (qs', st2)"
  shows "qsConfigurationErr qs' = None \<and> (\<exists>r. Compile (qsPlan qs') = Inr r)"
proof -
  let ?m = "mdMetadata d"
  from ps have each: "\<exists>inp. parse_lookup ?m policy inp = Inr p" if "p \<in> set ps" for p
    using that by (auto simp: ParseDynamic_def map_result_Inr list_all2_conv_all_nth in_set_conv_nth)
  have ok: "prErr p = None \<and> coField (prCondition p) \<in> fieldReference ` set (mFields ?m)
      \<and> condition_supported (prCondition p)" if p: "p \<in> set ps" for p
  proof -
    from each[OF p] obtain inp where "parse_lookup ?m policy inp = Inr p" by blast
    then show ?thesis
      by (rule parse_lookup_Inr) (use dynamic_condition_supported in \<open>auto simp: NewCondition_def\<close>)
  qed
  have "find (\<lambda>p. prErr p \<noteq> None) ps = None" using ok by (simp add: find_None_iff)
  then have "first_error prErr ps = None" by (simp add: first_error_def)
  moreover have plan: "qsPlan qs = NewPlan (mDBTable ?m) (map fieldReference (mFields ?m))"
    "qsConfigurationErr qs = None"
    using qs(1) by (auto simp: Using_def newEvaluationState_def)
  ultimately have qs': "qsPlan qs' = WithConditions (qsPlan qs) (map prCondition ps)" "qsConfigurationErr qs' = None"
    using qs(2) by (auto simp: Filter_qs_def Fresh_def newEvaluationState_def)
  have "quotable (mDBTable ?m)" "\<forall>f \<in> set (mFields ?m). quotable (fColumn f)" "mFields ?m \<noteq> []"
    using wf databaseIdentifier_sql(1) by (auto simp: wf_model_def wf_field_def list_all_iff)
  with ok have "select_supported (qsPlan qs')"
    by (auto simp: select_supported_def qs' plan WithConditions_def NewPlan_def)
  with qs'(2) Compile_Inr_iff show ?thesis by blast
qed

section \<open>Dynamic and typed lookups\<close>

text \<open>Names that \<open>splitLookup\<close> gives back when a lookup is appended to them.\<close>

definition plain_name :: "string \<Rightarrow> bool" where
  "plain_name n \<longleftrightarrow> \<not> contains_string n ''__'' \<and> (n = [] \<or> last n \<noteq> CHR ''_'')"

lemma index_of_plain:
  "plain_name n \<Longrightarrow> index_of (n @ ''__'' @ l) ''__'' = Some (length n)"
proof (induction n)
  case (Cons c n)
  have "plain_name n"
    using Cons.prems by (cases n) (auto simp: plain_name_def contains_string_def split: if_splits)
  moreover have "\<not> has_prefix (c # n @ ''__'' @ l) ''__''"
    using Cons.prems by (cases n) (auto simp: plain_name_def contains_string_def has_prefix_def split: if_splits)
  ultimately show ?case using Cons.IH by simp
qed (simp add: has_prefix_def)

lemma splitLookup_plain:
  assumes "plain_name n"
  shows "splitLookup n = (n, ''exact'')" and "splitLookup (n @ CHR ''_'' # CHR ''_'' # l) = (n, l)"
  using assms index_of_plain[OF assms, of l]
  by (simp_all add: splitLookup_eq plain_name_def contains_string_def split: option.splits)

lemma findField_self:
  "distinct (map fName fs) \<Longrightarrow> f \<in> set fs \<Longrightarrow> orm_findField fs (fName f) = Some f"
  unfolding orm_findField_def by (induction fs) auto

abbreviation dynamic :: "('r, 'm) model_descriptor \<Rightarrow> string \<Rightarrow> any_value \<Rightarrow> go_error + orm_predicate list" where
  "dynamic d key raw \<equiv> ParseDynamic (Some d) None [\<lparr>liKey = key, liValue = raw\<rparr>]"

lemma dynamic_plain:
  assumes "distinct (map fName (mFields (mdMetadata d)))" and "f \<in> set (mFields (mdMetadata d))" and "plain_name (fName f)"
    and "supportedLookup f l = (lookup, True)" and "dynamicValue f lookup raw = Inr v"
  shows "dynamic d (fName f @ ''__'' @ l) raw
      = Inr [\<lparr>prCondition = NewCondition (fieldReference f) lookup v, prErr = None\<rparr>]"
    and "l = ''exact'' \<Longrightarrow> dynamic d (fName f) raw
      = Inr [\<lparr>prCondition = NewCondition (fieldReference f) lookup v, prErr = None\<rparr>]"
  using assms
  by (simp_all add: ParseDynamic_def parse_lookup_def splitLookup_plain findField_self)

lemma lookup_cases [simp]:
  "supportedLookup f ''exact'' = (LookupExact, True)" "supportedLookup f ''isnull'' = (LookupIsNull, True)"
  "supportedLookup f ''icontains'' = (LookupIContains, fKind f = FieldChar)"
  by (simp_all add: supportedLookup_def lookup_of_def)

text \<open>
  C31: a dynamic lookup is the typed one. For every field of a well-formed model whose name can be
  split off again, each lookup key with a value of the right type parses to exactly the predicate
  the generated typed field builds, and a bare name means \<open>exact\<close>.
\<close>
theorem dynamic_lookups_are_typed:
  assumes wf: "wf_model uc (mdMetadata d)" and f: "f \<in> set (mFields (mdMetadata d))" and n: "plain_name (fName f)"
  shows "(fKind f = FieldAuto \<longrightarrow>
        dynamic d (fName f) (AnyInt64 k) = Inr [Integer_Exact (NewIntegerField f) (sint k)]
        \<and> dynamic d (fName f @ ''__isnull'') (AnyBool b) = Inr [Integer_IsNull (NewIntegerField f) b])
    \<and> (fKind f = FieldChar \<and> \<not> fNullable f \<longrightarrow>
        dynamic d (fName f) (AnyString s) = Inr [String_Exact (NewStringField f) s]
        \<and> dynamic d (fName f @ ''__icontains'') (AnyString s) = Inr [String_IContains (NewStringField f) s]
        \<and> dynamic d (fName f @ ''__isnull'') (AnyBool b) = Inr [String_IsNull (NewStringField f) b])
    \<and> (fKind f = FieldChar \<and> fNullable f \<longrightarrow>
        dynamic d (fName f) (AnyString s) = Inr [NullableString_Exact (NewNullableStringField f) s]
        \<and> dynamic d (fName f @ ''__icontains'') (AnyString s)
            = Inr [NullableString_IContains (NewNullableStringField f) s]
        \<and> dynamic d (fName f @ ''__isnull'') (AnyBool b) = Inr [NullableString_IsNull (NewNullableStringField f) b])
    \<and> (fKind f = FieldBoolean \<longrightarrow>
        dynamic d (fName f) (AnyBool b) = Inr [Boolean_Exact (NewBooleanField f) b]
        \<and> dynamic d (fName f @ ''__isnull'') (AnyBool b) = Inr [Boolean_IsNull (NewBooleanField f) b])
    \<and> dynamic d (fName f @ ''__exact'') raw = dynamic d (fName f) raw"
proof -
  have names: "distinct (map fName (mFields (mdMetadata d)))" using wf by (simp add: wf_model_def)
  have wff: "wf_field uc f" using wf f by (simp add: wf_model_def list_all_iff)
  have ne: "fName f \<noteq> ''''" "fColumn f \<noteq> ''''" using wff databaseIdentifier_nonempty by (auto simp: wf_field_def)
  have kinds: "fKind f = FieldAuto \<or> fKind f = FieldBoolean \<Longrightarrow> \<not> fNullable f"
    using wff by (auto simp: wf_field_def wf_kind_def)
  note parse = dynamic_plain[OF names f n]
  have "dynamic d (fName f @ ''__exact'') raw = dynamic d (fName f) raw"
    by (simp add: ParseDynamic_def parse_lookup_def splitLookup_plain[OF n] findField_self[OF names f])
  moreover have "dynamicValue f LookupIsNull (AnyBool b) = Inr (Boolean b)" by (simp add: dynamicValue_def)
  moreover note parse(1)[of "''isnull''", OF _ this] parse(2)[of "''exact''"] parse(1)[of "''icontains''"]
  ultimately show ?thesis
    using ne kinds
    by (cases "fKind f")
      (simp_all add: dynamicValue_def NewIntegerField_def NewStringField_def NewNullableStringField_def
        NewBooleanField_def newField_def field_predicate_def fieldReference_def)
qed

text \<open>
  A field whose name has a double underscore cannot be addressed: no key parses to a predicate on it,
  although normalization accepts such a name.
\<close>

lemma splitLookup_name: "\<not> contains_string (fst (splitLookup key)) ''__''"
proof (cases "index_of key ''__''")
  case None
  then show ?thesis by (simp add: splitLookup_eq contains_string_def)
next
  case (Some i)
  have "\<not> has_prefix (drop j (take i key)) ''__''" if "j \<le> length (take i key)" for j
  proof
    assume p: "has_prefix (drop j (take i key)) ''__''"
    then have "j < i" by (cases "j < i") (auto simp: has_prefix_def)
    moreover from p have "has_prefix (drop j key) ''__''"
      by (auto simp: has_prefix_iff drop_take) (metis append_take_drop_id append.assoc append_Cons append_Nil)
    ultimately show False using index_of_Some[OF Some] by blast
  qed
  then have "index_of (take i key) ''__'' = None"
    using index_of_Some[of "take i key" "''__''"] by (cases "index_of (take i key) ''__''") auto
  with Some show ?thesis by (simp add: splitLookup_eq contains_string_def)
qed

theorem double_underscore_field_unreachable:
  assumes "distinct (map fName (mFields (mdMetadata d)))" and "f \<in> set (mFields (mdMetadata d))"
    and "contains_string (fName f) ''__''"
    and "ParseDynamic (Some d) policy inputs = Inr ps" and "p \<in> set ps"
  shows "coField (prCondition p) \<noteq> fieldReference f"
proof -
  from assms(4,5) obtain inp where "parse_lookup (mdMetadata d) policy inp = Inr p"
    by (auto simp: ParseDynamic_def map_result_Inr list_all2_conv_all_nth in_set_conv_nth)
  then obtain g v lookup where g: "fName g = fst (splitLookup (liKey inp))"
    "p = \<lparr>prCondition = NewCondition (fieldReference g) lookup v, prErr = None\<rparr>"
    by (rule parse_lookup_Inr) blast
  have "fName g \<noteq> fName f" using splitLookup_name[of "liKey inp"] assms(3) by (auto simp flip: g(1))
  then have "fieldReference g \<noteq> fieldReference f" by (metis fieldReference_simps(1))
  then show ?thesis by (simp add: g(2) NewCondition_def)
qed

lemma double_underscore_is_normal: "databaseIdentifier ''first__name''"
  by (simp add: databaseIdentifier_def identifier_start_def identifier_rest_def in_bytes_def byte_def)

section \<open>Lookups on articles\<close>

lemma article_title:
  "mFields articleMetadata ! 1 \<in> set (mFields (mdMetadata ArticleDescriptor))"
  "fName (mFields articleMetadata ! 1) = ''title''" "fKind (mFields articleMetadata ! 1) = FieldChar"
  "\<not> fNullable (mFields articleMetadata ! 1)" "plain_name ''title''"
  "wf_model ascii_tables (mdMetadata ArticleDescriptor)"
  "distinct (map fName (mFields (mdMetadata ArticleDescriptor)))"
  using articleMetadata_wf
  by (simp_all add: ArticleDescriptor_def)
    (simp_all add: articleMetadata_def zeroField_def plain_name_def contains_string_def has_prefix_def)

theorem parsed_lookups_compile_witness:
  "\<exists>ps qs st1 qs' st2 r. dynamic ArticleDescriptor ''title__icontains'' (AnyString ''go'') = Inr ps
     \<and> Using (Some ArticleDescriptor) (None :: unit queryer option) \<lparr>esNext = 0, esCells = (\<lambda>_. emptyEvaluation)\<rparr> = (qs, st1)
     \<and> Filter_qs ps qs st1 = (qs', st2) \<and> Compile (qsPlan qs') = Inr r"
proof -
  let ?f = "mFields articleMetadata ! 1"
  have "dynamicValue ?f LookupIContains (AnyString ''go'') = Inr (String ''go'')"
    by (simp add: dynamicValue_def article_title del: One_nat_def)
  with dynamic_plain(1)[OF article_title(7,1), of "''icontains''"] obtain ps where
    ps: "dynamic ArticleDescriptor ''title__icontains'' (AnyString ''go'') = Inr ps"
    by (simp add: article_title del: One_nat_def)
  obtain qs st1 where qs: "Using (Some ArticleDescriptor) (None :: unit queryer option)
      \<lparr>esNext = 0, esCells = (\<lambda>_. emptyEvaluation)\<rparr> = (qs, st1)" by fastforce
  obtain qs' st2 where f: "Filter_qs ps qs st1 = (qs', st2)" by fastforce
  from parsed_lookups_compile[OF article_title(6) ps qs f] ps qs f show ?thesis by blast
qed

theorem dynamic_lookups_are_typed_witness:
  "dynamic ArticleDescriptor ''title__icontains'' (AnyString ''go'')
   = Inr [String_IContains (NewStringField (mFields articleMetadata ! 1)) ''go'']"
  using dynamic_lookups_are_typed[OF article_title(6,1), of 0 True "''go''" "AnyBool True"] article_title(2-5) by (simp del: One_nat_def)

end
