(* ===== verification/Schema_DSL.thy ===== *)
theory Schema_DSL
  imports Article
begin

text \<open>
  Package \<open>schema\<close> (\<open>schema.go\<close>): the declarative definition of models and its translation to
  the Schema IR, and the definition of the example application
  (\<open>examples/article/modeldef/definition.go\<close>). The lemmas say which definitions \<open>Build\<close>
  accepts, what the field options contribute, and that the example's definition builds the very
  metadata its generated package carries.
\<close>

section \<open>Definitions of models\<close>

record dsl_field =
  dfName :: string
  dfGoName :: string
  dfColumn :: string
  dfKind :: field_kind
  dfNullable :: bool
  dfMaxLength :: int
  dfDefault :: "scalar_default option"

record dsl_model =
  dmName :: string
  dmGoName :: string
  dmDBTable :: string
  dmFields :: "dsl_field list"

record dsl_definition =
  ddAppLabel :: string
  ddModels :: "dsl_model list"

section \<open>Fields and their options\<close>

text \<open>A \<open>FieldOption\<close> updates the field it is applied to; a nil option is \<open>None\<close>.\<close>

type_synonym field_option = "(dsl_field \<Rightarrow> dsl_field) option"

definition Nullable :: field_option where
  "Nullable = Some (\<lambda>field. field\<lparr>dfNullable := True\<rparr>)"

definition Column :: "string \<Rightarrow> field_option" where
  "Column name = Some (\<lambda>field. field\<lparr>dfColumn := name\<rparr>)"

text \<open>The type constraint \<open>DefaultScalar\<close>: one constructor per type it admits.\<close>

datatype default_scalar = DefaultText string | DefaultFlag bool | DefaultInt64 int

definition zeroDefault :: scalar_default where
  "zeroDefault = \<lparr>sdKind = ScalarKindOther '''', sdString = '''', sdBoolean = False, sdInteger = 0\<rparr>"

fun scalar_of :: "default_scalar \<Rightarrow> scalar_default" where
  "scalar_of (DefaultText typed) = zeroDefault\<lparr>sdKind := ScalarString, sdString := typed\<rparr>"
| "scalar_of (DefaultFlag typed) = zeroDefault\<lparr>sdKind := ScalarBoolean, sdBoolean := typed\<rparr>"
| "scalar_of (DefaultInt64 typed) = zeroDefault\<lparr>sdKind := ScalarInteger, sdInteger := typed\<rparr>"

definition Default :: "default_scalar \<Rightarrow> field_option" where
  "Default v = Some (\<lambda>field. field\<lparr>dfDefault := Some (scalar_of v)\<rparr>)"

fun apply_field_options :: "field_option list \<Rightarrow> dsl_field \<Rightarrow> dsl_field" where
  "apply_field_options [] field = field"
| "apply_field_options (None # options) field = apply_field_options options field"
| "apply_field_options (Some option # options) field = apply_field_options options (option field)"

definition dsl_newField :: "string \<Rightarrow> string \<Rightarrow> field_kind \<Rightarrow> int \<Rightarrow> field_option list \<Rightarrow> dsl_field" where
  "dsl_newField name goName kind maxLength options =
     apply_field_options options
       \<lparr>dfName = name, dfGoName = goName, dfColumn = '''', dfKind = kind, dfNullable = False,
        dfMaxLength = maxLength, dfDefault = None\<rparr>"

definition CharField :: "string \<Rightarrow> string \<Rightarrow> int \<Rightarrow> field_option list \<Rightarrow> dsl_field" where
  "CharField name goName maxLength options = dsl_newField name goName FieldChar maxLength options"

definition BooleanField :: "string \<Rightarrow> string \<Rightarrow> field_option list \<Rightarrow> dsl_field" where
  "BooleanField name goName options = dsl_newField name goName FieldBoolean 0 options"

definition AutoField :: "string \<Rightarrow> string \<Rightarrow> field_option list \<Rightarrow> dsl_field" where
  "AutoField name goName options = dsl_newField name goName FieldAuto 0 options"

section \<open>Building the schema\<close>

definition build_field :: "dsl_field \<Rightarrow> ir_field" where
  "build_field field =
     \<lparr>fName = dfName field, fGoName = dfGoName field, fColumn = dfColumn field, fKind = dfKind field,
      fPrimaryKey = (dfKind field = FieldAuto), fNullable = dfNullable field,
      fMaxLength = dfMaxLength field, fDefault = dfDefault field\<rparr>"

definition build_model :: "dsl_model \<Rightarrow> ir_model" where
  "build_model m =
     \<lparr>mName = dmName m, mGoName = dmGoName m, mDBTable = dmDBTable m,
      mFields = map build_field (dmFields m)\<rparr>"

definition Build :: "unicode_tables \<Rightarrow> dsl_definition \<Rightarrow> go_error + ir_schema" where
  "Build uc d =
     Normalize uc \<lparr>sFormatVersion = FormatVersion, sAppLabel = ddAppLabel d,
       sModels = map build_model (ddModels d)\<rparr>"

section \<open>The definition of the example application\<close>

definition article_definition :: dsl_definition where
  "article_definition =
     \<lparr>ddAppLabel = ''godj_conformance'',
      ddModels = [\<lparr>dmName = ''article'', dmGoName = ''Article'', dmDBTable = '''',
        dmFields =
          [CharField ''title'' ''Title'' 200 [],
           BooleanField ''published'' ''Published'' [Default (DefaultFlag False)],
           CharField ''summary'' ''Summary'' 200 [Nullable]]\<rparr>]\<rparr>"

definition article_Schema :: "unicode_tables \<Rightarrow> go_error + ir_schema" where
  "article_Schema uc = Build uc article_definition"

section \<open>What the options contribute\<close>

lemmas dsl_options = Nullable_def Column_def Default_def

lemma apply_field_options_append:
  "apply_field_options (xs @ ys) field = apply_field_options ys (apply_field_options xs field)"
  by (induction xs field rule: apply_field_options.induct) simp_all

text \<open>No option of the package touches the name, the kind or the length of a field.\<close>

lemma apply_field_options_keeps:
  assumes "set options \<subseteq> {None, Nullable} \<union> range Column \<union> range Default"
  shows "dfName (apply_field_options options field) = dfName field"
    and "dfGoName (apply_field_options options field) = dfGoName field"
    and "dfKind (apply_field_options options field) = dfKind field"
    and "dfMaxLength (apply_field_options options field) = dfMaxLength field"
  using assms
  by (induction options field rule: apply_field_options.induct) (auto simp: dsl_options)

section \<open>Which definitions are accepted\<close>

text \<open>The schema a definition stands for, with the defaults of the normalization filled in.\<close>

definition definition_nf :: "dsl_definition \<Rightarrow> ir_schema" where
  "definition_nf d =
     \<lparr>sFormatVersion = FormatVersion, sAppLabel = ddAppLabel d,
      sModels = map (\<lambda>m. model_nf (ddAppLabel d) (build_model m)) (ddModels d)\<rparr>"

lemma Build_Inr_iff: "Build uc d = Inr s \<longleftrightarrow> s = definition_nf d \<and> wf_schema uc s"
  by (simp add: Build_def Normalize_Inr_iff schema_nf_def definition_nf_def comp_def FormatVersion_def)

lemma build_field_kind [simp]:
  "fKind (build_field f) = dfKind f" "fDefault (build_field f) = dfDefault f"
  "fPrimaryKey (build_field f) \<longleftrightarrow> dfKind f = FieldAuto" "fNullable (build_field f) = dfNullable f"
  by (simp_all add: build_field_def)

lemma wf_schema_field_kind:
  "wf_schema uc s \<Longrightarrow> m \<in> set (sModels s) \<Longrightarrow> f \<in> set (mFields m) \<Longrightarrow> wf_kind f"
  by (auto simp: wf_schema_def wf_model_def wf_field_def list_all_iff)

lemma field_nf_wf_kind [simp]: "wf_kind (field_nf f) = wf_kind f"
  by (simp add: field_nf_def wf_kind_def split: field_kind.split)

text \<open>
  What is left of a definition in a schema it builds: every field it declares is there, with a
  kind that admits its options.
\<close>

lemma Build_field_kinds:
  assumes "Build uc d = Inr s" and "m \<in> set (ddModels d)" and "f \<in> set (dmFields m)"
  shows "wf_kind (build_field f)"
proof -
  let ?m = "model_nf (ddAppLabel d) (build_model m)"
  from assms(1) have s: "s = definition_nf d" "wf_schema uc s" by (auto simp: Build_Inr_iff)
  have "?m \<in> set (sModels s)" using s(1) assms(2) by (auto simp: definition_nf_def)
  moreover have "field_nf (build_field f) \<in> set (mFields ?m)"
    using assms(3) by (auto simp: model_nf_def build_model_def)
  ultimately have "wf_kind (field_nf (build_field f))" by (rule wf_schema_field_kind[OF s(2)])
  then show ?thesis by simp
qed

text \<open>An integer default fits no kind of field, so no definition with one is accepted.\<close>

lemma integer_default_rejected:
  assumes "m \<in> set (ddModels d)" and "f \<in> set (dmFields m)"
    and "dfDefault f = Some (scalar_of (DefaultInt64 n))"
  shows "\<exists>err. Build uc d = Inl err"
proof (cases "Build uc d")
  case (Inr s)
  from Build_field_kinds[OF Inr assms(1,2)] assms(3) have False
    by (auto simp: wf_kind_def zeroDefault_def split: field_kind.splits)
  then show ?thesis ..
qed simp

section \<open>The example\<close>

text \<open>The Unicode tables agree with the ASCII ranges on ASCII.\<close>

definition ascii_agrees :: "unicode_tables \<Rightarrow> bool" where
  "ascii_agrees uc \<longleftrightarrow> (\<forall>r < 128. isUpper uc r = isUpper ascii_tables r \<and> isLetter uc r = isLetter ascii_tables r
     \<and> isDigit uc r = isDigit ascii_tables r \<and> toLower uc r = toLower ascii_tables r
     \<and> isPrint uc r = isPrint ascii_tables r)"

lemma ascii_agrees_ascii: "ascii_agrees ascii_tables"
  by (simp add: ascii_agrees_def)

lemma exportedIdentifier_agrees:
  assumes "ascii_agrees uc" and "\<forall>c \<in> set s. byte c < 128"
  shows "exportedIdentifier uc s = exportedIdentifier ascii_tables s"
  using assms
  by (auto simp: exportedIdentifier_ascii ascii_agrees_def list_all_iff split: list.splits)

lemma wf_model_agrees:
  assumes "ascii_agrees uc" and "wf_model ascii_tables m" and "\<forall>c \<in> set (mGoName m). byte c < 128"
    and "\<forall>f \<in> set (mFields m). \<forall>c \<in> set (fGoName f). byte c < 128"
  shows "wf_model uc m"
  using assms exportedIdentifier_agrees[OF assms(1)]
  by (auto simp: wf_model_def wf_field_def list_all_iff)

lemma articleMetadata_go_names:
  "\<forall>c \<in> set (mGoName articleMetadata). byte c < 128"
  "\<forall>f \<in> set (mFields articleMetadata). \<forall>c \<in> set (fGoName f). byte c < 128"
  by (simp_all add: articleMetadata_def zeroField_def byte_def)

lemma article_definition_nf:
  "definition_nf article_definition =
     \<lparr>sFormatVersion = FormatVersion, sAppLabel = ''godj_conformance'', sModels = [articleMetadata]\<rparr>"
  by (simp add: definition_nf_def article_definition_def model_nf_def build_model_def build_field_def
      articleMetadata_def zeroField_def field_nf_def implicitPrimaryKey_def CharField_def BooleanField_def
      dsl_newField_def dsl_options zeroDefault_def)

text \<open>
  The definition the example declares builds exactly the metadata its generated package
  carries, whatever the Unicode tables say beyond ASCII: the implicit key, the table name and the
  columns the normalization fills in are the generated ones.
\<close>

lemma article_definition_builds:
  assumes "ascii_agrees uc"
  shows "article_Schema uc =
     Inr \<lparr>sFormatVersion = FormatVersion, sAppLabel = ''godj_conformance'', sModels = [articleMetadata]\<rparr>"
proof -
  have "wf_model uc articleMetadata"
    by (rule wf_model_agrees[OF assms articleMetadata_wf articleMetadata_go_names])
  then have "wf_schema uc (definition_nf article_definition)"
    unfolding article_definition_nf
    by (simp add: wf_schema_def databaseIdentifier_def identifier_start_def identifier_rest_def byte_def)
  then show ?thesis by (simp add: article_Schema_def Build_Inr_iff article_definition_nf)
qed

end
