(* ===== verification/Codegen.thy ===== *)
theory Codegen
  imports Schema_DSL
begin

text \<open>
  Package \<open>codegen\<close>, \<open>generate.go\<close>: the rendering of a normalized schema into Go source and the
  check of the generated names. The buffer the Go code prints to is modelled as the list of its
  lines, one \<open>Fprintln\<close> (or \<open>Fprintf\<close> ending in a newline) each; \<open>text_of\<close> is the buffer. The
  canonical JSON encoding, the SHA-256 of it and \<open>format.Source\<close> are parameters.
\<close>

section \<open>What is used of the standard library\<close>

text \<open>\<open>token.Lookup(name).IsKeyword()\<close> and \<open>token.IsIdentifier\<close>.\<close>

definition go_keywords :: "string list" where
  "go_keywords = [''break'', ''case'', ''chan'', ''const'', ''continue'', ''default'', ''defer'', ''else'',
     ''fallthrough'', ''for'', ''func'', ''go'', ''goto'', ''if'', ''import'', ''interface'', ''map'', ''package'',
     ''range'', ''return'', ''select'', ''struct'', ''switch'', ''type'', ''var'']"

definition is_keyword :: "string \<Rightarrow> bool" where
  "is_keyword name \<longleftrightarrow> name \<in> set go_keywords"

definition is_go_identifier :: "unicode_tables \<Rightarrow> string \<Rightarrow> bool" where
  "is_go_identifier uc name =
     (if name = '''' \<or> is_keyword name then False
      else (case runes name of
              [] \<Rightarrow> False
            | c # cs \<Rightarrow> (isLetter uc c \<or> c = 95) \<and> list_all (\<lambda>c. isLetter uc c \<or> c = 95 \<or> isDigit uc c) cs))"

text \<open>\<open>strconv.Quote\<close>, rune by rune.\<close>

definition hex_digit :: "nat \<Rightarrow> char" where
  "hex_digit n = char_of (if n < 10 then 48 + n else 87 + n)"

definition quote_mark :: char where
  "quote_mark = CHR 0x22"

definition escape_rune :: "unicode_tables \<Rightarrow> nat \<Rightarrow> string" where
  "escape_rune uc r0 =
     (if r0 = 34 \<or> r0 = 92 then [backslash, char_of r0]
      else if isPrint uc r0 then encode_rune r0
      else if r0 = 7 then [backslash, CHR ''a'']
      else if r0 = 8 then [backslash, CHR ''b'']
      else if r0 = 12 then [backslash, CHR ''f'']
      else if r0 = 10 then [backslash, CHR ''n'']
      else if r0 = 13 then [backslash, CHR ''r'']
      else if r0 = 9 then [backslash, CHR ''t'']
      else if r0 = 11 then [backslash, CHR ''v'']
      else if r0 < 32 \<or> r0 = 127
      then [backslash, CHR ''x'', hex_digit (r0 div 16), hex_digit (r0 mod 16)]
      else (let r = (if 1114111 < r0 \<or> 55296 \<le> r0 \<and> r0 \<le> 57343 then RuneError else r0) in
        if r < 65536
        then [backslash, CHR ''u''] @ map (\<lambda>s. hex_digit (r div 16 ^ s mod 16)) [3, 2, 1, 0]
        else [backslash, CHR ''U''] @ map (\<lambda>s. hex_digit (r div 16 ^ s mod 16)) [7, 6, 5, 4, 3, 2, 1, 0]))"

function quote_runes :: "unicode_tables \<Rightarrow> string \<Rightarrow> string" where
  "quote_runes uc s =
     (if s = [] then []
      else (if decode_rune s = (RuneError, 1)
            then [backslash, CHR ''x'', hex_digit (byte (hd s) div 16), hex_digit (byte (hd s) mod 16)]
            else escape_rune uc (fst (decode_rune s)))
           @ quote_runes uc (drop (snd (decode_rune s)) s))"
  by pat_completeness auto
termination
  by (relation "measure (\<lambda>(uc, s). length s)") (auto simp del: length_drop intro: drop_rune_shorter)

declare quote_runes.simps [simp del]

definition quote :: "unicode_tables \<Rightarrow> string \<Rightarrow> string" where
  "quote uc s = quote_mark # quote_runes uc s @ [quote_mark]"

definition format_bool :: "bool \<Rightarrow> string" where
  "format_bool b = (if b then ''true'' else ''false'')"

text \<open>A line of the output, indented by tabs, and the buffer the lines make.\<close>

definition ind :: "nat \<Rightarrow> string \<Rightarrow> string" where
  "ind n s = replicate n (CHR 0x09) @ s"

definition newline :: char where
  "newline = CHR 0x0A"

definition text_of :: "string list \<Rightarrow> string" where
  "text_of ls = concat (map (\<lambda>l. l @ [newline]) ls)"

section \<open>Names and types\<close>

definition GeneratorVersion :: string where
  "GeneratorVersion = ''godj-codegen-m2-v3''"

definition writableFields :: "ir_model \<Rightarrow> ir_field list" where
  "writableFields m = filter (\<lambda>field. \<not> fPrimaryKey field) (mFields m)"

text \<open>\<open>fieldPosition\<close>: the index of the field of that name, \<open>-1\<close> where there is none.\<close>

fun field_position_from :: "int \<Rightarrow> ir_field list \<Rightarrow> string \<Rightarrow> int" where
  "field_position_from index [] name = -1"
| "field_position_from index (field # fs) name =
     (if fName field = name then index else field_position_from (index + 1) fs name)"

definition fieldPosition :: "ir_model \<Rightarrow> ir_field \<Rightarrow> int" where
  "fieldPosition m candidate = field_position_from 0 (mFields m) (fName candidate)"

definition requiredCreateFields :: "ir_field list \<Rightarrow> ir_field list" where
  "requiredCreateFields fs = filter (\<lambda>field. \<not> fNullable field \<and> fDefault field = None) fs"

definition codegen_primaryKey :: "ir_model \<Rightarrow> ir_field \<times> bool" where
  "codegen_primaryKey m =
     (case find fPrimaryKey (mFields m) of Some field \<Rightarrow> (field, True) | None \<Rightarrow> (zeroField, False))"

definition goType :: "ir_field \<Rightarrow> string" where
  "goType field =
     (case fKind field of
        FieldAuto \<Rightarrow> ''int64''
      | FieldChar \<Rightarrow> (if fNullable field then ''*string'' else ''string'')
      | FieldBoolean \<Rightarrow> ''bool''
      | FieldKindOther _ \<Rightarrow> ''struct{}'')"

definition scalarGoType :: "ir_field \<Rightarrow> string" where
  "scalarGoType field = goType (field\<lparr>fNullable := False\<rparr>)"

definition lowerFirst :: "unicode_tables \<Rightarrow> string \<Rightarrow> string" where
  "lowerFirst uc v =
     (if v = '''' then v
      else (case decode_rune v of (first, width) \<Rightarrow> encode_rune (toLower uc first) @ drop width v))"

definition privateName :: "unicode_tables \<Rightarrow> string \<Rightarrow> string" where
  "privateName uc goName =
     (let name = lowerFirst uc goName in if is_keyword name then name @ ''Value'' else name)"

definition queryValueExpression :: "ir_field \<Rightarrow> string \<Rightarrow> string" where
  "queryValueExpression field v =
     (case fKind field of
        FieldAuto \<Rightarrow> ''query.Integer('' @ v @ '')''
      | FieldChar \<Rightarrow> ''query.String('' @ v @ '')''
      | FieldBoolean \<Rightarrow> ''query.Boolean('' @ v @ '')''
      | FieldKindOther _ \<Rightarrow> ''query.Value{}'')"

definition defaultValueExpression :: "unicode_tables \<Rightarrow> scalar_default \<Rightarrow> string" where
  "defaultValueExpression uc v =
     (case sdKind v of
        ScalarString \<Rightarrow> quote uc (sdString v)
      | ScalarBoolean \<Rightarrow> format_bool (sdBoolean v)
      | ScalarInteger \<Rightarrow> sprint_int (sdInteger v)
      | ScalarKindOther _ \<Rightarrow> ''nil'')"

definition defaultLiteral :: "unicode_tables \<Rightarrow> scalar_default \<Rightarrow> string" where
  "defaultLiteral uc v =
     (case sdKind v of
        ScalarString \<Rightarrow> ''&ir.ScalarDefault{Kind: ir.ScalarString, String: '' @ quote uc (sdString v) @ ''}''
      | ScalarBoolean \<Rightarrow> ''&ir.ScalarDefault{Kind: ir.ScalarBoolean, Boolean: '' @ format_bool (sdBoolean v) @ ''}''
      | ScalarInteger \<Rightarrow> ''&ir.ScalarDefault{Kind: ir.ScalarInteger, Integer: '' @ sprint_int (sdInteger v) @ ''}''
      | ScalarKindOther _ \<Rightarrow> ''nil'')"

definition nullable_char :: "ir_field \<Rightarrow> bool" where
  "nullable_char field \<longleftrightarrow> fKind field = FieldChar \<and> fNullable field"

definition hasNullableChar :: "ir_schema \<Rightarrow> bool" where
  "hasNullableChar schema \<longleftrightarrow> list_ex (\<lambda>m. list_ex nullable_char (mFields m)) (sModels schema)"

definition ormFieldType :: "string \<Rightarrow> ir_field \<Rightarrow> string" where
  "ormFieldType m field =
     (let name = (case fKind field of
          FieldAuto \<Rightarrow> ''IntegerField''
        | FieldChar \<Rightarrow> (if fNullable field then ''NullableStringField'' else ''StringField'')
        | FieldBoolean \<Rightarrow> ''BooleanField''
        | FieldKindOther _ \<Rightarrow> '''') in
      ''orm.'' @ name @ ''['' @ m @ '']'')"

definition ormFieldConstructor :: "string \<Rightarrow> ir_field \<Rightarrow> string" where
  "ormFieldConstructor m field =
     (let name = (case fKind field of
          FieldAuto \<Rightarrow> ''NewIntegerField''
        | FieldChar \<Rightarrow> (if fNullable field then ''NewNullableStringField'' else ''NewStringField'')
        | FieldBoolean \<Rightarrow> ''NewBooleanField''
        | FieldKindOther _ \<Rightarrow> '''') in
      ''orm.'' @ name @ ''['' @ m @ '']'')"

definition irKind :: "unicode_tables \<Rightarrow> field_kind \<Rightarrow> string" where
  "irKind uc kind =
     (case kind of
        FieldAuto \<Rightarrow> ''ir.FieldAuto''
      | FieldChar \<Rightarrow> ''ir.FieldChar''
      | FieldBoolean \<Rightarrow> ''ir.FieldBoolean''
      | FieldKindOther s \<Rightarrow> quote uc s)"

section \<open>Save bindings and write inputs\<close>

definition renderSaveBindings :: "ir_model \<Rightarrow> string list" where
  "renderSaveBindings m =
     (case codegen_primaryKey m of (key, ok) \<Rightarrow>
        if \<not> ok then []
        else let name = mGoName m in
          [''func New'' @ name @ ''With'' @ fGoName key @ ''(key '' @ scalarGoType key @ '') '' @ name @ '' {'',
           ind 1 (''return '' @ name @ ''{'' @ fGoName key @ '': key, godjPrimaryKeyPresent: true}''),
           ''}'', '''',
           ''func '' @ name @ ''UpdateFields(fields ...orm.WritableField['' @ name @ '']) orm.SaveOption['' @ name @ ''] {'',
           ind 1 ''return orm.UpdateFields(fields...)'',
           ''}'', '''',
           ''func '' @ name @ ''UpdateFieldNames(names ...string) orm.SaveOption['' @ name @ ''] {'',
           ind 1 (''return orm.UpdateFieldNames['' @ name @ ''](names...)''),
           ''}'', '''',
           ''func '' @ name @ ''ForceInsert() orm.SaveOption['' @ name @ ''] {'',
           ind 1 (''return orm.ForceInsert['' @ name @ '']()''),
           ''}'', '''',
           ''func '' @ name @ ''ForceUpdate() orm.SaveOption['' @ name @ ''] {'',
           ind 1 (''return orm.ForceUpdate['' @ name @ '']()''),
           ''}'', ''''])"

definition renderWriteInputType :: "unicode_tables \<Rightarrow> string \<Rightarrow> ir_field list \<Rightarrow> string list" where
  "renderWriteInputType uc typeName fs =
     [''type '' @ typeName @ '' struct {'']
     @ map (\<lambda>field. ind 1 (privateName uc (fGoName field) @ '' ''
              @ (if fNullable field then ''orm.NullableChange'' else ''orm.Change'')
              @ ''['' @ scalarGoType field @ '']'')) fs
     @ [''}'', '''']"

definition render_with_method :: "unicode_tables \<Rightarrow> string \<Rightarrow> ir_field \<Rightarrow> string list" where
  "render_with_method uc typeName field =
     (let fieldName = privateName uc (fGoName field) in
      [''func (input '' @ typeName @ '') With'' @ fGoName field @ ''(value '' @ scalarGoType field @ '') ''
         @ typeName @ '' {'',
       (if fNullable field then ind 1 (''input.'' @ fieldName @ '' = orm.SetNullable(value)'')
        else ind 1 (''input.'' @ fieldName @ '' = orm.Set(value)'')),
       ind 1 ''return input'', ''}'', '''']
      @ (if fNullable field
         then [''func (input '' @ typeName @ '') With'' @ fGoName field @ ''Null() '' @ typeName @ '' {'',
               ind 1 (''input.'' @ fieldName @ '' = orm.SetNull['' @ scalarGoType field @ '']()''),
               ind 1 ''return input'', ''}'', '''']
         else []))"

definition renderWriteWithMethods :: "unicode_tables \<Rightarrow> string \<Rightarrow> ir_field list \<Rightarrow> string list" where
  "renderWriteWithMethods uc typeName fs = concat (map (render_with_method uc typeName) fs)"

definition renderRequiredFieldError :: "unicode_tables \<Rightarrow> string \<Rightarrow> ir_field \<Rightarrow> nat \<Rightarrow> string list" where
  "renderRequiredFieldError uc modelName field indent =
     [ind indent (''return orm.InvalidMutation['' @ modelName @ ''](&query.Error{''),
      ind (Suc indent) ''Category: query.CategoryField,'',
      ind (Suc indent) ''Code: query.CodeRequiredField,'',
      ind (Suc indent) (''Field: '' @ quote uc (fName field) @ '',''),
      ind (Suc indent) ''Detail: \"required create field is omitted\",'',
      ind indent ''})'']"

definition renderInvalidChangeState :: "unicode_tables \<Rightarrow> string \<Rightarrow> ir_field \<Rightarrow> nat \<Rightarrow> string list" where
  "renderInvalidChangeState uc modelName field indent =
     [ind indent (''return orm.InvalidMutation['' @ modelName @ ''](&query.Error{''),
      ind (Suc indent) ''Category: query.CategoryQuery,'',
      ind (Suc indent) ''Code: query.CodeInvalidPlan,'',
      ind (Suc indent) (''Field: '' @ quote uc (fName field) @ '',''),
      ind (Suc indent) ''Detail: \"unknown nullable change state\",'',
      ind indent ''})'']"

text \<open>The line both builders use: the assignment of a metadata field.\<close>

definition append_assignment :: "nat \<Rightarrow> int \<Rightarrow> string \<Rightarrow> string" where
  "append_assignment indent metadataIndex v =
     ind indent (''assignments = append(assignments, orm.NewAssignment(metadata.Fields[''
       @ sprint_int metadataIndex @ ''], '' @ v @ ''))'')"

text \<open>The cases of a nullable field both builders share.\<close>

definition render_value_null_cases :: "unicode_tables \<Rightarrow> ir_model \<Rightarrow> ir_field \<Rightarrow> string list" where
  "render_value_null_cases uc m field =
     (let metadataIndex = fieldPosition m field; changedName = ''changed'' @ fGoName field in
      [ind 1 ''case orm.NullableChangeValue:'',
       ind 2 (''stored'' @ fGoName field @ '' := '' @ changedName),
       ind 2 (''value.'' @ fGoName field @ '' = &stored'' @ fGoName field),
       append_assignment 2 metadataIndex (queryValueExpression field changedName),
       ind 1 ''case orm.NullableChangeNull:'',
       ind 2 (''value.'' @ fGoName field @ '' = nil''),
       append_assignment 2 metadataIndex ''query.Null()'',
       ind 1 ''default:'']
      @ renderInvalidChangeState uc (mGoName m) field 2 @ [ind 1 ''}''])"

definition render_create_field :: "unicode_tables \<Rightarrow> ir_model \<Rightarrow> ir_field \<Rightarrow> string list" where
  "render_create_field uc m field =
     (let metadataIndex = fieldPosition m field; inputName = privateName uc (fGoName field);
          changedName = ''changed'' @ fGoName field in
      if \<not> fNullable field
      then [ind 1 (changedName @ '', '' @ changedName @ ''Set := input.'' @ inputName @ ''.Get()''),
            ind 1 (''if !'' @ changedName @ ''Set {'')]
           @ (case fDefault field of
                None \<Rightarrow> renderRequiredFieldError uc (mGoName m) field 2
              | Some d \<Rightarrow> [ind 2 (changedName @ '' = '' @ defaultValueExpression uc d)])
           @ [ind 1 ''}'',
              ind 1 (''value.'' @ fGoName field @ '' = '' @ changedName),
              append_assignment 1 metadataIndex (queryValueExpression field changedName)]
      else [ind 1 (changedName @ '', '' @ changedName @ ''State := input.'' @ inputName @ ''.Get()''),
            ind 1 (''switch '' @ changedName @ ''State {''),
            ind 1 ''case orm.NullableChangeUnset:'']
           @ (case fDefault field of
                None \<Rightarrow> [ind 2 (''value.'' @ fGoName field @ '' = nil''),
                         append_assignment 2 metadataIndex ''query.Null()'']
              | Some d \<Rightarrow> [ind 2 (''default'' @ fGoName field @ '' := '' @ defaultValueExpression uc d),
                           ind 2 (''value.'' @ fGoName field @ '' = &default'' @ fGoName field),
                           append_assignment 2 metadataIndex
                             (queryValueExpression field (''default'' @ fGoName field))])
           @ render_value_null_cases uc m field)"

definition renderBuildCreate :: "unicode_tables \<Rightarrow> ir_model \<Rightarrow> string \<Rightarrow> string \<Rightarrow> ir_field list \<Rightarrow> string list" where
  "renderBuildCreate uc m typeName metadataFunction fs =
     [''func (input '' @ typeName @ '') BuildCreate() orm.Mutation['' @ mGoName m @ ''] {'',
      ind 1 (''metadata := '' @ metadataFunction @ ''()''),
      ind 1 (''var value '' @ mGoName m),
      ind 1 (''assignments := make([]query.Assignment, 0, '' @ sprint_nat (length fs) @ '')'')]
     @ concat (map (render_create_field uc m) fs)
     @ [ind 1 ''return orm.NewCreateMutation(value, metadata.DBTable, assignments)'', ''}'', '''']"

definition render_patch_field :: "unicode_tables \<Rightarrow> ir_model \<Rightarrow> ir_field \<Rightarrow> string list" where
  "render_patch_field uc m field =
     (let metadataIndex = fieldPosition m field; inputName = privateName uc (fGoName field);
          changedName = ''changed'' @ fGoName field in
      if \<not> fNullable field
      then [ind 1 (''if '' @ changedName @ '', ok := input.'' @ inputName @ ''.Get(); ok {''),
            ind 2 (''value.'' @ fGoName field @ '' = '' @ changedName),
            append_assignment 2 metadataIndex (queryValueExpression field changedName),
            ind 1 ''}'']
      else [ind 1 (changedName @ '', '' @ changedName @ ''State := input.'' @ inputName @ ''.Get()''),
            ind 1 (''switch '' @ changedName @ ''State {''),
            ind 1 ''case orm.NullableChangeUnset:'']
           @ render_value_null_cases uc m field)"

definition renderBuildPatch :: "unicode_tables \<Rightarrow> ir_model \<Rightarrow> string \<Rightarrow> string \<Rightarrow> ir_field list \<Rightarrow> string list" where
  "renderBuildPatch uc m typeName metadataFunction fs =
     [''func (input '' @ typeName @ '') BuildPatch(current '' @ mGoName m @ '') orm.Mutation['' @ mGoName m @ ''] {'',
      ind 1 (''metadata := '' @ metadataFunction @ ''()''),
      ind 1 ''value := current'',
      ind 1 (''assignments := make([]query.Assignment, 0, '' @ sprint_nat (length fs) @ '')'')]
     @ concat (map (render_patch_field uc m) fs)
     @ [ind 1 ''return orm.NewPatchMutation(value, metadata.DBTable, assignments)'', ''}'', '''']"

definition render_new_create :: "unicode_tables \<Rightarrow> ir_model \<Rightarrow> string \<Rightarrow> ir_field list \<Rightarrow> string list" where
  "render_new_create uc m createName required =
     [''func New'' @ mGoName m @ ''Create(''
        @ join_strings '', '' (map (\<lambda>field. privateName uc (fGoName field) @ '' '' @ scalarGoType field) required)
        @ '') '' @ createName @ '' {'']
     @ (if required = [] then [ind 1 (''return '' @ createName @ ''{}'')]
        else [ind 1 (''return '' @ createName @ ''{'')]
             @ map (\<lambda>field. ind 2 (privateName uc (fGoName field) @ '': orm.Set(''
                      @ privateName uc (fGoName field) @ ''),'')) required
             @ [ind 1 ''}''])
     @ [''}'', '''']"

definition renderWriteInputs :: "unicode_tables \<Rightarrow> ir_model \<Rightarrow> string \<Rightarrow> string list" where
  "renderWriteInputs uc m metadataFunction =
     (let fs = writableFields m; createName = mGoName m @ ''Create''; patchName = mGoName m @ ''Patch'' in
      renderWriteInputType uc createName fs
      @ render_new_create uc m createName (requiredCreateFields fs)
      @ renderWriteWithMethods uc createName fs
      @ renderBuildCreate uc m createName metadataFunction fs
      @ renderWriteInputType uc patchName fs
      @ renderWriteWithMethods uc patchName fs
      @ renderBuildPatch uc m patchName metadataFunction fs)"

section \<open>A model\<close>

definition render_struct :: "ir_model \<Rightarrow> string list" where
  "render_struct m =
     [''type '' @ mGoName m @ '' struct {'']
     @ map (\<lambda>field. ind 1 (fGoName field @ '' '' @ goType field)) (mFields m)
     @ (if snd (codegen_primaryKey m) then [ind 1 ''godjPrimaryKeyPresent bool''] else [])
     @ [''}'', '''']"

definition scan_target :: "ir_field \<Rightarrow> string" where
  "scan_target field =
     (if nullable_char field then ''&scan'' @ fGoName field else ''&value.'' @ fGoName field)"

definition render_descriptor :: "ir_model \<Rightarrow> string \<Rightarrow> string \<Rightarrow> string list" where
  "render_descriptor m descriptorName metadataFunction =
     (let name = mGoName m in
      [''type '' @ descriptorName @ '' struct{}'', '''',
       ''var _ orm.ModelDescriptor['' @ name @ ''] = '' @ descriptorName @ ''{}'', '''',
       ''var _ orm.WriteDescriptor['' @ name @ ''] = '' @ descriptorName @ ''{}'', '''',
       ''func ('' @ descriptorName @ '') Metadata() ir.Model {'',
       ind 1 (''return '' @ metadataFunction @ ''()''), ''}'', ''''])"

definition render_scan :: "ir_model \<Rightarrow> string \<Rightarrow> string list" where
  "render_scan m descriptorName =
     (let name = mGoName m in
      [''func ('' @ descriptorName @ '') Scan(row db.Row) ('' @ name @ '', error) {'',
       ind 1 (''var value '' @ name)]
      @ map (\<lambda>field. ind 1 (''var scan'' @ fGoName field @ '' sql.NullString''))
          (filter nullable_char (mFields m))
      @ [ind 1 (''if err := row.Scan('' @ join_strings '', '' (map scan_target (mFields m)) @ ''); err != nil {''),
         ind 2 (''return '' @ name @ ''{}, err''), ind 1 ''}'']
      @ concat (map (\<lambda>field.
          [ind 1 (''if scan'' @ fGoName field @ ''.Valid {''),
           ind 2 (''scanned := scan'' @ fGoName field @ ''.String''),
           ind 2 (''value.'' @ fGoName field @ '' = &scanned''),
           ind 1 ''}'']) (filter nullable_char (mFields m)))
      @ (if snd (codegen_primaryKey m) then [ind 1 ''value.godjPrimaryKeyPresent = true''] else [])
      @ [ind 1 ''return value, nil'', ''}'', ''''])"

definition render_primary_key :: "ir_model \<Rightarrow> string \<Rightarrow> string list" where
  "render_primary_key m descriptorName =
     (case codegen_primaryKey m of (key, ok) \<Rightarrow>
        if \<not> ok then []
        else let name = mGoName m in
          [''func ('' @ descriptorName @ '') PrimaryKey(value '' @ name @ '') (query.Value, bool) {'',
           ind 1 (''return query.Integer(value.'' @ fGoName key @ ''), value.godjPrimaryKeyPresent''),
           ''}'', '''',
           ''func ('' @ descriptorName @ '') SetPrimaryKey(value *'' @ name @ '', key int64) {'',
           ind 1 (''value.'' @ fGoName key @ '' = key''),
           ind 1 ''value.godjPrimaryKeyPresent = true'',
           ''}'', '''',
           ''func ('' @ descriptorName @ '') ClearPrimaryKey(value *'' @ name @ '') {'',
           ind 1 (''value.'' @ fGoName key @ '' = 0''),
           ind 1 ''value.godjPrimaryKeyPresent = false'',
           ''}'', ''''])"

definition render_clone :: "ir_model \<Rightarrow> string \<Rightarrow> string list" where
  "render_clone m descriptorName =
     (let name = mGoName m in
      [''func ('' @ descriptorName @ '') CloneModel(value '' @ name @ '') '' @ name @ '' {'',
       ind 1 ''clone := value'']
      @ concat (map (\<lambda>field.
          [ind 1 (''if value.'' @ fGoName field @ '' != nil {''),
           ind 2 (''cloned'' @ fGoName field @ '' := *value.'' @ fGoName field),
           ind 2 (''clone.'' @ fGoName field @ '' = &cloned'' @ fGoName field),
           ind 1 ''}'']) (filter nullable_char (mFields m)))
      @ [ind 1 ''return clone'', ''}'', '''',
         ''func (descriptor '' @ descriptorName @ '') CloneWriteModel(value '' @ name @ '') '' @ name @ '' {'',
         ind 1 ''return descriptor.CloneModel(value)'', ''}'', ''''])"

definition render_field_case :: "unicode_tables \<Rightarrow> ir_field \<Rightarrow> string list" where
  "render_field_case uc field =
     [ind 1 (''case '' @ quote uc (fName field) @ '':'')]
     @ (if nullable_char field
        then [ind 2 (''if value.'' @ fGoName field @ '' == nil {''),
              ind 3 ''return query.Null(), true'', ind 2 ''}'',
              ind 2 (''return query.String(*value.'' @ fGoName field @ ''), true'')]
        else [ind 2 (''return '' @ queryValueExpression field (''value.'' @ fGoName field) @ '', true'')])"

definition render_write_field_value :: "unicode_tables \<Rightarrow> ir_model \<Rightarrow> string \<Rightarrow> string list" where
  "render_write_field_value uc m descriptorName =
     [''func ('' @ descriptorName @ '') WriteFieldValue(value '' @ mGoName m @ '', field ir.Field) (query.Value, bool) {'',
      ind 1 ''switch field.Name {'']
     @ concat (map (render_field_case uc) (mFields m))
     @ [ind 1 ''default:'', ind 2 ''return query.Value{}, false'', ind 1 ''}'', ''}'', '''']"

definition render_field_set :: "ir_model \<Rightarrow> string \<Rightarrow> string \<Rightarrow> string list" where
  "render_field_set m descriptorName metadataFunction =
     (let name = mGoName m; fieldSetName = name @ ''FieldSet'' in
      [''type '' @ fieldSetName @ '' struct {'']
      @ map (\<lambda>field. ind 1 (fGoName field @ '' '' @ ormFieldType name field)) (mFields m)
      @ [''}'', '''',
         ''var '' @ name @ ''Fields = func() '' @ fieldSetName @ '' {'',
         ind 1 (''metadata := '' @ metadataFunction @ ''()''),
         ind 1 (''return '' @ fieldSetName @ ''{'')]
      @ map (\<lambda>(index, field). ind 2 (fGoName field @ '': '' @ ormFieldConstructor name field
               @ ''(metadata.Fields['' @ sprint_nat index @ '']),'')) (enumerate 0 (mFields m))
      @ [ind 1 ''}'', ''}()'', '''',
         ''var '' @ name @ ''Objects = orm.NewManager['' @ name @ '']('' @ descriptorName @ ''{})'', ''''])"

definition render_metadata_field :: "unicode_tables \<Rightarrow> ir_field \<Rightarrow> string list" where
  "render_metadata_field uc field =
     [ind 3 ''{'',
      ind 4 (''Name: '' @ quote uc (fName field) @ '',''),
      ind 4 (''GoName: '' @ quote uc (fGoName field) @ '',''),
      ind 4 (''Column: '' @ quote uc (fColumn field) @ '',''),
      ind 4 (''Kind: '' @ irKind uc (fKind field) @ '','')]
     @ (if fPrimaryKey field then [ind 4 ''PrimaryKey: true,''] else [])
     @ (if fNullable field then [ind 4 ''Nullable: true,''] else [])
     @ (if fMaxLength field \<noteq> 0 then [ind 4 (''MaxLength: '' @ sprint_int (fMaxLength field) @ '','')] else [])
     @ (case fDefault field of None \<Rightarrow> [] | Some d \<Rightarrow> [ind 4 (''Default: '' @ defaultLiteral uc d @ '','')])
     @ [ind 3 ''},'']"

definition render_metadata :: "unicode_tables \<Rightarrow> ir_model \<Rightarrow> string \<Rightarrow> string list" where
  "render_metadata uc m metadataFunction =
     [''func '' @ metadataFunction @ ''() ir.Model {'',
      ind 1 ''return ir.Model{'',
      ind 2 (''Name: '' @ quote uc (mName m) @ '',''),
      ind 2 (''GoName: '' @ quote uc (mGoName m) @ '',''),
      ind 2 (''DBTable: '' @ quote uc (mDBTable m) @ '',''),
      ind 2 ''Fields: []ir.Field{'']
     @ concat (map (render_metadata_field uc) (mFields m))
     @ [ind 2 ''},'', ind 1 ''}'', ''}'', '''']"

definition renderModel :: "unicode_tables \<Rightarrow> ir_model \<Rightarrow> string list" where
  "renderModel uc m =
     (let descriptorName = mGoName m @ ''Descriptor''; metadataFunction = lowerFirst uc (mGoName m) @ ''Metadata'' in
      render_struct m
      @ render_descriptor m descriptorName metadataFunction
      @ render_scan m descriptorName
      @ render_primary_key m descriptorName
      @ render_clone m descriptorName
      @ render_write_field_value uc m descriptorName
      @ render_field_set m descriptorName metadataFunction
      @ renderSaveBindings m
      @ renderWriteInputs uc m metadataFunction
      @ render_metadata uc m metadataFunction)"

section \<open>The names a package gets\<close>

text \<open>
  The loops of \<open>validateGeneratedNames\<close>. The maps from a name to what claimed it are association
  lists, asked with \<open>map_of\<close>.
\<close>

fun add_package_symbols :: "string \<Rightarrow> (string \<times> string) list \<Rightarrow> string list
    \<Rightarrow> go_error + (string \<times> string) list" where
  "add_package_symbols claimant symbols [] = Inr symbols"
| "add_package_symbols claimant symbols (symbol # rest) =
     (case map_of symbols symbol of
        Some previous \<Rightarrow> Inl (ErrFmt ''package symbol %s for %s conflicts with %s''
                            [FStr symbol, FStr claimant, FStr previous])
      | None \<Rightarrow> add_package_symbols claimant ((symbol, claimant) # symbols) rest)"

definition package_symbols :: "unicode_tables \<Rightarrow> ir_model \<Rightarrow> string list" where
  "package_symbols uc m =
     (case codegen_primaryKey m of (key, hasKey) \<Rightarrow>
        let name = mGoName m in
        [name, name @ ''Descriptor'', name @ ''FieldSet'', name @ ''Fields'', name @ ''Objects'',
         name @ ''Create'', name @ ''Patch'', ''New'' @ name @ ''Create'', name @ ''UpdateFields'',
         name @ ''UpdateFieldNames'', name @ ''ForceInsert'', name @ ''ForceUpdate'',
         lowerFirst uc name @ ''Metadata'']
        @ (if hasKey then [''New'' @ name @ ''With'' @ fGoName key] else []))"

definition write_methods :: "ir_field \<Rightarrow> string list" where
  "write_methods field =
     [''With'' @ fGoName field] @ (if fNullable field then [''With'' @ fGoName field @ ''Null''] else [])"

fun add_write_methods :: "string \<Rightarrow> string \<Rightarrow> (string \<times> string) list \<Rightarrow> string list
    \<Rightarrow> go_error + (string \<times> string) list" where
  "add_write_methods modelName fieldName methods [] = Inr methods"
| "add_write_methods modelName fieldName methods (method # rest) =
     (case map_of methods method of
        Some previous \<Rightarrow> Inl (ErrFmt ''write method %s for field %s.%s conflicts with field %s''
                            [FStr method, FStr modelName, FStr fieldName, FStr previous])
      | None \<Rightarrow> add_write_methods modelName fieldName ((method, fieldName) # methods) rest)"

fun validate_write_names :: "unicode_tables \<Rightarrow> string \<Rightarrow> (string \<times> string) list \<Rightarrow> (string \<times> string) list
    \<Rightarrow> ir_field list \<Rightarrow> go_error option" where
  "validate_write_names uc modelName storages methods [] = None"
| "validate_write_names uc modelName storages methods (field # fs) =
     (let storage = privateName uc (fGoName field) in
      case map_of storages storage of
        Some previous \<Rightarrow> Some (ErrFmt ''write storage %s for field %s.%s conflicts with field %s''
                             [FStr storage, FStr modelName, FStr (fGoName field), FStr previous])
      | None \<Rightarrow>
        (case add_write_methods modelName (fGoName field) methods (write_methods field) of
           Inl err \<Rightarrow> Some err
         | Inr methods' \<Rightarrow>
             validate_write_names uc modelName ((storage, fGoName field) # storages) methods' fs))"

fun validate_models_names :: "unicode_tables \<Rightarrow> (string \<times> string) list \<Rightarrow> ir_model list \<Rightarrow> go_error option" where
  "validate_models_names uc symbols [] = None"
| "validate_models_names uc symbols (m # ms) =
     (case add_package_symbols (''model '' @ mGoName m) symbols (package_symbols uc m) of
        Inl err \<Rightarrow> Some err
      | Inr symbols' \<Rightarrow>
        (case validate_write_names uc (mGoName m) [] [] (writableFields m) of
           Some err \<Rightarrow> Some err
         | None \<Rightarrow> validate_models_names uc symbols' ms))"

definition validateGeneratedNames :: "unicode_tables \<Rightarrow> ir_schema \<Rightarrow> go_error option" where
  "validateGeneratedNames uc schema =
     validate_models_names uc
       [(''GoDjGeneratorVersion'', ''generator provenance constant''),
        (''GoDjSchemaSHA256'', ''schema provenance constant'')] (sModels schema)"

section \<open>The generated source\<close>

text \<open>\<open>ir.CanonicalJSON\<close> and \<open>ir.Hash\<close> over the encoder and the digest.\<close>

definition CanonicalJSON :: "unicode_tables \<Rightarrow> (ir_schema \<Rightarrow> go_error + string) \<Rightarrow> ir_schema \<Rightarrow> go_error + string" where
  "CanonicalJSON uc marshal input =
     (case Normalize uc input of
        Inl err \<Rightarrow> Inl err
      | Inr normalized \<Rightarrow>
        (case marshal normalized of
           Inl err \<Rightarrow> Inl (ErrWrap ''marshal normalized schema: %w'' [] err)
         | Inr data \<Rightarrow> Inr (data @ [newline])))"

definition hex_of :: "string \<Rightarrow> string" where
  "hex_of s = concat (map (\<lambda>c. [hex_digit (byte c div 16), hex_digit (byte c mod 16)]) s)"

definition Hash :: "unicode_tables \<Rightarrow> (ir_schema \<Rightarrow> go_error + string) \<Rightarrow> (string \<Rightarrow> string) \<Rightarrow> ir_schema
    \<Rightarrow> go_error + string" where
  "Hash uc marshal sha256 input = map_sum id (\<lambda>canonical. hex_of (sha256 canonical)) (CanonicalJSON uc marshal input)"

definition source_lines :: "unicode_tables \<Rightarrow> string \<Rightarrow> string \<Rightarrow> ir_schema \<Rightarrow> string list" where
  "source_lines uc packageName hash schema =
     [''// Code generated by GoDj. DO NOT EDIT.'', '''', ''package '' @ packageName, '''', ''import ('']
     @ (if hasNullableChar schema then [ind 1 ''\"database/sql\"''] else [])
     @ [ind 1 ''\"github.com/progresshans/godj/db\"'',
        ind 1 ''\"github.com/progresshans/godj/orm\"'',
        ind 1 ''\"github.com/progresshans/godj/query\"'',
        ind 1 ''\"github.com/progresshans/godj/schema/ir\"'',
        '')'', '''',
        ''const GoDjGeneratorVersion = '' @ quote uc GeneratorVersion,
        ''const GoDjSchemaSHA256 = '' @ quote uc hash, '''']
     @ concat (map (renderModel uc) (sModels schema))"

definition Generate :: "unicode_tables \<Rightarrow> (ir_schema \<Rightarrow> go_error + string) \<Rightarrow> (string \<Rightarrow> string)
    \<Rightarrow> (string \<Rightarrow> go_error + string) \<Rightarrow> string \<Rightarrow> ir_schema \<Rightarrow> go_error + string" where
  "Generate uc marshal sha256 format_source packageName input =
     (if \<not> is_go_identifier uc packageName \<or> is_keyword packageName
      then Inl (ErrFmt ''invalid generated package name %q'' [FStr packageName])
      else
      (case Normalize uc input of
         Inl err \<Rightarrow> Inl (ErrWrap ''normalize codegen schema: %w'' [] err)
       | Inr schema \<Rightarrow>
         (case validateGeneratedNames uc schema of
            Some err \<Rightarrow> Inl (ErrWrap ''validate generated names: %w'' [] err)
          | None \<Rightarrow>
            (case Hash uc marshal sha256 schema of
               Inl err \<Rightarrow> Inl (ErrWrap ''hash codegen schema: %w'' [] err)
             | Inr hash \<Rightarrow>
               (case format_source (text_of (source_lines uc packageName hash schema)) of
                  Inl err \<Rightarrow> Inl (ErrWrap ''format generated source: %w'' [] err)
                | Inr formatted \<Rightarrow> Inr formatted)))))"

end
