(* ===== verification/Codegen_Names.thy ===== *)
theory Codegen_Names
  imports Codegen
begin

text \<open>
  What \<open>validateGeneratedNames\<close> buys. A scanner reads the declarations off the generated text: the
  package-level \<open>type\<close>, \<open>var\<close>, \<open>const\<close> and \<open>func\<close> declarations with the empty receiver, the
  methods with the type of their receiver. The check of the generator accepts a schema exactly
  when no two declarations of the rendered source share receiver and name, and no two fields of an
  input type share their storage.
\<close>

section \<open>Reading declarations off a Go source\<close>

definition ident_byte :: "char \<Rightarrow> bool" where
  "ident_byte c \<longleftrightarrow> 128 \<le> byte c \<or> 48 \<le> byte c \<and> byte c \<le> 57 \<or> 65 \<le> byte c \<and> byte c \<le> 90
     \<or> byte c = 95 \<or> 97 \<le> byte c \<and> byte c \<le> 122"

definition leading_ident :: "string \<Rightarrow> string" where
  "leading_ident s = takeWhile ident_byte s"

definition last_word :: "string \<Rightarrow> string" where
  "last_word s = rev (takeWhile (\<lambda>c. c \<noteq> CHR '' '') (rev s))"

definition method_of :: "string \<Rightarrow> string \<times> string" where
  "method_of s =
     (let inside = takeWhile (\<lambda>c. c \<noteq> CHR '')'') s in
      (last_word inside, leading_ident (drop 2 (dropWhile (\<lambda>c. c \<noteq> CHR '')'') s))))"

text \<open>A declaration at the start of a line: the type of its receiver, empty if it has none, and its name.\<close>

definition decl_of :: "string \<Rightarrow> (string \<times> string) option" where
  "decl_of line =
     (if has_prefix line ''func ('' then Some (method_of (drop 6 line))
      else if has_prefix line ''func '' then Some ('''', leading_ident (drop 5 line))
      else if has_prefix line ''type '' then Some ('''', leading_ident (drop 5 line))
      else if has_prefix line ''var '' then Some ('''', leading_ident (drop 4 line))
      else if has_prefix line ''const '' then Some ('''', leading_ident (drop 6 line))
      else None)"

fun split_lines :: "string \<Rightarrow> string \<Rightarrow> string list" where
  "split_lines acc [] = (if acc = [] then [] else [rev acc])"
| "split_lines acc (c # s) =
     (if c = newline then rev acc # split_lines [] s else split_lines (c # acc) s)"

text \<open>The blank identifier declares nothing.\<close>

definition decls_of :: "string list \<Rightarrow> (string \<times> string) list" where
  "decls_of ls = filter (\<lambda>d. snd d \<noteq> ''_'') (List.map_filter decl_of ls)"

definition declarations :: "string \<Rightarrow> (string \<times> string) list" where
  "declarations source = decls_of (split_lines [] source)"

section \<open>Lines\<close>

lemma split_line: "newline \<notin> set l \<Longrightarrow> split_lines acc (l @ newline # s) = (rev acc @ l) # split_lines [] s"
  by (induction l arbitrary: acc) auto

lemma split_text_of: "\<forall>l \<in> set ls. newline \<notin> set l \<Longrightarrow> split_lines [] (text_of ls) = ls"
  by (induction ls) (simp_all add: text_of_def split_line)

lemma map_filter_append: "List.map_filter f (xs @ ys) = List.map_filter f xs @ List.map_filter f ys"
  by (simp add: List.map_filter_def)

lemma decls_of_simps [simp]:
  "decls_of [] = []" "decls_of (xs @ ys) = decls_of xs @ decls_of ys"
  "decl_of l = None \<Longrightarrow> decls_of (l # ls) = decls_of ls"
  by (simp_all add: decls_of_def map_filter_append map_filter_simps)

lemma decls_of_Cons:
  "decl_of l = Some d \<Longrightarrow> decls_of (l # ls) = (if snd d = ''_'' then [] else [d]) @ decls_of ls"
  by (simp add: decls_of_def map_filter_simps)

lemma decls_of_concat: "decls_of (concat lss) = concat (map decls_of lss)"
  by (induction lss) simp_all

lemma decls_of_none: "\<forall>l \<in> set ls. decl_of l = None \<Longrightarrow> decls_of ls = []"
  by (induction ls) simp_all

lemma decl_of_ind [simp]: "0 < n \<Longrightarrow> decl_of (ind n s) = None"
  by (cases n) (simp_all add: decl_of_def ind_def has_prefix_def)

lemma decl_of_other [simp]:
  "decl_of '''' = None" "decl_of ''}'' = None" "decl_of '')'' = None" "decl_of ''}()'' = None"
  "decl_of ''import ('' = None"
  by (simp_all add: decl_of_def has_prefix_def)

section \<open>Names\<close>

text \<open>A Go name other than the blank one, as bytes.\<close>

definition go_name :: "string \<Rightarrow> bool" where
  "go_name s \<longleftrightarrow> s \<noteq> '''' \<and> s \<noteq> ''_'' \<and> list_all ident_byte s"

lemma leading_ident_append [simp]:
  "list_all ident_byte s \<Longrightarrow> leading_ident (s @ t) = s @ leading_ident t"
  by (induction s) (simp_all add: leading_ident_def)

lemma leading_ident_name: "list_all ident_byte s \<Longrightarrow> leading_ident s = s"
  by (induction s) (simp_all add: leading_ident_def)

lemma leading_ident_Cons [simp]:
  "leading_ident (c # s) = (if ident_byte c then c # leading_ident s else [])" "leading_ident [] = []"
  by (simp_all add: leading_ident_def)

lemma ident_byte_punct [simp]:
  "\<not> ident_byte (CHR '' '')" "\<not> ident_byte (CHR '')'')" "\<not> ident_byte (CHR ''('')" "\<not> ident_byte newline"
  by (simp_all add: ident_byte_def byte_def newline_def)

lemma ident_not_punct:
  assumes "list_all ident_byte s" and "c \<in> set s"
  shows "c \<noteq> CHR '' ''" and "c \<noteq> CHR '')''" and "c \<noteq> newline"
  using assms by (auto simp: list_all_iff)

lemma last_word_name: "list_all ident_byte s \<Longrightarrow> last_word s = s"
  using ident_not_punct(1)[of s] by (auto simp: last_word_def takeWhile_eq_all_conv[THEN iffD2])

lemma last_word_after: "list_all ident_byte s \<Longrightarrow> last_word (t @ CHR '' '' # s) = s"
proof -
  assume s: "list_all ident_byte s"
  then have "\<forall>c \<in> set (rev s). c \<noteq> CHR '' ''" using ident_not_punct(1)[OF s] by auto
  then have "takeWhile (\<lambda>c. c \<noteq> CHR '' '') (rev s @ CHR '' '' # rev t) = rev s"
    by (subst takeWhile_append2) auto
  then show ?thesis by (simp add: last_word_def)
qed

lemma method_of_name:
  assumes "list_all ident_byte recv"
  shows "method_of (recv @ CHR '')'' # CHR '' '' # s) = (recv, leading_ident s)"
    and "CHR '')'' \<notin> set p \<Longrightarrow> method_of (p @ CHR '' '' # recv @ CHR '')'' # CHR '' '' # s) = (recv, leading_ident s)"
proof -
  have p: "\<forall>c \<in> set recv. c \<noteq> CHR '')''" using ident_not_punct(2)[OF assms] by auto
  show "method_of (recv @ CHR '')'' # CHR '' '' # s) = (recv, leading_ident s)"
    using p assms by (simp add: method_of_def takeWhile_append2 dropWhile_append2 last_word_name)
  assume "CHR '')'' \<notin> set p"
  with p have q: "\<forall>c \<in> set (p @ CHR '' '' # recv). c \<noteq> CHR '')''" by auto
  then have "takeWhile (\<lambda>c. c \<noteq> CHR '')'') ((p @ CHR '' '' # recv) @ CHR '')'' # CHR '' '' # s) = p @ CHR '' '' # recv"
    and "dropWhile (\<lambda>c. c \<noteq> CHR '')'') ((p @ CHR '' '' # recv) @ CHR '')'' # CHR '' '' # s) = CHR '')'' # CHR '' '' # s"
    by (simp_all only: takeWhile_append2 dropWhile_append2 takeWhile.simps dropWhile.simps if_False not_True_eq_False
        append_Nil2 simp_thms)
  then show "method_of (p @ CHR '' '' # recv @ CHR '')'' # CHR '' '' # s) = (recv, leading_ident s)"
    using assms by (simp add: method_of_def last_word_after)
qed

section \<open>The declarations of the rendered parts\<close>

lemma paren_append:
  assumes "list_all ident_byte a"
  shows "takeWhile (\<lambda>c. c \<noteq> CHR '')'') (a @ b) = a @ takeWhile (\<lambda>c. c \<noteq> CHR '')'') b"
    and "dropWhile (\<lambda>c. c \<noteq> CHR '')'') (a @ b) = dropWhile (\<lambda>c. c \<noteq> CHR '')'') b"
  using ident_not_punct(2)[OF assms] by (subst takeWhile_append2 dropWhile_append2; auto)+

lemma decl_of_keywords:
  "decl_of (''func ('' @ s) = Some (method_of s)"
  "decl_of (''type '' @ s) = Some ('''', leading_ident s)"
  "decl_of (''var '' @ s) = Some ('''', leading_ident s)"
  "decl_of (''const '' @ s) = Some ('''', leading_ident s)"
  by (simp_all add: decl_of_def has_prefix_def)

lemma decl_of_func: "\<not> has_prefix s ''('' \<Longrightarrow> decl_of (''func '' @ s) = Some ('''', leading_ident s)"
  by (cases s) (simp_all add: decl_of_def has_prefix_def)

lemma decl_of_func_name: "go_name n \<Longrightarrow> decl_of (''func '' @ n @ s) = Some ('''', leading_ident (n @ s))"
  by (rule decl_of_func) (cases n; auto simp: has_prefix_def go_name_def)

lemma decls_of_line:
  "decls_of (l # ls) =
     (case decl_of l of None \<Rightarrow> [] | Some d \<Rightarrow> if snd d = ''_'' then [] else [d]) @ decls_of ls"
  by (simp add: decls_of_def map_filter_simps split: option.split)

lemma last_word_receiver:
  assumes "list_all ident_byte s"
  shows "last_word (''input '' @ s) = s" and "last_word (''descriptor '' @ s) = s"
  using last_word_after[OF assms, of "''input''"] last_word_after[OF assms, of "''descriptor''"] by simp_all

lemma go_nameD:
  "go_name s \<Longrightarrow> list_all ident_byte s" "go_name s \<Longrightarrow> s \<noteq> ''''" "go_name s \<Longrightarrow> s \<noteq> ''_''"
  by (simp_all add: go_name_def)

lemma go_name_append: "go_name s \<Longrightarrow> list_all ident_byte t \<Longrightarrow> go_name (s @ t)"
  by (auto simp: go_name_def append_eq_Cons_conv)

lemmas decl_simps = decls_of_line decls_of_concat decl_of_keywords[simplified] decl_of_func_name[simplified]
  decl_of_func[simplified] last_word_receiver[simplified] last_word_name method_of_def paren_append go_nameD
  leading_ident_name ident_byte_def byte_def Let_def has_prefix_def

lemma decls_of_map_ind [simp]: "(\<And>x. x \<in> set xs \<Longrightarrow> decl_of (f x) = None) \<Longrightarrow> decls_of (map f xs) = []"
  by (rule decls_of_none) auto

lemma render_struct_decls:
  assumes "go_name (mGoName m)"
  shows "decls_of (render_struct m) = [('''', mGoName m)]"
  using assms by (simp add: render_struct_def decl_simps)

lemma render_descriptor_decls:
  assumes "go_name d"
  shows "decls_of (render_descriptor m d f) = [('''', d), (d, ''Metadata'')]"
  using assms by (simp add: render_descriptor_def decl_simps)

lemma render_scan_decls:
  assumes "go_name d"
  shows "decls_of (render_scan m d) = [(d, ''Scan'')]"
  using assms by (simp add: render_scan_def decl_simps comp_def)

lemma render_primary_key_decls:
  assumes "go_name d" and "codegen_primaryKey m = (key, True)"
  shows "decls_of (render_primary_key m d) = map (Pair d) [''PrimaryKey'', ''SetPrimaryKey'', ''ClearPrimaryKey'']"
  using assms by (simp add: render_primary_key_def decl_simps)

lemma render_clone_decls:
  assumes "go_name d"
  shows "decls_of (render_clone m d) = map (Pair d) [''CloneModel'', ''CloneWriteModel'']"
  using assms by (simp add: render_clone_def decl_simps comp_def)

lemma render_write_field_value_decls:
  assumes "go_name d"
  shows "decls_of (render_write_field_value uc m d) = [(d, ''WriteFieldValue'')]"
  using assms by (simp add: render_write_field_value_def render_field_case_def decl_simps comp_def)

lemma render_field_set_decls:
  assumes "go_name (mGoName m)"
  shows "decls_of (render_field_set m d f) =
    map (Pair '''') [mGoName m @ ''FieldSet'', mGoName m @ ''Fields'', mGoName m @ ''Objects'']"
  using assms by (simp add: render_field_set_def decl_simps split_beta)

lemma renderSaveBindings_decls:
  assumes "go_name (mGoName m)" and "codegen_primaryKey m = (key, True)" and "go_name (fGoName key)"
  shows "decls_of (renderSaveBindings m) =
    map (Pair '''') [''New'' @ mGoName m @ ''With'' @ fGoName key, mGoName m @ ''UpdateFields'',
      mGoName m @ ''UpdateFieldNames'', mGoName m @ ''ForceInsert'', mGoName m @ ''ForceUpdate'']"
  using assms by (simp add: renderSaveBindings_def decl_simps)

lemma renderWriteInputType_decls:
  assumes "go_name t"
  shows "decls_of (renderWriteInputType uc t fs) = [('''', t)]"
  using assms by (simp add: renderWriteInputType_def decl_simps)

lemma renderWriteWithMethods_decls:
  assumes "go_name t" and "\<forall>f \<in> set fs. go_name (fGoName f)"
  shows "decls_of (renderWriteWithMethods uc t fs) = map (Pair t) (concat (map write_methods fs))"
  using assms(2)
  by (induction fs) (simp_all add: renderWriteWithMethods_def render_with_method_def write_methods_def decl_simps assms(1))

lemma shared_cases_decls [simp]: "decls_of (render_value_null_cases uc m f) = []"
  by (simp add: render_value_null_cases_def renderInvalidChangeState_def append_assignment_def Let_def)

lemma render_create_field_decls [simp]: "decls_of (render_create_field uc m f) = []"
  by (simp add: render_create_field_def renderRequiredFieldError_def append_assignment_def Let_def split: option.split)

lemma render_patch_field_decls [simp]: "decls_of (render_patch_field uc m f) = []"
  by (simp add: render_patch_field_def append_assignment_def Let_def)

lemma renderBuildCreate_decls:
  assumes "go_name t"
  shows "decls_of (renderBuildCreate uc m t f fs) = [(t, ''BuildCreate'')]"
  using assms by (simp add: renderBuildCreate_def decl_simps comp_def)

lemma renderBuildPatch_decls:
  assumes "go_name t"
  shows "decls_of (renderBuildPatch uc m t f fs) = [(t, ''BuildPatch'')]"
  using assms by (simp add: renderBuildPatch_def decl_simps comp_def)

lemma render_new_create_decls:
  assumes "go_name (mGoName m)"
  shows "decls_of (render_new_create uc m t fs) = [('''', ''New'' @ mGoName m @ ''Create'')]"
  using assms by (simp add: render_new_create_def decl_simps)

lemma render_metadata_decls:
  assumes "go_name f"
  shows "decls_of (render_metadata uc m f) = [('''', f)]"
  using assms by (simp add: render_metadata_def render_metadata_field_def decl_simps comp_def split: option.split)

text \<open>The methods a model's descriptor and its two input types get.\<close>

definition descriptor_methods :: "string list" where
  "descriptor_methods = [''Metadata'', ''Scan'', ''PrimaryKey'', ''SetPrimaryKey'', ''ClearPrimaryKey'',
     ''CloneModel'', ''CloneWriteModel'', ''WriteFieldValue'']"

definition input_methods :: "ir_model \<Rightarrow> string list" where
  "input_methods m = concat (map write_methods (writableFields m))"

definition model_methods :: "ir_model \<Rightarrow> (string \<times> string) list" where
  "model_methods m =
     map (Pair (mGoName m @ ''Descriptor'')) descriptor_methods
     @ map (Pair (mGoName m @ ''Create'')) (input_methods m @ [''BuildCreate''])
     @ map (Pair (mGoName m @ ''Patch'')) (input_methods m @ [''BuildPatch''])"

lemma renderModel_decls:
  assumes "go_name (mGoName m)" and "\<forall>f \<in> set (mFields m). go_name (fGoName f)"
    and "codegen_primaryKey m = (key, True)" and "go_name (fGoName key)" and "go_name (lowerFirst uc (mGoName m) @ ''Metadata'')"
  shows "mset (decls_of (renderModel uc m)) = mset (map (Pair '''') (package_symbols uc m) @ model_methods m)"
proof -
  have names: "go_name (mGoName m @ ''Descriptor'')" "go_name (mGoName m @ ''Create'')" "go_name (mGoName m @ ''Patch'')"
    by (rule go_name_append[OF assms(1)]; simp add: ident_byte_def byte_def)+
  have fs: "\<forall>f \<in> set (writableFields m). go_name (fGoName f)"
    using assms(2) by (simp add: writableFields_def)
  show ?thesis
    using names assms
    by (simp add: renderModel_def renderWriteInputs_def Let_def render_struct_decls render_descriptor_decls
        render_scan_decls render_primary_key_decls[OF _ assms(3)] render_clone_decls render_write_field_value_decls
        render_field_set_decls renderSaveBindings_decls[OF _ assms(3)] renderWriteInputType_decls
        renderWriteWithMethods_decls[OF _ fs] renderBuildCreate_decls renderBuildPatch_decls render_new_create_decls
        render_metadata_decls package_symbols_def model_methods_def input_methods_def descriptor_methods_def)
qed

section \<open>No line of the source contains a newline\<close>

definition one_line :: "string \<Rightarrow> bool" where
  "one_line s \<longleftrightarrow> newline \<notin> set s"

lemma one_line_simps [simp]:
  "one_line ''''" "one_line (c # s) \<longleftrightarrow> c \<noteq> newline \<and> one_line s" "one_line (s @ t) \<longleftrightarrow> one_line s \<and> one_line t"
  by (auto simp: one_line_def)

lemma one_line_concat [simp]: "one_line (concat ss) \<longleftrightarrow> list_all one_line ss"
  by (induction ss) simp_all

lemma one_line_join: "list_all one_line ss \<Longrightarrow> one_line sep \<Longrightarrow> one_line (join_strings sep ss)"
  by (induction sep ss rule: join_strings.induct) simp_all

lemma one_line_ident: "list_all ident_byte s \<Longrightarrow> one_line s"
  using ident_not_punct(3) by (auto simp: one_line_def)

lemma one_line_ind [simp]: "one_line (ind n s) = one_line s"
  by (induction n) (simp_all add: ind_def newline_def)

lemma char_of_newline: "char_of (n::nat) = newline \<longleftrightarrow> n mod 256 = 10"
proof -
  have "char_of n = newline \<longleftrightarrow> of_char (char_of n) = (of_char newline :: nat)" by (simp only: of_char_eq_iff)
  then show ?thesis by (simp add: newline_def)
qed

lemma newline_neq_literal: "newline = char_of (n::nat) \<longleftrightarrow> n mod 256 = 10"
  using char_of_newline[of n] by auto

lemma one_line_sprint_nat [simp]: "one_line (sprint_nat n)"
  by (induction n rule: sprint_nat.induct) (subst sprint_nat.simps, auto simp: char_of_newline)

lemma one_line_sprint_int [simp]: "one_line (sprint_int i)"
  by (simp add: sprint_int_def newline_def)

lemma one_line_encode_rune: "r \<noteq> 10 \<Longrightarrow> one_line (encode_rune r)"
  by (auto simp: encode_rune_def char_of_newline)

lemma hex_digit_newline: "n < 16 \<Longrightarrow> hex_digit n \<noteq> newline"
  by (auto simp: hex_digit_def char_of_newline)

lemma one_line_hex_map: "one_line (map (\<lambda>s. hex_digit (f s mod 16)) xs)"
  by (induction xs) (simp_all add: hex_digit_newline)

lemma one_line_if: "(b \<Longrightarrow> one_line s) \<Longrightarrow> (\<not> b \<Longrightarrow> one_line t) \<Longrightarrow> one_line (if b then s else t)"
  by simp

lemma one_line_escape_rune:
  assumes "\<not> isPrint uc 10"
  shows "one_line (escape_rune uc r)"
proof -
  have "r < 32 \<or> r = 127 \<Longrightarrow> hex_digit (r div 16) \<noteq> newline" by (rule hex_digit_newline) auto
  moreover have "hex_digit (r mod 16) \<noteq> newline" by (rule hex_digit_newline) simp
  moreover have "r = 34 \<or> r = 92 \<Longrightarrow> char_of r \<noteq> newline" by (auto simp: char_of_newline)
  moreover have "backslash \<noteq> newline" by (simp add: newline_def backslash_def)
  ultimately show ?thesis
    using assms one_line_encode_rune[of r] unfolding escape_rune_def Let_def
    by (intro one_line_if; simp only: one_line_simps one_line_hex_map; auto simp: newline_def)
qed

lemma one_line_quote_runes: "\<not> isPrint uc 10 \<Longrightarrow> one_line (quote_runes uc s)"
proof (induction uc s rule: quote_runes.induct)
  case (1 uc s)
  have "byte (hd s) div 16 < 16" using byte_less[of "hd s"] by linarith
  then have "hex_digit (byte (hd s) div 16) \<noteq> newline" "hex_digit (byte (hd s) mod 16) \<noteq> newline"
    by (simp_all add: hex_digit_newline)
  with 1 show ?case
    by (subst quote_runes.simps) (simp add: one_line_escape_rune newline_def backslash_def)
qed

lemma one_line_quote [simp]: "ascii_agrees uc \<Longrightarrow> one_line (quote uc s)"
  by (simp add: quote_def one_line_quote_runes quote_mark_def newline_def ascii_agrees_def ascii_tables_def)

section \<open>Exported identifiers are Go names\<close>

text \<open>
  What is asked of the Unicode tables: they agree with ASCII on ASCII, and the lower case of an
  upper case letter is a letter.
\<close>

definition go_tables :: "unicode_tables \<Rightarrow> bool" where
  "go_tables uc \<longleftrightarrow> ascii_agrees uc \<and> (\<forall>r. isUpper uc r \<longrightarrow> isLetter uc (toLower uc r))"

lemma go_tables_ascii: "go_tables ascii_tables"
  by (simp add: go_tables_def ascii_agrees_ascii) (simp add: ascii_tables_def)

lemma decode_rune_continues:
  assumes "128 \<le> byte c0" and "decode_rune (c0 # cs) \<noteq> (RuneError, 1)"
  shows "\<forall>c \<in> set (take (snd (decode_rune (c0 # cs))) (c0 # cs)). 128 \<le> byte c"
  using assms unfolding decode_rune.simps Let_def
  by (simp split: if_split_asm list.split_asm del: One_nat_def if_split) (auto simp: in_bytes_def)

lemma decode_rune_high:
  assumes "c \<in> set (take (snd (decode_rune s)) s)" and "byte c < 128"
  shows "fst (decode_rune s) = byte c \<and> snd (decode_rune s) = 1"
proof (cases s)
  case (Cons c0 cs)
  have "byte c0 < 128"
  proof (rule ccontr)
    assume "\<not> byte c0 < 128"
    then have high: "128 \<le> byte c0" by simp
    show False
    proof (cases "decode_rune (c0 # cs) = (RuneError, 1)")
      case True
      with assms Cons high show False by simp
    next
      case False
      with decode_rune_continues[OF high] assms Cons show False by force
    qed
  qed
  then have "decode_rune s = (byte c0, 1)" by (simp add: Cons)
  with assms(1) show ?thesis by (simp add: Cons)
qed (use assms in simp)

lemma ascii_byte_rune: "c \<in> set s \<Longrightarrow> byte c < 128 \<Longrightarrow> byte c \<in> set (runes s)"
proof (induction s rule: runes.induct)
  case (1 s)
  show ?case
  proof (cases "s = []")
    case False
    have "c \<in> set (take (snd (decode_rune s)) s) \<or> c \<in> set (drop (snd (decode_rune s)) s)"
      using "1.prems"(1) by (metis Un_iff append_take_drop_id set_append)
    then show ?thesis
      using decode_rune_high[OF _ "1.prems"(2)] "1.IH"[OF False _ "1.prems"(2)] False
      by (subst runes.simps) auto
  qed (use 1 in simp)
qed

lemma runes_unfold: "s \<noteq> '''' \<Longrightarrow> runes s = fst (decode_rune s) # runes (drop (snd (decode_rune s)) s)"
  by (subst runes.simps) simp

definition ident_rune :: "unicode_tables \<Rightarrow> nat \<Rightarrow> bool" where
  "ident_rune uc r \<longleftrightarrow> r = 95 \<or> isLetter uc r \<or> isDigit uc r"

lemma ident_rune_byte:
  assumes "ascii_agrees uc" and "byte c < 128 \<Longrightarrow> ident_rune uc (byte c)"
  shows "ident_byte c"
  using assms by (cases "byte c < 128") (auto simp: ident_rune_def ident_byte_def ascii_agrees_def ascii_tables_def)

lemma exported_runes:
  assumes "go_tables uc" and "exportedIdentifier uc s"
  shows "s \<noteq> ''''" and "isUpper uc (fst (decode_rune s))"
    and "\<forall>r \<in> set (runes (drop (snd (decode_rune s)) s)). ident_rune uc r"
  using assms by (auto simp: exportedIdentifier_def ident_rune_def list_all_iff split: if_splits prod.splits)

lemma exported_rest:
  assumes "go_tables uc" and "exportedIdentifier uc s"
  shows "list_all ident_byte (drop (snd (decode_rune s)) s)"
  unfolding list_all_iff
proof
  fix c assume c: "c \<in> set (drop (snd (decode_rune s)) s)"
  note e = exported_runes[OF assms]
  have "byte c < 128 \<Longrightarrow> ident_rune uc (byte c)"
    using ascii_byte_rune[OF c] e(3) by blast
  then show "ident_byte c" using assms(1) ident_rune_byte by (auto simp: go_tables_def)
qed

lemma isUpper_ascii: "ascii_agrees uc \<Longrightarrow> r < 128 \<Longrightarrow> isUpper uc r \<longleftrightarrow> 65 \<le> r \<and> r \<le> 90"
  by (simp add: ascii_agrees_def ascii_tables_def)

lemma exported_go_name:
  assumes "go_tables uc" and "exportedIdentifier uc s"
  shows "go_name s"
proof -
  note e = exported_runes[OF assms]
  have agrees: "ascii_agrees uc" using assms(1) by (simp add: go_tables_def)
  have "ident_byte c" if c: "c \<in> set s" for c
  proof (cases "c \<in> set (take (snd (decode_rune s)) s) \<and> byte c < 128")
    case True
    from True decode_rune_high[of c s] have "isUpper uc (byte c)" using e(2) by metis
    with True agrees show ?thesis by (simp add: isUpper_ascii ident_byte_def)
  next
    case False
    moreover have "c \<in> set (take (snd (decode_rune s)) s) \<or> c \<in> set (drop (snd (decode_rune s)) s)"
      using c by (metis Un_iff append_take_drop_id set_append)
    ultimately show ?thesis
      using exported_rest[OF assms] by (auto simp: list_all_iff ident_byte_def)
  qed
  moreover have "s \<noteq> ''_''"
  proof
    assume "s = ''_''"
    with e(2) agrees show False by (simp add: byte_def isUpper_ascii)
  qed
  ultimately show ?thesis using e(1) by (simp add: go_name_def list_all_iff)
qed

lemma high_byte: "128 \<le> n \<Longrightarrow> n < 256 \<Longrightarrow> ident_byte (char_of (n::nat))"
  by (simp add: ident_byte_def byte_def)

lemma encode_rune_ident:
  assumes "ascii_agrees uc" and "ident_rune uc r"
  shows "list_all ident_byte (encode_rune r)"
proof (cases "r < 128")
  case True
  then have "byte (char_of r) = r" by (simp add: byte_def)
  with True assms show ?thesis
    using ident_rune_byte[of uc "char_of r"] by (simp add: encode_rune_def)
next
  case False
  have "128 + n mod 64 < 256" for n :: nat using mod_less_divisor[of 64 n] by linarith
  moreover have "r < 2048 \<Longrightarrow> 192 + r div 64 < 256" "r < 65536 \<Longrightarrow> 224 + r div 4096 < 256"
    "r \<le> 1114111 \<Longrightarrow> 240 + r div 262144 < 256" by linarith+
  ultimately show ?thesis using False by (simp add: encode_rune_def high_byte)
qed

lemma lowerFirst_ident:
  assumes "go_tables uc" and "exportedIdentifier uc s"
  shows "list_all ident_byte (lowerFirst uc s)" and "lowerFirst uc s \<noteq> []"
proof -
  note e = exported_runes[OF assms]
  have "ident_rune uc (toLower uc (fst (decode_rune s)))"
    using assms(1) e(2) by (simp add: go_tables_def ident_rune_def)
  then have "list_all ident_byte (encode_rune (toLower uc (fst (decode_rune s))))"
    using assms(1) by (intro encode_rune_ident) (simp_all add: go_tables_def)
  then show "list_all ident_byte (lowerFirst uc s)"
    using exported_rest[OF assms] e(1) by (simp add: lowerFirst_def split_beta)
  show "lowerFirst uc s \<noteq> []" using e(1) by (simp add: lowerFirst_def encode_rune_def split_beta Let_def)
qed

lemma metadata_name:
  assumes "go_tables uc" and "exportedIdentifier uc s"
  shows "go_name (lowerFirst uc s @ ''Metadata'')"
  using lowerFirst_ident[OF assms] by (simp add: go_name_def ident_byte_def byte_def append_eq_Cons_conv)

lemma privateName_ident:
  assumes "go_tables uc" and "exportedIdentifier uc s"
  shows "list_all ident_byte (privateName uc s)"
  using lowerFirst_ident[OF assms] by (simp add: privateName_def Let_def ident_byte_def byte_def)

section \<open>The rendered lines\<close>

text \<open>A model whose names print on one line.\<close>

definition plain_model :: "unicode_tables \<Rightarrow> ir_model \<Rightarrow> bool" where
  "plain_model uc m \<longleftrightarrow> ascii_agrees uc \<and> one_line (mGoName m) \<and> one_line (lowerFirst uc (mGoName m))
     \<and> (\<forall>f \<in> set (mFields m). one_line (fGoName f) \<and> one_line (privateName uc (fGoName f)))"

lemma one_line_types [simp]:
  "one_line (goType f)" "one_line (scalarGoType f)" "one_line n \<Longrightarrow> one_line (ormFieldType n f)"
  "one_line n \<Longrightarrow> one_line (ormFieldConstructor n f)" "one_line v \<Longrightarrow> one_line (queryValueExpression f v)"
  by (simp_all add: goType_def scalarGoType_def ormFieldType_def ormFieldConstructor_def queryValueExpression_def
      newline_def split: field_kind.split)

lemma one_line_literals [simp]:
  "ascii_agrees uc \<Longrightarrow> one_line (defaultValueExpression uc d)" "ascii_agrees uc \<Longrightarrow> one_line (defaultLiteral uc d)"
  "ascii_agrees uc \<Longrightarrow> one_line (irKind uc k)"
  by (simp_all add: defaultValueExpression_def defaultLiteral_def irKind_def format_bool_def
      newline_def split: field_kind.split scalar_kind.split)

lemma enumerate_mem: "(i, f) \<in> set (enumerate n fs) \<Longrightarrow> f \<in> set fs"
  by (auto simp: enumerate_eq_zip dest: set_zip_rightD)

definition one_lines :: "string list \<Rightarrow> bool" where
  "one_lines ls \<longleftrightarrow> (\<forall>l \<in> set ls. one_line l)"

lemma one_lines_simps [simp]:
  "one_lines []" "one_lines (l # ls) \<longleftrightarrow> one_line l \<and> one_lines ls"
  "one_lines (ls @ ms) \<longleftrightarrow> one_lines ls \<and> one_lines ms"
  "one_lines (map f xs) \<longleftrightarrow> (\<forall>x \<in> set xs. one_line (f x))"
  "one_lines (concat (map g xs)) \<longleftrightarrow> (\<forall>x \<in> set xs. one_lines (g x))"
  by (auto simp: one_lines_def)

lemma one_line_joined [simp]:
  "one_line sep \<Longrightarrow> \<forall>x \<in> set xs. one_line (f x) \<Longrightarrow> one_line (join_strings sep (map f xs))"
  by (rule one_line_join) (simp_all add: list_all_iff)

lemmas line_simps = newline_def append_assignment_def Let_def

lemma plain_writable: "f \<in> set (writableFields m) \<Longrightarrow> f \<in> set (mFields m)"
  by (simp add: writableFields_def)

lemma plain_primaryKey: "codegen_primaryKey m = (key, True) \<Longrightarrow> key \<in> set (mFields m)"
  by (auto simp: codegen_primaryKey_def find_Some_iff split: option.splits)

lemma render_head_lines:
  assumes "plain_model uc m" and "one_line d" and "one_line f"
  shows "one_lines (render_struct m)" "one_lines (render_descriptor m d f)" "one_lines (render_scan m d)"
    "one_lines (render_clone m d)"
  using assms
  by (simp_all add: render_struct_def render_descriptor_def render_scan_def render_clone_def plain_model_def
      scan_target_def line_simps)

lemma render_field_lines:
  assumes "plain_model uc m" and "one_line d" and "one_line f"
  shows "one_lines (render_write_field_value uc m d)" "one_lines (render_metadata uc m f)"
    "one_lines (render_field_set m d f)"
  using assms
  by (auto simp: render_field_case_def render_write_field_value_def render_metadata_def render_metadata_field_def
      plain_model_def render_field_set_def line_simps dest: enumerate_mem split: option.split)

lemma render_key_lines:
  assumes "plain_model uc m" and "one_line d"
  shows "one_lines (render_primary_key m d)" "one_lines (renderSaveBindings m)"
  using assms plain_primaryKey[of m]
  by (auto simp: render_primary_key_def renderSaveBindings_def plain_model_def line_simps split: prod.splits)

lemma render_input_lines:
  assumes "plain_model uc m" and "one_line t" and "set fs \<subseteq> set (mFields m)"
  shows "one_lines (renderWriteInputType uc t fs)" "one_lines (render_new_create uc m t fs)"
    "one_lines (renderWriteWithMethods uc t fs)"
  using assms
  by (auto simp: renderWriteInputType_def render_new_create_def renderWriteWithMethods_def render_with_method_def
      plain_model_def line_simps subset_iff)

lemma render_case_lines:
  assumes "ascii_agrees uc" and "one_line (mGoName m)" and "one_line (fGoName f)"
  shows "one_lines (render_value_null_cases uc m f)" "one_lines (renderRequiredFieldError uc (mGoName m) f n)"
  using assms
  by (simp_all add: render_value_null_cases_def renderRequiredFieldError_def renderInvalidChangeState_def line_simps)

lemma render_change_lines:
  assumes "ascii_agrees uc" and "one_line (mGoName m)" and "one_line (fGoName f)" and "one_line (privateName uc (fGoName f))"
  shows "one_lines (render_create_field uc m f)" "one_lines (render_patch_field uc m f)"
  using assms
  by (simp_all add: render_create_field_def render_patch_field_def render_case_lines line_simps split: option.split)

lemma render_builder_lines:
  assumes "plain_model uc m" and "one_line f" and "one_line t" and "set fs \<subseteq> set (mFields m)"
  shows "one_lines (renderBuildCreate uc m t f fs)" "one_lines (renderBuildPatch uc m t f fs)"
  using assms
  by (auto simp: renderBuildCreate_def renderBuildPatch_def plain_model_def line_simps subset_iff
      intro!: render_change_lines)

lemma renderModel_lines:
  assumes "plain_model uc m"
  shows "one_lines (renderModel uc m)"
proof -
  have names: "one_line (mGoName m @ ''Descriptor'')" "one_line (lowerFirst uc (mGoName m) @ ''Metadata'')"
    "one_line (mGoName m @ ''Create'')" "one_line (mGoName m @ ''Patch'')"
    using assms by (simp_all add: plain_model_def newline_def)
  have sub: "set (writableFields m) \<subseteq> set (mFields m)" "set (requiredCreateFields (writableFields m)) \<subseteq> set (mFields m)"
    by (auto simp: writableFields_def requiredCreateFields_def)
  show ?thesis
    unfolding renderModel_def renderWriteInputs_def Let_def one_lines_simps
    by (intro conjI render_head_lines[OF assms] render_field_lines[OF assms] render_key_lines[OF assms]
        render_input_lines[OF assms] render_builder_lines[OF assms] names sub)
      (rule names)+
qed

section \<open>What the check accepts\<close>

lemma claimed_iff: "map_of xs x = None \<longleftrightarrow> x \<notin> fst ` set xs"
  by (rule map_of_eq_None_iff)

lemma add_package_symbols_Inr:
  "add_package_symbols c symbols xs = Inr symbols' \<longleftrightarrow>
     distinct xs \<and> set xs \<inter> fst ` set symbols = {} \<and> symbols' = rev (map (\<lambda>x. (x, c)) xs) @ symbols"
proof (induction c symbols xs rule: add_package_symbols.induct)
  case (2 c symbols x xs)
  show ?case
  proof (cases "map_of symbols x")
    case None
    then have "x \<notin> fst ` set symbols" using claimed_iff[of symbols x] by simp
    with None "2.IH"[OF None] show ?thesis by auto
  next
    case (Some p)
    then have "x \<in> fst ` set symbols" using claimed_iff[of symbols x] by simp
    with Some show ?thesis by auto
  qed
qed auto

lemma add_write_methods_Inr:
  "add_write_methods n f methods xs = Inr methods' \<longleftrightarrow>
     distinct xs \<and> set xs \<inter> fst ` set methods = {} \<and> methods' = rev (map (\<lambda>x. (x, f)) xs) @ methods"
proof (induction n f methods xs rule: add_write_methods.induct)
  case (2 n f methods x xs)
  show ?case
  proof (cases "map_of methods x")
    case None
    then have "x \<notin> fst ` set methods" using claimed_iff[of methods x] by simp
    with None "2.IH"[OF None] show ?thesis by auto
  next
    case (Some p)
    then have "x \<in> fst ` set methods" using claimed_iff[of methods x] by simp
    with Some show ?thesis by auto
  qed
qed auto

lemma fst_rev_claims [simp]: "fst ` (\<lambda>x. (x, c)) ` A = A"
  by force

lemma claim_step:
  assumes "x \<notin> B" and "P \<inter> C = {}"
  shows "d1 \<and> A \<inter> insert x B = {} \<and> d2 \<and> U \<inter> (P \<union> C) = {} \<longleftrightarrow>
    x \<notin> A \<and> d1 \<and> A \<inter> B = {} \<and> d2 \<and> P \<inter> U = {} \<and> (P \<union> U) \<inter> C = {}"
  using assms by blast

lemma validate_write_names_None:
  "validate_write_names uc n storages methods fs = None \<longleftrightarrow>
     distinct (map (\<lambda>f. privateName uc (fGoName f)) fs) \<and> (\<lambda>f. privateName uc (fGoName f)) ` set fs \<inter> fst ` set storages = {}
     \<and> distinct (concat (map write_methods fs)) \<and> set (concat (map write_methods fs)) \<inter> fst ` set methods = {}"
proof (induction uc n storages methods fs rule: validate_write_names.induct)
  case (2 uc n storages methods f fs)
  show ?case
  proof (cases "map_of storages (privateName uc (fGoName f))")
    case None
    show ?thesis
    proof (cases "add_write_methods n (fGoName f) methods (write_methods f)")
      case (Inl e)
      then have "\<not> (distinct (write_methods f) \<and> set (write_methods f) \<inter> fst ` set methods = {})"
        using add_write_methods_Inr[of n "fGoName f" methods "write_methods f"] by auto
      with None Inl show ?thesis by (auto simp: Let_def)
    next
      case (Inr methods')
      with add_write_methods_Inr have m: "distinct (write_methods f)" "set (write_methods f) \<inter> fst ` set methods = {}"
        "methods' = rev (map (\<lambda>x. (x, fGoName f)) (write_methods f)) @ methods" by blast+
      from None have s: "privateName uc (fGoName f) \<notin> fst ` set storages" by (simp add: map_of_eq_None_iff)
      have IH: "validate_write_names uc n ((privateName uc (fGoName f), fGoName f) # storages) methods' fs = None \<longleftrightarrow>
          distinct (map (\<lambda>f. privateName uc (fGoName f)) fs)
          \<and> (\<lambda>f. privateName uc (fGoName f)) ` set fs \<inter> fst ` set ((privateName uc (fGoName f), fGoName f) # storages) = {}
          \<and> distinct (concat (map write_methods fs)) \<and> set (concat (map write_methods fs)) \<inter> fst ` set methods' = {}"
        using "2.IH"[OF refl None Inr] by simp
      have sets: "fst ` set ((privateName uc (fGoName f), fGoName f) # storages)
          = insert (privateName uc (fGoName f)) (fst ` set storages)"
        "fst ` set methods' = set (write_methods f) \<union> fst ` set methods"
        by (simp_all add: m(3) image_Un)
      show ?thesis
        using None Inr m(1) s IH[unfolded sets] claim_step[OF s m(2), of "distinct (map (\<lambda>f. privateName uc (fGoName f)) fs)"
          "(\<lambda>f. privateName uc (fGoName f)) ` set fs" "distinct (concat (map write_methods fs))"
          "set (concat (map write_methods fs))"]
        by (simp add: Let_def)
    qed
  next
    case (Some p)
    then have "privateName uc (fGoName f) \<in> fst ` set storages"
      using claimed_iff[of storages "privateName uc (fGoName f)"] by simp
    with Some show ?thesis by (auto simp: Let_def)
  qed
qed simp

lemma validate_models_names_None:
  "validate_models_names uc symbols ms = None \<longleftrightarrow>
     distinct (concat (map (package_symbols uc) ms)) \<and> set (concat (map (package_symbols uc) ms)) \<inter> fst ` set symbols = {}
     \<and> (\<forall>m \<in> set ms. distinct (map (\<lambda>f. privateName uc (fGoName f)) (writableFields m)) \<and> distinct (input_methods m))"
proof (induction ms arbitrary: symbols)
  case (Cons m ms)
  show ?case
  proof (cases "add_package_symbols (''model '' @ mGoName m) symbols (package_symbols uc m)")
    case (Inl e)
    then have "\<not> (distinct (package_symbols uc m) \<and> set (package_symbols uc m) \<inter> fst ` set symbols = {})"
      using add_package_symbols_Inr[of "''model '' @ mGoName m" symbols "package_symbols uc m"] by auto
    with Inl show ?thesis by auto
  next
    case (Inr symbols')
    with add_package_symbols_Inr have s: "distinct (package_symbols uc m)" "set (package_symbols uc m) \<inter> fst ` set symbols = {}"
      "symbols' = rev (map (\<lambda>x. (x, ''model '' @ mGoName m)) (package_symbols uc m)) @ symbols" by blast+
    have "validate_write_names uc (mGoName m) [] [] (writableFields m) = None \<longleftrightarrow>
        distinct (map (\<lambda>f. privateName uc (fGoName f)) (writableFields m)) \<and> distinct (input_methods m)"
      by (simp add: validate_write_names_None input_methods_def)
    moreover have "set (package_symbols uc m) \<inter> (\<Union>a\<in>set ms. set (package_symbols uc a)) = {}
        \<and> (set (package_symbols uc m) \<union> (\<Union>a\<in>set ms. set (package_symbols uc a))) \<inter> fst ` set symbols = {}
        \<longleftrightarrow> (\<Union>a\<in>set ms. set (package_symbols uc a)) \<inter> fst ` set symbols' = {}"
      using s(2) by (simp add: s(3) image_Un) blast
    ultimately show ?thesis
      using Inr s(1) by (cases "validate_write_names uc (mGoName m) [] [] (writableFields m)") (simp_all add: Cons.IH, argo+)
  qed
qed simp

section \<open>The declarations of the source\<close>

lemma input_methods_With: "s \<in> set (input_methods m) \<Longrightarrow> \<exists>t. s = ''With'' @ t"
  by (auto simp: input_methods_def write_methods_def split: if_splits)

lemma build_not_input: "''BuildCreate'' \<notin> set (input_methods m)" "''BuildPatch'' \<notin> set (input_methods m)"
  using input_methods_With by fastforce+

lemma distinct_map_Pair [simp]: "distinct (map (Pair x) ys) = distinct ys"
  by (simp add: distinct_map inj_on_def)

lemma model_methods_distinct: "distinct (model_methods m) \<longleftrightarrow> distinct (input_methods m)"
proof -
  have "distinct descriptor_methods" by (simp add: descriptor_methods_def)
  then show ?thesis
    using build_not_input[of m] by (auto simp: model_methods_def simp del: map_append)
qed

lemma model_methods_receivers: "fst ` set (model_methods m) \<subseteq> set (package_symbols uc m)"
  by (cases "codegen_primaryKey m") (auto simp: model_methods_def package_symbols_def Let_def)

lemma all_methods_distinct:
  assumes "distinct (concat (map (package_symbols uc) ms))"
  shows "distinct (concat (map model_methods ms)) \<longleftrightarrow> (\<forall>m \<in> set ms. distinct (input_methods m))"
  using assms
proof (induction ms)
  case (Cons m ms)
  have "set (model_methods m) \<inter> set (concat (map model_methods ms)) = {}"
  proof (rule ccontr)
    assume "set (model_methods m) \<inter> set (concat (map model_methods ms)) \<noteq> {}"
    then obtain d m' where d: "d \<in> set (model_methods m)" "m' \<in> set ms" "d \<in> set (model_methods m')" by auto
    then have "fst d \<in> set (package_symbols uc m)" "fst d \<in> set (package_symbols uc m')"
      using model_methods_receivers by blast+
    with Cons.prems d(2) show False by auto
  qed
  with Cons show ?case by (simp add: model_methods_distinct)
qed simp

lemma methods_have_receivers: "(r, n) \<in> set (concat (map model_methods ms)) \<Longrightarrow> r \<noteq> ''''"
  by (auto simp: model_methods_def)

definition provenance_symbols :: "string list" where
  "provenance_symbols = [''GoDjGeneratorVersion'', ''GoDjSchemaSHA256'']"

lemma wf_schema_model:
  assumes "wf_schema uc s" and "m \<in> set (sModels s)"
  shows "exportedIdentifier uc (mGoName m)" and "f \<in> set (mFields m) \<Longrightarrow> exportedIdentifier uc (fGoName f)"
    and "\<exists>key \<in> set (mFields m). codegen_primaryKey m = (key, True)"
proof -
  from assms have m: "wf_model uc m" by (auto simp: wf_schema_def list_all_iff)
  then show "exportedIdentifier uc (mGoName m)" by (simp add: wf_model_def)
  show "f \<in> set (mFields m) \<Longrightarrow> exportedIdentifier uc (fGoName f)"
    using m by (auto simp: wf_model_def wf_field_def list_all_iff)
  from m have "filter fPrimaryKey (mFields m) \<noteq> []" by (auto simp: wf_model_def)
  then obtain key where key: "find fPrimaryKey (mFields m) = Some key"
    by (cases "find fPrimaryKey (mFields m)") (auto simp: find_None_iff filter_empty_conv)
  then have "key \<in> set (mFields m)" by (metis find_Some_iff nth_mem)
  then show "\<exists>key \<in> set (mFields m). codegen_primaryKey m = (key, True)"
    by (rule bexI[rotated]) (simp add: codegen_primaryKey_def key)
qed

lemma schema_model_decls:
  assumes "go_tables uc" and "wf_schema uc s" and "m \<in> set (sModels s)"
  shows "mset (decls_of (renderModel uc m)) = mset (map (Pair '''') (package_symbols uc m) @ model_methods m)"
proof -
  note w = wf_schema_model[OF assms(2,3)]
  from w(3) obtain key where key: "key \<in> set (mFields m)" "codegen_primaryKey m = (key, True)" by blast
  show ?thesis
    using w(1,2) key(1)
    by (intro renderModel_decls[OF _ _ key(2)]) (auto intro: exported_go_name[OF assms(1)] metadata_name[OF assms(1)])
qed

lemma schema_model_plain:
  assumes "go_tables uc" and "wf_schema uc s" and "m \<in> set (sModels s)"
  shows "plain_model uc m"
proof -
  note w = wf_schema_model[OF assms(2,3)]
  have line: "one_line n \<and> one_line (privateName uc n) \<and> one_line (lowerFirst uc n)" if "exportedIdentifier uc n" for n
    using exported_go_name[OF assms(1) that] privateName_ident[OF assms(1) that] lowerFirst_ident(1)[OF assms(1) that]
    by (simp add: one_line_ident go_name_def)
  show ?thesis
    using w(1,2) line assms(1) by (simp add: plain_model_def go_tables_def)
qed

lemma go_identifier_line:
  assumes "go_tables uc" and "is_go_identifier uc p"
  shows "one_line p"
  unfolding one_line_def
proof
  assume "newline \<in> set p"
  then have "(10::nat) \<in> set (runes p)" using ascii_byte_rune[of newline p] by (simp add: byte_def newline_def)
  with assms(2) have "isLetter uc 10 \<or> isDigit uc 10"
    by (auto simp: is_go_identifier_def list_all_iff split: if_splits list.splits)
  then show False using assms(1) by (simp add: go_tables_def ascii_agrees_def ascii_tables_def)
qed

lemma source_one_lines:
  assumes "go_tables uc" and "wf_schema uc s" and "one_line p"
  shows "one_lines (source_lines uc p h s)"
proof -
  have "ascii_agrees uc" using assms(1) by (simp add: go_tables_def)
  then show ?thesis
    using assms(3) renderModel_lines[OF schema_model_plain[OF assms(1,2)]]
    by (simp add: source_lines_def newline_def)
qed

lemma source_decls:
  "decls_of (source_lines uc p h s) = map (Pair '''') provenance_symbols @ concat (map (\<lambda>m. decls_of (renderModel uc m)) (sModels s))"
  by (simp add: source_lines_def provenance_symbols_def decls_of_line decls_of_concat decl_of_def has_prefix_def ind_def
      ident_byte_def byte_def comp_def)

lemma declarations_mset:
  assumes "go_tables uc" and "wf_schema uc s" and "one_line p"
  shows "mset (declarations (text_of (source_lines uc p h s))) =
    mset (map (Pair '''') (provenance_symbols @ concat (map (package_symbols uc) (sModels s)))
      @ concat (map model_methods (sModels s)))"
proof -
  have "declarations (text_of (source_lines uc p h s)) = decls_of (source_lines uc p h s)"
    using source_one_lines[OF assms] by (simp add: declarations_def split_text_of one_lines_def one_line_def)
  moreover have "set ms \<subseteq> set (sModels s) \<Longrightarrow>
      mset (concat (map (\<lambda>m. decls_of (renderModel uc m)) ms)) =
      mset (map (Pair '''') (concat (map (package_symbols uc) ms)) @ concat (map model_methods ms))" for ms
    by (induction ms) (simp_all add: schema_model_decls[OF assms(1,2)])
  ultimately show ?thesis by (simp add: source_decls)
qed

section \<open>The check decides the absence of redeclarations\<close>

lemma generated_names_iff:
  assumes "go_tables uc" and "wf_schema uc s" and "one_line p"
  shows "validateGeneratedNames uc s = None \<longleftrightarrow>
    distinct (declarations (text_of (source_lines uc p h s)))
    \<and> (\<forall>m \<in> set (sModels s). distinct (map (\<lambda>f. privateName uc (fGoName f)) (writableFields m)))"
proof -
  let ?P = "provenance_symbols @ concat (map (package_symbols uc) (sModels s))"
  let ?M = "concat (map model_methods (sModels s))"
  have "set (map (Pair []) ?P) \<inter> set ?M = {}" using methods_have_receivers[of _ _ "sModels s"] by fastforce
  then have "distinct (declarations (text_of (source_lines uc p h s))) \<longleftrightarrow> distinct ?P \<and> distinct ?M"
    using mset_eq_imp_distinct_iff[OF declarations_mset[OF assms]] by (simp only: distinct_append distinct_map_Pair) simp
  moreover have "distinct ?P \<Longrightarrow> distinct ?M \<longleftrightarrow> (\<forall>m \<in> set (sModels s). distinct (input_methods m))"
    by (rule all_methods_distinct[of uc]) simp
  moreover have "validateGeneratedNames uc s = None \<longleftrightarrow> distinct ?P
      \<and> (\<forall>m \<in> set (sModels s). distinct (map (\<lambda>f. privateName uc (fGoName f)) (writableFields m)) \<and> distinct (input_methods m))"
    by (auto simp: validateGeneratedNames_def validate_models_names_None provenance_symbols_def)
  ultimately show ?thesis by blast
qed

text \<open>
  C32: \<open>Generate\<close> succeeds exactly for a package name that is an identifier and a schema that
  normalizes, hashes and formats, and whose rendered source declares no name twice: neither at
  package level nor as a method of one type, nor two fields of an input type with one storage. So
  what it returns is never rejected by the compiler for a redeclaration.
\<close>

theorem Generate_declares_once:
  assumes "go_tables uc"
  shows "Generate uc marshal sha256 format_source packageName input = Inr out \<longleftrightarrow>
    is_go_identifier uc packageName \<and>
    (\<exists>schema hash. Normalize uc input = Inr schema \<and> Hash uc marshal sha256 schema = Inr hash
       \<and> distinct (declarations (text_of (source_lines uc packageName hash schema)))
       \<and> (\<forall>m \<in> set (sModels schema). distinct (map (\<lambda>f. privateName uc (fGoName f)) (writableFields m)))
       \<and> format_source (text_of (source_lines uc packageName hash schema)) = Inr out)"
proof (cases "is_go_identifier uc packageName")
  case True
  then have "\<not> is_keyword packageName" "one_line packageName"
    using go_identifier_line[OF assms] by (simp_all add: is_go_identifier_def split: if_splits)
  show ?thesis
  proof (cases "Normalize uc input")
    case (Inr s)
    note names = generated_names_iff[OF assms Normalize_wfD[OF Inr] \<open>one_line packageName\<close>]
    show ?thesis
    proof (cases "Hash uc marshal sha256 s")
      case hash: (Inr h)
      show ?thesis
        using Inr hash True \<open>\<not> is_keyword packageName\<close> names[of h]
        by (cases "validateGeneratedNames uc s") (simp_all add: Generate_def split: sum.split)
    qed (use Inr True in \<open>auto simp: Generate_def split: option.splits\<close>)
  qed (simp add: Generate_def)
qed (simp add: Generate_def)

definition article_schema :: ir_schema where
  "article_schema = \<lparr>sFormatVersion = FormatVersion, sAppLabel = ''godj_conformance'', sModels = [articleMetadata]\<rparr>"

lemma article_schema_normalized: "Normalize ascii_tables article_schema = Inr article_schema"
  using article_definition_nf Build_Inr_iff[of ascii_tables article_definition article_schema] articleMetadata_wf
  by (simp add: article_schema_def wf_schema_def databaseIdentifier_def identifier_start_def identifier_rest_def byte_def)

lemma article_names: "validateGeneratedNames ascii_tables article_schema = None"
  by code_simp

theorem Generate_declares_once_witness:
  "distinct (declarations (text_of (source_lines ascii_tables ''models'' (hex_of ''digest'') article_schema)))"
proof -
  have "Generate ascii_tables (\<lambda>_. Inr '''') (\<lambda>_. ''digest'') Inr ''models'' article_schema
      = Inr (text_of (source_lines ascii_tables ''models'' (hex_of ''digest'') article_schema))"
    by (simp add: Generate_def article_schema_normalized article_names Hash_def CanonicalJSON_def is_go_identifier_def
        is_keyword_def go_keywords_def runes_ascii byte_def) (simp add: ascii_tables_def)
  then show ?thesis
    unfolding Generate_declares_once[OF go_tables_ascii]
    by (simp add: article_schema_normalized Hash_def CanonicalJSON_def)
qed

section \<open>Names the check does not look at\<close>

text \<open>
  The check covers declarations, not the variables inside the generated functions. A required
  field whose name in lower case is \<open>orm\<close> becomes a parameter that hides the package of that name
  in the constructor that calls \<open>orm.Set\<close>; and the flag \<open>changedASet\<close> of a field \<open>A\<close> is the
  variable of a field \<open>ASet\<close>, declared with another type.
\<close>

definition text_field :: "string \<Rightarrow> string \<Rightarrow> ir_field" where
  "text_field name goName = zeroField\<lparr>fName := name, fGoName := goName, fColumn := name, fKind := FieldChar,
     fMaxLength := 20\<rparr>"

definition collision_schema :: "ir_field list \<Rightarrow> ir_schema" where
  "collision_schema fs = \<lparr>sFormatVersion = FormatVersion, sAppLabel = ''blog'',
     sModels = [\<lparr>mName = ''post'', mGoName = ''Post'', mDBTable = ''blog_post'', mFields = implicitPrimaryKey # fs\<rparr>]\<rparr>"

lemmas collision_defs = collision_schema_def text_field_def implicitPrimaryKey_def zeroField_def

lemma collision_schema_normalized:
  "Normalize ascii_tables (collision_schema [text_field ''orm'' ''Orm''])
     = Inr (collision_schema [text_field ''orm'' ''Orm''])"
  "Normalize ascii_tables (collision_schema [text_field ''a'' ''A'', text_field ''a_set'' ''ASet''])
     = Inr (collision_schema [text_field ''a'' ''A'', text_field ''a_set'' ''ASet''])"
  unfolding Normalize_eq_self
  by (simp_all add: collision_defs wf_schema_def wf_model_def wf_field_def wf_kind_def
      exportedIdentifier_ascii databaseIdentifier_def identifier_start_def identifier_rest_def byte_def)
    (simp_all add: ascii_tables_def)

lemma constructor_parameter_hides_package:
  defines "fs \<equiv> [text_field ''orm'' ''Orm'']"
  shows "validateGeneratedNames ascii_tables (collision_schema fs) = None"
    and "render_new_create ascii_tables m ''PostCreate'' (requiredCreateFields fs) =
      [''func New'' @ mGoName m @ ''Create(orm string) PostCreate {'', ind 1 ''return PostCreate{'',
       ind 2 ''orm: orm.Set(orm),'', ind 1 ''}'', ''}'', '''']"
proof -
  show "validateGeneratedNames ascii_tables (collision_schema fs) = None" unfolding fs_def by code_simp
  have "privateName ascii_tables ''Orm'' = ''orm''" by code_simp
  then show "render_new_create ascii_tables m ''PostCreate'' (requiredCreateFields fs) =
      [''func New'' @ mGoName m @ ''Create(orm string) PostCreate {'', ind 1 ''return PostCreate{'',
       ind 2 ''orm: orm.Set(orm),'', ind 1 ''}'', ''}'', '''']"
    by (simp add: fs_def render_new_create_def requiredCreateFields_def text_field_def zeroField_def
        scalarGoType_def goType_def)
qed

lemma change_flag_hides_change:
  defines "fs \<equiv> [text_field ''a'' ''A'', text_field ''a_set'' ''ASet'']"
  shows "validateGeneratedNames ascii_tables (collision_schema fs) = None"
    and "hd (render_create_field ascii_tables m (fs ! 0)) = ind 1 ''changedA, changedASet := input.a.Get()''"
    and "hd (render_create_field ascii_tables m (fs ! 1)) = ind 1 ''changedASet, changedASetSet := input.aSet.Get()''"
proof -
  show "validateGeneratedNames ascii_tables (collision_schema fs) = None" unfolding fs_def by code_simp
  have names: "privateName ascii_tables ''A'' = ''a''" "privateName ascii_tables ''ASet'' = ''aSet''" by code_simp+
  show "hd (render_create_field ascii_tables m (fs ! 0)) = ind 1 ''changedA, changedASet := input.a.Get()''"
    "hd (render_create_field ascii_tables m (fs ! 1)) = ind 1 ''changedASet, changedASetSet := input.aSet.Get()''"
    by (simp_all add: fs_def render_create_field_def Let_def names text_field_def zeroField_def)
qed

end
