(* ===== verification/Codegen_Write.thy ===== *)
theory Codegen_Write
  imports Codegen_Names
begin

text \<open>
  Package \<open>codegen\<close>, \<open>write.go\<close>, and its caller, the command \<open>internal/cmd/m1generate\<close>: the
  generated source is written to a candidate beside the target, verified there and renamed over
  the target. The file system is a map from paths to contents; every system call may fail, as the
  record \<open>os_calls\<close> (a parameter) decides at each point of the run. The lemmas say that the target
  is replaced by a verified source or left alone, and that no candidate stays behind.
\<close>

section \<open>Files and system calls\<close>

record file_world =
  fwFiles :: "string \<Rightarrow> string option"
  fwClock :: nat

text \<open>
  What the operating system answers at a point of the run. \<open>osCreateTemp\<close> names the candidate it
  creates; \<open>osWritten\<close> is how much of the source a write puts into the file, all of it when it
  succeeds.
\<close>

record os_calls =
  osDir :: "string \<Rightarrow> string"
  osReadFile :: "nat \<Rightarrow> string \<Rightarrow> go_error option"
  osCreateTemp :: "nat \<Rightarrow> string \<Rightarrow> string \<Rightarrow> (string \<Rightarrow> string option) \<Rightarrow> go_error + string"
  osChmod :: "nat \<Rightarrow> string \<Rightarrow> go_error option"
  osWrite :: "nat \<Rightarrow> string \<Rightarrow> go_error option"
  osWritten :: "nat \<Rightarrow> string \<Rightarrow> nat"
  osSync :: "nat \<Rightarrow> string \<Rightarrow> go_error option"
  osClose :: "nat \<Rightarrow> string \<Rightarrow> go_error option"
  osRename :: "nat \<Rightarrow> string \<Rightarrow> string \<Rightarrow> go_error option"
  osRemove :: "nat \<Rightarrow> string \<Rightarrow> go_error option"
  osNotExist :: "string \<Rightarrow> go_error"
  osErrorText :: "go_error \<Rightarrow> string"

text \<open>A step of the run: a call may fail and takes time.\<close>

type_synonym 'a file_step = "file_world \<Rightarrow> (go_error + 'a) \<times> file_world"

definition later :: "file_world \<Rightarrow> file_world" where
  "later w = w\<lparr>fwClock := Suc (fwClock w)\<rparr>"

definition call_step :: "(nat \<Rightarrow> go_error option) \<Rightarrow> (go_error \<Rightarrow> go_error) \<Rightarrow> unit file_step" where
  "call_step call wrap w =
     (case call (fwClock w) of Some err \<Rightarrow> (Inl (wrap err), later w) | None \<Rightarrow> (Inr (), later w))"

definition and_then :: "unit file_step \<Rightarrow> unit file_step \<Rightarrow> unit file_step" where
  "and_then f g w = (case f w of (Inl err, w') \<Rightarrow> (Inl err, w') | (Inr _, w') \<Rightarrow> g w')"

definition os_read :: "os_calls \<Rightarrow> string \<Rightarrow> string file_step" where
  "os_read os path w =
     (case osReadFile os (fwClock w) path of
        Some err \<Rightarrow> (Inl err, later w)
      | None \<Rightarrow>
        (case fwFiles w path of
           None \<Rightarrow> (Inl (osNotExist os path), later w)
         | Some contents \<Rightarrow> (Inr contents, later w)))"

definition os_create_temp :: "os_calls \<Rightarrow> string \<Rightarrow> string \<Rightarrow> string file_step" where
  "os_create_temp os dir pattern w =
     (case osCreateTemp os (fwClock w) dir pattern (fwFiles w) of
        Inl err \<Rightarrow> (Inl err, later w)
      | Inr name \<Rightarrow> (Inr name, later (w\<lparr>fwFiles := (fwFiles w)(name \<mapsto> '''')\<rparr>)))"

definition os_write :: "os_calls \<Rightarrow> string \<Rightarrow> string \<Rightarrow> unit file_step" where
  "os_write os path source w =
     (case osWrite os (fwClock w) path of
        Some err \<Rightarrow>
          (Inl (ErrWrap ''write generated candidate: %w'' [] err),
           later (w\<lparr>fwFiles := (fwFiles w)(path \<mapsto> take (osWritten os (fwClock w) path) source)\<rparr>))
      | None \<Rightarrow> (Inr (), later (w\<lparr>fwFiles := (fwFiles w)(path \<mapsto> source)\<rparr>)))"

definition os_rename :: "os_calls \<Rightarrow> string \<Rightarrow> string \<Rightarrow> unit file_step" where
  "os_rename os old new w =
     (case osRename os (fwClock w) old new of
        Some err \<Rightarrow> (Inl (ErrWrap ''replace generated source: %w'' [] err), later w)
      | None \<Rightarrow> (Inr (), later (w\<lparr>fwFiles := (fwFiles w)(old := None, new := fwFiles w old)\<rparr>)))"

definition os_remove :: "os_calls \<Rightarrow> string \<Rightarrow> file_world \<Rightarrow> file_world" where
  "os_remove os path w =
     (case osRemove os (fwClock w) path of
        Some _ \<Rightarrow> later w
      | None \<Rightarrow> later (w\<lparr>fwFiles := (fwFiles w)(path := None)\<rparr>))"

section \<open>Writing a file\<close>

definition ErrDrift :: go_error where
  "ErrDrift = ErrNew ''generated source differs from committed output''"

text \<open>\<open>None\<close> stands for a nil context and for a nil verifier.\<close>

type_synonym file_context = "(nat \<Rightarrow> go_error option) option"

record write_options =
  woCheck :: bool
  woVerify :: "(file_context \<Rightarrow> string \<Rightarrow> file_world \<Rightarrow> go_error option \<times> file_world) option"

definition context_step :: "file_context \<Rightarrow> unit file_step" where
  "context_step ctx = call_step (the ctx) id"

definition check_drift :: "os_calls \<Rightarrow> string \<Rightarrow> string \<Rightarrow> unit file_step" where
  "check_drift os path source w =
     (case os_read os path w of
        (Inl err, w1) \<Rightarrow> (Inl (ErrWrap ''%w: read %s: %v'' [FStr path, FStr (osErrorText os err)] ErrDrift), w1)
      | (Inr existing, w1) \<Rightarrow>
          if existing \<noteq> source then (Inl (ErrWrap ''%w: %s'' [FStr path] ErrDrift), w1) else (Inr (), w1))"

definition verify_step :: "write_options \<Rightarrow> file_context \<Rightarrow> string \<Rightarrow> unit file_step" where
  "verify_step options ctx candidatePath w =
     (case the (woVerify options) ctx candidatePath w of
        (Some err, w1) \<Rightarrow> (Inl (ErrWrap ''verify generated candidate: %w'' [] err), w1)
      | (None, w1) \<Rightarrow> (Inr (), w1))"

text \<open>The body between the creation of the candidate and the deferred clean-up.\<close>

definition write_candidate :: "os_calls \<Rightarrow> file_context \<Rightarrow> string \<Rightarrow> string \<Rightarrow> write_options \<Rightarrow> string
    \<Rightarrow> unit file_step" where
  "write_candidate os ctx path source options candidatePath =
     and_then (call_step (\<lambda>n. osChmod os n candidatePath) (ErrWrap ''chmod generated candidate: %w'' []))
     (and_then (os_write os candidatePath source)
     (and_then (call_step (\<lambda>n. osSync os n candidatePath) (ErrWrap ''sync generated candidate: %w'' []))
     (and_then (call_step (\<lambda>n. osClose os n candidatePath) (ErrWrap ''close generated candidate: %w'' []))
     (and_then (context_step ctx)
     (and_then (verify_step options ctx candidatePath)
     (os_rename os candidatePath path))))))"

definition deferred_close :: "file_world \<Rightarrow> file_world" where
  "deferred_close w = later w"

definition WriteFile :: "os_calls \<Rightarrow> (string \<Rightarrow> string \<Rightarrow> go_error option) \<Rightarrow> file_context \<Rightarrow> string \<Rightarrow> string
    \<Rightarrow> write_options \<Rightarrow> file_world \<Rightarrow> go_error option \<times> file_world" where
  "WriteFile os parse_file ctx path source options w =
     (if ctx = None then (Some (ErrNew ''write generated source: context is nil''), w)
      else
      (case context_step ctx w of
         (Inl err, w1) \<Rightarrow> (Some err, w1)
       | (Inr _, w1) \<Rightarrow>
         (case parse_file path source of
            Some err \<Rightarrow> (Some (ErrWrap ''validate generated source: %w'' [] err), w1)
          | None \<Rightarrow>
            if woCheck options
            then (case check_drift os path source w1 of (Inl err, w2) \<Rightarrow> (Some err, w2) | (Inr _, w2) \<Rightarrow> (None, w2))
            else if woVerify options = None
            then (Some (ErrNew ''write generated source: candidate verifier is required''), w1)
            else
            (case os_create_temp os (osDir os path) ''.godj-generated-*'' w1 of
               (Inl err, w2) \<Rightarrow> (Some (ErrWrap ''create generated candidate: %w'' [] err), w2)
             | (Inr candidatePath, w2) \<Rightarrow>
               (case write_candidate os ctx path source options candidatePath w2 of
                  (Inl err, w3) \<Rightarrow> (Some err, os_remove os candidatePath (deferred_close w3))
                | (Inr _, w3) \<Rightarrow> (None, deferred_close w3))))))"

section \<open>What a run leaves behind\<close>

text \<open>
  A step that touches one path at most; a step that touches nothing.
\<close>

definition touches :: "string \<Rightarrow> 'a file_step \<Rightarrow> bool" where
  "touches c m \<longleftrightarrow> (\<forall>w. \<exists>x. fwFiles (snd (m w)) = (fwFiles w)(c := x))"

definition touches_nothing :: "'a file_step \<Rightarrow> bool" where
  "touches_nothing m \<longleftrightarrow> (\<forall>w. fwFiles (snd (m w)) = fwFiles w)"

named_theorems touch_intros \<open>which files a step touches\<close>

lemma fwFiles_later [simp]: "fwFiles (later w) = fwFiles w"
  by (simp add: later_def)

lemma touches_nothing_touches [touch_intros]: "touches_nothing m \<Longrightarrow> touches c m"
  unfolding touches_def touches_nothing_def by (metis fun_upd_triv)

lemma touches_nothing_call [touch_intros]: "touches_nothing (call_step call wrap)"
  by (simp add: touches_nothing_def call_step_def split: option.split)

lemma touches_nothing_context [touch_intros]: "touches_nothing (context_step ctx)"
  unfolding context_step_def by (rule touch_intros)

lemma touches_nothing_drift [touch_intros]: "touches_nothing (check_drift os path source)"
  by (auto simp: touches_nothing_def check_drift_def os_read_def split: option.split)

lemma touches_write [touch_intros]: "touches c (os_write os c source)"
  by (auto simp: touches_def os_write_def split: option.split)

lemma touches_and_then [touch_intros]: "touches c f \<Longrightarrow> touches c g \<Longrightarrow> touches c (and_then f g)"
  unfolding touches_def and_then_def
  by (auto split: prod.split sum.split) (metis fun_upd_upd snd_conv)+

lemma touches_nothing_and_then [touch_intros]:
  "touches_nothing f \<Longrightarrow> touches_nothing g \<Longrightarrow> touches_nothing (and_then f g)"
  unfolding touches_nothing_def and_then_def by (auto split: prod.split sum.split) (metis snd_conv)+

lemma touchesD_nothing: "touches_nothing m \<Longrightarrow> m w = (r, w') \<Longrightarrow> fwFiles w' = fwFiles w"
  unfolding touches_nothing_def by (metis snd_conv)

lemma and_then_Inr: "and_then f g w = (Inr (), w') \<longleftrightarrow> (\<exists>w1. f w = (Inr (), w1) \<and> g w1 = (Inr (), w'))"
  by (auto simp: and_then_def split: prod.splits sum.splits)

lemma and_then_Inl:
  "and_then f g w = (Inl e, w') \<longleftrightarrow> f w = (Inl e, w') \<or> (\<exists>w1. f w = (Inr (), w1) \<and> g w1 = (Inl e, w'))"
  by (auto simp: and_then_def split: prod.splits sum.splits)

lemma and_then_assoc: "and_then (and_then f g) h = and_then f (and_then g h)"
  by (rule ext) (auto simp: and_then_def split: prod.splits sum.splits)

text \<open>A verifier that looks at files without changing them.\<close>

definition verifier_reads :: "write_options \<Rightarrow> bool" where
  "verifier_reads options \<longleftrightarrow> (\<forall>v ctx c w. woVerify options = Some v \<longrightarrow> fwFiles (snd (v ctx c w)) = fwFiles w)"

lemma touches_nothing_verify [touch_intros]:
  "verifier_reads options \<Longrightarrow> woVerify options \<noteq> None \<Longrightarrow> touches_nothing (verify_step options ctx c)"
  unfolding touches_nothing_def verify_step_def verifier_reads_def
  by (auto split: prod.split option.split) (metis snd_conv)+

lemma rename_outcomes:
  "os_rename os c path w = (Inl e, w') \<Longrightarrow> fwFiles w' = fwFiles w"
  "os_rename os c path w = (Inr (), w') \<Longrightarrow> fwFiles w' = (fwFiles w)(c := None, path := fwFiles w c)"
  by (auto simp: os_rename_def split: option.splits)

lemma write_candidate_split:
  "write_candidate os ctx path source options c =
     and_then (and_then (call_step (\<lambda>n. osChmod os n c) (ErrWrap ''chmod generated candidate: %w'' [])) (os_write os c source))
     (and_then (and_then (call_step (\<lambda>n. osSync os n c) (ErrWrap ''sync generated candidate: %w'' []))
       (and_then (call_step (\<lambda>n. osClose os n c) (ErrWrap ''close generated candidate: %w'' [])) (context_step ctx)))
     (and_then (verify_step options ctx c) (os_rename os c path)))"
  by (simp add: write_candidate_def and_then_assoc)

text \<open>A step that touches one path at most when it fails.\<close>

definition fails_touching :: "string \<Rightarrow> 'a file_step \<Rightarrow> bool" where
  "fails_touching c m \<longleftrightarrow> (\<forall>w e w'. m w = (Inl e, w') \<longrightarrow> (\<exists>x. fwFiles w' = (fwFiles w)(c := x)))"

lemma touchesD: "touches c m \<Longrightarrow> m w = (r, w') \<Longrightarrow> \<exists>x. fwFiles w' = (fwFiles w)(c := x)"
  unfolding touches_def by (metis snd_conv)

lemma fails_touching_and_then [touch_intros]:
  assumes "touches c f" and "fails_touching c g"
  shows "fails_touching c (and_then f g)"
  unfolding fails_touching_def and_then_Inl
proof (intro allI impI)
  fix w e w'
  assume "f w = (Inl e, w') \<or> (\<exists>w1. f w = (Inr (), w1) \<and> g w1 = (Inl e, w'))"
  then show "\<exists>x. fwFiles w' = (fwFiles w)(c := x)"
  proof
    assume "\<exists>w1. f w = (Inr (), w1) \<and> g w1 = (Inl e, w')"
    then obtain w1 where w1: "f w = (Inr (), w1)" "g w1 = (Inl e, w')" by blast
    obtain x where "fwFiles w1 = (fwFiles w)(c := x)" using touchesD[OF assms(1) w1(1)] by blast
    moreover obtain y where "fwFiles w' = (fwFiles w1)(c := y)" using assms(2) w1(2) unfolding fails_touching_def by blast
    ultimately show ?thesis by auto
  qed (rule touchesD[OF assms(1)])
qed

lemma fails_touching_rename [touch_intros]: "fails_touching c (os_rename os d path)"
  unfolding fails_touching_def by (metis rename_outcomes(1) fun_upd_triv)

lemma write_candidate_fails:
  assumes "verifier_reads options" and "woVerify options \<noteq> None"
    and "write_candidate os ctx path source options c w = (Inl e, w')"
  shows "\<exists>x. fwFiles w' = (fwFiles w)(c := x)"
proof -
  have "fails_touching c (write_candidate os ctx path source options c)"
    unfolding write_candidate_def by (intro touch_intros assms)
  with assms(3) show ?thesis by (simp add: fails_touching_def)
qed

lemma write_candidate_succeeds:
  assumes "verifier_reads options" and "woVerify options = Some v"
    and "write_candidate os ctx path source options c w = (Inr (), w')"
  shows "fwFiles w' = (fwFiles w)(c := None, path \<mapsto> source)"
    and "\<exists>w1 w2. fwFiles w1 c = Some source \<and> v ctx c w1 = (None, w2)"
proof -
  from assms(3) obtain w1 w2 w3 w4 where
    "call_step (\<lambda>n. osChmod os n c) (ErrWrap ''chmod generated candidate: %w'' []) w = (Inr (), w1)"
    and w2: "os_write os c source w1 = (Inr (), w2)"
    and "and_then (call_step (\<lambda>n. osSync os n c) (ErrWrap ''sync generated candidate: %w'' []))
       (and_then (call_step (\<lambda>n. osClose os n c) (ErrWrap ''close generated candidate: %w'' [])) (context_step ctx)) w2 = (Inr (), w3)"
    and w4: "verify_step options ctx c w3 = (Inr (), w4)" and rename: "os_rename os c path w4 = (Inr (), w')"
    unfolding write_candidate_split and_then_Inr by blast
  then have "fwFiles w1 = fwFiles w" "fwFiles w3 = fwFiles w2"
    by (auto intro: touchesD_nothing[rotated] intro!: touch_intros)
  moreover have "fwFiles w2 = (fwFiles w1)(c \<mapsto> source)" using w2 by (auto simp: os_write_def split: option.splits)
  moreover have "fwFiles w4 = fwFiles w3"
    using touchesD_nothing[OF touches_nothing_verify w4] assms(1,2) by simp
  ultimately have files: "fwFiles w3 = (fwFiles w)(c \<mapsto> source)" "fwFiles w4 = (fwFiles w)(c \<mapsto> source)" by simp_all
  from rename_outcomes(2)[OF rename] show "fwFiles w' = (fwFiles w)(c := None, path \<mapsto> source)" by (simp add: files(2))
  from w4 have "v ctx c w3 = (None, w4)" by (auto simp: verify_step_def assms(2) split: prod.splits option.splits)
  then show "\<exists>w1 w2. fwFiles w1 c = Some source \<and> v ctx c w1 = (None, w2)" using files(1) by (intro exI[of _ w3] exI[of _ w4]) simp
qed

section \<open>The target is replaced or left alone\<close>

text \<open>What the operating system promises: a temporary file is a new one.\<close>

definition fresh_candidates :: "os_calls \<Rightarrow> string \<Rightarrow> bool" where
  "fresh_candidates os path \<longleftrightarrow> (\<forall>n dir pattern files c.
     osCreateTemp os n dir pattern files = Inr c \<longrightarrow> files c = None \<and> c \<noteq> path)"

lemma os_create_temp_Inr:
  "os_create_temp os dir pattern w = (Inr c, w') \<Longrightarrow>
     fwFiles w' = (fwFiles w)(c \<mapsto> '''') \<and> osCreateTemp os (fwClock w) dir pattern (fwFiles w) = Inr c"
  by (auto simp: os_create_temp_def split: sum.splits)

lemma os_remove_files:
  "fwFiles (os_remove os c w) = (if osRemove os (fwClock w) c = None then (fwFiles w)(c := None) else fwFiles w)"
  by (simp add: os_remove_def split: option.split)

lemma check_drift_Inr:
  "check_drift os path source w = (Inr (), w') \<longleftrightarrow>
     osReadFile os (fwClock w) path = None \<and> fwFiles w path = Some source \<and> w' = later w"
  by (auto simp: check_drift_def os_read_def split: option.splits)

lemma WriteFile_outcome:
  assumes "fresh_candidates os path" and "verifier_reads options"
    and "WriteFile os parse_file ctx path source options w = (result, w')"
  shows "if result = None \<and> \<not> woCheck options
    then fwFiles w' = (fwFiles w)(path \<mapsto> source)
      \<and> (\<exists>v c w1 w2. woVerify options = Some v \<and> fwFiles w1 c = Some source \<and> v ctx c w1 = (None, w2))
    else (fwFiles w' = fwFiles w
          \<or> \<not> woCheck options \<and> (\<exists>c x n. c \<noteq> path \<and> fwFiles w c = None \<and> osRemove os n c \<noteq> None
              \<and> fwFiles w' = (fwFiles w)(c := x)))
      \<and> (result = None \<longrightarrow> fwFiles w path = Some source)"
proof (cases "ctx = None \<or> (\<exists>e w1. context_step ctx w = (Inl e, w1)) \<or> parse_file path source \<noteq> None
    \<or> woCheck options \<or> woVerify options = None
    \<or> (\<exists>w1 e w2. context_step ctx w = (Inr (), w1) \<and> os_create_temp os (osDir os path) ''.godj-generated-*'' w1 = (Inl e, w2))")
  case True
  have "fwFiles w' = fwFiles w \<and> (result = None \<longrightarrow> woCheck options \<and> fwFiles w path = Some source)"
  proof (cases "context_step ctx w")
    case (Pair r w1)
    then have w1: "fwFiles w1 = fwFiles w" by (rule touchesD_nothing[OF touches_nothing_context])
    show ?thesis
    proof (cases "check_drift os path source w1")
      case d: (Pair r' w2)
      then have "fwFiles w2 = fwFiles w1" by (rule touchesD_nothing[OF touches_nothing_drift])
      moreover have "os_create_temp os dir pattern w1 = (Inl e, w3) \<Longrightarrow> fwFiles w3 = fwFiles w1" for dir pattern e w3
        by (auto simp: os_create_temp_def split: sum.splits)
      ultimately show ?thesis
        using True assms(3) Pair d w1 check_drift_Inr[of os path source w1 w2]
        by (auto simp: WriteFile_def split: if_splits option.splits sum.splits prod.splits)
    qed
  qed
  then show ?thesis by auto
next
  case False
  obtain r w1 where r: "context_step ctx w = (r, w1)" by (cases "context_step ctx w")
  with False have w1: "context_step ctx w = (Inr (), w1)" by (cases r) auto
  obtain q w2 where q: "os_create_temp os (osDir os path) ''.godj-generated-*'' w1 = (q, w2)"
    by (cases "os_create_temp os (osDir os path) ''.godj-generated-*'' w1")
  with False w1 obtain c where c: "os_create_temp os (osDir os path) ''.godj-generated-*'' w1 = (Inr c, w2)"
    by (cases q) auto
  from False obtain v where v: "woVerify options = Some v" by auto
  note f = os_create_temp_Inr[OF c]
  have fresh: "fwFiles w1 c = None" "c \<noteq> path" using f assms(1) unfolding fresh_candidates_def by blast+
  have files: "fwFiles w1 = fwFiles w" "fwFiles w2 = (fwFiles w)(c \<mapsto> '''')" "fwFiles w c = None" "c \<noteq> path"
    using touchesD_nothing[OF touches_nothing_context w1] f fresh by simp_all
  show ?thesis
  proof (cases "write_candidate os ctx path source options c w2")
    case (Pair r w3)
    show ?thesis
    proof (cases r)
      case (Inl e)
      then obtain x where x: "fwFiles w3 = (fwFiles w)(c := x)"
        using write_candidate_fails[OF assms(2) _ Pair[unfolded Inl]] v files(2) by auto
      have res: "result = Some e" and w': "w' = os_remove os c (deferred_close w3)"
        using assms(3) False w1 c Pair Inl by (auto simp: WriteFile_def)
      show ?thesis
      proof (cases "osRemove os (fwClock (deferred_close w3)) c")
        case None
        then have "fwFiles w' = fwFiles w"
          using x files(3) by (simp add: w' os_remove_files deferred_close_def fun_upd_idem)
        then show ?thesis using res by simp
      next
        case (Some err)
        then have "c \<noteq> path \<and> fwFiles w c = None \<and> osRemove os (fwClock (deferred_close w3)) c \<noteq> None
            \<and> fwFiles w' = (fwFiles w)(c := x)"
          using x files(3,4) by (simp add: w' os_remove_files) (simp add: deferred_close_def)
        moreover have "\<not> woCheck options" using False by simp
        ultimately show ?thesis unfolding res by (simp only: option.distinct simp_thms if_False) blast
      qed
    next
      case (Inr u)
      have ran: "write_candidate os ctx path source options c w2 = (Inr (), w3)" using Pair Inr by simp
      have res: "result = None" and w': "fwFiles w' = fwFiles w3"
        using assms(3) False w1 c Pair Inr by (auto simp: WriteFile_def deferred_close_def)
      have "fwFiles w3 = (fwFiles w)(path \<mapsto> source)"
        using write_candidate_succeeds(1)[OF assms(2) v ran] files(2-4) by (simp add: fun_upd_idem)
      moreover have "\<not> woCheck options" using False by simp
      ultimately show ?thesis using v write_candidate_succeeds(2)[OF assms(2) v ran] by (simp add: res w') blast
    qed
  qed
qed

lemma WriteFile_leaves:
  assumes "fresh_candidates os path" and "verifier_reads options"
    and "WriteFile os parse_file ctx path source options w = (None, w')" and "woCheck options"
  shows "fwFiles w path = Some source \<and> fwFiles w' = fwFiles w"
  using WriteFile_outcome[OF assms(1-3)] assms(4) by simp

text \<open>
  C33: \<open>WriteFile\<close> replaces its target by the source or leaves it alone. It succeeds in a write only
  after the verifier accepted a candidate with exactly that source, and then the target is the one
  file that changed; a failed write and a check change no file, but for a candidate that could not
  be removed; and a check succeeds only on a target that is the source.
\<close>

theorem WriteFile_replaces_or_leaves:
  assumes "fresh_candidates os path" and "verifier_reads options"
    and "WriteFile os parse_file ctx path source options w = (result, w')"
  shows "if result = None \<and> \<not> woCheck options
    then fwFiles w' = (fwFiles w)(path \<mapsto> source)
      \<and> (\<exists>v c w1 w2. woVerify options = Some v \<and> fwFiles w1 c = Some source \<and> v ctx c w1 = (None, w2))
    else (fwFiles w' = fwFiles w
          \<or> \<not> woCheck options \<and> (\<exists>c x n. c \<noteq> path \<and> fwFiles w c = None \<and> osRemove os n c \<noteq> None
              \<and> fwFiles w' = (fwFiles w)(c := x)))
      \<and> (result = None \<longrightarrow> fwFiles w path = Some source)"
  by (rule WriteFile_outcome[OF assms])

theorem WriteFile_replaces_or_leaves_witness:
  defines "os \<equiv> \<lparr>osDir = (\<lambda>_. ''models''), osReadFile = (\<lambda>_ _. None),
      osCreateTemp = (\<lambda>_ _ _ files. if files ''c'' = None then Inr ''c'' else Inl ContextCanceled),
      osChmod = (\<lambda>_ _. None), osWrite = (\<lambda>_ _. None), osWritten = (\<lambda>_ _. 0), osSync = (\<lambda>_ _. None),
      osClose = (\<lambda>_ _. None), osRename = (\<lambda>_ _ _. None), osRemove = (\<lambda>_ _. None),
      osNotExist = (\<lambda>p. ErrNew p), osErrorText = (\<lambda>_. '''')\<rparr>"
    and "options \<equiv> \<lparr>woCheck = False, woVerify = Some (\<lambda>_ c w. (if fwFiles w c = Some ''package m'' then None
      else Some ContextCanceled, later w))\<rparr>"
  shows "fwFiles (snd (WriteFile os (\<lambda>_ _. None) (Some (\<lambda>_. None)) ''t'' ''package m'' options
      \<lparr>fwFiles = (\<lambda>_. None), fwClock = 0\<rparr>)) = [''t'' \<mapsto> ''package m'']"
proof -
  let ?run = "WriteFile os (\<lambda>_ _. None) (Some (\<lambda>_. None)) ''t'' ''package m'' options \<lparr>fwFiles = (\<lambda>_. None), fwClock = 0\<rparr>"
  have ok: "fresh_candidates os ''t''" "verifier_reads options"
    by (auto simp: fresh_candidates_def verifier_reads_def os_def options_def split: if_splits)
  obtain r w' where run: "?run = (r, w')" by fastforce
  have "fst ?run = None"
    by (simp add: WriteFile_def os_def options_def context_step_def call_step_def os_create_temp_def
        write_candidate_def and_then_def os_write_def verify_step_def os_rename_def later_def)
  with run have "r = None" by simp
  moreover have "\<not> woCheck options" by (simp add: options_def)
  ultimately show ?thesis
    using WriteFile_replaces_or_leaves[OF ok run] by (simp add: run)
qed

section \<open>The command that generates the example\<close>

definition withoutGoWork :: "string list \<Rightarrow> string list" where
  "withoutGoWork environment = filter (\<lambda>entry. \<not> has_prefix entry ''GOWORK='') environment @ [''GOWORK=off'']"

lemma withoutGoWork_off: "filter (\<lambda>entry. has_prefix entry ''GOWORK='') (withoutGoWork environment) = [''GOWORK=off'']"
  by (simp add: withoutGoWork_def has_prefix_def)

text \<open>
  \<open>run\<close> of \<open>m1generate\<close>. The flag package, the lookup of the source file, the joining of paths and
  the compilation of a candidate are parameters.
\<close>

record m1_environment =
  meParseFlags :: "string list \<Rightarrow> go_error + bool \<times> string list"
  meCaller :: "string option"
  meTarget :: "string \<Rightarrow> string"
  meVerify :: "string \<Rightarrow> file_context \<Rightarrow> string \<Rightarrow> file_world \<Rightarrow> go_error option \<times> file_world"
  meMarshal :: "ir_schema \<Rightarrow> go_error + string"
  meSha256 :: "string \<Rightarrow> string"
  meFormat :: "string \<Rightarrow> go_error + string"
  meParseFile :: "string \<Rightarrow> string \<Rightarrow> go_error option"

definition m1generate_run :: "unicode_tables \<Rightarrow> os_calls \<Rightarrow> m1_environment \<Rightarrow> file_context \<Rightarrow> string list
    \<Rightarrow> file_world \<Rightarrow> go_error option \<times> file_world" where
  "m1generate_run uc os env ctx arguments w =
     (case meParseFlags env arguments of
        Inl err \<Rightarrow> (Some err, w)
      | Inr (check, rest) \<Rightarrow>
        if rest \<noteq> []
        then (Some (ErrFmt ''unexpected positional arguments: %v'' [FStr (''['' @ join_strings '' '' rest @ '']'')]), w)
        else
        (case article_Schema uc of
           Inl err \<Rightarrow> (Some err, w)
         | Inr schema \<Rightarrow>
           (case Generate uc (meMarshal env) (meSha256 env) (meFormat env) ''models'' schema of
              Inl err \<Rightarrow> (Some err, w)
            | Inr source \<Rightarrow>
              (case meCaller env of
                 None \<Rightarrow> (Some (ErrNew ''resolve generator source path''), w)
               | Some currentFile \<Rightarrow>
                 (let target = meTarget env currentFile in
                  WriteFile os (meParseFile env) ctx target source
                    \<lparr>woCheck = check, woVerify = (if check then None else Some (meVerify env target))\<rparr> w)))))"

text \<open>
  C34: When the command runs in check mode and succeeds, the committed file is, byte for byte, what
  the generator makes of the metadata the generated package carries, and nothing was written; so
  the definition, the generator and the committed package cannot drift apart unnoticed.
\<close>

theorem m1generate_check_sees_drift:
  assumes "ascii_agrees uc" and "fresh_candidates os (meTarget env currentFile)"
    and "meParseFlags env arguments = Inr (True, [])" and "meCaller env = Some currentFile"
    and "m1generate_run uc os env ctx arguments w = (None, w')"
  shows "\<exists>source. Generate uc (meMarshal env) (meSha256 env) (meFormat env) ''models'' article_schema = Inr source
    \<and> fwFiles w (meTarget env currentFile) = Some source \<and> fwFiles w' = fwFiles w"
proof -
  have "article_Schema uc = Inr article_schema"
    using article_definition_builds[OF assms(1)] by (simp add: article_schema_def)
  with assms obtain source where
    g: "Generate uc (meMarshal env) (meSha256 env) (meFormat env) ''models'' article_schema = Inr source"
    and r: "WriteFile os (meParseFile env) ctx (meTarget env currentFile) source \<lparr>woCheck = True, woVerify = None\<rparr> w = (None, w')"
    by (auto simp: m1generate_run_def Let_def split: sum.splits)
  from WriteFile_leaves[OF assms(2) _ r]
  show ?thesis using g by (simp add: verifier_reads_def)
qed

theorem m1generate_check_sees_drift_witness:
  defines "os \<equiv> \<lparr>osDir = id, osReadFile = (\<lambda>_ _. None), osCreateTemp = (\<lambda>_ _ _ _. Inl ContextCanceled),
      osChmod = (\<lambda>_ _. None), osWrite = (\<lambda>_ _. None), osWritten = (\<lambda>_ _. 0), osSync = (\<lambda>_ _. None),
      osClose = (\<lambda>_ _. None), osRename = (\<lambda>_ _ _. None), osRemove = (\<lambda>_ _. None),
      osNotExist = (\<lambda>p. ErrNew p), osErrorText = (\<lambda>_. '''')\<rparr>"
    and "env \<equiv> \<lparr>meParseFlags = (\<lambda>args. Inr (args = [''-check''], [])), meCaller = Some ''main.go'', meTarget = (\<lambda>_. ''models.go''),
      meVerify = (\<lambda>_ _ _ w. (None, w)), meMarshal = (\<lambda>_. Inr ''json''), meSha256 = (\<lambda>_. ''digest''),
      meFormat = (\<lambda>_. Inr ''package models''), meParseFile = (\<lambda>_ _. None)\<rparr>"
  shows "\<exists>source. Generate ascii_tables (meMarshal env) (meSha256 env) (meFormat env) ''models'' article_schema = Inr source
    \<and> [''models.go'' \<mapsto> ''package models''] ''models.go'' = Some source"
proof -
  let ?w = "\<lparr>fwFiles = [''models.go'' \<mapsto> ''package models''], fwClock = 0\<rparr>"
  have "article_Schema ascii_tables = Inr article_schema"
    using article_definition_builds[OF ascii_agrees_ascii] by (simp add: article_schema_def)
  moreover have "Generate ascii_tables (meMarshal env) (meSha256 env) (meFormat env) ''models'' article_schema
      = Inr ''package models''"
    by (simp add: Generate_def article_schema_normalized article_names Hash_def CanonicalJSON_def env_def is_go_identifier_def
        is_keyword_def go_keywords_def runes_ascii byte_def) (simp add: ascii_tables_def)
  ultimately have run: "m1generate_run ascii_tables os env (Some (\<lambda>_. None)) [''-check''] ?w = (None, later (later ?w))"
    by (simp add: m1generate_run_def env_def os_def WriteFile_def context_step_def call_step_def check_drift_def
        os_read_def later_def)
  have ok: "fresh_candidates os (meTarget env ''main.go'')" by (simp add: fresh_candidates_def os_def)
  have flags: "meParseFlags env [''-check''] = Inr (True, [])" "meCaller env = Some ''main.go''"
    by (simp_all add: env_def)
  from m1generate_check_sees_drift[OF ascii_agrees_ascii ok flags run] show ?thesis by (simp add: env_def)
qed

end
