(* ===== verification/Protocol_Value.thy ===== *)
theory Protocol_Value
  imports Go_Std Go_Errors
begin

text \<open>
  Package \<open>conformance/internal/protocol\<close>, \<open>value.go\<close>: the typed values of normalized
  observations, their constructors and their validation. A value is the Go struct: one tag and the
  storage of every kind, where a pointer or a slice that is nil is \<open>None\<close>. \<open>time.Parse\<close> is a
  parameter; the standard base64 encoding is spelled out.
\<close>

section \<open>Base64\<close>

definition base64_char :: "nat \<Rightarrow> char" where
  "base64_char n =
     char_of (if n < 26 then 65 + n else if n < 52 then 71 + n else if n < 62 then n - 4
              else if n = 62 then 43 else 47)"

definition base64_sextet :: "char \<Rightarrow> nat option" where
  "base64_sextet c =
     (let b = byte c in
      if 65 \<le> b \<and> b \<le> 90 then Some (b - 65)
      else if 97 \<le> b \<and> b \<le> 122 then Some (b - 71)
      else if 48 \<le> b \<and> b \<le> 57 then Some (b + 4)
      else if b = 43 then Some 62 else if b = 47 then Some 63 else None)"

definition pad_char :: char where
  "pad_char = CHR ''=''"

definition line_break :: "char \<Rightarrow> bool" where
  "line_break c \<longleftrightarrow> byte c = 10 \<or> byte c = 13"

text \<open>\<open>base64.StdEncoding.EncodeToString\<close>.\<close>

fun base64_encode :: "nat list \<Rightarrow> string" where
  "base64_encode (a # b # c # bs) =
     map base64_char [a div 4, a mod 4 * 16 + b div 16, b mod 16 * 4 + c div 64, c mod 64] @ base64_encode bs"
| "base64_encode [a, b] =
     map base64_char [a div 4, a mod 4 * 16 + b div 16, b mod 16 * 4] @ [pad_char]"
| "base64_encode [a] = map base64_char [a div 4, a mod 4 * 16] @ [pad_char, pad_char]"
| "base64_encode [] = ''''"

text \<open>
  \<open>base64.StdEncoding.DecodeString\<close>: four characters at a time, line breaks skipped, padding only
  at the end. An error is the offset of a \<open>CorruptInputError\<close>.
\<close>

fun skip_line_breaks :: "nat \<Rightarrow> string \<Rightarrow> nat \<times> string" where
  "skip_line_breaks n [] = (n, [])"
| "skip_line_breaks n (c # cs) = (if line_break c then skip_line_breaks (Suc n) cs else (n, c # cs))"

definition base64_end :: "nat list \<Rightarrow> nat \<Rightarrow> string \<Rightarrow> nat + nat list \<times> nat \<times> string" where
  "base64_end sextets n s =
     (case skip_line_breaks n s of
        (m, []) \<Rightarrow> Inr (sextets, m, [])
      | (m, _ # _) \<Rightarrow> Inl m)"

fun base64_quantum :: "nat \<Rightarrow> nat list \<Rightarrow> string \<Rightarrow> nat + nat list \<times> nat \<times> string" where
  "base64_quantum n sextets [] = (if sextets = [] then Inr ([], n, []) else Inl (n - length sextets))"
| "base64_quantum n sextets (c # cs) =
     (case base64_sextet c of
        Some d \<Rightarrow>
          if length sextets = 3 then Inr (sextets @ [d], Suc n, cs)
          else base64_quantum (Suc n) (sextets @ [d]) cs
      | None \<Rightarrow>
          if line_break c then base64_quantum (Suc n) sextets cs
          else if c \<noteq> pad_char \<or> length sextets < 2 then Inl n
          else if length sextets = 2
          then (case skip_line_breaks (Suc n) cs of
                  (m, []) \<Rightarrow> Inl m
                | (m, c' # cs') \<Rightarrow> if c' \<noteq> pad_char then Inl (m - 1) else base64_end sextets (Suc m) cs')
          else base64_end sextets (Suc n) cs)"

fun sextet_bytes :: "nat list \<Rightarrow> nat list" where
  "sextet_bytes [d0, d1, d2, d3] = [d0 * 4 + d1 div 16, d1 mod 16 * 16 + d2 div 4, d2 mod 4 * 64 + d3]"
| "sextet_bytes [d0, d1, d2] = [d0 * 4 + d1 div 16, d1 mod 16 * 16 + d2 div 4]"
| "sextet_bytes [d0, d1] = [d0 * 4 + d1 div 16]"
| "sextet_bytes _ = []"

lemma skip_line_breaks_length: "skip_line_breaks n s = (m, t) \<Longrightarrow> length t \<le> length s"
  by (induction n s arbitrary: m t rule: skip_line_breaks.induct) (fastforce split: if_splits)+

lemma base64_end_rest: "base64_end sextets n s = Inr (ds, m, t) \<Longrightarrow> t = []"
  by (auto simp: base64_end_def split: prod.splits list.splits)

lemma base64_quantum_shorter:
  "base64_quantum n sextets s = Inr (ds, m, t) \<Longrightarrow> s \<noteq> [] \<Longrightarrow> length t < length s"
proof (induction n sextets s rule: base64_quantum.induct)
  case (2 n sextets c cs)
  show ?case
  proof (cases "cs = [] \<or> t = []")
    case True
    with "2.prems" show ?thesis
      by (auto split: option.splits if_splits prod.splits list.splits dest: base64_end_rest)
  next
    case False
    with 2 show ?thesis
      by (fastforce split: option.splits if_splits prod.splits list.splits dest: base64_end_rest)
  qed
qed simp

function base64_decode :: "nat \<Rightarrow> string \<Rightarrow> nat + nat list" where
  "base64_decode n s =
     (if s = [] then Inr []
      else (case base64_quantum n [] s of
              Inl offset \<Rightarrow> Inl offset
            | Inr (sextets, m, rest) \<Rightarrow>
                (case base64_decode m rest of Inl offset \<Rightarrow> Inl offset | Inr bs \<Rightarrow> Inr (sextet_bytes sextets @ bs))))"
  by pat_completeness auto
termination
  by (relation "measure (\<lambda>(n, s). length s)") (auto dest: base64_quantum_shorter)

declare base64_decode.simps [simp del]

section \<open>Values\<close>

datatype wire_type =
    ValueNull | ValueBool | ValueInt | ValueString | ValueDecimal | ValueDatetime | ValueUUID
  | ValueBytes | ValuePK | ValueList | ValueObject | ValueOther string

fun wire_type_string :: "wire_type \<Rightarrow> string" where
  "wire_type_string ValueNull = ''null''"
| "wire_type_string ValueBool = ''bool''"
| "wire_type_string ValueInt = ''int''"
| "wire_type_string ValueString = ''string''"
| "wire_type_string ValueDecimal = ''decimal''"
| "wire_type_string ValueDatetime = ''datetime''"
| "wire_type_string ValueUUID = ''uuid''"
| "wire_type_string ValueBytes = ''bytes''"
| "wire_type_string ValuePK = ''pk''"
| "wire_type_string ValueList = ''list''"
| "wire_type_string ValueObject = ''object''"
| "wire_type_string (ValueOther s) = s"

datatype pvalue = PValue (pvType: wire_type) (pvBool: "bool option") (pvText: "string option")
  (pvEncoding: string) (pvNested: "pvalue option") (pvItems: "pvalue list option")
  (pvFields: "(string \<times> pvalue) list option")

definition Null_value :: pvalue where
  "Null_value = PValue ValueNull None None '''' None None None"

definition Boolean_value :: "bool \<Rightarrow> pvalue" where
  "Boolean_value v = PValue ValueBool (Some v) None '''' None None None"

definition Integer_value :: "string \<Rightarrow> pvalue" where
  "Integer_value v = PValue ValueInt None (Some v) '''' None None None"

definition String_value :: "string \<Rightarrow> pvalue" where
  "String_value v = PValue ValueString None (Some v) '''' None None None"

definition Decimal :: "string \<Rightarrow> pvalue" where
  "Decimal v = PValue ValueDecimal None (Some v) '''' None None None"

definition Datetime :: "string \<Rightarrow> pvalue" where
  "Datetime v = PValue ValueDatetime None (Some v) '''' None None None"

definition UUID :: "string \<Rightarrow> pvalue" where
  "UUID v = PValue ValueUUID None (Some v) '''' None None None"

definition Bytes :: "nat list \<Rightarrow> pvalue" where
  "Bytes v = PValue ValueBytes None (Some (base64_encode v)) ''base64'' None None None"

definition PrimaryKey :: "pvalue \<Rightarrow> pvalue" where
  "PrimaryKey v = PValue ValuePK None None '''' (Some v) None None"

definition List_value :: "pvalue list \<Rightarrow> pvalue" where
  "List_value items = PValue ValueList None None '''' None (Some items) None"

text \<open>\<open>Object\<close> of a Go map, given as the association list of its distinct keys.\<close>

definition Object :: "(string \<times> pvalue) list \<Rightarrow> pvalue" where
  "Object flds =
     (let names = sort (map fst flds) in
      PValue ValueObject None None '''' None None (Some (map (\<lambda>name. (name, the (map_of flds name))) names)))"

section \<open>The canonical scalars\<close>

definition digit :: "char \<Rightarrow> bool" where
  "digit c \<longleftrightarrow> 48 \<le> byte c \<and> byte c \<le> 57"

definition strip_minus :: "string \<Rightarrow> string" where
  "strip_minus s = (case s of c # cs \<Rightarrow> if c = CHR ''-'' then cs else s | [] \<Rightarrow> [])"

definition canonical_natural :: "string \<Rightarrow> bool" where
  "canonical_natural s \<longleftrightarrow> s = ''0'' \<or> s \<noteq> '''' \<and> hd s \<noteq> CHR ''0'' \<and> list_all digit s"

definition canonicalInteger :: "string \<Rightarrow> bool" where
  "canonicalInteger s \<longleftrightarrow> canonical_natural (strip_minus s)"

definition canonicalDecimal :: "string \<Rightarrow> bool" where
  "canonicalDecimal s \<longleftrightarrow>
     (let t = strip_minus s; fraction = dropWhile digit t in
      canonical_natural (takeWhile digit t)
      \<and> (fraction = '''' \<or> hd fraction = CHR ''.'' \<and> tl fraction \<noteq> '''' \<and> list_all digit (tl fraction)))"

definition hex_char :: "char \<Rightarrow> bool" where
  "hex_char c \<longleftrightarrow> digit c \<or> 97 \<le> byte c \<and> byte c \<le> 102"

definition canonicalUUID :: "string \<Rightarrow> bool" where
  "canonicalUUID s \<longleftrightarrow> length s = 36
     \<and> list_all (\<lambda>i. if i \<in> {8, 13, 18, 23} then s ! i = CHR ''-'' else hex_char (s ! i)) [0..<36]"

section \<open>Validation\<close>

definition validateUnused :: "pvalue \<Rightarrow> wire_type \<Rightarrow> bool \<Rightarrow> bool \<Rightarrow> bool \<Rightarrow> bool \<Rightarrow> bool \<Rightarrow> go_error option" where
  "validateUnused v kind allowBool allowText allowEncoding allowNested allowItems =
     (let refuse = (\<lambda>message. Some (ErrFmt message [FStr (wire_type_string kind)])) in
      if \<not> allowBool \<and> pvBool v \<noteq> None then refuse ''%s cannot contain bool storage''
      else if \<not> allowText \<and> pvText v \<noteq> None then refuse ''%s cannot contain text storage''
      else if \<not> allowEncoding \<and> pvEncoding v \<noteq> '''' then refuse ''%s cannot contain encoding''
      else if \<not> allowNested \<and> pvNested v \<noteq> None then refuse ''%s cannot contain nested value''
      else if \<not> allowItems \<and> pvItems v \<noteq> None then refuse ''%s cannot contain items''
      else if kind \<noteq> ValueObject \<and> pvFields v \<noteq> None then refuse ''%s cannot contain fields''
      else None)"

definition isNonNullScalar :: "pvalue \<Rightarrow> bool" where
  "isNonNullScalar v \<longleftrightarrow>
     pvType v \<in> {ValueBool, ValueInt, ValueString, ValueDecimal, ValueDatetime, ValueUUID, ValueBytes}"

text \<open>The closure \<open>scalarText\<close>: the text of a scalar, checked by \<open>validate\<close>.\<close>

definition scalarText :: "pvalue \<Rightarrow> wire_type \<Rightarrow> (string \<Rightarrow> go_error option) \<Rightarrow> go_error option" where
  "scalarText v kind validate =
     (case pvText v of
        None \<Rightarrow> Some (ErrFmt ''%s value is missing'' [FStr (wire_type_string kind)])
      | Some txt \<Rightarrow>
        (case validate txt of
           Some err \<Rightarrow> Some err
         | None \<Rightarrow> validateUnused v kind False True False False False))"

definition check_text :: "(string \<Rightarrow> bool) \<Rightarrow> string \<Rightarrow> string \<Rightarrow> go_error option" where
  "check_text ok message txt = (if ok txt then None else Some (ErrFmt message [FStr txt]))"

definition validate_bytes :: "pvalue \<Rightarrow> go_error option" where
  "validate_bytes v =
     (if pvEncoding v \<noteq> ''base64'' then Some (ErrNew ''bytes encoding must be base64'')
      else
      (case pvText v of
         None \<Rightarrow> Some (ErrNew ''bytes value is missing'')
       | Some txt \<Rightarrow>
         (case base64_decode 0 txt of
            Inl offset \<Rightarrow> Some (ErrWrap ''bytes value is not base64: %w'' []
              (ErrFmt ''illegal base64 data at input byte %d'' [FInt (int offset)]))
          | Inr decoded \<Rightarrow>
              if base64_encode decoded \<noteq> txt
              then Some (ErrNew ''bytes value is not canonical padded base64'')
              else validateUnused v ValueBytes False True True False False)))"

text \<open>The checks of a value that do not look into the values it contains.\<close>

definition validate_scalar :: "(string \<Rightarrow> go_error option) \<Rightarrow> pvalue \<Rightarrow> go_error option" where
  "validate_scalar parse_time v =
     (case pvType v of
        ValueNull \<Rightarrow> validateUnused v ValueNull False False False False False
      | ValueBool \<Rightarrow>
          if pvBool v = None then Some (ErrNew ''bool value is missing'')
          else validateUnused v ValueBool True False False False False
      | ValueInt \<Rightarrow> scalarText v ValueInt
          (check_text (\<lambda>txt. canonicalInteger txt \<and> txt \<noteq> ''-0'') ''int value %q is not canonical base-10'')
      | ValueString \<Rightarrow> scalarText v ValueString (\<lambda>_. None)
      | ValueDecimal \<Rightarrow> scalarText v ValueDecimal
          (check_text canonicalDecimal ''decimal value %q is not canonical base-10'')
      | ValueDatetime \<Rightarrow> scalarText v ValueDatetime
          (\<lambda>txt. map_option (ErrWrap ''datetime value %q must be RFC3339 with an offset: %w'' [FStr txt])
             (parse_time txt))
      | ValueUUID \<Rightarrow> scalarText v ValueUUID
          (check_text canonicalUUID ''uuid value %q is not canonical lowercase UUID text'')
      | ValueBytes \<Rightarrow> validate_bytes v
      | _ \<Rightarrow> Some (ErrFmt ''unknown value type %q'' [FStr (wire_type_string (pvType v))]))"

text \<open>
  \<open>Validate\<close>, with its loops over the items of a list and the fields of an object. \<open>previous\<close> is
  the name of the field before, if there is one.
\<close>

fun Validate :: "(string \<Rightarrow> go_error option) \<Rightarrow> pvalue \<Rightarrow> go_error option"
and validate_items :: "(string \<Rightarrow> go_error option) \<Rightarrow> nat \<Rightarrow> pvalue list \<Rightarrow> go_error option"
and validate_fields :: "(string \<Rightarrow> go_error option) \<Rightarrow> nat \<Rightarrow> string \<Rightarrow> (string \<times> pvalue) list \<Rightarrow> go_error option" where
  "Validate pt (PValue t b x e n is fs) =
     (case t of
        ValuePK \<Rightarrow>
          (case n of
             None \<Rightarrow> Some (ErrNew ''pk value is missing'')
           | Some nested \<Rightarrow>
             (case validateUnused (PValue t b x e n is fs) ValuePK False False False True False of
                Some err \<Rightarrow> Some err
              | None \<Rightarrow>
                  if \<not> isNonNullScalar nested
                  then Some (ErrNew ''pk must contain one non-null scalar value'')
                  else map_option (ErrWrap ''pk value: %w'' []) (Validate pt nested)))
      | ValueList \<Rightarrow>
          (case is of
             None \<Rightarrow> Some (ErrNew ''list items are missing'')
           | Some items \<Rightarrow>
             (case validateUnused (PValue t b x e n is fs) ValueList False False False False True of
                Some err \<Rightarrow> Some err
              | None \<Rightarrow> validate_items pt 0 items))
      | ValueObject \<Rightarrow>
          (case fs of
             None \<Rightarrow> Some (ErrNew ''object fields are missing'')
           | Some flds \<Rightarrow>
             (case validateUnused (PValue t b x e n is fs) ValueObject False False False False False of
                Some err \<Rightarrow> Some err
              | None \<Rightarrow> validate_fields pt 0 '''' flds))
      | _ \<Rightarrow> validate_scalar pt (PValue t b x e n is fs))"
| "validate_items pt index [] = None"
| "validate_items pt index (item # items) =
     (case Validate pt item of
        Some err \<Rightarrow> Some (ErrWrap ''list item %d: %w'' [FInt (int index)] err)
      | None \<Rightarrow> validate_items pt (Suc index) items)"
| "validate_fields pt index previous [] = None"
| "validate_fields pt index previous ((name, v) # flds) =
     (if name = '''' then Some (ErrFmt ''object field %d has an empty name'' [FInt (int index)])
      else if index > 0 \<and> name \<le> previous
      then Some (ErrFmt ''object fields must be sorted and unique: %q follows %q'' [FStr name, FStr previous])
      else
      (case Validate pt v of
         Some err \<Rightarrow> Some (ErrWrap ''object field %q: %w'' [FStr name] err)
       | None \<Rightarrow> validate_fields pt (Suc index) name flds))"

section \<open>Base64 round trips\<close>

lemma base64_sextet_char [simp]: "n < 64 \<Longrightarrow> base64_sextet (base64_char n) = Some n"
  by (auto simp: base64_sextet_def base64_char_def byte_def Let_def)

lemma base64_pad [simp]: "base64_sextet pad_char = None" "\<not> line_break pad_char"
  by (simp_all add: base64_sextet_def pad_char_def byte_def line_break_def)

lemma base64_decode_step:
  "base64_quantum n [] s = Inr (ds, m, t) \<Longrightarrow> s \<noteq> [] \<Longrightarrow>
     base64_decode n s = map_sum id (\<lambda>bs. sextet_bytes ds @ bs) (base64_decode m t)"
  by (subst base64_decode.simps) (simp split: sum.split)

lemma base64_decode_Nil [simp]: "base64_decode n [] = Inr []"
  by (subst base64_decode.simps) simp

lemma high_bits: "b < 256 \<Longrightarrow> b div 16 < (16::nat)" "c < 256 \<Longrightarrow> c div 64 < (4::nat)"
  by linarith+

lemma base64_decode_encode:
  "\<forall>b \<in> set bs. b < 256 \<Longrightarrow> base64_decode n (base64_encode bs) = Inr bs"
proof (induction bs arbitrary: n rule: base64_encode.induct)
  case (1 a b c bs)
  have lt: "a div 4 < 64" "a mod 4 * 16 + b div 16 < 64" "b mod 16 * 4 + c div 64 < 64" "c mod 64 < 64"
    using "1.prems" by simp_all linarith+
  have q: "base64_quantum n [] (base64_encode (a # b # c # bs)) =
      Inr ([a div 4, a mod 4 * 16 + b div 16, b mod 16 * 4 + c div 64, c mod 64], n + 4, base64_encode bs)"
    using lt by simp
  have b: "sextet_bytes [a div 4, a mod 4 * 16 + b div 16, b mod 16 * 4 + c div 64, c mod 64] = [a, b, c]"
    using "1.prems" high_bits(1)[of b] high_bits(2)[of c] by simp
  have "base64_decode (n + 4) (base64_encode bs) = Inr bs" using 1 by simp
  then show ?case by (subst base64_decode_step[OF q]) (simp_all add: b del: sextet_bytes.simps)
next
  case (2 a b)
  have lt: "a div 4 < 64" "a mod 4 * 16 + b div 16 < 64" "b mod 16 * 4 < 64"
    using "2.prems" by simp_all linarith+
  have q: "base64_quantum n [] (base64_encode [a, b]) = Inr ([a div 4, a mod 4 * 16 + b div 16, b mod 16 * 4], n + 4, [])"
    using lt by (simp add: base64_end_def)
  have b: "sextet_bytes [a div 4, a mod 4 * 16 + b div 16, b mod 16 * 4] = [a, b]"
    using "2.prems" high_bits(1)[of b] by simp
  show ?case by (subst base64_decode_step[OF q]) (simp_all add: b del: sextet_bytes.simps)
next
  case (3 a)
  have lt: "a div 4 < 64" "a mod 4 * 16 < 64" using "3.prems" by auto
  have q: "base64_quantum n [] (base64_encode [a]) = Inr ([a div 4, a mod 4 * 16], n + 4, [])"
    using lt by (simp add: base64_end_def)
  have b: "sextet_bytes [a div 4, a mod 4 * 16] = [a]"
    by simp
  show ?case by (subst base64_decode_step[OF q]) (simp_all add: b del: sextet_bytes.simps)
qed simp

section \<open>What validation accepts\<close>

text \<open>
  The values the constructors build from canonical text, lists of them, and objects with distinct
  names in order.
\<close>

inductive canonical_value :: "(string \<Rightarrow> go_error option) \<Rightarrow> pvalue \<Rightarrow> bool" for pt where
  "canonical_value pt Null_value"
| "canonical_value pt (Boolean_value b)"
| "canonicalInteger s \<Longrightarrow> s \<noteq> ''-0'' \<Longrightarrow> canonical_value pt (Integer_value s)"
| "canonical_value pt (String_value s)"
| "canonicalDecimal s \<Longrightarrow> canonical_value pt (Decimal s)"
| "pt s = None \<Longrightarrow> canonical_value pt (Datetime s)"
| "canonicalUUID s \<Longrightarrow> canonical_value pt (UUID s)"
| "\<forall>b \<in> set bs. b < 256 \<Longrightarrow> canonical_value pt (Bytes bs)"
| "canonical_value pt v \<Longrightarrow> isNonNullScalar v \<Longrightarrow> canonical_value pt (PrimaryKey v)"
| "\<forall>v \<in> set items. canonical_value pt v \<Longrightarrow> canonical_value pt (List_value items)"
| "\<forall>(name, v) \<in> set flds. name \<noteq> '''' \<and> canonical_value pt v \<Longrightarrow> sorted_wrt (<) (map fst flds)
     \<Longrightarrow> canonical_value pt (PValue ValueObject None None '''' None None (Some flds))"

lemmas value_constructors = Null_value_def Boolean_value_def Integer_value_def String_value_def Decimal_def Datetime_def UUID_def
  Bytes_def PrimaryKey_def List_value_def

lemma validateUnused_None:
  "validateUnused v kind aB aT aE aN aI = None \<longleftrightarrow>
     (aB \<or> pvBool v = None) \<and> (aT \<or> pvText v = None) \<and> (aE \<or> pvEncoding v = '''') \<and> (aN \<or> pvNested v = None)
     \<and> (aI \<or> pvItems v = None) \<and> (kind = ValueObject \<or> pvFields v = None)"
  by (auto simp: validateUnused_def Let_def)

lemma scalarText_None:
  "scalarText v kind validate = None \<longleftrightarrow>
     (\<exists>txt. pvText v = Some txt \<and> validate txt = None) \<and> validateUnused v kind False True False False False = None"
  by (auto simp: scalarText_def split: option.splits)

lemma check_text_None [simp]: "check_text ok message txt = None \<longleftrightarrow> ok txt"
  by (simp add: check_text_def)

lemma validate_items_None: "validate_items pt i items = None \<longleftrightarrow> (\<forall>v \<in> set items. Validate pt v = None)"
  by (induction items arbitrary: i) (simp_all split: option.split)

lemma validate_fields_None:
  "validate_fields pt i previous flds = None \<longleftrightarrow>
     (\<forall>(name, v) \<in> set flds. name \<noteq> '''' \<and> Validate pt v = None) \<and> sorted_wrt (<) (map fst flds)
     \<and> (0 < i \<longrightarrow> (\<forall>name \<in> fst ` set flds. previous < name))"
proof (induction flds arbitrary: i previous)
  case (Cons f flds)
  obtain name v where f: "f = (name, v)" by fastforce
  show ?case
    by (cases "Validate pt v") (auto simp: f Cons.IH not_le dest: order.strict_trans)
qed simp

lemma base64_sextet_less: "base64_sextet c = Some d \<Longrightarrow> d < 64"
  by (auto simp: base64_sextet_def Let_def split: if_splits)

lemma base64_end_sextets: "base64_end ds n s = Inr (es, m, t) \<Longrightarrow> es = ds"
  by (auto simp: base64_end_def split: prod.splits list.splits)

lemma base64_quantum_sextets:
  "base64_quantum n ds s = Inr (es, m, t) \<Longrightarrow> \<forall>d \<in> set ds. d < 64 \<Longrightarrow> \<forall>d \<in> set es. d < 64"
proof (induction n ds s rule: base64_quantum.induct)
  case (2 n ds c cs)
  show ?case
  proof (cases "base64_sextet c")
    case (Some d)
    with 2 base64_sextet_less[OF Some] show ?thesis by (auto split: if_splits)
  next
    case None
    with 2 show ?thesis
      by (auto split: if_splits prod.splits list.splits dest!: base64_end_sextets)
  qed
qed (simp split: if_splits)

lemma sextet_bytes_less:
  assumes "\<forall>d \<in> set ds. d < 64" and "b \<in> set (sextet_bytes ds)"
  shows "b < 256"
proof -
  have "x * 4 + y div 16 < 256" "x mod 16 * 16 + y div 4 < 256" "x mod 4 * 64 + y < 256"
    if "x < 64" "y < 64" for x y :: nat
    using that mod_less_divisor[of 16 x] mod_less_divisor[of 4 x] by linarith+
  with assms show ?thesis by (cases ds rule: sextet_bytes.cases) auto
qed

lemma base64_decode_bytes: "base64_decode n s = Inr bs \<Longrightarrow> \<forall>b \<in> set bs. b < 256"
proof (induction n s arbitrary: bs rule: base64_decode.induct)
  case (1 n s)
  show ?case
  proof (cases "s = []")
    case True
    with 1 show ?thesis by simp
  next
    case False
    with "1.prems" obtain ds m t cs where q: "base64_quantum n [] s = Inr (ds, m, t)"
      and r: "base64_decode m t = Inr cs" and bs: "bs = sextet_bytes ds @ cs"
      by (subst (asm) base64_decode.simps) (auto split: sum.splits)
    have "\<forall>d \<in> set ds. d < 64" using base64_quantum_sextets[OF q] by simp
    then show ?thesis
      using sextet_bytes_less "1.IH"[OF False q refl refl r] by (auto simp: bs)
  qed
qed

lemma validate_bytes_None:
  "validate_bytes v = None \<longleftrightarrow> pvEncoding v = ''base64''
     \<and> (\<exists>bs. (\<forall>b \<in> set bs. b < 256) \<and> pvText v = Some (base64_encode bs))
     \<and> validateUnused v ValueBytes False True True False False = None"
proof -
  have "(\<exists>bs. (\<forall>b \<in> set bs. b < 256) \<and> s = base64_encode bs) \<longleftrightarrow>
      (\<exists>bs. base64_decode 0 s = Inr bs \<and> base64_encode bs = s)" for s
    using base64_decode_encode base64_decode_bytes by blast
  then show ?thesis
    by (auto simp: validate_bytes_def split: option.splits sum.splits)
qed

lemma unused_ok:
  "validateUnused (PValue ValuePK None None '''' n None None) ValuePK False False False True False = None"
  "validateUnused (PValue ValueList None None '''' None its None) ValueList False False False False True = None"
  "validateUnused (PValue ValueObject None None '''' None None fs) ValueObject False False False False False = None"
  by (simp_all add: validateUnused_None)

lemma canonical_validates: "canonical_value pt v \<Longrightarrow> Validate pt v = None"
proof (induction rule: canonical_value.induct)
  case (11 flds)
  have "\<forall>(name, v) \<in> set flds. name \<noteq> '''' \<and> Validate pt v = None" using 11(1) by auto
  then show ?case using 11(2) by (simp add: unused_ok validate_fields_None)
qed (auto simp: value_constructors validate_scalar_def validateUnused_None scalarText_None validate_bytes_None
    validate_items_None unused_ok)

lemma validates_canonical: "Validate pt v = None \<Longrightarrow> canonical_value pt v"
proof (induction v)
  case (PValue t b x e n its fs)
  show ?case
  proof (cases t)
    case ValueList
    with PValue.prems obtain items where i: "its = Some items" "\<forall>v \<in> set items. Validate pt v = None"
      "PValue t b x e n its fs = List_value items"
      by (auto simp: validateUnused_None validate_items_None List_value_def split: option.splits)
    with PValue.IH(2) have "\<forall>v \<in> set items. canonical_value pt v" by auto
    then show ?thesis unfolding i(3) by (rule canonical_value.intros)
  next
    case ValueObject
    with PValue.prems obtain flds where f: "fs = Some flds"
      "\<forall>(name, v) \<in> set flds. name \<noteq> '''' \<and> Validate pt v = None" "sorted_wrt (<) (map fst flds)"
      "PValue t b x e n its fs = PValue ValueObject None None '''' None None (Some flds)"
      by (auto simp: validateUnused_None validate_fields_None split: option.splits)
    with PValue.IH(3) have "\<forall>(name, v) \<in> set flds. name \<noteq> '''' \<and> canonical_value pt v" by fastforce
    then show ?thesis unfolding f(4) using f(3) by (rule canonical_value.intros)
  next
    case ValuePK
    with PValue.prems obtain v where v: "n = Some v" "isNonNullScalar v" "Validate pt v = None"
      "PValue t b x e n its fs = PrimaryKey v"
      by (auto simp: validateUnused_None PrimaryKey_def split: option.splits if_splits)
    with PValue.IH(1) have "canonical_value pt v" by auto
    then show ?thesis unfolding v(4) using v(2) by (rule canonical_value.intros)
  qed (use PValue.prems in \<open>auto simp: validate_scalar_def validateUnused_None scalarText_None validate_bytes_None
        value_constructors intro!: canonical_value.intros[unfolded value_constructors] split: if_splits\<close>)
qed

text \<open>
  C35: \<open>Validate\<close> accepts exactly the values the constructors build from canonical text (for
  bytes: from any bytes, through base64), lists of accepted values, and objects whose names are not
  empty and strictly ascending.
\<close>

theorem Validate_decides_canonical: "Validate parse_time v = None \<longleftrightarrow> canonical_value parse_time v"
  using canonical_validates validates_canonical by blast

text \<open>\<open>Object\<close> builds a valid object from every map of valid values with non-empty names.\<close>

lemma Object_valid:
  assumes "distinct (map fst flds)" and "\<forall>(name, v) \<in> set flds. name \<noteq> '''' \<and> canonical_value pt v"
  shows "canonical_value pt (Object flds)"
proof -
  have looked_up: "(name, the (map_of flds name)) \<in> set flds" if "name \<in> fst ` set flds" for name
    using that assms(1) by (auto simp: map_of_is_SomeI)
  have each: "name \<noteq> [] \<and> canonical_value pt (the (map_of flds name))" if "name \<in> fst ` set flds" for name
    using bspec[OF assms(2) looked_up[OF that]] by simp
  have "\<forall>(name, v) \<in> set (map (\<lambda>name. (name, the (map_of flds name))) (sort (map fst flds))). name \<noteq> '''' \<and> canonical_value pt v"
    using each by simp
  moreover have "sorted_wrt (<) (map fst (map (\<lambda>name. (name, the (map_of flds name))) (sort (map fst flds))))"
    using assms(1) by (simp add: comp_def strict_sorted_iff)
  ultimately show ?thesis
    unfolding Object_def Let_def by (rule canonical_value.intros)
qed

end
