(* ===== verification/Protocol_Suite.thy ===== *)
theory Protocol_Suite
  imports Protocol_Value
begin

text \<open>
  Package \<open>conformance/internal/protocol\<close>, \<open>types.go\<close> and \<open>validate.go\<close>: profiles, manifests of
  contracts, suites of observations and deviations, with their validation and the check of a suite
  against a locked profile and manifest. The regular expressions are spelled out as predicates.
\<close>

section \<open>Data\<close>

record profile_fingerprint =
  pfDjangoVersion :: string
  pfDjangoCommit :: string
  pfDjangoDistributionSHA256 :: string
  pfPythonImplementation :: string
  pfPythonVersion :: string
  pfSQLiteVersion :: string
  pfSQLiteSourceID :: string
  pfDatabaseEngine :: string
  pfUseTZ :: "bool option"
  pfTimezone :: string
  pfLanguageCode :: string
  pfLocale :: string
  pfPlatform :: string
  pfArchitecture :: string

record lock_metadata =
  lkFile :: string
  lkSHA256 :: string
  lkManager :: string
  lkManagerVersion :: string

record profile_snapshot =
  psID :: string
  psFingerprint :: profile_fingerprint
  psLock :: lock_metadata

record profile =
  prFormatVersion :: int
  prID :: string
  prFingerprint :: profile_fingerprint
  prLock :: lock_metadata

definition protocol_FormatVersion :: int where
  "protocol_FormatVersion = 2"

definition Snapshot :: "profile \<Rightarrow> profile_snapshot" where
  "Snapshot p = \<lparr>psID = prID p, psFingerprint = prFingerprint p, psLock = prLock p\<rparr>"

datatype phase =
    PhaseEnvironment | PhaseMetadata | PhaseConstruction | PhaseEvaluation | PhaseCommit | PhaseRollback
  | PhaseOther string

fun phase_string :: "phase \<Rightarrow> string" where
  "phase_string PhaseEnvironment = ''environment''"
| "phase_string PhaseMetadata = ''metadata''"
| "phase_string PhaseConstruction = ''construction''"
| "phase_string PhaseEvaluation = ''evaluation''"
| "phase_string PhaseCommit = ''commit''"
| "phase_string PhaseRollback = ''rollback''"
| "phase_string (PhaseOther s) = s"

text \<open>The conversion \<open>Phase(s)\<close>.\<close>

definition phase_of :: "string \<Rightarrow> phase" where
  "phase_of s =
     (case find (\<lambda>p. phase_string p = s)
        [PhaseEnvironment, PhaseMetadata, PhaseConstruction, PhaseEvaluation, PhaseCommit, PhaseRollback] of
        Some p \<Rightarrow> p
      | None \<Rightarrow> PhaseOther s)"

definition phase_valid :: "phase \<Rightarrow> bool" where
  "phase_valid p = (case p of PhaseOther _ \<Rightarrow> False | _ \<Rightarrow> True)"

datatype contract_status =
    ContractDraft | ContractOracleLocked | ContractRed | ContractPassing | ContractDeviation
  | ContractStatusOther string

fun contract_status_string :: "contract_status \<Rightarrow> string" where
  "contract_status_string ContractDraft = ''draft''"
| "contract_status_string ContractOracleLocked = ''oracle_locked''"
| "contract_status_string ContractRed = ''red''"
| "contract_status_string ContractPassing = ''passing''"
| "contract_status_string ContractDeviation = ''deviation''"
| "contract_status_string (ContractStatusOther s) = s"

record provenance =
  pvKind :: string
  pvReference :: string
  pvDerived :: "bool option"
  pvLicense :: string

datatype comparison_dimension = CompareResult | CompareError | CompareDBState | CompareMetrics | CompareOther string

fun comparison_dimension_string :: "comparison_dimension \<Rightarrow> string" where
  "comparison_dimension_string CompareResult = ''result''"
| "comparison_dimension_string CompareError = ''error''"
| "comparison_dimension_string CompareDBState = ''db_state''"
| "comparison_dimension_string CompareMetrics = ''metrics''"
| "comparison_dimension_string (CompareOther s) = s"

record contract =
  ctID :: string
  ctTitle :: string
  ctScenario :: string
  ctPhase :: phase
  ctStatus :: contract_status
  ctProvenance :: "provenance list"
  ctComparison :: "comparison_dimension list"

record manifest =
  mfFormatVersion :: int
  mfProfileID :: string
  mfContracts :: "contract list"

record observed_error =
  oeCategory :: string
  oeCode :: string
  oePythonType :: string
  oeMessage :: string
  oeMessageIsContract :: "bool option"

datatype observation_status = StatusObserved | StatusNotImplemented | StatusOther string

fun observation_status_string :: "observation_status \<Rightarrow> string" where
  "observation_status_string StatusObserved = ''observed''"
| "observation_status_string StatusNotImplemented = ''not_implemented''"
| "observation_status_string (StatusOther s) = s"

record observation =
  obID :: string
  obStatus :: observation_status
  obPhase :: phase
  obResult :: "pvalue option"
  obError :: "observed_error option"
  obDBState :: "pvalue option"
  obMetrics :: "pvalue option"

record observation_suite =
  osFormatVersion :: int
  osProfile :: profile_snapshot
  osContracts :: "observation list"

datatype deviation_dimension =
    DeviationPhase | DeviationResult | DeviationDBState | DeviationMetrics | DeviationDimensionOther string

fun deviation_dimension_string :: "deviation_dimension \<Rightarrow> string" where
  "deviation_dimension_string DeviationPhase = ''phase''"
| "deviation_dimension_string DeviationResult = ''result''"
| "deviation_dimension_string DeviationDBState = ''db_state''"
| "deviation_dimension_string DeviationMetrics = ''metrics''"
| "deviation_dimension_string (DeviationDimensionOther s) = s"

datatype deviation_operation = DeviationReplace | DeviationInsertBefore | DeviationOperationOther string

fun deviation_operation_string :: "deviation_operation \<Rightarrow> string" where
  "deviation_operation_string DeviationReplace = ''replace''"
| "deviation_operation_string DeviationInsertBefore = ''insert_before''"
| "deviation_operation_string (DeviationOperationOther s) = s"

record deviation_change =
  dcDimension :: deviation_dimension
  dcPath :: string
  dcOperation :: deviation_operation
  dcReference :: pvalue
  dcProduct :: pvalue

record deviation_contract =
  dvID :: string
  dvChanges :: "deviation_change list"

record deviation_expectation =
  deFormatVersion :: int
  deProfileID :: string
  deDecision :: string
  deContracts :: "deviation_contract list"

section \<open>Text and patterns\<close>

text \<open>\<open>unicode.IsSpace\<close>, and a string that \<open>strings.TrimSpace\<close> empties.\<close>

definition is_space :: "nat \<Rightarrow> bool" where
  "is_space r \<longleftrightarrow> 9 \<le> r \<and> r \<le> 13 \<or> r = 32 \<or> r = 133 \<or> r = 160 \<or> r = 5760 \<or> 8192 \<le> r \<and> r \<le> 8202
     \<or> r = 8232 \<or> r = 8233 \<or> r = 8239 \<or> r = 8287 \<or> r = 12288"

definition blank :: "string \<Rightarrow> bool" where
  "blank s \<longleftrightarrow> list_all is_space (runes s)"

lemma blank_code [code]:
  "blank s = (if s = [] then True
     else if is_space (fst (decode_rune s)) then blank (drop (snd (decode_rune s)) s) else False)"
  by (simp add: blank_def runes.simps[of s])

definition lower_letter :: "char \<Rightarrow> bool" where
  "lower_letter c \<longleftrightarrow> 97 \<le> byte c \<and> byte c \<le> 122"

definition upper_letter :: "char \<Rightarrow> bool" where
  "upper_letter c \<longleftrightarrow> 65 \<le> byte c \<and> byte c \<le> 90"

definition word_char :: "char \<Rightarrow> bool" where
  "word_char c \<longleftrightarrow> lower_letter c \<or> digit c \<or> c = CHR ''_''"

definition word :: "string \<Rightarrow> bool" where
  "word s \<longleftrightarrow> (case s of [] \<Rightarrow> False | c # cs \<Rightarrow> lower_letter c \<and> list_all word_char cs)"

fun split_on :: "char \<Rightarrow> string \<Rightarrow> string list" where
  "split_on sep [] = [[]]"
| "split_on sep (c # s) =
     (if c = sep then [] # split_on sep s
      else (case split_on sep s of [] \<Rightarrow> [[c]] | part # parts \<Rightarrow> (c # part) # parts))"

definition contractIDPattern :: "string \<Rightarrow> bool" where
  "contractIDPattern s \<longleftrightarrow>
     (case split_on (CHR ''-'') s of
        [name, number] \<Rightarrow> name \<noteq> '''' \<and> upper_letter (hd name) \<and> list_all (\<lambda>c. upper_letter c \<or> digit c) name
          \<and> length number = 3 \<and> list_all digit number
      | _ \<Rightarrow> False)"

definition identifierPattern :: "string \<Rightarrow> bool" where
  "identifierPattern s \<longleftrightarrow> list_all word (split_on (CHR ''.'') s)"

definition tokenPattern :: "string \<Rightarrow> bool" where
  "tokenPattern s \<longleftrightarrow>
     (case s of [] \<Rightarrow> False | c # cs \<Rightarrow> lower_letter c \<and> list_all (\<lambda>c. word_char c \<or> c = CHR ''-'') cs)"

definition hexPattern :: "nat \<Rightarrow> string \<Rightarrow> bool" where
  "hexPattern n s \<longleftrightarrow> length s = n \<and> list_all hex_char s"

definition decisionPattern :: "string \<Rightarrow> bool" where
  "decisionPattern s \<longleftrightarrow> take 4 s = ''DEV-'' \<and> length s = 8 \<and> list_all digit (drop 4 s)"

text \<open>
  A segment of a deviation path: its name, and the text of its index if it has one
  (\<open>FindStringSubmatch\<close> of \<open>deviationPathSegmentPattern\<close>).
\<close>

definition path_segment :: "string \<Rightarrow> (string \<times> string option) option" where
  "path_segment s =
     (let name = takeWhile word_char s; rest = dropWhile word_char s in
      if \<not> word name then None
      else if rest = '''' then Some (name, None)
      else if hd rest = CHR ''['' \<and> 3 \<le> length rest \<and> last rest = CHR '']'' \<and> list_all digit (butlast (tl rest))
      then Some (name, Some (butlast (tl rest)))
      else None)"

definition deviationPathPattern :: "string \<Rightarrow> bool" where
  "deviationPathPattern s \<longleftrightarrow> list_all (\<lambda>segment. path_segment segment \<noteq> None) (split_on (CHR ''.'') s)"

text \<open>The sources of the patterns, as the errors print them.\<close>

definition contractID_regex :: string where
  "contractID_regex = ''^[A-Z][A-Z0-9]*-[0-9]{3}$''"

definition identifier_regex :: string where
  "identifier_regex = ''^[a-z][a-z0-9_]*('' @ [CHR 0x5C] @ ''.[a-z][a-z0-9_]*)*$''"

definition decision_regex :: string where
  "decision_regex = ''^DEV-[0-9]{4}$''"

definition deviationPath_regex :: string where
  "deviationPath_regex =
     (let index = ''('' @ [CHR 0x5C] @ ''[[0-9]+'' @ [CHR 0x5C] @ ''])?'' in
      ''^[a-z][a-z0-9_]*'' @ index @ ''('' @ [CHR 0x5C] @ ''.[a-z][a-z0-9_]*'' @ index @ '')*$'')"

text \<open>\<open>path.Clean\<close>, component by component.\<close>

fun clean_components :: "bool \<Rightarrow> string list \<Rightarrow> string list \<Rightarrow> string list" where
  "clean_components rooted stack [] = rev stack"
| "clean_components rooted stack (c # cs) =
     (if c = '''' \<or> c = ''.'' then clean_components rooted stack cs
      else if c = ''..''
      then (case stack of
              previous # below \<Rightarrow>
                if previous = ''..'' then clean_components rooted (c # stack) cs
                else clean_components rooted below cs
            | [] \<Rightarrow> if rooted then clean_components rooted [] cs else clean_components rooted [c] cs)
      else clean_components rooted (c # stack) cs)"

definition path_is_abs :: "string \<Rightarrow> bool" where
  "path_is_abs s \<longleftrightarrow> has_prefix s ''/''"

definition path_clean :: "string \<Rightarrow> string" where
  "path_clean s =
     (let rooted = path_is_abs s;
          body = join_strings ''/'' (clean_components rooted [] (split_on (CHR ''/'') s)) in
      if rooted then CHR ''/'' # body else if body = '''' then ''.'' else body)"

section \<open>Validation\<close>

definition bad_format :: go_error where
  "bad_format = ErrFmt ''format_version must be %d'' [FInt protocol_FormatVersion]"

definition fingerprint_required :: "profile_fingerprint \<Rightarrow> (string \<times> string) list" where
  "fingerprint_required p =
     [(''django_version'', pfDjangoVersion p), (''django_commit'', pfDjangoCommit p),
      (''django_distribution_sha256'', pfDjangoDistributionSHA256 p),
      (''python_implementation'', pfPythonImplementation p), (''python_version'', pfPythonVersion p),
      (''sqlite_version'', pfSQLiteVersion p), (''sqlite_source_id'', pfSQLiteSourceID p),
      (''database_engine'', pfDatabaseEngine p), (''timezone'', pfTimezone p),
      (''language_code'', pfLanguageCode p), (''locale'', pfLocale p), (''platform'', pfPlatform p),
      (''architecture'', pfArchitecture p)]"

definition Fingerprint_Validate :: "profile_fingerprint \<Rightarrow> go_error option" where
  "Fingerprint_Validate p =
     (case find (\<lambda>field. blank (snd field)) (fingerprint_required p) of
        Some field \<Rightarrow> Some (ErrFmt ''%s is required'' [FStr (fst field)])
      | None \<Rightarrow>
        if \<not> hexPattern 40 (pfDjangoCommit p)
        then Some (ErrNew ''django_commit must be 40 lowercase hexadecimal characters'')
        else if \<not> hexPattern 64 (pfDjangoDistributionSHA256 p)
        then Some (ErrNew ''django_distribution_sha256 must be 64 lowercase hexadecimal characters'')
        else if pfUseTZ p = None then Some (ErrNew ''use_tz is required'')
        else None)"

definition Lock_Validate :: "lock_metadata \<Rightarrow> go_error option" where
  "Lock_Validate l =
     (if blank (lkFile l) then Some (ErrNew ''file is required'')
      else if path_is_abs (lkFile l) \<or> path_clean (lkFile l) \<noteq> lkFile l \<or> lkFile l = ''.''
              \<or> has_prefix (lkFile l) ''../''
      then Some (ErrNew ''file must be a clean repository-relative slash path'')
      else if \<not> hexPattern 64 (lkSHA256 l)
      then Some (ErrNew ''sha256 must be 64 lowercase hexadecimal characters'')
      else if blank (lkManager l) then Some (ErrNew ''manager is required'')
      else if blank (lkManagerVersion l) then Some (ErrNew ''manager_version is required'')
      else None)"

definition Snapshot_Validate :: "profile_snapshot \<Rightarrow> go_error option" where
  "Snapshot_Validate p =
     (if blank (psID p) then Some (ErrNew ''id is required'')
      else
      (case Fingerprint_Validate (psFingerprint p) of
         Some err \<Rightarrow> Some (ErrWrap ''fingerprint: %w'' [] err)
       | None \<Rightarrow> map_option (ErrWrap ''lock: %w'' []) (Lock_Validate (psLock p))))"

definition Profile_Validate :: "profile \<Rightarrow> go_error option" where
  "Profile_Validate p =
     (if prFormatVersion p \<noteq> protocol_FormatVersion then Some bad_format
      else if blank (prID p) then Some (ErrNew ''id is required'')
      else
      (case Fingerprint_Validate (prFingerprint p) of
         Some err \<Rightarrow> Some (ErrWrap ''fingerprint: %w'' [] err)
       | None \<Rightarrow> map_option (ErrWrap ''lock: %w'' []) (Lock_Validate (prLock p))))"

definition Provenance_Validate :: "provenance \<Rightarrow> go_error option" where
  "Provenance_Validate p =
     (if \<not> tokenPattern (pvKind p) then Some (ErrFmt ''kind %q must be a lowercase token'' [FStr (pvKind p)])
      else if blank (pvReference p) then Some (ErrNew ''reference is required'')
      else
      (case pvDerived p of
         None \<Rightarrow> Some (ErrNew ''derived is required'')
       | Some derived \<Rightarrow>
           if derived \<and> blank (pvLicense p)
           then Some (ErrNew ''license is required for derived provenance'') else None))"

text \<open>A loop over a slice, each failure wrapped with its position.\<close>

fun check_indexed :: "(nat \<Rightarrow> go_error \<Rightarrow> go_error) \<Rightarrow> ('a \<Rightarrow> go_error option) \<Rightarrow> nat \<Rightarrow> 'a list \<Rightarrow> go_error option" where
  "check_indexed wrap check index [] = None"
| "check_indexed wrap check index (x # xs) =
     (case check x of Some err \<Rightarrow> Some (wrap index err) | None \<Rightarrow> check_indexed wrap check (Suc index) xs)"

fun check_dimensions :: "string \<Rightarrow> nat \<Rightarrow> comparison_dimension list \<Rightarrow> comparison_dimension list \<Rightarrow> go_error option" where
  "check_dimensions ident index seen [] = None"
| "check_dimensions ident index seen (d # ds) =
     (if d \<notin> {CompareResult, CompareError, CompareDBState, CompareMetrics}
      then Some (ErrFmt ''%s: comparison %d has unknown dimension %q''
             [FStr ident, FInt (int index), FStr (comparison_dimension_string d)])
      else if d \<in> set seen
      then Some (ErrFmt ''%s: duplicate comparison dimension %q'' [FStr ident, FStr (comparison_dimension_string d)])
      else check_dimensions ident (Suc index) (d # seen) ds)"

definition Contract_Validate :: "contract \<Rightarrow> go_error option" where
  "Contract_Validate c =
     (if \<not> contractIDPattern (ctID c) then Some (ErrFmt ''id %q must match %s'' [FStr (ctID c), FStr contractID_regex])
      else if blank (ctTitle c) then Some (ErrFmt ''%s: title is required'' [FStr (ctID c)])
      else if \<not> identifierPattern (ctScenario c)
      then Some (ErrFmt ''%s: scenario %q must match %s'' [FStr (ctID c), FStr (ctScenario c), FStr identifier_regex])
      else if \<not> phase_valid (ctPhase c)
      then Some (ErrFmt ''%s: unknown phase %q'' [FStr (ctID c), FStr (phase_string (ctPhase c))])
      else if ctStatus c \<notin> {ContractDraft, ContractOracleLocked, ContractRed, ContractPassing, ContractDeviation}
      then Some (ErrFmt ''%s: unknown status %q'' [FStr (ctID c), FStr (contract_status_string (ctStatus c))])
      else if ctProvenance c = []
      then Some (ErrFmt ''%s: at least one provenance entry is required'' [FStr (ctID c)])
      else
      (case check_indexed (\<lambda>index. ErrWrap ''%s: provenance %d: %w'' [FStr (ctID c), FInt (int index)])
              Provenance_Validate 0 (ctProvenance c) of
         Some err \<Rightarrow> Some err
       | None \<Rightarrow>
           if ctComparison c = []
           then Some (ErrFmt ''%s: at least one comparison dimension is required'' [FStr (ctID c)])
           else check_dimensions (ctID c) 0 [] (ctComparison c)))"

text \<open>The loop manifests, suites and expectations share: validate each entry, no identifier twice.\<close>

fun check_contracts :: "('a \<Rightarrow> string) \<Rightarrow> ('a \<Rightarrow> go_error option) \<Rightarrow> nat \<Rightarrow> string list \<Rightarrow> 'a list \<Rightarrow> go_error option" where
  "check_contracts ident check index seen [] = None"
| "check_contracts ident check index seen (c # cs) =
     (case check c of
        Some err \<Rightarrow> Some (ErrWrap ''contract %d: %w'' [FInt (int index)] err)
      | None \<Rightarrow>
          if ident c \<in> set seen
          then Some (ErrFmt ''contract %d: duplicate id %q'' [FInt (int index), FStr (ident c)])
          else check_contracts ident check (Suc index) (ident c # seen) cs)"

definition Manifest_Validate :: "manifest \<Rightarrow> go_error option" where
  "Manifest_Validate m =
     (if mfFormatVersion m \<noteq> protocol_FormatVersion then Some bad_format
      else if blank (mfProfileID m) then Some (ErrNew ''profile_id is required'')
      else if length (mfContracts m) < 8 \<or> length (mfContracts m) > 12
      then Some (ErrFmt ''contracts must contain 8 to 12 ordered entries, got %d'' [FInt (int (length (mfContracts m)))])
      else check_contracts ctID Contract_Validate 0 [] (mfContracts m))"

definition ObservedError_Validate :: "observed_error \<Rightarrow> go_error option" where
  "ObservedError_Validate e =
     (if \<not> tokenPattern (oeCategory e)
      then Some (ErrFmt ''category %q must be a lowercase token'' [FStr (oeCategory e)])
      else if \<not> tokenPattern (oeCode e) then Some (ErrFmt ''code %q must be a lowercase token'' [FStr (oeCode e)])
      else
      (case oeMessageIsContract e of
         None \<Rightarrow> Some (ErrNew ''message_is_contract is required'')
       | Some contractual \<Rightarrow>
           if contractual \<and> oeMessage e = ''''
           then Some (ErrNew ''message is required when message_is_contract is true'') else None))"

text \<open>The payloads of an observed observation, in the order they are checked.\<close>

definition check_payload :: "string \<Rightarrow> string \<Rightarrow> ('a \<Rightarrow> go_error option) \<Rightarrow> 'a option \<Rightarrow> go_error option" where
  "check_payload ident message check payload =
     (case payload of None \<Rightarrow> None | Some x \<Rightarrow> map_option (ErrWrap message [FStr ident]) (check x))"

definition check_metrics :: "(string \<Rightarrow> go_error option) \<Rightarrow> string \<Rightarrow> pvalue option \<Rightarrow> go_error option" where
  "check_metrics pt ident metrics =
     (case metrics of
        None \<Rightarrow> None
      | Some v \<Rightarrow>
          if pvType v \<noteq> ValueObject then Some (ErrFmt ''%s: metrics must be an object value'' [FStr ident])
          else map_option (ErrWrap ''%s: metrics: %w'' [FStr ident]) (Validate pt v))"

definition Observation_Validate :: "(string \<Rightarrow> go_error option) \<Rightarrow> observation \<Rightarrow> go_error option" where
  "Observation_Validate pt ob =
     (let ident = obID ob in
      if \<not> contractIDPattern ident then Some (ErrFmt ''id %q must match %s'' [FStr ident, FStr contractID_regex])
      else if obStatus ob \<notin> {StatusObserved, StatusNotImplemented}
      then Some (ErrFmt ''%s: unknown status %q'' [FStr ident, FStr (observation_status_string (obStatus ob))])
      else if \<not> phase_valid (obPhase ob)
      then Some (ErrFmt ''%s: unknown phase %q'' [FStr ident, FStr (phase_string (obPhase ob))])
      else if obStatus ob = StatusNotImplemented
      then (if obResult ob \<noteq> None \<or> obError ob \<noteq> None \<or> obDBState ob \<noteq> None \<or> obMetrics ob \<noteq> None
            then Some (ErrFmt ''%s: not_implemented observation cannot contain payloads'' [FStr ident])
            else None)
      else if obResult ob = None \<and> obError ob = None \<and> obDBState ob = None \<and> obMetrics ob = None
      then Some (ErrFmt ''%s: observed observation must contain at least one payload'' [FStr ident])
      else if obResult ob \<noteq> None \<and> obError ob \<noteq> None
      then Some (ErrFmt ''%s: result and error are mutually exclusive'' [FStr ident])
      else
      (case check_payload ident ''%s: result: %w'' (Validate pt) (obResult ob) of
         Some err \<Rightarrow> Some err
       | None \<Rightarrow>
         (case check_payload ident ''%s: error: %w'' ObservedError_Validate (obError ob) of
            Some err \<Rightarrow> Some err
          | None \<Rightarrow>
            (case check_payload ident ''%s: db_state: %w'' (Validate pt) (obDBState ob) of
               Some err \<Rightarrow> Some err
             | None \<Rightarrow> check_metrics pt ident (obMetrics ob)))))"

definition Suite_Validate :: "(string \<Rightarrow> go_error option) \<Rightarrow> observation_suite \<Rightarrow> go_error option" where
  "Suite_Validate pt s =
     (if osFormatVersion s \<noteq> protocol_FormatVersion then Some bad_format
      else
      (case Snapshot_Validate (osProfile s) of
         Some err \<Rightarrow> Some (ErrWrap ''profile: %w'' [] err)
       | None \<Rightarrow>
           if osContracts s = [] then Some (ErrNew ''contracts must not be empty'')
           else check_contracts obID (Observation_Validate pt) 0 [] (osContracts s)))"

section \<open>Deviations\<close>

definition path_change_error :: "string \<Rightarrow> deviation_operation \<Rightarrow> go_error option" where
  "path_change_error path operation =
     (if \<not> deviationPathPattern path
      then Some (ErrFmt ''path %q must match %s'' [FStr path, FStr deviationPath_regex])
      else
      (case operation of
         DeviationReplace \<Rightarrow> None
       | DeviationInsertBefore \<Rightarrow>
           if path = '''' \<or> last path \<noteq> CHR '']''
           then Some (ErrFmt ''insert_before path %q must end at a list index'' [FStr path]) else None
       | DeviationOperationOther s \<Rightarrow> Some (ErrFmt ''unknown operation %q'' [FStr s])))"

definition phase_change_error :: "deviation_change \<Rightarrow> go_error option" where
  "phase_change_error c =
     (if dcPath c \<noteq> '''' then Some (ErrNew ''phase change path must be empty'')
      else if dcOperation c \<noteq> DeviationReplace
      then Some (ErrFmt ''phase change operation must be %q'' [FStr (deviation_operation_string DeviationReplace)])
      else if pvType (dcReference c) \<noteq> ValueString \<or> pvType (dcProduct c) \<noteq> ValueString
      then Some (ErrNew ''phase reference and product must be string values'')
      else if \<not> phase_valid (phase_of (the (pvText (dcReference c)))) \<or> \<not> phase_valid (phase_of (the (pvText (dcProduct c))))
      then Some (ErrNew ''phase reference and product must be known phases'')
      else None)"

definition DeviationChange_Validate :: "(string \<Rightarrow> go_error option) \<Rightarrow> deviation_change \<Rightarrow> go_error option" where
  "DeviationChange_Validate pt c =
     (case Validate pt (dcReference c) of
        Some err \<Rightarrow> Some (ErrWrap ''reference: %w'' [] err)
      | None \<Rightarrow>
        (case Validate pt (dcProduct c) of
           Some err \<Rightarrow> Some (ErrWrap ''product: %w'' [] err)
         | None \<Rightarrow>
           (case (case dcDimension c of
                    DeviationPhase \<Rightarrow> phase_change_error c
                  | DeviationDimensionOther s \<Rightarrow> Some (ErrFmt ''unknown dimension %q'' [FStr s])
                  | _ \<Rightarrow> path_change_error (dcPath c) (dcOperation c)) of
              Some err \<Rightarrow> Some err
            | None \<Rightarrow>
                if dcReference c = dcProduct c then Some (ErrNew ''reference and product must differ'') else None)))"

text \<open>The key \<open>string(dimension) + "\x00" + path\<close> of the duplicate check.\<close>

definition change_key :: "deviation_dimension \<Rightarrow> string \<Rightarrow> string" where
  "change_key d path = deviation_dimension_string d @ [CHR 0x00] @ path"

fun check_changes :: "string \<Rightarrow> ('a \<Rightarrow> go_error option) \<Rightarrow> ('a \<Rightarrow> deviation_dimension) \<Rightarrow> ('a \<Rightarrow> string)
    \<Rightarrow> nat \<Rightarrow> string list \<Rightarrow> 'a list \<Rightarrow> go_error option" where
  "check_changes ident check dim pth index seen [] = None"
| "check_changes ident check dim pth index seen (c # cs) =
     (case check c of
        Some err \<Rightarrow> Some (ErrWrap ''%s: change %d: %w'' [FStr ident, FInt (int index)] err)
      | None \<Rightarrow>
          if change_key (dim c) (pth c) \<in> set seen
          then Some (ErrFmt ''%s: change %d duplicates dimension %q path %q''
                 [FStr ident, FInt (int index), FStr (deviation_dimension_string (dim c)), FStr (pth c)])
          else check_changes ident check dim pth (Suc index) (change_key (dim c) (pth c) # seen) cs)"

definition DeviationContract_Validate :: "(string \<Rightarrow> go_error option) \<Rightarrow> deviation_contract \<Rightarrow> go_error option" where
  "DeviationContract_Validate pt e =
     (if \<not> contractIDPattern (dvID e)
      then Some (ErrFmt ''id %q must match %s'' [FStr (dvID e), FStr contractID_regex])
      else if dvChanges e = [] then Some (ErrFmt ''%s: changes must not be empty'' [FStr (dvID e)])
      else check_changes (dvID e) (DeviationChange_Validate pt) dcDimension dcPath 0 [] (dvChanges e))"

definition Expectation_Validate :: "(string \<Rightarrow> go_error option) \<Rightarrow> deviation_expectation \<Rightarrow> go_error option" where
  "Expectation_Validate pt e =
     (if deFormatVersion e \<noteq> protocol_FormatVersion then Some bad_format
      else if blank (deProfileID e) then Some (ErrNew ''profile_id is required'')
      else if \<not> decisionPattern (deDecision e)
      then Some (ErrFmt ''decision %q must match %s'' [FStr (deDecision e), FStr decision_regex])
      else if deContracts e = [] \<or> length (deContracts e) > 12
      then Some (ErrFmt ''contracts must contain 1 to 12 ordered deviation entries, got %d''
             [FInt (int (length (deContracts e)))])
      else check_contracts dvID (DeviationContract_Validate pt) 0 [] (deContracts e))"

section \<open>A suite against its profile and manifest\<close>

definition dimension_payload :: "observation \<Rightarrow> comparison_dimension \<Rightarrow> bool" where
  "dimension_payload ob d =
     (case d of
        CompareResult \<Rightarrow> obResult ob \<noteq> None
      | CompareError \<Rightarrow> obError ob \<noteq> None
      | CompareDBState \<Rightarrow> obDBState ob \<noteq> None
      | CompareMetrics \<Rightarrow> obMetrics ob \<noteq> None
      | CompareOther _ \<Rightarrow> False)"

definition validateDimensions :: "contract \<Rightarrow> observation \<Rightarrow> go_error option" where
  "validateDimensions c ob =
     (case find (\<lambda>d. (d \<in> set (ctComparison c)) \<noteq> dimension_payload ob d)
             [CompareResult, CompareError, CompareDBState, CompareMetrics] of
        None \<Rightarrow> None
      | Some d \<Rightarrow>
          if d \<in> set (ctComparison c)
          then Some (ErrFmt ''%s: comparison dimension %q requires a payload''
                 [FStr (ctID c), FStr (comparison_dimension_string d)])
          else Some (ErrFmt ''%s: payload %q is not declared as a comparison dimension''
                 [FStr (ctID c), FStr (comparison_dimension_string d)]))"

fun check_against :: "nat \<Rightarrow> contract list \<Rightarrow> observation list \<Rightarrow> go_error option" where
  "check_against index (c # cs) (ob # obs) =
     (if ctStatus c = ContractDraft
      then Some (ErrFmt ''%s: observation suite requires a locked-or-later manifest status'' [FStr (ctID c)])
      else if obID ob \<noteq> ctID c
      then Some (ErrFmt ''suite contract %d is %q; manifest requires %q in that position''
             [FInt (int index), FStr (obID ob), FStr (ctID c)])
      else if obPhase ob \<noteq> ctPhase c
      then Some (ErrFmt ''%s: observation phase %q does not match manifest phase %q''
             [FStr (ctID c), FStr (phase_string (obPhase ob)), FStr (phase_string (ctPhase c))])
      else if obStatus ob = StatusNotImplemented then check_against (Suc index) cs obs
      else
      (case validateDimensions c ob of
         Some err \<Rightarrow> Some err
       | None \<Rightarrow> check_against (Suc index) cs obs))"
| "check_against index cs obs = None"

definition ValidateSuiteAgainst :: "(string \<Rightarrow> go_error option) \<Rightarrow> profile \<Rightarrow> manifest \<Rightarrow> observation_suite
    \<Rightarrow> go_error option" where
  "ValidateSuiteAgainst pt p m s =
     (case Profile_Validate p of
        Some err \<Rightarrow> Some (ErrWrap ''profile: %w'' [] err)
      | None \<Rightarrow>
        (case Manifest_Validate m of
           Some err \<Rightarrow> Some (ErrWrap ''manifest: %w'' [] err)
         | None \<Rightarrow>
           (case Suite_Validate pt s of
              Some err \<Rightarrow> Some (ErrWrap ''suite: %w'' [] err)
            | None \<Rightarrow>
                if mfProfileID m \<noteq> prID p
                then Some (ErrFmt ''manifest profile_id %q does not match profile id %q''
                       [FStr (mfProfileID m), FStr (prID p)])
                else if osProfile s \<noteq> Snapshot p
                then Some (ErrFmt ''suite profile fingerprint does not match locked profile %q'' [FStr (prID p)])
                else if length (osContracts s) \<noteq> length (mfContracts m)
                then Some (ErrFmt ''suite contains %d contracts; manifest requires %d''
                       [FInt (int (length (osContracts s))), FInt (int (length (mfContracts m)))])
                else check_against 0 (mfContracts m) (osContracts s))))"

end
