(* ===== verification/Protocol_Compare.thy ===== *)
theory Protocol_Compare
  imports Protocol_Suite
begin

text \<open>
  Package \<open>conformance/internal/protocol\<close>, \<open>compare.go\<close>: the differences between two values, two
  errors and two observation suites. On validated input the comparison reports nothing exactly when
  there is nothing to report. The JSON text of a value or an error, which only goes into the
  report, is a parameter.
\<close>

section \<open>Comparing values\<close>

record difference =
  dfContractID :: string
  dfPath :: string
  dfExpected :: string
  dfActual :: string
  dfMessage :: string

definition difference_of :: "string \<Rightarrow> string \<Rightarrow> string \<Rightarrow> string \<Rightarrow> string \<Rightarrow> difference" where
  "difference_of contractID path expected actual message =
     \<lparr>dfContractID = contractID, dfPath = path, dfExpected = expected, dfActual = actual, dfMessage = message\<rparr>"

definition json_bool :: "bool \<Rightarrow> string" where
  "json_bool b = (if b then ''true'' else ''false'')"

text \<open>A field of storage that differs; validation guarantees the storage the tag asks for.\<close>

definition scalar_difference :: "string \<Rightarrow> string \<Rightarrow> pvalue \<Rightarrow> pvalue \<Rightarrow> difference list" where
  "scalar_difference contractID path expected actual =
     (case pvType expected of
        ValueBool \<Rightarrow>
          if the (pvBool expected) \<noteq> the (pvBool actual)
          then [difference_of contractID (path @ ''.value'') (json_bool (the (pvBool expected)))
                  (json_bool (the (pvBool actual))) ''boolean value differs'']
          else []
      | _ \<Rightarrow>
          if the (pvText expected) \<noteq> the (pvText actual)
          then [difference_of contractID (path @ ''.value'') (the (pvText expected)) (the (pvText actual))
                  ''scalar value differs'']
          else [])"

definition length_difference :: "string \<Rightarrow> string \<Rightarrow> string \<Rightarrow> nat \<Rightarrow> nat \<Rightarrow> difference list" where
  "length_difference contractID path message expected actual =
     (if expected \<noteq> actual
      then [difference_of contractID path (sprint_nat expected) (sprint_nat actual) message] else [])"

fun compareValue :: "string \<Rightarrow> string \<Rightarrow> pvalue \<Rightarrow> pvalue \<Rightarrow> difference list"
and compare_items :: "string \<Rightarrow> string \<Rightarrow> nat \<Rightarrow> pvalue list \<Rightarrow> pvalue list \<Rightarrow> difference list"
and compare_fields :: "string \<Rightarrow> string \<Rightarrow> nat \<Rightarrow> (string \<times> pvalue) list \<Rightarrow> (string \<times> pvalue) list \<Rightarrow> difference list" where
  "compareValue contractID path (PValue t b x e n its fs) actual =
     (if t \<noteq> pvType actual
      then [difference_of contractID (path @ ''.type'') (wire_type_string t) (wire_type_string (pvType actual))
              ''value type differs'']
      else
      (case t of
         ValueNull \<Rightarrow> []
       | ValueOther _ \<Rightarrow> []
       | ValuePK \<Rightarrow>
           (case n of None \<Rightarrow> [] | Some nested \<Rightarrow> compareValue contractID (path @ ''.value'') nested (the (pvNested actual)))
       | ValueList \<Rightarrow>
           (case its of
              None \<Rightarrow> []
            | Some items \<Rightarrow>
                length_difference contractID (path @ ''.items.length'') ''list length differs''
                  (length items) (length (the (pvItems actual)))
                @ compare_items contractID path 0 items (the (pvItems actual)))
       | ValueObject \<Rightarrow>
           (case fs of
              None \<Rightarrow> []
            | Some flds \<Rightarrow>
                length_difference contractID (path @ ''.fields.length'') ''object field count differs''
                  (length flds) (length (the (pvFields actual)))
                @ compare_fields contractID path 0 flds (the (pvFields actual)))
       | _ \<Rightarrow> scalar_difference contractID path (PValue t b x e n its fs) actual))"
| "compare_items contractID path index (item # items) (actual # actuals) =
     compareValue contractID (path @ ''.items['' @ sprint_nat index @ '']'') item actual
     @ compare_items contractID path (Suc index) items actuals"
| "compare_items contractID path index [] actuals = []"
| "compare_items contractID path index items [] = []"
| "compare_fields contractID path index ((name, v) # flds) ((name', v') # flds') =
     (let fieldPath = path @ ''.fields['' @ sprint_nat index @ '']'' in
      (if name \<noteq> name'
       then [difference_of contractID (fieldPath @ ''.name'') name name' ''object field name differs'']
       else compareValue contractID (fieldPath @ ''.value'') v v')
      @ compare_fields contractID path (Suc index) flds flds')"
| "compare_fields contractID path index [] flds' = []"
| "compare_fields contractID path index flds [] = []"

section \<open>Comparing observations\<close>

text \<open>The JSON text of a value and of an error.\<close>

record json_text =
  jtValue :: "pvalue \<Rightarrow> string"
  jtError :: "observed_error \<Rightarrow> string"

definition formatJSON :: "('a \<Rightarrow> string) \<Rightarrow> 'a option \<Rightarrow> string" where
  "formatJSON encode v = (case v of None \<Rightarrow> ''null'' | Some x \<Rightarrow> encode x)"

definition compareValues :: "json_text \<Rightarrow> string \<Rightarrow> string \<Rightarrow> pvalue option \<Rightarrow> pvalue option \<Rightarrow> difference list" where
  "compareValues json contractID root expected actual =
     (case (expected, actual) of
        (Some e, Some a) \<Rightarrow> compareValue contractID root e a
      | (None, None) \<Rightarrow> []
      | _ \<Rightarrow> [difference_of contractID root (formatJSON (jtValue json) expected) (formatJSON (jtValue json) actual)
                ''value presence differs''])"

definition text_difference :: "string \<Rightarrow> string \<Rightarrow> string \<Rightarrow> string \<Rightarrow> string \<Rightarrow> difference list" where
  "text_difference contractID path message expected actual =
     (if expected \<noteq> actual then [difference_of contractID path expected actual message] else [])"

definition compareErrors :: "json_text \<Rightarrow> string \<Rightarrow> observed_error option \<Rightarrow> observed_error option \<Rightarrow> difference list" where
  "compareErrors json contractID expected actual =
     (case (expected, actual) of
        (Some e, Some a) \<Rightarrow>
          text_difference contractID ''error.category'' ''error category differs'' (oeCategory e) (oeCategory a)
          @ text_difference contractID ''error.code'' ''error code differs'' (oeCode e) (oeCode a)
          @ (if the (oeMessageIsContract e)
             then text_difference contractID ''error.message'' ''contractual error message differs''
                    (oeMessage e) (oeMessage a)
             else [])
      | (None, None) \<Rightarrow> []
      | _ \<Rightarrow> [difference_of contractID ''error'' (formatJSON (jtError json) expected)
                (formatJSON (jtError json) actual) ''error presence differs''])"

definition compare_dimension :: "json_text \<Rightarrow> string \<Rightarrow> observation \<Rightarrow> observation \<Rightarrow> comparison_dimension \<Rightarrow> difference list" where
  "compare_dimension json contractID want got d =
     (case d of
        CompareResult \<Rightarrow> compareValues json contractID ''result'' (obResult want) (obResult got)
      | CompareError \<Rightarrow> compareErrors json contractID (obError want) (obError got)
      | CompareDBState \<Rightarrow> compareValues json contractID ''db_state'' (obDBState want) (obDBState got)
      | CompareMetrics \<Rightarrow> compareValues json contractID ''metrics'' (obMetrics want) (obMetrics got)
      | CompareOther _ \<Rightarrow> [])"

definition compare_observation :: "json_text \<Rightarrow> contract \<Rightarrow> observation \<Rightarrow> observation \<Rightarrow> difference list" where
  "compare_observation json c want got =
     (if obStatus got = StatusNotImplemented
      then [difference_of (ctID c) ''status'' (observation_status_string StatusObserved)
              (observation_status_string StatusNotImplemented) ''actual contract is not implemented'']
      else
        text_difference (ctID c) ''status'' ''observation status differs''
          (observation_status_string (obStatus want)) (observation_status_string (obStatus got))
        @ text_difference (ctID c) ''phase'' ''observation phase differs''
            (phase_string (obPhase want)) (phase_string (obPhase got))
        @ concat (map (compare_dimension json (ctID c) want got) (ctComparison c)))"

fun compare_contracts :: "json_text \<Rightarrow> contract list \<Rightarrow> observation list \<Rightarrow> observation list
    \<Rightarrow> go_error + difference list" where
  "compare_contracts json (c # cs) (want # wants) (got # gots) =
     (if obStatus want \<noteq> StatusObserved
      then Inl (ErrFmt ''expected suite contract %s must be observed, got %q''
             [FStr (obID want), FStr (observation_status_string (obStatus want))])
      else map_sum id (\<lambda>differences. compare_observation json c want got @ differences)
             (compare_contracts json cs wants gots))"
| "compare_contracts json cs wants gots = Inr []"

definition Compare :: "(string \<Rightarrow> go_error option) \<Rightarrow> json_text \<Rightarrow> profile \<Rightarrow> manifest \<Rightarrow> observation_suite
    \<Rightarrow> observation_suite \<Rightarrow> go_error + difference list" where
  "Compare pt json p m expected actual =
     (case ValidateSuiteAgainst pt p m expected of
        Some err \<Rightarrow> Inl (ErrWrap ''expected suite: %w'' [] err)
      | None \<Rightarrow>
        (case ValidateSuiteAgainst pt p m actual of
           Some err \<Rightarrow> Inl (ErrWrap ''actual suite: %w'' [] err)
         | None \<Rightarrow> compare_contracts json (mfContracts m) (osContracts expected) (osContracts actual)))"

section \<open>No difference means equal values\<close>

text \<open>The shape of a canonical value with a given tag.\<close>

lemma canonical_shape:
  assumes "canonical_value pt v"
  shows "v = (case pvType v of
      ValueBool \<Rightarrow> PValue ValueBool (Some (the (pvBool v))) None '''' None None None
    | ValueBytes \<Rightarrow> PValue ValueBytes None (Some (the (pvText v))) ''base64'' None None None
    | ValueNull \<Rightarrow> PValue ValueNull None None '''' None None None
    | ValuePK \<Rightarrow> PValue ValuePK None None '''' (Some (the (pvNested v))) None None
    | ValueList \<Rightarrow> PValue ValueList None None '''' None (Some (the (pvItems v))) None
    | ValueObject \<Rightarrow> PValue ValueObject None None '''' None None (Some (the (pvFields v)))
    | t \<Rightarrow> PValue t None (Some (the (pvText v))) '''' None None None)"
    and "pvType v \<noteq> ValueOther s"
  using assms by (cases rule: canonical_value.cases; simp add: value_constructors)+

lemma canonical_parts:
  "canonical_value pt (PValue ValuePK None None '''' (Some n) None None) \<Longrightarrow> canonical_value pt n"
  "canonical_value pt (PValue ValueList None None '''' None (Some items) None) \<Longrightarrow> \<forall>i \<in> set items. canonical_value pt i"
  "canonical_value pt (PValue ValueObject None None '''' None None (Some flds)) \<Longrightarrow> \<forall>f \<in> set flds. canonical_value pt (snd f)"
  by (erule canonical_value.cases; auto simp: value_constructors)+

lemma length_difference_Nil [simp]: "length_difference c p m i j = [] \<longleftrightarrow> i = j"
  by (simp add: length_difference_def)

lemma compareValue_Nil:
  shows "canonical_value pt v \<Longrightarrow> canonical_value pt w \<Longrightarrow> compareValue c path v w = [] \<longleftrightarrow> v = w"
    and "\<forall>i \<in> set items. canonical_value pt i \<Longrightarrow> \<forall>i \<in> set items'. canonical_value pt i \<Longrightarrow>
      length items = length items' \<Longrightarrow> compare_items c path index items items' = [] \<longleftrightarrow> items = items'"
    and "\<forall>f \<in> set flds. canonical_value pt (snd f) \<Longrightarrow> \<forall>f \<in> set flds'. canonical_value pt (snd f) \<Longrightarrow>
      length flds = length flds' \<Longrightarrow> compare_fields c path index flds flds' = [] \<longleftrightarrow> flds = flds'"
proof (induction c path v w and c path index items items' and c path index flds flds'
    rule: compareValue_compare_items_compare_fields.induct)
  case (1 c path t b x e n its fs w)
  note shapes = canonical_shape(1)[OF "1.prems"(1)] canonical_shape(1)[OF "1.prems"(2)]
  show ?case
  proof (cases "t = pvType w")
    case True
    show ?thesis
    proof (cases t)
      case ValuePK
      obtain n' m' where n: "n = Some n'" "PValue t b x e n its fs = PValue ValuePK None None '''' (Some n') None None"
        and m: "w = PValue ValuePK None None '''' (Some m') None None"
        using shapes True ValuePK by simp metis
      show ?thesis
        using "1.IH"(1)[of n'] canonical_parts(1) "1.prems" True ValuePK n m by simp
    next
      case ValueList
      obtain is1 is2 where n: "its = Some is1" "PValue t b x e n its fs = PValue ValueList None None '''' None (Some is1) None"
        and m: "w = PValue ValueList None None '''' None (Some is2) None"
        using shapes True ValueList by simp metis
      have "length is1 = length is2 \<Longrightarrow> compare_items c path 0 is1 is2 = [] \<longleftrightarrow> is1 = is2"
        using "1.IH"(2)[of is1] canonical_parts(2) "1.prems" True ValueList n m by simp
      then show ?thesis using True ValueList n m by auto
    next
      case ValueObject
      obtain fs1 fs2 where n: "fs = Some fs1" "PValue t b x e n its fs = PValue ValueObject None None '''' None None (Some fs1)"
        and m: "w = PValue ValueObject None None '''' None None (Some fs2)"
        using shapes True ValueObject by simp metis
      have "length fs1 = length fs2 \<Longrightarrow> compare_fields c path 0 fs1 fs2 = [] \<longleftrightarrow> fs1 = fs2"
        using "1.IH"(3)[of fs1] canonical_parts(3) "1.prems" True ValueObject n m by simp
      then show ?thesis using True ValueObject n m by auto
    next
      case (ValueOther s)
      then show ?thesis using canonical_shape(2)[OF "1.prems"(1), of s] by simp
    qed (use shapes True in \<open>auto simp: scalar_difference_def\<close>)
  qed auto
qed (auto simp: Let_def)

section \<open>No difference means agreeing suites\<close>

text \<open>
  Errors agree in category, code and, where the message is part of the contract, in the message;
  observations agree in everything else.
\<close>

definition errors_agree :: "observed_error option \<Rightarrow> observed_error option \<Rightarrow> bool" where
  "errors_agree e a \<longleftrightarrow>
     (case (e, a) of
        (None, None) \<Rightarrow> True
      | (Some e, Some a) \<Rightarrow> oeCategory e = oeCategory a \<and> oeCode e = oeCode a
          \<and> (oeMessageIsContract e = Some True \<longrightarrow> oeMessage e = oeMessage a)
      | _ \<Rightarrow> False)"

definition observations_agree :: "observation \<Rightarrow> observation \<Rightarrow> bool" where
  "observations_agree want got \<longleftrightarrow>
     obID want = obID got \<and> obStatus want = obStatus got \<and> obPhase want = obPhase got
     \<and> obResult want = obResult got \<and> errors_agree (obError want) (obError got)
     \<and> obDBState want = obDBState got \<and> obMetrics want = obMetrics got"

lemma check_contracts_None:
  "check_contracts ident check i seen cs = None \<longleftrightarrow>
     (\<forall>c \<in> set cs. check c = None) \<and> distinct (map ident cs) \<and> set (map ident cs) \<inter> set seen = {}"
  by (induction cs arbitrary: i seen) (auto split: option.splits)

lemma check_payload_None [simp]:
  "check_payload ident message check payload = None \<longleftrightarrow> (\<forall>x. payload = Some x \<longrightarrow> check x = None)"
  by (simp add: check_payload_def split: option.split)

lemma observation_payloads:
  assumes "Observation_Validate pt ob = None" and "obStatus ob \<noteq> StatusNotImplemented"
  shows "obStatus ob = StatusObserved"
    and "obResult ob = Some v \<Longrightarrow> canonical_value pt v" "obDBState ob = Some v \<Longrightarrow> canonical_value pt v"
    and "obMetrics ob = Some v \<Longrightarrow> canonical_value pt v"
    and "obError ob = Some e \<Longrightarrow> oeMessageIsContract e \<noteq> None"
  using assms
  by (auto simp: Observation_Validate_def Let_def check_metrics_def ObservedError_Validate_def
      intro: validates_canonical split: if_splits option.splits)

lemma compareValues_Nil:
  "(\<And>v. expected = Some v \<Longrightarrow> canonical_value pt v) \<Longrightarrow> (\<And>v. actual = Some v \<Longrightarrow> canonical_value pt v) \<Longrightarrow>
     compareValues json c root expected actual = [] \<longleftrightarrow> expected = actual"
  using compareValue_Nil(1) by (cases expected; cases actual) (simp_all add: compareValues_def)

lemma text_difference_Nil [simp]: "text_difference c p m s t = [] \<longleftrightarrow> s = t"
  by (simp add: text_difference_def)

lemma compareErrors_Nil:
  "(\<And>e. expected = Some e \<Longrightarrow> oeMessageIsContract e \<noteq> None) \<Longrightarrow>
     compareErrors json c expected actual = [] \<longleftrightarrow> errors_agree expected actual"
  by (cases expected; cases actual) (auto simp: compareErrors_def errors_agree_def)

lemma validateDimensions_None:
  "validateDimensions c ob = None \<longleftrightarrow>
     (\<forall>d \<in> {CompareResult, CompareError, CompareDBState, CompareMetrics}. d \<in> set (ctComparison c) \<longleftrightarrow> dimension_payload ob d)"
  by (auto simp: validateDimensions_def find_None_iff split: option.split)

lemma check_dimensions_None:
  "check_dimensions ident i seen ds = None \<Longrightarrow> set ds \<subseteq> {CompareResult, CompareError, CompareDBState, CompareMetrics}"
  by (induction ds arbitrary: i seen) (auto split: if_splits)

lemma contract_dimensions:
  "Contract_Validate c = None \<Longrightarrow> set (ctComparison c) \<subseteq> {CompareResult, CompareError, CompareDBState, CompareMetrics}"
  by (auto simp: Contract_Validate_def dest!: check_dimensions_None split: if_splits option.splits)

lemma compare_observation_Nil:
  assumes "Contract_Validate c = None" "Observation_Validate pt want = None" "Observation_Validate pt got = None"
    and "obID want = ctID c" "obID got = ctID c" "obPhase want = ctPhase c" "obPhase got = ctPhase c"
    and "obStatus want = StatusObserved" and "validateDimensions c want = None"
    and "obStatus got \<noteq> StatusNotImplemented \<Longrightarrow> validateDimensions c got = None"
  shows "compare_observation json c want got = [] \<longleftrightarrow> observations_agree want got"
proof (cases "obStatus got = StatusNotImplemented")
  case False
  note w = observation_payloads[OF assms(2)] and g = observation_payloads[OF assms(3) False]
  have status: "obStatus got = StatusObserved" by (rule g(1))
  have dims: "\<forall>d \<in> {CompareResult, CompareError, CompareDBState, CompareMetrics}.
      (d \<in> set (ctComparison c) \<longleftrightarrow> dimension_payload want d) \<and> (d \<in> set (ctComparison c) \<longleftrightarrow> dimension_payload got d)"
    using assms(9) assms(10)[OF False] unfolding validateDimensions_None by blast
  have each: "compareValues json (ctID c) root (obResult want) (obResult got) = [] \<longleftrightarrow> obResult want = obResult got"
    "compareValues json (ctID c) root (obDBState want) (obDBState got) = [] \<longleftrightarrow> obDBState want = obDBState got"
    "compareValues json (ctID c) root (obMetrics want) (obMetrics got) = [] \<longleftrightarrow> obMetrics want = obMetrics got"
    "compareErrors json (ctID c) (obError want) (obError got) = [] \<longleftrightarrow> errors_agree (obError want) (obError got)" for root
    using w(2-5) g(2-5) assms(8) by (auto intro!: compareValues_Nil[where pt = pt] compareErrors_Nil)
  have parts: "(CompareResult \<in> set (ctComparison c) \<longrightarrow> compare_dimension json (ctID c) want got CompareResult = [])
        \<longleftrightarrow> obResult want = obResult got"
    "(CompareError \<in> set (ctComparison c) \<longrightarrow> compare_dimension json (ctID c) want got CompareError = [])
        \<longleftrightarrow> errors_agree (obError want) (obError got)"
    "(CompareDBState \<in> set (ctComparison c) \<longrightarrow> compare_dimension json (ctID c) want got CompareDBState = [])
        \<longleftrightarrow> obDBState want = obDBState got"
    "(CompareMetrics \<in> set (ctComparison c) \<longrightarrow> compare_dimension json (ctID c) want got CompareMetrics = [])
        \<longleftrightarrow> obMetrics want = obMetrics got"
    using dims by (auto simp: compare_dimension_def dimension_payload_def each errors_agree_def)
  have "(\<forall>d \<in> set (ctComparison c). compare_dimension json (ctID c) want got d = []) \<longleftrightarrow>
      (\<forall>d \<in> {CompareResult, CompareError, CompareDBState, CompareMetrics}.
         d \<in> set (ctComparison c) \<longrightarrow> compare_dimension json (ctID c) want got d = [])"
    using contract_dimensions[OF assms(1)] by blast
  then have agree: "(\<forall>d \<in> set (ctComparison c). compare_dimension json (ctID c) want got d = []) \<longleftrightarrow>
      obResult want = obResult got \<and> errors_agree (obError want) (obError got)
      \<and> obDBState want = obDBState got \<and> obMetrics want = obMetrics got"
    using parts by simp
  show ?thesis
    using False assms(4-8) status agree
    by (simp add: compare_observation_def observations_agree_def)
qed (use assms(8) in \<open>simp add: compare_observation_def observations_agree_def\<close>)

text \<open>What \<open>check_against\<close> establishes of a contract and the observations at its place.\<close>

definition matches_contract :: "contract \<Rightarrow> observation \<Rightarrow> bool" where
  "matches_contract c ob \<longleftrightarrow> ctStatus c \<noteq> ContractDraft \<and> obID ob = ctID c \<and> obPhase ob = ctPhase c
     \<and> (obStatus ob \<noteq> StatusNotImplemented \<longrightarrow> validateDimensions c ob = None)"

lemma check_against_None:
  "length cs = length obs \<Longrightarrow> check_against i cs obs = None \<longleftrightarrow> list_all2 matches_contract cs obs"
  by (induction i cs obs rule: check_against.induct) (auto simp: matches_contract_def split: option.splits)

lemma ValidateSuiteAgainst_None:
  "ValidateSuiteAgainst pt p m s = None \<longleftrightarrow> Profile_Validate p = None \<and> Manifest_Validate m = None
     \<and> Suite_Validate pt s = None \<and> mfProfileID m = prID p \<and> osProfile s = Snapshot p
     \<and> list_all2 matches_contract (mfContracts m) (osContracts s)"
  using check_against_None[of "mfContracts m" "osContracts s" 0]
  by (auto simp: ValidateSuiteAgainst_def split: option.splits dest: list_all2_lengthD)

lemma compare_contracts_Nil:
  assumes "list_all2 matches_contract cs wants" and "list_all2 matches_contract cs gots"
    and "\<forall>c \<in> set cs. Contract_Validate c = None" and "\<forall>ob \<in> set wants \<union> set gots. Observation_Validate pt ob = None"
  shows "compare_contracts json cs wants gots = Inr [] \<longleftrightarrow>
    (\<forall>want \<in> set wants. obStatus want = StatusObserved) \<and> list_all2 observations_agree wants gots"
  using assms
proof (induction json cs wants gots rule: compare_contracts.induct)
  case (1 json c cs want wants got gots)
  show ?case
  proof (cases "obStatus want = StatusObserved")
    case True
    have "compare_observation json c want got = [] \<longleftrightarrow> observations_agree want got"
      using "1.prems" True by (intro compare_observation_Nil[where pt = pt]) (auto simp: matches_contract_def)
    moreover have "compare_contracts json cs wants gots = Inr [] \<longleftrightarrow>
        (\<forall>want \<in> set wants. obStatus want = StatusObserved) \<and> list_all2 observations_agree wants gots"
      using 1 True by simp
    ultimately show ?thesis
      using True by (cases "compare_contracts json cs wants gots") auto
  qed simp
qed (auto simp: list_all2_Cons1 list_all2_Cons2)

lemma valid_suite_parts:
  assumes "ValidateSuiteAgainst pt p m s = None"
  shows "\<forall>c \<in> set (mfContracts m). Contract_Validate c = None"
    and "\<forall>ob \<in> set (osContracts s). Observation_Validate pt ob = None"
    and "list_all2 matches_contract (mfContracts m) (osContracts s)"
  using assms
  by (auto simp: ValidateSuiteAgainst_None Manifest_Validate_def Suite_Validate_def check_contracts_None
      split: if_splits option.splits)

lemma Compare_Nil:
  "Compare parse_time json p m expected actual = Inr [] \<longleftrightarrow>
     ValidateSuiteAgainst parse_time p m expected = None \<and> ValidateSuiteAgainst parse_time p m actual = None
     \<and> list_all (\<lambda>want. obStatus want = StatusObserved) (osContracts expected)
     \<and> list_all2 observations_agree (osContracts expected) (osContracts actual)"
proof (cases "ValidateSuiteAgainst parse_time p m expected = None \<and> ValidateSuiteAgainst parse_time p m actual = None")
  case True
  note e = valid_suite_parts[OF conjunct1[OF True]] and a = valid_suite_parts[OF conjunct2[OF True]]
  have "compare_contracts json (mfContracts m) (osContracts expected) (osContracts actual) = Inr [] \<longleftrightarrow>
      (\<forall>want \<in> set (osContracts expected). obStatus want = StatusObserved)
      \<and> list_all2 observations_agree (osContracts expected) (osContracts actual)"
    using e a by (intro compare_contracts_Nil[where pt = parse_time]) auto
  with True show ?thesis by (simp add: Compare_def list_all_iff)
qed (auto simp: Compare_def split: option.splits)

text \<open>
  C36: \<open>Compare\<close> reports no difference exactly when both suites are valid for the locked profile and
  manifest, every expected contract is observed, and the observations agree contract by contract:
  same status and phase, equal values in every payload, errors equal in category, code and, where
  it is contractual, message.
\<close>

theorem Compare_decides_agreement:
  "Compare parse_time json p m expected actual = Inr [] \<longleftrightarrow>
     ValidateSuiteAgainst parse_time p m expected = None \<and> ValidateSuiteAgainst parse_time p m actual = None
     \<and> list_all (\<lambda>want. obStatus want = StatusObserved) (osContracts expected)
     \<and> list_all2 observations_agree (osContracts expected) (osContracts actual)"
  by (rule Compare_Nil)

end
