(* ===== verification/Protocol_Deviation.thy ===== *)
theory Protocol_Deviation
  imports Protocol_Compare "HOL-Library.Sublist" "HOL-Library.Code_Target_Nat"
begin

text \<open>
  Package \<open>conformance/internal/protocol\<close>, \<open>deviation.go\<close>: reviewed deviations from a locked
  reference suite. The Go code walks a path to a pointer into the cloned suite and writes through
  it; here the walk yields the steps to the place, and writing is an update along these steps. The
  JSON round trips that clone manifest and suite are parameters.
\<close>

section \<open>Policies\<close>

record change_policy =
  cpDimension :: deviation_dimension
  cpPath :: string
  cpOperation :: deviation_operation

record contract_policy =
  kpID :: string
  kpChanges :: "change_policy list"

record deviation_policy =
  dpDecision :: string
  dpContracts :: "contract_policy list"

definition validateDeviationSelector :: "change_policy \<Rightarrow> go_error option" where
  "validateDeviationSelector selector =
     (case cpDimension selector of
        DeviationPhase \<Rightarrow>
          if cpPath selector \<noteq> '''' \<or> cpOperation selector \<noteq> DeviationReplace
          then Some (ErrFmt ''phase selector must use an empty path and %q''
                 [FStr (deviation_operation_string DeviationReplace)])
          else None
      | DeviationDimensionOther s \<Rightarrow> Some (ErrFmt ''unknown dimension %q'' [FStr s])
      | _ \<Rightarrow> path_change_error (cpPath selector) (cpOperation selector))"

fun check_policies :: "nat \<Rightarrow> string list \<Rightarrow> contract_policy list \<Rightarrow> go_error option" where
  "check_policies index seen [] = None"
| "check_policies index seen (c # cs) =
     (if \<not> contractIDPattern (kpID c)
      then Some (ErrFmt ''contract %d: id %q must match %s'' [FInt (int index), FStr (kpID c), FStr contractID_regex])
      else if kpID c \<in> set seen
      then Some (ErrFmt ''contract %d: duplicate id %q'' [FInt (int index), FStr (kpID c)])
      else if kpChanges c = [] then Some (ErrFmt ''%s: changes must not be empty'' [FStr (kpID c)])
      else
      (case check_changes (kpID c) validateDeviationSelector cpDimension cpPath 0 [] (kpChanges c) of
         Some err \<Rightarrow> Some err
       | None \<Rightarrow> check_policies (Suc index) (kpID c # seen) cs))"

definition validateDeviationPolicy :: "deviation_policy \<Rightarrow> go_error option" where
  "validateDeviationPolicy policy =
     (if \<not> decisionPattern (dpDecision policy)
      then Some (ErrFmt ''decision %q must match %s'' [FStr (dpDecision policy), FStr decision_regex])
      else if dpContracts policy = [] \<or> length (dpContracts policy) > 12
      then Some (ErrFmt ''contracts must contain 1 to 12 ordered entries, got %d''
             [FInt (int (length (dpContracts policy)))])
      else check_policies 0 [] (dpContracts policy))"

section \<open>Walking a path\<close>

datatype value_step = FieldAt nat | ItemAt nat

record value_location =
  vlValue :: "value_step list"
  vlList :: "value_step list option"
  vlIndex :: int

definition get_step :: "value_step \<Rightarrow> pvalue \<Rightarrow> pvalue" where
  "get_step s v = (case s of FieldAt i \<Rightarrow> snd (the (pvFields v) ! i) | ItemAt i \<Rightarrow> the (pvItems v) ! i)"

definition put_step :: "value_step \<Rightarrow> pvalue \<Rightarrow> pvalue \<Rightarrow> pvalue" where
  "put_step s v w =
     (case v of PValue t b x e n its fs \<Rightarrow>
        (case s of
           FieldAt i \<Rightarrow> PValue t b x e n its (map_option (\<lambda>flds. flds[i := (fst (flds ! i), w)]) fs)
         | ItemAt i \<Rightarrow> PValue t b x e n (map_option (\<lambda>items. items[i := w]) its) fs))"

fun get_at :: "value_step list \<Rightarrow> pvalue \<Rightarrow> pvalue" where
  "get_at [] v = v"
| "get_at (s # steps) v = get_at steps (get_step s v)"

text \<open>Writing through the pointer: the value at the steps is replaced by \<open>f\<close> of it.\<close>

fun update_at :: "value_step list \<Rightarrow> (pvalue \<Rightarrow> pvalue) \<Rightarrow> pvalue \<Rightarrow> pvalue" where
  "update_at [] f v = f v"
| "update_at (s # steps) f v = put_step s v (update_at steps f (get_step s v))"

definition insert_item :: "nat \<Rightarrow> pvalue \<Rightarrow> pvalue \<Rightarrow> pvalue" where
  "insert_item i new v =
     (case v of PValue t b x e n its fs \<Rightarrow>
        PValue t b x e n (map_option (\<lambda>items. take i items @ [new] @ drop i items) its) fs)"

fun field_index :: "nat \<Rightarrow> (string \<times> pvalue) list \<Rightarrow> string \<Rightarrow> nat option" where
  "field_index i [] name = None"
| "field_index i ((n, _) # flds) name = (if n = name then Some i else field_index (Suc i) flds name)"

definition valueObjectField :: "pvalue \<Rightarrow> string \<Rightarrow> nat option" where
  "valueObjectField v name = (case pvFields v of None \<Rightarrow> None | Some flds \<Rightarrow> field_index 0 flds name)"

text \<open>The items of a list; a nil slice has none.\<close>

definition slice_items :: "pvalue \<Rightarrow> pvalue list" where
  "slice_items v = (case pvItems v of None \<Rightarrow> [] | Some items \<Rightarrow> items)"

text \<open>\<open>strconv.Atoi\<close> of a string of digits: it fails beyond the largest \<open>int\<close>.\<close>

definition digits_value :: "string \<Rightarrow> nat" where
  "digits_value s = foldl (\<lambda>n c. 10 * n + (byte c - 48)) 0 s"

definition atoi :: "string \<Rightarrow> nat option" where
  "atoi s = (let n = digits_value s in if n > 9223372036854775807 then None else Some n)"

fun locate_segments :: "string \<Rightarrow> nat \<Rightarrow> pvalue \<Rightarrow> value_location \<Rightarrow> string list \<Rightarrow> go_error + value_location" where
  "locate_segments path segmentIndex current location [] = Inr location"
| "locate_segments path segmentIndex current location (segment # segments) =
     (case path_segment segment of
        None \<Rightarrow> Inl (ErrFmt ''invalid path segment %q'' [FStr segment])
      | Some (name, indexText) \<Rightarrow>
          if pvType current \<noteq> ValueObject
          then Inl (ErrFmt ''path %q segment %d requires an object, got %q''
                 [FStr path, FInt (int segmentIndex), FStr (wire_type_string (pvType current))])
          else
          (case valueObjectField current name of
             None \<Rightarrow> Inl (ErrFmt ''path %q field %q is absent'' [FStr path, FStr name])
           | Some position \<Rightarrow>
             (let fieldSteps = vlValue location @ [FieldAt position];
                  fieldValue = get_step (FieldAt position) current;
                  fieldLocation = \<lparr>vlValue = fieldSteps, vlList = None, vlIndex = -1\<rparr> in
              case indexText of
                None \<Rightarrow> locate_segments path (Suc segmentIndex) fieldValue fieldLocation segments
              | Some digits \<Rightarrow>
                (case atoi digits of
                   None \<Rightarrow> Inl (ErrFmt ''path %q index %q is invalid'' [FStr path, FStr digits])
                 | Some index \<Rightarrow>
                     if pvType fieldValue \<noteq> ValueList
                     then Inl (ErrFmt ''path %q segment %d requires a list, got %q''
                            [FStr path, FInt (int segmentIndex), FStr (wire_type_string (pvType fieldValue))])
                     else if index \<ge> length (slice_items fieldValue)
                     then Inl (ErrFmt ''path %q index %d is outside %d items''
                            [FStr path, FInt (int index), FInt (int (length (slice_items fieldValue)))])
                     else locate_segments path (Suc segmentIndex) (get_step (ItemAt index) fieldValue)
                            \<lparr>vlValue = fieldSteps @ [ItemAt index], vlList = Some fieldSteps, vlIndex = int index\<rparr>
                            segments))))"

definition locateDeviationValue :: "pvalue \<Rightarrow> string \<Rightarrow> go_error + value_location" where
  "locateDeviationValue root path =
     locate_segments path 0 root \<lparr>vlValue = [], vlList = None, vlIndex = -1\<rparr> (split_on (CHR ''.'') path)"

section \<open>Applying a change\<close>

definition deviationDimensionRoot :: "observation \<Rightarrow> deviation_dimension \<Rightarrow> go_error + pvalue" where
  "deviationDimensionRoot ob d =
     (case (case d of
              DeviationResult \<Rightarrow> Some (obResult ob)
            | DeviationDBState \<Rightarrow> Some (obDBState ob)
            | DeviationMetrics \<Rightarrow> Some (obMetrics ob)
            | _ \<Rightarrow> None) of
        None \<Rightarrow> Inl (ErrFmt ''dimension %q has no value root'' [FStr (deviation_dimension_string d)])
      | Some None \<Rightarrow> Inl (ErrFmt ''dimension %q is absent from locked observation'' [FStr (deviation_dimension_string d)])
      | Some (Some root) \<Rightarrow> Inr root)"

definition put_root :: "deviation_dimension \<Rightarrow> pvalue \<Rightarrow> observation \<Rightarrow> observation" where
  "put_root d v ob =
     (case d of
        DeviationResult \<Rightarrow> ob\<lparr>obResult := Some v\<rparr>
      | DeviationDBState \<Rightarrow> ob\<lparr>obDBState := Some v\<rparr>
      | DeviationMetrics \<Rightarrow> ob\<lparr>obMetrics := Some v\<rparr>
      | _ \<Rightarrow> ob)"

definition apply_phase_change :: "contract \<Rightarrow> observation \<Rightarrow> deviation_change \<Rightarrow> go_error + contract \<times> observation" where
  "apply_phase_change c ob change =
     (let referencePhase = phase_of (the (pvText (dcReference change)));
          productPhase = phase_of (the (pvText (dcProduct change))) in
      if obPhase ob \<noteq> referencePhase \<or> ctPhase c \<noteq> referencePhase
      then Inl (ErrFmt ''phase reference %q does not match locked observation %q and manifest %q''
             [FStr (phase_string referencePhase), FStr (phase_string (obPhase ob)), FStr (phase_string (ctPhase c))])
      else Inr (c\<lparr>ctPhase := productPhase\<rparr>, ob\<lparr>obPhase := productPhase\<rparr>))"

definition apply_value_change :: "json_text \<Rightarrow> pvalue \<Rightarrow> deviation_change \<Rightarrow> go_error + pvalue" where
  "apply_value_change json root change =
     (case locateDeviationValue root (dcPath change) of
        Inl err \<Rightarrow> Inl err
      | Inr location \<Rightarrow>
        (let found = get_at (vlValue location) root in
         if found \<noteq> dcReference change
         then Inl (ErrFmt ''%s path %q reference does not match locked observation (want %s, got %s)''
                [FStr (deviation_dimension_string (dcDimension change)), FStr (dcPath change),
                 FStr (jtValue json (dcReference change)), FStr (jtValue json found)])
         else
         (case dcOperation change of
            DeviationReplace \<Rightarrow> Inr (update_at (vlValue location) (\<lambda>_. dcProduct change) root)
          | DeviationInsertBefore \<Rightarrow>
              (if vlList location = None \<or> vlIndex location < 0
               then Inl (ErrFmt ''insert_before path %q must end at a list index'' [FStr (dcPath change)])
               else Inr (update_at (the (vlList location))
                           (insert_item (nat (vlIndex location)) (dcProduct change)) root))
          | DeviationOperationOther s \<Rightarrow> Inl (ErrFmt ''unknown operation %q'' [FStr s]))))"

definition applyDeviationChange :: "json_text \<Rightarrow> contract \<Rightarrow> observation \<Rightarrow> deviation_change
    \<Rightarrow> go_error + contract \<times> observation" where
  "applyDeviationChange json c ob change =
     (if dcDimension change = DeviationPhase then apply_phase_change c ob change
      else
      (case deviationDimensionRoot ob (dcDimension change) of
         Inl err \<Rightarrow> Inl err
       | Inr root \<Rightarrow>
           map_sum id (\<lambda>root'. (c, put_root (dcDimension change) root' ob)) (apply_value_change json root change)))"

fun apply_changes :: "json_text \<Rightarrow> string \<Rightarrow> nat \<Rightarrow> deviation_change list \<Rightarrow> contract \<Rightarrow> observation
    \<Rightarrow> go_error + contract \<times> observation" where
  "apply_changes json ident index [] c ob = Inr (c, ob)"
| "apply_changes json ident index (change # changes) c ob =
     (case applyDeviationChange json c ob change of
        Inl err \<Rightarrow> Inl (ErrWrap ''%s: apply deviation change %d: %w'' [FStr ident, FInt (int index)] err)
      | Inr (c', ob') \<Rightarrow> apply_changes json ident (Suc index) changes c' ob')"

section \<open>What a change does\<close>

text \<open>
  The meaning of a change, without the walk and without positions in memory. A path names a place by
  steps to a named field or a numbered item; a change relates the value before and the value after.
\<close>

datatype place_step = Named string | Numbered nat

text \<open>One segment \<open>name\<close> or \<open>name[digits]\<close> of a path, and a path of segments joined by dots.\<close>

definition segment_names :: "string \<Rightarrow> place_step list \<Rightarrow> bool" where
  "segment_names s ts \<longleftrightarrow> (\<exists>name. word name \<and>
     (s = name \<and> ts = [Named name]
      \<or> (\<exists>ds. ds \<noteq> '''' \<and> list_all digit ds \<and> s = name @ ''['' @ ds @ '']'' \<and> ts = [Named name, Numbered (digits_value ds)])))"

definition path_names :: "string \<Rightarrow> place_step list \<Rightarrow> bool" where
  "path_names path ts \<longleftrightarrow> (\<exists>segments tss. segments \<noteq> [] \<and> path = join_strings ''.'' segments
     \<and> list_all2 segment_names segments tss \<and> ts = concat tss)"

text \<open>
  The value at the place is the reference. A replacement puts the product there; an insertion puts
  the product before the reference in its list; everything beside the way to the place is kept. The
  first field of the name is meant, and an index is an \<open>int\<close>.
\<close>

inductive value_changed :: "deviation_operation \<Rightarrow> pvalue \<Rightarrow> pvalue \<Rightarrow> place_step list \<Rightarrow> pvalue \<Rightarrow> pvalue \<Rightarrow> bool" where
  replaced: "value_changed DeviationReplace reference product [] reference product"
| inserted: "length before \<le> 9223372036854775807 \<Longrightarrow>
    value_changed DeviationInsertBefore reference product [Numbered (length before)]
      (PValue ValueList b x e n (Some (before @ reference # after)) fs)
      (PValue ValueList b x e n (Some (before @ product # reference # after)) fs)"
| in_field: "value_changed op reference product ts v w \<Longrightarrow> name \<notin> fst ` set before \<Longrightarrow>
    value_changed op reference product (Named name # ts)
      (PValue ValueObject b x e n its (Some (before @ (name, v) # after)))
      (PValue ValueObject b x e n its (Some (before @ (name, w) # after)))"
| in_item: "value_changed op reference product ts v w \<Longrightarrow> length before \<le> 9223372036854775807 \<Longrightarrow>
    value_changed op reference product (Numbered (length before) # ts)
      (PValue ValueList b x e n (Some (before @ v # after)) fs)
      (PValue ValueList b x e n (Some (before @ w # after)) fs)"

text \<open>The payload a value dimension selects, and the observation with that payload exchanged.\<close>

inductive observation_payload :: "deviation_dimension \<Rightarrow> pvalue \<Rightarrow> pvalue \<Rightarrow> observation \<Rightarrow> observation \<Rightarrow> bool" where
  "obResult ob = Some v \<Longrightarrow> observation_payload DeviationResult v w ob (ob\<lparr>obResult := Some w\<rparr>)"
| "obDBState ob = Some v \<Longrightarrow> observation_payload DeviationDBState v w ob (ob\<lparr>obDBState := Some w\<rparr>)"
| "obMetrics ob = Some v \<Longrightarrow> observation_payload DeviationMetrics v w ob (ob\<lparr>obMetrics := Some w\<rparr>)"

text \<open>
  One change of a contract and its observation: of their common phase from the reference to the
  product, or of a value at a place.
\<close>

inductive changed :: "deviation_change \<Rightarrow> contract \<times> observation \<Rightarrow> contract \<times> observation \<Rightarrow> bool" where
  phase_changed: "dcDimension change = DeviationPhase \<Longrightarrow> pvText (dcReference change) = Some reference \<Longrightarrow>
    pvText (dcProduct change) = Some product \<Longrightarrow> ctPhase c = phase_of reference \<Longrightarrow> obPhase ob = phase_of reference \<Longrightarrow>
    changed change (c, ob) (c\<lparr>ctPhase := phase_of product\<rparr>, ob\<lparr>obPhase := phase_of product\<rparr>)"
| payload_changed: "path_names (dcPath change) ts \<Longrightarrow>
    value_changed (dcOperation change) (dcReference change) (dcProduct change) ts v w \<Longrightarrow>
    observation_payload (dcDimension change) v w ob ob' \<Longrightarrow> changed change (c, ob) (c, ob')"

text \<open>Changes in their order, each on what the one before left.\<close>

fun all_changed :: "deviation_change list \<Rightarrow> contract \<times> observation \<Rightarrow> contract \<times> observation \<Rightarrow> bool" where
  "all_changed [] before after \<longleftrightarrow> after = before"
| "all_changed (change # changes) before after \<longleftrightarrow> (\<exists>between. changed change before between \<and> all_changed changes between after)"

text \<open>
  What becomes of a contract with the given identifier: changed as its deviation says, or left
  alone when the expectation does not name it.
\<close>

definition product_contract :: "deviation_contract list \<Rightarrow> string \<Rightarrow> contract \<times> observation
    \<Rightarrow> contract \<times> observation \<Rightarrow> bool" where
  "product_contract ds ident before after \<longleftrightarrow>
     (\<forall>d \<in> set ds. dvID d = ident \<longrightarrow> all_changed (dvChanges d) before after)
     \<and> (ident \<notin> dvID ` set ds \<longrightarrow> after = before)"

section \<open>The walk finds the place\<close>

text \<open>The steps of a path as the walk takes them.\<close>

fun segment_steps :: "string \<times> string option \<Rightarrow> place_step list" where
  "segment_steps (name, None) = [Named name]"
| "segment_steps (name, Some ds) = [Named name, Numbered (digits_value ds)]"

lemma not_dot: "word_char c \<Longrightarrow> c \<noteq> CHR ''.''" "digit c \<Longrightarrow> c \<noteq> CHR ''.''" "\<not> word_char (CHR ''['')"
  by (auto simp: word_char_def lower_letter_def digit_def byte_def)

lemma word_chars: "word s \<Longrightarrow> \<forall>c \<in> set s. word_char c"
  by (cases s) (auto simp: word_def word_char_def list_all_iff)

lemma path_segment_Some:
  "(\<exists>parts. path_segment s = Some parts \<and> segment_steps parts = ts) \<longleftrightarrow> segment_names s ts"
proof
  assume "\<exists>parts. path_segment s = Some parts \<and> segment_steps parts = ts"
  then obtain parts where p: "path_segment s = Some parts" "segment_steps parts = ts" by blast
  let ?name = "takeWhile word_char s" and ?rest = "dropWhile word_char s"
  have s: "s = ?name @ ?rest" by simp
  have name: "word ?name" using p(1) by (auto simp: path_segment_def Let_def split: if_splits)
  show "segment_names s ts"
  proof (cases "?rest = ''''")
    case True
    then have "s = ?name" using s by (metis append_Nil2)
    moreover have "parts = (?name, None)" using p(1) True name by (simp add: path_segment_def)
    ultimately show ?thesis using p(2) name unfolding segment_names_def by (metis segment_steps.simps(1))
  next
    case False
    with p(1) have r: "hd ?rest = CHR ''[''" "3 \<le> length ?rest" "last ?rest = CHR '']''" "list_all digit (butlast (tl ?rest))"
      "parts = (?name, Some (butlast (tl ?rest)))"
      by (auto simp: path_segment_def Let_def split: if_splits)
    obtain a bs where ab: "?rest = a # bs" using False by (cases ?rest) auto
    then have "bs \<noteq> []" using r(2) by auto
    then have "bs = butlast bs @ [last bs]" by simp
    moreover have "last bs = CHR '']''" "a = CHR ''[''" using r(1,3) ab \<open>bs \<noteq> []\<close> by simp_all
    ultimately have "?rest = ''['' @ butlast (tl ?rest) @ '']''" using ab by (metis append_Cons append_Nil list.sel(3))
    moreover have "butlast (tl ?rest) \<noteq> ''''" using r(2) by (cases "butlast (tl ?rest)") (auto dest: arg_cong[of _ _ length])
    ultimately show ?thesis
      unfolding segment_names_def using name r(4) p(2) unfolding r(5) segment_steps.simps by (metis s)
  qed
next
  assume "segment_names s ts"
  then obtain name where w: "word name" and cases: "s = name \<and> ts = [Named name]
      \<or> (\<exists>ds. ds \<noteq> '''' \<and> list_all digit ds \<and> s = name @ ''['' @ ds @ '']'' \<and> ts = [Named name, Numbered (digits_value ds)])"
    unfolding segment_names_def by blast
  note chars = word_chars[OF w]
  from cases show "\<exists>parts. path_segment s = Some parts \<and> segment_steps parts = ts"
  proof
    assume s: "s = name \<and> ts = [Named name]"
    have "takeWhile word_char s = name" "dropWhile word_char s = ''''" using s chars by auto
    then have "path_segment s = Some (name, None)" using w by (simp add: path_segment_def)
    then show ?thesis using s by force
  next
    assume "\<exists>ds. ds \<noteq> '''' \<and> list_all digit ds \<and> s = name @ ''['' @ ds @ '']'' \<and> ts = [Named name, Numbered (digits_value ds)]"
    then obtain ds where d: "ds \<noteq> ''''" "list_all digit ds" "s = name @ ''['' @ ds @ '']''"
      "ts = [Named name, Numbered (digits_value ds)]" by blast
    have "takeWhile word_char s = name" "dropWhile word_char s = ''['' @ ds @ '']''"
      using d(3) chars not_dot(3) by (simp_all add: takeWhile_append2 dropWhile_append2)
    moreover have "3 \<le> length (''['' @ ds @ '']'')" using d(1) by (cases ds) auto
    ultimately have "path_segment s = Some (name, Some ds)"
      using w d(2) by (simp add: path_segment_def butlast_append)
    then show ?thesis using d(4) by force
  qed
qed

lemma split_on_not_Nil [simp]: "split_on sep s \<noteq> []"
  by (induction sep s rule: split_on.induct) (auto split: list.split)

lemma split_on_free: "sep \<notin> set s \<Longrightarrow> split_on sep s = [s]"
  by (induction s) auto

lemma split_on_append: "sep \<notin> set s \<Longrightarrow> split_on sep (s @ sep # t) = s # split_on sep t"
  by (induction s) auto

lemma split_on_join:
  "segments \<noteq> [] \<Longrightarrow> \<forall>s \<in> set segments. sep \<notin> set s \<Longrightarrow> split_on sep (join_strings [sep] segments) = segments"
  by (induction "[sep]" segments rule: join_strings.induct) (simp_all add: split_on_free split_on_append)

lemma join_strings_Cons: "parts \<noteq> [] \<Longrightarrow> join_strings sep (s # parts) = s @ sep @ join_strings sep parts"
  by (cases parts) auto

lemma join_split_on: "join_strings [sep] (split_on sep s) = s"
proof (induction s)
  case (Cons c s)
  show ?case
  proof (cases "c = sep")
    case True
    then show ?thesis using Cons.IH by (simp add: join_strings_Cons)
  next
    case False
    obtain part parts where "split_on sep s = part # parts" by (cases "split_on sep s") auto
    then show ?thesis using Cons.IH False by (cases parts) auto
  qed
qed simp

lemma segment_names_free: "segment_names s ts \<Longrightarrow> CHR ''.'' \<notin> set s"
proof -
  assume "segment_names s ts"
  then obtain name where w: "word name" and s: "s = name \<or> (\<exists>ds. list_all digit ds \<and> s = name @ ''['' @ ds @ '']'')"
    unfolding segment_names_def by blast
  have "CHR ''.'' \<notin> set name" using word_chars[OF w] not_dot(1) by blast
  moreover have "CHR ''.'' \<notin> set ds" if "list_all digit ds" for ds using that not_dot(2) by (auto simp: list_all_iff)
  ultimately show ?thesis using s by auto
qed

lemma path_names_split:
  "path_names path ts \<longleftrightarrow> (\<exists>tss. list_all2 segment_names (split_on (CHR ''.'') path) tss \<and> ts = concat tss)" (is "_ \<longleftrightarrow> ?R")
proof
  assume "path_names path ts"
  then obtain segments tss where s: "segments \<noteq> []" "path = join_strings ''.'' segments"
    "list_all2 segment_names segments tss" "ts = concat tss" unfolding path_names_def by blast
  have "\<forall>s \<in> set segments. CHR ''.'' \<notin> set s"
    using s(3) segment_names_free by (metis in_set_conv_nth list_all2_conv_all_nth)
  then have "split_on (CHR ''.'') path = segments" using s(1,2) split_on_join by simp
  then show ?R using s(3,4) by blast
next
  assume ?R
  then show "path_names path ts"
    unfolding path_names_def using join_split_on[of "CHR ''.''" path] split_on_not_Nil by metis
qed

text \<open>The positions the steps of a place take in a value.\<close>

abbreviation item_in :: "nat \<Rightarrow> pvalue \<Rightarrow> bool" where
  "item_in i v \<equiv> pvType v = ValueList \<and> i < length (slice_items v) \<and> i \<le> 9223372036854775807"

fun resolve :: "place_step list \<Rightarrow> pvalue \<Rightarrow> value_step list option" where
  "resolve [] v = Some []"
| "resolve (Named name # ts) v =
     (case valueObjectField v name of
        Some i \<Rightarrow> if pvType v = ValueObject then map_option (Cons (FieldAt i)) (resolve ts (get_step (FieldAt i) v)) else None
      | None \<Rightarrow> None)"
| "resolve (Numbered i # ts) v =
     (if item_in i v then map_option (Cons (ItemAt i)) (resolve ts (get_step (ItemAt i) v)) else None)"

definition location_of :: "value_step list \<Rightarrow> value_location" where
  "location_of st =
     (case rev st of
        ItemAt i # before \<Rightarrow> \<lparr>vlValue = st, vlList = Some (rev before), vlIndex = int i\<rparr>
      | _ \<Rightarrow> \<lparr>vlValue = st, vlList = None, vlIndex = -1\<rparr>)"

lemma location_of_snoc [simp]:
  "location_of [] = \<lparr>vlValue = [], vlList = None, vlIndex = -1\<rparr>"
  "location_of (st @ [FieldAt i]) = \<lparr>vlValue = st @ [FieldAt i], vlList = None, vlIndex = -1\<rparr>"
  "location_of (st @ [ItemAt i]) = \<lparr>vlValue = st @ [ItemAt i], vlList = Some st, vlIndex = int i\<rparr>"
  "location_of (st @ [s, ItemAt i]) = \<lparr>vlValue = st @ [s, ItemAt i], vlList = Some (st @ [s]), vlIndex = int i\<rparr>"
  by (simp_all add: location_of_def)

lemma location_of_value [simp]: "vlValue (location_of st) = st"
  by (auto simp: location_of_def split: list.split value_step.split)

lemma atoi_Some: "atoi ds = Some i \<longleftrightarrow> i = digits_value ds \<and> i \<le> 9223372036854775807"
  by (auto simp: atoi_def Let_def)

lemma locate_segments_Inr:
  "locate_segments path k current (location_of st) segments = Inr location \<longleftrightarrow>
     (\<exists>tss st'. list_all2 segment_names segments tss \<and> resolve (concat tss) current = Some st'
        \<and> location = location_of (st @ st'))"
proof (induction segments arbitrary: k current st)
  case (Cons s segments)
  have names: "segment_names s ts \<longleftrightarrow> (\<exists>parts. path_segment s = Some parts \<and> ts = segment_steps parts)" for ts
    by (auto simp flip: path_segment_Some)
  show ?case
  proof (cases "path_segment s")
    case None
    then show ?thesis by (simp add: list_all2_Cons1 names)
  next
    case (Some parts)
    obtain name index where parts: "parts = (name, index)" by (cases parts)
    have rest: "(\<exists>tss st'. list_all2 segment_names (s # segments) tss \<and> resolve (concat tss) current = Some st'
          \<and> location = location_of (st @ st')) \<longleftrightarrow>
        (\<exists>tss st'. list_all2 segment_names segments tss \<and> resolve (segment_steps parts @ concat tss) current = Some st'
          \<and> location = location_of (st @ st'))"
      using Some by (auto simp: list_all2_Cons1 names)
    show ?thesis
    proof (cases "pvType current = ValueObject \<and> valueObjectField current name \<noteq> None")
      case False
      then show ?thesis unfolding rest using Some parts
        by (cases index) (auto simp: Let_def split: option.splits)
    next
      case True
      then obtain i where i: "valueObjectField current name = Some i" and obj: "pvType current = ValueObject" by blast
      let ?v = "get_step (FieldAt i) current"
      have step: "locate_segments path k current (location_of st) (s # segments) =
          (case index of None \<Rightarrow> locate_segments path (Suc k) ?v (location_of (st @ [FieldAt i])) segments
           | Some digits \<Rightarrow> (case atoi digits of None \<Rightarrow> Inl (ErrFmt ''path %q index %q is invalid'' [FStr path, FStr digits])
              | Some j \<Rightarrow> if pvType ?v \<noteq> ValueList
                     then Inl (ErrFmt ''path %q segment %d requires a list, got %q''
                            [FStr path, FInt (int k), FStr (wire_type_string (pvType ?v))])
                     else if j \<ge> length (slice_items ?v)
                     then Inl (ErrFmt ''path %q index %d is outside %d items''
                            [FStr path, FInt (int j), FInt (int (length (slice_items ?v)))])
                     else locate_segments path (Suc k) (get_step (ItemAt j) ?v)
                            (location_of (st @ [FieldAt i, ItemAt j])) segments))"
        using Some parts i obj by (cases index) (simp_all add: Let_def split: option.split)
      show ?thesis
      proof (cases index)
        case None
        have *: "resolve (segment_steps parts @ concat tss) current = Some st' \<longleftrightarrow>
            (\<exists>st''. resolve (concat tss) ?v = Some st'' \<and> st' = FieldAt i # st'')" for tss st'
          using parts None i obj by auto
        show ?thesis unfolding rest * step None using Cons.IH[of "Suc k" ?v "st @ [FieldAt i]"] by auto
      next
        case Some: (Some digits)
        have *: "resolve (segment_steps parts @ concat tss) current = Some st' \<longleftrightarrow> item_in (digits_value digits) ?v \<and>
            (\<exists>st''. resolve (concat tss) (get_step (ItemAt (digits_value digits)) ?v) = Some st''
               \<and> st' = FieldAt i # ItemAt (digits_value digits) # st'')" for tss st'
          using parts Some i obj by auto
        show ?thesis
        proof (cases "atoi digits")
          case None
          then have "\<not> digits_value digits \<le> 9223372036854775807" by (auto simp: atoi_def Let_def split: if_splits)
          then show ?thesis unfolding rest * step Some using None by simp
        next
          case at: (Some j)
          then have j: "j = digits_value digits" "j \<le> 9223372036854775807" by (simp_all add: atoi_Some)
          show ?thesis
          proof (cases "item_in j ?v")
            case False
            then show ?thesis unfolding rest * step Some using j at by auto
          next
            case True
            then show ?thesis unfolding rest * step Some
              using j at Cons.IH[of "Suc k" "get_step (ItemAt j) ?v" "st @ [FieldAt i, ItemAt j]"] by auto
          qed
        qed
      qed
    qed
  qed
qed auto

lemma locateDeviationValue_Inr:
  "locateDeviationValue root path = Inr location \<longleftrightarrow>
     (\<exists>ts st. path_names path ts \<and> resolve ts root = Some st \<and> location = location_of st)"
  using locate_segments_Inr[of path 0 root "[]"]
  by (auto simp: locateDeviationValue_def path_names_split)

section \<open>The update is the change\<close>

lemma valueObjectField_Some:
  "valueObjectField v name = Some i \<longleftrightarrow>
     (\<exists>before u after. pvFields v = Some (before @ (name, u) # after) \<and> length before = i \<and> name \<notin> fst ` set before)"
proof -
  have "field_index k flds name = Some j \<longleftrightarrow>
      (\<exists>before u after. flds = before @ (name, u) # after \<and> j = k + length before \<and> name \<notin> fst ` set before)" for flds k j
  proof (induction flds arbitrary: k)
    case (Cons f flds)
    obtain n u where f: "f = (n, u)" by (cases f)
    show ?case
    proof (cases "n = name")
      case True
      then show ?thesis by (auto simp: f Cons_eq_append_conv)
    next
      case False
      then have "field_index k (f # flds) name = Some j \<longleftrightarrow> field_index (Suc k) flds name = Some j" by (simp add: f)
      also note Cons.IH
      also have "(\<exists>before u after. flds = before @ (name, u) # after \<and> j = Suc k + length before \<and> name \<notin> fst ` set before) \<longleftrightarrow>
          (\<exists>before u after. f # flds = before @ (name, u) # after \<and> j = k + length before \<and> name \<notin> fst ` set before)" (is "?L \<longleftrightarrow> ?R")
      proof
        assume ?L
        then obtain before u after where "flds = before @ (name, u) # after" "j = Suc k + length before" "name \<notin> fst ` set before" by blast
        then show ?R using False f by (intro exI[of _ "f # before"] exI[of _ u] exI[of _ after]) auto
      next
        assume ?R
        then obtain before u after where b: "f # flds = before @ (name, u) # after" "j = k + length before" "name \<notin> fst ` set before" by blast
        then obtain before' where "before = f # before'" using False f by (cases before) auto
        then show ?L using b by (intro exI[of _ before'] exI[of _ u] exI[of _ after]) auto
      qed
      finally show ?thesis .
    qed
  qed simp
  then show ?thesis by (auto simp: valueObjectField_def split: option.split)
qed

lemma in_field_iff:
  "value_changed op r p (Named name # ts) v w \<longleftrightarrow>
     (\<exists>i u. pvType v = ValueObject \<and> valueObjectField v name = Some i
        \<and> value_changed op r p ts (get_step (FieldAt i) v) u \<and> w = put_step (FieldAt i) v u)" (is "_ \<longleftrightarrow> ?R")
proof
  assume "value_changed op r p (Named name # ts) v w"
  then show ?R
    by cases (auto simp: valueObjectField_Some get_step_def put_step_def intro!: exI)
next
  assume ?R
  then obtain i u where *: "pvType v = ValueObject" "valueObjectField v name = Some i"
    "value_changed op r p ts (get_step (FieldAt i) v) u" "w = put_step (FieldAt i) v u" by blast
  obtain t b x e n its fs where v: "v = PValue t b x e n its fs" by (cases v)
  from *(1,2) v obtain before u0 after where f: "t = ValueObject" "fs = Some (before @ (name, u0) # after)" "length before = i"
    "name \<notin> fst ` set before" by (auto simp: valueObjectField_Some)
  have "value_changed op r p ts u0 u" using *(3) by (auto simp: v f(2) get_step_def f(3)[symmetric])
  from in_field[OF this f(4)] show "value_changed op r p (Named name # ts) v w"
    unfolding *(4) v f(1,2) by (simp add: put_step_def f(3)[symmetric])
qed

lemma items_split:
  "item_in i v \<longleftrightarrow> (\<exists>b x e n before u after fs. v = PValue ValueList b x e n (Some (before @ u # after)) fs
     \<and> length before = i \<and> i \<le> 9223372036854775807)"
proof (cases v)
  case (PValue t b x e n its fs)
  show ?thesis
  proof (cases its)
    case None
    then show ?thesis by (simp add: PValue slice_items_def)
  next
    case (Some items)
    have "i < length items \<longleftrightarrow> (\<exists>before u after. items = before @ u # after \<and> length before = i)"
    proof
      assume "i < length items"
      then show "\<exists>before u after. items = before @ u # after \<and> length before = i"
        by (intro exI[of _ "take i items"] exI[of _ "items ! i"] exI[of _ "drop (Suc i) items"])
          (simp add: id_take_nth_drop[symmetric])
    qed auto
    then show ?thesis by (auto simp: PValue Some slice_items_def)
  qed
qed

lemma in_item_iff:
  "value_changed op r p (Numbered i # ts) v w \<longleftrightarrow> item_in i v \<and>
     ((\<exists>u. value_changed op r p ts (get_step (ItemAt i) v) u \<and> w = put_step (ItemAt i) v u)
      \<or> op = DeviationInsertBefore \<and> ts = [] \<and> get_step (ItemAt i) v = r \<and> w = insert_item i p v)" (is "_ \<longleftrightarrow> ?R")
proof
  assume "value_changed op r p (Numbered i # ts) v w"
  then show ?R
    by cases (auto simp: slice_items_def get_step_def put_step_def insert_item_def)
next
  assume R: ?R
  then obtain b x e n before u after fs where v: "v = PValue ValueList b x e n (Some (before @ u # after)) fs"
    "length before = i" "i \<le> 9223372036854775807" unfolding items_split by blast
  have get: "get_step (ItemAt i) v = u" using v(2) by (auto simp: v(1) get_step_def)
  show "value_changed op r p (Numbered i # ts) v w"
  proof (cases "op = DeviationInsertBefore \<and> ts = [] \<and> get_step (ItemAt i) v = r \<and> w = insert_item i p v")
    case True
    then have "r = u" and w: "w = PValue ValueList b x e n (Some (before @ p # u # after)) fs"
      using v(2) get by (auto simp: v(1) insert_item_def)
    then show ?thesis
      using True v(2,3) inserted[of before u p b x e n after fs] by (simp add: v(1))
  next
    case False
    with R obtain u' where u': "value_changed op r p ts u u'" "w = put_step (ItemAt i) v u'" by (auto simp: get)
    show ?thesis using in_item[OF u'(1), of before b x e n after fs] v u'(2) by (auto simp: put_step_def)
  qed
qed

lemma changed_at_end: "value_changed op r p [] v w \<longleftrightarrow> op = DeviationReplace \<and> v = r \<and> w = p"
  by (auto elim: value_changed.cases intro: replaced)

lemma replaced_iff:
  "value_changed DeviationReplace r p ts v w \<longleftrightarrow>
     (\<exists>st. resolve ts v = Some st \<and> get_at st v = r \<and> w = update_at st (\<lambda>_. p) v)"
proof (induction ts arbitrary: v w)
  case (Cons t ts)
  show ?case
    by (cases t) (auto simp: in_field_iff in_item_iff Cons.IH split: option.splits)
qed (auto simp: changed_at_end)

lemma resolve_Nil: "resolve ts v = Some [] \<longleftrightarrow> ts = []"
  by (cases "(ts, v)" rule: resolve.cases) (auto split: option.splits if_splits)

lemma Cons_eq_snoc: "x # xs = ys @ [y] \<longleftrightarrow> ys = [] \<and> xs = [] \<and> x = y \<or> (\<exists>zs. ys = x # zs \<and> xs = zs @ [y])"
  by (cases ys) auto

lemma inserted_iff:
  "value_changed DeviationInsertBefore r p ts v w \<longleftrightarrow>
     (\<exists>st i. resolve ts v = Some (st @ [ItemAt i]) \<and> get_at (st @ [ItemAt i]) v = r \<and> w = update_at st (insert_item i p) v)"
proof (induction ts arbitrary: v w)
  case (Cons t ts)
  show ?case
  proof (cases t)
    case (Named name)
    then show ?thesis by (auto simp: in_field_iff Cons.IH Cons_eq_snoc split: option.splits)
  next
    case (Numbered k)
    then show ?thesis by (auto simp: in_item_iff Cons.IH Cons_eq_snoc resolve_Nil)
  qed
qed (simp add: changed_at_end)

lemma other_operation: "\<not> value_changed (DeviationOperationOther s) r p ts v w"
proof
  assume "value_changed (DeviationOperationOther s) r p ts v w"
  then show False by (induction "DeviationOperationOther s" r p ts v w rule: value_changed.induct)
qed

lemma apply_value_change_Inr:
  "apply_value_change json root change = Inr w \<longleftrightarrow>
     (\<exists>ts. path_names (dcPath change) ts
        \<and> value_changed (dcOperation change) (dcReference change) (dcProduct change) ts root w)"
  (is "?L \<longleftrightarrow> (\<exists>ts. ?named ts \<and> ?changed ts)")
proof -
  let ?run = "\<lambda>st. (if get_at st root \<noteq> dcReference change then False else
      (case dcOperation change of DeviationReplace \<Rightarrow> w = update_at st (\<lambda>_. dcProduct change) root
       | DeviationInsertBefore \<Rightarrow> (\<exists>st' i. st = st' @ [ItemAt i] \<and> w = update_at st' (insert_item i (dcProduct change)) root)
       | DeviationOperationOther s \<Rightarrow> False))"
  have listed: "(\<exists>st' i. st = st' @ [ItemAt i] \<and> w = update_at st' (insert_item i (dcProduct change)) root) \<longleftrightarrow>
      (vlList (location_of st) \<noteq> None \<and> vlIndex (location_of st) \<ge> 0
       \<and> w = update_at (the (vlList (location_of st))) (insert_item (nat (vlIndex (location_of st))) (dcProduct change)) root)" for st
  proof (cases st rule: rev_cases)
    case (snoc st' s)
    then show ?thesis by (cases s) auto
  qed simp
  have "?L \<longleftrightarrow> (\<exists>ts st. ?named ts \<and> resolve ts root = Some st \<and> ?run st)"
  proof (cases "locateDeviationValue root (dcPath change)")
    case (Inl err)
    have "\<not> (\<exists>ts st. ?named ts \<and> resolve ts root = Some st)"
    proof
      assume "\<exists>ts st. ?named ts \<and> resolve ts root = Some st"
      then obtain ts st where "?named ts" "resolve ts root = Some st" by blast
      then have "locateDeviationValue root (dcPath change) = Inr (location_of st)"
        unfolding locateDeviationValue_Inr by blast
      then show False using Inl by simp
    qed
    then show ?thesis using Inl by (auto simp: apply_value_change_def)
  next
    case (Inr location)
    then obtain ts st where ts: "?named ts" "resolve ts root = Some st" "location = location_of st"
      unfolding locateDeviationValue_Inr by blast
    have same: "st2 = st" if "?named ts2" "resolve ts2 root = Some st2" for ts2 st2
    proof -
      have "locateDeviationValue root (dcPath change) = Inr (location_of st2)"
        unfolding locateDeviationValue_Inr using that by blast
      then have "location_of st2 = location_of st" using Inr ts(3) by simp
      then show ?thesis by (metis location_of_value)
    qed
    have "?L \<longleftrightarrow> ?run st"
      using Inr unfolding ts(3) by (auto simp: apply_value_change_def Let_def location_of_value listed split: deviation_operation.split)
    then show ?thesis using ts(1,2) same by blast
  qed
  also have "\<dots> \<longleftrightarrow> (\<exists>ts. ?named ts \<and> ?changed ts)"
    by (cases "dcOperation change") (auto simp: replaced_iff inserted_iff other_operation)
  finally show ?thesis .
qed

lemma map_sum_Inr [simp]: "map_sum id f r = Inr y \<longleftrightarrow> (\<exists>x. r = Inr x \<and> y = f x)"
  by (cases r) auto

lemma applyDeviationChange_Inr:
  assumes "dcDimension change = DeviationPhase \<Longrightarrow> pvText (dcReference change) \<noteq> None \<and> pvText (dcProduct change) \<noteq> None"
  shows "applyDeviationChange json c ob change = Inr after \<longleftrightarrow> changed change (c, ob) after"
proof (cases "dcDimension change = DeviationPhase")
  case True
  then show ?thesis using assms
    by (auto simp: applyDeviationChange_def apply_phase_change_def Let_def changed.simps observation_payload.simps)
next
  case False
  have payload: "(\<exists>v w. observation_payload (dcDimension change) v w ob ob' \<and> P v w) \<longleftrightarrow>
      (\<exists>v w. deviationDimensionRoot ob (dcDimension change) = Inr v \<and> ob' = put_root (dcDimension change) w ob \<and> P v w)" for ob' P
    using False by (cases "dcDimension change")
      (auto simp: deviationDimensionRoot_def put_root_def observation_payload.simps split: option.splits)
  have "changed change (c, ob) after \<longleftrightarrow> (\<exists>ob'. after = (c, ob') \<and> (\<exists>v w. observation_payload (dcDimension change) v w ob ob'
      \<and> apply_value_change json v change = Inr w))"
    using False by (auto simp: changed.simps apply_value_change_Inr)
  also have "\<dots> \<longleftrightarrow> applyDeviationChange json c ob change = Inr after"
    unfolding payload using False by (auto simp: applyDeviationChange_def split: sum.split)
  finally show ?thesis by simp
qed

lemma apply_changes_Inr:
  "\<forall>change \<in> set changes. dcDimension change = DeviationPhase \<longrightarrow>
      pvText (dcReference change) \<noteq> None \<and> pvText (dcProduct change) \<noteq> None \<Longrightarrow>
   apply_changes json ident i changes c ob = Inr after \<longleftrightarrow> all_changed changes (c, ob) after"
proof (induction changes arbitrary: i c ob)
  case (Cons change changes)
  have one: "applyDeviationChange json c ob change = Inr m \<longleftrightarrow> changed change (c, ob) m" for m
    using Cons.prems by (intro applyDeviationChange_Inr) simp
  have rest: "apply_changes json ident (Suc i) changes c' ob' = Inr after \<longleftrightarrow> all_changed changes (c', ob') after" for c' ob'
    using Cons by simp
  have "apply_changes json ident i (change # changes) c ob = Inr after \<longleftrightarrow>
      (\<exists>c' ob'. applyDeviationChange json c ob change = Inr (c', ob') \<and> apply_changes json ident (Suc i) changes c' ob' = Inr after)"
    by (auto split: sum.split)
  then show ?case by (simp add: one rest split_paired_Ex del: apply_changes.simps)
qed auto

section \<open>The product expectation\<close>

text \<open>A map from an identifier to its position, filled in order: the last position wins.\<close>

fun last_position :: "nat \<Rightarrow> ('a \<Rightarrow> bool) \<Rightarrow> 'a list \<Rightarrow> nat option" where
  "last_position i P [] = None"
| "last_position i P (x # xs) =
     (case last_position (Suc i) P xs of Some j \<Rightarrow> Some j | None \<Rightarrow> if P x then Some i else None)"

fun check_selectors :: "string \<Rightarrow> nat \<Rightarrow> deviation_change list \<Rightarrow> change_policy list \<Rightarrow> go_error option" where
  "check_selectors ident index (change # changes) (selector # selectors) =
     (if dcDimension change \<noteq> cpDimension selector \<or> dcPath change \<noteq> cpPath selector
         \<or> dcOperation change \<noteq> cpOperation selector
      then Some (ErrFmt ''%s: deviation change %d selector (%q, %q, %q) does not match policy (%q, %q, %q)''
             [FStr ident, FInt (int index), FStr (deviation_dimension_string (dcDimension change)),
              FStr (dcPath change), FStr (deviation_operation_string (dcOperation change)),
              FStr (deviation_dimension_string (cpDimension selector)), FStr (cpPath selector),
              FStr (deviation_operation_string (cpOperation selector))])
      else check_selectors ident (Suc index) changes selectors)"
| "check_selectors ident index changes selectors = None"

fun check_registered :: "nat \<Rightarrow> deviation_contract list \<Rightarrow> contract_policy list \<Rightarrow> go_error option" where
  "check_registered index (got # gots) (want # wants) =
     (if dvID got \<noteq> kpID want
      then Some (ErrFmt ''deviation expectation contract %d is %q; policy requires %q in that position''
             [FInt (int index), FStr (dvID got), FStr (kpID want)])
      else if length (dvChanges got) \<noteq> length (kpChanges want)
      then Some (ErrFmt ''%s: deviation expectation contains %d changes; policy requires %d''
             [FStr (dvID got), FInt (int (length (dvChanges got))), FInt (int (length (kpChanges want)))])
      else
      (case check_selectors (dvID got) 0 (dvChanges got) (kpChanges want) of
         Some err \<Rightarrow> Some err
       | None \<Rightarrow> check_registered (Suc index) gots wants))"
| "check_registered index gots wants = None"

definition hasAnyDecisionProvenance :: "contract \<Rightarrow> bool" where
  "hasAnyDecisionProvenance c \<longleftrightarrow> list_ex (\<lambda>p. pvKind p = ''decision'') (ctProvenance c)"

fun count_decisions :: "contract \<Rightarrow> string \<Rightarrow> nat \<Rightarrow> provenance list \<Rightarrow> go_error + nat" where
  "count_decisions c decision matches [] = Inr matches"
| "count_decisions c decision matches (p # ps) =
     (if pvKind p \<noteq> ''decision'' then count_decisions c decision matches ps
      else if pvReference p \<noteq> decision
      then Inl (ErrFmt ''%s: deviation carries unexpected decision %q'' [FStr (ctID c), FStr (pvReference p)])
      else if pvDerived p \<noteq> Some False
      then Inl (ErrFmt ''%s: decision provenance %q must set derived=false'' [FStr (ctID c), FStr decision])
      else count_decisions c decision (Suc matches) ps)"

definition validateDecisionProvenance :: "contract \<Rightarrow> string \<Rightarrow> go_error option" where
  "validateDecisionProvenance c decision =
     (case count_decisions c decision 0 (ctProvenance c) of
        Inl err \<Rightarrow> Some err
      | Inr matches \<Rightarrow>
          if matches \<noteq> 1
          then Some (ErrFmt ''%s: deviation must carry exactly one decision provenance %q, got %d''
                 [FStr (ctID c), FStr decision, FInt (int matches)])
          else None)"

text \<open>
  The loop over the manifest: the position of a contract in the policy, and the position of the last
  deviation met.
\<close>

definition policy_position :: "deviation_policy \<Rightarrow> string \<Rightarrow> nat option" where
  "policy_position policy ident = last_position 0 (\<lambda>c. kpID c = ident) (dpContracts policy)"

fun check_statuses :: "deviation_policy \<Rightarrow> int \<Rightarrow> contract list \<Rightarrow> go_error + int" where
  "check_statuses policy lastIndex [] = Inr lastIndex"
| "check_statuses policy lastIndex (c # cs) =
     (case ctStatus c of
        ContractPassing \<Rightarrow>
          if policy_position policy (ctID c) \<noteq> None
          then Inl (ErrFmt ''%s: registered deviation is marked passing'' [FStr (ctID c)])
          else if hasAnyDecisionProvenance c
          then Inl (ErrFmt ''%s: passing contract must not carry decision provenance for policy %q''
                 [FStr (ctID c), FStr (dpDecision policy)])
          else check_statuses policy lastIndex cs
      | ContractDeviation \<Rightarrow>
          (case policy_position policy (ctID c) of
             None \<Rightarrow> Inl (ErrFmt ''%s: manifest contains an unregistered deviation'' [FStr (ctID c)])
           | Some index \<Rightarrow>
             (case validateDecisionProvenance c (dpDecision policy) of
                Some err \<Rightarrow> Inl err
              | None \<Rightarrow>
                  if int index \<le> lastIndex
                  then Inl (ErrFmt ''%s: deviation policy order does not follow manifest order'' [FStr (ctID c)])
                  else check_statuses policy (int index) cs))
      | status \<Rightarrow> Inl (ErrFmt ''%s: manifest status %q is not approved for product expectation; want passing or deviation''
                     [FStr (ctID c), FStr (contract_status_string status)]))"

text \<open>The loop that applies the expectation to the clones.\<close>

fun apply_contracts :: "json_text \<Rightarrow> contract list \<Rightarrow> deviation_contract list \<Rightarrow> manifest \<Rightarrow> observation_suite
    \<Rightarrow> go_error + manifest \<times> observation_suite" where
  "apply_contracts json originals [] effective product = Inr (effective, product)"
| "apply_contracts json originals (d # ds) effective product =
     (case last_position 0 (\<lambda>c. ctID c = dvID d) originals of
        None \<Rightarrow> Inl (ErrFmt ''%s: deviation contract is absent from manifest'' [FStr (dvID d)])
      | Some index \<Rightarrow>
        (case apply_changes json (dvID d) 0 (dvChanges d) (mfContracts effective ! index) (osContracts product ! index) of
           Inl err \<Rightarrow> Inl err
         | Inr (c, ob) \<Rightarrow>
             apply_contracts json originals ds (effective\<lparr>mfContracts := (mfContracts effective)[index := c]\<rparr>)
               (product\<lparr>osContracts := (osContracts product)[index := ob]\<rparr>)))"

record protocol_codec =
  pcParseTime :: "string \<Rightarrow> go_error option"
  pcJSON :: json_text
  pcCloneManifest :: "manifest \<Rightarrow> go_error + manifest"
  pcCloneSuite :: "observation_suite \<Rightarrow> go_error + observation_suite"

definition check_expectation :: "protocol_codec \<Rightarrow> profile \<Rightarrow> deviation_expectation \<Rightarrow> deviation_policy \<Rightarrow> go_error option" where
  "check_expectation codec p e policy =
     (case Expectation_Validate (pcParseTime codec) e of
        Some err \<Rightarrow> Some (ErrWrap ''deviation expectation: %w'' [] err)
      | None \<Rightarrow>
        if deProfileID e \<noteq> prID p
        then Some (ErrFmt ''deviation expectation profile_id %q does not match locked profile %q''
               [FStr (deProfileID e), FStr (prID p)])
        else
        (case validateDeviationPolicy policy of
           Some err \<Rightarrow> Some (ErrWrap ''deviation policy: %w'' [] err)
         | None \<Rightarrow>
           if deDecision e \<noteq> dpDecision policy
           then Some (ErrFmt ''deviation expectation decision %q does not match policy %q''
                  [FStr (deDecision e), FStr (dpDecision policy)])
           else if length (deContracts e) \<noteq> length (dpContracts policy)
           then Some (ErrFmt ''deviation expectation contains %d contracts; policy requires %d''
                  [FInt (int (length (deContracts e))), FInt (int (length (dpContracts policy)))])
           else check_registered 0 (deContracts e) (dpContracts policy)))"

definition PrepareDeviationExpectation :: "protocol_codec \<Rightarrow> profile \<Rightarrow> manifest \<Rightarrow> observation_suite
    \<Rightarrow> deviation_expectation \<Rightarrow> deviation_policy \<Rightarrow> go_error + manifest \<times> observation_suite" where
  "PrepareDeviationExpectation codec p m reference e policy =
     (case Compare (pcParseTime codec) (pcJSON codec) p m reference reference of
        Inl err \<Rightarrow> Inl (ErrWrap ''locked reference suite: %w'' [] err)
      | Inr _ \<Rightarrow>
        (case check_expectation codec p e policy of
           Some err \<Rightarrow> Inl err
         | None \<Rightarrow>
           (case check_statuses policy (-1) (mfContracts m) of
              Inl err \<Rightarrow> Inl err
            | Inr lastIndex \<Rightarrow>
              if lastIndex \<noteq> int (length (dpContracts policy)) - 1
              then Inl (ErrFmt ''manifest is missing one or more registered deviations for decision %q''
                     [FStr (dpDecision policy)])
              else
              (case pcCloneManifest codec m of
                 Inl err \<Rightarrow> Inl err
               | Inr effective \<Rightarrow>
                 (case pcCloneSuite codec reference of
                    Inl err \<Rightarrow> Inl err
                  | Inr product \<Rightarrow>
                    (case apply_contracts (pcJSON codec) (mfContracts m) (deContracts e) effective product of
                       Inl err \<Rightarrow> Inl err
                     | Inr (effective', product') \<Rightarrow>
                       (case ValidateSuiteAgainst (pcParseTime codec) p effective' product' of
                          Some err \<Rightarrow> Inl (ErrWrap ''product expectation: %w'' [] err)
                        | None \<Rightarrow> Inr (effective', product'))))))))"

section \<open>What a product expectation is\<close>

text \<open>The selectors an expectation uses, as the policy that registers exactly them.\<close>

definition change_selector :: "deviation_change \<Rightarrow> change_policy" where
  "change_selector c = \<lparr>cpDimension = dcDimension c, cpPath = dcPath c, cpOperation = dcOperation c\<rparr>"

definition contract_selector :: "deviation_contract \<Rightarrow> contract_policy" where
  "contract_selector d = \<lparr>kpID = dvID d, kpChanges = map change_selector (dvChanges d)\<rparr>"

text \<open>A deviation carries the decision exactly once, as a primary source; a passing contract carries none.\<close>

definition carries_decision :: "string \<Rightarrow> contract \<Rightarrow> bool" where
  "carries_decision decision c \<longleftrightarrow>
     (\<exists>p. filter (\<lambda>p. pvKind p = ''decision'') (ctProvenance c) = [p]
        \<and> pvReference p = decision \<and> pvDerived p = Some False)"

definition approved_status :: "string \<Rightarrow> contract \<Rightarrow> bool" where
  "approved_status decision c \<longleftrightarrow>
     (case ctStatus c of
        ContractPassing \<Rightarrow> \<not> hasAnyDecisionProvenance c
      | ContractDeviation \<Rightarrow> carries_decision decision c
      | _ \<Rightarrow> False)"

lemma check_selectors_None:
  "length changes = length selectors \<Longrightarrow>
     check_selectors ident i changes selectors = None \<longleftrightarrow> map change_selector changes = selectors"
  by (induction ident i changes selectors rule: check_selectors.induct) (auto simp: change_selector_def)

lemma check_registered_None:
  "length gots = length wants \<Longrightarrow> check_registered i gots wants = None \<longleftrightarrow> map contract_selector gots = wants"
proof (induction i gots wants rule: check_registered.induct)
  case (1 i got gots want wants)
  have "contract_selector got = want \<longleftrightarrow> dvID got = kpID want \<and> length (dvChanges got) = length (kpChanges want)
      \<and> check_selectors (dvID got) 0 (dvChanges got) (kpChanges want) = None"
    by (cases want) (auto simp: contract_selector_def check_selectors_None dest: arg_cong[of _ _ length])
  with 1 show ?case by (auto split: option.splits)
qed auto

lemma count_decisions_Inr:
  "count_decisions c decision k ps = Inr n \<longleftrightarrow>
     n = k + length (filter (\<lambda>p. pvKind p = ''decision'') ps)
     \<and> (\<forall>p \<in> set ps. pvKind p = ''decision'' \<longrightarrow> pvReference p = decision \<and> pvDerived p = Some False)"
  by (induction ps arbitrary: k) auto

lemma validateDecisionProvenance_None:
  "validateDecisionProvenance c decision = None \<longleftrightarrow> carries_decision decision c"
proof -
  let ?ds = "filter (\<lambda>p. pvKind p = ''decision'') (ctProvenance c)"
  have "validateDecisionProvenance c decision = None \<longleftrightarrow> count_decisions c decision 0 (ctProvenance c) = Inr 1"
    by (auto simp: validateDecisionProvenance_def split: sum.splits)
  also have "\<dots> \<longleftrightarrow> length ?ds = 1 \<and> (\<forall>p \<in> set ?ds. pvReference p = decision \<and> pvDerived p = Some False)"
    by (auto simp: count_decisions_Inr)
  also have "\<dots> \<longleftrightarrow> carries_decision decision c"
    by (cases ?ds) (auto simp: carries_decision_def)
  finally show ?thesis .
qed

section \<open>Positions\<close>

lemma last_position_None: "last_position k P xs = None \<longleftrightarrow> (\<forall>x \<in> set xs. \<not> P x)"
proof (induction xs arbitrary: k)
  case (Cons x xs)
  note IH = Cons.IH[of "Suc k"]
  show ?case using IH by (cases "last_position (Suc k) P xs") auto
qed simp

lemma last_position_distinct:
  "distinct (map f xs) \<Longrightarrow> last_position k (\<lambda>x. f x = y) xs = Some j \<longleftrightarrow> (\<exists>i < length xs. j = k + i \<and> f (xs ! i) = y)"
proof (induction xs arbitrary: k)
  case (Cons x xs)
  show ?case
  proof (cases "f x = y")
    case True
    have "last_position (Suc k) (\<lambda>x. f x = y) xs = None"
      unfolding last_position_None using True Cons.prems by (auto simp: image_iff)
    moreover have "f (xs ! i) \<noteq> y" if "i < length xs" for i
    proof -
      have "f (xs ! i) \<in> f ` set xs" using that by simp
      then show ?thesis using True Cons.prems by auto
    qed
    ultimately show ?thesis using True by (auto simp: less_Suc_eq_0_disj)
  next
    case False
    have "last_position k (\<lambda>x. f x = y) (x # xs) = Some j \<longleftrightarrow> last_position (Suc k) (\<lambda>x. f x = y) xs = Some j"
      using False by (auto split: option.splits)
    also have "\<dots> \<longleftrightarrow> (\<exists>i < length xs. j = Suc k + i \<and> f (xs ! i) = y)" using Cons by simp
    also have "\<dots> \<longleftrightarrow> (\<exists>i < length (x # xs). j = k + i \<and> f ((x # xs) ! i) = y)"
      using False by (auto simp: less_Suc_eq_0_disj)
    finally show ?thesis .
  qed
qed simp

lemma policy_position_Some:
  "distinct (map kpID (dpContracts policy)) \<Longrightarrow>
     policy_position policy ident = Some i \<longleftrightarrow> i < length (dpContracts policy) \<and> kpID (dpContracts policy ! i) = ident"
  by (auto simp: policy_position_def last_position_distinct)

lemma policy_position_None:
  "policy_position policy ident = None \<longleftrightarrow> ident \<notin> set (map kpID (dpContracts policy))"
  by (auto simp: policy_position_def last_position_None)

section \<open>The statuses of the manifest\<close>

abbreviation deviation_ids :: "contract list \<Rightarrow> string list" where
  "deviation_ids cs \<equiv> map ctID (filter (\<lambda>c. ctStatus c = ContractDeviation) cs)"

definition registered_as_status :: "deviation_policy \<Rightarrow> contract \<Rightarrow> bool" where
  "registered_as_status policy c \<longleftrightarrow> approved_status (dpDecision policy) c
     \<and> (ctID c \<in> set (map kpID (dpContracts policy)) \<longleftrightarrow> ctStatus c = ContractDeviation)"

text \<open>What the loop over the manifest establishes: the deviations follow the policy's order.\<close>

lemma check_statuses_sound:
  assumes "distinct (map kpID (dpContracts policy))" and "check_statuses policy k cs = Inr r" and "k \<ge> -1"
  shows "\<forall>c \<in> set cs. registered_as_status policy c"
    and "subseq (deviation_ids cs) (drop (nat (k + 1)) (map kpID (dpContracts policy)))"
proof -
  let ?ids = "map kpID (dpContracts policy)"
  have "(\<forall>c \<in> set cs. registered_as_status policy c) \<and> subseq (deviation_ids cs) (drop (nat (k + 1)) ?ids)"
    using assms(2,3)
  proof (induction cs arbitrary: k)
    case (Cons c cs)
    show ?case
    proof (cases "ctStatus c")
      case ContractPassing
      with Cons show ?thesis
        by (auto simp: registered_as_status_def approved_status_def policy_position_None split: if_splits)
    next
      case ContractDeviation
      with Cons.prems obtain i where pos: "policy_position policy (ctID c) = Some i"
        and valid: "validateDecisionProvenance c (dpDecision policy) = None"
        and "k < int i" and rest: "check_statuses policy (int i) cs = Inr r"
        by (auto split: option.splits if_splits)
      have i: "i < length ?ids" "?ids ! i = ctID c" using pos policy_position_Some[OF assms(1)] by auto
      have "ctID c \<in> set ?ids" using i by (metis nth_mem)
      then have reg: "registered_as_status policy c"
        using ContractDeviation valid
        by (simp add: registered_as_status_def approved_status_def validateDecisionProvenance_None)
      have "subseq (deviation_ids cs) (drop (Suc i) ?ids)"
        using Cons.IH[OF rest] by (simp add: nat_add_distrib)
      then have "subseq (ctID c # deviation_ids cs) (drop i ?ids)"
        using i by (simp flip: Cons_nth_drop_Suc)
      moreover have "drop i ?ids = drop (i - nat (k + 1)) (drop (nat (k + 1)) ?ids)"
        using \<open>k < int i\<close> by (simp add: add.commute nat_le_iff)
      ultimately have "subseq (ctID c # deviation_ids cs) (drop (nat (k + 1)) ?ids)"
        using subseq_order.trans suffix_drop suffix_imp_subseq by (metis (no_types))
      then show ?thesis using reg ContractDeviation Cons.IH[OF rest] by simp
    qed (use Cons.prems in auto)
  qed simp
  then show "\<forall>c \<in> set cs. registered_as_status policy c"
    and "subseq (deviation_ids cs) (drop (nat (k + 1)) ?ids)" by blast+
qed

lemma check_statuses_complete:
  assumes "distinct (map kpID (dpContracts policy))" and "\<forall>c \<in> set cs. registered_as_status policy c"
    and "deviation_ids cs = drop k (map kpID (dpContracts policy))" and "k \<le> length (dpContracts policy)"
  shows "check_statuses policy (int k - 1) cs = Inr (int (length (dpContracts policy)) - 1)"
  using assms(2-4)
proof (induction cs arbitrary: k)
  case (Cons c cs)
  let ?ids = "map kpID (dpContracts policy)"
  show ?case
  proof (cases "ctStatus c")
    case ContractPassing
    with Cons show ?thesis
      by (simp add: registered_as_status_def approved_status_def policy_position_None)
  next
    case ContractDeviation
    then have drops: "ctID c # deviation_ids cs = drop k ?ids" using Cons.prems(2) by simp
    then have k: "k < length ?ids" by (metis drop_eq_Nil2 linorder_not_le list.distinct(1))
    then have parts: "ctID c = ?ids ! k" "deviation_ids cs = drop (Suc k) ?ids"
      using drops by (metis Cons_nth_drop_Suc list.inject)+
    have "policy_position policy (ctID c) = Some k"
      using k parts(1) by (simp add: policy_position_Some[OF assms(1)])
    moreover have "validateDecisionProvenance c (dpDecision policy) = None"
      using Cons.prems(1) ContractDeviation
      by (simp add: registered_as_status_def approved_status_def validateDecisionProvenance_None)
    moreover have "check_statuses policy (int (Suc k) - 1) cs = Inr (int (length (dpContracts policy)) - 1)"
      by (rule Cons.IH) (use Cons.prems(1) parts(2) k in auto)
    ultimately show ?thesis using ContractDeviation by simp
  qed (use Cons.prems in \<open>auto simp: registered_as_status_def approved_status_def\<close>)
qed simp

section \<open>Applying the expectation\<close>

lemma applyDeviationChange_frame:
  "applyDeviationChange json c ob change = Inr (c', ob') \<Longrightarrow>
     c' = c\<lparr>ctPhase := ctPhase c'\<rparr> \<and> obID ob' = obID ob \<and> obStatus ob' = obStatus ob \<and> obError ob' = obError ob"
  by (cases "dcDimension change")
    (auto simp: applyDeviationChange_def apply_phase_change_def put_root_def Let_def
      split: if_splits sum.splits)

text \<open>Only phases and payload values change: everything else of contract and observation stays.\<close>

lemma apply_changes_frame:
  "apply_changes json ident i changes c ob = Inr (c', ob') \<Longrightarrow>
     c' = c\<lparr>ctPhase := ctPhase c'\<rparr> \<and> obID ob' = obID ob \<and> obStatus ob' = obStatus ob \<and> obError ob' = obError ob"
proof (induction changes arbitrary: i c ob)
  case (Cons change changes)
  then obtain c1 ob1 where one: "applyDeviationChange json c ob change = Inr (c1, ob1)"
    and rest: "apply_changes json ident (Suc i) changes c1 ob1 = Inr (c', ob')"
    by (auto split: sum.splits)
  show ?case using applyDeviationChange_frame[OF one] Cons.IH[OF rest] by (cases c1; cases c'; cases c) simp
qed simp

text \<open>The phases of a valid expectation are strings with a text.\<close>

definition phases_named :: "deviation_contract list \<Rightarrow> bool" where
  "phases_named ds \<longleftrightarrow> (\<forall>d \<in> set ds. \<forall>change \<in> set (dvChanges d). dcDimension change = DeviationPhase \<longrightarrow>
     pvText (dcReference change) \<noteq> None \<and> pvText (dcProduct change) \<noteq> None)"

lemma product_contract_Nil [simp]: "product_contract [] ident before after \<longleftrightarrow> after = before"
  by (simp add: product_contract_def)

lemma product_contract_Cons [simp]:
  "dvID d \<notin> dvID ` set ds \<Longrightarrow> product_contract (d # ds) ident before after \<longleftrightarrow>
     (if dvID d = ident then all_changed (dvChanges d) before after else product_contract ds ident before after)"
  by (auto simp: product_contract_def) (metis image_eqI)+

lemma product_contract_absent: "ident \<notin> dvID ` set ds \<Longrightarrow> product_contract ds ident before after \<longleftrightarrow> after = before"
  by (auto simp: product_contract_def)

lemma apply_contracts_Inr:
  assumes "distinct (map ctID originals)" and "distinct (map dvID ds)"
    and "length (mfContracts m) = length originals" and "length (osContracts s) = length originals" and "phases_named ds"
  shows "apply_contracts json originals ds m s = Inr (m', s') \<longleftrightarrow>
    (\<exists>cs obs. m' = m\<lparr>mfContracts := cs\<rparr> \<and> s' = s\<lparr>osContracts := obs\<rparr>
      \<and> length cs = length originals \<and> length obs = length originals
      \<and> (\<forall>i < length originals. product_contract ds (ctID (originals ! i))
            (mfContracts m ! i, osContracts s ! i) (cs ! i, obs ! i)))
    \<and> set (map dvID ds) \<subseteq> set (map ctID originals)"
  using assms(2-5)
proof (induction ds arbitrary: m s)
  case Nil
  have "(\<exists>cs obs. m' = m\<lparr>mfContracts := cs\<rparr> \<and> s' = s\<lparr>osContracts := obs\<rparr>
      \<and> length cs = length originals \<and> length obs = length originals
      \<and> (\<forall>i < length originals. product_contract [] (ctID (originals ! i))
            (mfContracts m ! i, osContracts s ! i) (cs ! i, obs ! i))) \<longleftrightarrow> m' = m \<and> s' = s" (is "?L \<longleftrightarrow> _")
  proof
    assume ?L
    then obtain cs obs where *: "m' = m\<lparr>mfContracts := cs\<rparr>" "s' = s\<lparr>osContracts := obs\<rparr>"
      "length cs = length originals" "length obs = length originals"
      "\<forall>i < length originals. cs ! i = mfContracts m ! i \<and> obs ! i = osContracts s ! i"
      by auto
    then have "cs = mfContracts m" "obs = osContracts s" using Nil.prems by (auto intro: nth_equalityI)
    with * show "m' = m \<and> s' = s" by simp
  next
    assume "m' = m \<and> s' = s"
    then show ?L using Nil.prems
      by (intro exI[of _ "mfContracts m"] exI[of _ "osContracts s"]) simp
  qed
  then show ?case by auto
next
  case (Cons d ds)
  show ?case
  proof (cases "dvID d \<in> set (map ctID originals)")
    case False
    then have "last_position 0 (\<lambda>c. ctID c = dvID d) originals = None" by (auto simp: last_position_None image_iff)
    then show ?thesis using False by simp
  next
    case True
    then obtain k where k: "k < length originals" "ctID (originals ! k) = dvID d"
      by (auto simp: in_set_conv_nth)
    then have pos: "last_position 0 (\<lambda>c. ctID c = dvID d) originals = Some k"
      by (simp add: last_position_distinct[OF assms(1)])
    have other: "ctID (originals ! i) \<noteq> dvID d" if "i < length originals" "i \<noteq> k" for i
      using that k assms(1) by (metis distinct_conv_nth length_map nth_map)
    have free: "dvID d \<notin> dvID ` set ds" using Cons.prems(1) by simp
    have named: "phases_named ds" using Cons.prems(4) by (simp add: phases_named_def)
    have run: "apply_changes json (dvID d) 0 (dvChanges d) c ob = Inr after \<longleftrightarrow> all_changed (dvChanges d) (c, ob) after" for c ob after
      by (rule apply_changes_Inr) (use Cons.prems(4) in \<open>simp add: phases_named_def\<close>)
    let ?run = "apply_changes json (dvID d) 0 (dvChanges d) (mfContracts m ! k) (osContracts s ! k)"
    let ?before = "\<lambda>i. (mfContracts m ! i, osContracts s ! i)"
    show ?thesis
    proof (cases ?run)
      case (Inl err)
      then have "\<not> product_contract (d # ds) (ctID (originals ! k)) (?before k) after" for after
        using k free Inl by (simp flip: run)
      then show ?thesis using Inl pos k by auto
    next
      case (Inr after)
      obtain c ob where after: "after = (c, ob)" by (cases after)
      let ?m = "m\<lparr>mfContracts := (mfContracts m)[k := c]\<rparr>" and ?s = "s\<lparr>osContracts := (osContracts s)[k := ob]\<rparr>"
      have step: "product_contract (d # ds) (ctID (originals ! i)) (?before i) x \<longleftrightarrow>
          product_contract ds (ctID (originals ! i)) (mfContracts ?m ! i, osContracts ?s ! i) x"
        if "i < length originals" for i x
        using that Inr after k free other[of i] Cons.prems(2,3)
        by (cases "i = k") (auto simp: product_contract_absent simp flip: run)
      have "apply_contracts json originals (d # ds) m s = Inr (m', s') \<longleftrightarrow>
          apply_contracts json originals ds ?m ?s = Inr (m', s')"
        using pos Inr after by simp
      also have "\<dots> \<longleftrightarrow> (\<exists>cs obs. m' = m\<lparr>mfContracts := cs\<rparr> \<and> s' = s\<lparr>osContracts := obs\<rparr>
          \<and> length cs = length originals \<and> length obs = length originals
          \<and> (\<forall>i < length originals. product_contract ds (ctID (originals ! i))
                (mfContracts ?m ! i, osContracts ?s ! i) (cs ! i, obs ! i)))
          \<and> set (map dvID ds) \<subseteq> set (map ctID originals)"
        using Cons.IH[of ?m ?s] Cons.prems named by simp
      finally show ?thesis using True by (simp add: step)
    qed
  qed
qed

lemma compare_contracts_Inr:
  "length cs = length wants \<Longrightarrow> length wants = length gots \<Longrightarrow>
     (\<exists>ds. compare_contracts json cs wants gots = Inr ds) \<longleftrightarrow> (\<forall>want \<in> set wants. obStatus want = StatusObserved)"
  by (induction json cs wants gots rule: compare_contracts.induct) auto

lemma Compare_self:
  "(\<exists>ds. Compare pt json p m s s = Inr ds) \<longleftrightarrow>
     ValidateSuiteAgainst pt p m s = None \<and> (\<forall>ob \<in> set (osContracts s). obStatus ob = StatusObserved)"
proof (cases "ValidateSuiteAgainst pt p m s")
  case None
  then have "length (mfContracts m) = length (osContracts s)"
    by (auto simp: ValidateSuiteAgainst_None dest: list_all2_lengthD)
  with None show ?thesis by (simp add: Compare_def compare_contracts_Inr)
qed (simp add: Compare_def)

lemma check_policies_distinct:
  "check_policies i seen cs = None \<Longrightarrow> distinct (map kpID cs) \<and> set (map kpID cs) \<inter> set seen = {}"
  by (induction i seen cs rule: check_policies.induct) (auto split: if_splits option.splits)

lemma validateDeviationPolicy_distinct:
  "validateDeviationPolicy policy = None \<Longrightarrow> distinct (map kpID (dpContracts policy))"
  using check_policies_distinct[of 0 "[]"] by (auto simp: validateDeviationPolicy_def split: if_splits)

lemma Expectation_Validate_distinct:
  "Expectation_Validate pt e = None \<Longrightarrow> distinct (map dvID (deContracts e))"
  by (simp add: Expectation_Validate_def check_contracts_None split: if_splits)

lemma check_changes_None:
  "check_changes ident check dim pth i seen cs = None \<Longrightarrow> c \<in> set cs \<Longrightarrow> check c = None"
  by (induction cs arbitrary: i seen) (auto split: option.splits if_splits)

lemma string_has_text: "Validate pt v = None \<Longrightarrow> pvType v = ValueString \<Longrightarrow> pvText v \<noteq> None"
  by (cases v) (auto simp: validate_scalar_def scalarText_None)

lemma Expectation_Validate_phases: "Expectation_Validate pt e = None \<Longrightarrow> phases_named (deContracts e)"
proof -
  assume valid: "Expectation_Validate pt e = None"
  have "pvText (dcReference change) \<noteq> None \<and> pvText (dcProduct change) \<noteq> None"
    if "d \<in> set (deContracts e)" "change \<in> set (dvChanges d)" "dcDimension change = DeviationPhase" for d change
  proof -
    have "DeviationContract_Validate pt d = None"
      using valid that(1) by (auto simp: Expectation_Validate_def check_contracts_None split: if_splits)
    then have "DeviationChange_Validate pt change = None"
      using check_changes_None[OF _ that(2)] by (auto simp: DeviationContract_Validate_def split: if_splits)
    then show ?thesis using that(3) string_has_text
      by (auto simp: DeviationChange_Validate_def phase_change_error_def split: option.splits if_splits)
  qed
  then show ?thesis unfolding phases_named_def by blast
qed

lemma ValidateSuiteAgainst_distinct:
  "ValidateSuiteAgainst pt p m s = None \<Longrightarrow>
     distinct (map ctID (mfContracts m)) \<and> length (osContracts s) = length (mfContracts m)"
  by (auto simp: ValidateSuiteAgainst_None Manifest_Validate_def check_contracts_None
      dest: list_all2_lengthD split: if_splits)

lemma check_expectation_None:
  "check_expectation codec p e policy = None \<longleftrightarrow> Expectation_Validate (pcParseTime codec) e = None
     \<and> deProfileID e = prID p \<and> validateDeviationPolicy policy = None \<and> deDecision e = dpDecision policy
     \<and> map contract_selector (deContracts e) = dpContracts policy"
proof -
  have "length (deContracts e) = length (dpContracts policy)"
    if "map contract_selector (deContracts e) = dpContracts policy"
    using arg_cong[OF that, of length] by simp
  then show ?thesis
    by (auto simp: check_expectation_def check_registered_None split: option.splits)
qed

lemma statuses_decide:
  assumes distinct: "distinct (map kpID (dpContracts policy))" "distinct (map ctID cs)"
  shows "check_statuses policy (-1) cs = Inr (int (length (dpContracts policy)) - 1)
      \<and> set (map kpID (dpContracts policy)) \<subseteq> set (map ctID cs) \<longleftrightarrow>
    (\<forall>c \<in> set cs. approved_status (dpDecision policy) c) \<and> deviation_ids cs = map kpID (dpContracts policy)"
    (is "?L \<longleftrightarrow> ?R")
proof
  let ?ids = "map kpID (dpContracts policy)"
  assume L: ?L
  note sound = check_statuses_sound[OF distinct(1) conjunct1[OF L]]
  have reg: "\<forall>c \<in> set cs. registered_as_status policy c" using sound(1) by simp
  have sub: "subseq (deviation_ids cs) ?ids" using sound(2) by simp
  have "set ?ids \<subseteq> set (deviation_ids cs)"
  proof
    fix x
    assume x: "x \<in> set ?ids"
    then have "x \<in> ctID ` set cs" using conjunct2[OF L] by auto
    then obtain c where c: "c \<in> set cs" "x = ctID c" by blast
    then have "ctStatus c = ContractDeviation" using reg x unfolding registered_as_status_def by blast
    with c show "x \<in> set (deviation_ids cs)" by simp
  qed
  moreover have "set (deviation_ids cs) \<subseteq> set ?ids" using list_emb_set[OF sub] by blast
  moreover have "distinct (deviation_ids cs)" using distinct(2) by (rule distinct_map_filter)
  ultimately have "length (deviation_ids cs) = length ?ids"
    using distinct(1) by (metis distinct_card subset_antisym)
  then have "deviation_ids cs = ?ids" by (rule subseq_same_length[OF sub])
  then show ?R using reg by (simp add: registered_as_status_def)
next
  let ?ids = "map kpID (dpContracts policy)"
  assume R: ?R
  have "ctID c \<in> set ?ids \<longleftrightarrow> ctStatus c = ContractDeviation" if "c \<in> set cs" for c
  proof -
    have "ctID c \<in> set (deviation_ids cs) \<longleftrightarrow> ctStatus c = ContractDeviation"
      using that distinct(2) by (auto simp: distinct_map inj_on_def)
    then show ?thesis using R by metis
  qed
  then have "\<forall>c \<in> set cs. registered_as_status policy c" using R by (simp add: registered_as_status_def)
  then have "check_statuses policy (int 0 - 1) cs = Inr (int (length (dpContracts policy)) - 1)"
    using R by (intro check_statuses_complete[OF distinct(1)]) simp_all
  moreover have "set ?ids \<subseteq> set (map ctID cs)" using arg_cong[OF conjunct2[OF R], of set] by auto
  ultimately show ?L by simp
qed

text \<open>
  C37: preparing the product expectation succeeds exactly on a locked reference suite that is valid
  and fully observed, an expectation whose changes are exactly those the policy registers, and a
  manifest whose deviations are the registered contracts in the policy's order (each carrying the
  decision once as a primary source, every other contract passing and without a decision). The
  result is then the manifest and suite in which each deviation has undergone its changes one after
  the other: where a change names a phase, contract and observation had the reference phase and have
  the product phase; where it names a place in a payload, the value found there is the reference, and
  it is exchanged for the product, or the product stands right before it in its list, everything off
  the way to the place being kept. Every passing contract is as in the reference, and the whole is a
  valid suite.
\<close>

theorem PrepareDeviationExpectation_decides:
  assumes "pcCloneManifest codec m = Inr m" and "pcCloneSuite codec reference = Inr reference"
  shows "PrepareDeviationExpectation codec p m reference e policy = Inr (effective, product) \<longleftrightarrow>
    ValidateSuiteAgainst (pcParseTime codec) p m reference = None
    \<and> (\<forall>ob \<in> set (osContracts reference). obStatus ob = StatusObserved)
    \<and> Expectation_Validate (pcParseTime codec) e = None \<and> deProfileID e = prID p
    \<and> validateDeviationPolicy policy = None \<and> deDecision e = dpDecision policy
    \<and> map contract_selector (deContracts e) = dpContracts policy
    \<and> (\<forall>c \<in> set (mfContracts m). approved_status (dpDecision policy) c)
    \<and> deviation_ids (mfContracts m) = map dvID (deContracts e)
    \<and> (\<exists>cs obs. effective = m\<lparr>mfContracts := cs\<rparr> \<and> product = reference\<lparr>osContracts := obs\<rparr>
        \<and> length cs = length (mfContracts m) \<and> length obs = length (mfContracts m)
        \<and> (\<forall>i < length (mfContracts m). product_contract (deContracts e) (ctID (mfContracts m ! i))
              (mfContracts m ! i, osContracts reference ! i) (cs ! i, obs ! i)))
    \<and> ValidateSuiteAgainst (pcParseTime codec) p effective product = None"
proof (cases "(\<exists>ds. Compare (pcParseTime codec) (pcJSON codec) p m reference reference = Inr ds)
    \<and> check_expectation codec p e policy = None")
  case False
  then have "PrepareDeviationExpectation codec p m reference e policy \<noteq> Inr (effective, product)"
    by (auto simp: PrepareDeviationExpectation_def split: sum.splits option.splits)
  then show ?thesis using False unfolding Compare_self check_expectation_None by blast
next
  case True
  then obtain ds where compared: "Compare (pcParseTime codec) (pcJSON codec) p m reference reference = Inr ds" by blast
  have valid: "ValidateSuiteAgainst (pcParseTime codec) p m reference = None
      \<and> (\<forall>ob \<in> set (osContracts reference). obStatus ob = StatusObserved)"
    using True Compare_self by blast
  note checked = conjunct2[OF True, unfolded check_expectation_None]
  have distinct: "distinct (map kpID (dpContracts policy))" "distinct (map dvID (deContracts e))"
    "distinct (map ctID (mfContracts m))" and length: "length (osContracts reference) = length (mfContracts m)"
    and named: "phases_named (deContracts e)"
    using checked valid validateDeviationPolicy_distinct Expectation_Validate_distinct Expectation_Validate_phases
      ValidateSuiteAgainst_distinct by blast+
  have "map kpID (map contract_selector (deContracts e)) = map dvID (deContracts e)"
    by (simp add: contract_selector_def)
  then have ids: "map kpID (dpContracts policy) = map dvID (deContracts e)" using checked by metis
  let ?statuses = "check_statuses policy (-1) (mfContracts m) = Inr (int (length (dpContracts policy)) - 1)"
  let ?applied = "apply_contracts (pcJSON codec) (mfContracts m) (deContracts e) m reference = Inr (effective, product)"
  have "PrepareDeviationExpectation codec p m reference e policy = Inr (effective, product) \<longleftrightarrow>
      ?statuses \<and> ?applied \<and> ValidateSuiteAgainst (pcParseTime codec) p effective product = None"
    using True compared by (auto simp: PrepareDeviationExpectation_def assms split: sum.splits option.splits)
  moreover note apply_contracts_Inr[OF distinct(3,2) refl length named, of "pcJSON codec" effective product]
    and statuses_decide[OF distinct(1,3)]
  ultimately show ?thesis using valid checked unfolding ids by blast
qed
section \<open>An example\<close>

text \<open>The locked profile of the repository, \<open>conformance/profiles/django-6.1-sqlite-darwin-arm64.json\<close>.\<close>

definition locked_profile :: profile where
  "locked_profile =
     \<lparr>prFormatVersion = 2, prID = ''django-6.1-sqlite-darwin-arm64'',
      prFingerprint = \<lparr>pfDjangoVersion = ''6.1'',
        pfDjangoCommit = ''fe0a859f537d4238cf49fca39073513206f83122'',
        pfDjangoDistributionSHA256 = ''6c132cd980c9392b06807d4ca52d72530d631dc65a85d9dacede00a780cefbbe'',
        pfPythonImplementation = ''CPython'',
        pfPythonVersion = ''3.14.3'',
        pfSQLiteVersion = ''3.50.4'',
        pfSQLiteSourceID = ''2025-07-30 19:33:53 4d8adfb30e03f9cf27f800a2c1ba3c48fb4ca1b08b0f5ed59a4d5ecbf45e20a3'',
        pfDatabaseEngine = ''django.db.backends.sqlite3'',
        pfUseTZ = Some True,
        pfTimezone = ''UTC'',
        pfLanguageCode = ''en-us'',
        pfLocale = ''C'',
        pfPlatform = ''darwin'',
        pfArchitecture = ''arm64''\<rparr>,
      prLock = \<lparr>lkFile = ''uv.lock'', lkSHA256 = ''ad825e872092be26169a6706c0d9643e88875d877f24bffc5c1a3471d82b1fb7'',
        lkManager = ''uv'', lkManagerVersion = ''0.10.12''\<rparr>\<rparr>"

text \<open>A passing contract, and a deviation with another phase, a changed second step and a new first step.\<close>

definition example_source :: provenance where
  "example_source = \<lparr>pvKind = ''source'', pvReference = ''django@fe0a859'', pvDerived = Some False, pvLicense = ''BSD-3-Clause''\<rparr>"

definition example_decision :: provenance where
  "example_decision = \<lparr>pvKind = ''decision'', pvReference = ''DEV-0001'', pvDerived = Some False, pvLicense = ''Apache-2.0''\<rparr>"

definition example_contract :: "string \<Rightarrow> contract_status \<Rightarrow> provenance list \<Rightarrow> phase \<Rightarrow> contract" where
  "example_contract ident status ps ph =
     \<lparr>ctID = ident, ctTitle = ''Example'', ctScenario = ''django.migration.example'', ctPhase = ph, ctStatus = status,
      ctProvenance = ps, ctComparison = [CompareDBState, CompareMetrics]\<rparr>"

definition example_passing :: "string list" where
  "example_passing = [''MIG-011'', ''MIG-012'', ''MIG-013'', ''MIG-014'', ''MIG-015'', ''MIG-016'', ''MIG-017'']"

definition example_manifest :: "phase \<Rightarrow> manifest" where
  "example_manifest ph =
     \<lparr>mfFormatVersion = 2, mfProfileID = prID locked_profile,
      mfContracts = map (\<lambda>ident. example_contract ident ContractPassing [example_source] PhaseCommit) example_passing
        @ [example_contract ''MIG-018'' ContractDeviation [example_source, example_decision] ph]\<rparr>"

definition example_step :: "string \<Rightarrow> pvalue" where
  "example_step model = Object [(''transaction_model'', String_value model)]"

definition example_steps :: "string list \<Rightarrow> pvalue" where
  "example_steps models = Object [(''steps'', List_value (map example_step models))]"

definition example_observation :: "string \<Rightarrow> phase \<Rightarrow> string list \<Rightarrow> observation" where
  "example_observation ident ph models =
     \<lparr>obID = ident, obStatus = StatusObserved, obPhase = ph, obResult = None, obError = None,
      obDBState = Some (Object []), obMetrics = Some (example_steps models)\<rparr>"

definition example_suite :: "observation \<Rightarrow> observation_suite" where
  "example_suite ob =
     \<lparr>osFormatVersion = 2, osProfile = Snapshot locked_profile,
      osContracts = map (\<lambda>ident. example_observation ident PhaseCommit [''one'']) example_passing @ [ob]\<rparr>"

definition example_changes :: "deviation_change list" where
  "example_changes =
     [\<lparr>dcDimension = DeviationPhase, dcPath = '''', dcOperation = DeviationReplace,
       dcReference = String_value ''commit'', dcProduct = String_value ''rollback''\<rparr>,
      \<lparr>dcDimension = DeviationMetrics, dcPath = ''steps[1].transaction_model'', dcOperation = DeviationReplace,
       dcReference = String_value ''joint'', dcProduct = String_value ''step''\<rparr>,
      \<lparr>dcDimension = DeviationMetrics, dcPath = ''steps[0]'', dcOperation = DeviationInsertBefore,
       dcReference = example_step ''step'', dcProduct = example_step ''prepare''\<rparr>]"

definition example_expectation :: deviation_expectation where
  "example_expectation =
     \<lparr>deFormatVersion = 2, deProfileID = prID locked_profile, deDecision = ''DEV-0001'',
      deContracts = [\<lparr>dvID = ''MIG-018'', dvChanges = example_changes\<rparr>]\<rparr>"

definition example_policy :: deviation_policy where
  "example_policy = \<lparr>dpDecision = ''DEV-0001'', dpContracts = [\<lparr>kpID = ''MIG-018'', kpChanges = map change_selector example_changes\<rparr>]\<rparr>"

definition example_codec :: protocol_codec where
  "example_codec = \<lparr>pcParseTime = (\<lambda>_. None), pcJSON = \<lparr>jtValue = (\<lambda>_. ''''), jtError = (\<lambda>_. '''')\<rparr>,
     pcCloneManifest = Inr, pcCloneSuite = Inr\<rparr>"

definition example_prepare :: "string list \<Rightarrow> go_error + manifest \<times> observation_suite" where
  "example_prepare models = PrepareDeviationExpectation example_codec locked_profile (example_manifest PhaseCommit)
     (example_suite (example_observation ''MIG-018'' PhaseCommit models)) example_expectation example_policy"


lemma example_runs:
  "example_prepare [''step'', ''joint''] =
     Inr (example_manifest PhaseRollback, example_suite (example_observation ''MIG-018'' PhaseRollback [''prepare'', ''step'', ''step'']))"
  by code_simp

theorem PrepareDeviationExpectation_decides_witness:
  "deviation_ids (mfContracts (example_manifest PhaseCommit)) = map dvID (deContracts example_expectation)
   \<and> (\<exists>cs obs. example_manifest PhaseRollback = (example_manifest PhaseCommit)\<lparr>mfContracts := cs\<rparr>
        \<and> (\<forall>i < length (mfContracts (example_manifest PhaseCommit)).
              product_contract (deContracts example_expectation) (ctID (mfContracts (example_manifest PhaseCommit) ! i))
                (mfContracts (example_manifest PhaseCommit) ! i,
                 osContracts (example_suite (example_observation ''MIG-018'' PhaseCommit [''step'', ''joint''])) ! i)
                (cs ! i, obs ! i)))"
proof -
  have clones: "pcCloneManifest example_codec m = Inr m" "pcCloneSuite example_codec s = Inr s" for m s
    by (simp_all add: example_codec_def)
  show ?thesis
    using PrepareDeviationExpectation_decides[OF clones, THEN iffD1, OF example_runs[unfolded example_prepare_def]]
    by blast
qed

end
