(* ===== verification/Conformance_Planning.thy ===== *)
theory Conformance_Planning
  imports Planner Protocol_Deviation
begin

text \<open>
  Package \<open>conformance/runners/godj\<close>, \<open>migration_planning_scenarios.go\<close>: the scenarios that run the
  planner on small graphs and turn what it answers into observations. They do no input or output, so
  they are functions of the fixture. The text of an error, which the contracts do not compare, is a
  parameter.
\<close>

section \<open>Fixtures\<close>

record migrationPlanningDependency =
  dpnChild :: migration_key
  dpnParent :: migration_key

record migrationPlanningTarget =
  ptApp :: string
  ptName :: string
  ptZero :: bool

record migrationPlanningCase =
  pcName :: string
  pcApplied :: "migration_key list"
  pcTargets :: "migrationPlanningTarget list"

text \<open>A nil list of applied migrations or targets leaves the fact out of the observation.\<close>

record migrationPlanningErrorRequest =
  prqApplied :: "migration_key list option"
  prqTargets :: "migrationPlanningTarget list option"
  prqOperation :: string

record migrationPlanningFixture =
  pxPhase :: phase
  pxNodes :: "migration_key list"
  pxDependencies :: "migrationPlanningDependency list"
  pxCases :: "migrationPlanningCase list"
  pxErrorRequest :: "migrationPlanningErrorRequest option"

definition planningA1 :: migration_key where "planningA1 = MigrationKey ''alpha'' ''0001_initial''"
definition planningA2 :: migration_key where "planningA2 = MigrationKey ''alpha'' ''0002_second''"
definition planningA3 :: migration_key where "planningA3 = MigrationKey ''alpha'' ''0003_third''"
definition planningB1 :: migration_key where "planningB1 = MigrationKey ''beta'' ''0001_initial''"
definition planningB2 :: migration_key where "planningB2 = MigrationKey ''beta'' ''0002_second''"
definition planningG1 :: migration_key where "planningG1 = MigrationKey ''gamma'' ''0001_initial''"
definition planningS1 :: migration_key where "planningS1 = MigrationKey ''shared'' ''0001_initial''"

definition planningNamedTarget :: "migration_key \<Rightarrow> migrationPlanningTarget" where
  "planningNamedTarget key = \<lparr>ptApp = kApp key, ptName = kName key, ptZero = False\<rparr>"

definition planningZeroTarget :: "string \<Rightarrow> migrationPlanningTarget" where
  "planningZeroTarget app = \<lparr>ptApp = app, ptName = '''', ptZero = True\<rparr>"

definition planningLinearNodes :: "migration_key list" where
  "planningLinearNodes = [planningA1, planningA2, planningA3]"

definition planningLinearDependencies :: "migrationPlanningDependency list" where
  "planningLinearDependencies =
     [\<lparr>dpnChild = planningA2, dpnParent = planningA1\<rparr>, \<lparr>dpnChild = planningA3, dpnParent = planningA2\<rparr>]"

definition planningCrossNodes :: "migration_key list" where
  "planningCrossNodes = [planningA1, planningA2, planningB1, planningB2]"

definition planningCrossDependencies :: "migrationPlanningDependency list" where
  "planningCrossDependencies =
     [\<lparr>dpnChild = planningA2, dpnParent = planningA1\<rparr>, \<lparr>dpnChild = planningB1, dpnParent = planningA2\<rparr>,
      \<lparr>dpnChild = planningB2, dpnParent = planningB1\<rparr>]"

text \<open>The two shapes of a fixture: cases that plan, or one request that fails.\<close>

definition planning_fixture :: "migration_key list \<Rightarrow> migrationPlanningDependency list \<Rightarrow> migrationPlanningCase list
    \<Rightarrow> migrationPlanningFixture" where
  "planning_fixture nodes dependencies cases =
     \<lparr>pxPhase = PhaseEvaluation, pxNodes = nodes, pxDependencies = dependencies, pxCases = cases, pxErrorRequest = None\<rparr>"

definition planning_error_fixture :: "phase \<Rightarrow> migration_key list \<Rightarrow> migrationPlanningDependency list
    \<Rightarrow> migrationPlanningErrorRequest \<Rightarrow> migrationPlanningFixture" where
  "planning_error_fixture ph nodes dependencies request =
     \<lparr>pxPhase = ph, pxNodes = nodes, pxDependencies = dependencies, pxCases = [], pxErrorRequest = Some request\<rparr>"

definition migrationPlanningFixtures :: "(string \<times> migrationPlanningFixture) list" where
  "migrationPlanningFixtures =
    [(''django.migration.plan.linear_forward'',
      planning_fixture planningLinearNodes planningLinearDependencies
        [\<lparr>pcName = ''empty_history_to_linear_target'', pcApplied = [], pcTargets = [planningNamedTarget planningA3]\<rparr>]),
     (''django.migration.plan.applied_pruning'',
      planning_fixture planningLinearNodes planningLinearDependencies
        [\<lparr>pcName = ''partially_applied_prefix'', pcApplied = [planningA1], pcTargets = [planningNamedTarget planningA3]\<rparr>,
         \<lparr>pcName = ''fully_applied_target'', pcApplied = [planningA1, planningA2, planningA3],
          pcTargets = [planningNamedTarget planningA3]\<rparr>]),
     (''django.migration.plan.missing_target'',
      planning_error_fixture PhaseEvaluation [planningA1] []
        \<lparr>prqApplied = Some [],
         prqTargets = Some [planningNamedTarget (MigrationKey ''alpha'' ''9999_missing'')], prqOperation = ''''\<rparr>),
     (''django.migration.plan.prior_target'',
      planning_fixture planningLinearNodes planningLinearDependencies
        [\<lparr>pcName = ''retain_prior_target'', pcApplied = [planningA1, planningA2, planningA3],
          pcTargets = [planningNamedTarget planningA1]\<rparr>]),
     (''django.migration.plan.zero_with_dependents'',
      planning_fixture planningCrossNodes planningCrossDependencies
        [\<lparr>pcName = ''zero_includes_cross_app_dependents'', pcApplied = planningCrossNodes,
          pcTargets = [planningZeroTarget ''alpha'']\<rparr>]),
     (''django.migration.plan.cross_app_forward'',
      planning_fixture planningCrossNodes planningCrossDependencies
        [\<lparr>pcName = ''dependency_before_cross_app_target'', pcApplied = [], pcTargets = [planningNamedTarget planningB2]\<rparr>]),
     (''django.migration.plan.cross_app_backward'',
      planning_fixture planningCrossNodes planningCrossDependencies
        [\<lparr>pcName = ''dependent_before_cross_app_dependency'', pcApplied = planningCrossNodes,
          pcTargets = [planningNamedTarget planningA1]\<rparr>]),
     (''django.migration.plan.ordered_targets_shared_dependency'',
      planning_fixture [planningS1, planningA1, planningB1]
        [\<lparr>dpnChild = planningA1, dpnParent = planningS1\<rparr>, \<lparr>dpnChild = planningB1, dpnParent = planningS1\<rparr>]
        [\<lparr>pcName = ''ordered_targets_share_one_dependency'', pcApplied = [],
          pcTargets = [planningNamedTarget planningA1, planningNamedTarget planningB1]\<rparr>]),
     (''django.migration.plan.retained_other_branches'',
      planning_fixture [planningA1, planningA2, planningA3, planningB1, planningG1]
        [\<lparr>dpnChild = planningA2, dpnParent = planningA1\<rparr>, \<lparr>dpnChild = planningA3, dpnParent = planningA2\<rparr>,
         \<lparr>dpnChild = planningB1, dpnParent = planningA1\<rparr>]
        [\<lparr>pcName = ''same_app_descendants_with_retained_branches'',
          pcApplied = [planningA1, planningA2, planningA3, planningB1, planningG1],
          pcTargets = [planningNamedTarget planningA1]\<rparr>]),
     (''django.migration.plan.inconsistent_history'',
      planning_error_fixture PhaseEvaluation [planningA1, planningA2]
        [\<lparr>dpnChild = planningA2, dpnParent = planningA1\<rparr>]
        \<lparr>prqApplied = Some [planningA2], prqTargets = None, prqOperation = ''validate_history_before_planning''\<rparr>),
     (''django.migration.plan.missing_dependency'',
      planning_error_fixture PhaseConstruction [planningA2]
        [\<lparr>dpnChild = planningA2, dpnParent = MigrationKey ''alpha'' ''0001_missing''\<rparr>]
        \<lparr>prqApplied = None, prqTargets = None, prqOperation = ''build_graph''\<rparr>),
     (''django.migration.plan.dependency_cycle'',
      planning_error_fixture PhaseConstruction [planningA1, planningB1]
        [\<lparr>dpnChild = planningA1, dpnParent = planningB1\<rparr>, \<lparr>dpnChild = planningB1, dpnParent = planningA1\<rparr>]
        \<lparr>prqApplied = None, prqTargets = None, prqOperation = ''build_graph''\<rparr>)]"

section \<open>Values of an observation\<close>

definition planningKeyLess :: "migration_key \<Rightarrow> migration_key \<Rightarrow> bool" where
  "planningKeyLess left right =
     (if kApp left \<noteq> kApp right then kApp left < kApp right else kName left < kName right)"

lemma planningKeyLess_less: "planningKeyLess left right \<longleftrightarrow> left < right"
  by (simp add: planningKeyLess_def less_migration_key_def migrationKeyLess_def)

definition planningKeyValue :: "migration_key \<Rightarrow> pvalue" where
  "planningKeyValue key = Object [(''app'', String_value (kApp key)), (''name'', String_value (kName key))]"

text \<open>Sorting by \<open>planningKeyLess\<close>, a total order: equal keys are indistinguishable.\<close>

definition planningKeyValuesSorted :: "migration_key list \<Rightarrow> pvalue list" where
  "planningKeyValuesSorted keys = map planningKeyValue (sort keys)"

definition planningTargetValues :: "migrationPlanningTarget list \<Rightarrow> pvalue list" where
  "planningTargetValues targets =
     map (\<lambda>t. Object [(''app'', String_value (ptApp t)),
                      (''name'', if ptZero t then Null_value else String_value (ptName t))]) targets"

fun direction_string :: "direction \<Rightarrow> string" where
  "direction_string DirectionForward = ''forward''"
| "direction_string DirectionBackward = ''backward''"
| "direction_string (DirectionOther s) = s"

definition planningStepValues :: "plan_step list \<Rightarrow> pvalue list" where
  "planningStepValues steps =
     map (\<lambda>s. Object [(''app'', String_value (kApp (psKey s))),
                      (''direction'', String_value (direction_string (psDirection s))),
                      (''name'', String_value (kName (psKey s)))]) steps"

definition planningRequestValue :: "migrationPlanningErrorRequest \<Rightarrow> pvalue" where
  "planningRequestValue request =
     Object
       ((case prqApplied request of None \<Rightarrow> [] | Some keys \<Rightarrow> [(''applied'', List_value (planningKeyValuesSorted keys))])
        @ (case prqTargets request of None \<Rightarrow> [] | Some targets \<Rightarrow> [(''targets'', List_value (planningTargetValues targets))])
        @ (if prqOperation request \<noteq> '''' then [(''operation'', String_value (prqOperation request))] else []))"

text \<open>The order of the dependencies: by child, then by parent.\<close>

definition dependency_key :: "migrationPlanningDependency \<Rightarrow> dependency_edge" where
  "dependency_key d = DependencyEdge (dpnChild d) (dpnParent d)"

definition planningGraphValue :: "migration_key list \<Rightarrow> migrationPlanningDependency list \<Rightarrow> pvalue" where
  "planningGraphValue nodes dependencies =
     Object
       [(''dependencies'', List_value
           (map (\<lambda>d. Object [(''child'', planningKeyValue (dpnChild d)), (''parent'', planningKeyValue (dpnParent d))])
              (sort_key dependency_key dependencies))),
        (''nodes'', List_value (planningKeyValuesSorted nodes))]"

definition planningDatabaseState :: "migration_key list \<Rightarrow> pvalue" where
  "planningDatabaseState applied =
     Object
       [(''applied_migrations'', List_value (planningKeyValuesSorted applied)),
        (''managed_schema_inventory'', List_value []),
        (''recorder_present'', Boolean_value True)]"

section \<open>Running a fixture\<close>

record migrationPlanningCapture =
  pgPlan :: "plan_step list"
  pgErr :: "go_error option"
  pgBefore :: pvalue
  pgAfter :: pvalue
  pgDDLStatements :: nat
  pgWriteStatements :: nat
  pgNonSelectStatements :: nat

definition captureMigrationPlanning :: "migration_key list \<Rightarrow> go_error + plan_step list \<Rightarrow> migrationPlanningCapture" where
  "captureMigrationPlanning applied operation =
     \<lparr>pgPlan = (case operation of Inl _ \<Rightarrow> [] | Inr plan \<Rightarrow> plan),
      pgErr = (case operation of Inl err \<Rightarrow> Some err | Inr _ \<Rightarrow> None),
      pgBefore = planningDatabaseState applied, pgAfter = planningDatabaseState applied,
      pgDDLStatements = 0, pgWriteStatements = 0, pgNonSelectStatements = 0\<rparr>"

text \<open>The counters are assigned after the facts, and so win over facts of their names.\<close>

definition planningMutationMetrics :: "migrationPlanningCapture \<Rightarrow> (string \<times> pvalue) list \<Rightarrow> pvalue" where
  "planningMutationMetrics capture facts =
     (let counters =
        [(''ddl_statement_count'', Integer_value (sprint_nat (pgDDLStatements capture))),
         (''non_select_statement_count'', Integer_value (sprint_nat (pgNonSelectStatements capture))),
         (''state_unchanged'', Boolean_value (pgBefore capture = pgAfter capture)),
         (''write_statement_count'', Integer_value (sprint_nat (pgWriteStatements capture)))] in
      Object (counters @ filter (\<lambda>f. fst f \<notin> set (map fst counters)) facts))"

definition planningMigrations :: "migration_key list \<Rightarrow> migrationPlanningDependency list \<Rightarrow> migration list" where
  "planningMigrations nodes dependencies =
     map (\<lambda>node. \<lparr>migApp = kApp node, migName = kName node,
                  migDependencies = map dpnParent (filter (\<lambda>d. dpnChild d = node) dependencies),
                  migOperations = []\<rparr>) nodes"

definition planningTargets :: "migrationPlanningTarget list \<Rightarrow> target list" where
  "planningTargets targets =
     map (\<lambda>t. if ptZero t then ZeroTarget (ptApp t) else NamedTarget (MigrationKey (ptApp t) (ptName t))) targets"

text \<open>The operation of a case and of an error request: build the planner, then plan.\<close>

definition plan_fixture :: "migrationPlanningFixture \<Rightarrow> migration_key list \<Rightarrow> migrationPlanningTarget list
    \<Rightarrow> go_error + plan_step list" where
  "plan_fixture fixture applied targets =
     (case NewPlanner (planningMigrations (pxNodes fixture) (pxDependencies fixture)) of
        Inl err \<Rightarrow> Inl err
      | Inr planner \<Rightarrow>
        (case NewAppliedState applied of
           Inl err \<Rightarrow> Inl err
         | Inr appliedState \<Rightarrow> Plan planner appliedState (planningTargets targets)))"

text \<open>The values a case adds to the result, the database state and the metrics.\<close>

definition planning_case :: "migrationPlanningFixture \<Rightarrow> migrationPlanningCase \<Rightarrow> go_error + pvalue \<times> pvalue \<times> pvalue" where
  "planning_case fixture scenarioCase =
     (let capture = captureMigrationPlanning (pcApplied scenarioCase)
            (plan_fixture fixture (pcApplied scenarioCase) (pcTargets scenarioCase)) in
      case pgErr capture of
        Some err \<Rightarrow> Inl (ErrWrap ''scenario case %q unexpectedly failed: %w'' [FStr (pcName scenarioCase)] err)
      | None \<Rightarrow> Inr
          (Object
            [(''applied'', List_value (planningKeyValuesSorted (pcApplied scenarioCase))),
             (''name'', String_value (pcName scenarioCase)),
             (''plan'', List_value (planningStepValues (pgPlan capture))),
             (''targets'', List_value (planningTargetValues (pcTargets scenarioCase)))],
           Object
            [(''after'', pgAfter capture), (''before'', pgBefore capture),
             (''name'', String_value (pcName scenarioCase))],
           planningMutationMetrics capture [(''name'', String_value (pcName scenarioCase))]))"

fun planning_cases :: "migrationPlanningFixture \<Rightarrow> migrationPlanningCase list
    \<Rightarrow> go_error + pvalue list \<times> pvalue list \<times> pvalue list" where
  "planning_cases fixture [] = Inr ([], [], [])"
| "planning_cases fixture (c # cs) =
     (case planning_case fixture c of
        Inl err \<Rightarrow> Inl err
      | Inr (result, db, metrics) \<Rightarrow>
          map_sum id (\<lambda>(results, dbs, ms). (result # results, db # dbs, metrics # ms)) (planning_cases fixture cs))"

fun error_category_string :: "error_category \<Rightarrow> string" where
  "error_category_string CategoryState = ''migration_state_error''"
| "error_category_string CategoryCapability = ''migration_capability_error''"
| "error_category_string CategoryExecution = ''migration_execution_error''"
| "error_category_string CategoryRecorder = ''migration_recorder_error''"
| "error_category_string CategoryTransaction = ''migration_transaction_error''"
| "error_category_string CategoryPlan = ''migration_plan_error''"
| "error_category_string CategoryHistory = ''migration_history_error''"
| "error_category_string CategoryGraph = ''migration_graph_error''"

fun error_code_string :: "error_code \<Rightarrow> string" where
  "error_code_string CodeInvalidState = ''invalid_state''"
| "error_code_string CodeUnsupportedOperation = ''unsupported_operation''"
| "error_code_string CodeOperationFailed = ''operation_failed''"
| "error_code_string CodeRecordFailed = ''record_failed''"
| "error_code_string CodeBeginFailed = ''begin_failed''"
| "error_code_string CodeCommitFailed = ''commit_failed''"
| "error_code_string CodeInvalidNode = ''invalid_node''"
| "error_code_string CodeDuplicateNode = ''duplicate_node''"
| "error_code_string CodeInvalidDependency = ''invalid_dependency''"
| "error_code_string CodeDuplicateDependency = ''duplicate_dependency''"
| "error_code_string CodeDependencyNotFound = ''dependency_not_found''"
| "error_code_string CodeDependencyCycle = ''dependency_cycle''"
| "error_code_string CodeInvalidAppliedState = ''invalid_applied_state''"
| "error_code_string CodeDuplicateApplied = ''duplicate_applied''"
| "error_code_string CodeInconsistentAppliedHistory = ''inconsistent_applied_history''"
| "error_code_string CodeInvalidTarget = ''invalid_target''"
| "error_code_string CodeTargetNotFound = ''target_not_found''"
| "error_code_string CodeInvalidExecutionPlan = ''invalid_execution_plan''"
| "error_code_string CodeMixedDirections = ''mixed_directions''"
| "error_code_string CodeReadFailed = ''read_failed''"

definition runMigrationPlanningErrorFixture :: "(go_error \<Rightarrow> string) \<Rightarrow> migrationPlanningFixture
    \<Rightarrow> migrationPlanningErrorRequest \<Rightarrow> string \<Rightarrow> go_error + observation" where
  "runMigrationPlanningErrorFixture error_text fixture request contractID =
     (let applied = (case prqApplied request of None \<Rightarrow> [] | Some keys \<Rightarrow> keys);
          targets = (case prqTargets request of None \<Rightarrow> [] | Some ts \<Rightarrow> ts);
          capture = captureMigrationPlanning applied (plan_fixture fixture applied targets) in
      case pgErr capture of
        None \<Rightarrow> Inl (ErrNew ''migration-planning error fixture unexpectedly succeeded'')
      | Some err \<Rightarrow>
        (case find is_PlanningError (error_tree err) of
           None \<Rightarrow> Inl (ErrWrap ''migration-planning error = %T, want *migrations.PlanningError: %w'' [] err)
         | Some planningError \<Rightarrow> Inr
             \<lparr>obID = contractID, obStatus = StatusObserved, obPhase = pxPhase fixture, obResult = None,
              obError = Some \<lparr>oeCategory = error_category_string (peCategory planningError),
                oeCode = error_code_string (peCode planningError), oePythonType = '''',
                oeMessage = error_text err, oeMessageIsContract = Some False\<rparr>,
              obDBState = Some (Object [(''after'', pgAfter capture), (''before'', pgBefore capture)]),
              obMetrics = Some (planningMutationMetrics capture
                [(''graph'', planningGraphValue (pxNodes fixture) (pxDependencies fixture)),
                 (''request'', planningRequestValue request)])\<rparr>))"

text \<open>The steps of a run thread the world that the context may change; these scenarios change nothing else.\<close>

definition runMigrationPlanningFixture :: "(go_error \<Rightarrow> string) \<Rightarrow> ('w \<Rightarrow> go_error option \<times> 'w) \<Rightarrow> string
    \<Rightarrow> migrationPlanningFixture \<Rightarrow> 'w \<Rightarrow> (go_error + observation) \<times> 'w" where
  "runMigrationPlanningFixture error_text ctxErr contractID fixture w =
     (case ctxErr w of
        (Some err, w1) \<Rightarrow> (Inl err, w1)
      | (None, w1) \<Rightarrow>
        (case pxErrorRequest fixture of
           Some request \<Rightarrow> (runMigrationPlanningErrorFixture error_text fixture request contractID, w1)
         | None \<Rightarrow>
            (map_sum id (\<lambda>(results, dbs, metrics).
               \<lparr>obID = contractID, obStatus = StatusObserved, obPhase = pxPhase fixture,
                obResult = Some (Object [(''cases'', List_value results)]), obError = None,
                obDBState = Some (Object [(''cases'', List_value dbs)]),
                obMetrics = Some (Object [(''cases'', List_value metrics)])\<rparr>)
               (planning_cases fixture (pxCases fixture)), w1)))"

definition migrationPlanningScenario :: "(go_error \<Rightarrow> string) \<Rightarrow> ('w \<Rightarrow> go_error option \<times> 'w) \<Rightarrow> contract
    \<Rightarrow> 'w \<Rightarrow> (go_error + observation) \<times> 'w" where
  "migrationPlanningScenario error_text ctxErr c w =
     (case map_of migrationPlanningFixtures (ctScenario c) of
        None \<Rightarrow> (Inl (ErrFmt ''unsupported scenario %q'' [FStr (ctScenario c)]), w)
      | Some fixture \<Rightarrow>
          if pxPhase fixture \<noteq> ctPhase c
          then (Inl (ErrFmt ''scenario %q phase = %q, manifest requires %q''
                  [FStr (ctScenario c), FStr (phase_string (pxPhase fixture)), FStr (phase_string (ctPhase c))]), w)
          else runMigrationPlanningFixture error_text ctxErr (ctID c) fixture w)"

end
