(* ===== verification/Io_Steps.thy ===== *)
theory Io_Steps
  imports Executor
begin

text \<open>
  Steps with input and output, shared by the theories of the conformance tools: a step changes a
  world of any type and fails with an error or returns a value. Go's statements are read in this
  order: call, check the error, go on.
\<close>

section \<open>Combinators\<close>

type_synonym ('w, 'a) io_step = "'w \<Rightarrow> (go_error + 'a) \<times> 'w"

definition io_bind :: "('w, 'a) io_step \<Rightarrow> ('a \<Rightarrow> ('w, 'b) io_step) \<Rightarrow> ('w, 'b) io_step" where
  "io_bind m f w = (case m w of (Inl err, w') \<Rightarrow> (Inl err, w') | (Inr x, w') \<Rightarrow> f x w')"

definition io_result :: "go_error + 'a \<Rightarrow> ('w, 'a) io_step" where
  "io_result r w = (r, w)"

definition io_wrap :: "(go_error \<Rightarrow> go_error) \<Rightarrow> ('w, 'a) io_step \<Rightarrow> ('w, 'a) io_step" where
  "io_wrap wrap m w = (case m w of (Inl err, w') \<Rightarrow> (Inl (wrap err), w') | r \<Rightarrow> r)"

definition io_check :: "(go_error \<Rightarrow> go_error) \<Rightarrow> ('w \<Rightarrow> go_error option \<times> 'w) \<Rightarrow> ('w, unit) io_step" where
  "io_check wrap call w = (case call w of (Some err, w') \<Rightarrow> (Inl (wrap err), w') | (None, w') \<Rightarrow> (Inr (), w'))"

text \<open>A deferred close, whose error is joined to the result's.\<close>

definition io_defer :: "('w \<Rightarrow> go_error option \<times> 'w) \<Rightarrow> ('w, 'a) io_step \<Rightarrow> ('w, 'a) io_step" where
  "io_defer close m w =
     (case m w of
        (r, w1) \<Rightarrow>
        (case close w1 of
           (closeErr, w2) \<Rightarrow>
           (case errors_join [case r of Inl err \<Rightarrow> Some err | Inr _ \<Rightarrow> None, closeErr] of
              None \<Rightarrow> (r, w2)
            | Some err \<Rightarrow> (Inl err, w2))))"

definition wrap_result :: "(go_error \<Rightarrow> go_error) \<Rightarrow> go_error + 'a \<Rightarrow> go_error + 'a" where
  "wrap_result wrap r = map_sum wrap id r"

section \<open>Steps that succeed\<close>

lemma io_bind_Inr: "fst (io_bind m f w) = Inr y \<longleftrightarrow> (\<exists>x. fst (m w) = Inr x \<and> fst (f x (snd (m w))) = Inr y)"
  by (auto simp: io_bind_def split: prod.split sum.split)

lemma io_result_fst [simp]: "fst (io_result r w) = r"
  by (simp add: io_result_def)

lemma io_wrap_Inr [simp]: "fst (io_wrap g m w) = Inr x \<longleftrightarrow> fst (m w) = Inr x"
  by (auto simp: io_wrap_def split: prod.splits sum.splits)

lemma io_check_Inr [simp]: "fst (io_check g call w) = Inr x \<longleftrightarrow> fst (call w) = None"
  by (auto simp: io_check_def split: prod.split option.split)

lemma wrap_result_Inr [simp]: "wrap_result g r = Inr x \<longleftrightarrow> r = Inr x"
  by (cases r) (simp_all add: wrap_result_def)

end
