(* ===== verification/Conformance_Reconstruction.thy ===== *)
theory Conformance_Reconstruction
  imports Reconstructor Conformance_Planning Io_Steps
begin

text \<open>
  Package \<open>conformance/runners/godj\<close>, \<open>migration_state_reconstruction_scenarios.go\<close>: the scenarios
  that reconstruct a historical project state beside a live database that disagrees with it. The
  definitions, requests, normalization of the state and the order of the run are modelled; opening,
  filling, reading and closing the SQLite files is the record \<open>state_database\<close>, a parameter.
\<close>

section \<open>Fixtures\<close>

datatype migrationStateRequestMode =
    migrationStateExplicitEmpty | migrationStateBefore | migrationStateAfter | migrationStateLatest
  | migrationStateApplied

record migrationStateDivergentSchema =
  mdTable :: string
  mdColumn :: string

record migrationStateFixture =
  sxPhase :: phase
  sxMode :: migrationStateRequestMode
  sxTargets :: "migration_key list"
  sxApplied :: "migration_key list"
  sxDefinitions :: "migration list"
  sxDivergentTable :: string
  sxDivergentColumn :: string
  sxAdditionalDivergence :: "migrationStateDivergentSchema list"

definition migrationStateAlphaRoot :: migration_key where "migrationStateAlphaRoot = MigrationKey ''alpha'' ''0002_root''"
definition migrationStateAlphaMiddle :: migration_key where "migrationStateAlphaMiddle = MigrationKey ''alpha'' ''0001_middle''"
definition migrationStateAlphaLeaf :: migration_key where "migrationStateAlphaLeaf = MigrationKey ''alpha'' ''0003_leaf''"
definition migrationStateBetaRoot :: migration_key where "migrationStateBetaRoot = MigrationKey ''beta'' ''0001_root''"
definition migrationStateGammaRoot :: migration_key where "migrationStateGammaRoot = MigrationKey ''gamma'' ''0001_root''"
definition migrationStateDeltaRoot :: migration_key where "migrationStateDeltaRoot = MigrationKey ''delta'' ''0001_root''"
definition migrationStateLegacy :: migration_key where "migrationStateLegacy = MigrationKey ''legacy'' ''0099_retired''"

definition migrationStateAutoField :: ir_field where
  "migrationStateAutoField = zeroField\<lparr>fName := ''id'', fGoName := ''ID'', fColumn := ''id'', fKind := FieldAuto, fPrimaryKey := True\<rparr>"

definition migrationStateStringDefault :: "string \<Rightarrow> scalar_default option" where
  "migrationStateStringDefault v = Some \<lparr>sdKind = ScalarString, sdString = v, sdBoolean = False, sdInteger = 0\<rparr>"

definition migrationStateBooleanDefault :: "bool \<Rightarrow> scalar_default option" where
  "migrationStateBooleanDefault v = Some \<lparr>sdKind = ScalarBoolean, sdString = '''', sdBoolean = v, sdInteger = 0\<rparr>"

text \<open>Abbreviations for the struct literals of the definitions.\<close>

definition state_boolean_field :: "string \<Rightarrow> string \<Rightarrow> scalar_default option \<Rightarrow> ir_field" where
  "state_boolean_field name goName d =
     zeroField\<lparr>fName := name, fGoName := goName, fColumn := name, fKind := FieldBoolean, fDefault := d\<rparr>"

definition state_char_field :: "string \<Rightarrow> string \<Rightarrow> string \<Rightarrow> bool \<Rightarrow> int \<Rightarrow> scalar_default option \<Rightarrow> ir_field" where
  "state_char_field name goName column nullable maxLength d =
     zeroField\<lparr>fName := name, fGoName := goName, fColumn := column, fKind := FieldChar, fNullable := nullable,
       fMaxLength := maxLength, fDefault := d\<rparr>"

definition state_create :: "string \<Rightarrow> string \<Rightarrow> string \<Rightarrow> string \<Rightarrow> ir_field \<Rightarrow> operation" where
  "state_create app name goName table field =
     ValueOperation (CreateModel app \<lparr>mName = name, mGoName = goName, mDBTable = table, mFields = [migrationStateAutoField, field]\<rparr>)"

definition state_migration :: "migration_key \<Rightarrow> migration_key list \<Rightarrow> operation list \<Rightarrow> migration" where
  "state_migration key dependencies operations =
     \<lparr>migApp = kApp key, migName = kName key, migDependencies = dependencies, migOperations = operations\<rparr>"

definition migrationStateDefinitions :: "migration list" where
  "migrationStateDefinitions =
     [state_migration migrationStateAlphaRoot []
        [state_create ''alpha'' ''zulu'' ''Zulu'' ''godj_state_alpha_zulu''
           (state_boolean_field ''active'' ''Active'' (migrationStateBooleanDefault True)),
         state_create ''alpha'' ''entry'' ''Entry'' ''godj_state_alpha_entry''
           (state_char_field ''headline'' ''Headline'' ''headline_text'' False 64 (migrationStateStringDefault ''''))],
      state_migration migrationStateAlphaMiddle [migrationStateAlphaRoot]
        [ValueOperation (AddField ''alpha'' ''entry''
           (state_boolean_field ''published'' ''Published'' (migrationStateBooleanDefault False)))],
      state_migration migrationStateAlphaLeaf [migrationStateAlphaMiddle]
        [ValueOperation (AddField ''alpha'' ''entry'' (state_char_field ''summary'' ''Summary'' ''summary'' True 255 None))],
      state_migration migrationStateBetaRoot [migrationStateAlphaRoot]
        [state_create ''beta'' ''audit'' ''Audit'' ''godj_state_beta_audit''
           (state_char_field ''code'' ''Code'' ''code'' True 32 None)],
      state_migration migrationStateGammaRoot [migrationStateAlphaRoot]
        [state_create ''gamma'' ''flag'' ''Flag'' ''godj_state_gamma_flag''
           (state_boolean_field ''enabled'' ''Enabled'' (migrationStateBooleanDefault True))],
      state_migration migrationStateDeltaRoot []
        [state_create ''delta'' ''archive'' ''Archive'' ''godj_state_delta_archive''
           (state_char_field ''label'' ''Label'' ''label'' False 48 (migrationStateStringDefault ''archive''))]]"

definition newMigrationStateFixture :: "migrationStateRequestMode \<Rightarrow> migrationStateFixture" where
  "newMigrationStateFixture mode =
     \<lparr>sxPhase = PhaseEvaluation, sxMode = mode, sxTargets = [], sxApplied = [],
      sxDefinitions = migrationStateDefinitions, sxDivergentTable = ''godj_state_live_decoy'',
      sxDivergentColumn = ''wrong'', sxAdditionalDivergence = []\<rparr>"

definition migrationStateReconstructionFixtures :: "(string \<times> migrationStateFixture) list" where
  "migrationStateReconstructionFixtures =
    [(''django.migration.state_reconstruction.explicit_empty'', newMigrationStateFixture migrationStateExplicitEmpty),
     (''django.migration.state_reconstruction.first_before'',
      (newMigrationStateFixture migrationStateBefore)\<lparr>sxTargets := [migrationStateAlphaRoot]\<rparr>),
     (''django.migration.state_reconstruction.first_after'',
      (newMigrationStateFixture migrationStateAfter)\<lparr>sxTargets := [migrationStateAlphaRoot]\<rparr>),
     (''django.migration.state_reconstruction.linear_middle_after'',
      (newMigrationStateFixture migrationStateAfter)\<lparr>sxTargets := [migrationStateAlphaMiddle]\<rparr>),
     (''django.migration.state_reconstruction.linear_middle_before'',
      (newMigrationStateFixture migrationStateBefore)\<lparr>sxTargets := [migrationStateAlphaMiddle]\<rparr>),
     (''django.migration.state_reconstruction.cross_app_dependency'',
      (newMigrationStateFixture migrationStateAfter)\<lparr>sxTargets := [migrationStateBetaRoot]\<rparr>),
     (''django.migration.state_reconstruction.multiple_targets_shared_dependency'',
      (newMigrationStateFixture migrationStateAfter)\<lparr>sxTargets := [migrationStateBetaRoot, migrationStateGammaRoot]\<rparr>),
     (''django.migration.state_reconstruction.latest_leaves'', newMigrationStateFixture migrationStateLatest),
     (''django.migration.state_reconstruction.applied_prefix_startup'',
      (newMigrationStateFixture migrationStateApplied)
        \<lparr>sxApplied := [migrationStateAlphaRoot, migrationStateAlphaMiddle]\<rparr>),
     (''django.migration.state_reconstruction.unrelated_known_unknown_startup'',
      (newMigrationStateFixture migrationStateApplied)
        \<lparr>sxApplied := [migrationStateAlphaRoot, migrationStateDeltaRoot, migrationStateLegacy]\<rparr>)]"

section \<open>Normalizing the state\<close>

definition migrationStateDefaultValue :: "scalar_default option \<Rightarrow> go_error + pvalue" where
  "migrationStateDefaultValue d =
     (case d of
        None \<Rightarrow> Inr (Object [(''present'', Boolean_value False), (''type'', String_value ''absent''), (''value'', Null_value)])
      | Some v \<Rightarrow>
          map_sum id (\<lambda>(defaultType, normalized).
              Object [(''present'', Boolean_value True), (''type'', String_value defaultType), (''value'', normalized)])
            (case sdKind v of
               ScalarString \<Rightarrow> Inr (''string'', String_value (sdString v))
             | ScalarBoolean \<Rightarrow> Inr (''bool'', Boolean_value (sdBoolean v))
             | kind \<Rightarrow> Inl (ErrFmt ''unsupported scalar default kind %q'' [FStr (scalar_kind_string kind)])))"

definition migrationStateMaxLength :: "ir_field \<Rightarrow> go_error + pvalue" where
  "migrationStateMaxLength field =
     (case fKind field of
        FieldChar \<Rightarrow>
          if fMaxLength field \<le> 0 then Inl (ErrNew ''char max_length must be positive'')
          else Inr (Integer_value (sprint_int (fMaxLength field)))
      | FieldKindOther s \<Rightarrow> Inl (ErrFmt ''unsupported field kind %q'' [FStr s])
      | _ \<Rightarrow>
          if fMaxLength field \<noteq> 0 then Inl (ErrNew ''non-char max_length must be zero'')
          else Inr Null_value)"

definition migrationStateFieldValue :: "ir_field \<Rightarrow> go_error + pvalue" where
  "migrationStateFieldValue field =
     (case migrationStateMaxLength field of
        Inl err \<Rightarrow> Inl err
      | Inr maxLength \<Rightarrow>
          map_sum id (\<lambda>defaultValue.
             Object
               [(''column'', String_value (fColumn field)), (''default'', defaultValue),
                (''kind'', String_value (field_kind_string (fKind field))), (''max_length'', maxLength),
                (''name'', String_value (fName field)), (''nullable'', Boolean_value (fNullable field)),
                (''primary_key'', Boolean_value (fPrimaryKey field))])
            (migrationStateDefaultValue (fDefault field)))"

text \<open>A loop that stops at the first error.\<close>

fun map_result :: "('a \<Rightarrow> go_error + 'b) \<Rightarrow> 'a list \<Rightarrow> go_error + 'b list" where
  "map_result f [] = Inr []"
| "map_result f (x # xs) =
     (case f x of Inl err \<Rightarrow> Inl err | Inr y \<Rightarrow> map_sum id ((#) y) (map_result f xs))"

definition migrationStateModelValue :: "unicode_tables \<Rightarrow> string \<Rightarrow> ir_model \<Rightarrow> go_error + pvalue" where
  "migrationStateModelValue uc appLabel model =
     (if mName model = '''' \<or> to_lower uc (mName model) \<noteq> mName model
      then Inl (ErrFmt ''state model name %q is not canonical lowercase'' [FStr (mName model)])
      else
        map_sum id (\<lambda>fieldValues.
            Object [(''db_table'', String_value (mDBTable model)), (''fields'', List_value fieldValues),
                    (''name'', String_value (mName model))])
          (map_result (\<lambda>field.
              wrap_result (ErrWrap ''state field %s.%s.%s: %w'' [FStr appLabel, FStr (mName model), FStr (fName field)])
                (migrationStateFieldValue field)) (mFields model)))"

text \<open>Model names of a schema are distinct, so the unstable sort by name has one result.\<close>

definition migrationStateAppValue :: "unicode_tables \<Rightarrow> project_state \<Rightarrow> string \<Rightarrow> go_error + pvalue" where
  "migrationStateAppValue uc state appLabel =
     (case State_Schema state appLabel of
        None \<Rightarrow> Inl (ErrFmt ''state app %q disappeared during normalization'' [FStr appLabel])
      | Some schema \<Rightarrow>
          if sAppLabel schema \<noteq> appLabel
          then Inl (ErrFmt ''state app key %q does not match schema label %q'' [FStr appLabel, FStr (sAppLabel schema)])
          else
            map_sum id (\<lambda>modelValues. Object [(''label'', String_value appLabel), (''models'', List_value modelValues)])
              (map_result (migrationStateModelValue uc appLabel) (sort_key mName (sModels schema))))"

definition migrationStateProjectValue :: "unicode_tables \<Rightarrow> project_state \<Rightarrow> go_error + pvalue" where
  "migrationStateProjectValue uc state =
     map_sum id (\<lambda>apps. Object [(''apps'', List_value apps),
         (''format_version'', Integer_value (sprint_int (State_FormatVersion state)))])
       (map_result (migrationStateAppValue uc state) (Apps state))"

section \<open>The facts of a run\<close>

definition migrationRestartGraphFacts :: "migration list \<Rightarrow> migration_key list \<times> migrationPlanningDependency list" where
  "migrationRestartGraphFacts definitions =
     (map migration_Key definitions,
      concat (map (\<lambda>m. map (\<lambda>parent. \<lparr>dpnChild = migration_Key m, dpnParent = parent\<rparr>) (migDependencies m)) definitions))"

definition migrationStateCaptureBoundary :: "migrationStateRequestMode \<Rightarrow> string" where
  "migrationStateCaptureBoundary mode = (if mode = migrationStateApplied then ''fresh_executor'' else ''fresh_loader'')"

definition migrationStateRequestValue :: "migrationStateFixture \<Rightarrow> pvalue" where
  "migrationStateRequestValue fixture =
     Object
       [(''mode'', String_value
          (if sxMode fixture = migrationStateApplied then ''applied_history''
           else if sxMode fixture = migrationStateLatest then ''latest'' else ''explicit_nodes'')),
        (''position'', String_value (if sxMode fixture = migrationStateBefore then ''before'' else ''after'')),
        (''targets'', List_value (map planningKeyValue (sxTargets fixture)))]"

definition migrationStateMetrics :: "migrationStateFixture \<Rightarrow> pvalue \<Rightarrow> pvalue \<Rightarrow> pvalue" where
  "migrationStateMetrics fixture before after =
     (let (nodes, dependencies) = migrationRestartGraphFacts (sxDefinitions fixture) in
      Object
        [(''capture_boundary'', String_value (migrationStateCaptureBoundary (sxMode fixture))),
         (''ddl_statement_count'', Integer_value ''0''), (''graph'', planningGraphValue nodes dependencies),
         (''non_select_statement_count'', Integer_value ''0''),
         (''replay_source'', String_value ''loaded_migration_definitions''),
         (''request'', migrationStateRequestValue fixture), (''state_unchanged'', Boolean_value (before = after)),
         (''write_statement_count'', Integer_value ''0'')])"

definition migrationStateAppliedResult :: "pvalue \<Rightarrow> migration_key list \<Rightarrow> migration list \<Rightarrow> pvalue" where
  "migrationStateAppliedResult state applied definitions =
     (let known = (\<lambda>key. key \<in> set (map migration_Key definitions)) in
      Object
        [(''applied_migrations'', List_value (planningKeyValuesSorted applied)),
         (''known_applied_migrations'', List_value (planningKeyValuesSorted (filter known applied))),
         (''state'', state),
         (''unknown_applied_migrations'', List_value (planningKeyValuesSorted (filter (\<lambda>key. \<not> known key) applied)))])"

definition migrationStateAssertDivergent :: "project_state \<Rightarrow> migrationStateFixture \<Rightarrow> go_error option" where
  "migrationStateAssertDivergent state fixture =
     (let liveTables = sxDivergentTable fixture # map mdTable (sxAdditionalDivergence fixture);
          models = concat (map (\<lambda>app. case State_Schema state app of None \<Rightarrow> [] | Some schema \<Rightarrow> sModels schema) (Apps state)) in
      case find (\<lambda>model. mDBTable model \<in> set liveTables) models of
        None \<Rightarrow> None
      | Some model \<Rightarrow> Some (ErrFmt ''live divergent table %q unexpectedly matches reconstructed state'' [FStr (mDBTable model)]))"

section \<open>The request\<close>

text \<open>
  The observed reader counts its calls and keeps the last records; its world is the world of the
  reader it delegates to, with this state.
\<close>

record migrationStateObservedReader =
  orCalls :: nat
  orRecords :: "(string \<times> string) list"

type_synonym 'w applied_reader = "call_context \<Rightarrow> ('w, (string \<times> string) list) io_step"

definition observed_read :: "'w applied_reader \<Rightarrow> ('w \<times> migrationStateObservedReader) applied_reader" where
  "observed_read delegate ctx w =
     (case delegate ctx (fst w) of
        (r, w1) \<Rightarrow>
          (r, (w1, \<lparr>orCalls = Suc (orCalls (snd w)), orRecords = (case r of Inl _ \<Rightarrow> [] | Inr records \<Rightarrow> records)\<rparr>)))"

text \<open>A context that is read within the observed world.\<close>

definition observed_context :: "('w \<Rightarrow> go_error option \<times> 'w) \<Rightarrow> ('w \<times> 's) go_context" where
  "observed_context ctxErr = Some (\<lambda>w. case ctxErr (fst w) of (err, w1) \<Rightarrow> (err, (w1, snd w)))"

definition migrationStateRequest :: "('w \<Rightarrow> go_error option \<times> 'w) \<Rightarrow> migrationStateFixture \<Rightarrow> 'w applied_reader option
    \<Rightarrow> ('w, state_request \<times> migration_key list) io_step" where
  "migrationStateRequest ctxErr fixture appliedReader w =
     (if sxMode fixture \<noteq> migrationStateApplied \<and> \<not> Option.is_none appliedReader
      then (Inl (ErrNew ''non-applied migration state request received an applied reader''), w)
      else
      (case sxMode fixture of
         migrationStateExplicitEmpty \<Rightarrow> (Inr (EmptyStateRequest, []), w)
       | migrationStateBefore \<Rightarrow>
           (case sxTargets fixture of
              [] \<Rightarrow> (Inl (ErrNew ''migration state before fixture has no target''), w)
            | key # keys \<Rightarrow> (Inr (BeforeStateRequest key keys, []), w))
       | migrationStateAfter \<Rightarrow>
           (case sxTargets fixture of
              [] \<Rightarrow> (Inl (ErrNew ''migration state after fixture has no target''), w)
            | key # keys \<Rightarrow> (Inr (AfterStateRequest key keys, []), w))
       | migrationStateLatest \<Rightarrow> (Inr (LatestStateRequest, []), w)
       | migrationStateApplied \<Rightarrow>
           (case appliedReader of
              None \<Rightarrow> (Inl (ErrNew ''applied migration state request has no reader''), w)
            | Some delegate \<Rightarrow>
              (case LoadAppliedState (observed_context ctxErr) (Some (observed_read delegate))
                      (w, \<lparr>orCalls = 0, orRecords = []\<rparr>) of
                 (Inl err, (w1, _)) \<Rightarrow> (Inl (ErrWrap ''load migration state applied history: %w'' [] err), w1)
               | (Inr appliedState, (w1, reader)) \<Rightarrow>
                   if orCalls reader \<noteq> 1
                   then (Inl (ErrFmt ''migration state applied reader calls = %d, want 1'' [FInt (int (orCalls reader))]), w1)
                   else (Inr (AppliedStateRequest appliedState, map (\<lambda>(app, name). MigrationKey app name) (orRecords reader)), w1)))))"

definition captureMigrationStateReconstruction :: "unicode_tables \<Rightarrow> ('w \<Rightarrow> go_error option \<times> 'w) \<Rightarrow> migrationStateFixture
    \<Rightarrow> 'w applied_reader option \<Rightarrow> ('w, project_state \<times> migration_key list) io_step" where
  "captureMigrationStateReconstruction uc ctxErr fixture appliedReader w =
     (case NewStateReconstructor (sxDefinitions fixture) of
        Inl err \<Rightarrow> (Inl (ErrWrap ''build migration state reconstructor: %w'' [] err), w)
      | Inr reconstructor \<Rightarrow>
        (case migrationStateRequest ctxErr fixture appliedReader w of
           (Inl err, w1) \<Rightarrow> (Inl err, w1)
         | (Inr (request, appliedKeys), w1) \<Rightarrow>
           (case Reconstruct uc reconstructor request of
              Inl err \<Rightarrow> (Inl (ErrWrap ''reconstruct migration state: %w'' [] err), w1)
            | Inr state \<Rightarrow> (Inr (state, appliedKeys), w1))))"

section \<open>The run beside a live database\<close>

text \<open>
  What the scenario asks of the operating system and of SQLite. \<open>sdSetup\<close> fills the database at a
  path (\<open>setupMigrationStateReconstructionDatabase\<close>); the three reads are
  \<open>sqliteTableExistsContext\<close> of the record table, \<open>readMigrationRecords\<close> and
  \<open>migrationStateManagedSchema\<close>; \<open>sdDataSource\<close> is the read-only data source of a path.
\<close>

record 'w state_database =
  sdMkdirTemp :: "('w, string) io_step"
  sdRemoveAll :: "string \<Rightarrow> 'w \<Rightarrow> go_error option \<times> 'w"
  sdDatabasePath :: "string \<Rightarrow> string"
  sdDataSource :: "string \<Rightarrow> string"
  sdSetup :: "migrationStateFixture \<Rightarrow> string \<Rightarrow> 'w \<Rightarrow> go_error option \<times> 'w"
  sdOpenObserver :: "string \<Rightarrow> 'w \<Rightarrow> go_error option \<times> 'w"
  sdPingObserver :: "'w \<Rightarrow> go_error option \<times> 'w"
  sdCloseObserver :: "'w \<Rightarrow> go_error option \<times> 'w"
  sdOpenReader :: "string \<Rightarrow> 'w \<Rightarrow> go_error option \<times> 'w"
  sdReadApplied :: "'w applied_reader"
  sdCloseReader :: "'w \<Rightarrow> go_error option \<times> 'w"
  sdRecorderPresent :: "('w, bool) io_step"
  sdRecords :: "('w, pvalue) io_step"
  sdManagedSchema :: "('w, pvalue) io_step"

definition migrationStateDatabaseSnapshot :: "'w state_database \<Rightarrow> ('w, pvalue) io_step" where
  "migrationStateDatabaseSnapshot db =
     io_bind (sdRecorderPresent db) (\<lambda>recorderPresent.
     io_bind (sdRecords db) (\<lambda>applied.
     io_bind (sdManagedSchema db) (\<lambda>managedSchema.
     io_result (Inr (Object [(''applied_migrations'', applied), (''managed_schema'', managedSchema),
                             (''recorder_present'', Boolean_value recorderPresent)])))))"

text \<open>The observation, once everything has been read.\<close>

definition migrationStateObservation :: "string \<Rightarrow> migrationStateFixture \<Rightarrow> pvalue \<Rightarrow> migration_key list \<Rightarrow> pvalue \<Rightarrow> pvalue
    \<Rightarrow> observation" where
  "migrationStateObservation contractID fixture stateValue appliedKeys before after =
     \<lparr>obID = contractID, obStatus = StatusObserved, obPhase = sxPhase fixture,
      obResult = Some (if sxMode fixture = migrationStateApplied
                       then migrationStateAppliedResult stateValue appliedKeys (sxDefinitions fixture)
                       else Object [(''state'', stateValue)]),
      obError = None, obDBState = Some (Object [(''after'', after), (''before'', before)]),
      obMetrics = Some (migrationStateMetrics fixture before after)\<rparr>"

text \<open>The run with its connections open: snapshot, reconstruct, snapshot again.\<close>

definition migrationStateMeasured :: "unicode_tables \<Rightarrow> ('w \<Rightarrow> go_error option \<times> 'w) \<Rightarrow> 'w state_database \<Rightarrow> string
    \<Rightarrow> migrationStateFixture \<Rightarrow> 'w applied_reader option \<Rightarrow> ('w, observation) io_step" where
  "migrationStateMeasured uc ctxErr db contractID fixture appliedReader =
     io_bind (io_wrap (ErrWrap ''snapshot migration state database before reconstruction: %w'' [])
       (migrationStateDatabaseSnapshot db)) (\<lambda>before.
     io_bind (captureMigrationStateReconstruction uc ctxErr fixture appliedReader) (\<lambda>(state, appliedKeys).
     io_bind (io_result (wrap_result (ErrWrap ''normalize reconstructed migration state: %w'' [])
       (migrationStateProjectValue uc state))) (\<lambda>stateValue.
     io_bind (io_wrap (ErrWrap ''snapshot migration state database after reconstruction: %w'' [])
       (migrationStateDatabaseSnapshot db)) (\<lambda>after.
     if before \<noteq> after
     then io_result (Inl (ErrNew ''migration state reconstruction mutated database state''))
     else
       (case migrationStateAssertDivergent state fixture of
          Some err \<Rightarrow> io_result (Inl err)
        | None \<Rightarrow> io_result (Inr (migrationStateObservation contractID fixture stateValue appliedKeys before after)))))))"

definition runMigrationStateReconstructionDatabase :: "unicode_tables \<Rightarrow> ('w \<Rightarrow> go_error option \<times> 'w)
    \<Rightarrow> 'w state_database \<Rightarrow> string \<Rightarrow> string \<Rightarrow> migrationStateFixture \<Rightarrow> ('w, observation) io_step" where
  "runMigrationStateReconstructionDatabase uc ctxErr db contractID path fixture =
     io_bind (io_check id (sdSetup db fixture path)) (\<lambda>_.
     io_bind (io_check (ErrWrap ''open migration state observer: %w'' []) (sdOpenObserver db (sdDataSource db path))) (\<lambda>_.
     io_defer (sdCloseObserver db)
      (io_bind (io_check (ErrWrap ''ping migration state observer: %w'' []) (sdPingObserver db)) (\<lambda>_.
       if sxMode fixture = migrationStateApplied
       then
         io_bind (io_check (ErrWrap ''open fresh migration state reader: %w'' []) (sdOpenReader db (sdDataSource db path))) (\<lambda>_.
         io_defer (sdCloseReader db) (migrationStateMeasured uc ctxErr db contractID fixture (Some (sdReadApplied db))))
       else migrationStateMeasured uc ctxErr db contractID fixture None))))"

definition runMigrationStateReconstructionFixture :: "unicode_tables \<Rightarrow> ('w \<Rightarrow> go_error option \<times> 'w)
    \<Rightarrow> 'w state_database \<Rightarrow> string \<Rightarrow> migrationStateFixture \<Rightarrow> ('w, observation) io_step" where
  "runMigrationStateReconstructionFixture uc ctxErr db contractID fixture =
     io_bind (io_check id ctxErr) (\<lambda>_.
     io_bind (io_wrap (ErrWrap ''create migration state directory: %w'' []) (sdMkdirTemp db)) (\<lambda>directory.
     io_defer (sdRemoveAll db directory)
       (runMigrationStateReconstructionDatabase uc ctxErr db contractID (sdDatabasePath db directory) fixture)))"

definition migrationStateReconstructionScenario :: "unicode_tables \<Rightarrow> ('w \<Rightarrow> go_error option \<times> 'w)
    \<Rightarrow> 'w state_database \<Rightarrow> contract \<Rightarrow> ('w, observation) io_step" where
  "migrationStateReconstructionScenario uc ctxErr db c =
     (case map_of migrationStateReconstructionFixtures (ctScenario c) of
        None \<Rightarrow> io_result (Inl (ErrFmt ''unsupported scenario %q'' [FStr (ctScenario c)]))
      | Some fixture \<Rightarrow>
          if sxPhase fixture \<noteq> ctPhase c
          then io_result (Inl (ErrFmt ''scenario %q phase = %q, manifest requires %q''
                 [FStr (ctScenario c), FStr (phase_string (sxPhase fixture)), FStr (phase_string (ctPhase c))]))
          else runMigrationStateReconstructionFixture uc ctxErr db (ctID c) fixture)"

section \<open>What a run observes\<close>

text \<open>
  The state a fixture asks for: the request of its mode over its targets, or over the recorded
  migrations, put to the loaded definitions alone.
\<close>

definition fixture_request :: "migrationStateFixture \<Rightarrow> migration_key list \<Rightarrow> state_request \<Rightarrow> bool" where
  "fixture_request fixture recorded request \<longleftrightarrow>
     (case sxMode fixture of
        migrationStateExplicitEmpty \<Rightarrow> request = EmptyStateRequest
      | migrationStateBefore \<Rightarrow> (\<exists>key keys. sxTargets fixture = key # keys \<and> request = BeforeStateRequest key keys)
      | migrationStateAfter \<Rightarrow> (\<exists>key keys. sxTargets fixture = key # keys \<and> request = AfterStateRequest key keys)
      | migrationStateLatest \<Rightarrow> request = LatestStateRequest
      | migrationStateApplied \<Rightarrow> (\<exists>applied. NewAppliedState recorded = Inr applied \<and> request = AppliedStateRequest applied))"

definition fixture_state :: "unicode_tables \<Rightarrow> migrationStateFixture \<Rightarrow> migration_key list \<Rightarrow> project_state \<Rightarrow> bool" where
  "fixture_state uc fixture recorded state \<longleftrightarrow>
     (\<exists>reconstructor request. NewStateReconstructor (sxDefinitions fixture) = Inr reconstructor
        \<and> fixture_request fixture recorded request \<and> Reconstruct uc reconstructor request = Inr state)"

text \<open>No model of the state has a table of the live database.\<close>

definition free_of_live_tables :: "migrationStateFixture \<Rightarrow> project_state \<Rightarrow> bool" where
  "free_of_live_tables fixture state \<longleftrightarrow>
     (\<forall>app \<in> set (Apps state). \<forall>schema. State_Schema state app = Some schema \<longrightarrow>
        (\<forall>model \<in> set (sModels schema). mDBTable model \<noteq> sxDivergentTable fixture
           \<and> (\<forall>d \<in> set (sxAdditionalDivergence fixture). mDBTable model \<noteq> mdTable d)))"

definition observes :: "unicode_tables \<Rightarrow> string \<Rightarrow> migrationStateFixture \<Rightarrow> migration_key list \<Rightarrow> observation \<Rightarrow> bool" where
  "observes uc ident fixture recorded ob \<longleftrightarrow>
     (\<exists>state v s. fixture_state uc fixture recorded state \<and> free_of_live_tables fixture state
        \<and> migrationStateProjectValue uc state = Inr v
        \<and> ob = migrationStateObservation ident fixture v (if sxMode fixture = migrationStateApplied then recorded else []) s s)"

lemma migrationStateAssertDivergent_None:
  "migrationStateAssertDivergent state fixture = None \<Longrightarrow> free_of_live_tables fixture state"
  by (auto simp: migrationStateAssertDivergent_def free_of_live_tables_def Let_def find_None_iff image_iff split: option.splits)
    (metis option.simps(5))+

lemma io_defer_Inr: "fst (io_defer close m w) = Inr x \<Longrightarrow> fst (m w) = Inr x"
  by (auto simp: io_defer_def errors_join_def map_filter_simps split: prod.splits option.splits sum.splits if_splits)

text \<open>A reader that answers the same records whenever it is asked.\<close>

definition reads_history :: "'w applied_reader \<Rightarrow> (string \<times> string) list \<Rightarrow> bool" where
  "reads_history reader records \<longleftrightarrow> (\<forall>w. fst (reader CallerContext w) = Inr records)"

definition record_keys :: "(string \<times> string) list \<Rightarrow> migration_key list" where
  "record_keys records = map (\<lambda>(app, name). MigrationKey app name) records"

lemma observed_load:
  assumes "reads_history delegate records"
    and "LoadAppliedState (observed_context ctxErr) (Some (observed_read delegate)) (w, r0) = (Inr applied, (w1, reader))"
  shows "NewAppliedState (record_keys records) = Inr applied \<and> orRecords reader = records"
proof -
  from assms(2) obtain w2 where ctx: "ctxErr w = (None, w2)"
    by (auto simp: LoadAppliedState_def observed_context_def split: prod.splits option.splits)
  obtain w3 where "delegate CallerContext w2 = (Inr records, w3)"
    using assms(1) by (metis prod.collapse reads_history_def)
  with assms(2) ctx show ?thesis
    by (auto simp: LoadAppliedState_def observed_context_def observed_read_def record_keys_def)
qed

lemma migrationStateRequest_Inr:
  assumes "fst (migrationStateRequest ctxErr fixture reader w) = Inr (request, keys)"
    and "\<And>delegate. reader = Some delegate \<Longrightarrow> reads_history delegate records"
  shows "fixture_request fixture (record_keys records) request
    \<and> keys = (if sxMode fixture = migrationStateApplied then record_keys records else [])"
proof (cases "sxMode fixture")
  case migrationStateApplied
  with assms(1) obtain delegate applied w1 r where "reader = Some delegate"
    and load: "LoadAppliedState (observed_context ctxErr) (Some (observed_read delegate)) (w, \<lparr>orCalls = 0, orRecords = []\<rparr>)
      = (Inr applied, (w1, r))"
    and "request = AppliedStateRequest applied" "keys = record_keys (orRecords r)"
    by (auto simp: migrationStateRequest_def record_keys_def split: option.splits prod.splits sum.splits if_splits)
  then show ?thesis using observed_load[OF assms(2) load] migrationStateApplied by (auto simp: fixture_request_def)
qed (use assms(1) in \<open>auto simp: migrationStateRequest_def fixture_request_def split: if_splits list.splits\<close>)

lemma captureMigrationStateReconstruction_Inr:
  assumes "fst (captureMigrationStateReconstruction uc ctxErr fixture reader w) = Inr (state, keys)"
    and "\<And>delegate. reader = Some delegate \<Longrightarrow> reads_history delegate records"
  shows "fixture_state uc fixture (record_keys records) state
    \<and> keys = (if sxMode fixture = migrationStateApplied then record_keys records else [])"
proof -
  from assms(1) obtain reconstructor request where built: "NewStateReconstructor (sxDefinitions fixture) = Inr reconstructor"
    and request: "fst (migrationStateRequest ctxErr fixture reader w) = Inr (request, keys)"
    and state: "Reconstruct uc reconstructor request = Inr state"
    by (cases "migrationStateRequest ctxErr fixture reader w")
      (auto simp: captureMigrationStateReconstruction_def split: sum.splits prod.splits)
  show ?thesis
    using migrationStateRequest_Inr[OF request assms(2)] built state unfolding fixture_state_def by blast
qed

lemma migrationStateMeasured_Inr:
  assumes "fst (migrationStateMeasured uc ctxErr db ident fixture reader w) = Inr ob"
    and "\<And>delegate. reader = Some delegate \<Longrightarrow> reads_history delegate records"
  shows "observes uc ident fixture (record_keys records) ob"
proof -
  from assms(1) obtain before w1 state keys v after where
    capture: "fst (captureMigrationStateReconstruction uc ctxErr fixture reader w1) = Inr (state, keys)"
    and v: "migrationStateProjectValue uc state = Inr v" and same: "before = after"
    and apart: "migrationStateAssertDivergent state fixture = None"
    and ob: "ob = migrationStateObservation ident fixture v keys before after"
    by (auto simp: migrationStateMeasured_def io_bind_Inr split: if_splits option.splits prod.splits)
  show ?thesis
    using captureMigrationStateReconstruction_Inr[OF capture assms(2)] v migrationStateAssertDivergent_None[OF apart]
    unfolding observes_def ob same by auto
qed

lemma scenario_observes:
  assumes "map_of migrationStateReconstructionFixtures (ctScenario c) = Some fixture"
    and "sxMode fixture = migrationStateApplied \<Longrightarrow> reads_history (sdReadApplied db) records"
    and "fst (migrationStateReconstructionScenario uc ctxErr db c w) = Inr ob"
  shows "observes uc (ctID c) fixture (record_keys records) ob \<and> sxPhase fixture = ctPhase c"
proof -
  from assms(1,3) have phase: "sxPhase fixture = ctPhase c"
    and run: "fst (runMigrationStateReconstructionFixture uc ctxErr db (ctID c) fixture w) = Inr ob"
    by (auto simp: migrationStateReconstructionScenario_def split: if_splits)
  from run obtain path w1 where "fst (runMigrationStateReconstructionDatabase uc ctxErr db (ctID c) path fixture w1) = Inr ob"
    by (auto simp: runMigrationStateReconstructionFixture_def io_bind_Inr dest!: io_defer_Inr)
  then have "observes uc (ctID c) fixture (record_keys records) ob"
    by (auto simp: runMigrationStateReconstructionDatabase_def io_bind_Inr dest!: io_defer_Inr split: if_splits
        intro!: assms(2) elim!: migrationStateMeasured_Inr)
  with phase show ?thesis by simp
qed

text \<open>
  C39: the reconstructed state never depends on the live schema. Whatever two databases answer when
  their recorder table, records and schema are read, and whatever contexts and worlds they run in, two
  successful runs of one scenario observe the same result and metrics, provided that a scenario which
  reads the applied history reads the same records from both. The result shows the state the
  reconstructor builds for the scenario's request from the loaded definitions (and these records),
  none of its models has a table of the divergent live schema, the phase is the contract's, and the
  snapshots before and after are equal.
\<close>

theorem reconstruction_ignores_live_schema:
  assumes "map_of migrationStateReconstructionFixtures (ctScenario c) = Some fixture"
    and "sxMode fixture = migrationStateApplied \<Longrightarrow>
      reads_history (sdReadApplied db) records \<and> reads_history (sdReadApplied db') records"
    and "fst (migrationStateReconstructionScenario uc ctxErr db c w) = Inr ob"
    and "fst (migrationStateReconstructionScenario uc ctxErr' db' c w') = Inr ob'"
  shows "obResult ob = obResult ob' \<and> obMetrics ob = obMetrics ob' \<and> obPhase ob = ctPhase c
    \<and> (\<exists>s. obDBState ob = Some (Object [(''after'', s), (''before'', s)]))
    \<and> (\<exists>state v. fixture_state uc fixture (record_keys records) state \<and> free_of_live_tables fixture state
        \<and> migrationStateProjectValue uc state = Inr v
        \<and> obResult ob = Some (if sxMode fixture = migrationStateApplied
            then migrationStateAppliedResult v (record_keys records) (sxDefinitions fixture)
            else Object [(''state'', v)]))"
proof -
  have one: "observes uc (ctID c) fixture (record_keys records) ob" "sxPhase fixture = ctPhase c"
    and two: "observes uc (ctID c) fixture (record_keys records) ob'"
    using scenario_observes[OF assms(1) _ assms(3)] scenario_observes[OF assms(1) _ assms(4)] assms(2) by blast+
  have determined: "state = state'"
    if "fixture_state uc fixture (record_keys records) state" "fixture_state uc fixture (record_keys records) state'" for state state'
  proof -
    have "request = request'"
      if "fixture_request fixture (record_keys records) request" "fixture_request fixture (record_keys records) request'"
      for request request'
      using that by (auto simp: fixture_request_def split: migrationStateRequestMode.splits)
    then show ?thesis using that unfolding fixture_state_def by fastforce
  qed
  show ?thesis
    using one two determined unfolding observes_def
    by (fastforce simp: migrationStateObservation_def migrationStateMetrics_def Let_def split: prod.splits)
qed

text \<open>
  An applied prefix beside two databases with the same history: one shows a recorder table and a
  live table, the other shows neither.
\<close>

definition quiet_database :: "bool \<Rightarrow> pvalue \<Rightarrow> unit state_database" where
  "quiet_database recorder schema =
     \<lparr>sdMkdirTemp = io_result (Inr ''directory''), sdRemoveAll = \<lambda>_ w. (None, w), sdDatabasePath = id, sdDataSource = id,
      sdSetup = \<lambda>_ _ w. (None, w), sdOpenObserver = \<lambda>_ w. (None, w), sdPingObserver = \<lambda>w. (None, w),
      sdCloseObserver = \<lambda>w. (None, w), sdOpenReader = \<lambda>_ w. (None, w),
      sdReadApplied = \<lambda>_. io_result (Inr [(''alpha'', ''0002_root'')]), sdCloseReader = \<lambda>w. (None, w),
      sdRecorderPresent = io_result (Inr recorder), sdRecords = io_result (Inr (List_value [])),
      sdManagedSchema = io_result (Inr schema)\<rparr>"

definition applied_contract :: contract where
  "applied_contract =
     \<lparr>ctID = ''MIG-035'', ctTitle = ''Applied prefix'', ctScenario = ''django.migration.state_reconstruction.applied_prefix_startup'',
      ctPhase = PhaseEvaluation, ctStatus = ContractPassing, ctProvenance = [], ctComparison = [CompareResult]\<rparr>"

definition quiet_run :: "bool \<Rightarrow> pvalue \<Rightarrow> go_error + observation" where
  "quiet_run recorder schema =
     fst (migrationStateReconstructionScenario ascii_tables (\<lambda>w. (None, w)) (quiet_database recorder schema) applied_contract ())"

lemma quiet_runs: "case quiet_run True (List_value [String_value ''godj_state_live_decoy'']) of Inr _ \<Rightarrow> True | Inl _ \<Rightarrow> False"
  "case quiet_run False (List_value []) of Inr _ \<Rightarrow> True | Inl _ \<Rightarrow> False"
  by code_simp+

theorem reconstruction_ignores_live_schema_witness:
  "\<exists>ob ob'. quiet_run True (List_value [String_value ''godj_state_live_decoy'']) = Inr ob
     \<and> quiet_run False (List_value []) = Inr ob' \<and> obResult ob = obResult ob' \<and> obMetrics ob = obMetrics ob'"
proof -
  obtain ob ob' where runs: "quiet_run True (List_value [String_value ''godj_state_live_decoy'']) = Inr ob"
    "quiet_run False (List_value []) = Inr ob'"
    using quiet_runs by (auto split: sum.splits)
  have fixture: "map_of migrationStateReconstructionFixtures (ctScenario applied_contract) =
      Some ((newMigrationStateFixture migrationStateApplied)\<lparr>sxApplied := [migrationStateAlphaRoot, migrationStateAlphaMiddle]\<rparr>)"
    by (simp add: applied_contract_def migrationStateReconstructionFixtures_def)
  have "reads_history (sdReadApplied (quiet_database recorder schema)) [(''alpha'', ''0002_root'')]" for recorder schema
    by (simp add: reads_history_def quiet_database_def)
  with reconstruction_ignores_live_schema[OF fixture _ runs[unfolded quiet_run_def]] runs show ?thesis by blast
qed

end
