(* ===== verification/Protocol_Load.thy ===== *)
theory Protocol_Load
  imports Io_Steps Protocol_Deviation
begin

text \<open>
  Package \<open>conformance/internal/protocol\<close>, \<open>load.go\<close> and \<open>canonical.go\<close>, and \<open>writeAtomic\<close> of
  \<open>conformance/cmd/godjcheck\<close>: what the tools read is decoded strictly and validated, what they write
  is validated before it is encoded and put in place by a rename. Package \<open>encoding/json\<close> and the file
  system are parameters.
\<close>

section \<open>Reading\<close>

text \<open>
  A decoder reads the next JSON value of a reader into a target, refusing unknown fields, and leaves
  the reader behind it. \<open>json_trailing\<close> is what decoding into an untyped target finds next.
\<close>

type_synonym ('r, 'a) json_decoder = "'r \<Rightarrow> go_error + 'a \<times> 'r"

datatype json_trailing = TrailingEOF | TrailingValue | TrailingError go_error

record ('w, 'r) json_files =
  jfOpen :: "string \<Rightarrow> ('w, 'r) io_step"
  jfClose :: "string \<Rightarrow> 'w \<Rightarrow> 'w"
  jfTrailing :: "'r \<Rightarrow> json_trailing"
  jfProfile :: "('r, profile) json_decoder"
  jfManifest :: "('r, manifest) json_decoder"
  jfSuite :: "('r, observation_suite) json_decoder"
  jfExpectation :: "('r, deviation_expectation) json_decoder"

definition decodeStrict :: "('r \<Rightarrow> json_trailing) \<Rightarrow> ('r, 'a) json_decoder \<Rightarrow> 'r \<Rightarrow> go_error + 'a" where
  "decodeStrict trailing decode reader =
     (case decode reader of
        Inl err \<Rightarrow> Inl err
      | Inr (target, rest) \<Rightarrow>
        (case trailing rest of
           TrailingEOF \<Rightarrow> Inr target
         | TrailingValue \<Rightarrow> Inl (ErrNew ''unexpected trailing JSON value'')
         | TrailingError err \<Rightarrow> Inl (ErrWrap ''invalid trailing JSON: %w'' [] err)))"

text \<open>The deferred close of the file, whose error is dropped, comes after the decoding.\<close>

definition loadJSON :: "('w, 'r) json_files \<Rightarrow> ('r, 'a) json_decoder \<Rightarrow> string \<Rightarrow> ('w, 'a) io_step" where
  "loadJSON files decode path =
     io_bind (jfOpen files path) (\<lambda>file w.
       (wrap_result (ErrWrap ''%s: %w'' [FStr path]) (decodeStrict (jfTrailing files) decode file), jfClose files path w))"

text \<open>A value is returned when its \<open>Validate\<close> finds no error.\<close>

definition validated :: "(go_error \<Rightarrow> go_error) \<Rightarrow> ('a \<Rightarrow> go_error option) \<Rightarrow> 'a \<Rightarrow> go_error + 'a" where
  "validated wrap check v = (case check v of Some err \<Rightarrow> Inl (wrap err) | None \<Rightarrow> Inr v)"

definition LoadProfile :: "('w, 'r) json_files \<Rightarrow> string \<Rightarrow> ('w, profile) io_step" where
  "LoadProfile files path =
     io_bind (io_wrap (ErrWrap ''load profile: %w'' []) (loadJSON files (jfProfile files) path)) (\<lambda>profile.
     io_result (validated (ErrWrap ''validate profile: %w'' []) Profile_Validate profile))"

definition LoadManifest :: "('w, 'r) json_files \<Rightarrow> string \<Rightarrow> ('w, manifest) io_step" where
  "LoadManifest files path =
     io_bind (io_wrap (ErrWrap ''load manifest: %w'' []) (loadJSON files (jfManifest files) path)) (\<lambda>manifest.
     io_result (validated (ErrWrap ''validate manifest: %w'' []) Manifest_Validate manifest))"

definition LoadObservationSuite :: "(string \<Rightarrow> go_error option) \<Rightarrow> ('w, 'r) json_files \<Rightarrow> string
    \<Rightarrow> ('w, observation_suite) io_step" where
  "LoadObservationSuite pt files path =
     io_bind (io_wrap (ErrWrap ''load observation suite: %w'' []) (loadJSON files (jfSuite files) path)) (\<lambda>suite.
     io_result (validated (ErrWrap ''validate observation suite: %w'' []) (Suite_Validate pt) suite))"

definition LoadDeviationExpectation :: "(string \<Rightarrow> go_error option) \<Rightarrow> ('w, 'r) json_files \<Rightarrow> string
    \<Rightarrow> ('w, deviation_expectation) io_step" where
  "LoadDeviationExpectation pt files path =
     io_bind (io_wrap (ErrWrap ''load deviation expectation: %w'' []) (loadJSON files (jfExpectation files) path)) (\<lambda>expectation.
     io_result (validated (ErrWrap ''validate deviation expectation: %w'' []) (Expectation_Validate pt) expectation))"

definition decode_validated :: "('r \<Rightarrow> json_trailing) \<Rightarrow> ('r, 'a) json_decoder \<Rightarrow> ('a \<Rightarrow> go_error option) \<Rightarrow> 'r
    \<Rightarrow> go_error + 'a" where
  "decode_validated trailing decode check reader =
     (case decodeStrict trailing decode reader of Inl err \<Rightarrow> Inl err | Inr v \<Rightarrow> validated id check v)"

definition DecodeProfile :: "('w, 'r) json_files \<Rightarrow> 'r \<Rightarrow> go_error + profile" where
  "DecodeProfile files = decode_validated (jfTrailing files) (jfProfile files) Profile_Validate"

definition DecodeManifest :: "('w, 'r) json_files \<Rightarrow> 'r \<Rightarrow> go_error + manifest" where
  "DecodeManifest files = decode_validated (jfTrailing files) (jfManifest files) Manifest_Validate"

definition DecodeObservationSuite :: "(string \<Rightarrow> go_error option) \<Rightarrow> ('w, 'r) json_files \<Rightarrow> 'r \<Rightarrow> go_error + observation_suite" where
  "DecodeObservationSuite pt files = decode_validated (jfTrailing files) (jfSuite files) (Suite_Validate pt)"

definition DecodeDeviationExpectation :: "(string \<Rightarrow> go_error option) \<Rightarrow> ('w, 'r) json_files \<Rightarrow> 'r
    \<Rightarrow> go_error + deviation_expectation" where
  "DecodeDeviationExpectation pt files = decode_validated (jfTrailing files) (jfExpectation files) (Expectation_Validate pt)"

section \<open>Writing\<close>

text \<open>The types \<open>MarshalCanonical\<close> accepts, as values and as pointers, which may be nil.\<close>

datatype canonical_type =
    CanonicalProfile profile | CanonicalManifest manifest | CanonicalSuite observation_suite
  | CanonicalExpectation deviation_expectation | CanonicalValue pvalue

datatype canonical_input =
    Canonical canonical_type
  | NilPointer string
  | OtherType string

fun canonical_validate :: "(string \<Rightarrow> go_error option) \<Rightarrow> canonical_type \<Rightarrow> go_error option" where
  "canonical_validate pt (CanonicalProfile p) = Profile_Validate p"
| "canonical_validate pt (CanonicalManifest m) = Manifest_Validate m"
| "canonical_validate pt (CanonicalSuite s) = Suite_Validate pt s"
| "canonical_validate pt (CanonicalExpectation e) = Expectation_Validate pt e"
| "canonical_validate pt (CanonicalValue v) = Validate pt v"

text \<open>A pointer that is not nil is validated as the value it points to; a nil one names its type.\<close>

fun validateCanonicalInput :: "(string \<Rightarrow> go_error option) \<Rightarrow> canonical_input \<Rightarrow> go_error option" where
  "validateCanonicalInput pt (Canonical v) = canonical_validate pt v"
| "validateCanonicalInput pt (NilPointer name) = Some (ErrNew (''cannot marshal nil '' @ name))"
| "validateCanonicalInput pt (OtherType name) = Some (ErrFmt ''unsupported canonical JSON type %T'' [FStr name])"

definition newline_char :: char where
  "newline_char = CHR 0x0A"

definition MarshalCanonical :: "(string \<Rightarrow> go_error option) \<Rightarrow> (canonical_input \<Rightarrow> go_error + string) \<Rightarrow> canonical_input
    \<Rightarrow> go_error + string" where
  "MarshalCanonical pt marshal input =
     (case validateCanonicalInput pt input of
        Some err \<Rightarrow> Inl err
      | None \<Rightarrow> map_sum id (\<lambda>encoded. encoded @ [newline_char]) (marshal input))"

text \<open>The calls \<open>writeAtomic\<close> makes on the directory, the temporary file and the target.\<close>

record 'w temp_files =
  tfDir :: "string \<Rightarrow> string"
  tfBase :: "string \<Rightarrow> string"
  tfCreateTemp :: "string \<Rightarrow> string \<Rightarrow> ('w, string) io_step"
  tfChmod :: "string \<Rightarrow> 'w \<Rightarrow> go_error option \<times> 'w"
  tfWrite :: "string \<Rightarrow> string \<Rightarrow> 'w \<Rightarrow> go_error option \<times> 'w"
  tfSync :: "string \<Rightarrow> 'w \<Rightarrow> go_error option \<times> 'w"
  tfClose :: "string \<Rightarrow> 'w \<Rightarrow> go_error option \<times> 'w"
  tfRename :: "string \<Rightarrow> string \<Rightarrow> 'w \<Rightarrow> go_error option \<times> 'w"
  tfRemove :: "string \<Rightarrow> 'w \<Rightarrow> go_error option \<times> 'w"

text \<open>A call made when a step fails, its own error dropped.\<close>

definition io_cleanup :: "('w \<Rightarrow> go_error option \<times> 'w) \<Rightarrow> ('w, 'a) io_step \<Rightarrow> ('w, 'a) io_step" where
  "io_cleanup clean m w = (case m w of (Inl err, w') \<Rightarrow> (Inl err, snd (clean w')) | (Inr x, w') \<Rightarrow> (Inr x, w'))"

definition fill_temporary :: "'w temp_files \<Rightarrow> ('w \<Rightarrow> go_error option \<times> 'w) \<Rightarrow> string \<Rightarrow> string \<Rightarrow> string \<Rightarrow> ('w, unit) io_step" where
  "fill_temporary tf ctxErr path contents temporaryPath =
     io_bind (io_cleanup (tfClose tf temporaryPath) (io_check id (tfChmod tf temporaryPath))) (\<lambda>_.
     io_bind (io_cleanup (tfClose tf temporaryPath) (io_check id (tfWrite tf temporaryPath contents))) (\<lambda>_.
     io_bind (io_cleanup (tfClose tf temporaryPath) (io_check id (tfSync tf temporaryPath))) (\<lambda>_.
     io_bind (io_check id (tfClose tf temporaryPath)) (\<lambda>_.
     io_bind (io_check id ctxErr) (\<lambda>_.
     io_check id (tfRename tf temporaryPath path))))))"

definition writeAtomic :: "'w temp_files \<Rightarrow> 'w go_context \<Rightarrow> string \<Rightarrow> string \<Rightarrow> ('w, unit) io_step" where
  "writeAtomic tf ctx path contents =
     (case ctx of
        None \<Rightarrow> io_result (Inl (ErrNew ''context is nil''))
      | Some ctxErr \<Rightarrow>
          io_bind (io_check id ctxErr) (\<lambda>_.
          io_bind (tfCreateTemp tf (tfDir tf path) (''.'' @ tfBase tf path @ ''.*.tmp'')) (\<lambda>temporaryPath.
          io_cleanup (tfRemove tf temporaryPath) (fill_temporary tf ctxErr path contents temporaryPath))))"

section \<open>What is read is valid\<close>

lemma validated_Inr [simp]: "validated wrap check v = Inr x \<longleftrightarrow> check v = None \<and> x = v"
  by (auto simp: validated_def split: option.split)

lemma decodeStrict_Inr: "decodeStrict trailing decode reader = Inr x \<longleftrightarrow>
    (\<exists>rest. decode reader = Inr (x, rest) \<and> trailing rest = TrailingEOF)"
  by (auto simp: decodeStrict_def split: sum.split json_trailing.split)

lemma Load_valid:
  "fst (LoadProfile files path w) = Inr p \<Longrightarrow> Profile_Validate p = None"
  "fst (LoadManifest files path w) = Inr m \<Longrightarrow> Manifest_Validate m = None"
  "fst (LoadObservationSuite pt files path w) = Inr s \<Longrightarrow> Suite_Validate pt s = None"
  "fst (LoadDeviationExpectation pt files path w) = Inr e \<Longrightarrow> Expectation_Validate pt e = None"
  by (auto simp: LoadProfile_def LoadManifest_def LoadObservationSuite_def LoadDeviationExpectation_def io_bind_Inr)

text \<open>A file that opens, holds one JSON value and nothing else.\<close>

lemma loadJSON_Inr:
  "fst (loadJSON files decode path w) = Inr x \<longleftrightarrow>
     (\<exists>file. fst (jfOpen files path w) = Inr file \<and> decodeStrict (jfTrailing files) decode file = Inr x)"
  by (auto simp: loadJSON_def io_bind_Inr)

lemma MarshalCanonical_Inr:
  "MarshalCanonical pt marshal input = Inr txt \<longleftrightarrow>
     validateCanonicalInput pt input = None \<and> (\<exists>encoded. marshal input = Inr encoded \<and> txt = encoded @ [newline_char])"
  by (cases "marshal input") (auto simp: MarshalCanonical_def split: option.split)

section \<open>A file is replaced or left alone\<close>

text \<open>
  What the file system promises, as a view \<open>files\<close> of the contents by path: a temporary file is a new
  one, a write touches only the file it writes to, and a rename moves one file over another or
  does nothing; looking at the context changes no file.
\<close>

definition only_touches :: "('w \<Rightarrow> string \<rightharpoonup> string) \<Rightarrow> string \<Rightarrow> ('w \<Rightarrow> 'r \<times> 'w) \<Rightarrow> bool" where
  "only_touches files t call \<longleftrightarrow> (\<forall>w. \<exists>x. files (snd (call w)) = (files w)(t := x))"

definition file_system :: "'w temp_files \<Rightarrow> ('w \<Rightarrow> string \<rightharpoonup> string) \<Rightarrow> ('w \<Rightarrow> go_error option \<times> 'w) \<Rightarrow> string \<Rightarrow> bool" where
  "file_system tf files ctxErr path \<longleftrightarrow>
     (\<forall>w. files (snd (ctxErr w)) = files w)
     \<and> (\<forall>dir pattern w t w'. tfCreateTemp tf dir pattern w = (Inr t, w') \<longrightarrow>
          files w t = None \<and> t \<noteq> path \<and> files w' = (files w)(t \<mapsto> ''''))
     \<and> (\<forall>dir pattern w e w'. tfCreateTemp tf dir pattern w = (Inl e, w') \<longrightarrow> files w' = files w)
     \<and> (\<forall>t w. files (snd (tfChmod tf t w)) = files w \<and> files (snd (tfSync tf t w)) = files w
          \<and> files (snd (tfClose tf t w)) = files w)
     \<and> (\<forall>t contents. only_touches files t (tfWrite tf t contents))
     \<and> (\<forall>t contents w w'. tfWrite tf t contents w = (None, w') \<longrightarrow> files w' t = Some contents)
     \<and> (\<forall>t w w'. tfRename tf t path w = (None, w') \<longrightarrow> files w' = (files w)(t := None, path := files w t))
     \<and> (\<forall>t w e w'. tfRename tf t path w = (Some e, w') \<longrightarrow> files w' = files w)
     \<and> (\<forall>t. only_touches files t (tfRemove tf t))"

lemma fill_temporary_outcome:
  assumes "file_system tf files ctxErr path" and "fill_temporary tf ctxErr path contents t w = (r, w')"
  shows "case r of Inr _ \<Rightarrow> files w' = (files w)(t := None, path \<mapsto> contents)
    | Inl _ \<Rightarrow> \<exists>x. files w' = (files w)(t := x)"
proof -
  have keep: "files (snd (ctxErr v)) = files v" "files (snd (tfChmod tf s v)) = files v"
    "files (snd (tfSync tf s v)) = files v" "files (snd (tfClose tf s v)) = files v" for s v
    using assms(1) by (simp_all add: file_system_def)
  obtain e1 w1 where chmod: "tfChmod tf t w = (e1, w1)" by force
  obtain e2 w2 where wrote: "tfWrite tf t contents w1 = (e2, w2)" by force
  obtain e3 w3 where sync: "tfSync tf t w2 = (e3, w3)" by force
  obtain e4 w4 where close: "tfClose tf t w3 = (e4, w4)" by force
  obtain e5 w5 where live: "ctxErr w4 = (e5, w5)" by force
  obtain e6 w6 where rename: "tfRename tf t path w5 = (e6, w6)" by force
  have same: "files w1 = files w" "files w3 = files w2" "files w4 = files w3" "files w5 = files w4"
    using keep(2)[of t w] keep(3)[of t w2] keep(4)[of t w3] keep(1)[of w4] chmod sync close live by simp_all
  obtain x where x: "files w2 = (files w)(t := x)"
    using assms(1) wrote same(1) unfolding file_system_def only_touches_def by (metis snd_conv)
  have written: "e2 = None \<Longrightarrow> x = Some contents"
    using assms(1) wrote x unfolding file_system_def by (metis fun_upd_same)
  have moved: "if e6 = None then files w6 = (files w5)(t := None, path := files w5 t) else files w6 = files w5"
    using assms(1) rename unfolding file_system_def by (metis option.exhaust)
  note steps = fill_temporary_def io_bind_def io_cleanup_def io_check_def chmod wrote sync close live rename
  show ?thesis
    using assms(2) x written moved same keep(4)
    by (auto simp: steps split: option.splits if_splits; metis fun_upd_triv)
qed

text \<open>
  C38: \<open>writeAtomic\<close> puts the whole contents in place or leaves every file but its own temporary one as
  it was. On success the target holds exactly the contents, the temporary file is gone and no other
  file has changed; on every error, a cancelled context included, the target and all other files
  are as before, and at most one file that was not there before is left behind.
\<close>

theorem writeAtomic_replaces_or_leaves:
  assumes "file_system tf files ctxErr path" and "writeAtomic tf (Some ctxErr) path contents w = (r, w')"
  shows "case r of Inr _ \<Rightarrow> \<exists>t. t \<noteq> path \<and> files w t = None \<and> files w' = (files w)(path \<mapsto> contents)
    | Inl _ \<Rightarrow> files w' = files w \<or> (\<exists>t x. t \<noteq> path \<and> files w t = None \<and> files w' = (files w)(t := x))"
proof -
  let ?pattern = "''.'' @ tfBase tf path @ ''.*.tmp''"
  obtain e1 w1 where live: "ctxErr w = (e1, w1)" by force
  obtain c w2 where create: "tfCreateTemp tf (tfDir tf path) ?pattern w1 = (c, w2)" by force
  have same: "files w1 = files w" using assms(1) live unfolding file_system_def by (metis snd_conv)
  show ?thesis
  proof (cases "e1 = None \<and> (\<exists>t. c = Inr t)")
    case False
    then have "\<exists>e. r = Inl e" and "files w' = files w"
      using assms live create same by (auto simp: writeAtomic_def io_bind_def io_check_def file_system_def split: sum.splits option.splits)
    then show ?thesis by auto
  next
    case True
    then obtain t where t: "c = Inr t" and e1: "e1 = None" by blast
    obtain r' w3 where fill: "fill_temporary tf ctxErr path contents t w2 = (r', w3)" by force
    have fresh: "files w t = None" "t \<noteq> path" "files w2 = (files w)(t \<mapsto> '''')"
      using assms(1) create t same unfolding file_system_def by metis+
    have removed: "\<exists>y. files (snd (tfRemove tf t w3)) = (files w3)(t := y)"
      using assms(1) by (simp add: file_system_def only_touches_def)
    have r: "r = r'" "w' = (case r' of Inl _ \<Rightarrow> snd (tfRemove tf t w3) | Inr _ \<Rightarrow> w3)"
      using assms(2) live create t e1 fill
      by (auto simp: writeAtomic_def io_bind_def io_check_def io_cleanup_def split: sum.splits)
    note outcome = fill_temporary_outcome[OF assms(1) fill]
    show ?thesis
    proof (cases r')
      case (Inr u)
      with outcome fresh have "files w' = (files w)(t := None, path \<mapsto> contents)" by (simp add: r(2))
      with fresh(1) have "files w' = (files w)(path \<mapsto> contents)" by (simp add: fun_upd_idem)
      with Inr fresh r(1) show ?thesis by auto
    next
      case (Inl e)
      with outcome fresh(3) obtain x where "files w3 = (files w)(t := x)" by auto
      with removed Inl r fresh show ?thesis by (auto intro!: exI[of _ t])
    qed
  qed
qed

text \<open>Files in memory, with one name for a temporary file.\<close>

definition memory_files :: "(string \<rightharpoonup> string) temp_files" where
  "memory_files =
     \<lparr>tfDir = (\<lambda>path. path), tfBase = (\<lambda>path. path),
      tfCreateTemp = (\<lambda>dir pattern w. if w ''.actual.tmp'' = None then (Inr ''.actual.tmp'', w(''.actual.tmp'' \<mapsto> ''''))
        else (Inl (ErrNew ''file exists''), w)),
      tfChmod = (\<lambda>t w. (None, w)), tfWrite = (\<lambda>t contents w. (None, w(t \<mapsto> contents))),
      tfSync = (\<lambda>t w. (None, w)), tfClose = (\<lambda>t w. (None, w)),
      tfRename = (\<lambda>t path w. (None, w(t := None, path := w t))), tfRemove = (\<lambda>t w. (None, w(t := None)))\<rparr>"

text \<open>A context that is cancelled while the old file is in place and the new one is written.\<close>

definition cancelled_when_written :: "(string \<rightharpoonup> string) \<Rightarrow> go_error option \<times> (string \<rightharpoonup> string)" where
  "cancelled_when_written w = (if w ''.actual.tmp'' = Some ''new'' then Some (ErrNew ''context canceled'') else None, w)"

lemma memory_file_system: "file_system memory_files (\<lambda>w. w) (\<lambda>w. (None, w)) ''actual''"
  "file_system memory_files (\<lambda>w. w) cancelled_when_written ''actual''"
  by (auto simp: file_system_def memory_files_def only_touches_def cancelled_when_written_def split: if_splits)

theorem writeAtomic_replaces_or_leaves_witness:
  "(\<exists>t. t \<noteq> ''actual'' \<and> [''actual'' \<mapsto> ''old''] t = None
      \<and> snd (writeAtomic memory_files (Some (\<lambda>w. (None, w))) ''actual'' ''new'' [''actual'' \<mapsto> ''old'']) = [''actual'' \<mapsto> ''new''])
   \<and> snd (writeAtomic memory_files (Some cancelled_when_written) ''actual'' ''new'' [''actual'' \<mapsto> ''old'']) ''actual'' = Some ''old''"
proof -
  let ?w = "[''actual'' \<mapsto> ''old'']"
  note steps = writeAtomic_def fill_temporary_def io_bind_def io_check_def io_cleanup_def memory_files_def
  have "fst (writeAtomic memory_files (Some (\<lambda>w. (None, w))) ''actual'' ''new'' ?w) = Inr ()"
    by (simp add: steps)
  then obtain w' where ok: "writeAtomic memory_files (Some (\<lambda>w. (None, w))) ''actual'' ''new'' ?w = (Inr (), w')"
    by (metis prod.collapse)
  have "\<exists>e. fst (writeAtomic memory_files (Some cancelled_when_written) ''actual'' ''new'' ?w) = Inl e"
    by (simp add: steps cancelled_when_written_def)
  then obtain e w2 where failed: "writeAtomic memory_files (Some cancelled_when_written) ''actual'' ''new'' ?w = (Inl e, w2)"
    by (metis prod.collapse)
  have "w2 ''actual'' = Some ''old''"
    using writeAtomic_replaces_or_leaves[OF memory_file_system(2) failed] by auto
  then show ?thesis
    using writeAtomic_replaces_or_leaves[OF memory_file_system(1) ok] ok failed by auto
qed

end
