(* ===== verification/Conformance_Runner.thy ===== *)
theory Conformance_Runner
  imports Conformance_Reconstruction Article Protocol_Load
begin

text \<open>
  Package \<open>conformance/runners/godj\<close> (\<open>runner.go\<close>, \<open>value.go\<close>) and the commands
  \<open>conformance/cmd/godjcheck\<close>, \<open>contractcheck\<close> and \<open>observationcmp\<close>: every scenario of a manifest is
  run in order, the observations are validated and compared with the locked ones. The scenarios
  that drive SQLite are parameters, as are the parsing of flags, the JSON text of files and the system
  calls behind reading and writing them.
\<close>

section \<open>Values of models\<close>

definition optional_string :: "string option \<Rightarrow> pvalue" where
  "optional_string s = (case s of None \<Rightarrow> Null_value | Some v \<Rightarrow> String_value v)"

definition articleValue :: "article \<Rightarrow> pvalue" where
  "articleValue a =
     Object
       [(''id'', PrimaryKey (Integer_value (sprint_int (arID a)))), (''published'', Boolean_value (arPublished a)),
        (''summary'', optional_string (arSummary a)), (''title'', String_value (arTitle a))]"

definition articleList :: "article list \<Rightarrow> pvalue" where
  "articleList articles = List_value (map articleValue articles)"

definition databaseState :: "article list \<Rightarrow> pvalue" where
  "databaseState articles = Object [(''articles'', articleList articles)]"

definition djangoInternalType :: "field_kind \<Rightarrow> go_error + string" where
  "djangoInternalType kind =
     (case kind of
        FieldAuto \<Rightarrow> Inr ''AutoField''
      | FieldChar \<Rightarrow> Inr ''CharField''
      | FieldBoolean \<Rightarrow> Inr ''BooleanField''
      | FieldKindOther s \<Rightarrow> Inl (ErrFmt ''unsupported schema metadata field kind %q'' [FStr s]))"

definition metadata_field :: "ir_field \<Rightarrow> go_error + pvalue" where
  "metadata_field field =
     map_sum id (\<lambda>internalType.
        Object
          [(''internal_type'', String_value internalType),
           (''max_length'', if fMaxLength field > 0 then Integer_value (sprint_int (fMaxLength field)) else Null_value),
           (''name'', String_value (fName field)), (''null'', Boolean_value (fNullable field)),
           (''primary_key'', Boolean_value (fPrimaryKey field))])
       (djangoInternalType (fKind field))"

definition metadataValue :: "ir_model \<Rightarrow> go_error + pvalue" where
  "metadataValue metadata =
     map_sum id (\<lambda>flds.
        Object [(''db_table'', String_value (mDBTable metadata)), (''fields'', List_value flds),
                (''model_name'', String_value (mName metadata))])
       (map_result metadata_field (mFields metadata))"

definition schemaModelMetadata :: "string \<Rightarrow> go_error + observation" where
  "schemaModelMetadata contractID =
     map_sum id (\<lambda>result.
        \<lparr>obID = contractID, obStatus = StatusObserved, obPhase = PhaseMetadata, obResult = Some result,
         obError = None, obDBState = None, obMetrics = None\<rparr>)
       (metadataValue articleMetadata)"

section \<open>Running a manifest\<close>

text \<open>
  The scenarios of the other files, by name: those the two other fixture maps of \<open>runner.go\<close>
  hold, and those its \<open>switch\<close> lists. \<open>rsScenario\<close> runs one of them.
\<close>

definition restart_scenario_names :: "string list" where
  "restart_scenario_names =
     map (\<lambda>s. ''django.migration.restart.'' @ s)
       [''absent_recorder_read'', ''empty_recorder_read'', ''record_visible_to_fresh_reader'',
        ''unrecord_hidden_from_fresh_reader'', ''database_alias_isolation'', ''applied_prefix_tail'',
        ''fully_applied_empty_plan'', ''unknown_legacy_record'', ''inconsistent_known_history'', ''failure_tail'']"

definition execution_scenario_names :: "string list" where
  "execution_scenario_names =
     map (\<lambda>s. ''django.migration.execute.'' @ s)
       [''linear_forward'', ''linear_backward'', ''applied_prefix_tail'', ''rollback_branch_preserves_unrelated'',
        ''forward_operation_failure'', ''backward_operation_failure'', ''forward_recorder_failure'',
        ''backward_recorder_failure'', ''mixed_direction_rejected'', ''empty_plan'']"

definition switch_scenarios :: "string list" where
  "switch_scenarios =
     map (\<lambda>s. ''django.query.'' @ s)
       [''exact'', ''ascii_icontains'', ''chained_and'', ''chain_preserves_source'', ''order_and_limit'',
        ''empty_result'', ''isnull'', ''unknown_field'', ''construction_has_no_io'', ''unsupported_lookup'']
     @ map (\<lambda>s. ''django.model.'' @ s)
       [''create_auto_pk'', ''create_nullable_variants'', ''partial_update_omits_changed_field'',
        ''partial_update_explicit_null'', ''instance_delete'']
     @ [''django.transaction.atomic_commit'', ''django.transaction.atomic_rollback'']
     @ map (\<lambda>s. ''django.migration.'' @ s)
       [''create_model'', ''add_nullable_field'', ''reverse_nullable_field'', ''atomic_failure'']
     @ map (\<lambda>s. ''django.model.save.'' @ s)
       [''new_auto_pk'', ''loaded_all_fields'', ''update_fields_named'', ''update_fields_empty'',
        ''update_fields_primary_key'', ''force_insert_conflict'', ''force_update_without_pk'',
        ''force_update_missing_row'', ''mutually_exclusive_force_flags'', ''explicit_pk_existing'',
        ''explicit_pk_missing'', ''atomic_rollback_instance_state'']
     @ map (\<lambda>s. ''django.query.cache.'' @ s)
       [''repeated_full_evaluation'', ''empty_full_evaluation'', ''stale_snapshot_and_fresh_queryset'',
        ''chained_queryset_independence'', ''count_cold_and_warm'', ''exists_cold_and_warm'', ''iterator_bypass'',
        ''index_partial_evaluation'', ''failed_evaluation_retry'', ''all_fresh_clone'', ''first_cold_and_warm'']"

record 'w runner_system =
  rsTables :: unicode_tables
  rsErrorText :: "go_error \<Rightarrow> string"
  rsParseTime :: "string \<Rightarrow> go_error option"
  rsDatabase :: "'w state_database"
  rsScenario :: "('w \<Rightarrow> go_error option \<times> 'w) \<Rightarrow> contract \<Rightarrow> ('w, observation) io_step"

definition runScenario :: "'w runner_system \<Rightarrow> ('w \<Rightarrow> go_error option \<times> 'w) \<Rightarrow> contract \<Rightarrow> ('w, observation) io_step" where
  "runScenario rs ctxErr c =
     (let scenario = ctScenario c in
      if scenario \<in> set (map fst migrationStateReconstructionFixtures)
      then migrationStateReconstructionScenario (rsTables rs) ctxErr (rsDatabase rs) c
      else if scenario \<in> set restart_scenario_names then rsScenario rs ctxErr c
      else if scenario \<in> set execution_scenario_names then rsScenario rs ctxErr c
      else if scenario \<in> set (map fst migrationPlanningFixtures)
      then migrationPlanningScenario (rsErrorText rs) ctxErr c
      else if scenario = ''django.schema.model_metadata'' then io_result (schemaModelMetadata (ctID c))
      else if scenario \<in> set switch_scenarios then rsScenario rs ctxErr c
      else io_result (Inl (ErrFmt ''unsupported scenario %q'' [FStr scenario])))"

fun run_contracts :: "'w runner_system \<Rightarrow> ('w \<Rightarrow> go_error option \<times> 'w) \<Rightarrow> contract list \<Rightarrow> ('w, observation list) io_step" where
  "run_contracts rs ctxErr [] = io_result (Inr [])"
| "run_contracts rs ctxErr (c # cs) =
     io_bind (io_check (ErrWrap ''generate GoDj observations before %s: %w'' [FStr (ctID c)]) ctxErr) (\<lambda>_.
     io_bind (io_wrap (ErrWrap ''generate GoDj observation %s: %w'' [FStr (ctID c)]) (runScenario rs ctxErr c)) (\<lambda>ob.
     io_bind (run_contracts rs ctxErr cs) (\<lambda>obs. io_result (Inr (ob # obs)))))"

text \<open>\<open>Generate\<close> of package \<open>godj\<close>; a nil context is \<open>None\<close>.\<close>

definition Generate_observations :: "'w runner_system \<Rightarrow> 'w go_context \<Rightarrow> profile \<Rightarrow> manifest \<Rightarrow> ('w, observation_suite) io_step" where
  "Generate_observations rs ctx p m =
     (case ctx of
        None \<Rightarrow> io_result (Inl (ErrNew ''generate GoDj observations: context is nil''))
      | Some ctxErr \<Rightarrow>
        (case Profile_Validate p of
           Some err \<Rightarrow> io_result (Inl (ErrWrap ''generate GoDj observations: profile: %w'' [] err))
         | None \<Rightarrow>
           (case Manifest_Validate m of
              Some err \<Rightarrow> io_result (Inl (ErrWrap ''generate GoDj observations: manifest: %w'' [] err))
            | None \<Rightarrow>
                if mfProfileID m \<noteq> prID p
                then io_result (Inl (ErrFmt ''generate GoDj observations: manifest profile_id %q does not match profile id %q''
                       [FStr (mfProfileID m), FStr (prID p)]))
                else
                  io_bind (run_contracts rs ctxErr (mfContracts m)) (\<lambda>obs.
                    let suite = \<lparr>osFormatVersion = protocol_FormatVersion, osProfile = Snapshot p, osContracts = obs\<rparr> in
                    case ValidateSuiteAgainst (rsParseTime rs) p m suite of
                      Some err \<Rightarrow> io_result (Inl (ErrWrap ''validate generated GoDj observations: %w'' [] err))
                    | None \<Rightarrow> io_result (Inr suite)))))"

section \<open>The commands\<close>

text \<open>What a command prints: formatted lines, and a prefixed error.\<close>

datatype output_line = Line string "fmt_arg list" | Failure string go_error

record command_result =
  crExit :: int
  crStdout :: "output_line list"
  crStderr :: "output_line list"

definition difference_line :: "difference \<Rightarrow> output_line" where
  "difference_line d = Line ''%s %s: %s (expected %s, actual %s)''
     [FStr (dfContractID d), FStr (dfPath d), FStr (dfMessage d), FStr (dfExpected d), FStr (dfActual d)]"

text \<open>The files of the commands, and the flags as package \<open>flag\<close> parses them.\<close>

record ('w, 'r) command_files =
  cfJSON :: "('w, 'r) json_files"
  cfMarshal :: "canonical_input \<Rightarrow> go_error + string"
  cfTemp :: "'w temp_files"

record command_flags =
  fgProfile :: string
  fgManifest :: string
  fgExpected :: string
  fgDeviationExpected :: string
  fgActual :: string
  fgRest :: nat

definition reportFailure :: "string \<Rightarrow> int \<Rightarrow> go_error \<Rightarrow> command_result" where
  "reportFailure command exit err = \<lparr>crExit = exit, crStdout = [], crStderr = [Failure command err]\<rparr>"

definition run_command :: "string \<Rightarrow> int \<Rightarrow> ('w, command_result) io_step \<Rightarrow> 'w \<Rightarrow> command_result \<times> 'w" where
  "run_command command exit body w =
     (case body w of (Inl err, w') \<Rightarrow> (reportFailure command exit err, w') | (Inr result, w') \<Rightarrow> (result, w'))"

definition transaction_model_change :: "string \<Rightarrow> change_policy" where
  "transaction_model_change index =
     \<lparr>cpDimension = DeviationMetrics, cpPath = ''steps['' @ index @ ''].transaction_model'', cpOperation = DeviationReplace\<rparr>"

definition migrationExecutionDeviationPolicy :: deviation_policy where
  "migrationExecutionDeviationPolicy =
     \<lparr>dpDecision = ''DEV-0001'',
      dpContracts =
       [\<lparr>kpID = ''MIG-018'', kpChanges = map transaction_model_change [''0'', ''1'', ''2'']\<rparr>,
        \<lparr>kpID = ''MIG-020'', kpChanges = map transaction_model_change [''0'', ''1'']\<rparr>,
        \<lparr>kpID = ''MIG-022'', kpChanges = map transaction_model_change [''0'', ''1'']\<rparr>,
        \<lparr>kpID = ''MIG-024'', kpChanges =
          [\<lparr>cpDimension = DeviationPhase, cpPath = '''', cpOperation = DeviationReplace\<rparr>,
           \<lparr>cpDimension = DeviationDBState, cpPath = ''after.managed_schema[0].columns[1]'', cpOperation = DeviationInsertBefore\<rparr>,
           transaction_model_change ''0'',
           \<lparr>cpDimension = DeviationMetrics, cpPath = ''steps[1].schema_outcome'', cpOperation = DeviationReplace\<rparr>,
           \<lparr>cpDimension = DeviationMetrics, cpPath = ''steps[1].status'', cpOperation = DeviationReplace\<rparr>,
           transaction_model_change ''1'']\<rparr>]\<rparr>"

text \<open>The manifest and suite to compare with, and the decision that changed them, if one did.\<close>

definition comparison_target :: "protocol_codec \<Rightarrow> (string \<Rightarrow> go_error option) \<Rightarrow> ('w, 'r) command_files \<Rightarrow> command_flags \<Rightarrow> profile \<Rightarrow> manifest
    \<Rightarrow> observation_suite \<Rightarrow> ('w, manifest \<times> observation_suite \<times> string) io_step" where
  "comparison_target codec pt files flags p m expected =
     (if list_ex (\<lambda>c. ctStatus c = ContractDeviation) (mfContracts m) \<and> fgDeviationExpected flags = ''''
      then io_result (Inl (ErrNew ''manifest contains deviation contracts but -deviation-expected is missing''))
      else if fgDeviationExpected flags = '''' then io_result (Inr (m, expected, ''''))
      else
        io_bind (LoadDeviationExpectation pt (cfJSON files) (fgDeviationExpected flags)) (\<lambda>e.
          io_result (map_sum id (\<lambda>(m', expected'). (m', expected', deDecision e))
            (PrepareDeviationExpectation codec p m expected e migrationExecutionDeviationPolicy))))"

definition write_actual :: "(string \<Rightarrow> go_error option) \<Rightarrow> ('w, 'r) command_files \<Rightarrow> 'w go_context \<Rightarrow> command_flags \<Rightarrow> observation_suite \<Rightarrow> ('w, unit) io_step" where
  "write_actual pt files ctx flags actual =
     (if fgActual flags = '''' then io_result (Inr ())
      else
        io_bind (io_result (wrap_result (ErrWrap ''encode actual observations: %w'' []) (MarshalCanonical pt (cfMarshal files) (Canonical (CanonicalSuite actual))))) (\<lambda>contents.
        io_wrap (ErrWrap ''write actual observations: %w'' []) (writeAtomic (cfTemp files) ctx (fgActual flags) contents)))"

definition check_result :: "manifest \<Rightarrow> string \<Rightarrow> difference list \<Rightarrow> command_result" where
  "check_result m decision differences =
     (if differences = []
      then \<lparr>crExit = 0,
        crStdout =
          [if decision = ''''
           then Line ''GoDj observations match the locked Django oracle for %d contracts'' [FInt (int (length (mfContracts m)))]
           else Line ''GoDj observations match the reviewed product expectation for %d contracts under %s''
                  [FInt (int (length (mfContracts m))), FStr decision]],
        crStderr = []\<rparr>
      else \<lparr>crExit = 1, crStdout = [],
        crStderr = map difference_line differences @ [Line ''godjcheck: %d difference(s)'' [FInt (int (length differences))]]\<rparr>)"

definition godjcheck_usage :: output_line where
  "godjcheck_usage = Line ''usage: godjcheck -profile PROFILE.json -manifest MANIFEST.json -expected ORACLE.json [-deviation-expected PRODUCT.json] [-actual-output ACTUAL.json]'' []"

definition godjcheck_body :: "protocol_codec \<Rightarrow> 'w runner_system \<Rightarrow> ('w, 'r) command_files \<Rightarrow> 'w go_context \<Rightarrow> command_flags
    \<Rightarrow> ('w, command_result) io_step" where
  "godjcheck_body codec rs files ctx flags =
     io_bind (LoadProfile (cfJSON files) (fgProfile flags)) (\<lambda>p.
     io_bind (LoadManifest (cfJSON files) (fgManifest flags)) (\<lambda>m.
     io_bind (LoadObservationSuite (rsParseTime rs) (cfJSON files) (fgExpected flags)) (\<lambda>expected.
     io_bind (io_result (wrap_result (ErrWrap ''locked Django oracle: %w'' [])
        (Compare (rsParseTime rs) (pcJSON codec) p m expected expected))) (\<lambda>_.
     io_bind (comparison_target codec (rsParseTime rs) files flags p m expected) (\<lambda>(comparisonManifest, comparisonExpected, decision).
     io_bind (Generate_observations rs ctx p comparisonManifest) (\<lambda>actual.
     io_bind (write_actual (rsParseTime rs) files ctx flags actual) (\<lambda>_.
     io_result (map_sum id (check_result m decision)
       (Compare (rsParseTime rs) (pcJSON codec) p comparisonManifest comparisonExpected actual)))))))))"

text \<open>
  \<open>run\<close> of \<open>godjcheck\<close>: the usage error, the nil context, then the check. When package \<open>flag\<close> fails to
  parse it prints its message (asked for help it has none) and calls the command's usage function.
\<close>

definition godjcheck_run :: "protocol_codec \<Rightarrow> 'w runner_system \<Rightarrow> ('w, 'r) command_files \<Rightarrow> 'w go_context
    \<Rightarrow> string option + command_flags \<Rightarrow> 'w \<Rightarrow> command_result \<times> 'w" where
  "godjcheck_run codec rs files ctx parsed w =
     (case parsed of
        Inl message \<Rightarrow>
          (\<lparr>crExit = 2, crStdout = [],
            crStderr = (case message of None \<Rightarrow> [] | Some s \<Rightarrow> [Line ''%s'' [FStr s]]) @ [godjcheck_usage]\<rparr>, w)
      | Inr flags \<Rightarrow>
          if fgProfile flags = '''' \<or> fgManifest flags = '''' \<or> fgExpected flags = '''' \<or> fgRest flags \<noteq> 0
          then (\<lparr>crExit = 2, crStdout = [], crStderr = [godjcheck_usage]\<rparr>, w)
          else if Option.is_none ctx
          then (\<lparr>crExit = 2, crStdout = [], crStderr = [Line ''godjcheck: context is nil'' []]\<rparr>, w)
          else run_command ''godjcheck:'' 2 (godjcheck_body codec rs files ctx flags) w)"

text \<open>\<open>main\<close> of \<open>observationcmp\<close>; \<open>fgActual\<close> is the flag \<open>-actual\<close>.\<close>

definition observationcmp_main :: "(string \<Rightarrow> go_error option) \<Rightarrow> json_text \<Rightarrow> ('w, 'r) command_files \<Rightarrow> command_flags
    \<Rightarrow> 'w \<Rightarrow> command_result \<times> 'w" where
  "observationcmp_main parse_time json files flags =
     (if fgProfile flags = '''' \<or> fgManifest flags = '''' \<or> fgExpected flags = '''' \<or> fgActual flags = '''' \<or> fgRest flags \<noteq> 0
      then (\<lambda>w. (\<lparr>crExit = 2, crStdout = [],
        crStderr = [Line ''usage: observationcmp -profile PROFILE.json -manifest MANIFEST.json -expected EXPECTED.json -actual ACTUAL.json'' []]\<rparr>, w))
      else run_command ''observationcmp:'' 2
        (io_bind (LoadProfile (cfJSON files) (fgProfile flags)) (\<lambda>p.
         io_bind (LoadManifest (cfJSON files) (fgManifest flags)) (\<lambda>m.
         io_bind (LoadObservationSuite parse_time (cfJSON files) (fgExpected flags)) (\<lambda>expected.
         io_bind (LoadObservationSuite parse_time (cfJSON files) (fgActual flags)) (\<lambda>actual.
         io_result (map_sum id (\<lambda>differences.
           if differences = []
           then \<lparr>crExit = 0, crStdout = [Line ''observations match for %d contracts'' [FInt (int (length (mfContracts m)))]],
                 crStderr = []\<rparr>
           else \<lparr>crExit = 1, crStdout = [],
                 crStderr = map difference_line differences
                   @ [Line ''observationcmp: %d difference(s)'' [FInt (int (length differences))]]\<rparr>)
           (Compare parse_time json p m expected actual))))))))"

text \<open>\<open>main\<close> of \<open>contractcheck\<close>; \<open>fgExpected\<close> is the flag \<open>-suite\<close>.\<close>

definition contractcheck_main :: "(string \<Rightarrow> go_error option) \<Rightarrow> ('w, 'r) command_files \<Rightarrow> command_flags
    \<Rightarrow> 'w \<Rightarrow> command_result \<times> 'w" where
  "contractcheck_main parse_time files flags =
     (if fgProfile flags = '''' \<or> fgManifest flags = '''' \<or> fgRest flags \<noteq> 0
      then (\<lambda>w. (\<lparr>crExit = 2, crStdout = [],
        crStderr = [Line ''usage: contractcheck -profile PROFILE.json -manifest MANIFEST.json [-suite SUITE.json]'' []]\<rparr>, w))
      else run_command ''contractcheck:'' 1
        (io_bind (LoadProfile (cfJSON files) (fgProfile flags)) (\<lambda>p.
         io_bind (LoadManifest (cfJSON files) (fgManifest flags)) (\<lambda>m.
         if mfProfileID m \<noteq> prID p
         then io_result (Inl (ErrFmt ''manifest profile_id %q does not match profile id %q'' [FStr (mfProfileID m), FStr (prID p)]))
         else if fgExpected flags = ''''
         then io_result (Inr \<lparr>crExit = 0,
           crStdout = [Line ''valid profile %s and manifest with %d ordered contracts'' [FStr (prID p), FInt (int (length (mfContracts m)))]],
           crStderr = []\<rparr>)
         else
           io_bind (LoadObservationSuite parse_time (cfJSON files) (fgExpected flags)) (\<lambda>suite.
           case ValidateSuiteAgainst parse_time p m suite of
             Some err \<Rightarrow> io_result (Inl err)
           | None \<Rightarrow> io_result (Inr \<lparr>crExit = 0,
               crStdout = [Line ''valid observation suite for profile %s with %d ordered contracts''
                 [FStr (prID p), FInt (int (length (osContracts suite)))]],
               crStderr = []\<rparr>))))))"

section \<open>Steps that succeed\<close>

lemma run_command_result:
  "fst (run_command command exit body w) =
     (case fst (body w) of Inl err \<Rightarrow> reportFailure command exit err | Inr result \<Rightarrow> result)"
  by (simp add: run_command_def split: prod.split sum.split)

text \<open>Files that always read the same.\<close>

definition reads :: "(string \<Rightarrow> go_error option) \<Rightarrow> ('w, 'r) command_files \<Rightarrow> command_flags \<Rightarrow> profile \<Rightarrow> manifest \<Rightarrow> observation_suite \<Rightarrow> bool" where
  "reads pt files flags p m expected \<longleftrightarrow>
     (\<forall>w. fst (LoadProfile (cfJSON files) (fgProfile flags) w) = Inr p \<and> fst (LoadManifest (cfJSON files) (fgManifest flags) w) = Inr m
        \<and> fst (LoadObservationSuite pt (cfJSON files) (fgExpected flags) w) = Inr expected)"

text \<open>The flags of a plain check: the three files, no deviations, nothing to write.\<close>

definition plain_check :: "command_flags \<Rightarrow> bool" where
  "plain_check flags \<longleftrightarrow> fgProfile flags \<noteq> '''' \<and> fgManifest flags \<noteq> '''' \<and> fgExpected flags \<noteq> ''''
     \<and> fgDeviationExpected flags = '''' \<and> fgActual flags = '''' \<and> fgRest flags = 0"

lemma run_contracts_Inr:
  assumes "\<And>w. fst (ctxErr w) = None" and "list_all2 (\<lambda>c ob. \<forall>w. fst (runScenario rs ctxErr c w) = Inr ob) cs obs"
  shows "fst (run_contracts rs ctxErr cs w) = Inr obs"
  using assms(2)
  by (induction cs obs arbitrary: w rule: list_all2_induct) (simp_all add: io_bind_Inr assms(1))

lemma Generate_observations_Inr:
  assumes "\<And>w. fst (ctxErr w) = None"
    and "Profile_Validate p = None" "Manifest_Validate m = None" "mfProfileID m = prID p"
    and "list_all2 (\<lambda>c ob. \<forall>w. fst (runScenario rs ctxErr c w) = Inr ob) (mfContracts m) obs"
    and "suite = \<lparr>osFormatVersion = protocol_FormatVersion, osProfile = Snapshot p, osContracts = obs\<rparr>"
    and "ValidateSuiteAgainst (rsParseTime rs) p m suite = None"
  shows "fst (Generate_observations rs (Some ctxErr) p m w) = Inr suite"
  using assms(2-4,6,7) run_contracts_Inr[OF assms(1,5)]
  by (auto simp: Generate_observations_def io_bind_Inr Let_def)

text \<open>What an exit status of zero means.\<close>

lemma check_result_zero: "crExit (check_result m d differences) = 0 \<longleftrightarrow> differences = []"
  by (simp add: check_result_def)

lemma comparison_target_Inr:
  "fst (comparison_target codec pt files flags p m expected w) = Inr (cm, ce, decision) \<Longrightarrow>
     (if fgDeviationExpected flags = ''''
      then cm = m \<and> ce = expected \<and> \<not> list_ex (\<lambda>c. ctStatus c = ContractDeviation) (mfContracts m)
      else \<exists>e. PrepareDeviationExpectation codec p m expected e migrationExecutionDeviationPolicy = Inr (cm, ce))"
  by (auto simp: comparison_target_def io_bind_Inr split: if_splits)

lemma godjcheck_body_zero:
  assumes "fst (godjcheck_body codec rs files ctx flags w) = Inr result" and "crExit result = 0"
    and "reads (rsParseTime rs) files flags p m expected"
  shows "\<exists>cm ce suite w'.
    (if fgDeviationExpected flags = ''''
     then cm = m \<and> ce = expected \<and> \<not> list_ex (\<lambda>c. ctStatus c = ContractDeviation) (mfContracts m)
     else \<exists>e. PrepareDeviationExpectation codec p m expected e migrationExecutionDeviationPolicy = Inr (cm, ce))
    \<and> fst (Generate_observations rs ctx p cm w') = Inr suite
    \<and> Compare (rsParseTime rs) (pcJSON codec) p cm ce suite = Inr []"
proof -
  from assms(1,3) obtain cm ce decision suite w1 w2 where
    target: "fst (comparison_target codec (rsParseTime rs) files flags p m expected w1) = Inr (cm, ce, decision)"
    and suite: "fst (Generate_observations rs ctx p cm w2) = Inr suite"
    and result: "map_sum id (check_result m decision) (Compare (rsParseTime rs) (pcJSON codec) p cm ce suite) = Inr result"
    by (auto simp: godjcheck_body_def io_bind_Inr reads_def)
  from result assms(2) have "Compare (rsParseTime rs) (pcJSON codec) p cm ce suite = Inr []"
    by (auto simp: check_result_zero)
  with comparison_target_Inr[OF target] suite show ?thesis by blast
qed

text \<open>
  C40: an exit status of zero of \<open>godjcheck\<close> means what it says: the observations the product
  generated for the manifest are valid and agree, contract by contract, with the locked ones, or, when
  the manifest has deviations, with the expectation derived from a reviewed deviation file under
  the policy built into the command; without such a file no contract is a deviation.
\<close>

theorem godjcheck_zero_means_agreement:
  assumes "crExit (fst (godjcheck_run codec rs files ctx (Inr flags) w)) = 0" and "reads (rsParseTime rs) files flags p m expected"
  shows "\<exists>cm ce suite w'.
    (if fgDeviationExpected flags = ''''
     then cm = m \<and> ce = expected \<and> \<not> list_ex (\<lambda>c. ctStatus c = ContractDeviation) (mfContracts m)
     else \<exists>e. PrepareDeviationExpectation codec p m expected e migrationExecutionDeviationPolicy = Inr (cm, ce))
    \<and> fst (Generate_observations rs ctx p cm w') = Inr suite
    \<and> ValidateSuiteAgainst (rsParseTime rs) p cm ce = None \<and> ValidateSuiteAgainst (rsParseTime rs) p cm suite = None
    \<and> list_all2 observations_agree (osContracts ce) (osContracts suite)"
proof -
  have "\<exists>result. fst (godjcheck_body codec rs files ctx flags w) = Inr result \<and> crExit result = 0"
    using assms(1)
    by (auto simp: godjcheck_run_def run_command_result reportFailure_def split: if_splits sum.splits)
  then show ?thesis using godjcheck_body_zero[OF _ _ assms(2)] Compare_Nil by metis
qed

section \<open>An example\<close>

text \<open>A manifest of eight contracts on the metadata of the article, and the suite locked for it.\<close>

definition metadata_contract :: "string \<Rightarrow> contract" where
  "metadata_contract ident =
     \<lparr>ctID = ident, ctTitle = ''Model metadata'', ctScenario = ''django.schema.model_metadata'', ctPhase = PhaseMetadata,
      ctStatus = ContractPassing, ctProvenance = [example_source], ctComparison = [CompareResult]\<rparr>"

definition metadata_ids :: "string list" where
  "metadata_ids = [''SCH-001'', ''SCH-002'', ''SCH-003'', ''SCH-004'', ''SCH-005'', ''SCH-006'', ''SCH-007'', ''SCH-008'']"

definition metadata_manifest :: manifest where
  "metadata_manifest =
     \<lparr>mfFormatVersion = 2, mfProfileID = prID locked_profile, mfContracts = map metadata_contract metadata_ids\<rparr>"

definition locked_field :: "string \<Rightarrow> string \<Rightarrow> pvalue \<Rightarrow> bool \<Rightarrow> bool \<Rightarrow> pvalue" where
  "locked_field name internal maxLength nullable primary =
     Object [(''internal_type'', String_value internal), (''max_length'', maxLength), (''name'', String_value name),
       (''null'', Boolean_value nullable), (''primary_key'', Boolean_value primary)]"

definition locked_metadata :: pvalue where
  "locked_metadata =
     Object [(''db_table'', String_value ''godj_conformance_article''),
       (''fields'', List_value
         [locked_field ''id'' ''AutoField'' Null_value False True,
          locked_field ''title'' ''CharField'' (Integer_value ''200'') False False,
          locked_field ''published'' ''BooleanField'' Null_value False False,
          locked_field ''summary'' ''CharField'' (Integer_value ''200'') True False]),
       (''model_name'', String_value ''article'')]"

definition metadata_observation :: "string \<Rightarrow> observation" where
  "metadata_observation ident =
     \<lparr>obID = ident, obStatus = StatusObserved, obPhase = PhaseMetadata, obResult = Some locked_metadata, obError = None,
      obDBState = None, obMetrics = None\<rparr>"

definition metadata_suite :: observation_suite where
  "metadata_suite =
     \<lparr>osFormatVersion = 2, osProfile = Snapshot locked_profile, osContracts = map metadata_observation metadata_ids\<rparr>"

text \<open>Files that hold these three documents, and a system whose other scenarios are absent.\<close>

definition metadata_files :: "(unit, unit) command_files" where
  "metadata_files =
     \<lparr>cfJSON = \<lparr>jfOpen = \<lambda>_. io_result (Inr ()), jfClose = \<lambda>_ w. w, jfTrailing = \<lambda>_. TrailingEOF,
        jfProfile = \<lambda>r. Inr (locked_profile, r), jfManifest = \<lambda>r. Inr (metadata_manifest, r),
        jfSuite = \<lambda>r. Inr (metadata_suite, r), jfExpectation = \<lambda>_. Inl (ErrNew ''absent'')\<rparr>,
      cfMarshal = \<lambda>_. Inl (ErrNew ''not encoded''),
      cfTemp = \<lparr>tfDir = id, tfBase = id, tfCreateTemp = \<lambda>_ _. io_result (Inl (ErrNew ''absent'')), tfChmod = \<lambda>_ w. (None, w),
        tfWrite = \<lambda>_ _ w. (None, w), tfSync = \<lambda>_ w. (None, w), tfClose = \<lambda>_ w. (None, w),
        tfRename = \<lambda>_ _ w. (None, w), tfRemove = \<lambda>_ w. (None, w)\<rparr>\<rparr>"

definition metadata_flags :: command_flags where
  "metadata_flags = \<lparr>fgProfile = ''profile.json'', fgManifest = ''manifest.json'', fgExpected = ''oracle.json'',
     fgDeviationExpected = '''', fgActual = '''', fgRest = 0\<rparr>"

definition metadata_system :: "unit runner_system" where
  "metadata_system = \<lparr>rsTables = ascii_tables, rsErrorText = \<lambda>_. '''', rsParseTime = \<lambda>_. None,
     rsDatabase = quiet_database False (List_value []), rsScenario = \<lambda>_ _. io_result (Inl (ErrNew ''absent''))\<rparr>"

lemma metadata_observed: "schemaModelMetadata ident = Inr (metadata_observation ident)"
  unfolding schemaModelMetadata_def metadata_observation_def by simp code_simp

lemma metadata_scenario: "runScenario metadata_system ctxErr (metadata_contract ident) w = (Inr (metadata_observation ident), w)"
  by (simp add: runScenario_def metadata_contract_def metadata_observed io_result_def migrationStateReconstructionFixtures_def
      migrationPlanningFixtures_def restart_scenario_names_def execution_scenario_names_def)

lemma metadata_valid:
  "Profile_Validate locked_profile = None" "Manifest_Validate metadata_manifest = None"
  "ValidateSuiteAgainst (\<lambda>_. None) locked_profile metadata_manifest metadata_suite = None"
  by code_simp+

lemma metadata_generated:
  "fst (Generate_observations metadata_system (Some (\<lambda>w. (None, w))) locked_profile metadata_manifest w) = Inr metadata_suite"
proof (rule Generate_observations_Inr[OF _ metadata_valid(1,2)])
  show "list_all2 (\<lambda>c ob. \<forall>w. fst (runScenario metadata_system (\<lambda>w. (None, w)) c w) = Inr ob) (mfContracts metadata_manifest)
      (osContracts metadata_suite)"
    by (simp add: metadata_manifest_def metadata_suite_def list_all2_conv_all_nth metadata_scenario)
  show "ValidateSuiteAgainst (rsParseTime metadata_system) locked_profile metadata_manifest metadata_suite = None"
    using metadata_valid(3) by (simp add: metadata_system_def)
qed (simp_all add: metadata_manifest_def metadata_suite_def protocol_FormatVersion_def)

lemma metadata_read:
  "reads (rsParseTime metadata_system) metadata_files metadata_flags locked_profile metadata_manifest metadata_suite"
  using metadata_valid
  by (simp add: reads_def metadata_files_def LoadProfile_def LoadManifest_def LoadObservationSuite_def io_bind_Inr
      loadJSON_Inr decodeStrict_Inr ValidateSuiteAgainst_None metadata_system_def)

lemma metadata_agrees:
  "Compare (rsParseTime metadata_system) (pcJSON example_codec) locked_profile metadata_manifest metadata_suite metadata_suite = Inr []"
proof -
  have "list_all2 observations_agree (osContracts metadata_suite) (osContracts metadata_suite)"
    by (simp add: list_all2_refl observations_agree_def errors_agree_def metadata_suite_def list_all2_map1 list_all2_map2
        metadata_observation_def)
  moreover have "list_all (\<lambda>ob. obStatus ob = StatusObserved) (osContracts metadata_suite)"
    by (simp add: metadata_suite_def list_all_iff metadata_observation_def)
  ultimately show ?thesis using metadata_valid(3) by (simp add: Compare_Nil metadata_system_def)
qed

text \<open>The check passes, so the generated metadata agrees with the locked metadata.\<close>

lemma metadata_check_passes:
  "crExit (fst (godjcheck_run example_codec metadata_system metadata_files (Some (\<lambda>w. (None, w))) (Inr metadata_flags) ())) = 0"
proof -
  have "\<not> list_ex (\<lambda>c. ctStatus c = ContractDeviation) (mfContracts metadata_manifest)"
    by (simp add: metadata_manifest_def metadata_ids_def metadata_contract_def)
  then have "fst (godjcheck_body example_codec metadata_system metadata_files (Some (\<lambda>w. (None, w))) metadata_flags ()) =
      Inr (check_result metadata_manifest '''' [])"
    using metadata_read
    by (auto simp: godjcheck_body_def io_bind_Inr reads_def comparison_target_def write_actual_def metadata_generated
        metadata_agrees metadata_flags_def)
  then show ?thesis by (simp add: godjcheck_run_def metadata_flags_def run_command_result check_result_zero)
qed

theorem godjcheck_zero_means_agreement_witness:
  "\<exists>cm ce suite w'. cm = metadata_manifest \<and> ce = metadata_suite
     \<and> fst (Generate_observations metadata_system (Some (\<lambda>w. (None, w))) locked_profile cm w') = Inr suite
     \<and> list_all2 observations_agree (osContracts ce) (osContracts suite)"
  using godjcheck_zero_means_agreement[OF metadata_check_passes metadata_read] by (auto simp: metadata_flags_def)

end
