(* ===== verification/Spec2Isabelle.thy ===== *)
theory Spec2Isabelle
  imports Plan_Execution Orm_Rows Orm_All Orm_Dynamic Codegen_Write Conformance_Runner
begin

text \<open>
  A verification development for godj, a framework in Go that follows Django's models, queries and
  migrations. All paths below are under \<open>src/\<close>.

  \<^bold>\<open>The program.\<close> A model is declared in Go (package \<open>schema\<close>), normalized into the Schema IR
  (\<open>schema/ir\<close>) and rendered into a typed Go source (\<open>codegen\<close>). Programs use the generated source
  through the query sets and writes of package \<open>orm\<close>, which build the database-independent plans of
  package \<open>query\<close>; \<open>db/sqlite\<close> compiles the plans to SQL and runs them. Package \<open>migrations\<close> plans
  which migrations to apply or roll back, runs each in a transaction of a backend, and reconstructs
  historical project states from migration definitions. The conformance tools run all this on locked
  scenarios and compare what they observe with what Django was observed to do.

  \<^bold>\<open>Conventions.\<close> A Go function that returns a value and an error returns a sum, \<open>Inl\<close> the error; one that
  returns an error only returns an option. Strings are byte strings (\<open>string\<close> with characters below
  256); \<open>int\<close> and \<open>int64\<close> values are \<open>int\<close> where the code only compares, stores or prints them and
  \<open>64 word\<close> where it computes with them (\<open>QuerySet.At\<close>, \<open>Limit\<close>, \<open>Count\<close>). A Go map that is only looked
  up is a function or an association list; where the code sorts its keys so does the model. Calls with
  effects take a world and return it. A context is \<open>None\<close> when nil, and otherwise the call of its method
  \<open>Err\<close>, which may answer differently each time. The bodies of Go functions keep their names; a second
  definition inside one function (the body of a loop, a closure) has a name of its own and
  the lines of that part.

  \<^bold>\<open>Foundations.\<close> \<open>Prelude\<close>: the result type, checked loops, sorting, association lists, the collections of
  hints. \<open>Go_Std\<close>: UTF-8, decimal printing, the functions of \<open>strings\<close> the program uses; Unicode's tables
  are the parameter \<open>unicode_tables\<close>. \<open>Migration_Key\<close>, \<open>Go_Errors\<close>: migration keys with their order
  (an instance of \<open>linorder\<close>) and the error values of the program. \<open>Go_Errors\<close> keeps the structure of
  an error (category, code, operands, what it wraps); the rendered text is not modelled.

  \<^bold>\<open>Schema.\<close> \<open>Schema_IR\<close> (\<open>schema/ir/types.go\<close>, \<open>normalize.go\<close>): \<open>Normalize\<close> with every check, decided by a
  declarative specification, idempotent. \<open>Schema_DSL\<close> (\<open>schema/schema.go\<close>, \<open>examples/article/modeldef\<close>):
  model and field options and \<open>Build\<close>.

  \<^bold>\<open>Migrations.\<close> \<open>Migration_Types\<close>, \<open>Project_State\<close> (\<open>state.go\<close>, \<open>operation.go\<close>): project states, the two
  operations forward and backward, the invariant \<open>state_wf\<close>. \<open>Dependency_Cycles\<close>, \<open>Planner_Graph\<close>
  (\<open>planner_graph.go\<close>): the dependency graph, Tarjan's search for a cycle, \<open>newPlannerGraph\<close>. \<open>Planner\<close>
  (\<open>planner.go\<close>): targets, forward and backward plans, histories; a plan is a legal schedule, reaches its
  target, and exists exactly for known targets and consistent histories. \<open>Executor\<close> (\<open>executor.go\<close>):
  one migration, over the transaction interface of \<open>migrations/backend\<close>, a record of operations; the locale
  \<open>atomic_backend_laws\<close> states its laws. \<open>Execution\<close> (\<open>execution.go\<close>): a whole plan. \<open>Reconstructor\<close>
  (\<open>reconstructor.go\<close>, \<open>history.go\<close>): the state before, after or at targets and of an applied history.

  \<^bold>\<open>SQLite.\<close> \<open>Query_AST\<close> (package \<open>query\<close>), \<open>Sqlite_Compiler\<close> (\<open>compiler.go\<close>, \<open>write.go\<close>,
  \<open>migration_sql.go\<close>): SQL text and arguments. \<open>Sql_Reading\<close> and \<open>Mutation_Reading\<close> read the text back with
  SQL's lexical rules: the tokens are those of the plan and nothing of a value or a name escapes into the
  statement. \<open>Sqlite_Driver\<close>: \<open>database/sql\<close> over an engine given as a record of functions (a parameter).
  \<open>Sqlite_Inspect\<close> and \<open>Sqlite_Migrations\<close> (\<open>migration_backend.go\<close>): the guards of a column drop, the
  migration transaction. \<open>Sqlite_Execution\<close> interprets the locale of the executor on them; \<open>Plan_Execution\<close>
  joins planner, executor and project states. \<open>Sqlite_Session\<close> (\<open>backend.go\<close>, \<open>transaction.go\<close>,
  \<open>migration_history.go\<close>): queries, one-row writes, \<open>Atomic\<close>, \<open>Close\<close> and the history reader.

  \<^bold>\<open>ORM.\<close> \<open>Orm_Model\<close> (\<open>field.go\<close>, \<open>change.go\<close>, \<open>mutation.go\<close>, \<open>descriptor.go\<close>), \<open>Orm_Write\<close>
  (\<open>write.go\<close>), \<open>Orm_Save\<close> (\<open>save.go\<close>), \<open>Orm_Query\<close> (\<open>manager.go\<close>), \<open>Orm_All\<close> (the concurrent
  evaluation of \<open>All\<close> as a step relation, with its invariant and the bound on its steps), \<open>Orm_Dynamic\<close>
  (\<open>dynamic.go\<close>). \<open>Orm_Compile\<close>: what the ORM accepts the compiler compiles. \<open>Orm_Rows\<close>: over a database
  that keeps rows, what \<open>Save\<close>, \<open>Create\<close> and \<open>Update\<close> leave in them. \<open>Article\<close>: the generated model of
  the example application.

  \<^bold>\<open>Code generation.\<close> \<open>Codegen\<close> (\<open>generate.go\<close>) renders the source; rendering the example's schema gives
  the committed file up to blanks, which the formatter sets. \<open>Codegen_Names\<close>: a scanner of declarations
  shows that an accepted schema declares no name twice. \<open>Codegen_Write\<close> (\<open>write.go\<close>,
  \<open>internal/cmd/m1generate\<close>): writing the file over system calls that may fail.

  \<^bold>\<open>Conformance.\<close> \<open>Protocol_Value\<close>, \<open>Protocol_Suite\<close>, \<open>Protocol_Compare\<close>, \<open>Protocol_Deviation\<close>
  (\<open>conformance/internal/protocol\<close>): normalized values, manifests and observations with their validation,
  comparison, and the expectation derived from a reviewed deviation. \<open>Conformance_Planning\<close>,
  \<open>Conformance_Reconstruction\<close> (\<open>conformance/runners/godj\<close>): the planner and reconstruction scenarios;
  what a reconstruction observes does not depend on the live schema. \<open>Io_Steps\<close>: the steps with input
  and output these theories share. \<open>Protocol_Load\<close> (\<open>load.go\<close>, \<open>canonical.go\<close>, \<open>writeAtomic\<close>): strict loading,
  canonical writing, the atomic replacement of a file. \<open>Conformance_Runner\<close>: the dispatch, \<open>Generate\<close>
  and the commands; an exit status of zero means agreement.

  \<^bold>\<open>Parameters and their hypotheses.\<close> Code outside the repository is an argument: the SQL engine
  (\<open>sqlite_driver\<close>, a record that says for every call what it returns and what it does to a database of any
  type; no law is assumed of it), \<open>db.Mutator\<close> and \<open>db.Queryer\<close> in the theories of the ORM (laws about
  rows in \<open>Orm_Rows\<close>, about the rows of a query in \<open>Orm_Query\<close>), the system calls (a temporary file is
  a new one), gofmt and the Go parser, SHA-256, JSON, \<open>time.Parse\<close>, the live database beside a
  reconstruction (\<open>state_database\<close>, of which nothing is assumed but that a history read twice is the same),
  and the Unicode tables, which are ASCII only in the examples. Every hypothesis is met by a concrete
  instance in a witness.

  \<^bold>\<open>Specifications.\<close> The properties are stated over notions of their own, not over the functions they are
  about: tokens of SQL, rows of a table, the log of the plans a backend is asked for, words in a
  statement, the places of a value and what a change does there, the files of a directory.

  \<^bold>\<open>Limits of the claims.\<close> The guard of a native column drop looks at foreign keys byte for byte, so it does
  not exclude a reference in another spelling, which SQLite would resolve
  (\<open>folded_foreign_key_passes_guard\<close>). \<open>Update\<close> returns the columns outside its patch from the model it was
  given, which may be older than the row. An operation type outside the repository that embeds a built-in
  operation is modelled with the methods it inherits, not with an override of \<open>App\<close> or \<open>Kind\<close>. In the
  concurrent \<open>All\<close> a call of the backend returns, and the error of the rows does not depend on how many
  were read. \<open>verifyTargetPackage\<close> of \<open>m1generate\<close> is a call that changes none of the files.

  \<^bold>\<open>Loops.\<close> No definition uses fuel. Loops are structural recursions or have a termination proof:
  the visit of the cycle search (\<open>visitParents\<close>) decreases the set of unvisited nodes, the closures of
  the planner (\<open>collectForward\<close>, \<open>drainForward\<close> and their backward twins) the nodes not yet seen or left,
  decoding and quoting
  decrease the text left, the tree of a joined error decreases its size.

  \<^bold>\<open>Not modelled.\<close> The JSON text of values (\<open>MarshalJSON\<close>, \<open>UnmarshalJSON\<close>), as \<open>encoding/json\<close> reads and
  writes it; opening databases through the driver; the conformance scenarios that drive a live SQLite
  database (execution, restart, schema migration, query cache): what they observe is computed by SQL itself,
  and what they call is modelled and proved above; the rendering of errors as text; mutexes of sequential
  code; goroutines outside \<open>All\<close>. The aliasing of the slices a deviation expectation shares with its
  reference is not observable because both are only read.
\<close>

end
